(* ===== verification/Bridge_Prelude.thy ===== *)
theory Bridge_Prelude
  imports Main "HOL-Library.Word"
begin

text \<open>
  Shared vocabulary of the development.

  \<^item> Fallible code returns \<open>'e + 'a\<close>, \<open>Inl\<close> for Rust's \<open>Err\<close>; \<open>result_bind\<close> is the
    question mark operator.
  \<^item> A \<open>string\<close> is the UTF-8 byte sequence of a Rust \<open>String\<close>, so \<open>length\<close> is
    \<open>String::len\<close>. Code that counts characters (the reply projector) uses \<open>ustring\<close>, the list
    of Unicode scalar values, with \<open>ulen\<close> for its UTF-8 length.
  \<^item> \<open>u32\<close>, \<open>u64\<close>, \<open>usize\<close> values are \<open>nat\<close>, \<open>i64\<close> values are \<open>int\<close>, with the saturating
    operations of the source written out below (\<open>usize\<close> is 64 bits wide). Additions that the
    source leaves unchecked are on quantities whose bounds are proved.
  \<^item> \<open>u32::from_str\<close> and \<open>u32::to_string\<close> are \<open>parse_u32\<close> and \<open>nat_to_string\<close>.
\<close>

section \<open>Results\<close>

type_synonym ('e, 'a) result = "'e + 'a"

fun result_bind :: "('e, 'a) result \<Rightarrow> ('a \<Rightarrow> ('e, 'b) result) \<Rightarrow> ('e, 'b) result" where
  "result_bind (Inl e) f = Inl e"
| "result_bind (Inr a) f = f a"

fun result_map :: "('a \<Rightarrow> 'b) \<Rightarrow> ('e, 'a) result \<Rightarrow> ('e, 'b) result" where
  "result_map f (Inl e) = Inl e"
| "result_map f (Inr a) = Inr (f a)"

fun is_ok :: "('e, 'a) result \<Rightarrow> bool" where
  "is_ok (Inl e) = False"
| "is_ok (Inr a) = True"

text \<open>A guard with an early return, a run of guards, and a loop of guards.\<close>

definition ensure :: "bool \<Rightarrow> 'e \<Rightarrow> ('e, unit) result" where
  "ensure b e = (if b then Inr () else Inl e)"

fun all_ok :: "('e, unit) result list \<Rightarrow> ('e, unit) result" where
  "all_ok [] = Inr ()"
| "all_ok (r # rs) = result_bind r (\<lambda>_. all_ok rs)"

fun for_each :: "('a \<Rightarrow> ('e, unit) result) \<Rightarrow> 'a list \<Rightarrow> ('e, unit) result" where
  "for_each f [] = Inr ()"
| "for_each f (x # xs) = result_bind (f x) (\<lambda>_. for_each f xs)"

section \<open>Machine integers\<close>

definition u32_max :: nat where
  "u32_max = 4294967295"

definition u64_max :: nat where
  "u64_max = 18446744073709551615"

definition i64_max :: int where
  "i64_max = 9223372036854775807"

definition i64_min :: int where
  "i64_min = - 9223372036854775808"

definition sat_add_u32 :: "nat \<Rightarrow> nat \<Rightarrow> nat" where
  "sat_add_u32 a b = min (a + b) u32_max"

definition sat_add_u64 :: "nat \<Rightarrow> nat \<Rightarrow> nat" where
  "sat_add_u64 a b = min (a + b) u64_max"

definition sat_mul_u64 :: "nat \<Rightarrow> nat \<Rightarrow> nat" where
  "sat_mul_u64 a b = min (a * b) u64_max"

definition sat_i64 :: "int \<Rightarrow> int" where
  "sat_i64 x = max i64_min (min i64_max x)"

definition sat_add_i64 :: "int \<Rightarrow> int \<Rightarrow> int" where
  "sat_add_i64 a b = sat_i64 (a + b)"

definition sat_sub_i64 :: "int \<Rightarrow> int \<Rightarrow> int" where
  "sat_sub_i64 a b = sat_i64 (a - b)"

section \<open>Strings\<close>

type_synonym byte = "8 word"
type_synonym bytes = "byte list"

fun strip_prefix :: "string \<Rightarrow> string \<Rightarrow> string option" where
  "strip_prefix [] s = Some s"
| "strip_prefix (p # ps) [] = None"
| "strip_prefix (p # ps) (c # cs) = (if p = c then strip_prefix ps cs else None)"

definition digit_char :: "nat \<Rightarrow> char" where
  "digit_char d = char_of (48 + d)"

definition digit_value :: "char \<Rightarrow> nat option" where
  "digit_value c = (let n = of_char c :: nat in if 48 \<le> n \<and> n \<le> 57 then Some (n - 48) else None)"

function nat_to_string :: "nat \<Rightarrow> string" where
  "nat_to_string n =
     (if n < 10 then [digit_char n] else nat_to_string (n div 10) @ [digit_char (n mod 10)])"
  by pat_completeness auto
termination
  by (relation "measure id") auto

declare nat_to_string.simps [simp del]

fun parse_digits :: "nat \<Rightarrow> string \<Rightarrow> nat option" where
  "parse_digits acc [] = Some acc"
| "parse_digits acc (c # cs) =
     (case digit_value c of None \<Rightarrow> None | Some d \<Rightarrow> parse_digits (10 * acc + d) cs)"

definition parse_u32 :: "string \<Rightarrow> nat option" where
  "parse_u32 s =
     (let digits = (case s of c # cs \<Rightarrow> if c = CHR ''+'' then cs else s | [] \<Rightarrow> s)
      in if digits = [] then None
         else case parse_digits 0 digits of
                None \<Rightarrow> None
              | Some n \<Rightarrow> if n \<le> u32_max then Some n else None)"

definition int_to_string :: "int \<Rightarrow> string" where
  "int_to_string i = (if i < 0 then CHR ''-'' # nat_to_string (nat (- i)) else nat_to_string (nat i))"

section \<open>Unicode text\<close>

type_synonym uchar = nat
type_synonym ustring = "uchar list"

definition ustr :: "string \<Rightarrow> ustring" where
  "ustr s = map of_char s"

definition len_utf8 :: "uchar \<Rightarrow> nat" where
  "len_utf8 c = (if c < 128 then 1 else if c < 2048 then 2 else if c < 65536 then 3 else 4)"

definition ulen :: "ustring \<Rightarrow> nat" where
  "ulen s = sum_list (map len_utf8 s)"

section \<open>Facts shared by the components\<close>

named_theorems table_simps \<open>how a row update acts on the columns of a table\<close>
named_theorems sat_defs \<open>the saturating operations and their bounds\<close>

lemmas [sat_defs] =
  u32_max_def u64_max_def i64_max_def i64_min_def
  sat_add_u32_def sat_add_u64_def sat_mul_u64_def sat_i64_def sat_add_i64_def sat_sub_i64_def

lemma result_bind_Inr_iff [simp]:
  "result_bind r f = Inr b \<longleftrightarrow> (\<exists>a. r = Inr a \<and> f a = Inr b)"
  by (cases r) auto

lemma result_bind_Inl_iff:
  "result_bind r f = Inl e \<longleftrightarrow> r = Inl e \<or> (\<exists>a. r = Inr a \<and> f a = Inl e)"
  by (cases r) auto

lemma result_map_Inr_iff [simp]: "result_map f r = Inr b \<longleftrightarrow> (\<exists>a. r = Inr a \<and> b = f a)"
  by (cases r) auto

lemma ensure_iff [simp]: "ensure b e = Inr u \<longleftrightarrow> b" "ensure b e = Inl e' \<longleftrightarrow> \<not> b \<and> e' = e"
  by (auto simp: ensure_def)

lemma for_each_iff: "for_each f xs = Inr u \<longleftrightarrow> list_all (\<lambda>x. f x = Inr ()) xs"
  by (induction xs) auto

lemma for_each_Inl: "for_each f xs = Inl e \<Longrightarrow> \<exists>x \<in> set xs. f x = Inl e"
  by (induction xs) (auto simp: result_bind_Inl_iff)

lemma strip_prefix_append [simp]: "strip_prefix p (p @ s) = Some s"
  by (induction p) auto

lemma strip_prefix_Some_iff: "strip_prefix p s = Some t \<longleftrightarrow> s = p @ t"
  by (induction p s rule: strip_prefix.induct) auto

lemma digit_value_digit_char: "d < 10 \<Longrightarrow> digit_value (digit_char d) = Some d"
  by (simp add: digit_value_def digit_char_def Let_def)

lemma digit_char_neq_plus: "d < 10 \<Longrightarrow> digit_char d \<noteq> CHR ''+''"
proof
  assume d: "d < 10" and eq: "digit_char d = CHR ''+''"
  from d have "of_char (digit_char d) = (48 + d :: nat)" by (simp add: digit_char_def)
  with eq show False by simp
qed

lemma parse_digits_append:
  "parse_digits acc (xs @ ys) =
     (case parse_digits acc xs of None \<Rightarrow> None | Some n \<Rightarrow> parse_digits n ys)"
  by (induction xs arbitrary: acc) (auto split: option.splits)

lemma parse_digits_nat_to_string: "parse_digits 0 (nat_to_string n) = Some n"
proof (induction n rule: nat_to_string.induct)
  case (1 n)
  show ?case
  proof (cases "n < 10")
    case True
    then show ?thesis
      by (simp add: nat_to_string.simps [of n] digit_value_digit_char)
  next
    case False
    with 1 show ?thesis
      by (simp add: nat_to_string.simps [of n] parse_digits_append digit_value_digit_char)
  qed
qed

lemma nat_to_string_Cons: "\<exists>d cs. d < 10 \<and> nat_to_string n = digit_char d # cs"
proof (induction n rule: nat_to_string.induct)
  case (1 n)
  show ?case
  proof (cases "n < 10")
    case True
    then show ?thesis by (auto simp: nat_to_string.simps [of n])
  next
    case False
    with 1 obtain d cs where "d < 10" "nat_to_string (n div 10) = digit_char d # cs" by blast
    with False show ?thesis by (auto simp: nat_to_string.simps [of n])
  qed
qed

lemma parse_u32_nat_to_string: "n \<le> u32_max \<Longrightarrow> parse_u32 (nat_to_string n) = Some n"
proof -
  assume n: "n \<le> u32_max"
  obtain d cs where d: "d < 10" and eq: "nat_to_string n = digit_char d # cs"
    using nat_to_string_Cons by blast
  have "parse_digits 0 (digit_char d # cs) = Some n"
    using parse_digits_nat_to_string [of n] eq by simp
  with n d show ?thesis
    by (simp add: parse_u32_def eq Let_def digit_char_neq_plus del: parse_digits.simps)
qed

lemma nat_to_string_inject [simp]: "nat_to_string m = nat_to_string n \<longleftrightarrow> m = n"
  by (metis option.inject parse_digits_nat_to_string)

lemma ulen_simps [simp]: "ulen [] = 0" "ulen (c # s) = len_utf8 c + ulen s"
  "ulen (s @ t) = ulen s + ulen t"
  by (simp_all add: ulen_def)

lemma len_utf8_pos [simp]: "0 < len_utf8 c"
  by (simp add: len_utf8_def)

lemma length_filter_mono:
  "(\<And>r. P r \<Longrightarrow> Q r) \<Longrightarrow> length (filter P rs) \<le> length (filter Q rs)"
  by (induction rs) (auto intro: le_SucI)

lemma find_SomeD: "List.find P xs = Some x \<Longrightarrow> x \<in> set xs \<and> P x"
  by (induction xs) (auto split: if_splits)

lemma fold_max_ge: "x \<le> fold max xs x \<and> (y \<in> set xs \<longrightarrow> y \<le> fold max xs x)" for x :: "'a :: linorder"
proof (induction xs arbitrary: x)
  case Nil
  then show ?case by simp
next
  case (Cons a xs)
  from Cons [of "max a x"] have "max a x \<le> fold max xs (max a x)" by simp
  with Cons [of "max a x"] show ?case by auto
qed

text \<open>Updating the one row of a table that has a given key, and counting or summing over the rows.\<close>

lemma sum_list_filter_if: "sum_list (map w (filter P xs)) = sum_list (map (\<lambda>y. if P y then w y else (0 :: nat)) xs)"
  by (induction xs) auto

lemma length_filter_if: "length (filter P xs) = sum_list (map (\<lambda>y. if P y then 1 else (0 :: nat)) xs)"
  by (induction xs) auto

lemma update_absent: "k \<notin> key ` set xs \<Longrightarrow> map (\<lambda>y. if key y = k then f y else y) xs = xs"
  by (induction xs) auto

lemma filter_absent: "k \<notin> key ` set xs \<Longrightarrow> filter (\<lambda>y. key y \<noteq> k) xs = xs"
  by (induction xs) auto

lemma update_one_sum:
  fixes g :: "'a \<Rightarrow> nat"
  assumes "distinct (map key xs)" "x \<in> set xs"
  shows "sum_list (map g (map (\<lambda>y. if key y = key x then f y else y) xs)) =
           sum_list (map g (filter (\<lambda>y. key y \<noteq> key x) xs)) + g (f x)"
  using assms
proof (induction xs)
  case (Cons a xs)
  show ?case
  proof (cases "a = x")
    case True
    with Cons.prems have "key x \<notin> key ` set xs" by auto
    with True show ?thesis by (simp add: update_absent filter_absent del: map_map)
  next
    case False
    with Cons.prems have "x \<in> set xs" "key a \<noteq> key x" by (auto simp: image_iff)
    with Cons.IH Cons.prems show ?thesis by simp
  qed
qed simp

lemma split_one_sum:
  fixes g :: "'a \<Rightarrow> nat"
  assumes "distinct (map key xs)" "x \<in> set xs"
  shows "sum_list (map g xs) = sum_list (map g (filter (\<lambda>y. key y \<noteq> key x) xs)) + g x"
  using update_one_sum [OF assms, of g "\<lambda>y. y"] by simp

lemma find_unique:
  assumes "distinct (map key xs)" "x \<in> set xs"
  shows "List.find (\<lambda>y. key y = key x) xs = Some x"
  using assms by (induction xs) (auto simp: image_iff)

end
