(* ===== verification/Lark_Frame.thy ===== *)
theory Lark_Frame
  imports Bridge_Prelude
begin

text \<open>
  The pbbp2 frame of \<^verbatim>\<open>src/src/lark/frame.rs\<close>: the frame record, the wire shape that the prost
  codec sees, the conversions between them, and the typed header accessors. The prost encoder and
  decoder are library code: they are arguments of \<open>decode_bytes\<close> and \<open>encode_to_vec\<close>.
  The protobuf integers keep their width as words.
\<close>

section \<open>Frames\<close>

record header =
  hdr_key :: string
  hdr_value :: string

record frame =
  seq_id :: "64 word"
  log_id :: "64 word"
  service :: "32 word"
  frame_method :: "32 word"
  headers :: "header list"
  payload_encoding :: "string option"
  payload_type :: "string option"
  payload :: "bytes option"
  log_id_new :: "string option"

record wire_frame =
  w_seq_id :: "64 word option"
  w_log_id :: "64 word option"
  w_service :: "32 word option"
  w_method :: "32 word option"
  w_headers :: "header list"
  w_payload_encoding :: "string option"
  w_payload_type :: "string option"
  w_payload :: "bytes option"
  w_log_id_new :: "string option"

datatype frame_error = FrameProtocol string

definition unwrap_or_zero :: "'a::zero option \<Rightarrow> 'a" where
  "unwrap_or_zero o' = (case o' of None \<Rightarrow> 0 | Some x \<Rightarrow> x)"

definition wire_of_frame :: "frame \<Rightarrow> wire_frame" where
  "wire_of_frame f =
     \<lparr>w_seq_id = Some (seq_id f), w_log_id = Some (log_id f), w_service = Some (service f),
      w_method = Some (frame_method f), w_headers = headers f,
      w_payload_encoding = payload_encoding f, w_payload_type = payload_type f,
      w_payload = payload f, w_log_id_new = log_id_new f\<rparr>"

definition frame_of_wire :: "wire_frame \<Rightarrow> frame" where
  "frame_of_wire w =
     \<lparr>seq_id = unwrap_or_zero (w_seq_id w), log_id = unwrap_or_zero (w_log_id w),
      service = unwrap_or_zero (w_service w), frame_method = unwrap_or_zero (w_method w),
      headers = w_headers w, payload_encoding = w_payload_encoding w,
      payload_type = w_payload_type w, payload = w_payload w, log_id_new = w_log_id_new w\<rparr>"

definition decode_bytes :: "(bytes \<Rightarrow> wire_frame option) \<Rightarrow> bytes \<Rightarrow> (frame_error, frame) result" where
  "decode_bytes prost_decode bs =
     (case prost_decode bs of
        None \<Rightarrow> Inl (FrameProtocol ''decoding a pbbp2 frame'')
      | Some w \<Rightarrow> Inr (frame_of_wire w))"

definition encode_to_vec :: "(wire_frame \<Rightarrow> bytes) \<Rightarrow> frame \<Rightarrow> bytes" where
  "encode_to_vec prost_encode f = prost_encode (wire_of_frame f)"

datatype frame_method_kind = Control | Data

definition method_from_wire :: "32 word \<Rightarrow> frame_method_kind option" where
  "method_from_wire v = (if v = 0 then Some Control else if v = 1 then Some Data else None)"

fun method_as_wire :: "frame_method_kind \<Rightarrow> 32 word" where
  "method_as_wire Control = 0"
| "method_as_wire Data = 1"

datatype message_type = Event | Card | Ping | Pong

fun message_type_as_str :: "message_type \<Rightarrow> string" where
  "message_type_as_str Event = ''event''"
| "message_type_as_str Card = ''card''"
| "message_type_as_str Ping = ''ping''"
| "message_type_as_str Pong = ''pong''"

definition message_type_parse :: "string \<Rightarrow> message_type option" where
  "message_type_parse v =
     (if v = ''event'' then Some Event
      else if v = ''card'' then Some Card
      else if v = ''ping'' then Some Ping
      else if v = ''pong'' then Some Pong
      else None)"

definition ping :: "32 word \<Rightarrow> frame" where
  "ping service_id =
     \<lparr>seq_id = 0, log_id = 0, service = service_id, frame_method = method_as_wire Control,
      headers = [\<lparr>hdr_key = ''type'', hdr_value = message_type_as_str Ping\<rparr>],
      payload_encoding = None, payload_type = None, payload = None, log_id_new = None\<rparr>"

section \<open>Header accessors\<close>

definition header_get :: "header list \<Rightarrow> string \<Rightarrow> string option" where
  "header_get hs key = map_option hdr_value (List.find (\<lambda>h. hdr_key h = key) hs)"

definition header_ty :: "header list \<Rightarrow> message_type option" where
  "header_ty hs = Option.bind (header_get hs ''type'') message_type_parse"

definition header_message_id :: "header list \<Rightarrow> string option" where
  "header_message_id hs = header_get hs ''message_id''"

definition header_trace_id :: "header list \<Rightarrow> string option" where
  "header_trace_id hs = header_get hs ''trace_id''"

definition header_biz_rt :: "header list \<Rightarrow> string option" where
  "header_biz_rt hs = header_get hs ''biz_rt''"

definition header_sum :: "header list \<Rightarrow> nat option" where
  "header_sum hs = Option.bind (header_get hs ''sum'') parse_u32"

definition header_seq :: "header list \<Rightarrow> nat option" where
  "header_seq hs = Option.bind (header_get hs ''seq'') parse_u32"

definition header_handshake_status :: "header list \<Rightarrow> string option" where
  "header_handshake_status hs = header_get hs ''handshake-status''"

definition has_handshake_msg :: "header list \<Rightarrow> bool" where
  "has_handshake_msg hs \<longleftrightarrow> header_get hs ''handshake-msg'' \<noteq> None"

definition handshake_autherrcode :: "header list \<Rightarrow> string option" where
  "handshake_autherrcode hs = header_get hs ''handshake-autherrcode''"

section \<open>Facts\<close>

lemma frame_of_wire_of_frame [simp]: "frame_of_wire (wire_of_frame f) = f"
  by (simp add: frame_of_wire_def wire_of_frame_def unwrap_or_zero_def)

lemma message_type_parse_as_str [simp]: "message_type_parse (message_type_as_str t) = Some t"
  by (cases t) (simp_all add: message_type_parse_def)

lemma method_from_wire_as_wire [simp]: "method_from_wire (method_as_wire m) = Some m"
  by (cases m) (simp_all add: method_from_wire_def)

lemma header_get_Nil [simp]: "header_get [] k = None"
  by (simp add: header_get_def)

lemma header_get_Cons [simp]:
  "header_get (h # hs) k = (if hdr_key h = k then Some (hdr_value h) else header_get hs k)"
  by (simp add: header_get_def)

end
