(* ===== verification/Bridge_Limits.thy ===== *)
theory Bridge_Limits
  imports Bridge_Prelude
begin

text \<open>
  The hard bounds of \<^verbatim>\<open>src/src/limits.rs\<close> that the modelled components use, under their source
  names. A \<open>Duration\<close> or \<open>Instant\<close> is a number of nanoseconds (\<open>nat\<close>).
\<close>

section \<open>Durations\<close>

type_synonym duration = nat
type_synonym instant = nat

definition from_millis :: "nat \<Rightarrow> duration" where
  "from_millis n = n * 1000000"

definition from_secs :: "nat \<Rightarrow> duration" where
  "from_secs n = n * 1000000000"

definition as_millis :: "duration \<Rightarrow> nat" where
  "as_millis d = d div 1000000"

section \<open>Lark fragment reassembly\<close>

definition LARK_FRAGMENT_TOTAL_BYTES :: nat where
  "LARK_FRAGMENT_TOTAL_BYTES = 8 * 1024 * 1024"

definition LARK_FRAGMENT_MESSAGE_BYTES :: nat where
  "LARK_FRAGMENT_MESSAGE_BYTES = 1024 * 1024"

definition LARK_FRAGMENT_MESSAGE_MAX_FRAGMENTS :: nat where
  "LARK_FRAGMENT_MESSAGE_MAX_FRAGMENTS = 64"

definition LARK_FRAGMENT_MAX_IN_FLIGHT :: nat where
  "LARK_FRAGMENT_MAX_IN_FLIGHT = 64"

definition LARK_FRAGMENT_TTL :: duration where
  "LARK_FRAGMENT_TTL = from_secs 5"

section \<open>Store\<close>

definition LARK_MAX_SEND_BODY_BYTES :: nat where
  "LARK_MAX_SEND_BODY_BYTES = 256 * 1024"

definition STORE_WRITER_BYTE_BUDGET :: nat where
  "STORE_WRITER_BYTE_BUDGET = 8 * 1024 * 1024"

definition STORE_REQUEST_MAX_BYTES :: nat where
  "STORE_REQUEST_MAX_BYTES = 3 * 1024 * 1024"

definition STORE_OUTBOX_PAYLOAD_MAX_BYTES :: nat where
  "STORE_OUTBOX_PAYLOAD_MAX_BYTES = LARK_MAX_SEND_BODY_BYTES"

definition STORE_OUTBOX_CLAIM_MAX_BATCH :: nat where
  "STORE_OUTBOX_CLAIM_MAX_BATCH = 64"

definition STORE_OUTBOX_CLAIM_MAX_BYTES :: nat where
  "STORE_OUTBOX_CLAIM_MAX_BYTES = 1024 * 1024"

definition STORE_OUTBOX_MAX_ROWS :: nat where
  "STORE_OUTBOX_MAX_ROWS = 1024"

definition STORE_OUTBOX_MAX_QUEUED_BYTES :: nat where
  "STORE_OUTBOX_MAX_QUEUED_BYTES = 8 * 1024 * 1024"

definition STORE_RECOVERY_TURN_MAX_ROWS :: nat where
  "STORE_RECOVERY_TURN_MAX_ROWS = 32"

definition STORE_RECOVERY_TURN_MAX_BYTES :: nat where
  "STORE_RECOVERY_TURN_MAX_BYTES = 1024 * 1024"

definition STORE_OUTBOX_MAX_ATTEMPTS :: nat where
  "STORE_OUTBOX_MAX_ATTEMPTS = 8"

definition STORE_RECEIPT_WRITE_ATTEMPTS :: nat where
  "STORE_RECEIPT_WRITE_ATTEMPTS = 3"

section \<open>Replies\<close>

definition REPLY_MESSAGE_MAX_CHARS :: nat where
  "REPLY_MESSAGE_MAX_CHARS = 4000"

definition REPLY_MAX_SPLITS :: nat where
  "REPLY_MAX_SPLITS = 8"

definition REPLY_TRUNCATION_MARKER :: ustring where
  "REPLY_TRUNCATION_MARKER = 0x2026 # ustr ''[truncated]''"

definition REPLY_UPDATE_MIN_INTERVAL :: duration where
  "REPLY_UPDATE_MIN_INTERVAL = from_millis 400"

definition REPLY_UPDATE_MIN_CHARS :: nat where
  "REPLY_UPDATE_MIN_CHARS = 40"

section \<open>Outbox\<close>

definition OUTBOX_RETRY_BASE :: duration where
  "OUTBOX_RETRY_BASE = from_millis 500"

definition OUTBOX_RETRY_MAX :: duration where
  "OUTBOX_RETRY_MAX = from_secs 30"

definition OUTBOX_POLL_INTERVAL :: duration where
  "OUTBOX_POLL_INTERVAL = from_millis 250"

definition OUTBOX_TERMINAL_RETENTION_MS :: int where
  "OUTBOX_TERMINAL_RETENTION_MS = 7 * 24 * 60 * 60 * 1000"

definition OUTBOX_SWEEP_BATCH :: nat where
  "OUTBOX_SWEEP_BATCH = 256"

definition OUTBOX_TERMINAL_MAX_ROWS :: nat where
  "OUTBOX_TERMINAL_MAX_ROWS = 65536"

definition OUTBOX_TERMINAL_MAX_BYTES :: nat where
  "OUTBOX_TERMINAL_MAX_BYTES = 256 * 1024 * 1024"

section \<open>Inbound events\<close>

definition STORE_INBOUND_MAX_ROWS :: nat where
  "STORE_INBOUND_MAX_ROWS = 65536"

definition STORE_INBOUND_MAX_BYTES :: nat where
  "STORE_INBOUND_MAX_BYTES = 64 * 1024 * 1024"

definition STORE_INBOUND_RECEIVED_MAX_ROWS :: nat where
  "STORE_INBOUND_RECEIVED_MAX_ROWS = 256"

definition STORE_INBOUND_RECEIVED_MAX_BYTES :: nat where
  "STORE_INBOUND_RECEIVED_MAX_BYTES = 8 * 1024 * 1024"

definition STORE_INBOUND_ID_MAX_BYTES :: nat where
  "STORE_INBOUND_ID_MAX_BYTES = 4 * 1024"

definition STORE_INBOUND_SCOPE_MAX_BYTES :: nat where
  "STORE_INBOUND_SCOPE_MAX_BYTES = 12 * 1024"

definition STORE_INBOUND_MESSAGE_TYPE_MAX_BYTES :: nat where
  "STORE_INBOUND_MESSAGE_TYPE_MAX_BYTES = 256"

definition STORE_INBOUND_TEXT_MAX_BYTES :: nat where
  "STORE_INBOUND_TEXT_MAX_BYTES = 1024 * 1024"

definition STORE_INBOUND_RESOURCE_MAX_COUNT :: nat where
  "STORE_INBOUND_RESOURCE_MAX_COUNT = 64"

definition STORE_INBOUND_RESOURCE_KEY_MAX_BYTES :: nat where
  "STORE_INBOUND_RESOURCE_KEY_MAX_BYTES = 4 * 1024"

definition STORE_INBOUND_RESOURCE_KEY_MAX_TOTAL_BYTES :: nat where
  "STORE_INBOUND_RESOURCE_KEY_MAX_TOTAL_BYTES = 256 * 1024"

definition STORE_INBOUND_PAYLOAD_MAX_BYTES :: nat where
  "STORE_INBOUND_PAYLOAD_MAX_BYTES = 2 * 1024 * 1024"

definition STORE_INBOUND_BEGIN_MAX_KEYS :: nat where
  "STORE_INBOUND_BEGIN_MAX_KEYS = 64"

definition STORE_INBOUND_BEGIN_MAX_KEY_BYTES :: nat where
  "STORE_INBOUND_BEGIN_MAX_KEY_BYTES = 256 * 1024"

definition DEDUP_SWEEP_BATCH :: nat where
  "DEDUP_SWEEP_BATCH = 256"

definition ATTACHMENT_FILE_NAME_MAX_BYTES :: nat where
  "ATTACHMENT_FILE_NAME_MAX_BYTES = 255"

definition ATTACHMENT_MIME_MAX_BYTES :: nat where
  "ATTACHMENT_MIME_MAX_BYTES = 128"

definition STORE_REJECTION_REASON_MAX_BYTES :: nat where
  "STORE_REJECTION_REASON_MAX_BYTES = 128"

lemmas inbound_limit_defs =
  STORE_INBOUND_MAX_ROWS_def
  STORE_INBOUND_MAX_BYTES_def
  STORE_INBOUND_RECEIVED_MAX_ROWS_def
  STORE_INBOUND_RECEIVED_MAX_BYTES_def
  STORE_INBOUND_ID_MAX_BYTES_def
  STORE_INBOUND_SCOPE_MAX_BYTES_def
  STORE_INBOUND_MESSAGE_TYPE_MAX_BYTES_def
  STORE_INBOUND_TEXT_MAX_BYTES_def
  STORE_INBOUND_RESOURCE_MAX_COUNT_def
  STORE_INBOUND_RESOURCE_KEY_MAX_BYTES_def
  STORE_INBOUND_RESOURCE_KEY_MAX_TOTAL_BYTES_def
  STORE_INBOUND_PAYLOAD_MAX_BYTES_def
  STORE_INBOUND_BEGIN_MAX_KEYS_def
  STORE_INBOUND_BEGIN_MAX_KEY_BYTES_def
  DEDUP_SWEEP_BATCH_def
  ATTACHMENT_FILE_NAME_MAX_BYTES_def
  ATTACHMENT_MIME_MAX_BYTES_def
  STORE_REJECTION_REASON_MAX_BYTES_def

lemmas limit_defs =
  LARK_FRAGMENT_TOTAL_BYTES_def LARK_FRAGMENT_MESSAGE_BYTES_def
  LARK_FRAGMENT_MESSAGE_MAX_FRAGMENTS_def LARK_FRAGMENT_MAX_IN_FLIGHT_def
  LARK_FRAGMENT_TTL_def LARK_MAX_SEND_BODY_BYTES_def STORE_WRITER_BYTE_BUDGET_def
  STORE_REQUEST_MAX_BYTES_def STORE_OUTBOX_PAYLOAD_MAX_BYTES_def
  STORE_OUTBOX_CLAIM_MAX_BATCH_def STORE_OUTBOX_CLAIM_MAX_BYTES_def STORE_OUTBOX_MAX_ROWS_def
  STORE_OUTBOX_MAX_QUEUED_BYTES_def STORE_RECOVERY_TURN_MAX_ROWS_def
  STORE_RECOVERY_TURN_MAX_BYTES_def STORE_OUTBOX_MAX_ATTEMPTS_def
  STORE_RECEIPT_WRITE_ATTEMPTS_def REPLY_MESSAGE_MAX_CHARS_def REPLY_MAX_SPLITS_def
  REPLY_TRUNCATION_MARKER_def REPLY_UPDATE_MIN_INTERVAL_def REPLY_UPDATE_MIN_CHARS_def
  OUTBOX_RETRY_BASE_def OUTBOX_RETRY_MAX_def OUTBOX_POLL_INTERVAL_def
  OUTBOX_TERMINAL_RETENTION_MS_def OUTBOX_SWEEP_BATCH_def OUTBOX_TERMINAL_MAX_ROWS_def
  OUTBOX_TERMINAL_MAX_BYTES_def from_millis_def from_secs_def as_millis_def

end
