(* ===== verification/Lark_Fragments.thy ===== *)
theory Lark_Fragments
  imports Lark_Frame Bridge_Limits "HOL-Library.AList"
begin

text \<open>
  The bounded fragment reassembler of \<^verbatim>\<open>src/src/lark/fragments.rs\<close>.

  The in-flight table (\<open>HashMap<String, Entry>\<close>) is an association list with distinct keys.
  Every place where the Rust code would panic is an explicit \<open>IngestPanic\<close>: the slot index, the
  unsigned subtraction of \<open>remove_entry\<close>, and the two \<open>expect\<close> calls of \<open>ingest\<close>. The theorems show
  that \<open>reassembler_wf\<close> is kept by every \<open>ingest\<close>, that no panic is reachable, that the four bounds
  hold at all times, and that the fragments of a message are joined in \<open>seq\<close> order whatever the
  order they arrive in. Logging is not modelled.
\<close>

section \<open>State\<close>

record reassembly =
  re_message_id :: string
  re_trace_id :: "string option"
  re_payload :: bytes

datatype reassembly_error = Duplicate | OutOfRange | OverBytes | TooManyFragments | Expired

record frag_entry =
  fe_sum :: nat
  fe_trace_id :: "string option"
  fe_slots :: "bytes option list"
  fe_filled :: nat
  fe_bytes :: nat
  fe_created :: instant

record reassembler =
  ra_entries :: "(string \<times> frag_entry) list"
  ra_total_bytes :: nat

datatype ingest_outcome =
    IngestOk "reassembly option"
  | IngestErr reassembly_error
  | IngestPanic

definition new_reassembler :: reassembler where
  "new_reassembler = \<lparr>ra_entries = [], ra_total_bytes = 0\<rparr>"

definition in_flight :: "reassembler \<Rightarrow> nat" where
  "in_flight r = length (ra_entries r)"

definition buffered_bytes :: "reassembler \<Rightarrow> nat" where
  "buffered_bytes r = ra_total_bytes r"

section \<open>Operations\<close>

definition parse_sum :: "header list \<Rightarrow> (reassembly_error, nat) result" where
  "parse_sum hs =
     (case header_get hs ''sum'' of
        None \<Rightarrow> Inr 1
      | Some raw \<Rightarrow> (case parse_u32 raw of None \<Rightarrow> Inl OutOfRange | Some n \<Rightarrow> Inr n))"

definition entry_lapsed :: "instant \<Rightarrow> frag_entry \<Rightarrow> bool" where
  "entry_lapsed now e \<longleftrightarrow> now - fe_created e > LARK_FRAGMENT_TTL"

text \<open>\<open>None\<close> is the overflow panic of \<open>self.total_bytes -= entry.bytes\<close>.\<close>

definition remove_entry :: "reassembler \<Rightarrow> string \<Rightarrow> (frag_entry option \<times> reassembler) option" where
  "remove_entry r mid =
     (case map_of (ra_entries r) mid of
        None \<Rightarrow> Some (None, r)
      | Some e \<Rightarrow>
          if ra_total_bytes r < fe_bytes e then None
          else Some (Some e, r\<lparr>ra_entries := AList.delete mid (ra_entries r),
                               ra_total_bytes := ra_total_bytes r - fe_bytes e\<rparr>))"

fun remove_entries :: "reassembler \<Rightarrow> string list \<Rightarrow> reassembler option" where
  "remove_entries r [] = Some r"
| "remove_entries r (mid # mids) =
     (case remove_entry r mid of None \<Rightarrow> None | Some (e, r') \<Rightarrow> remove_entries r' mids)"

definition sweep :: "reassembler \<Rightarrow> instant \<Rightarrow> reassembler option" where
  "sweep r now = remove_entries r (map fst (filter (\<lambda>(mid, e). entry_lapsed now e) (ra_entries r)))"

text \<open>The part of \<open>ingest\<close> from the slot access on, for the entry found or inserted.\<close>

definition store_fragment ::
    "reassembler \<Rightarrow> string \<Rightarrow> frag_entry \<Rightarrow> nat \<Rightarrow> bytes \<Rightarrow> ingest_outcome \<times> reassembler" where
  "store_fragment r mid entry seq pl =
     (if length (fe_slots entry) \<le> seq then (IngestPanic, r)
      else if fe_slots entry ! seq \<noteq> None then (IngestErr Duplicate, r)
      else if fe_bytes entry + length pl > LARK_FRAGMENT_MESSAGE_BYTES then (IngestErr OverBytes, r)
      else
        let entry' = entry\<lparr>fe_slots := (fe_slots entry)[seq := Some pl],
                           fe_filled := fe_filled entry + 1,
                           fe_bytes := fe_bytes entry + length pl\<rparr>;
            r' = r\<lparr>ra_entries := AList.update mid entry' (ra_entries r),
                   ra_total_bytes := ra_total_bytes r + length pl\<rparr>
        in if fe_filled entry' < fe_sum entry' then (IngestOk None, r')
           else case remove_entry r' mid of
                  None \<Rightarrow> (IngestPanic, r')
                | Some (None, r'') \<Rightarrow> (IngestPanic, r'')
                | Some (Some e, r'') \<Rightarrow>
                    (case those (fe_slots e) of
                       None \<Rightarrow> (IngestPanic, r'')
                     | Some fragments \<Rightarrow>
                         (IngestOk (Some \<lparr>re_message_id = mid, re_trace_id = fe_trace_id e,
                                          re_payload = concat fragments\<rparr>), r'')))"

definition new_entry :: "nat \<Rightarrow> string option \<Rightarrow> instant \<Rightarrow> frag_entry" where
  "new_entry frag_sum trace now =
     \<lparr>fe_sum = frag_sum, fe_trace_id = trace, fe_slots = replicate frag_sum None, fe_filled = 0,
      fe_bytes = 0, fe_created = now\<rparr>"

definition ingest ::
    "reassembler \<Rightarrow> header list \<Rightarrow> bytes \<Rightarrow> instant \<Rightarrow> ingest_outcome \<times> reassembler" where
  "ingest r0 hs pl now =
     (let mid = (case header_message_id hs of None \<Rightarrow> [] | Some m \<Rightarrow> m);
          trace = header_trace_id hs;
          entry_expired = (case map_of (ra_entries r0) mid of
                             None \<Rightarrow> False | Some e \<Rightarrow> entry_lapsed now e)
      in case sweep r0 now of
           None \<Rightarrow> (IngestPanic, r0)
         | Some r \<Rightarrow>
       (case parse_sum hs of
          Inl err \<Rightarrow> (IngestErr err, r)
        | Inr frag_sum \<Rightarrow>
            if length pl > LARK_FRAGMENT_MESSAGE_BYTES then (IngestErr OverBytes, r)
            else if frag_sum = 1 then
              (IngestOk (Some \<lparr>re_message_id = mid, re_trace_id = trace, re_payload = pl\<rparr>), r)
            else if frag_sum = 0 \<or> frag_sum > LARK_FRAGMENT_MESSAGE_MAX_FRAGMENTS then
              (IngestErr (if frag_sum = 0 then OutOfRange else TooManyFragments), r)
            else if mid = [] then (IngestErr OutOfRange, r)
            else case header_seq hs of
                   None \<Rightarrow> (IngestErr OutOfRange, r)
                 | Some seq \<Rightarrow>
              if seq \<ge> frag_sum then (IngestErr OutOfRange, r)
              else if entry_expired then (IngestErr Expired, r)
              else if ra_total_bytes r + length pl > LARK_FRAGMENT_TOTAL_BYTES then
                (IngestErr OverBytes, r)
              else case map_of (ra_entries r) mid of
                     Some entry \<Rightarrow>
                       if fe_sum entry \<noteq> frag_sum then (IngestErr OutOfRange, r)
                       else store_fragment r mid entry seq pl
                   | None \<Rightarrow>
                       if length (ra_entries r) \<ge> LARK_FRAGMENT_MAX_IN_FLIGHT then
                         (IngestErr TooManyFragments, r)
                       else
                         let entry = new_entry frag_sum trace now;
                             r' = r\<lparr>ra_entries := AList.update mid entry (ra_entries r)\<rparr>
                         in store_fragment r' mid entry seq pl))"

text \<open>A session feeds its frames to one reassembler in arrival order.\<close>

fun ingest_all ::
    "reassembler \<Rightarrow> (header list \<times> bytes \<times> instant) list \<Rightarrow> ingest_outcome list \<times> reassembler" where
  "ingest_all r [] = ([], r)"
| "ingest_all r ((hs, pl, now) # frames) =
     (let (out, r') = ingest r hs pl now; (outs, r'') = ingest_all r' frames in (out # outs, r''))"

section \<open>Invariant\<close>

definition slot_len :: "bytes option \<Rightarrow> nat" where
  "slot_len o' = (case o' of None \<Rightarrow> 0 | Some b \<Rightarrow> length b)"

definition entry_wf :: "frag_entry \<Rightarrow> bool" where
  "entry_wf e \<longleftrightarrow>
     2 \<le> fe_sum e \<and> fe_sum e \<le> LARK_FRAGMENT_MESSAGE_MAX_FRAGMENTS \<and>
     length (fe_slots e) = fe_sum e \<and>
     fe_filled e = length (filter (\<lambda>o'. o' \<noteq> None) (fe_slots e)) \<and>
     fe_filled e < fe_sum e \<and>
     fe_bytes e = sum_list (map slot_len (fe_slots e)) \<and>
     fe_bytes e \<le> LARK_FRAGMENT_MESSAGE_BYTES"

definition entries_bytes :: "(string \<times> frag_entry) list \<Rightarrow> nat" where
  "entries_bytes es = sum_list (map (\<lambda>(mid, e). fe_bytes e) es)"

definition reassembler_wf :: "reassembler \<Rightarrow> bool" where
  "reassembler_wf r \<longleftrightarrow>
     distinct (map fst (ra_entries r)) \<and>
     list_all (\<lambda>(mid, e). mid \<noteq> [] \<and> entry_wf e) (ra_entries r) \<and>
     ra_total_bytes r = entries_bytes (ra_entries r) \<and>
     ra_total_bytes r \<le> LARK_FRAGMENT_TOTAL_BYTES \<and>
     length (ra_entries r) \<le> LARK_FRAGMENT_MAX_IN_FLIGHT"

section \<open>The in-flight table\<close>

lemma entries_bytes_simps [simp]:
  "entries_bytes [] = 0"
  "entries_bytes ((mid, e) # es) = fe_bytes e + entries_bytes es"
  by (simp_all add: entries_bytes_def)

lemma entries_bytes_delete:
  assumes "distinct (map fst es)" "map_of es mid = Some e"
  shows "entries_bytes es = fe_bytes e + entries_bytes (AList.delete mid es)"
  using assms
proof (induction es)
  case Nil
  then show ?case by simp
next
  case (Cons kv es)
  obtain k v where kv: "kv = (k, v)" by force
  show ?case
  proof (cases "k = mid")
    case True
    with Cons.prems kv have "mid \<notin> fst ` set es" by auto
    then have "AList.delete mid es = es" by (simp add: delete_id)
    with True kv Cons.prems show ?thesis by simp
  next
    case False
    with kv Cons show ?thesis by simp
  qed
qed

lemma entries_bytes_update_old:
  assumes "distinct (map fst es)" "map_of es mid = Some e"
  shows "entries_bytes (AList.update mid e' es) + fe_bytes e = entries_bytes es + fe_bytes e'"
  using assms
proof (induction es)
  case Nil
  then show ?case by simp
next
  case (Cons kv es)
  obtain k v where kv: "kv = (k, v)" by force
  with Cons show ?case by (cases "k = mid") auto
qed

lemma entries_bytes_update_new:
  assumes "map_of es mid = None"
  shows "entries_bytes (AList.update mid e' es) = entries_bytes es + fe_bytes e'"
  using assms by (induction es) (auto split: if_splits)

lemma length_update_old: "map_of es mid = Some e \<Longrightarrow> length (AList.update mid e' es) = length es"
  by (induction es) (auto split: if_splits)

lemma length_update_new: "map_of es mid = None \<Longrightarrow> length (AList.update mid e' es) = Suc (length es)"
  by (induction es) (auto split: if_splits)

lemma set_update_subset: "set (AList.update mid e' es) \<subseteq> insert (mid, e') (set es)"
  by (induction es) auto

lemma set_delete_subset: "set (AList.delete mid es) \<subseteq> set es"
  by (auto simp: AList.delete_eq)

lemma wf_entry: "reassembler_wf r \<Longrightarrow> map_of (ra_entries r) mid = Some e \<Longrightarrow> entry_wf e"
  by (auto simp: reassembler_wf_def list_all_iff dest: map_of_SomeD)

lemma wf_entry_bytes:
  "reassembler_wf r \<Longrightarrow> map_of (ra_entries r) mid = Some e \<Longrightarrow>
     ra_total_bytes r = fe_bytes e + entries_bytes (AList.delete mid (ra_entries r))"
  by (simp add: reassembler_wf_def entries_bytes_delete)

lemma wf_new_reassembler [simp]: "reassembler_wf new_reassembler"
  by (simp add: reassembler_wf_def new_reassembler_def)

text \<open>
  Removing an entry keeps the table's shape whatever the entry holds, which is what completion
  needs: there the removed entry is full and no longer \<open>entry_wf\<close>.
\<close>

lemma remove_entry_bytes:
  assumes "distinct (map fst (ra_entries r))" "ra_total_bytes r = entries_bytes (ra_entries r)"
    "map_of (ra_entries r) mid = Some e"
  shows "remove_entry r mid = Some (Some e, r\<lparr>ra_entries := AList.delete mid (ra_entries r),
           ra_total_bytes := entries_bytes (AList.delete mid (ra_entries r))\<rparr>)"
  using assms entries_bytes_delete [OF assms(1) assms(3)] by (simp add: remove_entry_def)

lemma remove_entry_wf:
  assumes "reassembler_wf r"
  shows "\<exists>r'. remove_entry r mid = Some (map_of (ra_entries r) mid, r') \<and> reassembler_wf r' \<and>
           ra_entries r' = AList.delete mid (ra_entries r)"
proof (cases "map_of (ra_entries r) mid")
  case None
  then have "AList.delete mid (ra_entries r) = ra_entries r"
    by (intro delete_id) (simp add: map_of_eq_None_iff)
  with None assms show ?thesis by (simp add: remove_entry_def)
next
  case (Some e)
  let ?r' = "r\<lparr>ra_entries := AList.delete mid (ra_entries r),
               ra_total_bytes := entries_bytes (AList.delete mid (ra_entries r))\<rparr>"
  from assms Some have eq: "remove_entry r mid = Some (Some e, ?r')"
    by (intro remove_entry_bytes) (auto simp: reassembler_wf_def)
  have "reassembler_wf ?r'"
    using assms wf_entry_bytes [OF assms Some] length_delete_le [of mid "ra_entries r"]
    by (auto simp: reassembler_wf_def list_all_iff distinct_delete dest!: subsetD [OF set_delete_subset])
  with eq Some show ?thesis by simp
qed

lemma remove_entries_wf:
  assumes "reassembler_wf r"
  shows "\<exists>r'. remove_entries r mids = Some r' \<and> reassembler_wf r' \<and>
           ra_entries r' = filter (\<lambda>(k, e). k \<notin> set mids) (ra_entries r)"
  using assms
proof (induction mids arbitrary: r)
  case Nil
  then show ?case by simp
next
  case (Cons mid mids)
  from remove_entry_wf [OF Cons.prems, of mid] obtain r1 where
    r1: "remove_entry r mid = Some (map_of (ra_entries r) mid, r1)" "reassembler_wf r1"
      "ra_entries r1 = AList.delete mid (ra_entries r)" by blast
  from Cons.IH [OF r1(2)] obtain r2 where
    r2: "remove_entries r1 mids = Some r2" "reassembler_wf r2"
      "ra_entries r2 = filter (\<lambda>(k, e). k \<notin> set mids) (ra_entries r1)" by blast
  have "ra_entries r2 = filter (\<lambda>(k, e). k \<notin> set (mid # mids)) (ra_entries r)"
    unfolding r2(3) r1(3) AList.delete_eq filter_filter by (rule filter_cong) auto
  with r1 r2 show ?case by simp
qed

lemma sweep_wf:
  assumes "reassembler_wf r"
  shows "\<exists>r'. sweep r now = Some r' \<and> reassembler_wf r' \<and>
           ra_entries r' = filter (\<lambda>(k, e). \<not> entry_lapsed now e) (ra_entries r)"
proof -
  let ?gone = "map fst (filter (\<lambda>(mid, e). entry_lapsed now e) (ra_entries r))"
  have "filter (\<lambda>(k, e). k \<notin> set ?gone) (ra_entries r) =
          filter (\<lambda>(k, e). \<not> entry_lapsed now e) (ra_entries r)"
  proof (rule filter_cong [OF refl])
    fix x assume x: "x \<in> set (ra_entries r)"
    obtain k e where ke: "x = (k, e)" by force
    have "k \<in> set ?gone \<longleftrightarrow> entry_lapsed now e"
      using assms x ke by (auto simp: reassembler_wf_def image_iff dest: eq_key_imp_eq_value)
    with ke show "(case x of (k, e) \<Rightarrow> k \<notin> set ?gone) = (case x of (k, e) \<Rightarrow> \<not> entry_lapsed now e)"
      by simp
  qed
  with remove_entries_wf [OF assms, of ?gone] show ?thesis by (simp add: sweep_def)
qed

lemma map_of_filter_distinct:
  "distinct (map fst es) \<Longrightarrow>
     map_of (filter (\<lambda>(k, e). P e) es) mid =
       (case map_of es mid of None \<Rightarrow> None | Some e \<Rightarrow> if P e then Some e else None)"
proof (induction es)
  case Nil
  then show ?case by simp
next
  case (Cons kv es)
  obtain k v where kv: "kv = (k, v)" by force
  have "mid \<notin> fst ` set es \<Longrightarrow> map_of (filter (\<lambda>(k, e). P e) es) mid = None"
    by (auto simp: map_of_eq_None_iff image_iff)
  with Cons kv show ?case by (auto simp: map_of_eq_None_iff split: option.splits)
qed

section \<open>Storing one fragment\<close>

lemma slots_update:
  assumes "seq < length slots" "slots ! seq = None"
  shows "length (filter (\<lambda>o'. o' \<noteq> None) (slots[seq := Some pl])) =
           Suc (length (filter (\<lambda>o'. o' \<noteq> None) slots))"
    and "sum_list (map slot_len (slots[seq := Some pl])) = sum_list (map slot_len slots) + length pl"
  using assms
  by (induction slots arbitrary: seq) (auto simp: slot_len_def nth_Cons split: nat.splits)

lemma those_all_Some: "list_all (\<lambda>o'. o' \<noteq> None) os \<Longrightarrow> those os = Some (map the os)"
  by (induction os) auto

lemma all_filled: "length (filter P xs) = length xs \<Longrightarrow> list_all P xs"
  by (metis filter_cong length_filter_less less_irrefl list_all_iff)

definition filled_entry :: "frag_entry \<Rightarrow> nat \<Rightarrow> bytes \<Rightarrow> frag_entry" where
  "filled_entry e seq pl =
     e\<lparr>fe_slots := (fe_slots e)[seq := Some pl], fe_filled := fe_filled e + 1,
       fe_bytes := fe_bytes e + length pl\<rparr>"

lemma filled_entry_wf:
  assumes "entry_wf e" "seq < fe_sum e" "fe_slots e ! seq = None"
    "fe_bytes e + length pl \<le> LARK_FRAGMENT_MESSAGE_BYTES" "fe_filled e + 1 < fe_sum e"
  shows "entry_wf (filled_entry e seq pl)"
  using assms slots_update [of seq "fe_slots e" pl] by (simp add: entry_wf_def filled_entry_def)

lemma store_fragment_partial:
  assumes wf: "reassembler_wf r" and ent: "map_of (ra_entries r) mid = Some e"
    and seq: "seq < fe_sum e" "fe_slots e ! seq = None"
    and bytes: "fe_bytes e + length pl \<le> LARK_FRAGMENT_MESSAGE_BYTES"
    and total: "ra_total_bytes r + length pl \<le> LARK_FRAGMENT_TOTAL_BYTES"
    and more: "fe_filled e + 1 < fe_sum e"
  defines "r' \<equiv> r\<lparr>ra_entries := AList.update mid (filled_entry e seq pl) (ra_entries r),
                   ra_total_bytes := ra_total_bytes r + length pl\<rparr>"
  shows "store_fragment r mid e seq pl = (IngestOk None, r')" and "reassembler_wf r'"
proof -
  have e: "entry_wf e" using wf ent by (rule wf_entry)
  then show "store_fragment r mid e seq pl = (IngestOk None, r')"
    using seq bytes more by (simp add: store_fragment_def r'_def filled_entry_def entry_wf_def Let_def)
  have mid: "mid \<noteq> []" using wf ent by (auto simp: reassembler_wf_def list_all_iff dest: map_of_SomeD)
  have "entries_bytes (AList.update mid (filled_entry e seq pl) (ra_entries r)) =
          ra_total_bytes r + length pl"
    using wf entries_bytes_update_old [of "ra_entries r" mid e "filled_entry e seq pl"] ent
    by (simp add: reassembler_wf_def filled_entry_def)
  then show "reassembler_wf r'"
    using wf total mid filled_entry_wf [OF e seq bytes more]
      set_update_subset [of mid "filled_entry e seq pl" "ra_entries r"]
    by (auto simp: reassembler_wf_def r'_def list_all_iff distinct_update length_update_old [OF ent])
qed

lemma store_fragment_complete:
  assumes wf: "reassembler_wf r" and ent: "map_of (ra_entries r) mid = Some e"
    and seq: "seq < fe_sum e" "fe_slots e ! seq = None"
    and bytes: "fe_bytes e + length pl \<le> LARK_FRAGMENT_MESSAGE_BYTES"
    and last: "fe_filled e + 1 = fe_sum e"
  defines "r' \<equiv> r\<lparr>ra_entries := AList.delete mid (ra_entries r),
                   ra_total_bytes := entries_bytes (AList.delete mid (ra_entries r))\<rparr>"
  shows "store_fragment r mid e seq pl =
           (IngestOk (Some \<lparr>re_message_id = mid, re_trace_id = fe_trace_id e,
              re_payload = concat (map the ((fe_slots e)[seq := Some pl]))\<rparr>), r')"
    and "reassembler_wf r'"
proof -
  have e: "entry_wf e" using wf ent by (rule wf_entry)
  let ?e' = "filled_entry e seq pl"
  let ?r1 = "r\<lparr>ra_entries := AList.update mid ?e' (ra_entries r),
               ra_total_bytes := ra_total_bytes r + length pl\<rparr>"
  have tot: "ra_total_bytes ?r1 = entries_bytes (ra_entries ?r1)"
    using wf entries_bytes_update_old [of "ra_entries r" mid e ?e'] ent
    by (simp add: reassembler_wf_def filled_entry_def)
  have "remove_entry ?r1 mid = Some (Some ?e', r')"
    using remove_entry_bytes [OF _ tot, of mid ?e'] wf
    by (simp add: reassembler_wf_def distinct_update update_conv' delete_update_same r'_def)
  moreover have "list_all (\<lambda>o'. o' \<noteq> None) ((fe_slots e)[seq := Some pl])"
    using e seq last slots_update(1) [of seq "fe_slots e" pl]
    by (intro all_filled) (simp add: entry_wf_def)
  ultimately show "store_fragment r mid e seq pl =
           (IngestOk (Some \<lparr>re_message_id = mid, re_trace_id = fe_trace_id e,
              re_payload = concat (map the ((fe_slots e)[seq := Some pl]))\<rparr>), r')"
    using e seq bytes last
    by (simp add: store_fragment_def filled_entry_def entry_wf_def Let_def those_all_Some)
  show "reassembler_wf r'"
    using wf remove_entry_wf [OF wf, of mid] remove_entry_bytes [of r mid e] ent
    by (auto simp: r'_def reassembler_wf_def)
qed

lemma store_fragment_wf:
  assumes wf: "reassembler_wf r" and ent: "map_of (ra_entries r) mid = Some e"
    and seq: "seq < fe_sum e"
    and total: "ra_total_bytes r + length pl \<le> LARK_FRAGMENT_TOTAL_BYTES"
  shows "fst (store_fragment r mid e seq pl) \<noteq> IngestPanic"
    and "reassembler_wf (snd (store_fragment r mid e seq pl))"
proof -
  have e: "entry_wf e" using wf ent by (rule wf_entry)
  have "fst (store_fragment r mid e seq pl) \<noteq> IngestPanic \<and>
        reassembler_wf (snd (store_fragment r mid e seq pl))"
  proof (cases "fe_slots e ! seq = None \<and> fe_bytes e + length pl \<le> LARK_FRAGMENT_MESSAGE_BYTES")
    case False
    then show ?thesis using e seq wf by (auto simp: store_fragment_def entry_wf_def)
  next
    case True
    from e have "fe_filled e + 1 < fe_sum e \<or> fe_filled e + 1 = fe_sum e"
      by (auto simp: entry_wf_def)
    then show ?thesis
      using True store_fragment_partial [OF wf ent seq _ _ total]
        store_fragment_complete [OF wf ent seq] by auto
  qed
  then show "fst (store_fragment r mid e seq pl) \<noteq> IngestPanic"
    and "reassembler_wf (snd (store_fragment r mid e seq pl))" by blast+
qed

section \<open>Ingesting one fragment\<close>

lemma new_entry_wf:
  "2 \<le> n \<Longrightarrow> n \<le> LARK_FRAGMENT_MESSAGE_MAX_FRAGMENTS \<Longrightarrow> entry_wf (new_entry n trace now)"
  by (simp add: entry_wf_def new_entry_def slot_len_def map_replicate_const sum_list_replicate
      LARK_FRAGMENT_MESSAGE_BYTES_def)

lemma insert_new_entry_wf:
  assumes wf: "reassembler_wf r" and new: "map_of (ra_entries r) mid = None" and mid: "mid \<noteq> []"
    and n: "2 \<le> n" "n \<le> LARK_FRAGMENT_MESSAGE_MAX_FRAGMENTS"
    and room: "length (ra_entries r) < LARK_FRAGMENT_MAX_IN_FLIGHT"
  shows "reassembler_wf (r\<lparr>ra_entries := AList.update mid (new_entry n trace now) (ra_entries r)\<rparr>)"
  using wf mid room new_entry_wf [OF n, of trace now]
    set_update_subset [of mid "new_entry n trace now" "ra_entries r"]
  by (auto simp: reassembler_wf_def list_all_iff distinct_update length_update_new [OF new]
      entries_bytes_update_new [OF new] new_entry_def)

lemma ingest_wf:
  assumes "reassembler_wf r"
  shows "fst (ingest r hs pl now) \<noteq> IngestPanic \<and> reassembler_wf (snd (ingest r hs pl now))"
proof -
  define mid where "mid = (case header_message_id hs of None \<Rightarrow> [] | Some m \<Rightarrow> m)"
  obtain r1 where r1: "sweep r now = Some r1" "reassembler_wf r1"
    using sweep_wf [OF assms] by blast
  let ?e = "\<lambda>n. new_entry n (header_trace_id hs) now"
  let ?r2 = "\<lambda>n. r1\<lparr>ra_entries := AList.update mid (?e n) (ra_entries r1)\<rparr>"
  have old: "fst (store_fragment r1 mid e seq pl) \<noteq> IngestPanic \<and>
             reassembler_wf (snd (store_fragment r1 mid e seq pl))"
    if "map_of (ra_entries r1) mid = Some e" "seq < fe_sum e"
      "ra_total_bytes r1 + length pl \<le> LARK_FRAGMENT_TOTAL_BYTES" for e seq
    using store_fragment_wf [OF r1(2) that] by simp
  have new: "fst (store_fragment (?r2 n) mid (?e n) seq pl) \<noteq> IngestPanic \<and>
             reassembler_wf (snd (store_fragment (?r2 n) mid (?e n) seq pl))"
    if "map_of (ra_entries r1) mid = None" "mid \<noteq> []" "n \<noteq> 0" "n \<noteq> 1"
      "n \<le> LARK_FRAGMENT_MESSAGE_MAX_FRAGMENTS" "seq < n"
      "length (ra_entries r1) < LARK_FRAGMENT_MAX_IN_FLIGHT"
      "ra_total_bytes r1 + length pl \<le> LARK_FRAGMENT_TOTAL_BYTES" for n seq
  proof -
    have "reassembler_wf (?r2 n)"
      using that by (intro insert_new_entry_wf r1(2)) auto
    from store_fragment_wf [OF this, of mid "?e n" seq pl] that show ?thesis
      by (simp add: update_conv' new_entry_def)
  qed
  show ?thesis
    using r1 old new
    by (auto simp: ingest_def mid_def [symmetric] Let_def not_le not_less
        split: sum.splits option.splits if_splits)
qed

lemma ingest_all_wf:
  "reassembler_wf r \<Longrightarrow>
     IngestPanic \<notin> set (fst (ingest_all r frames)) \<and> reassembler_wf (snd (ingest_all r frames))"
proof (induction frames arbitrary: r)
  case Nil
  then show ?case by simp
next
  case (Cons f frames)
  obtain hs pl now where f: "f = (hs, pl, now)" by (cases f) auto
  obtain out r' where r': "ingest r hs pl now = (out, r')" by force
  with ingest_wf [OF Cons.prems, of hs pl now] have "out \<noteq> IngestPanic" "reassembler_wf r'" by auto
  with Cons.IH [of r'] r' f show ?case by (auto simp: Let_def split: prod.splits)
qed

section \<open>Reassembly in any order\<close>

definition fragment_of :: "header list \<Rightarrow> string \<Rightarrow> nat \<Rightarrow> nat \<Rightarrow> bool" where
  "fragment_of hs mid n k \<longleftrightarrow>
     header_message_id hs = Some mid \<and> parse_sum hs = Inr n \<and> header_seq hs = Some k"

definition partial_slots :: "bytes list \<Rightarrow> nat set \<Rightarrow> bytes option list" where
  "partial_slots parts S = map (\<lambda>i. if i \<in> S then Some (parts ! i) else None) [0..<length parts]"

text \<open>Message \<open>mid\<close> is in flight and exactly its fragments \<open>S\<close> have arrived.\<close>

definition assembling ::
    "reassembler \<Rightarrow> string \<Rightarrow> bytes list \<Rightarrow> string option \<Rightarrow> instant \<Rightarrow> nat set \<Rightarrow> bool" where
  "assembling r mid parts trace t0 S \<longleftrightarrow>
     (\<exists>e. map_of (ra_entries r) mid = Some e \<and> fe_sum e = length parts \<and>
          fe_trace_id e = trace \<and> fe_created e = t0 \<and> fe_slots e = partial_slots parts S)"

definition missing_bytes :: "bytes list \<Rightarrow> nat set \<Rightarrow> nat" where
  "missing_bytes parts S = (\<Sum>i \<in> {..<length parts} - S. length (parts ! i))"

lemma partial_slots_filled:
  assumes "S \<subseteq> {..<length parts}"
  shows "length (filter (\<lambda>o'. o' \<noteq> None) (partial_slots parts S)) = card S"
proof -
  have "filter (\<lambda>o'. o' \<noteq> None) (partial_slots parts S) =
          map (\<lambda>i. Some (parts ! i)) (filter (\<lambda>i. i \<in> S) [0..<length parts])"
    by (simp add: partial_slots_def filter_map o_def cong: filter_cong)
  moreover have "card S = length (filter (\<lambda>i. i \<in> S) [0..<length parts])"
    using assms by (subst distinct_card [symmetric]) (auto intro: arg_cong [where f = card])
  ultimately show ?thesis by simp
qed

lemma partial_slots_bytes:
  assumes "S \<subseteq> {..<length parts}"
  shows "sum_list (map slot_len (partial_slots parts S)) = (\<Sum>i\<in>S. length (parts ! i))"
proof -
  have "sum_list (map slot_len (partial_slots parts S)) =
          (\<Sum>i<length parts. if i \<in> S then length (parts ! i) else 0)"
    by (simp add: partial_slots_def o_def interv_sum_list_conv_sum_set_nat atLeast0LessThan
        slot_len_def if_distrib cong: if_cong)
  also have "\<dots> = (\<Sum>i\<in>S. length (parts ! i))"
    using assms by (simp add: sum.inter_restrict [symmetric] inf.absorb2)
  finally show ?thesis .
qed

lemma bytes_split:
  assumes "S \<subseteq> {..<length parts}"
  shows "length (concat parts) = (\<Sum>i\<in>S. length (parts ! i)) + missing_bytes parts S"
proof -
  have "length (concat parts) = (\<Sum>i<length parts. length (parts ! i))"
    by (simp add: length_concat sum_list_sum_nth atLeast0LessThan)
  also have "\<dots> = (\<Sum>i\<in>{..<length parts} - S. length (parts ! i)) + (\<Sum>i\<in>S. length (parts ! i))"
    by (rule sum.subset_diff [OF assms]) simp
  finally show ?thesis by (simp add: missing_bytes_def)
qed

lemma missing_bytes_insert:
  assumes "k < length parts" "k \<notin> S"
  shows "missing_bytes parts S = length (parts ! k) + missing_bytes parts (insert k S)"
proof -
  have eq: "{..<length parts} - S = insert k ({..<length parts} - insert k S)" using assms by auto
  show ?thesis unfolding missing_bytes_def by (subst eq) simp
qed

lemma partial_slots_nth [simp]:
  "k < length parts \<Longrightarrow> partial_slots parts S ! k = (if k \<in> S then Some (parts ! k) else None)"
  by (simp add: partial_slots_def)

lemma partial_slots_insert:
  "(partial_slots parts S)[k := Some (parts ! k)] = partial_slots parts (insert k S)"
  by (cases "k < length parts")
    (auto simp: partial_slots_def nth_list_update list_update_beyond intro!: nth_equalityI)

lemma partial_slots_all: "concat (map the (partial_slots parts {..<length parts})) = concat parts"
proof -
  have "map the (partial_slots parts {..<length parts}) = parts"
    by (rule nth_equalityI) (auto simp: partial_slots_def)
  then show ?thesis by simp
qed

text \<open>The accepting path of \<open>ingest\<close>, with the sweep and the guards discharged.\<close>

lemma ingest_accepting:
  assumes "fragment_of hs mid n k" "2 \<le> n" "n \<le> LARK_FRAGMENT_MESSAGE_MAX_FRAGMENTS"
    "mid \<noteq> []" "k < n" "length pl \<le> LARK_FRAGMENT_MESSAGE_BYTES" "sweep r now = Some swept"
    "\<And>e. map_of (ra_entries r) mid = Some e \<Longrightarrow> \<not> entry_lapsed now e"
    "ra_total_bytes swept + length pl \<le> LARK_FRAGMENT_TOTAL_BYTES"
  shows "ingest r hs pl now =
     (case map_of (ra_entries swept) mid of
        Some e \<Rightarrow> if fe_sum e \<noteq> n then (IngestErr OutOfRange, swept) else store_fragment swept mid e k pl
      | None \<Rightarrow>
          if length (ra_entries swept) \<ge> LARK_FRAGMENT_MAX_IN_FLIGHT then (IngestErr TooManyFragments, swept)
          else let e = new_entry n (header_trace_id hs) now;
                   r' = swept\<lparr>ra_entries := AList.update mid e (ra_entries swept)\<rparr>
               in store_fragment r' mid e k pl)"
  using assms by (auto simp: ingest_def fragment_of_def Let_def split: option.splits)

lemma sweep_totals:
  assumes "reassembler_wf r"
  obtains r1 where "sweep r now = Some r1" "reassembler_wf r1"
    "ra_total_bytes r1 \<le> ra_total_bytes r" "length (ra_entries r1) \<le> length (ra_entries r)"
    "\<And>mid. map_of (ra_entries r1) mid =
        (case map_of (ra_entries r) mid of None \<Rightarrow> None
         | Some e \<Rightarrow> if entry_lapsed now e then None else Some e)"
proof -
  obtain r1 where r1: "sweep r now = Some r1" "reassembler_wf r1"
    "ra_entries r1 = filter (\<lambda>(k, e). \<not> entry_lapsed now e) (ra_entries r)"
    using sweep_wf [OF assms] by blast
  have le: "entries_bytes (filter P es) \<le> entries_bytes es" for P es
    by (induction es) auto
  have "ra_total_bytes r1 \<le> ra_total_bytes r"
    using assms r1 le by (auto simp: reassembler_wf_def)
  moreover have "map_of (ra_entries r1) mid =
        (case map_of (ra_entries r) mid of None \<Rightarrow> None
         | Some e \<Rightarrow> if entry_lapsed now e then None else Some e)" for mid
    using assms unfolding r1(3)
    by (subst map_of_filter_distinct) (auto simp: reassembler_wf_def split: option.splits)
  ultimately show thesis using r1 by (intro that) auto
qed

definition assembly_ok :: "string \<Rightarrow> bytes list \<Rightarrow> bool" where
  "assembly_ok mid parts \<longleftrightarrow>
     mid \<noteq> [] \<and> 2 \<le> length parts \<and> length parts \<le> LARK_FRAGMENT_MESSAGE_MAX_FRAGMENTS \<and>
     length (concat parts) \<le> LARK_FRAGMENT_MESSAGE_BYTES"

lemma part_size:
  "assembly_ok mid parts \<Longrightarrow> k < length parts \<Longrightarrow> length (parts ! k) \<le> LARK_FRAGMENT_MESSAGE_BYTES"
  using missing_bytes_insert [of k parts "{}"] bytes_split [of "{}" parts]
  by (simp add: assembly_ok_def)

lemma first_fragment:
  assumes ok: "assembly_ok mid parts" and wf: "reassembler_wf r" and new: "map_of (ra_entries r) mid = None"
    and frag: "fragment_of hs mid (length parts) k" "header_trace_id hs = trace"
    and k: "k < length parts"
    and room: "length (ra_entries r) < LARK_FRAGMENT_MAX_IN_FLIGHT"
    and total: "ra_total_bytes r + missing_bytes parts {} \<le> LARK_FRAGMENT_TOTAL_BYTES"
  shows "\<exists>r'. ingest r hs (parts ! k) t0 = (IngestOk None, r') \<and> reassembler_wf r' \<and>
           assembling r' mid parts trace t0 {k} \<and>
           ra_total_bytes r' + missing_bytes parts {k} \<le> LARK_FRAGMENT_TOTAL_BYTES"
proof -
  note mid = ok [unfolded assembly_ok_def]
  obtain r1 where r1: "sweep r t0 = Some r1" "reassembler_wf r1"
    "ra_total_bytes r1 \<le> ra_total_bytes r" "length (ra_entries r1) \<le> length (ra_entries r)"
    "map_of (ra_entries r1) mid = None"
  proof (rule sweep_totals [OF wf, of t0])
    fix rs
    assume "sweep r t0 = Some rs" "reassembler_wf rs" "ra_total_bytes rs \<le> ra_total_bytes r"
      "length (ra_entries rs) \<le> length (ra_entries r)"
      and ents: "\<And>mid. map_of (ra_entries rs) mid =
        (case map_of (ra_entries r) mid of None \<Rightarrow> None
         | Some e \<Rightarrow> if entry_lapsed t0 e then None else Some e)"
    then show thesis using that new ents [of mid] by simp
  qed
  let ?n = "length parts"
  let ?e = "new_entry ?n trace t0"
  let ?r2 = "r1\<lparr>ra_entries := AList.update mid ?e (ra_entries r1)\<rparr>"
  have miss: "missing_bytes parts {} = length (parts ! k) + missing_bytes parts {k}"
    using missing_bytes_insert [of k parts "{}"] k by simp
  have wf2: "reassembler_wf ?r2"
    using r1 room mid by (intro insert_new_entry_wf) auto
  have e2: "map_of (ra_entries ?r2) mid = Some ?e" by (simp add: update_conv')
  have eq: "ingest r hs (parts ! k) t0 = store_fragment ?r2 mid ?e k (parts ! k)"
    using r1 room total miss frag k mid part_size [OF ok k] new
    by (subst ingest_accepting [where swept = r1 and n = ?n and k = k and mid = mid])
      (auto simp: Let_def)
  note partial = store_fragment_partial [OF wf2 e2, of k "parts ! k"]
  let ?r3 = "?r2\<lparr>ra_entries := AList.update mid (filled_entry ?e k (parts ! k)) (ra_entries ?r2),
          ra_total_bytes := ra_total_bytes ?r2 + length (parts ! k)\<rparr>"
  have "ingest r hs (parts ! k) t0 = (IngestOk None, ?r3)" and "reassembler_wf ?r3"
    using eq partial k mid part_size [OF ok k] total r1 miss by (simp_all add: new_entry_def)
  moreover have "assembling ?r3 mid parts trace t0 {k}"
    using partial_slots_insert [of parts "{}" k]
    by (auto simp: assembling_def update_conv' filled_entry_def new_entry_def partial_slots_def
        map_replicate_const)
  moreover have "ra_total_bytes ?r3 + missing_bytes parts {k} \<le> LARK_FRAGMENT_TOTAL_BYTES"
    using total r1 miss by simp
  ultimately show ?thesis by blast
qed

lemma next_fragment:
  assumes ok: "assembly_ok mid parts" and wf: "reassembler_wf r" and asm: "assembling r mid parts trace t0 S"
    and S: "S \<subseteq> {..<length parts}" "k < length parts" "k \<notin> S"
    and frag: "fragment_of hs mid (length parts) k"
    and time: "t0 \<le> t" "t \<le> t0 + LARK_FRAGMENT_TTL"
    and total: "ra_total_bytes r + missing_bytes parts S \<le> LARK_FRAGMENT_TOTAL_BYTES"
  shows "\<exists>r'. reassembler_wf r' \<and>
     (if insert k S = {..<length parts}
      then ingest r hs (parts ! k) t =
             (IngestOk (Some \<lparr>re_message_id = mid, re_trace_id = trace,
                              re_payload = concat parts\<rparr>), r')
      else ingest r hs (parts ! k) t = (IngestOk None, r') \<and>
           assembling r' mid parts trace t0 (insert k S) \<and>
           ra_total_bytes r' + missing_bytes parts (insert k S) \<le> LARK_FRAGMENT_TOTAL_BYTES)"
proof -
  note mid = ok [unfolded assembly_ok_def]
  from asm obtain e where e: "map_of (ra_entries r) mid = Some e" "fe_sum e = length parts"
      "fe_trace_id e = trace" "fe_created e = t0" "fe_slots e = partial_slots parts S"
    by (auto simp: assembling_def)
  have fresh: "\<not> entry_lapsed t e" using time e by (simp add: entry_lapsed_def)
  obtain r1 where r1: "sweep r t = Some r1" "reassembler_wf r1"
      "ra_total_bytes r1 \<le> ra_total_bytes r" "map_of (ra_entries r1) mid = Some e"
  proof (rule sweep_totals [OF wf, of t])
    fix rs
    assume "sweep r t = Some rs" "reassembler_wf rs" "ra_total_bytes rs \<le> ra_total_bytes r"
      and ents: "\<And>mid. map_of (ra_entries rs) mid =
        (case map_of (ra_entries r) mid of None \<Rightarrow> None
         | Some e \<Rightarrow> if entry_lapsed t e then None else Some e)"
    then show thesis using that e(1) fresh ents [of mid] by simp
  qed
  have ewf: "entry_wf e" using wf e(1) by (rule wf_entry)
  have filled: "fe_filled e = card S" and bytes: "fe_bytes e = (\<Sum>i\<in>S. length (parts ! i))"
    using ewf e S partial_slots_filled [OF S(1)] partial_slots_bytes [OF S(1)]
    by (simp_all add: entry_wf_def)
  have miss: "missing_bytes parts S = length (parts ! k) + missing_bytes parts (insert k S)"
    using missing_bytes_insert [of k parts S] S by simp
  have fit: "fe_bytes e + length (parts ! k) \<le> LARK_FRAGMENT_MESSAGE_BYTES"
    using mid bytes_split [OF S(1)] bytes miss by simp
  have "ingest r hs (parts ! k) t = store_fragment r1 mid e k (parts ! k)"
    using r1 e frag S mid total miss part_size [OF ok S(2)] fresh
    by (subst ingest_accepting [where swept = r1 and n = "length parts" and k = k and mid = mid]) auto
  moreover have fin: "finite S" using S(1) finite_subset by blast
  ultimately show ?thesis
  proof (cases "insert k S = {..<length parts}")
    case True
    then have "card (insert k S) = length parts" by simp
    then have last: "fe_filled e + 1 = fe_sum e" using e fin S filled by simp
    have "(fe_slots e)[k := Some (parts ! k)] = partial_slots parts {..<length parts}"
      by (simp add: e(5) partial_slots_insert True)
    moreover from S e have slot: "k < fe_sum e" "fe_slots e ! k = None" by simp_all
    note store_fragment_complete [OF r1(2) r1(4) slot fit last]
    ultimately show ?thesis
      using True e \<open>ingest r hs (parts ! k) t = store_fragment r1 mid e k (parts ! k)\<close>
      by (auto simp: partial_slots_all)
  next
    case False
    with S have "insert k S \<subset> {..<length parts}" by auto
    then have "card (insert k S) < length parts"
      using psubset_card_mono [of "{..<length parts}"] by simp
    then have more: "fe_filled e + 1 < fe_sum e" using e fin S filled by simp
    have tot1: "ra_total_bytes r1 + length (parts ! k) \<le> LARK_FRAGMENT_TOTAL_BYTES"
      using total r1 miss by simp
    from S e have slot: "k < fe_sum e" "fe_slots e ! k = None" by simp_all
    let ?r2 = "r1\<lparr>ra_entries := AList.update mid (filled_entry e k (parts ! k)) (ra_entries r1),
                 ra_total_bytes := ra_total_bytes r1 + length (parts ! k)\<rparr>"
    note store_fragment_partial [OF r1(2) r1(4) slot fit tot1 more]
    moreover have "assembling ?r2 mid parts trace t0 (insert k S)"
      using e by (simp add: assembling_def update_conv' filled_entry_def partial_slots_insert)
    moreover have "ra_total_bytes ?r2 + missing_bytes parts (insert k S) \<le> LARK_FRAGMENT_TOTAL_BYTES"
      using total r1 miss by simp
    ultimately show ?thesis
      using False \<open>ingest r hs (parts ! k) t = store_fragment r1 mid e k (parts ! k)\<close> by auto
  qed
qed

lemma remaining_fragments:
  assumes ok: "assembly_ok mid parts"
    and "reassembler_wf r" "assembling r mid parts trace t0 S" "S \<subset> {..<length parts}"
    and "distinct ks" "set ks = {..<length parts} - S"
    and "list_all2 (\<lambda>(hs, pl, t) k. fragment_of hs mid (length parts) k \<and> pl = parts ! k \<and>
           t0 \<le> t \<and> t \<le> t0 + LARK_FRAGMENT_TTL) frames ks"
    and "ra_total_bytes r + missing_bytes parts S \<le> LARK_FRAGMENT_TOTAL_BYTES"
  shows "fst (ingest_all r frames) =
     replicate (length ks - 1) (IngestOk None) @
     [IngestOk (Some \<lparr>re_message_id = mid, re_trace_id = trace, re_payload = concat parts\<rparr>)]"
  using assms(2-)
proof (induction ks arbitrary: r S frames)
  case Nil
  then show ?case by auto
next
  case (Cons k ks)
  from Cons.prems(6) obtain hs pl t frames' where
    fr: "frames = (hs, pl, t) # frames'" "fragment_of hs mid (length parts) k" "pl = parts ! k"
      "t0 \<le> t" "t \<le> t0 + LARK_FRAGMENT_TTL"
    and rest: "list_all2 (\<lambda>(hs, pl, t) k. fragment_of hs mid (length parts) k \<and> pl = parts ! k \<and>
           t0 \<le> t \<and> t \<le> t0 + LARK_FRAGMENT_TTL) frames' ks"
    by (auto simp: list_all2_Cons2)
  have k: "k < length parts" "k \<notin> S" using Cons.prems(5) by auto
  have ks: "distinct ks" "set ks = {..<length parts} - insert k S"
    using Cons.prems(4,5) by auto
  obtain r' where r': "reassembler_wf r'"
     "if insert k S = {..<length parts}
      then ingest r hs (parts ! k) t =
             (IngestOk (Some \<lparr>re_message_id = mid, re_trace_id = trace,
                              re_payload = concat parts\<rparr>), r')
      else ingest r hs (parts ! k) t = (IngestOk None, r') \<and>
           assembling r' mid parts trace t0 (insert k S) \<and>
           ra_total_bytes r' + missing_bytes parts (insert k S) \<le> LARK_FRAGMENT_TOTAL_BYTES"
    using next_fragment [OF ok Cons.prems(1,2) _ k fr(2,4,5) Cons.prems(7)] Cons.prems(3) by blast
  show ?case
  proof (cases "insert k S = {..<length parts}")
    case True
    with ks have "ks = []" by simp
    with rest True r' fr show ?thesis by simp
  next
    case False
    then have psub: "insert k S \<subset> {..<length parts}" using Cons.prems(3) k by auto
    then have "ks \<noteq> []" using ks by auto
    moreover from False r' Cons.IH [OF _ _ psub ks rest]
    have "fst (ingest_all r' frames') =
       replicate (length ks - 1) (IngestOk None) @
       [IngestOk (Some \<lparr>re_message_id = mid, re_trace_id = trace, re_payload = concat parts\<rparr>)]"
      by simp
    ultimately show ?thesis
      using False r' fr by (cases ks) (auto simp: Let_def split: prod.splits)
  qed
qed

section \<open>Isolation and expiry\<close>

lemma remove_entry_other:
  "remove_entry r mid' = Some (o', r') \<Longrightarrow> mid' \<noteq> mid \<Longrightarrow>
     map_of (ra_entries r') mid = map_of (ra_entries r) mid"
  by (auto simp: remove_entry_def split: option.splits if_splits)

lemma store_fragment_other:
  assumes "mid' \<noteq> mid"
  shows "map_of (ra_entries (snd (store_fragment r mid' e seq pl))) mid = map_of (ra_entries r) mid"
proof -
  have "map_of (ra_entries r') mid = map_of (ra_entries r) mid"
    if "remove_entry (r\<lparr>ra_entries := AList.update mid' e' (ra_entries r), ra_total_bytes := n\<rparr>) mid' =
          Some (o', r')" for e' n o' r'
    using remove_entry_other [OF that] assms by (simp add: update_conv')
  then show ?thesis
    using assms by (auto simp: store_fragment_def Let_def update_conv' split: option.splits prod.splits)
qed

section \<open>Properties\<close>

text \<open>
  C37: Bounds and panic freedom. Whatever frames a session
  receives, a reassembler that
  starts empty never reaches one of the panics of \<open>ingest\<close> (slot index, byte-count underflow, the two
  \<open>expect\<close>s), never buffers more than \<open>LARK_FRAGMENT_TOTAL_BYTES\<close>, never holds more than
  \<open>LARK_FRAGMENT_MAX_IN_FLIGHT\<close> messages, and each held message stays within its byte and fragment
  bounds with at least one fragment missing.
\<close>

theorem session_never_panics_within_bounds:
  "IngestPanic \<notin> set (fst (ingest_all new_reassembler frames)) \<and>
   buffered_bytes (snd (ingest_all new_reassembler frames)) \<le> LARK_FRAGMENT_TOTAL_BYTES \<and>
   in_flight (snd (ingest_all new_reassembler frames)) \<le> LARK_FRAGMENT_MAX_IN_FLIGHT \<and>
   list_all (\<lambda>(mid, e). fe_bytes e \<le> LARK_FRAGMENT_MESSAGE_BYTES \<and>
       fe_sum e \<le> LARK_FRAGMENT_MESSAGE_MAX_FRAGMENTS \<and> fe_filled e < fe_sum e)
     (ra_entries (snd (ingest_all new_reassembler frames)))"
  using ingest_all_wf [OF wf_new_reassembler, of frames]
  by (auto simp: reassembler_wf_def buffered_bytes_def in_flight_def entry_wf_def list_all_iff)

text \<open>
  C34: Reassembly. The fragments of one message (2 to 64 of them, within the
  byte bounds, not yet in
  flight, room left in the table) delivered in any order \<open>ks\<close> within the time to live give \<open>Ok(None)\<close>
  for all but the last one and, at the last one, exactly the payloads concatenated in \<open>seq\<close> order with
  the trace id of the first arrival.
\<close>

theorem reassembly_any_order:
  assumes ok: "assembly_ok mid parts" and wf: "reassembler_wf r"
    and new: "map_of (ra_entries r) mid = None"
    and room: "in_flight r < LARK_FRAGMENT_MAX_IN_FLIGHT"
    and bytes: "buffered_bytes r + length (concat parts) \<le> LARK_FRAGMENT_TOTAL_BYTES"
    and perm: "distinct (k # ks)" "set (k # ks) = {..<length parts}"
    and first: "fragment_of hs mid (length parts) k" "header_trace_id hs = trace"
    and rest: "list_all2 (\<lambda>(hs, pl, t) k. fragment_of hs mid (length parts) k \<and> pl = parts ! k \<and>
           t0 \<le> t \<and> t \<le> t0 + LARK_FRAGMENT_TTL) frames ks"
  shows "fst (ingest_all r ((hs, parts ! k, t0) # frames)) =
     replicate (length parts - 1) (IngestOk None) @
     [IngestOk (Some \<lparr>re_message_id = mid, re_trace_id = trace, re_payload = concat parts\<rparr>)]"
proof -
  have k: "k < length parts" using perm by auto
  have total: "ra_total_bytes r + missing_bytes parts {} \<le> LARK_FRAGMENT_TOTAL_BYTES"
    using bytes bytes_split [of "{}" parts] by (simp add: buffered_bytes_def)
  obtain r' where r': "ingest r hs (parts ! k) t0 = (IngestOk None, r')" "reassembler_wf r'"
      "assembling r' mid parts trace t0 {k}"
      "ra_total_bytes r' + missing_bytes parts {k} \<le> LARK_FRAGMENT_TOTAL_BYTES"
    using first_fragment [OF ok wf new first k _ total] room by (auto simp: in_flight_def)
  have "card (set (k # ks)) = length parts" by (simp only: perm(2) card_lessThan)
  then have n: "length parts = Suc (length ks)" using distinct_card [OF perm(1)] by simp
  have ks: "distinct ks" "set ks = {..<length parts} - {k}" using perm by auto
  have "card {k} \<noteq> card {..<length parts}" using ok by (simp add: assembly_ok_def)
  then have "{k} \<noteq> {..<length parts}" by (rule contrapos_nn) (rule arg_cong)
  moreover have "{k} \<subseteq> {..<length parts}" using k by simp
  ultimately have psub: "{k} \<subset> {..<length parts}" by (simp only: psubset_eq simp_thms not_False_eq_True)
  then have "ks \<noteq> []" using ks by auto
  then have "replicate (length parts - 1) (IngestOk None) =
      IngestOk None # replicate (length ks - 1) (IngestOk None)"
    unfolding n by (cases ks) simp_all
  moreover have "fst (ingest_all r ((hs, parts ! k, t0) # frames)) =
      IngestOk None # fst (ingest_all r' frames)"
    by (simp add: r'(1) split: prod.split)
  ultimately show ?thesis
    using remaining_fragments [OF ok r'(2,3) psub ks rest r'(4)] by simp
qed

definition frag_headers :: "string \<Rightarrow> string \<Rightarrow> string \<Rightarrow> header list" where
  "frag_headers mid frag_sum seq =
     [\<lparr>hdr_key = ''message_id'', hdr_value = mid\<rparr>, \<lparr>hdr_key = ''sum'', hdr_value = frag_sum\<rparr>,
      \<lparr>hdr_key = ''seq'', hdr_value = seq\<rparr>]"

theorem reassembly_any_order_witness:
  "fst (ingest_all new_reassembler
      [(frag_headers ''m'' ''3'' ''2'', [5], 7), (frag_headers ''m'' ''3'' ''0'', [1, 2], 8),
       (frag_headers ''m'' ''3'' ''1'', [3], 9)]) =
   [IngestOk None, IngestOk None,
    IngestOk (Some \<lparr>re_message_id = ''m'', re_trace_id = None, re_payload = [1, 2, 3, 5]\<rparr>)]"
proof -
  let ?parts = "[[1, 2], [3], [5]] :: bytes list"
  have f: "fragment_of (frag_headers ''m'' ''3'' ''2'') ''m'' (length ?parts) 2"
    "fragment_of (frag_headers ''m'' ''3'' ''0'') ''m'' (length ?parts) 0"
    "fragment_of (frag_headers ''m'' ''3'' ''1'') ''m'' (length ?parts) 1"
    by (simp_all add: fragment_of_def frag_headers_def header_message_id_def parse_sum_def
        header_seq_def parse_u32_def digit_value_def u32_max_def)
  have "fst (ingest_all new_reassembler ((frag_headers ''m'' ''3'' ''2'', ?parts ! 2, 7) #
      [(frag_headers ''m'' ''3'' ''0'', [1, 2], 8), (frag_headers ''m'' ''3'' ''1'', [3], 9)])) =
    replicate (length ?parts - 1) (IngestOk None) @
    [IngestOk (Some \<lparr>re_message_id = ''m'', re_trace_id = None, re_payload = concat ?parts\<rparr>)]"
  proof (rule reassembly_any_order [where ks = "[0, 1]"])
    show "assembly_ok ''m'' ?parts" by (simp add: assembly_ok_def limit_defs)
    show "reassembler_wf new_reassembler" by simp
    show "map_of (ra_entries new_reassembler) ''m'' = None" by (simp add: new_reassembler_def)
    show "in_flight new_reassembler < LARK_FRAGMENT_MAX_IN_FLIGHT"
      by (simp add: in_flight_def new_reassembler_def limit_defs)
    show "buffered_bytes new_reassembler + length (concat ?parts) \<le> LARK_FRAGMENT_TOTAL_BYTES"
      by (simp add: buffered_bytes_def new_reassembler_def limit_defs)
    show "distinct [2, 0, 1 :: nat]" by simp
    show "set [2, 0, 1 :: nat] = {..<length ?parts}" by auto
    show "header_trace_id (frag_headers ''m'' ''3'' ''2'') = None"
      by (simp add: header_trace_id_def frag_headers_def)
  qed (use f in \<open>simp_all add: limit_defs\<close>)
  then show ?thesis by (simp add: numeral_2_eq_2)
qed

text \<open>
  Isolation. A frame of another message never changes the buffered
  state of a message whose time to live has not lapsed, whether the frame is accepted or rejected.
\<close>

theorem ingest_isolates_messages:
  assumes wf: "reassembler_wf r" and ent: "map_of (ra_entries r) mid = Some e"
    and fresh: "\<not> entry_lapsed now e"
    and other: "header_message_id hs \<noteq> Some mid"
  shows "map_of (ra_entries (snd (ingest r hs pl now))) mid = Some e"
proof -
  obtain rs where rs: "sweep r now = Some rs" "map_of (ra_entries rs) mid = Some e"
  proof (rule sweep_totals [OF wf, of now])
    fix rs
    assume "sweep r now = Some rs" "\<And>mid. map_of (ra_entries rs) mid =
        (case map_of (ra_entries r) mid of None \<Rightarrow> None
         | Some e \<Rightarrow> if entry_lapsed now e then None else Some e)"
    then show thesis using that ent fresh by simp
  qed
  have mid: "mid \<noteq> []" using wf ent by (auto simp: reassembler_wf_def list_all_iff dest: map_of_SomeD)
  define mid' where "mid' = (case header_message_id hs of None \<Rightarrow> [] | Some m \<Rightarrow> m)"
  have neq: "mid' \<noteq> mid" using other mid by (auto simp: mid'_def split: option.splits)
  show ?thesis
    using rs neq store_fragment_other [OF neq]
    by (auto simp: ingest_def mid'_def [symmetric] Let_def update_conv' split: sum.splits option.splits)
qed

definition isolation_start :: reassembler where
  "isolation_start = snd (ingest new_reassembler (frag_headers ''m'' ''2'' ''0'') [1] 0)"

lemma isolation_start_eq:
  "isolation_start = \<lparr>ra_entries = [(''m'', \<lparr>fe_sum = 2, fe_trace_id = None,
     fe_slots = [Some [1], None], fe_filled = 1, fe_bytes = 1, fe_created = 0\<rparr>)], ra_total_bytes = 1\<rparr>"
  by (simp add: isolation_start_def ingest_def sweep_def new_reassembler_def frag_headers_def
      header_message_id_def header_trace_id_def header_seq_def parse_sum_def parse_u32_def
      digit_value_def u32_max_def limit_defs store_fragment_def new_entry_def numeral_2_eq_2)

theorem ingest_isolates_messages_witness:
  "map_of (ra_entries (snd (ingest isolation_start (frag_headers ''x'' ''2'' ''1'') [9] 5))) ''m'' =
     Some \<lparr>fe_sum = 2, fe_trace_id = None, fe_slots = [Some [1], None], fe_filled = 1,
           fe_bytes = 1, fe_created = 0\<rparr>"
proof (rule ingest_isolates_messages)
  show "reassembler_wf isolation_start"
    using ingest_wf [OF wf_new_reassembler] by (simp add: isolation_start_def)
  show "map_of (ra_entries isolation_start) ''m'' =
     Some \<lparr>fe_sum = 2, fe_trace_id = None, fe_slots = [Some [1], None], fe_filled = 1,
           fe_bytes = 1, fe_created = 0\<rparr>"
    by (simp add: isolation_start_eq)
  show "header_message_id (frag_headers ''x'' ''2'' ''1'') \<noteq> Some ''m''"
    by (simp add: header_message_id_def frag_headers_def)
qed (simp add: entry_lapsed_def limit_defs)

text \<open>
  Expiry. A well-formed continuation of a message whose time to live
  has lapsed is rejected as \<open>Expired\<close>, and the stale partial message is gone afterwards, so it can
  never be completed by late fragments.
\<close>

theorem expired_message_is_dropped:
  assumes wf: "reassembler_wf r" and ent: "map_of (ra_entries r) mid = Some e"
    and lapsed: "entry_lapsed now e"
    and frag: "fragment_of hs mid n k" "2 \<le> n" "n \<le> LARK_FRAGMENT_MESSAGE_MAX_FRAGMENTS" "k < n"
    and pl: "length pl \<le> LARK_FRAGMENT_MESSAGE_BYTES"
  shows "fst (ingest r hs pl now) = IngestErr Expired \<and>
         map_of (ra_entries (snd (ingest r hs pl now))) mid = None"
proof -
  obtain rs where rs: "sweep r now = Some rs" "map_of (ra_entries rs) mid = None"
  proof (rule sweep_totals [OF wf, of now])
    fix rs
    assume "sweep r now = Some rs" "\<And>mid. map_of (ra_entries rs) mid =
        (case map_of (ra_entries r) mid of None \<Rightarrow> None
         | Some e \<Rightarrow> if entry_lapsed now e then None else Some e)"
    then show thesis using that ent lapsed by simp
  qed
  have "mid \<noteq> []" using wf ent by (auto simp: reassembler_wf_def list_all_iff dest: map_of_SomeD)
  with rs ent lapsed frag pl show ?thesis by (auto simp: ingest_def fragment_of_def Let_def)
qed

theorem expired_message_is_dropped_witness:
  "fst (ingest isolation_start (frag_headers ''m'' ''2'' ''1'') [9] 6000000000) = IngestErr Expired \<and>
   map_of (ra_entries (snd (ingest isolation_start (frag_headers ''m'' ''2'' ''1'') [9] 6000000000)))
     ''m'' = None"
proof (rule expired_message_is_dropped)
  show "reassembler_wf isolation_start"
    using ingest_wf [OF wf_new_reassembler] by (simp add: isolation_start_def)
  show "map_of (ra_entries isolation_start) ''m'' =
     Some \<lparr>fe_sum = 2, fe_trace_id = None, fe_slots = [Some [1], None], fe_filled = 1,
           fe_bytes = 1, fe_created = 0\<rparr>"
    by (simp add: isolation_start_eq)
  show "fragment_of (frag_headers ''m'' ''2'' ''1'') ''m'' 2 1"
    by (simp add: fragment_of_def frag_headers_def header_message_id_def parse_sum_def
        header_seq_def parse_u32_def digit_value_def u32_max_def)
qed (simp_all add: entry_lapsed_def limit_defs)

end
