(* ===== verification/Store_Base.thy ===== *)
theory Store_Base
  imports Bridge_Limits
begin

text \<open>
  What every typed query group of the store shares (\<^verbatim>\<open>src/src/store/mod.rs\<close>): the error type, the
  byte accounting of a request and the admission check of \<open>run_sized\<close>.

  The writer thread runs one job at a time, each in one SQLite transaction, so a job is a function
  from the tables to \<open>Inl error\<close> (the transaction is rolled back, the tables are unchanged) or
  \<open>Inr (answer, tables')\<close>. SQLite and file errors, a full or closed writer channel and an exhausted
  byte semaphore are choices of the environment; a client that reacts to them (the outbox pump)
  takes them as an argument.
\<close>

datatype store_error =
    Io string
  | Sqlite string "int option"
  | QueueFull
  | Closed
  | AlreadyOpen
  | Migration nat string
  | NotFound string
  | InvalidTransition string
  | PayloadTooLarge string nat
  | CapacityExceeded string
  | CorruptData string
  | InvalidPath string

type_synonym ('s, 'a) job = "'s \<Rightarrow> (store_error, 'a \<times> 's) result"

definition request_bytes :: "string list \<Rightarrow> nat" where
  "request_bytes values = foldl (\<lambda>acc v. sat_add_u64 acc (length v)) 0 values"

definition run_sized :: "nat \<Rightarrow> ('s, 'a) job \<Rightarrow> ('s, 'a) job" where
  "run_sized request_size job s =
     (if request_size > STORE_REQUEST_MAX_BYTES \<or> request_size > STORE_WRITER_BYTE_BUDGET
      then Inl (PayloadTooLarge ''queueing a store writer request'' STORE_REQUEST_MAX_BYTES)
      else job s)"

definition run_job :: "('s, 'a) job \<Rightarrow> ('s, 'a) job" where
  "run_job job = run_sized 0 job"

lemma run_job [simp]: "run_job job s = job s"
  by (simp add: run_job_def run_sized_def)

lemma run_sized_Inr: "run_sized request_size job s = Inr x \<Longrightarrow> job s = Inr x"
  by (simp add: run_sized_def split: if_splits)

text \<open>The tables after a job: unchanged when it failed.\<close>

definition after :: "('s, 'a) job \<Rightarrow> 's \<Rightarrow> 's" where
  "after job s = (case job s of Inl e \<Rightarrow> s | Inr (a, s') \<Rightarrow> s')"

lemma after_inv: "P s \<Longrightarrow> (\<And>a s'. P s \<Longrightarrow> job s = Inr (a, s') \<Longrightarrow> P s') \<Longrightarrow> P (after job s)"
  by (auto simp: after_def split: sum.splits)

section \<open>Runs\<close>

text \<open>
  The contract of a component whose state only changes through its operations: a step function and
  an invariant that every operation keeps. Each stateful component interprets it on its own
  operations, which gives the invariant for every run.
\<close>

locale invariant_steps =
  fixes step :: "'op \<Rightarrow> 's \<Rightarrow> 's" and inv :: "'s \<Rightarrow> bool"
  assumes step_inv: "inv s \<Longrightarrow> inv (step op s)"
begin

lemma run_inv: "inv s \<Longrightarrow> inv (fold step ops s)"
  by (induction ops arbitrary: s) (simp_all add: step_inv)

end

text \<open>
  The same contract when the program only issues operations of a certain form. Without a restriction it
  is the contract above.
\<close>

locale guarded_steps =
  fixes step :: "'op \<Rightarrow> 's \<Rightarrow> 's" and inv :: "'s \<Rightarrow> bool" and issued :: "'op \<Rightarrow> bool"
  assumes step_inv: "inv s \<Longrightarrow> issued op \<Longrightarrow> inv (step op s)"
begin

lemma run_inv: "inv s \<Longrightarrow> list_all issued ops \<Longrightarrow> inv (fold step ops s)"
  by (induction ops arbitrary: s) (simp_all add: step_inv)

end

sublocale invariant_steps \<subseteq> unguarded: guarded_steps step inv "\<lambda>_. True"
  by unfold_locales (rule step_inv)

text \<open>
  The same contract for a component whose operations read a clock: \<open>tick\<close> gives the clock reading an
  operation leaves behind, or \<open>None\<close> when it is not an operation the program issues at this time.
\<close>

fun run_clock :: "('c \<Rightarrow> 'op \<Rightarrow> 'c option) \<Rightarrow> 'c \<Rightarrow> 'op list \<Rightarrow> 'c option" where
  "run_clock tick T [] = Some T"
| "run_clock tick T (op # ops) = Option.bind (tick T op) (\<lambda>T'. run_clock tick T' ops)"

locale clocked_steps =
  fixes step :: "'op \<Rightarrow> 's \<Rightarrow> 's" and inv :: "'c \<Rightarrow> 's \<Rightarrow> bool" and tick :: "'c \<Rightarrow> 'op \<Rightarrow> 'c option"
  assumes step_inv: "inv T s \<Longrightarrow> tick T op = Some T' \<Longrightarrow> inv T' (step op s)"
begin

lemma run_inv: "inv T s \<Longrightarrow> run_clock tick T ops = Some T' \<Longrightarrow> inv T' (fold step ops s)"
  by (induction ops arbitrary: T s) (auto simp: bind_eq_Some_conv dest: step_inv)

end

end
