(* ===== verification/Outbox_Store.thy ===== *)
theory Outbox_Store
  imports Store_Base "HOL-Library.Product_Lexorder"
begin

text \<open>
  The durable outbound queue, \<^verbatim>\<open>src/src/store/outbox.rs\<close>. The \<open>outbox\<close> table is the list of its rows;
  \<open>UPDATE\<close> is \<open>map\<close>, \<open>DELETE\<close> is \<open>filter\<close>, an \<open>ORDER BY\<close> is a stable sort, an insert takes the
  rowid after the largest one (\<open>INTEGER PRIMARY KEY\<close> without \<open>AUTOINCREMENT\<close>). The clock \<open>now_ms()\<close>
  is an argument \<open>now\<close> of each operation. The SQLite JSON functions of the retention sweep are the
  argument \<open>anchor_of\<close>: the \<open>anchor_key\<close> of a valid JSON payload.
\<close>

section \<open>Rows\<close>

datatype outbox_state = Pending | Sending | Sent | Failed | UncertainDelivery

fun outbox_state_as_str :: "outbox_state \<Rightarrow> string" where
  "outbox_state_as_str Pending = ''pending''"
| "outbox_state_as_str Sending = ''sending''"
| "outbox_state_as_str Sent = ''sent''"
| "outbox_state_as_str Failed = ''failed''"
| "outbox_state_as_str UncertainDelivery = ''uncertain_delivery''"

definition outbox_state_parse :: "string \<Rightarrow> outbox_state option" where
  "outbox_state_parse text' =
     (if text' = ''pending'' then Some Pending
      else if text' = ''sending'' then Some Sending
      else if text' = ''sent'' then Some Sent
      else if text' = ''failed'' then Some Failed
      else if text' = ''uncertain_delivery'' then Some UncertainDelivery
      else None)"

record outbox_row =
  ob_id :: int
  ob_idempotency_key :: string
  ob_scope_key :: string
  ob_kind :: string
  ob_payload_json :: string
  ob_payload_bytes :: nat
  ob_state :: outbox_state
  ob_attempts :: nat
  ob_next_retry_ms :: int
  ob_receipt_message_id :: "string option"
  ob_created_ms :: int
  ob_updated_ms :: int

record new_outbox_row =
  nb_idempotency_key :: string
  nb_scope_key :: string
  nb_kind :: string
  nb_payload_json :: string
  nb_next_retry_ms :: int

datatype outbox_enqueue = New outbox_row | DuplicateKey outbox_row

record outbox_depth =
  d_pending :: nat
  d_sending :: nat
  d_failed :: nat
  d_uncertain :: nat
  d_queued_bytes :: nat

type_synonym outbox_table = "outbox_row list"

section \<open>Queries\<close>

definition live :: "outbox_row \<Rightarrow> bool" where
  "live r \<longleftrightarrow> ob_state r = Pending \<or> ob_state r = Sending"

definition rows_bytes :: "outbox_row list \<Rightarrow> nat" where
  "rows_bytes rs = sum_list (map ob_payload_bytes rs)"

definition update_where ::
    "(outbox_row \<Rightarrow> bool) \<Rightarrow> (outbox_row \<Rightarrow> outbox_row) \<Rightarrow> outbox_table \<Rightarrow> outbox_table" where
  "update_where P f t = map (\<lambda>r. if P r then f r else r) t"

definition row_by_id :: "outbox_table \<Rightarrow> int \<Rightarrow> outbox_row option" where
  "row_by_id t i = List.find (\<lambda>r. ob_id r = i) t"

definition row_by_key :: "outbox_table \<Rightarrow> string \<Rightarrow> outbox_row option" where
  "row_by_key t k = List.find (\<lambda>r. ob_idempotency_key r = k) t"

definition max_rowid :: "outbox_table \<Rightarrow> int" where
  "max_rowid t = fold max (map ob_id t) 0"

text \<open>\<open>COALESCE(MAX(next_retry_ms), 0)\<close> over the live rows.\<close>

definition retry_watermark :: "outbox_table \<Rightarrow> int" where
  "retry_watermark t =
     (case map ob_next_retry_ms (filter live t) of [] \<Rightarrow> 0 | x # xs \<Rightarrow> fold max xs x)"

definition total_outbox_count_bytes :: "outbox_table \<Rightarrow> nat \<times> nat" where
  "total_outbox_count_bytes t = (length t, rows_bytes t)"

definition require_sending :: "outbox_table \<Rightarrow> int \<Rightarrow> string \<Rightarrow> (store_error, nat) result" where
  "require_sending t i context' =
     (case row_by_id t i of
        None \<Rightarrow> Inl (NotFound context')
      | Some r \<Rightarrow> if ob_state r \<noteq> Sending then Inl (InvalidTransition context')
                  else Inr (ob_attempts r))"

section \<open>Retention\<close>

definition sweepable :: "(string \<Rightarrow> string option) \<Rightarrow> int \<Rightarrow> outbox_table \<Rightarrow> outbox_row \<Rightarrow> bool" where
  "sweepable anchor_of older_than_ms t r \<longleftrightarrow>
     (ob_state r = Sent \<or> ob_state r = Failed) \<and> ob_updated_ms r < older_than_ms \<and>
     \<not> (ob_kind r = ''progress'' \<and>
        list_ex (\<lambda>d. live d \<and> anchor_of (ob_payload_json d) = Some (ob_idempotency_key r)) t)"

definition sweep_terminal_rows_inline ::
    "(string \<Rightarrow> string option) \<Rightarrow> int \<Rightarrow> nat \<Rightarrow> outbox_table \<Rightarrow> nat \<times> outbox_table" where
  "sweep_terminal_rows_inline anchor_of older_than_ms max_rows t =
     (let max_rows' = min max_rows OUTBOX_SWEEP_BATCH in
      if max_rows' = 0 then (0, t)
      else
        let victims = take max_rows'
              (sort_key (\<lambda>r. (ob_updated_ms r, ob_id r)) (filter (sweepable anchor_of older_than_ms t) t));
            kept = filter (\<lambda>r. ob_id r \<notin> set (map ob_id victims)) t
        in (length t - length kept, kept))"

definition sweep_terminal_outbox ::
    "(string \<Rightarrow> string option) \<Rightarrow> int \<Rightarrow> nat \<Rightarrow> (outbox_table, nat) job" where
  "sweep_terminal_outbox anchor_of older_than_ms max_rows t =
     (let max_rows' = min max_rows OUTBOX_SWEEP_BATCH in
      if max_rows' = 0 then Inr (0, t)
      else run_job (\<lambda>t. Inr (sweep_terminal_rows_inline anchor_of older_than_ms max_rows' t)) t)"

definition enforce_total_cap ::
    "(string \<Rightarrow> string option) \<Rightarrow> int \<Rightarrow> nat \<Rightarrow> outbox_table \<Rightarrow> (store_error, outbox_table) result" where
  "enforce_total_cap anchor_of now payload_bytes t =
     (let (count, bytes) = total_outbox_count_bytes t in
      if sat_add_u64 count 1 \<le> OUTBOX_TERMINAL_MAX_ROWS \<and>
         sat_add_u64 bytes payload_bytes \<le> OUTBOX_TERMINAL_MAX_BYTES
      then Inr t
      else
        let t' = snd (sweep_terminal_rows_inline anchor_of
                        (sat_sub_i64 now OUTBOX_TERMINAL_RETENTION_MS) OUTBOX_SWEEP_BATCH t);
            (count', bytes') = total_outbox_count_bytes t'
        in if sat_add_u64 count' 1 > OUTBOX_TERMINAL_MAX_ROWS \<or>
              sat_add_u64 bytes' payload_bytes > OUTBOX_TERMINAL_MAX_BYTES
           then Inl (CapacityExceeded ''enqueueing an outbox row'')
           else Inr t')"

section \<open>Enqueueing\<close>

definition validate_outbox_payload :: "new_outbox_row \<Rightarrow> (store_error, unit) result" where
  "validate_outbox_payload row =
     (if length (nb_payload_json row) > STORE_OUTBOX_PAYLOAD_MAX_BYTES
      then Inl (PayloadTooLarge ''enqueueing an outbox payload'' STORE_OUTBOX_PAYLOAD_MAX_BYTES)
      else Inr ())"

definition inserted_row :: "outbox_table \<Rightarrow> int \<Rightarrow> int \<Rightarrow> new_outbox_row \<Rightarrow> outbox_row" where
  "inserted_row t next_retry_ms now row =
     \<lparr>ob_id = max_rowid t + 1, ob_idempotency_key = nb_idempotency_key row,
      ob_scope_key = nb_scope_key row, ob_kind = nb_kind row,
      ob_payload_json = nb_payload_json row, ob_payload_bytes = length (nb_payload_json row),
      ob_state = Pending, ob_attempts = 0, ob_next_retry_ms = next_retry_ms,
      ob_receipt_message_id = None, ob_created_ms = now, ob_updated_ms = now\<rparr>"

definition enqueue_one ::
    "(string \<Rightarrow> string option) \<Rightarrow> int \<Rightarrow> new_outbox_row \<Rightarrow> (outbox_table, outbox_enqueue) job" where
  "enqueue_one anchor_of now row t =
     (case row_by_key t (nb_idempotency_key row) of
        Some existing \<Rightarrow> Inr (DuplicateKey existing, t)
      | None \<Rightarrow>
          let payload_bytes = length (nb_payload_json row);
              count = length (filter live t);
              bytes = rows_bytes (filter live t)
          in if count \<ge> STORE_OUTBOX_MAX_ROWS \<or>
                sat_add_u64 bytes payload_bytes > STORE_OUTBOX_MAX_QUEUED_BYTES
             then Inl (CapacityExceeded ''enqueueing an outbox row'')
             else result_bind (enforce_total_cap anchor_of now payload_bytes t) (\<lambda>t'.
               let stored = inserted_row t' (max (nb_next_retry_ms row) (retry_watermark t')) now row
               in Inr (New stored, t' @ [stored])))"

definition new_row_request_bytes :: "new_outbox_row \<Rightarrow> nat" where
  "new_row_request_bytes row =
     request_bytes [nb_idempotency_key row, nb_scope_key row, nb_kind row, nb_payload_json row]"

definition enqueue_outbox ::
    "(string \<Rightarrow> string option) \<Rightarrow> int \<Rightarrow> new_outbox_row \<Rightarrow> (outbox_table, outbox_enqueue) job" where
  "enqueue_outbox anchor_of now row t =
     result_bind (validate_outbox_payload row) (\<lambda>_.
       run_sized (new_row_request_bytes row) (enqueue_one anchor_of now row) t)"

fun enqueue_rows ::
    "(string \<Rightarrow> string option) \<Rightarrow> int \<Rightarrow> new_outbox_row list \<Rightarrow> (outbox_table, outbox_enqueue list) job" where
  "enqueue_rows anchor_of now [] t = Inr ([], t)"
| "enqueue_rows anchor_of now (row # rows) t =
     result_bind (enqueue_one anchor_of now row t) (\<lambda>(value, t').
       result_bind (enqueue_rows anchor_of now rows t') (\<lambda>(values, t'').
         Inr (value # values, t'')))"

fun validate_outbox_payloads :: "new_outbox_row list \<Rightarrow> (store_error, unit) result" where
  "validate_outbox_payloads [] = Inr ()"
| "validate_outbox_payloads (row # rows) =
     result_bind (validate_outbox_payload row) (\<lambda>_. validate_outbox_payloads rows)"

definition enqueue_outbox_batch ::
    "(string \<Rightarrow> string option) \<Rightarrow> int \<Rightarrow> new_outbox_row list \<Rightarrow> (outbox_table, outbox_enqueue list) job" where
  "enqueue_outbox_batch anchor_of now rows t =
     (if length rows > STORE_OUTBOX_MAX_ROWS
      then Inl (CapacityExceeded ''enqueueing an outbox batch'')
      else result_bind (validate_outbox_payloads rows) (\<lambda>_.
        run_sized (foldl (\<lambda>acc row. sat_add_u64 acc (new_row_request_bytes row)) 0 rows)
          (enqueue_rows anchor_of now rows) t))"

section \<open>Claiming\<close>

fun claim_loop :: "nat \<Rightarrow> nat \<Rightarrow> nat \<Rightarrow> outbox_row list \<Rightarrow> outbox_row list" where
  "claim_loop limit claimed total_bytes [] = []"
| "claim_loop limit claimed total_bytes (row # rows) =
     (if claimed \<ge> limit \<or>
         sat_add_u64 total_bytes (ob_payload_bytes row) > STORE_OUTBOX_CLAIM_MAX_BYTES
      then []
      else row # claim_loop limit (claimed + 1) (sat_add_u64 total_bytes (ob_payload_bytes row)) rows)"

definition due :: "int \<Rightarrow> outbox_row \<Rightarrow> bool" where
  "due now_value r \<longleftrightarrow> ob_state r = Pending \<and> ob_next_retry_ms r \<le> now_value"

definition claim_outbox_batch :: "int \<Rightarrow> int \<Rightarrow> nat \<Rightarrow> (outbox_table, outbox_row list) job" where
  "claim_outbox_batch now now_value limit = run_job (\<lambda>t.
     let limit' = min limit STORE_OUTBOX_CLAIM_MAX_BATCH;
         rows = claim_loop limit' 0 0 (sort_key ob_id (filter (due now_value) t));
         t' = update_where (\<lambda>r. ob_id r \<in> set (map ob_id rows))
                (\<lambda>r. r\<lparr>ob_state := Sending, ob_updated_ms := now\<rparr>) t
     in Inr (map (\<lambda>r. r\<lparr>ob_state := Sending\<rparr>) rows, t'))"

section \<open>Receipts and retries\<close>

definition complete_outbox :: "int \<Rightarrow> int \<Rightarrow> string \<Rightarrow> (outbox_table, unit) job" where
  "complete_outbox now i receipt = run_sized (request_bytes [receipt]) (\<lambda>t.
     result_bind (require_sending t i ''completing an outbox row'') (\<lambda>_.
       Inr ((), update_where (\<lambda>r. ob_id r = i)
         (\<lambda>r. r\<lparr>ob_state := Sent, ob_receipt_message_id := Some receipt, ob_updated_ms := now\<rparr>) t)))"

definition fail_outbox :: "int \<Rightarrow> int \<Rightarrow> nat \<Rightarrow> int \<Rightarrow> bool \<Rightarrow> (outbox_table, unit) job" where
  "fail_outbox now i attempts next_retry_ms uncertain = run_job (\<lambda>t.
     result_bind (require_sending t i ''failing an outbox row'') (\<lambda>stored_attempts.
       if attempts \<noteq> sat_add_u32 stored_attempts 1
       then Inl (InvalidTransition ''recording a non-monotonic outbox attempt'')
       else
         let state = (if uncertain then UncertainDelivery
                      else if attempts \<ge> STORE_OUTBOX_MAX_ATTEMPTS then Failed
                      else Pending)
         in Inr ((), update_where (\<lambda>r. ob_id r = i)
              (\<lambda>r. r\<lparr>ob_state := state, ob_attempts := attempts,
                     ob_next_retry_ms := next_retry_ms, ob_updated_ms := now\<rparr>) t)))"

text \<open>Both ordered-retry transactions park every later live row behind the failed one.\<close>

definition park_successors :: "int \<Rightarrow> int \<Rightarrow> int \<Rightarrow> outbox_table \<Rightarrow> outbox_table" where
  "park_successors now i retry_ms t =
     update_where (\<lambda>r. ob_id r > i \<and> live r)
       (\<lambda>r. r\<lparr>ob_state := Pending,
              ob_next_retry_ms := (if ob_next_retry_ms r < retry_ms then retry_ms
                                   else ob_next_retry_ms r),
              ob_updated_ms := now\<rparr>) t"

definition fail_outbox_and_defer_successors ::
    "int \<Rightarrow> int \<Rightarrow> nat \<Rightarrow> int \<Rightarrow> (outbox_table, bool) job" where
  "fail_outbox_and_defer_successors now i attempts next_retry_ms = run_job (\<lambda>t.
     result_bind (require_sending t i ''retrying an ordered outbox row'') (\<lambda>stored_attempts.
       if attempts \<noteq> sat_add_u32 stored_attempts 1
       then Inl (InvalidTransition ''recording a non-monotonic outbox attempt'')
       else
         let deferred = attempts < STORE_OUTBOX_MAX_ATTEMPTS;
             state = (if deferred then Pending else Failed);
             t' = update_where (\<lambda>r. ob_id r = i)
                    (\<lambda>r. r\<lparr>ob_state := state, ob_attempts := attempts,
                           ob_next_retry_ms := next_retry_ms, ob_updated_ms := now\<rparr>) t;
             t'' = (if deferred then park_successors now i next_retry_ms t' else t')
         in Inr (deferred, t'')))"

definition fail_outbox_terminal :: "int \<Rightarrow> int \<Rightarrow> (outbox_table, unit) job" where
  "fail_outbox_terminal now i = run_job (\<lambda>t.
     result_bind (require_sending t i ''terminally failing an outbox row'') (\<lambda>_.
       Inr ((), update_where (\<lambda>r. ob_id r = i)
         (\<lambda>r. r\<lparr>ob_state := Failed, ob_updated_ms := now\<rparr>) t)))"

definition replace_outbox_with_fallback :: "int \<Rightarrow> int \<Rightarrow> string \<Rightarrow> (outbox_table, unit) job" where
  "replace_outbox_with_fallback now i payload_json t =
     (if length payload_json > STORE_OUTBOX_PAYLOAD_MAX_BYTES
      then Inl (PayloadTooLarge ''persisting an outbox fallback'' STORE_OUTBOX_PAYLOAD_MAX_BYTES)
      else run_job (\<lambda>t.
        result_bind (require_sending t i ''persisting an outbox fallback'') (\<lambda>_.
          let payload_bytes = length payload_json;
              old_payload_bytes = (case row_by_id t i of None \<Rightarrow> 0 | Some r \<Rightarrow> ob_payload_bytes r);
              live_bytes = rows_bytes (filter live t);
              total_bytes = snd (total_outbox_count_bytes t);
              replacement_delta = payload_bytes - old_payload_bytes
          in if live_bytes + replacement_delta > STORE_OUTBOX_MAX_QUEUED_BYTES \<or>
                sat_add_u64 total_bytes replacement_delta > OUTBOX_TERMINAL_MAX_BYTES
             then Inl (CapacityExceeded ''persisting an outbox fallback'')
             else Inr ((), park_successors now i now
               (update_where (\<lambda>r. ob_id r = i)
                  (\<lambda>r. r\<lparr>ob_payload_json := payload_json, ob_payload_bytes := payload_bytes,
                         ob_state := Pending, ob_attempts := 0, ob_next_retry_ms := now,
                         ob_updated_ms := now\<rparr>) t)))) t)"

definition release_outbox_claim_at :: "int \<Rightarrow> int \<Rightarrow> int \<Rightarrow> (outbox_table, unit) job" where
  "release_outbox_claim_at now i next_retry_ms = run_job (\<lambda>t.
     result_bind (require_sending t i ''releasing an outbox claim'') (\<lambda>_.
       Inr ((), update_where (\<lambda>r. ob_id r = i)
         (\<lambda>r. r\<lparr>ob_state := Pending, ob_next_retry_ms := next_retry_ms, ob_updated_ms := now\<rparr>) t)))"

definition release_outbox_claim :: "int \<Rightarrow> int \<Rightarrow> (outbox_table, unit) job" where
  "release_outbox_claim now i = release_outbox_claim_at now i now"

definition defer_outbox_after :: "int \<Rightarrow> int \<Rightarrow> int \<Rightarrow> (outbox_table, nat) job" where
  "defer_outbox_after now after_id retry_ms = run_job (\<lambda>t.
     let affected = (\<lambda>r. ob_state r = Pending \<and> ob_id r > after_id \<and> ob_next_retry_ms r < retry_ms)
     in Inr (length (filter affected t),
             update_where affected (\<lambda>r. r\<lparr>ob_next_retry_ms := retry_ms, ob_updated_ms := now\<rparr>) t))"

definition recover_sending_outbox :: "int \<Rightarrow> (outbox_table, nat) job" where
  "recover_sending_outbox now = run_job (\<lambda>t.
     Inr (length (filter (\<lambda>r. ob_state r = Sending) t),
          update_where (\<lambda>r. ob_state r = Sending)
            (\<lambda>r. r\<lparr>ob_state := UncertainDelivery, ob_updated_ms := now\<rparr>) t))"

section \<open>Reads\<close>

definition outbox_row_read :: "int \<Rightarrow> (outbox_table, outbox_row option) job" where
  "outbox_row_read i = run_job (\<lambda>t. Inr (row_by_id t i, t))"

definition outbox_row_by_key :: "string \<Rightarrow> (outbox_table, outbox_row option) job" where
  "outbox_row_by_key key = run_sized (request_bytes [key]) (\<lambda>t. Inr (row_by_key t key, t))"

definition rows_in_state :: "outbox_state \<Rightarrow> outbox_table \<Rightarrow> outbox_row list" where
  "rows_in_state s t = filter (\<lambda>r. ob_state r = s) t"

definition outbox_depth_read :: "(outbox_table, outbox_depth) job" where
  "outbox_depth_read = run_job (\<lambda>t.
     Inr (\<lparr>d_pending = length (rows_in_state Pending t), d_sending = length (rows_in_state Sending t),
            d_failed = length (rows_in_state Failed t),
            d_uncertain = length (rows_in_state UncertainDelivery t),
            d_queued_bytes = rows_bytes (rows_in_state Pending t) + rows_bytes (rows_in_state Sending t)\<rparr>,
          t))"

end
