(* ===== verification/Outbox_Invariants.thy ===== *)
theory Outbox_Invariants
  imports Outbox_Store
begin

text \<open>
  What the outbox operations keep true. \<open>outbox_wf\<close> is the table invariant: rowids strictly increase
  in list order, idempotency keys are unique, a receipt is present exactly on \<open>Sent\<close> rows, the
  attempt budget holds, and all four capacity bounds of the source hold. Every operation of the
  store keeps it.
\<close>

section \<open>The table invariant\<close>

definition row_wf :: "outbox_row \<Rightarrow> bool" where
  "row_wf r \<longleftrightarrow>
     1 \<le> ob_id r \<and> ob_payload_bytes r = length (ob_payload_json r) \<and>
     ob_payload_bytes r \<le> STORE_OUTBOX_PAYLOAD_MAX_BYTES \<and>
     (if live r then ob_attempts r < STORE_OUTBOX_MAX_ATTEMPTS
      else ob_attempts r \<le> STORE_OUTBOX_MAX_ATTEMPTS) \<and>
     (ob_receipt_message_id r \<noteq> None \<longleftrightarrow> ob_state r = Sent)"

definition outbox_wf :: "outbox_table \<Rightarrow> bool" where
  "outbox_wf t \<longleftrightarrow>
     sorted_wrt (<) (map ob_id t) \<and> distinct (map ob_idempotency_key t) \<and> list_all row_wf t \<and>
     length (filter live t) \<le> STORE_OUTBOX_MAX_ROWS \<and>
     rows_bytes (filter live t) \<le> STORE_OUTBOX_MAX_QUEUED_BYTES \<and>
     length t \<le> OUTBOX_TERMINAL_MAX_ROWS \<and> rows_bytes t \<le> OUTBOX_TERMINAL_MAX_BYTES"

section \<open>Tables\<close>

lemma rows_bytes_simps [simp]:
  "rows_bytes [] = 0" "rows_bytes (r # rs) = ob_payload_bytes r + rows_bytes rs"
  "rows_bytes (rs @ rs') = rows_bytes rs + rows_bytes rs'"
  by (simp_all add: rows_bytes_def)

lemma rows_bytes_filter_le: "rows_bytes (filter P rs) \<le> rows_bytes rs"
  by (induction rs) auto

lemma rows_bytes_filter_mono:
  "(\<And>r. P r \<Longrightarrow> Q r) \<Longrightarrow> rows_bytes (filter P rs) \<le> rows_bytes (filter Q rs)"
  by (induction rs) (auto simp: trans_le_add2)

lemma sorted_wrt_filter_map:
  "sorted_wrt R (map f t) \<Longrightarrow> sorted_wrt R (map f (filter P t))"
  by (induction t) auto

lemma update_where_simps [simp]:
  "update_where P f [] = []"
  "update_where P f (r # t) = (if P r then f r else r) # update_where P f t"
  by (simp_all add: update_where_def)

lemma set_update_where: "set (update_where P f t) = f ` {r \<in> set t. P r} \<union> {r \<in> set t. \<not> P r}"
  by (auto simp: update_where_def)

lemma update_where_memE:
  assumes "x \<in> set (update_where P f t)"
  obtains y where "y \<in> set t" "x = (if P y then f y else y)"
  using assms unfolding update_where_def set_map by (elim imageE) (rule that)

lemma length_update_where [simp]: "length (update_where P f t) = length t"
  by (simp add: update_where_def)

lemma map_update_where:
  "(\<And>r. r \<in> set t \<Longrightarrow> P r \<Longrightarrow> g (f r) = g r) \<Longrightarrow> map g (update_where P f t) = map g t"
  by (induction t) auto

lemma rows_bytes_update_where:
  "(\<And>r. r \<in> set t \<Longrightarrow> P r \<Longrightarrow> ob_payload_bytes (f r) = ob_payload_bytes r) \<Longrightarrow>
     rows_bytes (update_where P f t) = rows_bytes t"
  unfolding rows_bytes_def by (simp add: map_update_where)

lemma live_update_where_le:
  assumes "\<And>r. r \<in> set t \<Longrightarrow> P r \<Longrightarrow> live (f r) \<Longrightarrow> live r"
    "\<And>r. r \<in> set t \<Longrightarrow> P r \<Longrightarrow> ob_payload_bytes (f r) = ob_payload_bytes r"
  shows "length (filter live (update_where P f t)) \<le> length (filter live t) \<and>
         rows_bytes (filter live (update_where P f t)) \<le> rows_bytes (filter live t)"
  using assms by (induction t) (auto intro: le_SucI trans_le_add2)

lemma wf_update_where:
  assumes "outbox_wf t"
    and "\<And>r. r \<in> set t \<Longrightarrow> row_wf r \<Longrightarrow> P r \<Longrightarrow>
      ob_id (f r) = ob_id r \<and> ob_idempotency_key (f r) = ob_idempotency_key r \<and>
      ob_payload_bytes (f r) = ob_payload_bytes r \<and> row_wf (f r) \<and> (live (f r) \<longrightarrow> live r)"
  shows "outbox_wf (update_where P f t)"
proof -
  have wf: "\<And>r. r \<in> set t \<Longrightarrow> row_wf r" using assms(1) by (auto simp: outbox_wf_def list_all_iff)
  have "map ob_id (update_where P f t) = map ob_id t"
    "map ob_idempotency_key (update_where P f t) = map ob_idempotency_key t"
    "rows_bytes (update_where P f t) = rows_bytes t"
    using assms(2) wf by (auto intro!: map_update_where rows_bytes_update_where)
  moreover have "length (filter live (update_where P f t)) \<le> length (filter live t) \<and>
         rows_bytes (filter live (update_where P f t)) \<le> rows_bytes (filter live t)"
    using assms(2) wf by (intro live_update_where_le) blast+
  moreover have "list_all row_wf (update_where P f t)"
    using assms(2) wf by (auto simp: list_all_iff set_update_where)
  ultimately show ?thesis using assms(1) by (simp add: outbox_wf_def)
qed

lemma wf_filter:
  assumes "outbox_wf t"
  shows "outbox_wf (filter P t)"
proof -
  have "length (filter live (filter P t)) \<le> length (filter live t)"
    unfolding filter_filter by (rule length_filter_mono) simp
  moreover have "rows_bytes (filter live (filter P t)) \<le> rows_bytes (filter live t)"
    unfolding filter_filter by (rule rows_bytes_filter_mono) simp
  moreover have "rows_bytes (filter P t) \<le> rows_bytes t" by (rule rows_bytes_filter_le)
  moreover have "length (filter P t) \<le> length t" by simp
  ultimately show ?thesis
    using assms unfolding outbox_wf_def
    by (auto simp: list_all_iff distinct_map_filter sorted_wrt_filter_map simp del: length_filter_le)
qed

lemma wf_distinct_ids: "outbox_wf t \<Longrightarrow> distinct (map ob_id t)"
  by (auto simp: outbox_wf_def dest: strict_sorted_imp_sorted simp: strict_sorted_iff)

lemma row_by_id_SomeD: "row_by_id t i = Some r \<Longrightarrow> r \<in> set t \<and> ob_id r = i"
  unfolding row_by_id_def by (rule find_SomeD)

lemma row_by_key_None: "row_by_key t k = None \<longleftrightarrow> k \<notin> ob_idempotency_key ` set t"
  by (auto simp: row_by_key_def find_None_iff)

lemma row_by_id_unique:
  assumes "outbox_wf t" "r \<in> set t"
  shows "row_by_id t (ob_id r) = Some r"
proof (cases "row_by_id t (ob_id r)")
  case None
  with assms(2) show ?thesis by (auto simp: row_by_id_def find_None_iff)
next
  case (Some r')
  then have "r' \<in> set t" "ob_id r' = ob_id r" by (auto dest: row_by_id_SomeD)
  with assms wf_distinct_ids [OF assms(1)] Some show ?thesis
    by (auto simp: distinct_map inj_on_def)
qed

lemma require_sendingD:
  assumes "require_sending t i c = Inr n"
  obtains r where "row_by_id t i = Some r" "r \<in> set t" "ob_id r = i" "ob_state r = Sending"
    "ob_attempts r = n"
proof -
  from assms obtain r where r: "row_by_id t i = Some r" "ob_state r = Sending" "ob_attempts r = n"
    by (auto simp: require_sending_def split: option.splits if_splits)
  with row_by_id_SomeD [OF r(1)] show thesis by (intro that) auto
qed

text \<open>The row an operation names is the only row with its id, and it is in state \<open>Sending\<close>.\<close>

lemma sending_row:
  assumes "outbox_wf t" "require_sending t i c = Inr n" "r \<in> set t" "ob_id r = i"
  shows "ob_state r = Sending \<and> ob_attempts r = n"
proof -
  obtain r' where r': "row_by_id t i = Some r'" "ob_state r' = Sending" "ob_attempts r' = n"
    using assms(2) by (rule require_sendingD)
  with row_by_id_unique [OF assms(1,3)] assms(4) show ?thesis by simp
qed

lemma max_rowid_ge: "r \<in> set t \<Longrightarrow> ob_id r \<le> max_rowid t"
  using fold_max_ge [of 0 "map ob_id t" "ob_id r"] by (simp add: max_rowid_def)

lemma max_rowid_nonneg: "0 \<le> max_rowid t"
  using fold_max_ge [of 0 "map ob_id t"] by (simp add: max_rowid_def)

lemma retry_watermark_ge:
  assumes "r \<in> set t" "live r"
  shows "ob_next_retry_ms r \<le> retry_watermark t"
proof -
  from assms have r: "ob_next_retry_ms r \<in> set (map ob_next_retry_ms (filter live t))" by simp
  show ?thesis
  proof (cases "map ob_next_retry_ms (filter live t)")
    case Nil
    with r show ?thesis by simp
  next
    case (Cons x xs)
    with r fold_max_ge [of x xs "ob_next_retry_ms r"] show ?thesis
      unfolding retry_watermark_def Cons by auto
  qed
qed

section \<open>Every operation keeps the invariant\<close>

lemma sweep_inline_filter:
  "\<exists>P. snd (sweep_terminal_rows_inline anchor_of older n t) = filter P t"
proof (cases "min n OUTBOX_SWEEP_BATCH = 0")
  case True
  then have "snd (sweep_terminal_rows_inline anchor_of older n t) = filter (\<lambda>_. True) t"
    by (simp add: sweep_terminal_rows_inline_def)
  then show ?thesis by blast
next
  case False
  then show ?thesis by (auto simp: sweep_terminal_rows_inline_def Let_def)
qed

lemma sweep_inline_wf: "outbox_wf t \<Longrightarrow> outbox_wf (snd (sweep_terminal_rows_inline anchor_of older n t))"
  using sweep_inline_filter [of anchor_of older n t] wf_filter by force

lemma enforce_total_capD:
  assumes "enforce_total_cap anchor_of now n t = Inr t'"
  obtains P where "t' = filter P t" "length t' + 1 \<le> OUTBOX_TERMINAL_MAX_ROWS"
    "rows_bytes t' + n \<le> OUTBOX_TERMINAL_MAX_BYTES"
proof -
  have bound: "length t' + 1 \<le> OUTBOX_TERMINAL_MAX_ROWS \<and> rows_bytes t' + n \<le> OUTBOX_TERMINAL_MAX_BYTES"
    using assms
    by (auto simp: enforce_total_cap_def total_outbox_count_bytes_def Let_def sat_add_u64_def
        u64_max_def OUTBOX_TERMINAL_MAX_ROWS_def OUTBOX_TERMINAL_MAX_BYTES_def min_def
        split: if_splits)
  have "t' = t \<or> t' = snd (sweep_terminal_rows_inline anchor_of
          (sat_sub_i64 now OUTBOX_TERMINAL_RETENTION_MS) OUTBOX_SWEEP_BATCH t)"
    using assms by (auto simp: enforce_total_cap_def Let_def split: if_splits prod.splits)
  moreover have "t = filter (\<lambda>_. True) t" by simp
  ultimately have "\<exists>P. t' = filter P t" by (metis sweep_inline_filter)
  with bound that show thesis by blast
qed

lemma enqueue_oneD:
  assumes "enqueue_one anchor_of now row t = Inr (a, t')"
  obtains (dup) existing where "a = DuplicateKey existing" "t' = t"
      "row_by_key t (nb_idempotency_key row) = Some existing"
  | (new) P stored where "a = New stored" "t' = filter P t @ [stored]"
      "stored = inserted_row (filter P t)
         (max (nb_next_retry_ms row) (retry_watermark (filter P t))) now row"
      "row_by_key t (nb_idempotency_key row) = None"
      "length (filter live t) < STORE_OUTBOX_MAX_ROWS"
      "rows_bytes (filter live t) + length (nb_payload_json row) \<le> STORE_OUTBOX_MAX_QUEUED_BYTES"
      "length (filter P t) + 1 \<le> OUTBOX_TERMINAL_MAX_ROWS"
      "rows_bytes (filter P t) + length (nb_payload_json row) \<le> OUTBOX_TERMINAL_MAX_BYTES"
proof (cases "row_by_key t (nb_idempotency_key row)")
  case (Some existing)
  with assms show thesis by (intro dup) (auto simp: enqueue_one_def)
next
  case None
  with assms obtain t1 where t1: "enforce_total_cap anchor_of now (length (nb_payload_json row)) t = Inr t1"
    and a: "a = New (inserted_row t1 (max (nb_next_retry_ms row) (retry_watermark t1)) now row)"
      "t' = t1 @ [inserted_row t1 (max (nb_next_retry_ms row) (retry_watermark t1)) now row]"
    and cap: "length (filter live t) < STORE_OUTBOX_MAX_ROWS"
      "sat_add_u64 (rows_bytes (filter live t)) (length (nb_payload_json row)) \<le>
         STORE_OUTBOX_MAX_QUEUED_BYTES"
    by (auto simp: enqueue_one_def Let_def split: if_splits)
  from t1 obtain P where P: "t1 = filter P t" "length t1 + 1 \<le> OUTBOX_TERMINAL_MAX_ROWS"
      "rows_bytes t1 + length (nb_payload_json row) \<le> OUTBOX_TERMINAL_MAX_BYTES"
    by (rule enforce_total_capD)
  from cap(2) have "rows_bytes (filter live t) + length (nb_payload_json row) \<le> STORE_OUTBOX_MAX_QUEUED_BYTES"
    by (simp add: sat_add_u64_def u64_max_def STORE_OUTBOX_MAX_QUEUED_BYTES_def min_def split: if_splits)
  with P a cap None show thesis by (intro new) auto
qed

lemma wf_append_inserted:
  assumes wf: "outbox_wf t" and key: "row_by_key t (nb_idempotency_key row) = None"
    and pl: "length (nb_payload_json row) \<le> STORE_OUTBOX_PAYLOAD_MAX_BYTES"
    and cap: "length (filter live t) < STORE_OUTBOX_MAX_ROWS"
      "rows_bytes (filter live t) + length (nb_payload_json row) \<le> STORE_OUTBOX_MAX_QUEUED_BYTES"
      "length t + 1 \<le> OUTBOX_TERMINAL_MAX_ROWS"
      "rows_bytes t + length (nb_payload_json row) \<le> OUTBOX_TERMINAL_MAX_BYTES"
  shows "outbox_wf (t @ [inserted_row t retry now row])"
proof -
  have "row_wf (inserted_row t retry now row)"
    using pl max_rowid_nonneg [of t]
    by (simp add: row_wf_def inserted_row_def live_def STORE_OUTBOX_MAX_ATTEMPTS_def)
  moreover have "ob_id r < max_rowid t + 1" if "r \<in> set t" for r
    using max_rowid_ge [OF that] by simp
  ultimately show ?thesis
    using wf key cap
    by (auto simp: outbox_wf_def inserted_row_def live_def sorted_wrt_append row_by_key_None)
qed

lemma enqueue_one_wf:
  assumes "outbox_wf t" "length (nb_payload_json row) \<le> STORE_OUTBOX_PAYLOAD_MAX_BYTES"
    "enqueue_one anchor_of now row t = Inr (a, t')"
  shows "outbox_wf t'"
  using assms(3)
proof (cases rule: enqueue_oneD)
  case (dup existing)
  with assms show ?thesis by simp
next
  case (new P stored)
  have "length (filter live (filter P t)) \<le> length (filter live t)"
    unfolding filter_filter by (rule length_filter_mono) simp
  moreover have "rows_bytes (filter live (filter P t)) \<le> rows_bytes (filter live t)"
    unfolding filter_filter by (rule rows_bytes_filter_mono) simp
  moreover have "row_by_key (filter P t) (nb_idempotency_key row) = None"
    using new(4) by (auto simp: row_by_key_None)
  ultimately have "outbox_wf (filter P t @ [stored])"
    unfolding new(3) using new(5-) assms(1,2)
    by (intro wf_append_inserted wf_filter) linarith+
  with new(2) show ?thesis by simp
qed

lemma validate_payload_Inr:
  "validate_outbox_payload row = Inr u \<Longrightarrow> length (nb_payload_json row) \<le> STORE_OUTBOX_PAYLOAD_MAX_BYTES"
  by (simp add: validate_outbox_payload_def split: if_splits)

lemma enqueue_outbox_wf:
  assumes "outbox_wf t" "enqueue_outbox anchor_of now row t = Inr (a, t')"
  shows "outbox_wf t'"
  using assms
  by (auto simp: enqueue_outbox_def dest!: run_sized_Inr validate_payload_Inr intro: enqueue_one_wf)

lemma validate_payloads_Inr:
  "validate_outbox_payloads rows = Inr u \<Longrightarrow>
     list_all (\<lambda>row. length (nb_payload_json row) \<le> STORE_OUTBOX_PAYLOAD_MAX_BYTES) rows"
  by (induction rows) (auto dest: validate_payload_Inr)

lemma enqueue_rows_wf:
  assumes "list_all (\<lambda>row. length (nb_payload_json row) \<le> STORE_OUTBOX_PAYLOAD_MAX_BYTES) rows"
    "outbox_wf t" "enqueue_rows anchor_of now rows t = Inr (as, t')"
  shows "outbox_wf t'"
  using assms
proof (induction rows arbitrary: t as)
  case Nil
  then show ?case by simp
next
  case (Cons row rows)
  then obtain a t1 as' where step: "enqueue_one anchor_of now row t = Inr (a, t1)"
    "enqueue_rows anchor_of now rows t1 = Inr (as', t')" by auto
  with Cons show ?case by (auto intro: enqueue_one_wf)
qed

lemma enqueue_outbox_batch_wf:
  assumes "outbox_wf t" "enqueue_outbox_batch anchor_of now rows t = Inr (a, t')"
  shows "outbox_wf t'"
  using assms
  by (auto simp: enqueue_outbox_batch_def split: if_splits
      dest!: run_sized_Inr validate_payloads_Inr intro: enqueue_rows_wf)

lemma set_claim_loop: "set (claim_loop limit n b rows) \<subseteq> set rows"
  by (induction limit n b rows rule: claim_loop.induct) auto

lemma claimed_rows_due:
  assumes "outbox_wf t" "r \<in> set t"
    "ob_id r \<in> set (map ob_id (claim_loop limit n b (sort_key ob_id (filter (due now_value) t))))"
  shows "due now_value r"
proof -
  from assms(3) obtain r' where r': "ob_id r' = ob_id r"
    "r' \<in> set (claim_loop limit n b (sort_key ob_id (filter (due now_value) t)))" by auto
  with set_claim_loop have "r' \<in> set t" "due now_value r'" by fastforce+
  with r' assms row_by_id_unique show ?thesis by (metis option.inject)
qed

lemma claim_outbox_batch_wf:
  assumes "outbox_wf t" "claim_outbox_batch now now_value limit t = Inr (a, t')"
  shows "outbox_wf t'"
proof -
  let ?rows = "claim_loop (min limit STORE_OUTBOX_CLAIM_MAX_BATCH) 0 0
                 (sort_key ob_id (filter (due now_value) t))"
  have t': "t' = update_where (\<lambda>r. ob_id r \<in> set (map ob_id ?rows))
              (\<lambda>r. r\<lparr>ob_state := Sending, ob_updated_ms := now\<rparr>) t"
    using assms(2) by (simp add: claim_outbox_batch_def Let_def)
  show ?thesis
    unfolding t' using assms(1)
  proof (rule wf_update_where)
    fix r assume "r \<in> set t" "row_wf r" "ob_id r \<in> set (map ob_id ?rows)"
    with claimed_rows_due [OF assms(1)] have "due now_value r" by blast
    with \<open>row_wf r\<close> show "ob_id (r\<lparr>ob_state := Sending, ob_updated_ms := now\<rparr>) = ob_id r \<and>
      ob_idempotency_key (r\<lparr>ob_state := Sending, ob_updated_ms := now\<rparr>) = ob_idempotency_key r \<and>
      ob_payload_bytes (r\<lparr>ob_state := Sending, ob_updated_ms := now\<rparr>) = ob_payload_bytes r \<and>
      row_wf (r\<lparr>ob_state := Sending, ob_updated_ms := now\<rparr>) \<and>
      (live (r\<lparr>ob_state := Sending, ob_updated_ms := now\<rparr>) \<longrightarrow> live r)"
      by (simp add: row_wf_def due_def live_def)
  qed
qed

text \<open>
  One lemma for the operations that rewrite the single row they name, after \<open>require_sending\<close>.
\<close>

lemma wf_update_sending:
  assumes "outbox_wf t" "require_sending t i c = Inr n"
    and "\<And>r. row_wf r \<Longrightarrow> ob_state r = Sending \<Longrightarrow> ob_attempts r = n \<Longrightarrow>
      ob_id (f r) = ob_id r \<and> ob_idempotency_key (f r) = ob_idempotency_key r \<and>
      ob_payload_bytes (f r) = ob_payload_bytes r \<and> row_wf (f r)"
  shows "outbox_wf (update_where (\<lambda>r. ob_id r = i) f t)"
proof (rule wf_update_where [OF assms(1)])
  fix r assume r: "r \<in> set t" "row_wf r" "ob_id r = i"
  with sending_row [OF assms(1,2)] have "ob_state r = Sending" "ob_attempts r = n" by blast+
  with assms(3) [OF r(2)] show "ob_id (f r) = ob_id r \<and> ob_idempotency_key (f r) = ob_idempotency_key r \<and>
      ob_payload_bytes (f r) = ob_payload_bytes r \<and> row_wf (f r) \<and> (live (f r) \<longrightarrow> live r)"
    by (simp add: live_def)
qed

lemma park_successors_wf: "outbox_wf t \<Longrightarrow> outbox_wf (park_successors now i retry t)"
  unfolding park_successors_def
  by (rule wf_update_where) (auto simp: row_wf_def live_def)

lemma complete_outbox_wf:
  "outbox_wf t \<Longrightarrow> complete_outbox now i receipt t = Inr (a, t') \<Longrightarrow> outbox_wf t'"
  by (auto simp: complete_outbox_def dest!: run_sized_Inr intro!: wf_update_sending
      simp: row_wf_def live_def)

lemma fail_outbox_wf:
  "outbox_wf t \<Longrightarrow> fail_outbox now i n retry uncertain t = Inr (a, t') \<Longrightarrow> outbox_wf t'"
  by (auto simp: fail_outbox_def Let_def split: if_splits intro!: wf_update_sending)
    (auto simp: row_wf_def live_def sat_add_u32_def)

lemma fail_outbox_terminal_wf:
  "outbox_wf t \<Longrightarrow> fail_outbox_terminal now i t = Inr (a, t') \<Longrightarrow> outbox_wf t'"
  by (auto simp: fail_outbox_terminal_def intro!: wf_update_sending simp: row_wf_def live_def)

lemma release_outbox_claim_at_wf:
  "outbox_wf t \<Longrightarrow> release_outbox_claim_at now i retry t = Inr (a, t') \<Longrightarrow> outbox_wf t'"
  by (auto simp: release_outbox_claim_at_def intro!: wf_update_sending simp: row_wf_def live_def)

lemma release_outbox_claim_wf:
  "outbox_wf t \<Longrightarrow> release_outbox_claim now i t = Inr (a, t') \<Longrightarrow> outbox_wf t'"
  unfolding release_outbox_claim_def by (rule release_outbox_claim_at_wf)

lemma fail_outbox_and_defer_successors_wf:
  assumes "outbox_wf t" "fail_outbox_and_defer_successors now i n retry t = Inr (a, t')"
  shows "outbox_wf t'"
proof -
  let ?u = "\<lambda>s. update_where (\<lambda>r. ob_id r = i)
     (\<lambda>r. r\<lparr>ob_state := s, ob_attempts := n, ob_next_retry_ms := retry, ob_updated_ms := now\<rparr>) t"
  from assms(2) obtain k where k: "require_sending t i ''retrying an ordered outbox row'' = Inr k"
    "n = sat_add_u32 k 1"
    and t': "t' = (if n < STORE_OUTBOX_MAX_ATTEMPTS then park_successors now i retry (?u Pending)
                   else ?u Failed)"
    by (auto simp: fail_outbox_and_defer_successors_def Let_def split: if_splits)
  have "outbox_wf (?u s)" if "s = (if n < STORE_OUTBOX_MAX_ATTEMPTS then Pending else Failed)" for s
    using assms(1) k(1) that k(2)
    by (intro wf_update_sending) (auto simp: row_wf_def live_def sat_add_u32_def)
  then show ?thesis unfolding t' by (auto intro: park_successors_wf)
qed

lemma defer_outbox_after_wf:
  "outbox_wf t \<Longrightarrow> defer_outbox_after now i retry t = Inr (a, t') \<Longrightarrow> outbox_wf t'"
  by (auto simp: defer_outbox_after_def Let_def intro!: wf_update_where simp: row_wf_def live_def)

lemma recover_sending_outbox_wf:
  "outbox_wf t \<Longrightarrow> recover_sending_outbox now t = Inr (a, t') \<Longrightarrow> outbox_wf t'"
  by (auto simp: recover_sending_outbox_def intro!: wf_update_where simp: row_wf_def live_def)

lemma sweep_terminal_outbox_wf:
  "outbox_wf t \<Longrightarrow> sweep_terminal_outbox anchor_of older n t = Inr (a, t') \<Longrightarrow> outbox_wf t'"
  using sweep_inline_wf [of t anchor_of older "min n OUTBOX_SWEEP_BATCH"]
  by (auto simp: sweep_terminal_outbox_def Let_def split: if_splits)

lemma rows_bytes_update_one:
  assumes "distinct (map ob_id t)" "r \<in> set t" "P r" "P (f r)"
  shows "rows_bytes (filter P (update_where (\<lambda>x. ob_id x = ob_id r) f t)) + ob_payload_bytes r =
         rows_bytes (filter P t) + ob_payload_bytes (f r)"
  using assms
proof (induction t)
  case Nil
  then show ?case by simp
next
  case (Cons x t)
  have other: "update_where (\<lambda>x. ob_id x = ob_id r) f t = t" if "ob_id r \<notin> ob_id ` set t"
    using that by (induction t) auto
  show ?case
  proof (cases "x = r")
    case True
    with Cons.prems other show ?thesis by simp
  next
    case False
    with Cons.prems have "ob_id x \<noteq> ob_id r" "r \<in> set t" by (auto simp: rev_image_eqI)
    with Cons show ?thesis by simp
  qed
qed

lemma length_live_update_where:
  "(\<And>r. r \<in> set t \<Longrightarrow> P r \<Longrightarrow> live (f r) = live r) \<Longrightarrow>
     length (filter live (update_where P f t)) = length (filter live t)"
  by (induction t) auto

lemma replace_outbox_with_fallback_wf:
  assumes wf: "outbox_wf t" and run: "replace_outbox_with_fallback now i payload t = Inr (a, t')"
  shows "outbox_wf t'"
proof -
  let ?f = "\<lambda>r. r\<lparr>ob_payload_json := payload, ob_payload_bytes := length payload,
              ob_state := Pending, ob_attempts := 0, ob_next_retry_ms := now, ob_updated_ms := now\<rparr>"
  let ?u = "update_where (\<lambda>r. ob_id r = i) ?f t"
  from run obtain n where n: "require_sending t i ''persisting an outbox fallback'' = Inr n"
    and size: "length payload \<le> STORE_OUTBOX_PAYLOAD_MAX_BYTES"
    and t': "t' = park_successors now i now ?u"
    by (auto simp: replace_outbox_with_fallback_def Let_def split: if_splits)
  from n obtain r where r: "row_by_id t i = Some r" "r \<in> set t" "ob_id r = i" "ob_state r = Sending"
    by (rule require_sendingD)
  from run r n size have cap:
    "rows_bytes (filter live t) + (length payload - ob_payload_bytes r) \<le> STORE_OUTBOX_MAX_QUEUED_BYTES"
    "sat_add_u64 (rows_bytes t) (length payload - ob_payload_bytes r) \<le> OUTBOX_TERMINAL_MAX_BYTES"
    by (auto simp: replace_outbox_with_fallback_def Let_def total_outbox_count_bytes_def
        split: if_splits)
  have ids: "distinct (map ob_id t)" using wf by (rule wf_distinct_ids)
  have all: "rows_bytes ?u + ob_payload_bytes r = rows_bytes t + length payload"
    using rows_bytes_update_one [OF ids r(2), of "\<lambda>_. True" ?f] r(3) by simp
  have liv: "rows_bytes (filter live ?u) + ob_payload_bytes r = rows_bytes (filter live t) + length payload"
    using rows_bytes_update_one [OF ids r(2), of live ?f] r(3,4) by (simp add: live_def)
  have len: "length (filter live ?u) = length (filter live t)"
    using sending_row [OF wf n] by (intro length_live_update_where) (simp add: live_def)
  have maps: "map ob_id ?u = map ob_id t" "map ob_idempotency_key ?u = map ob_idempotency_key t"
    by (rule map_update_where, simp)+
  have rows: "list_all row_wf ?u"
  proof -
    have "row_wf x" if "x \<in> set t" for x using that wf by (auto simp: outbox_wf_def list_all_iff)
    moreover have "row_wf (?f x)" if "x \<in> set t" "ob_id x = i" for x
      using calculation [OF that(1)] sending_row [OF wf n that] size
      by (simp add: row_wf_def live_def STORE_OUTBOX_MAX_ATTEMPTS_def)
    ultimately show ?thesis unfolding list_all_iff set_update_where by blast
  qed
  have "rows_bytes (filter live ?u) \<le> STORE_OUTBOX_MAX_QUEUED_BYTES"
    using cap(1) liv wf unfolding outbox_wf_def by linarith
  moreover have "rows_bytes ?u \<le> OUTBOX_TERMINAL_MAX_BYTES"
    using cap(2) all wf unfolding outbox_wf_def sat_add_u64_def u64_max_def
      OUTBOX_TERMINAL_MAX_BYTES_def by (auto simp: min_def split: if_splits)
  ultimately have "outbox_wf ?u"
    using wf maps rows len unfolding outbox_wf_def by simp
  then show ?thesis unfolding t' by (rule park_successors_wf)
qed

section \<open>Runs of the store\<close>

text \<open>One constructor per operation that changes the table, with the clock it reads.\<close>

datatype outbox_op =
    OpEnqueue int new_outbox_row
  | OpEnqueueBatch int "new_outbox_row list"
  | OpClaim int int nat
  | OpComplete int int string
  | OpFail int int nat int bool
  | OpFailDefer int int nat int
  | OpFailTerminal int int
  | OpReplace int int string
  | OpReleaseAt int int int
  | OpRelease int int
  | OpDefer int int int
  | OpRecover int
  | OpSweep int nat

fun apply_op :: "(string \<Rightarrow> string option) \<Rightarrow> outbox_op \<Rightarrow> outbox_table \<Rightarrow> outbox_table" where
  "apply_op anchor_of (OpEnqueue now row) t = after (enqueue_outbox anchor_of now row) t"
| "apply_op anchor_of (OpEnqueueBatch now rows) t = after (enqueue_outbox_batch anchor_of now rows) t"
| "apply_op anchor_of (OpClaim now now_value limit) t = after (claim_outbox_batch now now_value limit) t"
| "apply_op anchor_of (OpComplete now i receipt) t = after (complete_outbox now i receipt) t"
| "apply_op anchor_of (OpFail now i n retry uncertain) t = after (fail_outbox now i n retry uncertain) t"
| "apply_op anchor_of (OpFailDefer now i n retry) t = after (fail_outbox_and_defer_successors now i n retry) t"
| "apply_op anchor_of (OpFailTerminal now i) t = after (fail_outbox_terminal now i) t"
| "apply_op anchor_of (OpReplace now i payload) t = after (replace_outbox_with_fallback now i payload) t"
| "apply_op anchor_of (OpReleaseAt now i retry) t = after (release_outbox_claim_at now i retry) t"
| "apply_op anchor_of (OpRelease now i) t = after (release_outbox_claim now i) t"
| "apply_op anchor_of (OpDefer now i retry) t = after (defer_outbox_after now i retry) t"
| "apply_op anchor_of (OpRecover now) t = after (recover_sending_outbox now) t"
| "apply_op anchor_of (OpSweep older n) t = after (sweep_terminal_outbox anchor_of older n) t"

lemmas outbox_ops_wf =
  enqueue_outbox_wf enqueue_outbox_batch_wf claim_outbox_batch_wf complete_outbox_wf fail_outbox_wf
  fail_outbox_and_defer_successors_wf fail_outbox_terminal_wf replace_outbox_with_fallback_wf
  release_outbox_claim_at_wf release_outbox_claim_wf defer_outbox_after_wf recover_sending_outbox_wf
  sweep_terminal_outbox_wf

lemma apply_op_wf:
  "outbox_wf t \<Longrightarrow> outbox_wf (apply_op anchor_of op t)"
  by (cases op; (simp only: apply_op.simps, erule after_inv, rule outbox_ops_wf, assumption, assumption))

interpretation outbox_run: invariant_steps "apply_op anchor_of" outbox_wf
  for anchor_of
  by unfold_locales (rule apply_op_wf)

text \<open>C3: whatever operations run, in whatever order and at whatever clock readings, starting from the
  empty outbox: rowids stay unique and in insertion order, idempotency keys stay unique, a row has a
  receipt exactly when it is \<open>Sent\<close>, a live row has attempts left, and the row and byte limits on the
  live queue and on the whole table hold.\<close>

theorem outbox_invariant_always: "outbox_wf (fold (apply_op anchor_of) ops [])"
  by (rule outbox_run.run_inv) (simp add: outbox_wf_def)

end
