(* ===== verification/Outbox_Fifo.thy ===== *)
theory Outbox_Fifo
  imports Outbox_Invariants
begin

text \<open>
  In-order delivery. A live row that is not yet due holds back every later live row: the retry times
  of the live rows never decrease along the queue, apart from rows that were already due at an
  earlier reading of the clock. \<open>fifo T\<close> states this for a clock that has reached \<open>T\<close>; every
  operation the program issues keeps it while the clock does not run backwards, and under it a claim
  takes a prefix of the pending rows in rowid order.
\<close>

section \<open>The ordering invariant\<close>

definition fifo :: "int \<Rightarrow> outbox_table \<Rightarrow> bool" where
  "fifo T t \<longleftrightarrow>
     (\<forall>a\<in>set t. \<forall>b\<in>set t. live a \<and> live b \<and> ob_id a < ob_id b \<longrightarrow>
        ob_next_retry_ms a \<le> max (ob_next_retry_ms b) T) \<and>
     (\<forall>a\<in>set t. ob_state a = Sending \<longrightarrow> ob_next_retry_ms a \<le> T)"

lemma fifo_Nil: "fifo T []"
  by (simp add: fifo_def)

text \<open>Rows may leave the live set, and live rows may change state, without disturbing the order.\<close>

lemma fifo_sub:
  assumes "fifo T t" "T \<le> T'"
    and "\<And>x. x \<in> set t' \<Longrightarrow> live x \<Longrightarrow> \<exists>y\<in>set t. live y \<and> ob_id y = ob_id x \<and>
           ob_next_retry_ms y = ob_next_retry_ms x \<and>
           (ob_state x = Sending \<longrightarrow> ob_state y = Sending \<or> ob_next_retry_ms x \<le> T')"
  shows "fifo T' t'"
proof -
  have pair: "ob_next_retry_ms a \<le> max (ob_next_retry_ms b) T'"
    if "a \<in> set t'" "b \<in> set t'" "live a" "live b" "ob_id a < ob_id b" for a b
  proof -
    from assms(3) that obtain a0 b0 where "a0 \<in> set t" "b0 \<in> set t" "live a0" "live b0"
      "ob_id a0 = ob_id a" "ob_id b0 = ob_id b" "ob_next_retry_ms a0 = ob_next_retry_ms a"
      "ob_next_retry_ms b0 = ob_next_retry_ms b" by metis
    with assms(1) that have "ob_next_retry_ms a \<le> max (ob_next_retry_ms b) T"
      unfolding fifo_def by metis
    with assms(2) show ?thesis by linarith
  qed
  have "ob_next_retry_ms a \<le> T'" if a: "a \<in> set t'" "ob_state a = Sending" for a
  proof -
    from a have "live a" by (simp add: live_def)
    from assms(3) [OF a(1) this] a(2) obtain y where "y \<in> set t" "ob_next_retry_ms y = ob_next_retry_ms a"
      "ob_state y = Sending \<or> ob_next_retry_ms a \<le> T'" by auto
    with assms(1,2) show ?thesis unfolding fifo_def by force
  qed
  with pair show ?thesis unfolding fifo_def by blast
qed

lemma fifo_mono: "fifo T t \<Longrightarrow> T \<le> T' \<Longrightarrow> fifo T' t"
  by (rule fifo_sub) auto

lemma fifo_filter: "fifo T t \<Longrightarrow> fifo T (filter P t)"
  by (rule fifo_sub) auto

text \<open>An operation that takes the rows it touches out of the live set.\<close>

lemma fifo_retire:
  "fifo T t \<Longrightarrow> (\<And>r. \<not> live (f r)) \<Longrightarrow> fifo T (update_where P f t)"
  by (rule fifo_sub) (auto simp: set_update_where)

text \<open>The two ordered retries: the row goes back behind a retry time, its successors with it.\<close>

lemma fifo_park:
  assumes wf: "outbox_wf t" and fifo: "fifo T t" and send: "require_sending t i c = Inr n"
    and f: "\<And>r. ob_id (f r) = ob_id r" "\<And>r. ob_next_retry_ms (f r) = retry" "\<And>r. ob_state (f r) = Pending"
  shows "fifo T (park_successors now i retry (update_where (\<lambda>r. ob_id r = i) f t))"
    (is "fifo T ?t")
proof -
  have origin: "\<exists>y\<in>set t. live y \<and> ob_id y = ob_id x \<and>
      (ob_id x < i \<longrightarrow> x = y) \<and>
      (ob_id x = i \<longrightarrow> ob_state y = Sending \<and> ob_state x = Pending \<and> ob_next_retry_ms x = retry) \<and>
      (i < ob_id x \<longrightarrow> ob_state x = Pending \<and> ob_next_retry_ms x = max (ob_next_retry_ms y) retry)"
    if x: "x \<in> set ?t" "live x" for x
  proof -
    from x(1) obtain z where z: "z \<in> set (update_where (\<lambda>r. ob_id r = i) f t)"
      and x': "x = (if i < ob_id z \<and> live z then z\<lparr>ob_state := Pending,
              ob_next_retry_ms := (if ob_next_retry_ms z < retry then retry else ob_next_retry_ms z),
              ob_updated_ms := now\<rparr> else z)"
      unfolding park_successors_def by (rule update_where_memE)
    from z obtain y where y: "y \<in> set t" "z = (if ob_id y = i then f y else y)"
      by (rule update_where_memE)
    from y x' f(1) have ids: "ob_id x = ob_id y" "ob_id z = ob_id y" by auto
    consider "ob_id y < i" | "ob_id y = i" | "i < ob_id y" by linarith
    then show ?thesis
    proof cases
      case 1
      with y x' ids x(2) show ?thesis by auto
    next
      case 2
      with sending_row [OF wf send y(1)] have "ob_state y = Sending" by simp
      with 2 y x' ids f show ?thesis by (intro bexI [of _ y]) (auto simp: live_def)
    next
      case 3
      with y have "z = y" by auto
      with 3 x' x(2) have "live y" by (auto split: if_splits)
      with 3 \<open>z = y\<close> x' y(1) ids show ?thesis by (intro bexI [of _ y]) auto
    qed
  qed
  have old: "ob_next_retry_ms a \<le> max (ob_next_retry_ms b) T"
    if "a \<in> set t" "b \<in> set t" "live a" "live b" "ob_id a < ob_id b" for a b
    using fifo that unfolding fifo_def by blast
  have sent: "ob_next_retry_ms a \<le> T" if "a \<in> set t" "ob_state a = Sending" for a
    using fifo that unfolding fifo_def by blast
  have pair: "ob_next_retry_ms a \<le> max (ob_next_retry_ms b) T"
    if ab: "a \<in> set ?t" "b \<in> set ?t" "live a" "live b" "ob_id a < ob_id b" for a b
  proof -
    from origin [OF ab(1,3)] obtain a0 where a0: "a0 \<in> set t" "live a0" "ob_id a0 = ob_id a"
      "ob_id a < i \<longrightarrow> a = a0" "ob_id a = i \<longrightarrow> ob_next_retry_ms a = retry"
      "i < ob_id a \<longrightarrow> ob_next_retry_ms a = max (ob_next_retry_ms a0) retry" by blast
    from origin [OF ab(2,4)] obtain b0 where b0: "b0 \<in> set t" "live b0" "ob_id b0 = ob_id b"
      "ob_id b < i \<longrightarrow> b = b0" "ob_id b = i \<longrightarrow> ob_state b0 = Sending"
      "i < ob_id b \<longrightarrow> ob_next_retry_ms b = max (ob_next_retry_ms b0) retry" by blast
    have le: "ob_next_retry_ms a0 \<le> max (ob_next_retry_ms b0) T"
      using old [OF a0(1) b0(1) a0(2) b0(2)] a0(3) b0(3) ab(5) by simp
    consider "ob_id b < i" | "ob_id b = i" | "i < ob_id b" by linarith
    then show ?thesis
    proof cases
      case 1
      with a0 b0 le ab(5) show ?thesis by auto
    next
      case 2
      with b0(5) sent [OF b0(1)] have "ob_next_retry_ms b0 \<le> T" by simp
      with 2 a0(4) ab(5) le show ?thesis by auto
    next
      case 3
      with b0 have b: "ob_next_retry_ms b = max (ob_next_retry_ms b0) retry" by simp
      have "ob_next_retry_ms a \<le> max (ob_next_retry_ms a0) retry"
        using a0(4-) by (cases "ob_id a" i rule: linorder_cases) auto
      with b le show ?thesis by linarith
    qed
  qed
  have "ob_next_retry_ms a \<le> T" if a: "a \<in> set ?t" "ob_state a = Sending" for a
  proof -
    from a(2) have "live a" by (simp add: live_def)
    from origin [OF a(1) this] obtain y where "y \<in> set t" "ob_id a < i \<longrightarrow> a = y"
      "ob_id a = i \<longrightarrow> ob_state a = Pending" "i < ob_id a \<longrightarrow> ob_state a = Pending" by blast
    with a(2) sent show ?thesis by (cases "ob_id a" i rule: linorder_cases) auto
  qed
  with pair show ?thesis unfolding fifo_def by blast
qed

section \<open>Operations keep the order\<close>

lemma sweep_inline_fifo: "fifo T t \<Longrightarrow> fifo T (snd (sweep_terminal_rows_inline anchor_of older n t))"
  using sweep_inline_filter [of anchor_of older n t] fifo_filter by force

lemma enqueue_one_fifo:
  assumes "fifo T t" "enqueue_one anchor_of now row t = Inr (a, t')"
  shows "fifo T t'"
  using assms(2)
proof (cases rule: enqueue_oneD)
  case (dup existing)
  with assms show ?thesis by simp
next
  case (new P stored)
  let ?t = "filter P t"
  have fifo: "fifo T ?t" using assms(1) by (rule fifo_filter)
  have st: "ob_state stored = Pending" "ob_id stored = max_rowid ?t + 1"
    "ob_next_retry_ms stored \<ge> retry_watermark ?t"
    unfolding new(3) by (simp_all add: inserted_row_def)
  have "ob_next_retry_ms a \<le> max (ob_next_retry_ms b) T"
    if ab: "a \<in> set t'" "b \<in> set t'" "live a" "live b" "ob_id a < ob_id b" for a b
  proof (cases "a = stored")
    case True
    with ab st(2) max_rowid_ge [of b ?t] show ?thesis unfolding new(2) by force
  next
    case False
    with ab(1) have a: "a \<in> set ?t" unfolding new(2) by auto
    show ?thesis
    proof (cases "b = stored")
      case True
      with retry_watermark_ge [OF a ab(3)] st(3) show ?thesis by (simp add: le_max_iff_disj)
    next
      case False
      with ab a have "b \<in> set ?t" unfolding new(2) by auto
      with fifo a ab show ?thesis unfolding fifo_def by blast
    qed
  qed
  moreover have "ob_next_retry_ms a \<le> T" if "a \<in> set t'" "ob_state a = Sending" for a
    using that fifo st(1) unfolding new(2) fifo_def by auto
  ultimately show ?thesis unfolding fifo_def by blast
qed

lemma enqueue_outbox_fifo:
  "fifo T t \<Longrightarrow> enqueue_outbox anchor_of now row t = Inr (a, t') \<Longrightarrow> fifo T t'"
  by (auto simp: enqueue_outbox_def dest!: run_sized_Inr intro: enqueue_one_fifo)

lemma enqueue_rows_fifo:
  "fifo T t \<Longrightarrow> enqueue_rows anchor_of now rows t = Inr (as, t') \<Longrightarrow> fifo T t'"
  by (induction rows arbitrary: t as) (auto dest: enqueue_one_fifo)

lemma enqueue_outbox_batch_fifo:
  "fifo T t \<Longrightarrow> enqueue_outbox_batch anchor_of now rows t = Inr (a, t') \<Longrightarrow> fifo T t'"
  by (auto simp: enqueue_outbox_batch_def split: if_splits dest!: run_sized_Inr intro: enqueue_rows_fifo)

lemma claim_outbox_batch_fifo:
  assumes "outbox_wf t" "fifo T t" "T \<le> now_value"
    "claim_outbox_batch now now_value limit t = Inr (a, t')"
  shows "fifo now_value t'"
proof -
  let ?rows = "claim_loop (min limit STORE_OUTBOX_CLAIM_MAX_BATCH) 0 0
                 (sort_key ob_id (filter (due now_value) t))"
  have t': "t' = update_where (\<lambda>r. ob_id r \<in> set (map ob_id ?rows))
              (\<lambda>r. r\<lparr>ob_state := Sending, ob_updated_ms := now\<rparr>) t"
    using assms(4) by (simp add: claim_outbox_batch_def Let_def)
  show ?thesis
    using assms(2,3)
  proof (rule fifo_sub)
    fix x assume x: "x \<in> set t'" "live x"
    from x(1) obtain y where y: "y \<in> set t" "x = (if ob_id y \<in> set (map ob_id ?rows)
        then y\<lparr>ob_state := Sending, ob_updated_ms := now\<rparr> else y)"
      unfolding t' by (rule update_where_memE)
    moreover have "due now_value y" if "ob_id y \<in> set (map ob_id ?rows)"
      using claimed_rows_due [OF assms(1) y(1) that] .
    ultimately show "\<exists>y\<in>set t. live y \<and> ob_id y = ob_id x \<and> ob_next_retry_ms y = ob_next_retry_ms x \<and>
       (ob_state x = Sending \<longrightarrow> ob_state y = Sending \<or> ob_next_retry_ms x \<le> now_value)"
      using x(2) by (intro bexI [of _ y]) (auto simp: due_def live_def split: if_splits)
  qed
qed

lemma complete_outbox_fifo:
  "fifo T t \<Longrightarrow> complete_outbox now i receipt t = Inr (a, t') \<Longrightarrow> fifo T t'"
  by (auto simp: complete_outbox_def dest!: run_sized_Inr intro!: fifo_retire simp: live_def)

lemma fail_outbox_uncertain_fifo:
  "fifo T t \<Longrightarrow> fail_outbox now i n retry True t = Inr (a, t') \<Longrightarrow> fifo T t'"
  by (auto simp: fail_outbox_def Let_def split: if_splits intro!: fifo_retire simp: live_def)

lemma fail_outbox_terminal_fifo:
  "fifo T t \<Longrightarrow> fail_outbox_terminal now i t = Inr (a, t') \<Longrightarrow> fifo T t'"
  by (auto simp: fail_outbox_terminal_def intro!: fifo_retire simp: live_def)

lemma recover_sending_outbox_fifo:
  "fifo T t \<Longrightarrow> recover_sending_outbox now t = Inr (a, t') \<Longrightarrow> fifo T t'"
  by (auto simp: recover_sending_outbox_def intro!: fifo_retire simp: live_def)

lemma sweep_terminal_outbox_fifo:
  "fifo T t \<Longrightarrow> sweep_terminal_outbox anchor_of older n t = Inr (a, t') \<Longrightarrow> fifo T t'"
  using sweep_inline_fifo [of T t anchor_of older "min n OUTBOX_SWEEP_BATCH"]
  by (auto simp: sweep_terminal_outbox_def Let_def split: if_splits)

lemma fail_outbox_and_defer_successors_fifo:
  assumes "outbox_wf t" "fifo T t" "fail_outbox_and_defer_successors now i n retry t = Inr (a, t')"
  shows "fifo T t'"
  using assms
  by (auto simp: fail_outbox_and_defer_successors_def Let_def live_def split: if_splits
      intro!: fifo_retire fifo_park)

lemma replace_outbox_with_fallback_fifo:
  assumes "outbox_wf t" "fifo T t" "replace_outbox_with_fallback now i payload t = Inr (a, t')"
  shows "fifo T t'"
  using assms
  by (auto simp: replace_outbox_with_fallback_def Let_def split: if_splits intro!: fifo_park)

lemma release_outbox_claim_fifo:
  assumes wf: "outbox_wf t" and fifo: "fifo T t" and clock: "T \<le> now"
    and run: "release_outbox_claim now i t = Inr (a, t')"
  shows "fifo now t'"
proof -
  let ?f = "\<lambda>r. r\<lparr>ob_state := Pending, ob_next_retry_ms := now, ob_updated_ms := now\<rparr>"
  from run obtain n where n: "require_sending t i ''releasing an outbox claim'' = Inr n"
    and t': "t' = update_where (\<lambda>r. ob_id r = i) ?f t"
    by (auto simp: release_outbox_claim_def release_outbox_claim_at_def)
  have origin: "\<exists>y\<in>set t. live y \<and> ob_id y = ob_id x \<and>
      (if ob_id x = i then ob_state y = Sending \<and> ob_state x = Pending \<and> ob_next_retry_ms x = now else x = y)"
    if x: "x \<in> set t'" "live x" for x
  proof -
    from x(1) obtain y where y: "y \<in> set t" "x = (if ob_id y = i then ?f y else y)"
      unfolding t' by (rule update_where_memE)
    with sending_row [OF wf n y(1)] x(2) show ?thesis
      by (intro bexI [of _ y]) (auto simp: live_def split: if_splits)
  qed
  have "ob_next_retry_ms a \<le> max (ob_next_retry_ms b) now"
    if ab: "a \<in> set t'" "b \<in> set t'" "live a" "live b" "ob_id a < ob_id b" for a b
  proof (cases "ob_id a = i")
    case True
    with origin [OF ab(1,3)] show ?thesis by auto
  next
    case False
    with origin [OF ab(1,3)] have a: "a \<in> set t" by auto
    from origin [OF ab(2,4)] obtain y where y: "y \<in> set t" "live y" "ob_id y = ob_id b"
      "ob_id b = i \<longrightarrow> ob_state y = Sending" "ob_id b \<noteq> i \<longrightarrow> b = y" by (auto split: if_splits)
    with fifo a ab have "ob_next_retry_ms a \<le> max (ob_next_retry_ms y) T" unfolding fifo_def by metis
    moreover have "ob_id b = i \<Longrightarrow> ob_next_retry_ms y \<le> T" using fifo y unfolding fifo_def by blast
    ultimately show ?thesis using y(5) clock by fastforce
  qed
  moreover have "ob_next_retry_ms a \<le> now" if a: "a \<in> set t'" "ob_state a = Sending" for a
  proof -
    from a have "live a" by (simp add: live_def)
    from origin [OF a(1) this] a(2) have "a \<in> set t" by (auto split: if_splits)
    with fifo a(2) clock show ?thesis unfolding fifo_def by fastforce
  qed
  ultimately show ?thesis unfolding fifo_def by blast
qed

section \<open>Runs of the program\<close>

text \<open>
  The clock a store operation of the program leaves behind. A claim reads it as \<open>now_value\<close>, a
  released claim is re-parked at it. \<open>defer_outbox_after\<close>, \<open>release_outbox_claim_at\<close> and a retry
  through \<open>fail_outbox\<close> that does not park its successors are not issued by the program.
\<close>

fun tick :: "int \<Rightarrow> outbox_op \<Rightarrow> int option" where
  "tick T (OpClaim now now_value limit) = (if T \<le> now_value then Some now_value else None)"
| "tick T (OpRelease now i) = (if T \<le> now then Some now else None)"
| "tick T (OpFail now i n retry uncertain) = (if uncertain then Some T else None)"
| "tick T (OpReleaseAt now i retry) = None"
| "tick T (OpDefer now i retry) = None"
| "tick T op = Some T"

lemmas outbox_ops_fifo =
  enqueue_outbox_fifo enqueue_outbox_batch_fifo complete_outbox_fifo fail_outbox_uncertain_fifo
  fail_outbox_and_defer_successors_fifo fail_outbox_terminal_fifo replace_outbox_with_fallback_fifo
  recover_sending_outbox_fifo sweep_terminal_outbox_fifo

lemma after_fifo: "fifo T t \<Longrightarrow> (\<And>a t'. job t = Inr (a, t') \<Longrightarrow> fifo T t') \<Longrightarrow> fifo T (after job t)"
  by (auto simp: after_def split: sum.splits)

lemma apply_op_fifo:
  assumes wf: "outbox_wf t" and fifo: "fifo T t" and tick: "tick T op = Some T'"
  shows "fifo T' (apply_op anchor_of op t)"
proof (cases op)
  case (OpClaim now now_value limit)
  with tick have "T \<le> now_value" "T' = now_value" by (auto split: if_splits)
  with OpClaim wf fifo show ?thesis
    by (auto intro!: after_fifo intro: fifo_mono claim_outbox_batch_fifo)
next
  case (OpRelease now i)
  with tick have "T \<le> now" "T' = now" by (auto split: if_splits)
  with OpRelease wf fifo show ?thesis
    by (auto intro!: after_fifo intro: fifo_mono release_outbox_claim_fifo)
qed (use tick wf fifo in \<open>auto intro!: after_fifo intro: outbox_ops_fifo split: if_splits\<close>)

interpretation ordered_run: clocked_steps "apply_op anchor_of" "\<lambda>T t. outbox_wf t \<and> fifo T t" tick
  for anchor_of
  by unfold_locales (blast intro: apply_op_wf apply_op_fifo)

lemma program_run:
  assumes "run_clock tick T ops = Some T'"
  shows "outbox_wf (fold (apply_op anchor_of) ops []) \<and> fifo T' (fold (apply_op anchor_of) ops [])"
  by (rule ordered_run.run_inv [OF _ assms]) (simp add: fifo_Nil outbox_wf_def)

section \<open>Claims\<close>

lemma claim_loop_take: "\<exists>k. claim_loop limit n b rows = take k rows \<and> n + k \<le> max n limit"
proof (induction limit n b rows rule: claim_loop.induct)
  case (1 limit n b)
  then show ?case by (intro exI [of _ 0]) simp
next
  case (2 limit n b row rows)
  show ?case
  proof (cases "n \<ge> limit \<or> sat_add_u64 b (ob_payload_bytes row) > STORE_OUTBOX_CLAIM_MAX_BYTES")
    case True
    then show ?thesis by (intro exI [of _ 0]) auto
  next
    case False
    with 2 obtain k where "claim_loop limit (n + 1) (sat_add_u64 b (ob_payload_bytes row)) rows = take k rows"
      "n + 1 + k \<le> max (n + 1) limit" by blast
    with False show ?thesis by (intro exI [of _ "Suc k"]) auto
  qed
qed

lemma claim_loop_bytes:
  "b \<le> STORE_OUTBOX_CLAIM_MAX_BYTES \<Longrightarrow>
     b + rows_bytes (claim_loop limit n b rows) \<le> STORE_OUTBOX_CLAIM_MAX_BYTES"
proof (induction limit n b rows rule: claim_loop.induct)
  case (2 limit n b row rows)
  have "sat_add_u64 b (ob_payload_bytes row) = b + ob_payload_bytes row"
    if "sat_add_u64 b (ob_payload_bytes row) \<le> STORE_OUTBOX_CLAIM_MAX_BYTES"
    using that by (auto simp: sat_add_u64_def u64_max_def STORE_OUTBOX_CLAIM_MAX_BYTES_def min_def
        split: if_splits)
  with 2 show ?case by fastforce
qed simp

lemma sorted_filter_id:
  assumes "outbox_wf t"
  shows "sort_key ob_id (filter P t) = filter P t"
proof -
  have "sorted_wrt (<) (map ob_id (filter P t))"
    using assms by (auto simp: outbox_wf_def intro: sorted_wrt_filter_map)
  then have "sorted (map ob_id (filter P t))" by (rule strict_sorted_imp_sorted)
  then show ?thesis by (rule sort_key_id_if_sorted)
qed

text \<open>Under \<open>fifo\<close> the due rows are a prefix of the pending rows.\<close>

lemma filter_prefix:
  assumes "\<And>a b xs ys zs. t = xs @ a # ys @ b # zs \<Longrightarrow> Q b \<Longrightarrow> Q a"
  shows "\<exists>k. filter Q t = take k t"
  using assms
proof (induction t)
  case Nil
  then show ?case by simp
next
  case (Cons x t)
  show ?case
  proof (cases "Q x")
    case True
    have "\<exists>k. filter Q t = take k t"
      by (rule Cons.IH) (metis Cons.prems append_Cons)
    then obtain k where "filter Q t = take k t" ..
    with True show ?thesis by (intro exI [of _ "Suc k"]) simp
  next
    case False
    have "\<not> Q b" if "b \<in> set t" for b
    proof -
      from that obtain ys zs where "t = ys @ b # zs" by (auto simp: in_set_conv_decomp)
      with Cons.prems [of "[]" x ys b zs] False show ?thesis by auto
    qed
    then have "filter Q t = []" by (simp add: filter_empty_conv)
    with False show ?thesis by (intro exI [of _ 0]) simp
  qed
qed

lemma filter_due:
  "filter (due now_value) t = filter (\<lambda>r. ob_next_retry_ms r \<le> now_value) (rows_in_state Pending t)"
  unfolding rows_in_state_def filter_filter by (rule filter_cong) (auto simp: due_def)

lemma due_prefix:
  assumes wf: "outbox_wf t" and fifo: "fifo T t" and clock: "T \<le> now_value"
  shows "\<exists>k. filter (due now_value) t = take k (rows_in_state Pending t)"
proof -
  have "\<exists>k. filter (\<lambda>r. ob_next_retry_ms r \<le> now_value) (rows_in_state Pending t) =
          take k (rows_in_state Pending t)"
  proof (rule filter_prefix)
    fix a b xs ys zs
    assume split: "rows_in_state Pending t = xs @ a # ys @ b # zs" and b: "ob_next_retry_ms b \<le> now_value"
    have "sorted_wrt (<) (map ob_id (rows_in_state Pending t))"
      using wf unfolding rows_in_state_def by (auto simp: outbox_wf_def intro: sorted_wrt_filter_map)
    then have "ob_id a < ob_id b" unfolding split by (simp add: sorted_wrt_append)
    moreover have "a \<in> set (rows_in_state Pending t)" "b \<in> set (rows_in_state Pending t)"
      unfolding split by simp_all
    ultimately have "ob_next_retry_ms a \<le> max (ob_next_retry_ms b) T"
      using fifo unfolding fifo_def rows_in_state_def by (auto simp: live_def)
    with b clock show "ob_next_retry_ms a \<le> now_value" by linarith
  qed
  then show ?thesis unfolding filter_due .
qed

lemma pending_after_claim:
  assumes wf: "outbox_wf t" and rows: "rows = take k (rows_in_state Pending t)"
  shows "rows_in_state Pending (update_where (\<lambda>r. ob_id r \<in> set (map ob_id rows))
           (\<lambda>r. r\<lparr>ob_state := Sending, ob_updated_ms := now\<rparr>) t) = drop k (rows_in_state Pending t)"
proof -
  let ?P = "rows_in_state Pending t"
  have upd: "rows_in_state Pending (update_where Q (\<lambda>r. r\<lparr>ob_state := Sending, ob_updated_ms := now\<rparr>) u) =
        filter (\<lambda>r. \<not> Q r) (rows_in_state Pending u)" for Q u
    by (induction u) (auto simp: rows_in_state_def)
  have "distinct (map ob_id ?P)"
    using wf_distinct_ids [OF wf] by (simp add: rows_in_state_def distinct_map_filter)
  then have "distinct (map ob_id (take k ?P @ drop k ?P))" by simp
  then have "\<forall>r\<in>set (drop k ?P). ob_id r \<notin> set (map ob_id (take k ?P))"
    unfolding map_append distinct_append by auto
  moreover have "\<forall>r\<in>set (take k ?P). ob_id r \<in> set (map ob_id (take k ?P))" by simp
  ultimately have "filter (\<lambda>r. ob_id r \<notin> set (map ob_id rows)) (take k ?P @ drop k ?P) = drop k ?P"
    unfolding rows filter_append by (simp add: filter_empty_conv filter_id_conv del: set_map)
  then show ?thesis unfolding upd by simp
qed

lemma claim_prefix:
  assumes wf: "outbox_wf t" and fifo: "fifo T t" and clock: "T \<le> now_value"
    and run: "claim_outbox_batch now now_value limit t = Inr (rows, t')"
  shows "\<exists>k. rows = map (\<lambda>r. r\<lparr>ob_state := Sending\<rparr>) (take k (rows_in_state Pending t)) \<and>
           rows_in_state Pending t' = drop k (rows_in_state Pending t)"
proof -
  let ?due = "filter (due now_value) t"
  let ?c = "claim_loop (min limit STORE_OUTBOX_CLAIM_MAX_BATCH) 0 0 ?due"
  from run have rows: "rows = map (\<lambda>r. r\<lparr>ob_state := Sending\<rparr>) ?c"
    and t': "t' = update_where (\<lambda>r. ob_id r \<in> set (map ob_id ?c))
              (\<lambda>r. r\<lparr>ob_state := Sending, ob_updated_ms := now\<rparr>) t"
    by (simp_all add: claim_outbox_batch_def Let_def sorted_filter_id [OF wf])
  obtain k where k: "?c = take k ?due" using claim_loop_take by blast
  obtain m where m: "?due = take m (rows_in_state Pending t)"
    using due_prefix [OF wf fifo clock] by blast
  have c: "?c = take (min k m) (rows_in_state Pending t)" using k m by simp
  show ?thesis
    using rows pending_after_claim [OF wf c, of now] unfolding t' c by blast
qed

text \<open>A due row at the head of the queue is always claimed: no single payload exceeds the claim's byte budget.\<close>

lemma claim_progress:
  assumes wf: "outbox_wf t" and head: "rows_in_state Pending t = r # rs" "due now_value r" and limit: "0 < limit"
    and run: "claim_outbox_batch now now_value limit t = Inr (rows, t')"
  shows "rows \<noteq> []"
proof -
  obtain rest where due: "filter (due now_value) t = r # rest"
    using head by (simp add: filter_due due_def)
  have "r \<in> set t" using head(1) by (metis rows_in_state_def filter_is_subset list.set_intros(1) subsetD)
  then have "ob_payload_bytes r \<le> STORE_OUTBOX_PAYLOAD_MAX_BYTES"
    using wf by (auto simp: outbox_wf_def list_all_iff row_wf_def)
  then have "sat_add_u64 0 (ob_payload_bytes r) \<le> STORE_OUTBOX_CLAIM_MAX_BYTES"
    by (simp add: sat_add_u64_def limit_defs)
  moreover have "sort_key ob_id (filter (due now_value) t) = r # rest"
    unfolding sorted_filter_id [OF wf] by (rule due)
  ultimately show ?thesis
    using limit run by (auto simp: claim_outbox_batch_def Let_def STORE_OUTBOX_CLAIM_MAX_BATCH_def
        split: if_splits)
qed

lemma claim_budget:
  assumes "claim_outbox_batch now now_value limit t = Inr (rows, t')"
  shows "length rows \<le> min limit STORE_OUTBOX_CLAIM_MAX_BATCH \<and>
         rows_bytes rows \<le> STORE_OUTBOX_CLAIM_MAX_BYTES"
proof -
  let ?xs = "sort_key ob_id (filter (due now_value) t)"
  let ?c = "claim_loop (min limit STORE_OUTBOX_CLAIM_MAX_BATCH) 0 0 ?xs"
  have rows: "rows = map (\<lambda>r. r\<lparr>ob_state := Sending\<rparr>) ?c"
    using assms by (simp add: claim_outbox_batch_def Let_def)
  obtain k where "?c = take k ?xs" "k \<le> min limit STORE_OUTBOX_CLAIM_MAX_BATCH"
    using claim_loop_take [of "min limit STORE_OUTBOX_CLAIM_MAX_BATCH" 0 0 ?xs] by auto
  moreover have "rows_bytes rows = rows_bytes ?c" unfolding rows rows_bytes_def by (simp add: comp_def)
  moreover have "rows_bytes ?c \<le> STORE_OUTBOX_CLAIM_MAX_BYTES" using claim_loop_bytes [of 0] by simp
  ultimately show ?thesis unfolding rows by auto
qed

section \<open>Properties\<close>

text \<open>C2: in-order delivery. After any operations the program issues, with a clock that does not run
  backwards, a claim takes the first pending rows in rowid order and leaves the others pending: no
  row overtakes an earlier one that waits for its retry. If the first pending row is due, it is
  claimed.\<close>

theorem claims_never_overtake:
  assumes "run_clock tick T ops = Some T'" "T' \<le> now_value"
    and "t = fold (apply_op anchor_of) ops []"
    and "claim_outbox_batch now now_value limit t = Inr (rows, t')"
  shows "\<exists>k. rows = map (\<lambda>r. r\<lparr>ob_state := Sending\<rparr>) (take k (rows_in_state Pending t)) \<and>
             rows_in_state Pending t' = drop k (rows_in_state Pending t) \<and>
             (0 < limit \<and> rows_in_state Pending t \<noteq> [] \<and> due now_value (hd (rows_in_state Pending t))
               \<longrightarrow> 0 < k)"
proof -
  have inv: "outbox_wf t" "fifo T' t" using program_run [OF assms(1)] assms(3) by simp_all
  from claim_prefix [OF inv assms(2,4)] obtain k where
    k: "rows = map (\<lambda>r. r\<lparr>ob_state := Sending\<rparr>) (take k (rows_in_state Pending t))"
      "rows_in_state Pending t' = drop k (rows_in_state Pending t)" by blast
  moreover have "0 < k" if "0 < limit" "rows_in_state Pending t \<noteq> []" "due now_value (hd (rows_in_state Pending t))"
  proof -
    from that(2) obtain r rs where "rows_in_state Pending t = r # rs" by (cases "rows_in_state Pending t") auto
    with claim_progress [OF inv(1) this _ that(1) assms(4)] that(3) have "rows \<noteq> []" by simp
    with k(1) show ?thesis by (cases k) simp_all
  qed
  ultimately show ?thesis by blast
qed

definition plain_row :: "string \<Rightarrow> new_outbox_row" where
  "plain_row key = \<lparr>nb_idempotency_key = key, nb_scope_key = ''s'', nb_kind = ''reply'',
     nb_payload_json = ''{}'', nb_next_retry_ms = 0\<rparr>"

lemma plain_row_simps [simp]:
  "nb_idempotency_key (plain_row key) = key" "nb_scope_key (plain_row key) = ''s''"
  "nb_kind (plain_row key) = ''reply''" "nb_payload_json (plain_row key) = ''{}''"
  "nb_next_retry_ms (plain_row key) = 0"
  by (simp_all add: plain_row_def)

lemmas outbox_eval =
  enqueue_outbox_def enqueue_one_def claim_outbox_batch_def fail_outbox_and_defer_successors_def
  park_successors_def inserted_row_def enforce_total_cap_def validate_outbox_payload_def
  new_row_request_bytes_def request_bytes_def run_sized_def require_sending_def row_by_id_def
  row_by_key_def total_outbox_count_bytes_def sat_add_u64_def sat_add_u32_def u64_max_def u32_max_def
  retry_watermark_def max_rowid_def live_def due_def rows_bytes_def update_where_def after_def
  rows_in_state_def recover_sending_outbox_def Let_def limit_defs

theorem claims_never_overtake_witness:
  "\<exists>k. fst (projr (claim_outbox_batch 9 9 8
          (fold (apply_op (\<lambda>_. None)) [OpEnqueue 1 (plain_row ''a''), OpEnqueue 2 (plain_row ''b''),
             OpClaim 3 3 1, OpFailDefer 4 1 1 9] []))) =
        map (\<lambda>r. r\<lparr>ob_state := Sending\<rparr>) (take k (rows_in_state Pending
          (fold (apply_op (\<lambda>_. None)) [OpEnqueue 1 (plain_row ''a''), OpEnqueue 2 (plain_row ''b''),
             OpClaim 3 3 1, OpFailDefer 4 1 1 9] []))) \<and> 0 < k"
proof -
  let ?ops = "[OpEnqueue 1 (plain_row ''a''), OpEnqueue 2 (plain_row ''b''), OpClaim 3 3 1, OpFailDefer 4 1 1 9]"
  let ?t = "fold (apply_op (\<lambda>_. None)) ?ops []"
  obtain rows t' where run: "claim_outbox_batch 9 9 8 ?t = Inr (rows, t')"
    by (simp add: claim_outbox_batch_def Let_def)
  have clock: "run_clock tick 0 ?ops = Some 3" by simp
  have "rows_in_state Pending ?t \<noteq> [] \<and> due 9 (hd (rows_in_state Pending ?t))"
    by (simp add: outbox_eval)
  with claims_never_overtake [OF clock _ refl run] run show ?thesis by auto
qed

text \<open>A retry holds the queue. When a failed row is put back for a retry, no claim before its retry
  time returns that row or any row enqueued after it.\<close>

theorem deferred_row_blocks_successors:
  assumes "outbox_wf t" "fail_outbox_and_defer_successors now i n retry t = Inr (True, t')"
    and "now_value < retry" "claim_outbox_batch now' now_value limit t' = Inr (rows, t'')"
  shows "list_all (\<lambda>r. ob_id r < i) rows"
proof -
  let ?f = "\<lambda>r. r\<lparr>ob_state := Pending, ob_attempts := n, ob_next_retry_ms := retry, ob_updated_ms := now\<rparr>"
  from assms(2) have t': "t' = park_successors now i retry (update_where (\<lambda>r. ob_id r = i) ?f t)"
    by (auto simp: fail_outbox_and_defer_successors_def Let_def split: if_splits)
  have parked: "\<not> due now_value x" if "x \<in> set t'" "i \<le> ob_id x" for x
    using that assms(3) unfolding t' park_successors_def
    by (elim update_where_memE) (auto simp: due_def live_def split: if_splits)
  have "ob_id r < i" if "r \<in> set rows" for r
  proof -
    from that assms(4) obtain x where "x \<in> set t'" "due now_value x" "ob_id x = ob_id r"
      using set_claim_loop by (force simp: claim_outbox_batch_def Let_def)
    with parked show ?thesis by force
  qed
  then show ?thesis by (simp add: list_all_iff)
qed

theorem deferred_row_blocks_successors_witness:
  "list_all (\<lambda>r. ob_id r < 1) (fst (projr (claim_outbox_batch 5 5 8 (snd (projr
     (fail_outbox_and_defer_successors 4 1 1 9
       (fold (apply_op (\<lambda>_. None)) [OpEnqueue 1 (plain_row ''a''), OpEnqueue 2 (plain_row ''b''),
          OpClaim 3 3 2] [])))))))"
proof -
  let ?t = "fold (apply_op (\<lambda>_. None)) [OpEnqueue 1 (plain_row ''a''), OpEnqueue 2 (plain_row ''b''),
          OpClaim 3 3 2] []"
  have wf: "outbox_wf ?t" by (rule program_run [of 0 _ 3, THEN conjunct1]) simp
  obtain t' where f: "fail_outbox_and_defer_successors 4 1 1 9 ?t = Inr (True, t')"
    by (simp add: outbox_eval)
  obtain rows t'' where c: "claim_outbox_batch 5 5 8 t' = Inr (rows, t'')"
    by (simp add: claim_outbox_batch_def Let_def)
  show ?thesis using deferred_row_blocks_successors [OF wf f _ c] f c by simp
qed

text \<open>A claim returns at most 64 rows and at most 1 MiB of payload, whatever it is asked for.\<close>

theorem claim_within_budget:
  "case claim_outbox_batch now now_value limit t of
     Inl e \<Rightarrow> False
   | Inr (rows, t') \<Rightarrow> length rows \<le> min limit 64 \<and> rows_bytes rows \<le> 1048576"
proof -
  obtain rows t' where run: "claim_outbox_batch now now_value limit t = Inr (rows, t')"
    by (simp add: claim_outbox_batch_def Let_def)
  with claim_budget [OF run] show ?thesis by (simp add: limit_defs)
qed

end
