(* ===== verification/Outbox_Retention.thy ===== *)
theory Outbox_Retention
  imports Outbox_Fifo
begin

text \<open>
  What the store never forgets. Live rows and rows of uncertain delivery survive the retention sweep,
  no operation changes a row of uncertain delivery, and an enqueued batch can be replayed without
  queueing anything twice.
\<close>

section \<open>Rows that survive\<close>

lemma update_where_keep: "r \<in> set t \<Longrightarrow> \<not> P r \<Longrightarrow> r \<in> set (update_where P f t)"
  by (simp add: set_update_where)

lemma sweep_terminal_outbox_inline:
  "sweep_terminal_outbox anchor_of older n t =
     Inr (sweep_terminal_rows_inline anchor_of older (min n OUTBOX_SWEEP_BATCH) t)"
  by (simp add: sweep_terminal_outbox_def sweep_terminal_rows_inline_def Let_def)

lemma swept_row_sweepable:
  assumes "outbox_wf t" "r \<in> set t" "r \<notin> set (snd (sweep_terminal_rows_inline anchor_of older n t))"
  shows "sweepable anchor_of older t r"
proof -
  let ?v = "take (min n OUTBOX_SWEEP_BATCH) (sort_key (\<lambda>r. (ob_updated_ms r, ob_id r))
              (filter (sweepable anchor_of older t) t))"
  from assms(2,3) have "ob_id r \<in> set (map ob_id ?v)"
    by (auto simp: sweep_terminal_rows_inline_def Let_def split: if_splits)
  then obtain v where v: "v \<in> set ?v" "ob_id v = ob_id r" by auto
  then have "v \<in> set t" "sweepable anchor_of older t v" by (auto dest: in_set_takeD)
  with v assms row_by_id_unique show ?thesis by (metis option.inject)
qed

lemma sweep_deleted_count:
  assumes "outbox_wf t" "sweep_terminal_rows_inline anchor_of older n t = (deleted, t')"
  shows "deleted \<le> min n OUTBOX_SWEEP_BATCH \<and> length t' + deleted = length t"
proof (cases "min n OUTBOX_SWEEP_BATCH = 0")
  case True
  with assms show ?thesis by (auto simp: sweep_terminal_rows_inline_def)
next
  case False
  let ?v = "take (min n OUTBOX_SWEEP_BATCH) (sort_key (\<lambda>r. (ob_updated_ms r, ob_id r))
              (filter (sweepable anchor_of older t) t))"
  let ?Q = "\<lambda>r. ob_id r \<in> set (map ob_id ?v)"
  from False assms(2) have t': "t' = filter (\<lambda>r. \<not> ?Q r) t" "deleted = length t - length t'"
    by (auto simp: sweep_terminal_rows_inline_def Let_def split: if_splits)
  have "length (filter ?Q t) + length t' = length t"
    unfolding t'(1) by (rule sum_length_filter_compl)
  moreover have "length (filter ?Q t) \<le> length ?v"
  proof -
    have "distinct (map ob_id (filter ?Q t))"
      using wf_distinct_ids [OF assms(1)] by (simp add: distinct_map_filter)
    from distinct_card [OF this] have "length (filter ?Q t) = card (set (map ob_id (filter ?Q t)))"
      unfolding length_map by (rule sym)
    also have "\<dots> \<le> card (set (map ob_id ?v))" by (rule card_mono) auto
    also have "\<dots> \<le> length ?v" using card_length [of "map ob_id ?v"] by simp
    finally show ?thesis .
  qed
  ultimately show ?thesis using t'(2) by (simp add: min_def split: if_splits)
qed

lemma enforce_total_cap_keeps:
  assumes "outbox_wf t" "enforce_total_cap anchor_of now n t = Inr t'" "r \<in> set t"
    "live r \<or> ob_state r = UncertainDelivery"
  shows "r \<in> set t'"
proof -
  have "t' = t \<or> t' = snd (sweep_terminal_rows_inline anchor_of
          (sat_sub_i64 now OUTBOX_TERMINAL_RETENTION_MS) OUTBOX_SWEEP_BATCH t)"
    using assms(2) by (auto simp: enforce_total_cap_def Let_def split: if_splits prod.splits)
  then show ?thesis
  proof
    assume t': "t' = snd (sweep_terminal_rows_inline anchor_of
          (sat_sub_i64 now OUTBOX_TERMINAL_RETENTION_MS) OUTBOX_SWEEP_BATCH t)"
    show ?thesis
    proof (rule ccontr)
      assume "r \<notin> set t'"
      with swept_row_sweepable [OF assms(1,3)] t' assms(4) show False
        by (auto simp: sweepable_def live_def)
    qed
  qed (use assms(3) in simp)
qed

lemma enqueue_one_keeps:
  assumes "outbox_wf t" "enqueue_one anchor_of now row t = Inr (a, t')" "r \<in> set t"
    "live r \<or> ob_state r = UncertainDelivery"
  shows "r \<in> set t'"
  using assms(2,3) enforce_total_cap_keeps [OF assms(1) _ assms(3,4)]
  by (auto simp: enqueue_one_def Let_def split: option.splits if_splits)

lemma enqueue_rows_keeps:
  assumes "outbox_wf t" "enqueue_rows anchor_of now rows t = Inr (as, t')" "r \<in> set t"
    "live r \<or> ob_state r = UncertainDelivery"
    "list_all (\<lambda>row. length (nb_payload_json row) \<le> STORE_OUTBOX_PAYLOAD_MAX_BYTES) rows"
  shows "r \<in> set t'"
  using assms
proof (induction rows arbitrary: t as)
  case Nil
  then show ?case by simp
next
  case (Cons row rows)
  then obtain a t1 as' where step: "enqueue_one anchor_of now row t = Inr (a, t1)"
    "enqueue_rows anchor_of now rows t1 = Inr (as', t')" by auto
  with Cons.prems have "outbox_wf t1" "r \<in> set t1"
    by (auto intro: enqueue_one_wf enqueue_one_keeps)
  with Cons step show ?case by auto
qed

section \<open>Uncertain deliveries\<close>

lemma uncertain_not_sending:
  assumes "outbox_wf t" "r \<in> set t" "ob_state r = UncertainDelivery" "require_sending t i c = Inr n"
  shows "ob_id r \<noteq> i"
  using sending_row [OF assms(1,4,2)] assms(3) by auto

lemma park_keeps: "r \<in> set t \<Longrightarrow> \<not> live r \<Longrightarrow> r \<in> set (park_successors now i retry t)"
  unfolding park_successors_def by (rule update_where_keep) auto

lemma sweep_keeps:
  assumes "outbox_wf t" "r \<in> set t" "live r \<or> ob_state r = UncertainDelivery"
    "sweep_terminal_outbox anchor_of older n t = Inr (a, t')"
  shows "r \<in> set t'"
proof (rule ccontr)
  assume "r \<notin> set t'"
  moreover have "t' = snd (sweep_terminal_rows_inline anchor_of older (min n OUTBOX_SWEEP_BATCH) t)"
    using assms(4) by (simp add: sweep_terminal_outbox_inline)
  ultimately have "sweepable anchor_of older t r" using swept_row_sweepable [OF assms(1,2)] by simp
  with assms(3) show False by (auto simp: sweepable_def live_def)
qed

lemma after_keeps: "r \<in> set t \<Longrightarrow> (\<And>a t'. job t = Inr (a, t') \<Longrightarrow> r \<in> set t') \<Longrightarrow> r \<in> set (after job t)"
  by (auto simp: after_def split: sum.splits)

lemma apply_op_keeps_uncertain:
  assumes wf: "outbox_wf t" and r: "r \<in> set t" "ob_state r = UncertainDelivery"
  shows "r \<in> set (apply_op anchor_of op t)"
proof (cases op)
  case (OpEnqueue now row)
  with assms show ?thesis
    by (auto intro!: after_keeps simp: enqueue_outbox_def dest!: run_sized_Inr intro: enqueue_one_keeps)
next
  case (OpEnqueueBatch now rows)
  with assms show ?thesis
    by (auto intro!: after_keeps simp: enqueue_outbox_batch_def split: if_splits
        dest!: run_sized_Inr validate_payloads_Inr intro: enqueue_rows_keeps)
next
  case (OpClaim now now_value limit)
  let ?c = "claim_loop (min limit STORE_OUTBOX_CLAIM_MAX_BATCH) 0 0
              (sort_key ob_id (filter (due now_value) t))"
  have "ob_id r \<notin> set (map ob_id ?c)"
    using claimed_rows_due [OF wf r(1)] r(2) by (auto simp: due_def simp del: set_map)
  then have "r \<in> set (update_where (\<lambda>x. ob_id x \<in> set (map ob_id ?c))
       (\<lambda>x. x\<lparr>ob_state := Sending, ob_updated_ms := now\<rparr>) t)"
    using r(1) by (intro update_where_keep)
  with OpClaim show ?thesis by (simp add: after_def claim_outbox_batch_def Let_def)
next
  case (OpSweep older n)
  with assms show ?thesis by (auto intro!: after_keeps intro: sweep_keeps)
next
  case (OpReplace now i payload)
  with assms show ?thesis
    by (auto intro!: after_keeps park_keeps update_where_keep simp: replace_outbox_with_fallback_def
        Let_def live_def dest: uncertain_not_sending split: if_splits)
next
  case (OpFailDefer now i n retry)
  with assms show ?thesis
    by (auto intro!: after_keeps park_keeps update_where_keep
        simp: fail_outbox_and_defer_successors_def Let_def live_def
        dest: uncertain_not_sending split: if_splits)
qed (use assms in \<open>auto intro!: after_keeps update_where_keep dest!: run_sized_Inr
      dest: uncertain_not_sending
      simp: complete_outbox_def fail_outbox_def fail_outbox_terminal_def release_outbox_claim_at_def
        release_outbox_claim_def defer_outbox_after_def recover_sending_outbox_def Let_def
      split: if_splits\<close>)

interpretation uncertain_run: invariant_steps "apply_op anchor_of"
    "\<lambda>t. outbox_wf t \<and> ob_state r = UncertainDelivery \<and> r \<in> set t"
  for anchor_of r
  by unfold_locales (blast intro: apply_op_wf apply_op_keeps_uncertain)

text \<open>A row that was being sent when the process stopped becomes \<open>uncertain_delivery\<close> at the next start
  and stays exactly so: whatever operations follow, the row is still there, unchanged, and no claim
  ever returns it.\<close>

theorem crash_in_flight_never_resent:
  assumes "outbox_wf t" "r \<in> set t" "ob_state r = Sending"
    and "recover_sending_outbox now t = Inr (recovered, restarted)"
    and "later = fold (apply_op anchor_of) ops restarted"
    and "claim_outbox_batch now' now_value limit later = Inr (rows, later')"
  shows "r\<lparr>ob_state := UncertainDelivery, ob_updated_ms := now\<rparr> \<in> set later \<and>
         ob_id r \<notin> set (map ob_id rows)"
proof -
  let ?r = "r\<lparr>ob_state := UncertainDelivery, ob_updated_ms := now\<rparr>"
  have "outbox_wf restarted" using assms(1,4) by (rule recover_sending_outbox_wf)
  moreover have "?r \<in> set restarted"
    using assms(2-4) by (auto simp: recover_sending_outbox_def set_update_where)
  ultimately have inv: "outbox_wf later" "?r \<in> set later"
    using uncertain_run.run_inv [of restarted ?r anchor_of ops] assms(5) by simp_all
  moreover have "ob_id ?r \<notin> set (map ob_id rows)"
  proof
    assume "ob_id ?r \<in> set (map ob_id rows)"
    with assms(6) have "ob_id ?r \<in> set (map ob_id (claim_loop (min limit STORE_OUTBOX_CLAIM_MAX_BATCH) 0 0
        (sort_key ob_id (filter (due now_value) later))))"
      by (auto simp: claim_outbox_batch_def Let_def)
    from claimed_rows_due [OF inv this] show False by (simp add: due_def)
  qed
  ultimately show ?thesis by simp
qed

theorem crash_in_flight_never_resent_witness:
  "1 \<notin> ob_id ` set (fst (projr (claim_outbox_batch 20 20 8 (fold (apply_op (\<lambda>_. None)) [OpClaim 9 9 9]
     (snd (projr (recover_sending_outbox 5
       (fold (apply_op (\<lambda>_. None)) [OpEnqueue 1 (plain_row ''a''), OpClaim 3 3 2] []))))))))"
proof -
  let ?t = "fold (apply_op (\<lambda>_. None)) [OpEnqueue 1 (plain_row ''a''), OpClaim 3 3 2] []"
  have wf: "outbox_wf ?t" by (rule program_run [of 0 _ 3, THEN conjunct1]) simp
  obtain r where r: "?t = [r]" "ob_id r = 1" "ob_state r = Sending" by (simp add: outbox_eval)
  obtain n restarted where rec: "recover_sending_outbox 5 ?t = Inr (n, restarted)"
    by (simp add: recover_sending_outbox_def)
  let ?later = "fold (apply_op (\<lambda>_. None)) [OpClaim 9 9 9] restarted"
  obtain rows later' where c: "claim_outbox_batch 20 20 8 ?later = Inr (rows, later')"
    by (simp add: claim_outbox_batch_def Let_def)
  have "ob_id r \<notin> set (map ob_id rows)"
    using crash_in_flight_never_resent [OF wf _ r(3) rec refl c] r(1) by simp
  with r(2) rec c show ?thesis by simp
qed

text \<open>The retention sweep deletes at most the batch size, only terminal rows older than the cut, and
  never a row that is live, uncertain, or a progress card that a live update still refers to.\<close>

theorem sweep_spares_needed_rows:
  assumes "outbox_wf t" "sweep_terminal_outbox anchor_of older n t = Inr (deleted, t')"
  shows "deleted \<le> min n OUTBOX_SWEEP_BATCH \<and> length t' + deleted = length t \<and>
    list_all (\<lambda>r. r \<in> set t' \<or>
      (ob_state r = Sent \<or> ob_state r = Failed) \<and> ob_updated_ms r < older \<and>
      (ob_kind r = ''progress'' \<longrightarrow>
         list_all (\<lambda>d. live d \<longrightarrow> anchor_of (ob_payload_json d) \<noteq> Some (ob_idempotency_key r)) t)) t"
proof -
  have sw: "sweep_terminal_rows_inline anchor_of older (min n OUTBOX_SWEEP_BATCH) t = (deleted, t')"
    using assms(2) by (simp add: sweep_terminal_outbox_inline)
  have "sweepable anchor_of older t r" if "r \<in> set t" "r \<notin> set t'" for r
    using swept_row_sweepable [OF assms(1) that(1), of anchor_of older "min n OUTBOX_SWEEP_BATCH"]
      that(2) sw by simp
  then show ?thesis
    using sweep_deleted_count [OF assms(1) sw]
    by (auto simp: list_all_iff sweepable_def list_ex_iff)
qed

theorem sweep_spares_needed_rows_witness:
  "fst (projr (sweep_terminal_outbox (\<lambda>_. None) 50 7
     (fold (apply_op (\<lambda>_. None)) [OpEnqueue 1 (plain_row ''a''), OpClaim 3 3 2, OpComplete 4 1 ''m''] []))) \<le> 7"
proof -
  let ?t = "fold (apply_op (\<lambda>_. None)) [OpEnqueue 1 (plain_row ''a''), OpClaim 3 3 2, OpComplete 4 1 ''m''] []"
  have wf: "outbox_wf ?t" by (rule program_run [of 0 _ 3, THEN conjunct1]) simp
  obtain deleted t' where s: "sweep_terminal_outbox (\<lambda>_. None) 50 7 ?t = Inr (deleted, t')"
    unfolding sweep_terminal_outbox_inline by (metis prod.collapse)
  show ?thesis using sweep_spares_needed_rows [OF wf s] s by simp
qed

section \<open>Batches\<close>

lemma row_by_key_unique:
  assumes "outbox_wf t" "r \<in> set t"
  shows "row_by_key t (ob_idempotency_key r) = Some r"
proof (cases "row_by_key t (ob_idempotency_key r)")
  case None
  with assms(2) show ?thesis by (auto simp: row_by_key_None)
next
  case (Some r')
  then have "r' \<in> set t" "ob_idempotency_key r' = ob_idempotency_key r"
    unfolding row_by_key_def by (auto dest: find_SomeD)
  with assms Some show ?thesis by (auto simp: outbox_wf_def distinct_map inj_on_def)
qed

lemma enqueue_rows_new:
  assumes "outbox_wf t" "enqueue_rows anchor_of now rows t = Inr (map New stored, t')"
    "list_all (\<lambda>row. length (nb_payload_json row) \<le> STORE_OUTBOX_PAYLOAD_MAX_BYTES) rows"
  shows "map ob_idempotency_key stored = map nb_idempotency_key rows \<and>
         map ob_payload_json stored = map nb_payload_json rows \<and>
         set stored \<subseteq> set t' \<and> list_all (\<lambda>r. ob_state r = Pending) stored"
  using assms
proof (induction rows arbitrary: t stored)
  case Nil
  then show ?case by simp
next
  case (Cons row rows)
  then obtain a t1 as' where step: "enqueue_one anchor_of now row t = Inr (a, t1)"
    "enqueue_rows anchor_of now rows t1 = Inr (as', t')" "map New stored = a # as'" by auto
  then obtain s ss where s: "stored = s # ss" "a = New s" "as' = map New ss" by auto
  have wf: "outbox_wf t1" using Cons.prems step(1) by (auto intro: enqueue_one_wf)
  from step(1) s(2) obtain P where new: "t1 = filter P t @ [s]"
    "s = inserted_row (filter P t) (max (nb_next_retry_ms row) (retry_watermark (filter P t))) now row"
    by (cases rule: enqueue_oneD) auto
  then have s1: "s \<in> set t1" "live s" "ob_idempotency_key s = nb_idempotency_key row"
    "ob_payload_json s = nb_payload_json row" "ob_state s = Pending"
    by (auto simp: inserted_row_def live_def)
  have "s \<in> set t'" using enqueue_rows_keeps [OF wf step(2) s1(1)] s1(2) Cons.prems(3) by simp
  with Cons.IH [OF wf] step(2) s s1 Cons.prems(3) show ?case by simp
qed

lemma enqueue_rows_replay:
  "map (row_by_key t) (map nb_idempotency_key rows) = map Some stored \<Longrightarrow>
     enqueue_rows anchor_of now rows t = Inr (map DuplicateKey stored, t)"
proof (induction rows arbitrary: stored)
  case Nil
  then show ?case by simp
next
  case (Cons row rows)
  then obtain s ss where "stored = s # ss" "row_by_key t (nb_idempotency_key row) = Some s"
    "map (row_by_key t) (map nb_idempotency_key rows) = map Some ss" by auto
  with Cons.IH show ?case by (simp add: enqueue_one_def)
qed

text \<open>A batch that was enqueued is stored with every row and payload, and enqueueing the same batch
  again, at any later time, queues nothing: every row is reported as a duplicate of the stored one
  and the table does not change.\<close>

theorem batch_replay_is_idempotent:
  assumes "outbox_wf t" "enqueue_outbox_batch anchor_of now rows t = Inr (map New stored, t')"
  shows "map ob_payload_json stored = map nb_payload_json rows \<and> set stored \<subseteq> set t' \<and>
         enqueue_outbox_batch anchor_of now' rows t' = Inr (map DuplicateKey stored, t')"
proof -
  let ?bytes = "foldl (\<lambda>acc row. sat_add_u64 acc (new_row_request_bytes row)) 0 rows"
  from assms(2) obtain u where u: "validate_outbox_payloads rows = Inr u"
      "\<not> length rows > STORE_OUTBOX_MAX_ROWS"
      "run_sized ?bytes (enqueue_rows anchor_of now rows) t = Inr (map New stored, t')"
    by (auto simp: enqueue_outbox_batch_def split: if_splits)
  have sizes: "list_all (\<lambda>row. length (nb_payload_json row) \<le> STORE_OUTBOX_PAYLOAD_MAX_BYTES) rows"
    using u(1) by (rule validate_payloads_Inr)
  have run: "enqueue_rows anchor_of now rows t = Inr (map New stored, t')"
    using u(3) by (rule run_sized_Inr)
  note new = enqueue_rows_new [OF assms(1) run sizes]
  have wf: "outbox_wf t'" using sizes assms(1) run by (rule enqueue_rows_wf)
  have "map (row_by_key t') (map nb_idempotency_key rows) = map (row_by_key t') (map ob_idempotency_key stored)"
    using new by simp
  also have "\<dots> = map Some stored" 
    unfolding map_map by (rule map_cong [OF refl]) (use new wf row_by_key_unique in auto)
  finally have replay: "enqueue_rows anchor_of now' rows t' = Inr (map DuplicateKey stored, t')"
    by (rule enqueue_rows_replay)
  have "enqueue_outbox_batch anchor_of now' rows t' = run_sized ?bytes (enqueue_rows anchor_of now' rows) t'"
    using u(1,2) by (simp add: enqueue_outbox_batch_def)
  also have "\<dots> = enqueue_rows anchor_of now' rows t'"
    using u(3) by (simp add: run_sized_def split: if_splits)
  finally show ?thesis using new replay by simp
qed

theorem batch_replay_is_idempotent_witness:
  "\<exists>stored t'. enqueue_outbox_batch (\<lambda>_. None) 5 [plain_row ''a'', plain_row ''b''] [] = Inr (map New stored, t') \<and>
     enqueue_outbox_batch (\<lambda>_. None) 9 [plain_row ''a'', plain_row ''b''] t' = Inr (map DuplicateKey stored, t')"
proof -
  have wf: "outbox_wf []" by (simp add: outbox_wf_def)
  have "\<exists>a b t'. enqueue_outbox_batch (\<lambda>_. None) 5 [plain_row ''a'', plain_row ''b''] [] = Inr (map New [a, b], t')"
    by (simp add: enqueue_outbox_batch_def outbox_eval)
  then obtain a b t' where
    run: "enqueue_outbox_batch (\<lambda>_. None) 5 [plain_row ''a'', plain_row ''b''] [] = Inr (map New [a, b], t')"
    by blast
  with batch_replay_is_idempotent [OF wf run] show ?thesis by blast
qed

end
