(* ===== verification/Outbox_Payload.thy ===== *)
theory Outbox_Payload
  imports Bridge_Limits
begin

text \<open>
  The versioned outbox payload codec, \<^verbatim>\<open>src/src/outbox/payload.rs\<close>. Strings are their UTF-8 bytes. JSON
  itself (\<open>serde_json\<close> with the derived \<open>Serialize\<close>/\<open>Deserialize\<close> of the wire structs) is third-party
  code: the record \<open>json_codec\<close> of functions is an argument, and \<open>json_codec_ok\<close> states what is relied
  on, that a written value reads back. The card spec of \<open>reply_interactive_card\<close> is a type parameter,
  the Markdown projection \<open>render_lark_markdown\<close> used for legacy rows an argument.
\<close>

datatype run_card_phase = Running | Done | PhaseFailed | Interrupted

datatype 'spec outbox_operation =
    ReplyText string "string option" string
  | ReplyMarkdownPost string "string option" string
  | ReplyInteractiveCard string "string option" 'spec
  | ReplyProgressCard string "string option" string
  | UpdateProgressCard string string
  | FinalizeProgressCard string string "string option" string string run_card_phase

datatype outbox_error =
    Serialize
  | Deserialize
  | UnsupportedVersion nat
  | UnknownOperation
  | Invalid string
  | PayloadTooLargeError nat

definition OUTBOX_PAYLOAD_VERSION :: nat where
  "OUTBOX_PAYLOAD_VERSION = 2"

definition LEGACY_OUTBOX_PAYLOAD_VERSION :: nat where
  "LEGACY_OUTBOX_PAYLOAD_VERSION = 1"

record payload_v1 =
  v1_version :: nat
  v1_op :: string
  v1_message_id :: "string option"
  v1_thread_id :: "string option"
  v1_anchor_key :: "string option"
  v1_text :: string

record payload_v2 =
  v2_version :: nat
  v2_op :: string
  v2_message_id :: "string option"
  v2_thread_id :: "string option"
  v2_anchor_key :: "string option"
  v2_text :: string
  v2_fallback_markdown :: "string option"
  v2_phase :: "string option"

record 'spec json_codec =
  jc_to_string :: "payload_v2 \<Rightarrow> string option"
  jc_probe :: "string \<Rightarrow> nat option"
  jc_read_v1 :: "string \<Rightarrow> payload_v1 option"
  jc_read_v2 :: "string \<Rightarrow> payload_v2 option"
  jc_spec_to_string :: "'spec \<Rightarrow> string option"
  jc_spec_from_str :: "string \<Rightarrow> 'spec option"

text \<open>What the codec relies on: what \<open>serde_json\<close> writes, it reads back; a JSON object is not empty text.\<close>

definition json_codec_ok :: "'spec json_codec \<Rightarrow> bool" where
  "json_codec_ok c \<longleftrightarrow>
     (\<forall>p s. jc_to_string c p = Some s \<longrightarrow> jc_probe c s = Some (v2_version p) \<and> jc_read_v2 c s = Some p) \<and>
     (\<forall>x s. jc_spec_to_string c x = Some s \<longrightarrow> s \<noteq> [] \<and> jc_spec_from_str c s = Some x)"

section \<open>Encoding\<close>

fun payload_of_operation :: "'spec json_codec \<Rightarrow> 'spec outbox_operation \<Rightarrow> payload_v2" where
  "payload_of_operation c (ReplyText message_id thread_id text') =
     \<lparr>v2_version = OUTBOX_PAYLOAD_VERSION, v2_op = ''reply_text'', v2_message_id = Some message_id,
      v2_thread_id = thread_id, v2_anchor_key = None, v2_text = text', v2_fallback_markdown = None,
      v2_phase = None\<rparr>"
| "payload_of_operation c (ReplyMarkdownPost message_id thread_id markdown) =
     \<lparr>v2_version = OUTBOX_PAYLOAD_VERSION, v2_op = ''reply_markdown_post'', v2_message_id = Some message_id,
      v2_thread_id = thread_id, v2_anchor_key = None, v2_text = markdown, v2_fallback_markdown = None,
      v2_phase = None\<rparr>"
| "payload_of_operation c (ReplyInteractiveCard message_id thread_id spec) =
     \<lparr>v2_version = OUTBOX_PAYLOAD_VERSION, v2_op = ''reply_interactive_card'',
      v2_message_id = Some message_id, v2_thread_id = thread_id, v2_anchor_key = None,
      v2_text = (case jc_spec_to_string c spec of None \<Rightarrow> ''{}'' | Some s \<Rightarrow> s),
      v2_fallback_markdown = None, v2_phase = None\<rparr>"
| "payload_of_operation c (ReplyProgressCard message_id thread_id text') =
     \<lparr>v2_version = OUTBOX_PAYLOAD_VERSION, v2_op = ''reply_progress_card'', v2_message_id = Some message_id,
      v2_thread_id = thread_id, v2_anchor_key = None, v2_text = text', v2_fallback_markdown = None,
      v2_phase = None\<rparr>"
| "payload_of_operation c (UpdateProgressCard anchor_key text') =
     \<lparr>v2_version = OUTBOX_PAYLOAD_VERSION, v2_op = ''update_progress_card'', v2_message_id = None,
      v2_thread_id = None, v2_anchor_key = Some anchor_key, v2_text = text', v2_fallback_markdown = None,
      v2_phase = None\<rparr>"
| "payload_of_operation c (FinalizeProgressCard anchor_key message_id thread_id text' fallback_markdown phase) =
     \<lparr>v2_version = OUTBOX_PAYLOAD_VERSION, v2_op = ''finalize_progress_card'',
      v2_message_id = Some message_id, v2_thread_id = thread_id, v2_anchor_key = Some anchor_key,
      v2_text = text', v2_fallback_markdown = Some fallback_markdown,
      v2_phase = (case phase of Done \<Rightarrow> None | PhaseFailed \<Rightarrow> Some ''failed''
                    | Interrupted \<Rightarrow> Some ''interrupted'' | Running \<Rightarrow> Some ''done'')\<rparr>"

fun finalizes_running :: "'spec outbox_operation \<Rightarrow> bool" where
  "finalizes_running (FinalizeProgressCard _ _ _ _ _ Running) = True"
| "finalizes_running _ = False"

definition encode :: "'spec json_codec \<Rightarrow> 'spec outbox_operation \<Rightarrow> (outbox_error, string) result" where
  "encode c operation =
     (if finalizes_running operation
      then Inl (Invalid ''running phase cannot finalize a progress card'')
      else case jc_to_string c (payload_of_operation c operation) of
        None \<Rightarrow> Inl Serialize
      | Some json \<Rightarrow>
          if length json > STORE_OUTBOX_PAYLOAD_MAX_BYTES
          then Inl (PayloadTooLargeError STORE_OUTBOX_PAYLOAD_MAX_BYTES)
          else Inr json)"

section \<open>Decoding\<close>

definition validate_thread_id :: "string option \<Rightarrow> (outbox_error, unit) result" where
  "validate_thread_id thread_id =
     (if thread_id = Some [] then Inl (Invalid ''empty reply thread_id'') else Inr ())"

definition parse_run_phase :: "string \<Rightarrow> (outbox_error, run_card_phase) result" where
  "parse_run_phase value' =
     (if value' = ''done'' then Inr Done
      else if value' = ''failed'' then Inr PhaseFailed
      else if value' = ''interrupted'' then Inr Interrupted
      else Inl (Invalid ''invalid progress finalization phase''))"

definition decode_reply :: "'spec json_codec \<Rightarrow> payload_v2 \<Rightarrow> (outbox_error, 'spec outbox_operation) result" where
  "decode_reply c dto =
     (case v2_message_id dto of
        None \<Rightarrow> Inl (Invalid ''empty reply message_id'')
      | Some message_id \<Rightarrow>
          if message_id = [] \<or> v2_anchor_key dto \<noteq> None \<or> v2_fallback_markdown dto \<noteq> None \<or>
             v2_phase dto \<noteq> None
          then Inl (Invalid ''invalid reply target'')
          else if v2_text dto = [] then Inl (Invalid ''empty reply text'')
          else result_bind (validate_thread_id (v2_thread_id dto)) (\<lambda>_.
            if v2_op dto = ''reply_text''
            then Inr (ReplyText message_id (v2_thread_id dto) (v2_text dto))
            else if v2_op dto = ''reply_markdown_post''
            then Inr (ReplyMarkdownPost message_id (v2_thread_id dto) (v2_text dto))
            else if v2_op dto = ''reply_interactive_card''
            then (case jc_spec_from_str c (v2_text dto) of
                    None \<Rightarrow> Inl Deserialize
                  | Some spec \<Rightarrow> Inr (ReplyInteractiveCard message_id (v2_thread_id dto) spec))
            else if v2_op dto = ''reply_progress_card''
            then Inr (ReplyProgressCard message_id (v2_thread_id dto) (v2_text dto))
            else Inl UnknownOperation))"

definition decode_progress_update :: "payload_v2 \<Rightarrow> (outbox_error, 'spec outbox_operation) result" where
  "decode_progress_update dto =
     (case v2_anchor_key dto of
        None \<Rightarrow> Inl (Invalid ''empty progress anchor_key'')
      | Some anchor_key \<Rightarrow>
          if anchor_key = [] \<or> v2_message_id dto \<noteq> None \<or> v2_thread_id dto \<noteq> None \<or>
             v2_fallback_markdown dto \<noteq> None \<or> v2_phase dto \<noteq> None \<or> v2_text dto = []
          then Inl (Invalid ''invalid progress update'')
          else Inr (UpdateProgressCard anchor_key (v2_text dto)))"

text \<open>The \<open>expect\<close> on the fallback is reached only after the guard has rejected an absent one.\<close>

definition decode_progress_finalization :: "payload_v2 \<Rightarrow> (outbox_error, 'spec outbox_operation) result" where
  "decode_progress_finalization dto =
     (case (v2_anchor_key dto, v2_message_id dto) of
        (Some anchor_key, Some message_id) \<Rightarrow>
          if anchor_key = [] \<or> message_id = [] \<or> v2_text dto = [] \<or>
             v2_fallback_markdown dto = None \<or> v2_fallback_markdown dto = Some []
          then Inl (Invalid ''invalid progress finalization'')
          else result_bind (validate_thread_id (v2_thread_id dto)) (\<lambda>_.
            result_bind (case v2_phase dto of None \<Rightarrow> Inr Done | Some p \<Rightarrow> parse_run_phase p) (\<lambda>phase.
              Inr (FinalizeProgressCard anchor_key message_id (v2_thread_id dto) (v2_text dto)
                     (the (v2_fallback_markdown dto)) phase)))
      | _ \<Rightarrow> Inl (Invalid ''missing progress finalization target''))"

text \<open>The placeholder of a legacy finalization whose projection is empty, in UTF-8.\<close>

definition legacy_placeholder :: string where
  "legacy_placeholder = map char_of [239::nat,188,136,229,155,158,229,164,141,228,184,141,229,140,133,
     229,144,171,229,143,175,230,152,190,231,164,186,230,150,135,230,156,172,239,188,137]"

definition legacy_fallback_markdown :: "(string \<Rightarrow> string) \<Rightarrow> string \<Rightarrow> string" where
  "legacy_fallback_markdown render_lark_markdown text' =
     (let rendered = render_lark_markdown text' in
      if rendered = [] then legacy_placeholder else rendered)"

definition upgrade_v1 :: "payload_v1 \<Rightarrow> string option \<Rightarrow> payload_v2" where
  "upgrade_v1 dto fallback =
     \<lparr>v2_version = OUTBOX_PAYLOAD_VERSION, v2_op = v1_op dto, v2_message_id = v1_message_id dto,
      v2_thread_id = v1_thread_id dto, v2_anchor_key = v1_anchor_key dto, v2_text = v1_text dto,
      v2_fallback_markdown = fallback, v2_phase = None\<rparr>"

definition decode_v1 ::
    "'spec json_codec \<Rightarrow> (string \<Rightarrow> string) \<Rightarrow> payload_v1 \<Rightarrow> (outbox_error, 'spec outbox_operation) result" where
  "decode_v1 c render_lark_markdown dto =
     (if v1_op dto = ''reply_text'' \<or> v1_op dto = ''reply_progress_card''
      then decode_reply c (upgrade_v1 dto None)
      else if v1_op dto = ''update_progress_card'' then decode_progress_update (upgrade_v1 dto None)
      else if v1_op dto = ''finalize_progress_card''
      then decode_progress_finalization
             (upgrade_v1 dto (Some (legacy_fallback_markdown render_lark_markdown (v1_text dto))))
      else Inl UnknownOperation)"

definition decode_v2 :: "'spec json_codec \<Rightarrow> payload_v2 \<Rightarrow> (outbox_error, 'spec outbox_operation) result" where
  "decode_v2 c dto =
     (if v2_op dto = ''reply_text'' \<or> v2_op dto = ''reply_markdown_post'' \<or>
         v2_op dto = ''reply_interactive_card'' \<or> v2_op dto = ''reply_progress_card''
      then decode_reply c dto
      else if v2_op dto = ''update_progress_card'' then decode_progress_update dto
      else if v2_op dto = ''finalize_progress_card'' then decode_progress_finalization dto
      else Inl UnknownOperation)"

definition decode ::
    "'spec json_codec \<Rightarrow> (string \<Rightarrow> string) \<Rightarrow> string \<Rightarrow> (outbox_error, 'spec outbox_operation) result" where
  "decode c render_lark_markdown json =
     (if length json > STORE_OUTBOX_PAYLOAD_MAX_BYTES
      then Inl (PayloadTooLargeError STORE_OUTBOX_PAYLOAD_MAX_BYTES)
      else case jc_probe c json of
        None \<Rightarrow> Inl Deserialize
      | Some version \<Rightarrow>
          if version = LEGACY_OUTBOX_PAYLOAD_VERSION
          then (case jc_read_v1 c json of
                  None \<Rightarrow> Inl Deserialize
                | Some dto \<Rightarrow> decode_v1 c render_lark_markdown dto)
          else if version = OUTBOX_PAYLOAD_VERSION
          then (case jc_read_v2 c json of
                  None \<Rightarrow> Inl Deserialize
                | Some dto \<Rightarrow> decode_v2 c dto)
          else Inl (UnsupportedVersion version))"

section \<open>Well-formed operations\<close>

text \<open>The closed invariants the decoder enforces, as a predicate on operations.\<close>

fun operation_wf :: "'spec outbox_operation \<Rightarrow> bool" where
  "operation_wf (ReplyText m th x) \<longleftrightarrow> m \<noteq> [] \<and> th \<noteq> Some [] \<and> x \<noteq> []"
| "operation_wf (ReplyMarkdownPost m th x) \<longleftrightarrow> m \<noteq> [] \<and> th \<noteq> Some [] \<and> x \<noteq> []"
| "operation_wf (ReplyInteractiveCard m th spec) \<longleftrightarrow> m \<noteq> [] \<and> th \<noteq> Some []"
| "operation_wf (ReplyProgressCard m th x) \<longleftrightarrow> m \<noteq> [] \<and> th \<noteq> Some [] \<and> x \<noteq> []"
| "operation_wf (UpdateProgressCard k x) \<longleftrightarrow> k \<noteq> [] \<and> x \<noteq> []"
| "operation_wf (FinalizeProgressCard k m th x fb ph) \<longleftrightarrow>
     k \<noteq> [] \<and> m \<noteq> [] \<and> th \<noteq> Some [] \<and> x \<noteq> [] \<and> fb \<noteq> [] \<and> ph \<noteq> Running"

fun spec_writable :: "'spec json_codec \<Rightarrow> 'spec outbox_operation \<Rightarrow> bool" where
  "spec_writable c (ReplyInteractiveCard m th spec) \<longleftrightarrow> jc_spec_to_string c spec \<noteq> None"
| "spec_writable c _ \<longleftrightarrow> True"

lemmas decode_defs =
  decode_reply_def decode_progress_update_def decode_progress_finalization_def validate_thread_id_def
  parse_run_phase_def

lemma decode_reply_wf: "decode_reply c dto = Inr operation \<Longrightarrow> operation_wf operation"
  by (auto simp: decode_defs split: option.splits if_splits)

lemma decode_progress_update_wf: "decode_progress_update dto = Inr operation \<Longrightarrow> operation_wf operation"
  by (auto simp: decode_defs split: option.splits if_splits)

lemma decode_progress_finalization_wf:
  "decode_progress_finalization dto = Inr operation \<Longrightarrow> operation_wf operation"
  by (auto simp: decode_defs split: option.splits if_splits)

lemmas decode_parts_wf = decode_reply_wf decode_progress_update_wf decode_progress_finalization_wf

lemma decode_wf: "decode c render json = Inr operation \<Longrightarrow> operation_wf operation"
  by (auto simp: decode_def decode_v1_def decode_v2_def split: option.splits if_splits
      intro: decode_parts_wf)

lemma operation_v2_roundtrip:
  assumes "json_codec_ok c" "operation_wf operation" "spec_writable c operation"
  shows "decode_v2 c (payload_of_operation c operation) = Inr operation"
  using assms
  by (cases operation) (auto simp: json_codec_ok_def decode_v2_def decode_defs split: run_card_phase.splits)

lemma decode_v2_inverse:
  assumes "decode_v2 c (payload_of_operation c operation) = Inr operation'"
    "spec_writable c operation" "json_codec_ok c" "\<not> finalizes_running operation"
  shows "operation' = operation"
  using assms
  by (cases operation) (auto simp: json_codec_ok_def decode_v2_def decode_defs
      split: run_card_phase.splits if_splits option.splits)

lemma encodeD:
  assumes "encode c operation = Inr json"
  shows "\<not> finalizes_running operation \<and> jc_to_string c (payload_of_operation c operation) = Some json \<and>
         length json \<le> STORE_OUTBOX_PAYLOAD_MAX_BYTES"
  using assms by (auto simp: encode_def split: option.splits if_splits)

lemma payload_version: "v2_version (payload_of_operation c operation) = OUTBOX_PAYLOAD_VERSION"
  by (cases operation) simp_all

lemma decode_encoded:
  assumes "json_codec_ok c" "encode c operation = Inr json"
  shows "decode c render json = decode_v2 c (payload_of_operation c operation)"
proof -
  from encodeD [OF assms(2)] have "jc_to_string c (payload_of_operation c operation) = Some json"
    "length json \<le> STORE_OUTBOX_PAYLOAD_MAX_BYTES" by simp_all
  with assms(1) have "jc_probe c json = Some OUTBOX_PAYLOAD_VERSION"
    "jc_read_v2 c json = Some (payload_of_operation c operation)"
    by (auto simp: json_codec_ok_def payload_version)
  with \<open>length json \<le> _\<close> show ?thesis
    by (simp add: decode_def OUTBOX_PAYLOAD_VERSION_def LEGACY_OUTBOX_PAYLOAD_VERSION_def)
qed

section \<open>Properties\<close>

text \<open>
  C38: what is queued is what is sent. When \<open>encode\<close> accepts an operation, decoding the stored JSON gives
  back exactly that operation if it is well-formed, and is refused (never a different operation)
  otherwise; the stored JSON is within the payload cap.
\<close>

theorem payload_roundtrip:
  assumes "json_codec_ok c" "encode c operation = Inr json" "spec_writable c operation"
  shows "length json \<le> STORE_OUTBOX_PAYLOAD_MAX_BYTES \<and>
         (if operation_wf operation then decode c render json = Inr operation
          else \<not> is_ok (decode c render json))"
proof -
  have dec: "decode c render json = decode_v2 c (payload_of_operation c operation)"
    using assms(1,2) by (rule decode_encoded)
  have "\<not> is_ok (decode c render json)" if "\<not> operation_wf operation"
  proof (cases "decode c render json")
    case (Inr operation')
    have "operation' = operation"
      by (rule decode_v2_inverse [OF _ assms(3,1)]) (use dec Inr encodeD [OF assms(2)] in auto)
    with decode_wf [OF Inr] that show ?thesis by simp
  qed simp
  with dec operation_v2_roundtrip [OF assms(1) _ assms(3)] encodeD [OF assms(2)] show ?thesis by simp
qed

text \<open>A concrete codec for the version-2 wire struct: each field is tagged, each byte escaped.\<close>

fun enc_str :: "string \<Rightarrow> string" where
  "enc_str [] = ''.''"
| "enc_str (ch # cs) = CHR ''c'' # ch # enc_str cs"

fun dec_str :: "string \<Rightarrow> (string \<times> string) option" where
  "dec_str (a # b # r) = (if a = CHR ''c'' then map_option (\<lambda>(s, r'). (b # s, r')) (dec_str r)
                          else if a = CHR ''.'' then Some ([], b # r) else None)"
| "dec_str [a] = (if a = CHR ''.'' then Some ([], []) else None)"
| "dec_str [] = None"

lemma dec_enc_str: "dec_str (enc_str s @ r) = Some (s, r)"
  by (induction s) (cases r; simp)+

fun enc_opt :: "string option \<Rightarrow> string" where
  "enc_opt None = ''n''"
| "enc_opt (Some s) = CHR ''s'' # enc_str s"

fun dec_opt :: "string \<Rightarrow> (string option \<times> string) option" where
  "dec_opt [] = None"
| "dec_opt (a # r) = (if a = CHR ''n'' then Some (None, r) else map_option (\<lambda>(s, r'). (Some s, r')) (dec_str r))"

lemma dec_enc_opt: "dec_opt (enc_opt x @ r) = Some (x, r)"
  by (cases x) (simp_all add: dec_enc_str)

definition tagged_codec :: "string json_codec" where
  "tagged_codec =
     \<lparr>jc_to_string = (\<lambda>p. if v2_version p = 2
        then Some (enc_str (v2_op p) @ enc_opt (v2_message_id p) @ enc_opt (v2_thread_id p) @
                   enc_opt (v2_anchor_key p) @ enc_str (v2_text p) @ enc_opt (v2_fallback_markdown p) @
                   enc_opt (v2_phase p))
        else None),
      jc_probe = (\<lambda>s. Some 2), jc_read_v1 = (\<lambda>s. None),
      jc_read_v2 = (\<lambda>s.
        Option.bind (dec_str s) (\<lambda>(op, s). Option.bind (dec_opt s) (\<lambda>(m, s).
        Option.bind (dec_opt s) (\<lambda>(th, s). Option.bind (dec_opt s) (\<lambda>(k, s).
        Option.bind (dec_str s) (\<lambda>(x, s). Option.bind (dec_opt s) (\<lambda>(fb, s).
        Option.bind (dec_opt s) (\<lambda>(ph, s).
          Some \<lparr>v2_version = 2, v2_op = op, v2_message_id = m, v2_thread_id = th, v2_anchor_key = k,
                v2_text = x, v2_fallback_markdown = fb, v2_phase = ph\<rparr>)))))))),
      jc_spec_to_string = (\<lambda>s. Some (CHR ''!'' # s)), jc_spec_from_str = (\<lambda>s. Some (tl s))\<rparr>"

lemma tagged_codec_ok: "json_codec_ok tagged_codec"
  using dec_enc_opt [where r = "[]"]
  by (simp add: json_codec_ok_def tagged_codec_def dec_enc_str dec_enc_opt)

theorem payload_roundtrip_witness:
  "decode tagged_codec id (projr (encode tagged_codec
     (FinalizeProgressCard ''k'' ''m'' None ''t'' ''f'' PhaseFailed))) =
     Inr (FinalizeProgressCard ''k'' ''m'' None ''t'' ''f'' PhaseFailed)"
proof -
  let ?o = "FinalizeProgressCard ''k'' ''m'' None ''t'' ''f'' PhaseFailed"
  obtain json where json: "encode tagged_codec ?o = Inr json"
    by (simp add: encode_def tagged_codec_def OUTBOX_PAYLOAD_VERSION_def limit_defs)
  have "decode tagged_codec id json = Inr ?o"
    using payload_roundtrip [OF tagged_codec_ok json, of id] by simp
  with json show ?thesis by simp
qed

text \<open>
  Whatever bytes the store holds, of either version, decoding yields an error or an operation whose
  targets and texts are non-empty and which never finalizes a card as still running.
\<close>

theorem decoded_operation_is_sendable:
  "case decode c render json of Inl e \<Rightarrow> True | Inr operation \<Rightarrow> operation_wf operation"
  by (auto split: sum.splits dest: decode_wf)

text \<open>
  A version-1 finalization with non-empty targets and text always decodes, with the projected text
  as its fallback post, or the placeholder when the projection is empty.
\<close>

theorem legacy_finalize_has_fallback:
  "decode_v1 c render \<lparr>v1_version = 1, v1_op = ''finalize_progress_card'', v1_message_id = Some (x # m),
       v1_thread_id = None, v1_anchor_key = Some (y # k), v1_text = z # s\<rparr> =
     Inr (FinalizeProgressCard (y # k) (x # m) None (z # s)
            (if render (z # s) = [] then legacy_placeholder else render (z # s)) Done)"
  by (simp add: decode_v1_def decode_defs upgrade_v1_def legacy_fallback_markdown_def Let_def
      legacy_placeholder_def)

end
