(* ===== verification/Delivery.thy ===== *)
theory Delivery
  imports Bridge_Limits
begin

text \<open>
  Failure taxonomy of outbound calls: the Lark client error (\<^verbatim>\<open>src/src/lark/error.rs\<close>), the
  provider-neutral delivery error (\<^verbatim>\<open>src/src/channel/mod.rs\<close>), the classification of the outbox pump
  (\<^verbatim>\<open>src/src/outbox/pump.rs\<close>) and the native adapter's own (\<^verbatim>\<open>src/src/channel/native.rs\<close>).
\<close>

section \<open>Lark errors\<close>

datatype lark_error_kind = KPermanentAuth | KRetryable | KProtocolViolation | KExhausted

datatype lark_error =
    InvalidRequest string
  | PermanentAuth string "int option"
  | Retryable string "int option"
  | ProtocolViolation string "int option"
  | Exhausted string nat

fun lark_error_kind_of :: "lark_error \<Rightarrow> lark_error_kind" where
  "lark_error_kind_of (PermanentAuth _ _) = KPermanentAuth"
| "lark_error_kind_of (Retryable _ _) = KRetryable"
| "lark_error_kind_of (InvalidRequest _) = KProtocolViolation"
| "lark_error_kind_of (ProtocolViolation _ _) = KProtocolViolation"
| "lark_error_kind_of (Exhausted _ _) = KExhausted"

definition PERMANENT_AUTH_CODES :: "int \<Rightarrow> bool" where
  "PERMANENT_AUTH_CODES code \<longleftrightarrow> 99991661 \<le> code \<and> code \<le> 99991672"

definition TRANSIENT_OPENAPI_CODES :: "int list" where
  "TRANSIENT_OPENAPI_CODES = [99991400]"

definition check_code :: "int \<Rightarrow> string \<Rightarrow> (lark_error, unit) result" where
  "check_code code context' =
     (if code = 0 then Inr ()
      else if PERMANENT_AUTH_CODES code then Inl (PermanentAuth context' (Some code))
      else if code \<in> set TRANSIENT_OPENAPI_CODES then Inl (Retryable context' (Some code))
      else Inl (ProtocolViolation context' (Some code)))"

section \<open>Delivery errors\<close>

datatype delivery_failure_class = FRetryable | FUncertain | FDefinitive

record delivery_error =
  de_class :: delivery_failure_class
  de_context :: string
  de_patch_retryable :: bool

definition delivery_error_new :: "delivery_failure_class \<Rightarrow> string \<Rightarrow> delivery_error" where
  "delivery_error_new cls context' = \<lparr>de_class = cls, de_context = context', de_patch_retryable = False\<rparr>"

definition with_patch_retryable :: "bool \<Rightarrow> delivery_error \<Rightarrow> delivery_error" where
  "with_patch_retryable b e = e\<lparr>de_patch_retryable := b\<rparr>"

section \<open>The pump's classification\<close>

datatype delivery_class = CRetryable | CUncertain | CPermanent
datatype applied_certainty = DefinitelyNotApplied | AppliedUncertain
datatype retryability = RRetryable | RPermanent

record delivery_decision_t =
  applied :: applied_certainty
  retryability_of :: retryability

definition is_documented_transient :: "int \<Rightarrow> bool" where
  "is_documented_transient code \<longleftrightarrow> code = 429 \<or> code = 99991400"

definition is_http_server_error :: "int \<Rightarrow> bool" where
  "is_http_server_error code \<longleftrightarrow> 500 \<le> code \<and> code \<le> 599"

fun delivery_decision :: "lark_error \<Rightarrow> delivery_decision_t" where
  "delivery_decision (Retryable _ (Some code)) =
     (if is_http_server_error code then \<lparr>applied = AppliedUncertain, retryability_of = RRetryable\<rparr>
      else if is_documented_transient code
      then \<lparr>applied = DefinitelyNotApplied, retryability_of = RRetryable\<rparr>
      else \<lparr>applied = DefinitelyNotApplied, retryability_of = RPermanent\<rparr>)"
| "delivery_decision (InvalidRequest _) = \<lparr>applied = DefinitelyNotApplied, retryability_of = RPermanent\<rparr>"
| "delivery_decision (PermanentAuth _ _) = \<lparr>applied = DefinitelyNotApplied, retryability_of = RPermanent\<rparr>"
| "delivery_decision (Exhausted _ _) = \<lparr>applied = DefinitelyNotApplied, retryability_of = RPermanent\<rparr>"
| "delivery_decision (ProtocolViolation _ (Some _)) =
     \<lparr>applied = DefinitelyNotApplied, retryability_of = RPermanent\<rparr>"
| "delivery_decision (Retryable _ None) = \<lparr>applied = AppliedUncertain, retryability_of = RPermanent\<rparr>"
| "delivery_decision (ProtocolViolation _ None) =
     \<lparr>applied = AppliedUncertain, retryability_of = RPermanent\<rparr>"

definition classify_delivery :: "lark_error \<Rightarrow> delivery_class" where
  "classify_delivery error =
     (let decision = delivery_decision error in
      case (applied decision, retryability_of decision) of
        (AppliedUncertain, _) \<Rightarrow> CUncertain
      | (DefinitelyNotApplied, RRetryable) \<Rightarrow> CRetryable
      | (DefinitelyNotApplied, RPermanent) \<Rightarrow> CPermanent)"

section \<open>The native adapter's classification\<close>

definition DELIVERY_CONTEXT :: string where
  "DELIVERY_CONTEXT = ''delivering an outbound operation''"

definition coded_delivery_error :: "int \<Rightarrow> delivery_error" where
  "coded_delivery_error code =
     (if is_http_server_error code
      then with_patch_retryable True (delivery_error_new FUncertain DELIVERY_CONTEXT)
      else if is_documented_transient code
      then with_patch_retryable True (delivery_error_new FRetryable DELIVERY_CONTEXT)
      else delivery_error_new FDefinitive DELIVERY_CONTEXT)"

fun delivery_error_of :: "lark_error \<Rightarrow> delivery_error" where
  "delivery_error_of (InvalidRequest _) = delivery_error_new FDefinitive DELIVERY_CONTEXT"
| "delivery_error_of (PermanentAuth _ _) = delivery_error_new FDefinitive DELIVERY_CONTEXT"
| "delivery_error_of (Exhausted _ _) = delivery_error_new FDefinitive DELIVERY_CONTEXT"
| "delivery_error_of (Retryable _ (Some code)) = coded_delivery_error code"
| "delivery_error_of (ProtocolViolation _ (Some code)) = coded_delivery_error code"
| "delivery_error_of (Retryable _ None) = delivery_error_new FUncertain DELIVERY_CONTEXT"
| "delivery_error_of (ProtocolViolation _ None) = delivery_error_new FUncertain DELIVERY_CONTEXT"

fun delivery_class_of :: "delivery_failure_class \<Rightarrow> delivery_class" where
  "delivery_class_of FRetryable = CRetryable"
| "delivery_class_of FUncertain = CUncertain"
| "delivery_class_of FDefinitive = CPermanent"

section \<open>Properties\<close>

lemmas delivery_defs =
  classify_delivery_def coded_delivery_error_def delivery_error_new_def with_patch_retryable_def
  is_documented_transient_def is_http_server_error_def Let_def

lemma delivery_error_sel [simp]:
  "de_class (delivery_error_new c x) = c" "de_patch_retryable (delivery_error_new c x) = False"
  "de_class (with_patch_retryable b e) = de_class e" "de_patch_retryable (with_patch_retryable b e) = b"
  by (simp_all add: delivery_error_new_def with_patch_retryable_def)

text \<open>
  The two classifications agree exactly outside one case. The native adapter gives an error the
  class the pump's own \<open>classify_delivery\<close> gives it, except a \<open>ProtocolViolation\<close> that carries a
  5xx, 429 or 99991400 code: there the pump's function says permanent and the adapter, which is what
  delivery uses, says uncertain (5xx) or retryable.
\<close>

theorem adapter_agrees_with_pump_classification:
  "delivery_class_of (de_class (delivery_error_of error)) = classify_delivery error \<longleftrightarrow>
     (case error of
        ProtocolViolation _ (Some code) \<Rightarrow> \<not> is_http_server_error code \<and> \<not> is_documented_transient code
      | _ \<Rightarrow> True)"
  by (cases error rule: delivery_error_of.cases) (auto simp: delivery_defs)

text \<open>
  An error without a server response, or with a 5xx code, is never classified as a definite
  rejection by the adapter, so a non-idempotent send is never repeated after it; a retry without
  uncertainty requires the documented codes 429 or 99991400; and a retryable patch failure always
  carries such a code or a 5xx.
\<close>

theorem no_response_is_never_retried:
  "(de_class (delivery_error_of (Retryable c None)) = FUncertain \<and>
    de_class (delivery_error_of (ProtocolViolation c None)) = FUncertain) \<and>
   (de_class (delivery_error_of error) = FRetryable \<longleftrightarrow>
      (\<exists>c. error = Retryable c (Some 429) \<or> error = Retryable c (Some 99991400) \<or>
           error = ProtocolViolation c (Some 429) \<or> error = ProtocolViolation c (Some 99991400))) \<and>
   (de_patch_retryable (delivery_error_of error) \<longleftrightarrow>
      de_class (delivery_error_of error) = FRetryable \<or>
      (\<exists>c code. 500 \<le> code \<and> code \<le> 599 \<and>
         (error = Retryable c (Some code) \<or> error = ProtocolViolation c (Some code))))"
  by (cases error rule: delivery_error_of.cases) (auto simp: delivery_defs)

text \<open>
  An envelope code classified by \<open>check_code\<close> is either success or a definite rejection: Lark's own
  business answer never leaves the send uncertain unless the code lies in the HTTP 5xx range.
\<close>

theorem business_code_never_duplicates:
  "(case check_code code context' of
      Inr _ \<Rightarrow> code = 0
    | Inl e \<Rightarrow> code \<noteq> 0 \<and>
        (if is_http_server_error code then de_class (delivery_error_of e) = FUncertain
         else if code = 429 \<or> code = 99991400 then de_class (delivery_error_of e) = FRetryable
         else de_class (delivery_error_of e) = FDefinitive))"
  by (auto simp: check_code_def PERMANENT_AUTH_CODES_def TRANSIENT_OPENAPI_CODES_def delivery_defs)

end
