(* ===== verification/Outbox_Pump.thy ===== *)
theory Outbox_Pump
  imports Outbox_Retention Outbox_Payload Delivery
begin

text \<open>
  The outbox pump, \<^verbatim>\<open>src/src/outbox/pump.rs\<close>: what one claimed row sends, how each answer is recorded,
  the batch loop, and the retention scheduler. The environment is explicit: the provider's answer to
  a request (\<open>deliver\<close>), the faults of the store's writer and the clock at each attempt of a receipt
  write (\<open>receipt_try\<close>), the connection and shutdown signals. A rendered card is named by the call that
  renders it (\<open>card\<close>), the renderers themselves are in \<^verbatim>\<open>src/src/render/card.rs\<close>.
\<close>

section \<open>Requests\<close>

datatype 'spec card = InteractiveCard 'spec | RunCard string run_card_phase

datatype 'spec outbound_request =
    ReqReplyText string bool string
  | ReqReplyCard string bool "'spec card"
  | ReqReplyMarkdownPost string bool string
  | ReqUpdateCard string "'spec card"

datatype process_outcome = Resolved | Deferred

datatype send_failure =
    SfDelivery delivery_error
  | SfCardPatch delivery_error
  | SfStore store_error
  | SfDependencyPending
  | SfDependencyPermanent
  | SfDependencyUncertain

datatype sweep_outcome = SweepComplete | SweepMore | SweepRetrySoon

record pump_config =
  retry_base :: duration
  retry_max :: duration
  poll_interval :: duration
  claim_batch :: nat

definition default_pump_config :: pump_config where
  "default_pump_config = \<lparr>retry_base = OUTBOX_RETRY_BASE, retry_max = OUTBOX_RETRY_MAX,
     poll_interval = OUTBOX_POLL_INTERVAL, claim_batch = STORE_OUTBOX_CLAIM_MAX_BATCH\<rparr>"

section \<open>Retry delay\<close>

definition retry_delay_ms :: "nat \<Rightarrow> pump_config \<Rightarrow> int" where
  "retry_delay_ms attempts config =
     (let base = min (as_millis (retry_base config)) u64_max;
          exponent = min (attempts - 1) 10;
          scaled = sat_mul_u64 base (2 ^ exponent);
          capped = min scaled (min (as_millis (retry_max config)) u64_max)
      in min (int capped) i64_max)"

section \<open>Receipt writes\<close>

text \<open>
  One attempt of a receipt write: an environment fault (full or closed writer channel, SQLite or I/O
  error) that left the table unchanged, the clock, and whether shutdown cut the pause after it.
\<close>

record receipt_try =
  rt_fault :: "store_error option"
  rt_now :: int
  rt_stop :: bool

definition write_once ::
    "receipt_try \<Rightarrow> (int \<Rightarrow> (outbox_table, 'a) job) \<Rightarrow> outbox_table \<Rightarrow> (store_error, 'a \<times> outbox_table) result" where
  "write_once try' write t = (case rt_fault try' of Some e \<Rightarrow> Inl e | None \<Rightarrow> write (rt_now try') t)"

fun write_receipt_loop ::
    "(nat \<Rightarrow> receipt_try) \<Rightarrow> (int \<Rightarrow> (outbox_table, 'a) job) \<Rightarrow> nat \<Rightarrow> nat \<Rightarrow> store_error \<Rightarrow> outbox_table \<Rightarrow>
       (store_error, 'a) result \<times> outbox_table" where
  "write_receipt_loop tries write attempt 0 last_error t = (Inl last_error, t)"
| "write_receipt_loop tries write attempt (Suc remaining) last_error t =
     (case write_once (tries attempt) write t of
        Inr (value, t') \<Rightarrow> (Inr value, t')
      | Inl e \<Rightarrow>
          if remaining = 0 \<or> rt_stop (tries attempt) then (Inl e, t)
          else write_receipt_loop tries write (attempt + 1) remaining e t)"

definition write_receipt ::
    "(nat \<Rightarrow> receipt_try) \<Rightarrow> (int \<Rightarrow> (outbox_table, 'a) job) \<Rightarrow> outbox_table \<Rightarrow>
       (store_error, 'a) result \<times> outbox_table" where
  "write_receipt tries write t = write_receipt_loop tries write 0 STORE_RECEIPT_WRITE_ATTEMPTS Closed t"

section \<open>Progress cards\<close>

datatype progress_anchor = AnchorDelivered string | AnchorPending | AnchorFailed | AnchorUncertain
datatype progress_dependency = DepUpdate | DepFinalize

fun valid_progress_dependency :: "outbox_row \<Rightarrow> string \<Rightarrow> progress_dependency \<Rightarrow> bool" where
  "valid_progress_dependency dependent anchor_key DepUpdate =
     (if ob_kind dependent \<noteq> ''progress'' then False
      else case Option.bind (strip_prefix anchor_key (ob_idempotency_key dependent)) (strip_prefix '':'') of
        None \<Rightarrow> False
      | Some sequence \<Rightarrow>
          (case parse_u32 sequence of
             None \<Rightarrow> False
           | Some sequence_number \<Rightarrow> sequence_number > 0 \<and> nat_to_string sequence_number = sequence))"
| "valid_progress_dependency dependent anchor_key DepFinalize =
     (ob_kind dependent = ''final'' \<and> ob_idempotency_key dependent = anchor_key @ '':final'')"

fun is_reply_progress_card :: "(outbox_error, 'spec outbox_operation) result \<Rightarrow> bool" where
  "is_reply_progress_card (Inr (ReplyProgressCard _ _ _)) = True"
| "is_reply_progress_card _ = False"

definition progress_anchor_of ::
    "(string \<Rightarrow> (outbox_error, 'spec outbox_operation) result) \<Rightarrow> store_error option \<Rightarrow> outbox_table \<Rightarrow>
       outbox_row \<Rightarrow> string \<Rightarrow> progress_dependency \<Rightarrow> (send_failure, progress_anchor) result" where
  "progress_anchor_of decode_op lookup_fault t dependent anchor_key dependency =
     (if \<not> valid_progress_dependency dependent anchor_key dependency then Inl SfDependencyPermanent
      else case (case lookup_fault of Some e \<Rightarrow> Inl e | None \<Rightarrow> outbox_row_by_key anchor_key t) of
        Inl e \<Rightarrow> Inl (SfStore e)
      | Inr (None, _) \<Rightarrow> Inl SfDependencyPermanent
      | Inr (Some row, _) \<Rightarrow>
          if ob_id row \<ge> ob_id dependent \<or> ob_scope_key row \<noteq> ob_scope_key dependent \<or>
             ob_kind row \<noteq> ''progress''
          then Inl SfDependencyPermanent
          else if \<not> is_reply_progress_card (decode_op (ob_payload_json row))
          then Inl SfDependencyPermanent
          else (case ob_state row of
              Sent \<Rightarrow> (case ob_receipt_message_id row of
                         Some receipt \<Rightarrow> if receipt \<noteq> [] then Inr (AnchorDelivered receipt)
                                         else Inl SfDependencyPermanent
                       | None \<Rightarrow> Inl SfDependencyPermanent)
            | Pending \<Rightarrow> Inr AnchorPending
            | Sending \<Rightarrow> Inr AnchorPending
            | Failed \<Rightarrow> Inr AnchorFailed
            | UncertainDelivery \<Rightarrow> Inr AnchorUncertain))"

section \<open>Sending one row\<close>

type_synonym 'spec deliver = "'spec outbound_request \<Rightarrow> (delivery_error, string) result"

fun deliver_post :: "'spec deliver \<Rightarrow> 'spec outbound_request \<Rightarrow> (send_failure, string) result" where
  "deliver_post deliver request =
     (case deliver request of Inl e \<Rightarrow> Inl (SfDelivery e) | Inr message_id \<Rightarrow> Inr message_id)"

fun deliver_patch :: "'spec deliver \<Rightarrow> 'spec outbound_request \<Rightarrow> (send_failure, string) result" where
  "deliver_patch deliver request =
     (case deliver request of Inl e \<Rightarrow> Inl (SfCardPatch e) | Inr message_id \<Rightarrow> Inr message_id)"

fun send ::
    "(string \<Rightarrow> (outbox_error, 'spec outbox_operation) result) \<Rightarrow> 'spec deliver \<Rightarrow> store_error option \<Rightarrow>
       outbox_table \<Rightarrow> outbox_row \<Rightarrow> 'spec outbox_operation \<Rightarrow> (send_failure, string) result" where
  "send decode_op deliver lookup_fault t row (ReplyText message_id thread_id text') =
     deliver_post deliver (ReqReplyText message_id (thread_id \<noteq> None) text')"
| "send decode_op deliver lookup_fault t row (ReplyMarkdownPost message_id thread_id markdown) =
     deliver_post deliver (ReqReplyMarkdownPost message_id (thread_id \<noteq> None) markdown)"
| "send decode_op deliver lookup_fault t row (ReplyInteractiveCard message_id thread_id spec) =
     deliver_post deliver (ReqReplyCard message_id (thread_id \<noteq> None) (InteractiveCard spec))"
| "send decode_op deliver lookup_fault t row (ReplyProgressCard message_id thread_id text') =
     deliver_post deliver (ReqReplyCard message_id (thread_id \<noteq> None) (RunCard text' Running))"
| "send decode_op deliver lookup_fault t row (UpdateProgressCard anchor_key text') =
     result_bind (progress_anchor_of decode_op lookup_fault t row anchor_key DepUpdate) (\<lambda>anchor.
       case anchor of
         AnchorDelivered message_id \<Rightarrow> deliver_patch deliver (ReqUpdateCard message_id (RunCard text' Running))
       | AnchorPending \<Rightarrow> Inl SfDependencyPending
       | AnchorFailed \<Rightarrow> Inl SfDependencyPermanent
       | AnchorUncertain \<Rightarrow> Inl SfDependencyUncertain)"
| "send decode_op deliver lookup_fault t row
      (FinalizeProgressCard anchor_key message_id thread_id text' fallback_markdown phase) =
     result_bind (progress_anchor_of decode_op lookup_fault t row anchor_key DepFinalize) (\<lambda>anchor.
       case anchor of
         AnchorDelivered receipt \<Rightarrow> deliver_patch deliver (ReqUpdateCard receipt (RunCard text' phase))
       | AnchorFailed \<Rightarrow>
           deliver_post deliver (ReqReplyMarkdownPost message_id (thread_id \<noteq> None) fallback_markdown)
       | AnchorPending \<Rightarrow> Inl SfDependencyPending
       | AnchorUncertain \<Rightarrow> Inl SfDependencyUncertain)"

section \<open>Recording an outcome\<close>

definition deferred_outcome :: "(store_error, bool) result \<Rightarrow> process_outcome" where
  "deferred_outcome result = (case result of Inr True \<Rightarrow> Deferred | _ \<Rightarrow> Resolved)"

definition record_failure ::
    "(nat \<Rightarrow> receipt_try) \<Rightarrow> int \<Rightarrow> pump_config \<Rightarrow> outbox_row \<Rightarrow> delivery_class \<Rightarrow> outbox_table \<Rightarrow>
       process_outcome \<times> outbox_table" where
  "record_failure tries now config row cls t =
     (let attempts = sat_add_u32 (ob_attempts row) 1;
          retry_at = sat_add_i64 now (retry_delay_ms attempts config)
      in case cls of
           CRetryable \<Rightarrow>
             (let (result, t') = write_receipt tries
                    (\<lambda>now. fail_outbox_and_defer_successors now (ob_id row) attempts retry_at) t
              in (deferred_outcome result, t'))
         | CUncertain \<Rightarrow>
             (Resolved, snd (write_receipt tries
                (\<lambda>now. fail_outbox now (ob_id row) attempts now True) t))
         | CPermanent \<Rightarrow>
             (Resolved, snd (write_receipt tries (\<lambda>now. fail_outbox_terminal now (ob_id row)) t)))"

definition record_final_card_patch_failure ::
    "'spec json_codec \<Rightarrow> (nat \<Rightarrow> receipt_try) \<Rightarrow> int \<Rightarrow> pump_config \<Rightarrow> outbox_row \<Rightarrow> 'spec outbox_operation \<Rightarrow>
       delivery_error \<Rightarrow> outbox_table \<Rightarrow> process_outcome \<times> outbox_table" where
  "record_final_card_patch_failure c tries now config row operation error t =
     (let attempts = sat_add_u32 (ob_attempts row) 1 in
      if de_patch_retryable error \<and> attempts < STORE_OUTBOX_MAX_ATTEMPTS
      then record_failure tries now config row CRetryable t
      else if de_class error = FUncertain
      then record_failure tries now config row CUncertain t
      else if de_class error = FRetryable \<and> attempts < STORE_OUTBOX_MAX_ATTEMPTS
      then record_failure tries now config row CRetryable t
      else case operation of
        FinalizeProgressCard anchor_key message_id thread_id text' fallback_markdown phase \<Rightarrow>
          (case encode c (ReplyMarkdownPost message_id thread_id fallback_markdown) of
             Inl e \<Rightarrow> record_failure tries now config row CPermanent t
           | Inr payload_json \<Rightarrow>
               (let (result, t') = write_receipt tries
                      (\<lambda>now. replace_outbox_with_fallback now (ob_id row) payload_json) t
                in (if is_ok result then Deferred else Resolved, t')))
      | _ \<Rightarrow> record_failure tries now config row CPermanent t)"

fun is_finalize :: "'spec outbox_operation \<Rightarrow> bool" where
  "is_finalize (FinalizeProgressCard _ _ _ _ _ _) = True"
| "is_finalize _ = False"

definition record_card_patch_failure ::
    "'spec json_codec \<Rightarrow> (nat \<Rightarrow> receipt_try) \<Rightarrow> int \<Rightarrow> pump_config \<Rightarrow> outbox_row \<Rightarrow> 'spec outbox_operation \<Rightarrow>
       delivery_error \<Rightarrow> outbox_table \<Rightarrow> process_outcome \<times> outbox_table" where
  "record_card_patch_failure c tries now config row operation error t =
     (if is_finalize operation
      then record_final_card_patch_failure c tries now config row operation error t
      else
        let attempts = sat_add_u32 (ob_attempts row) 1 in
        if de_patch_retryable error \<and> attempts < STORE_OUTBOX_MAX_ATTEMPTS
        then record_failure tries now config row CRetryable t
        else record_failure tries now config row
               (if de_class error = FUncertain then CUncertain else CPermanent) t)"

text \<open>
  \<open>process_row\<close> in two halves, so that other writers may run between the network attempt and the
  receipt: \<open>attempt\<close> decodes and sends, \<open>settle\<close> records the result. \<open>None\<close> is an undeliverable payload.
\<close>

type_synonym 'spec attempt_result = "('spec outbox_operation \<times> (send_failure, string) result) option"

definition attempt ::
    "(string \<Rightarrow> (outbox_error, 'spec outbox_operation) result) \<Rightarrow> 'spec deliver \<Rightarrow> store_error option \<Rightarrow>
       outbox_table \<Rightarrow> outbox_row \<Rightarrow> 'spec attempt_result" where
  "attempt decode_op deliver lookup_fault t row =
     (case decode_op (ob_payload_json row) of
        Inl e \<Rightarrow> None
      | Inr operation \<Rightarrow> Some (operation, send decode_op deliver lookup_fault t row operation))"

fun settle ::
    "'spec json_codec \<Rightarrow> (nat \<Rightarrow> receipt_try) \<Rightarrow> int \<Rightarrow> pump_config \<Rightarrow> outbox_row \<Rightarrow> 'spec attempt_result \<Rightarrow>
       outbox_table \<Rightarrow> process_outcome \<times> outbox_table" where
  "settle c tries now config row None t =
     (Resolved, snd (write_receipt tries (\<lambda>now. fail_outbox_terminal now (ob_id row)) t))"
| "settle c tries now config row (Some (operation, Inr message_id)) t =
     (if message_id = []
      then (Resolved, snd (write_receipt tries
             (\<lambda>now. fail_outbox now (ob_id row) (ob_attempts row + 1) now True) t))
      else (Resolved, snd (write_receipt tries
             (\<lambda>now. complete_outbox now (ob_id row) message_id) t)))"
| "settle c tries now config row (Some (operation, Inl (SfDelivery error))) t =
     record_failure tries now config row (delivery_class_of (de_class error)) t"
| "settle c tries now config row (Some (operation, Inl (SfCardPatch error))) t =
     record_card_patch_failure c tries now config row operation error t"
| "settle c tries now config row (Some (operation, Inl (SfStore e))) t =
     record_failure tries now config row CRetryable t"
| "settle c tries now config row (Some (operation, Inl SfDependencyPending)) t =
     record_failure tries now config row CRetryable t"
| "settle c tries now config row (Some (operation, Inl SfDependencyPermanent)) t =
     record_failure tries now config row CPermanent t"
| "settle c tries now config row (Some (operation, Inl SfDependencyUncertain)) t =
     record_failure tries now config row CUncertain t"

section \<open>The batch loop\<close>

definition release_one :: "receipt_try \<Rightarrow> outbox_row \<Rightarrow> outbox_table \<Rightarrow> outbox_table" where
  "release_one try' row t = after (write_once try' (\<lambda>now. release_outbox_claim now (ob_id row))) t"

fun release_tail :: "(nat \<Rightarrow> receipt_try) \<Rightarrow> nat \<Rightarrow> outbox_row list \<Rightarrow> outbox_table \<Rightarrow> outbox_table" where
  "release_tail tries k [] t = t"
| "release_tail tries k (row # rows) t = release_tail tries (k + 1) rows (release_one (tries k) row t)"

text \<open>What the environment shows the loop before and while it processes one row.\<close>

record 'spec row_env =
  re_go :: bool
  re_deliver :: "'spec deliver"
  re_lookup_fault :: "store_error option"
  re_tries :: "nat \<Rightarrow> receipt_try"
  re_now :: int

definition process_row ::
    "'spec json_codec \<Rightarrow> (string \<Rightarrow> (outbox_error, 'spec outbox_operation) result) \<Rightarrow> pump_config \<Rightarrow>
       'spec row_env \<Rightarrow> outbox_row \<Rightarrow> outbox_table \<Rightarrow> process_outcome \<times> outbox_table" where
  "process_row c decode_op config env row t =
     settle c (re_tries env) (re_now env) config row
       (attempt decode_op (re_deliver env) (re_lookup_fault env) t row) t"

fun process_batch ::
    "'spec json_codec \<Rightarrow> (string \<Rightarrow> (outbox_error, 'spec outbox_operation) result) \<Rightarrow> pump_config \<Rightarrow>
       (nat \<Rightarrow> 'spec row_env) \<Rightarrow> nat \<Rightarrow> outbox_row list \<Rightarrow> outbox_table \<Rightarrow> outbox_table" where
  "process_batch c decode_op config env cursor [] t = t"
| "process_batch c decode_op config env cursor (row # rows) t =
     (if \<not> re_go (env cursor) then release_tail (re_tries (env cursor)) 0 (row # rows) t
      else case process_row c decode_op config (env cursor) row t of
        (Deferred, t') \<Rightarrow> t'
      | (Resolved, t') \<Rightarrow> process_batch c decode_op config env (cursor + 1) rows t')"

section \<open>Maintenance\<close>

fun next_sweep_ms :: "sweep_outcome \<Rightarrow> int \<Rightarrow> int \<Rightarrow> int \<Rightarrow> int" where
  "next_sweep_ms SweepComplete sweep_now_ms interval_ms retry_interval_ms = sat_add_i64 sweep_now_ms interval_ms"
| "next_sweep_ms SweepMore sweep_now_ms interval_ms retry_interval_ms = sweep_now_ms"
| "next_sweep_ms SweepRetrySoon sweep_now_ms interval_ms retry_interval_ms =
     sat_add_i64 sweep_now_ms retry_interval_ms"

definition sweep_terminal_outbox_rows ::
    "(string \<Rightarrow> string option) \<Rightarrow> store_error option \<Rightarrow> int \<Rightarrow> outbox_table \<Rightarrow> sweep_outcome \<times> outbox_table" where
  "sweep_terminal_outbox_rows anchor_of fault sweep_now_ms t =
     (let older_than_ms = sat_sub_i64 sweep_now_ms OUTBOX_TERMINAL_RETENTION_MS in
      case (case fault of Some e \<Rightarrow> Inl e
            | None \<Rightarrow> sweep_terminal_outbox anchor_of older_than_ms OUTBOX_SWEEP_BATCH t) of
        Inl e \<Rightarrow> (SweepRetrySoon, t)
      | Inr (deleted, t') \<Rightarrow>
          (if deleted = 0 then SweepComplete
           else if deleted \<ge> OUTBOX_SWEEP_BATCH then SweepMore
           else SweepComplete, t'))"

end
