(* ===== verification/Outbox_Pump_Safety.thy ===== *)
theory Outbox_Pump_Safety
  imports Outbox_Pump
begin

text \<open>
  The pump as a state machine, and the delivery guarantees of the whole outbox: which state each
  answer of the provider leads to, that a request which may have been applied is never issued again,
  and that a claimed row is settled. Other writers of the store (enqueueing, retention) may run between
  any two steps, and the process may die and restart at any point.
\<close>

section \<open>Receipt writes\<close>

text \<open>What a bounded, interruptible write promises its caller: it committed the job once, or changed nothing.\<close>

locale receipt_writer =
  fixes write_with :: "(int \<Rightarrow> ('s, 'a) job) \<Rightarrow> 's \<Rightarrow> (store_error, 'a) result \<times> 's"
  assumes committed: "write_with w s = (Inr a, s') \<Longrightarrow> \<exists>now. w now s = Inr (a, s')"
    and refused: "write_with w s = (Inl e, s') \<Longrightarrow> s' = s"
begin

lemma cases_write:
  assumes "write_with w s = (result, s')"
  obtains (wrote) now a where "result = Inr a" "w now s = Inr (a, s')"
  | (failed) e where "result = Inl e" "s' = s"
  using assms committed refused by (cases result) blast+

lemma keeps:
  assumes "P s" "\<And>now a s'. w now s = Inr (a, s') \<Longrightarrow> P s'"
  shows "P (snd (write_with w s))"
proof -
  obtain result s' where run: "write_with w s = (result, s')" by fastforce
  then have "P s'" using assms by (cases rule: cases_write) auto
  with run show ?thesis by simp
qed

end

lemma write_receipt_loop_cases:
  "write_receipt_loop tries w k n e t = (result, t') \<Longrightarrow>
     case result of Inr a \<Rightarrow> \<exists>now. w now t = Inr (a, t') | Inl _ \<Rightarrow> t' = t"
proof (induction tries w k n e t rule: write_receipt_loop.induct)
  case (1 tries w k e t)
  then show ?case by auto
next
  case (2 tries w k n e t)
  then show ?case
    by (auto simp: write_once_def split: sum.splits option.splits if_splits prod.splits)
qed

interpretation receipt: receipt_writer "write_receipt tries"
  for tries
  by unfold_locales (auto simp: write_receipt_def dest!: write_receipt_loop_cases)

interpretation single_try: receipt_writer
    "\<lambda>w t. (case write_once try' w t of Inl e \<Rightarrow> (Inl e, t) | Inr (a, t') \<Rightarrow> (Inr a, t'))"
  for try' :: receipt_try
  by unfold_locales (auto simp: write_once_def split: sum.splits option.splits)

lemma release_one_single:
  "release_one try' row t = snd (case write_once try' (\<lambda>now. release_outbox_claim now (ob_id row)) t of
     Inl e \<Rightarrow> (Inl e, t) | Inr (a, t') \<Rightarrow> (Inr a, t'))"
  by (auto simp: release_one_def after_def split: sum.splits)

section \<open>What settling a row does to the table\<close>

definition retired :: "int \<Rightarrow> outbox_table \<Rightarrow> outbox_table \<Rightarrow> bool" where
  "retired i t t' \<longleftrightarrow> (\<exists>f. (\<forall>r. ob_id (f r) = ob_id r \<and> \<not> live (f r)) \<and>
     t' = update_where (\<lambda>r. ob_id r = i) f t)"

definition parked :: "int \<Rightarrow> outbox_table \<Rightarrow> outbox_table \<Rightarrow> bool" where
  "parked i t t' \<longleftrightarrow> (\<exists>f now retry. (\<forall>r. ob_id (f r) = ob_id r) \<and>
     t' = park_successors now i retry (update_where (\<lambda>r. ob_id r = i) f t))"

definition receipt_effect :: "int \<Rightarrow> process_outcome \<Rightarrow> outbox_table \<Rightarrow> outbox_table \<Rightarrow> bool" where
  "receipt_effect i outcome t t' \<longleftrightarrow>
     outcome = Resolved \<and> (t' = t \<or> retired i t t') \<or> outcome = Deferred \<and> parked i t t'"

lemma retiredI:
  "t' = update_where (\<lambda>r. ob_id r = i) f t \<Longrightarrow> (\<And>r. ob_id (f r) = ob_id r) \<Longrightarrow> (\<And>r. \<not> live (f r)) \<Longrightarrow>
     retired i t t'"
  unfolding retired_def by blast

lemma parkedI:
  "t' = park_successors now i retry (update_where (\<lambda>r. ob_id r = i) f t) \<Longrightarrow>
     (\<And>r. ob_id (f r) = ob_id r) \<Longrightarrow> parked i t t'"
  unfolding parked_def by blast

lemma complete_retired: "complete_outbox now i receipt t = Inr (a, t') \<Longrightarrow> retired i t t'"
  by (auto simp: complete_outbox_def live_def dest!: run_sized_Inr intro!: retiredI [OF refl])

lemma fail_uncertain_retired: "fail_outbox now i n retry True t = Inr (a, t') \<Longrightarrow> retired i t t'"
  by (auto simp: fail_outbox_def live_def Let_def split: if_splits intro!: retiredI [OF refl])

lemma fail_terminal_retired: "fail_outbox_terminal now i t = Inr (a, t') \<Longrightarrow> retired i t t'"
  by (auto simp: fail_outbox_terminal_def live_def intro!: retiredI [OF refl])

lemma fail_defer_effect:
  "fail_outbox_and_defer_successors now i n retry t = Inr (deferred, t') \<Longrightarrow>
     if deferred then parked i t t' else retired i t t'"
  by (auto simp: fail_outbox_and_defer_successors_def live_def Let_def split: if_splits
      intro!: retiredI [OF refl] parkedI [OF refl])

lemma replace_parked: "replace_outbox_with_fallback now i payload t = Inr (a, t') \<Longrightarrow> parked i t t'"
  by (auto simp: replace_outbox_with_fallback_def Let_def split: if_splits intro!: parkedI [OF refl])

lemma write_retires:
  assumes "\<And>now a t'. w now t = Inr (a, t') \<Longrightarrow> retired i t t'"
  shows "receipt_effect i Resolved t (snd (write_receipt tries w t))"
  unfolding receipt_effect_def
  by (rule receipt.keeps [where P = "\<lambda>t'. _ \<and> (t' = t \<or> retired i t t') \<or> _"]) (use assms in auto)

lemma record_failure_effect:
  assumes "record_failure tries now config row cls t = (outcome, t')"
  shows "receipt_effect (ob_id row) outcome t t'"
proof (cases cls)
  case CRetryable
  let ?w = "\<lambda>now'. fail_outbox_and_defer_successors now' (ob_id row) (sat_add_u32 (ob_attempts row) 1)
        (sat_add_i64 now (retry_delay_ms (sat_add_u32 (ob_attempts row) 1) config))"
  obtain result u where u: "write_receipt tries ?w t = (result, u)" by fastforce
  with assms CRetryable have out: "outcome = deferred_outcome result" "t' = u"
    by (simp_all add: record_failure_def Let_def)
  from u show ?thesis
  proof (cases rule: receipt.cases_write)
    case (wrote now' deferred)
    with fail_defer_effect [OF wrote(2)] out show ?thesis
      by (cases deferred) (auto simp: receipt_effect_def deferred_outcome_def)
  next
    case (failed e)
    with out show ?thesis by (simp add: receipt_effect_def deferred_outcome_def)
  qed
next
  case CUncertain
  with assms show ?thesis
    by (auto simp: record_failure_def Let_def intro!: write_retires fail_uncertain_retired)
next
  case CPermanent
  with assms show ?thesis
    by (auto simp: record_failure_def Let_def intro!: write_retires fail_terminal_retired)
qed

lemma final_patch_effect:
  assumes "record_final_card_patch_failure c tries now config row operation error t = (outcome, t')"
  shows "receipt_effect (ob_id row) outcome t t'"
proof (cases "\<exists>cls. record_failure tries now config row cls t = (outcome, t')")
  case True
  then show ?thesis using record_failure_effect by blast
next
  case False
  with assms obtain payload where p:
    "(let (result, u) = write_receipt tries (\<lambda>now. replace_outbox_with_fallback now (ob_id row) payload) t
      in (if is_ok result then Deferred else Resolved, u)) = (outcome, t')"
    by (auto simp: record_final_card_patch_failure_def Let_def
        split: if_splits outbox_operation.splits sum.splits)
  obtain result u where
    u: "write_receipt tries (\<lambda>now. replace_outbox_with_fallback now (ob_id row) payload) t = (result, u)"
    by fastforce
  with p have out: "outcome = (if is_ok result then Deferred else Resolved)" "t' = u" by auto
  from u show ?thesis
  proof (cases rule: receipt.cases_write)
    case (wrote now' a)
    with replace_parked [OF wrote(2)] out show ?thesis by (simp add: receipt_effect_def)
  next
    case (failed e)
    with out show ?thesis by (simp add: receipt_effect_def)
  qed
qed

lemma card_patch_effect:
  "record_card_patch_failure c tries now config row operation error t = (outcome, t') \<Longrightarrow>
     receipt_effect (ob_id row) outcome t t'"
  by (auto simp: record_card_patch_failure_def Let_def split: if_splits
      dest: record_failure_effect final_patch_effect)

lemma settle_effect:
  assumes "settle c tries now config row res t = (outcome, t')"
  shows "receipt_effect (ob_id row) outcome t t'"
  using assms
proof (cases "(c, tries, now, config, row, res, t)" rule: settle.cases)
  case (2 c' tries' now' config' row' operation message_id t'')
  with assms show ?thesis
    by (auto split: if_splits intro!: write_retires intro: fail_uncertain_retired complete_retired)
qed (auto intro!: write_retires fail_terminal_retired dest: record_failure_effect card_patch_effect)

text \<open>Settling keeps both table invariants.\<close>

definition table_inv :: "int \<Rightarrow> outbox_table \<Rightarrow> bool" where
  "table_inv T t \<longleftrightarrow> outbox_wf t \<and> fifo T t"

lemma receipt_jobs_inv:
  assumes "table_inv T t"
  shows "complete_outbox now i receipt t = Inr (u, t') \<Longrightarrow> table_inv T t'"
    and "fail_outbox now i n retry True t = Inr (u, t') \<Longrightarrow> table_inv T t'"
    and "fail_outbox_terminal now i t = Inr (u, t') \<Longrightarrow> table_inv T t'"
    and "fail_outbox_and_defer_successors now i n retry t = Inr (b, t') \<Longrightarrow> table_inv T t'"
    and "replace_outbox_with_fallback now i payload t = Inr (u, t') \<Longrightarrow> table_inv T t'"
  using assms unfolding table_inv_def by (blast intro: outbox_ops_wf outbox_ops_fifo)+

lemma write_receipt_inv:
  "table_inv T t \<Longrightarrow> (\<And>now a t'. w now t = Inr (a, t') \<Longrightarrow> table_inv T t') \<Longrightarrow>
     table_inv T (snd (write_receipt tries w t))"
  by (rule receipt.keeps)

lemma record_failure_inv:
  assumes "table_inv T t"
  shows "table_inv T (snd (record_failure tries now config row cls t))"
proof (cases cls)
  case CRetryable
  then have "snd (record_failure tries now config row cls t) = snd (write_receipt tries
      (\<lambda>now'. fail_outbox_and_defer_successors now' (ob_id row) (sat_add_u32 (ob_attempts row) 1)
        (sat_add_i64 now (retry_delay_ms (sat_add_u32 (ob_attempts row) 1) config))) t)"
    by (simp add: record_failure_def Let_def split: prod.splits)
  then show ?thesis using assms by (auto intro!: write_receipt_inv dest: receipt_jobs_inv(4))
next
  case CUncertain
  with assms show ?thesis
    by (auto simp: record_failure_def Let_def intro!: write_receipt_inv dest: receipt_jobs_inv(2))
next
  case CPermanent
  with assms show ?thesis
    by (auto simp: record_failure_def Let_def intro!: write_receipt_inv dest: receipt_jobs_inv(3))
qed

lemma final_patch_inv:
  assumes "table_inv T t"
  shows "table_inv T (snd (record_final_card_patch_failure c tries now config row operation error t))"
proof -
  have "table_inv T (snd (let (result, u) = write_receipt tries
      (\<lambda>now. replace_outbox_with_fallback now (ob_id row) payload) t
      in (if is_ok result then Deferred else Resolved, u)))" for payload
    using write_receipt_inv [OF assms, of "\<lambda>now. replace_outbox_with_fallback now (ob_id row) payload" tries]
      receipt_jobs_inv(5) [OF assms]
    by (auto simp: Let_def split: prod.splits)
  then show ?thesis
    using record_failure_inv [OF assms]
    by (auto simp: record_final_card_patch_failure_def Let_def split: outbox_operation.splits sum.splits)
qed

lemma settle_inv:
  assumes "table_inv T t"
  shows "table_inv T (snd (settle c tries now config row res t))"
  using assms record_failure_inv [OF assms] final_patch_inv [OF assms]
  by (cases "(c, tries, now, config, row, res, t)" rule: settle.cases)
    (auto simp: record_card_patch_failure_def Let_def intro!: write_receipt_inv dest: receipt_jobs_inv(1-3))

section \<open>Answers that may have been applied\<close>

text \<open>
  An attempt whose request may have changed the chat: it was acknowledged, or its outcome is unknown.
  The pump deliberately repeats one kind of them, a card patch of unknown outcome that the provider marks
  as safe to repeat (a patch replaces the whole card, so a second one changes nothing); every other one
  is final.
\<close>

fun maybe_applied :: "'spec attempt_result \<Rightarrow> bool" where
  "maybe_applied (Some (operation, Inr message_id)) = True"
| "maybe_applied (Some (operation, Inl (SfDelivery e))) = (de_class e = FUncertain)"
| "maybe_applied (Some (operation, Inl (SfCardPatch e))) = (de_class e = FUncertain)"
| "maybe_applied _ = False"

fun repeatable_patch :: "'spec attempt_result \<Rightarrow> bool" where
  "repeatable_patch (Some (operation, Inl (SfCardPatch e))) = (de_class e = FUncertain \<and> de_patch_retryable e)"
| "repeatable_patch _ = False"

definition final_request :: "'spec attempt_result \<Rightarrow> bool" where
  "final_request res \<longleftrightarrow> maybe_applied res \<and> \<not> repeatable_patch res"

lemma record_uncertain_resolved: "fst (record_failure tries now config row CUncertain t) = Resolved"
  by (simp add: record_failure_def Let_def)

lemma final_request_resolved:
  assumes "final_request res"
  shows "fst (settle c tries now config row res t) = Resolved"
  using assms
  by (cases res rule: maybe_applied.cases)
    (auto simp: final_request_def record_card_patch_failure_def record_final_card_patch_failure_def Let_def
      record_uncertain_resolved)

section \<open>The state machine\<close>

text \<open>
  \<open>ps_tail\<close> are the claimed rows the loop has not finished, \<open>ps_open\<close> the result of the attempt for its
  first row while the receipt is not written. \<open>ps_attempts\<close> is a history variable: every attempt made so
  far for a row that is still in the table, with its result (a row that is swept takes its history
  with it, since SQLite may give its number to a new row). \<open>ps_applied\<close> are the rows with a final request.
\<close>

record 'spec pump_state =
  ps_table :: outbox_table
  ps_tail :: "outbox_row list"
  ps_open :: "'spec attempt_result option"
  ps_attempts :: "(int \<times> 'spec attempt_result) set"
  ps_clock :: int

definition applied_of :: "(int \<times> 'spec attempt_result) set \<Rightarrow> int set" where
  "applied_of A = fst ` {a \<in> A. final_request (snd a)}"

abbreviation ps_applied :: "'spec pump_state \<Rightarrow> int set" where
  "ps_applied s \<equiv> applied_of (ps_attempts s)"

fun external_op :: "outbox_op \<Rightarrow> bool" where
  "external_op (OpEnqueue _ _) = True"
| "external_op (OpEnqueueBatch _ _) = True"
| "external_op (OpSweep _ _) = True"
| "external_op _ = False"

definition surviving :: "outbox_table \<Rightarrow> outbox_table \<Rightarrow> int set \<Rightarrow> int set" where
  "surviving t t' ids = {i \<in> ids. \<exists>r \<in> set t \<inter> set t'. ob_id r = i}"

definition surviving_attempts ::
    "outbox_table \<Rightarrow> outbox_table \<Rightarrow> (int \<times> 'spec attempt_result) set \<Rightarrow> (int \<times> 'spec attempt_result) set" where
  "surviving_attempts t t' A = {a \<in> A. fst a \<in> surviving t t' (fst ` A)}"

lemma applied_of_simps [simp]:
  "applied_of {} = {}"
  "applied_of (insert (i, res) A) = (if final_request res then insert i (applied_of A) else applied_of A)"
  "applied_of (surviving_attempts t t' A) = surviving t t' (applied_of A)"
  by (auto simp: applied_of_def surviving_attempts_def surviving_def image_iff) (metis IntI fst_conv)

inductive pump_step ::
    "'spec json_codec \<Rightarrow> (string \<Rightarrow> (outbox_error, 'spec outbox_operation) result) \<Rightarrow> pump_config \<Rightarrow>
       (string \<Rightarrow> string option) \<Rightarrow> 'spec pump_state \<Rightarrow> 'spec pump_state \<Rightarrow> bool"
  for c decode_op config anchor_of where
  claim: "ps_tail s = [] \<Longrightarrow> ps_open s = None \<Longrightarrow> ps_clock s \<le> now_value \<Longrightarrow>
    claim_outbox_batch now now_value (claim_batch config) (ps_table s) = Inr (rows, t') \<Longrightarrow>
    pump_step c decode_op config anchor_of s (s\<lparr>ps_table := t', ps_tail := rows, ps_clock := now_value\<rparr>)"
| send: "ps_tail s = row # rest \<Longrightarrow> ps_open s = None \<Longrightarrow>
    res = attempt decode_op deliver lookup_fault (ps_table s) row \<Longrightarrow>
    pump_step c decode_op config anchor_of s
      (s\<lparr>ps_open := Some res,
         ps_attempts := insert (ob_id row, res) (ps_attempts s)\<rparr>)"
| settle: "ps_tail s = row # rest \<Longrightarrow> ps_open s = Some res \<Longrightarrow>
    settle c tries now config row res (ps_table s) = (outcome, t') \<Longrightarrow>
    pump_step c decode_op config anchor_of s
      (s\<lparr>ps_table := t', ps_open := None, ps_tail := (if outcome = Deferred then [] else rest)\<rparr>)"
| release: "ps_tail s = row # rest \<Longrightarrow> ps_open s = None \<Longrightarrow> ps_clock s \<le> rt_now (tries 0) \<Longrightarrow>
    (\<And>k. rt_now (tries k) \<le> rt_now (tries (k + 1))) \<Longrightarrow>
    pump_step c decode_op config anchor_of s
      (s\<lparr>ps_table := release_tail tries 0 (row # rest) (ps_table s), ps_tail := [],
         ps_clock := rt_now (tries (length rest))\<rparr>)"
| other: "external_op op \<Longrightarrow> t' = apply_op anchor_of op (ps_table s) \<Longrightarrow>
    pump_step c decode_op config anchor_of s
      (s\<lparr>ps_table := t', ps_attempts := surviving_attempts (ps_table s) t' (ps_attempts s)\<rparr>)"
| crash: "t' = ps_table s \<or> t' = after (recover_sending_outbox now) (ps_table s) \<Longrightarrow>
    pump_step c decode_op config anchor_of s (s\<lparr>ps_table := t', ps_tail := [], ps_open := None\<rparr>)"

definition pump_init :: "int \<Rightarrow> 'spec pump_state" where
  "pump_init T = \<lparr>ps_table = [], ps_tail = [], ps_open = None, ps_attempts = {}, ps_clock = T\<rparr>"

inductive pump_reachable ::
    "'spec json_codec \<Rightarrow> (string \<Rightarrow> (outbox_error, 'spec outbox_operation) result) \<Rightarrow> pump_config \<Rightarrow>
       (string \<Rightarrow> string option) \<Rightarrow> 'spec pump_state \<Rightarrow> bool"
  for c decode_op config anchor_of where
  start: "pump_reachable c decode_op config anchor_of (pump_init T)"
| step: "pump_reachable c decode_op config anchor_of s \<Longrightarrow> pump_step c decode_op config anchor_of s s' \<Longrightarrow>
    pump_reachable c decode_op config anchor_of s'"

section \<open>The pump invariant\<close>

definition pending_ids :: "outbox_table \<Rightarrow> int set" where
  "pending_ids t = ob_id ` {r \<in> set t. ob_state r = Pending}"

definition claimed_in :: "outbox_table \<Rightarrow> outbox_row \<Rightarrow> bool" where
  "claimed_in t row \<longleftrightarrow> (\<exists>r\<in>set t. ob_id r = ob_id row \<and> ob_state r = Sending \<and>
     ob_attempts r = ob_attempts row \<and> ob_payload_json r = ob_payload_json row)"

definition settled_applied :: "'spec pump_state \<Rightarrow> int set" where
  "settled_applied s = (case (ps_open s, ps_tail s) of
     (Some res, row # rest) \<Rightarrow> if final_request res then ps_applied s - {ob_id row} else ps_applied s
   | _ \<Rightarrow> ps_applied s)"

definition pump_inv :: "'spec pump_state \<Rightarrow> bool" where
  "pump_inv s \<longleftrightarrow>
     table_inv (ps_clock s) (ps_table s) \<and>
     sorted_wrt (<) (map ob_id (ps_tail s)) \<and>
     (\<forall>row\<in>set (ps_tail s). claimed_in (ps_table s) row) \<and>
     (\<forall>row\<in>set (ps_tail s). \<forall>p\<in>pending_ids (ps_table s). ob_id row < p) \<and>
     (\<forall>i\<in>ps_applied s. \<forall>p\<in>pending_ids (ps_table s). i < p) \<and>
     (\<forall>i\<in>settled_applied s. \<forall>row\<in>set (ps_tail s). i < ob_id row) \<and>
     ps_applied s \<subseteq> ob_id ` set (ps_table s)"

lemma retired_facts:
  assumes "retired i t t'"
  shows "map ob_id t' = map ob_id t" "pending_ids t' \<subseteq> pending_ids t"
    "claimed_in t row \<Longrightarrow> ob_id row \<noteq> i \<Longrightarrow> claimed_in t' row"
proof -
  from assms obtain f where f: "\<And>r. ob_id (f r) = ob_id r" "\<And>r. \<not> live (f r)"
    "t' = update_where (\<lambda>r. ob_id r = i) f t" unfolding retired_def by blast
  then show "map ob_id t' = map ob_id t" by (simp add: map_update_where)
  show "pending_ids t' \<subseteq> pending_ids t"
    using f(2) by (auto simp: f(3) pending_ids_def set_update_where live_def)
  show "claimed_in t' row" if "claimed_in t row" "ob_id row \<noteq> i"
    using that by (auto simp: claimed_in_def f(3) set_update_where)
qed

lemma parked_facts:
  assumes "parked i t t'"
  shows "map ob_id t' = map ob_id t" "pending_ids t' \<subseteq> pending_ids t \<union> {i..}"
proof -
  from assms obtain f now retry where f: "\<And>r. ob_id (f r) = ob_id r"
    "t' = park_successors now i retry (update_where (\<lambda>r. ob_id r = i) f t)" unfolding parked_def by blast
  then show "map ob_id t' = map ob_id t" by (simp add: park_successors_def map_update_where)
  show "pending_ids t' \<subseteq> pending_ids t \<union> {i..}"
    using f(1) by (auto simp: f(2) pending_ids_def park_successors_def set_update_where)
qed

lemma map_id_set: "map ob_id t' = map ob_id t \<Longrightarrow> ob_id ` set t' = ob_id ` set t"
  by (metis list.set_map)

lemma pending_ids_rows: "pending_ids t = set (map ob_id (rows_in_state Pending t))"
  by (auto simp: pending_ids_def rows_in_state_def)

lemma claim_facts:
  assumes inv: "table_inv T t" and clock: "T \<le> now_value"
    and run: "claim_outbox_batch now now_value limit t = Inr (rows, t')"
  shows "table_inv now_value t'" "map ob_id t' = map ob_id t"
    "sorted_wrt (<) (map ob_id rows)" "set (map ob_id rows) \<subseteq> pending_ids t"
    "\<forall>row\<in>set rows. claimed_in t' row" "\<forall>row\<in>set rows. \<forall>p\<in>pending_ids t'. ob_id row < p"
    "pending_ids t' \<subseteq> pending_ids t"
proof -
  have wf: "outbox_wf t" and fifo: "fifo T t" using inv by (simp_all add: table_inv_def)
  show "table_inv now_value t'"
    using claim_outbox_batch_wf [OF wf run] claim_outbox_batch_fifo [OF wf fifo clock run]
    by (simp add: table_inv_def)
  let ?P = "rows_in_state Pending t"
  obtain k where k: "rows = map (\<lambda>r. r\<lparr>ob_state := Sending\<rparr>) (take k ?P)" "rows_in_state Pending t' = drop k ?P"
    using claim_prefix [OF wf fifo clock run] by blast
  have ids: "map ob_id rows = map ob_id (take k ?P)" unfolding k(1) by simp
  have sorted: "sorted_wrt (<) (map ob_id (take k ?P @ drop k ?P))"
    using wf unfolding append_take_drop_id rows_in_state_def
    by (auto simp: outbox_wf_def intro: sorted_wrt_filter_map)
  then have split: "sorted_wrt (<) (map ob_id (take k ?P))"
    "\<forall>x\<in>set (map ob_id (take k ?P)). \<forall>y\<in>set (map ob_id (drop k ?P)). x < y"
    unfolding map_append sorted_wrt_append by simp_all
  show "sorted_wrt (<) (map ob_id rows)" unfolding ids by (rule split(1))
  show "set (map ob_id rows) \<subseteq> pending_ids t"
    unfolding ids pending_ids_rows set_map by (intro image_mono set_take_subset)
  show "pending_ids t' \<subseteq> pending_ids t"
    unfolding pending_ids_rows k(2) set_map by (intro image_mono set_drop_subset)
  show "\<forall>row\<in>set rows. \<forall>p\<in>pending_ids t'. ob_id row < p"
  proof (intro ballI)
    fix row p assume "row \<in> set rows" "p \<in> pending_ids t'"
    then have "ob_id row \<in> set (map ob_id (take k ?P))" "p \<in> set (map ob_id (drop k ?P))"
      unfolding ids [symmetric] pending_ids_rows k(2) by auto
    with split(2) show "ob_id row < p" by blast
  qed
  let ?f = "\<lambda>r. r\<lparr>ob_state := Sending, ob_updated_ms := now\<rparr>"
  let ?c = "claim_loop (min limit STORE_OUTBOX_CLAIM_MAX_BATCH) 0 0 (sort_key ob_id (filter (due now_value) t))"
  have t': "t' = update_where (\<lambda>r. ob_id r \<in> set (map ob_id ?c)) ?f t"
    and c: "rows = map (\<lambda>r. r\<lparr>ob_state := Sending\<rparr>) ?c"
    using run by (auto simp: claim_outbox_batch_def Let_def)
  show "map ob_id t' = map ob_id t" unfolding t' by (rule map_update_where) simp
  show "\<forall>row\<in>set rows. claimed_in t' row"
  proof
    fix row assume "row \<in> set rows"
    then obtain r where r: "r \<in> set ?c" "row = r\<lparr>ob_state := Sending\<rparr>" unfolding c by auto
    with set_claim_loop have "r \<in> set t" by fastforce
    with r(1) have "?f r \<in> set t'" unfolding t' set_update_where by auto
    with r(2) show "claimed_in t' row" unfolding claimed_in_def by (intro bexI [of _ "?f r"]) simp_all
  qed
qed

lemma release_one_facts:
  assumes inv: "table_inv T t" and clock: "T \<le> rt_now try'"
  shows "table_inv (rt_now try') (release_one try' row t) \<and>
         map ob_id (release_one try' row t) = map ob_id t \<and>
         pending_ids (release_one try' row t) \<subseteq> pending_ids t \<union> {ob_id row}"
proof (cases "write_once try' (\<lambda>now. release_outbox_claim now (ob_id row)) t")
  case (Inl e)
  then show ?thesis using inv clock by (auto simp: release_one_def after_def table_inv_def fifo_mono)
next
  case (Inr x)
  then obtain t' where run: "release_outbox_claim (rt_now try') (ob_id row) t = Inr ((), t')"
    and t': "release_one try' row t = t'"
    by (cases x) (auto simp: release_one_def after_def write_once_def split: option.splits)
  let ?f = "\<lambda>r. r\<lparr>ob_state := Pending, ob_next_retry_ms := rt_now try', ob_updated_ms := rt_now try'\<rparr>"
  have u: "t' = update_where (\<lambda>r. ob_id r = ob_id row) ?f t"
    using run by (auto simp: release_outbox_claim_def release_outbox_claim_at_def)
  have "table_inv (rt_now try') t'"
    using inv clock run by (auto simp: table_inv_def intro: release_outbox_claim_wf release_outbox_claim_fifo)
  moreover have "map ob_id t' = map ob_id t" unfolding u by (rule map_update_where) simp
  moreover have "pending_ids t' \<subseteq> pending_ids t \<union> {ob_id row}"
    unfolding u pending_ids_def set_update_where by auto
  ultimately show ?thesis unfolding t' by simp
qed

lemma release_tail_facts:
  assumes "table_inv T t" "T \<le> rt_now (tries k)" "\<And>j. rt_now (tries j) \<le> rt_now (tries (j + 1))"
  shows "table_inv (rt_now (tries (k + length rest))) (release_tail tries k (row # rest) t) \<and>
         map ob_id (release_tail tries k (row # rest) t) = map ob_id t \<and>
         pending_ids (release_tail tries k (row # rest) t) \<subseteq> pending_ids t \<union> ob_id ` set (row # rest)"
  using assms(1,2)
proof (induction rest arbitrary: row k t T)
  case Nil
  then show ?case using release_one_facts [OF Nil(1), of "tries k" row] by simp
next
  case (Cons next' rest)
  let ?t = "release_one (tries k) row t"
  note one = release_one_facts [OF Cons.prems, of row]
  have "rt_now (tries k) \<le> rt_now (tries (k + 1))" by (rule assms(3))
  from Cons.IH [OF one [THEN conjunct1] this, of next'] one show ?case by auto
qed

lemma enqueue_one_shape:
  assumes "enqueue_one anchor_of now row t = Inr (a, t')"
  shows "\<exists>P news. t' = filter P t @ news \<and> list_all (\<lambda>r. ob_state r = Pending) news"
  using assms
proof (cases rule: enqueue_oneD)
  case (dup existing)
  then show ?thesis by (intro exI [of _ "\<lambda>_. True"] exI [of _ "[]"]) simp
next
  case (new P stored)
  then show ?thesis by (intro exI [of _ P] exI [of _ "[stored]"]) (simp add: inserted_row_def)
qed

lemma enqueue_rows_shape:
  assumes "enqueue_rows anchor_of now rows t = Inr (as, t')"
  shows "\<exists>P news. t' = filter P t @ news \<and> list_all (\<lambda>r. ob_state r = Pending) news"
  using assms
proof (induction rows arbitrary: t as)
  case Nil
  then show ?case by (intro exI [of _ "\<lambda>_. True"] exI [of _ "[]"]) simp
next
  case (Cons row rows)
  then obtain a t1 as' where step: "enqueue_one anchor_of now row t = Inr (a, t1)"
    "enqueue_rows anchor_of now rows t1 = Inr (as', t')" by auto
  obtain P n1 where 1: "t1 = filter P t @ n1" "list_all (\<lambda>r. ob_state r = Pending) n1"
    using enqueue_one_shape [OF step(1)] by blast
  obtain Q n2 where 2: "t' = filter Q t1 @ n2" "list_all (\<lambda>r. ob_state r = Pending) n2"
    using Cons.IH [OF step(2)] by blast
  from 1 2 show ?case
    by (intro exI [of _ "\<lambda>r. P r \<and> Q r"] exI [of _ "filter Q n1 @ n2"]) (auto simp: list_all_iff conj_commute)
qed

lemma external_shape:
  assumes "external_op op"
  shows "\<exists>P news. apply_op anchor_of op t = filter P t @ news \<and> list_all (\<lambda>r. ob_state r = Pending) news"
    (is "?shape (apply_op anchor_of op t)")
proof -
  have refl: "?shape t" by (intro exI [of _ "\<lambda>_. True"] exI [of _ "[]"]) simp
  have sweep: "?shape (snd (sweep_terminal_rows_inline anchor_of older n t))" for older n
    using sweep_inline_filter [of anchor_of older n t] by (metis append_Nil2 list.pred_inject(1))
  show ?thesis
  proof (cases op rule: external_op.cases)
    case (1 now row)
    with refl show ?thesis
      by (auto simp: after_def enqueue_outbox_def split: sum.splits dest!: run_sized_Inr
          intro: enqueue_one_shape)
  next
    case (2 now rows)
    with refl show ?thesis
      by (auto simp: after_def enqueue_outbox_batch_def split: sum.splits if_splits dest!: run_sized_Inr
          intro: enqueue_rows_shape)
  next
    case (3 older n)
    then have "apply_op anchor_of op t =
        snd (sweep_terminal_rows_inline anchor_of older (min n OUTBOX_SWEEP_BATCH) t)"
      by (simp add: after_def sweep_terminal_outbox_inline split: prod.splits)
    with sweep show ?thesis by simp
  qed (use assms in simp_all)
qed

lemma external_keeps_live:
  assumes wf: "outbox_wf t" and r: "r \<in> set t" "live r" and op: "external_op op"
  shows "r \<in> set (apply_op anchor_of op t)"
proof (cases op rule: external_op.cases)
  case (1 now row)
  with assms show ?thesis
    by (auto intro!: after_keeps simp: enqueue_outbox_def dest!: run_sized_Inr intro: enqueue_one_keeps)
next
  case (2 now rows)
  with assms show ?thesis
    by (auto intro!: after_keeps simp: enqueue_outbox_batch_def split: if_splits
        dest!: run_sized_Inr validate_payloads_Inr intro: enqueue_rows_keeps)
next
  case (3 older n)
  with assms show ?thesis by (auto intro!: after_keeps intro: sweep_keeps)
qed (use op in simp_all)

section \<open>Every step keeps the invariant\<close>

lemma pump_invD:
  assumes "pump_inv s"
  shows "table_inv (ps_clock s) (ps_table s)" "sorted_wrt (<) (map ob_id (ps_tail s))"
    "\<And>row. row \<in> set (ps_tail s) \<Longrightarrow> claimed_in (ps_table s) row"
    "\<And>row p. row \<in> set (ps_tail s) \<Longrightarrow> p \<in> pending_ids (ps_table s) \<Longrightarrow> ob_id row < p"
    "\<And>i p. i \<in> ps_applied s \<Longrightarrow> p \<in> pending_ids (ps_table s) \<Longrightarrow> i < p"
    "\<And>i row. i \<in> settled_applied s \<Longrightarrow> row \<in> set (ps_tail s) \<Longrightarrow> i < ob_id row"
    "ps_applied s \<subseteq> ob_id ` set (ps_table s)"
  using assms unfolding pump_inv_def by blast+

lemma pump_invI:
  assumes "table_inv (ps_clock s) (ps_table s)" "sorted_wrt (<) (map ob_id (ps_tail s))"
    "\<And>row. row \<in> set (ps_tail s) \<Longrightarrow> claimed_in (ps_table s) row"
    "\<And>row p. row \<in> set (ps_tail s) \<Longrightarrow> p \<in> pending_ids (ps_table s) \<Longrightarrow> ob_id row < p"
    "\<And>i p. i \<in> ps_applied s \<Longrightarrow> p \<in> pending_ids (ps_table s) \<Longrightarrow> i < p"
    "\<And>i row. i \<in> settled_applied s \<Longrightarrow> row \<in> set (ps_tail s) \<Longrightarrow> i < ob_id row"
    "ps_applied s \<subseteq> ob_id ` set (ps_table s)"
  shows "pump_inv s"
  using assms unfolding pump_inv_def by blast

lemma claim_step_inv:
  assumes inv: "pump_inv s" and idle: "ps_tail s = []" "ps_open s = None" and clock: "ps_clock s \<le> now_value"
    and run: "claim_outbox_batch now now_value limit (ps_table s) = Inr (rows, t')"
  shows "pump_inv (s\<lparr>ps_table := t', ps_tail := rows, ps_clock := now_value\<rparr>)"
proof -
  note old = pump_invD [OF inv] and new = claim_facts [OF pump_invD(1) [OF inv] clock run]
  show ?thesis
  proof (rule pump_invI, goal_cases)
    case (5 i p)
    with old(5) new(7) show ?case by auto
  next
    case (6 i row)
    then have "i \<in> ps_applied s" "ob_id row \<in> pending_ids (ps_table s)"
      using new(4) idle by (auto simp: settled_applied_def)
    with old(5) show ?case by blast
  next
    case 7
    with old(7) map_id_set [OF new(2)] show ?case by simp
  qed (use new in auto)
qed

lemma send_step_inv:
  assumes inv: "pump_inv s" and tail: "ps_tail s = row # rest" "ps_open s = None"
  shows "pump_inv (s\<lparr>ps_open := Some res,
     ps_attempts := insert (ob_id row, res) (ps_attempts s)\<rparr>)"
proof -
  note old = pump_invD [OF inv]
  have row: "ob_id row \<in> ob_id ` set (ps_table s)" "\<And>p. p \<in> pending_ids (ps_table s) \<Longrightarrow> ob_id row < p"
    using old(3,4) [of row] tail by (auto simp: claimed_in_def image_iff intro: sym)
  show ?thesis
  proof (rule pump_invI, goal_cases)
    case (5 i p)
    with old(5) row(2) show ?case by (auto split: if_splits)
  next
    case (6 i x)
    then have "i \<in> ps_applied s" using tail by (auto simp: settled_applied_def split: if_splits)
    then have "i \<in> settled_applied s" using tail by (simp add: settled_applied_def)
    with 6 old(6) show ?case by simp
  next
    case 7
    with old(7) row(1) show ?case by auto
  qed (use old in auto)
qed

lemma settle_step_inv:
  assumes inv: "pump_inv s" and tail: "ps_tail s = row # rest" "ps_open s = Some res"
    and run: "settle c tries now config row res (ps_table s) = (outcome, t')"
  shows "pump_inv (s\<lparr>ps_table := t', ps_open := None, ps_tail := (if outcome = Deferred then [] else rest)\<rparr>)"
proof -
  note old = pump_invD [OF inv]
  have inv': "table_inv (ps_clock s) t'" using settle_inv [OF old(1)] run by (metis snd_conv)
  have eff: "receipt_effect (ob_id row) outcome (ps_table s) t'" using run by (rule settle_effect)
  have rest: "\<And>x. x \<in> set rest \<Longrightarrow> ob_id row < ob_id x" using old(2) tail by simp
  have split: "i = ob_id row \<or> i \<in> settled_applied s" if "i \<in> ps_applied s" for i
    using that tail by (auto simp: settled_applied_def)
  show ?thesis
  proof (cases outcome)
    case Resolved
    with eff have "t' = ps_table s \<or> retired (ob_id row) (ps_table s) t'" by (simp add: receipt_effect_def)
    then have tab: "map ob_id t' = map ob_id (ps_table s)" "pending_ids t' \<subseteq> pending_ids (ps_table s)"
      "\<And>x. x \<in> set rest \<Longrightarrow> claimed_in t' x"
      using retired_facts(1,2) [of "ob_id row" "ps_table s" t'] old(3) tail rest
        retired_facts(3) [of "ob_id row" "ps_table s" t'] by fastforce+
    show ?thesis
    proof (rule pump_invI, goal_cases)
      case (6 i x)
      then have "i \<in> ps_applied s" "x \<in> set rest" using Resolved by (auto simp: settled_applied_def)
      with split [of i] rest old(6) tail show ?case by auto
    next
      case 7
      with old(7) map_id_set [OF tab(1)] show ?case by simp
    qed (use Resolved old tab inv' tail in auto)
  next
    case Deferred
    then have "\<not> final_request res" using final_request_resolved [of res c tries now config row] run
      by (metis fst_conv process_outcome.distinct(1))
    then have "settled_applied s = ps_applied s" using tail by (simp add: settled_applied_def)
    with old(6) tail have below: "\<And>i. i \<in> ps_applied s \<Longrightarrow> i < ob_id row" by auto
    from eff Deferred have "parked (ob_id row) (ps_table s) t'" by (simp add: receipt_effect_def)
    note tab = parked_facts [OF this]
    show ?thesis
    proof (rule pump_invI, goal_cases)
      case (5 i p)
      then have "i \<in> ps_applied s" "p \<in> pending_ids (ps_table s) \<or> ob_id row \<le> p" using tab(2) by auto
      with old(5) below show ?case by force
    next
      case 7
      with old(7) map_id_set [OF tab(1)] show ?case by simp
    qed (use Deferred inv' in auto)
  qed
qed

lemma release_step_inv:
  assumes inv: "pump_inv s" and tail: "ps_tail s = row # rest" "ps_open s = None"
    and clock: "ps_clock s \<le> rt_now (tries 0)" "\<And>k. rt_now (tries k) \<le> rt_now (tries (k + 1))"
  shows "pump_inv (s\<lparr>ps_table := release_tail tries 0 (row # rest) (ps_table s), ps_tail := [],
     ps_clock := rt_now (tries (length rest))\<rparr>)"
proof -
  note old = pump_invD [OF inv]
  note tab = release_tail_facts [OF old(1) clock, of rest row]
  show ?thesis
  proof (rule pump_invI, goal_cases)
    case (5 i p)
    then have i: "i \<in> ps_applied s" "p \<in> pending_ids (ps_table s) \<union> ob_id ` set (row # rest)"
      using tab by auto
    moreover have "i \<in> settled_applied s" using i tail by (simp add: settled_applied_def)
    ultimately show ?case using old(5,6) tail by auto
  next
    case 7
    with old(7) map_id_set [OF tab [THEN conjunct2, THEN conjunct1]] show ?case by simp
  qed (use tab in auto)
qed

lemma other_step_inv:
  assumes inv: "pump_inv s" and op: "external_op op" and t': "t' = apply_op anchor_of op (ps_table s)"
  shows "pump_inv (s\<lparr>ps_table := t', ps_attempts := surviving_attempts (ps_table s) t' (ps_attempts s)\<rparr>)"
proof -
  note old = pump_invD [OF inv]
  let ?t = "ps_table s"
  have wf: "outbox_wf ?t" "fifo (ps_clock s) ?t" using old(1) by (simp_all add: table_inv_def)
  have "tick (ps_clock s) op = Some (ps_clock s)" using op by (cases op rule: external_op.cases) simp_all
  then have inv': "table_inv (ps_clock s) t'"
    unfolding t' table_inv_def using apply_op_wf [OF wf(1)] apply_op_fifo [OF wf] by blast
  obtain P news where shape: "t' = filter P ?t @ news" "list_all (\<lambda>r. ob_state r = Pending) news"
    using external_shape [OF op] unfolding t' by blast
  have order: "ob_id r < ob_id n" if "r \<in> set (filter P ?t)" "n \<in> set news" for r n
    using inv' that by (auto simp: table_inv_def outbox_wf_def shape(1) sorted_wrt_append)
  have pend: "p \<in> pending_ids ?t \<or> p \<in> ob_id ` set news" if "p \<in> pending_ids t'" for p
    using that by (auto simp: pending_ids_def shape(1))
  have below: "ob_id r < p" if "p \<in> ob_id ` set news" "r \<in> set t'" "ob_state r \<noteq> Pending" for r p
    using that order shape by (auto simp: list_all_iff)
  have kept: "r \<in> set t'" if "r \<in> set ?t" "live r" for r
    unfolding t' using external_keeps_live [OF wf(1) that op] .
  have applied: "\<exists>r\<in>set t'. ob_id r = i \<and> ob_state r \<noteq> Pending \<and> i \<in> ps_applied s"
    if "i \<in> surviving ?t t' (ps_applied s)" for i
  proof -
    from that obtain r where r: "r \<in> set ?t" "r \<in> set t'" "ob_id r = i" "i \<in> ps_applied s"
      by (auto simp: surviving_def)
    moreover have "ob_state r \<noteq> Pending" using old(5) [OF r(4), of i] r by (auto simp: pending_ids_def)
    ultimately show ?thesis by blast
  qed
  have tail: "\<exists>r\<in>set t'. ob_id r = ob_id row \<and> ob_state r = Sending \<and> r \<in> set ?t \<and>
      ob_attempts r = ob_attempts row \<and> ob_payload_json r = ob_payload_json row"
    if "row \<in> set (ps_tail s)" for row
    using old(3) [OF that] kept by (fastforce simp: claimed_in_def live_def)
  have sub: "surviving ?t t' (ps_applied s) \<subseteq> ps_applied s" by (auto simp: surviving_def)
  show ?thesis
  proof (rule pump_invI, goal_cases)
    case (3 row)
    with tail show ?case by (fastforce simp: claimed_in_def)
  next
    case (4 row p)
    with pend [of p] old(4) tail [of row] below show ?case by fastforce
  next
    case (5 i p)
    with pend [of p] old(5) applied [of i] below show ?case by fastforce
  next
    case (6 i row)
    then have "i \<in> settled_applied s" using sub
      by (auto simp: settled_applied_def split: option.splits list.splits if_splits)
    with 6 old(6) show ?case by simp
  next
    case 7
    with applied show ?case by fastforce
  qed (use old inv' in auto)
qed

lemma crash_step_inv:
  assumes inv: "pump_inv s" and t': "t' = ps_table s \<or> t' = after (recover_sending_outbox now) (ps_table s)"
  shows "pump_inv (s\<lparr>ps_table := t', ps_tail := [], ps_open := None\<rparr>)"
proof -
  note old = pump_invD [OF inv]
  let ?u = "update_where (\<lambda>r. ob_state r = Sending) (\<lambda>r. r\<lparr>ob_state := UncertainDelivery, ob_updated_ms := now\<rparr>)
              (ps_table s)"
  have rec: "recover_sending_outbox now (ps_table s) = Inr (length (filter (\<lambda>r. ob_state r = Sending) (ps_table s)), ?u)"
    by (simp add: recover_sending_outbox_def)
  have "table_inv (ps_clock s) ?u"
    using old(1) rec by (auto simp: table_inv_def intro: recover_sending_outbox_wf recover_sending_outbox_fifo)
  moreover have "map ob_id ?u = map ob_id (ps_table s)" by (rule map_update_where) simp
  moreover have "pending_ids ?u = pending_ids (ps_table s)"
    by (force simp: pending_ids_def set_update_where)
  moreover have "t' = ps_table s \<or> t' = ?u" using t' rec by (simp add: after_def)
  ultimately have tab: "table_inv (ps_clock s) t'" "map ob_id t' = map ob_id (ps_table s)"
    "pending_ids t' = pending_ids (ps_table s)" using old(1) by metis+
  show ?thesis
  proof (rule pump_invI, goal_cases)
    case (5 i p)
    with old(5) tab(3) show ?case by simp
  next
    case 7
    with old(7) map_id_set [OF tab(2)] show ?case by simp
  qed (use tab in auto)
qed

lemma pump_step_inv: "pump_step c decode_op config anchor_of s s' \<Longrightarrow> pump_inv s \<Longrightarrow> pump_inv s'"
  by (induction rule: pump_step.induct)
    (blast intro: claim_step_inv send_step_inv settle_step_inv release_step_inv other_step_inv crash_step_inv)+

lemma pump_init_inv: "pump_inv (pump_init T)"
  by (simp add: pump_init_def pump_inv_def table_inv_def outbox_wf_def fifo_Nil pending_ids_def)

lemma reachable_inv: "pump_reachable c decode_op config anchor_of s \<Longrightarrow> pump_inv s"
  by (induction rule: pump_reachable.induct) (auto intro: pump_init_inv pump_step_inv)

section \<open>At most once\<close>

text \<open>Only the operations that patch a card can fail as a card patch.\<close>

fun patches_card :: "'spec outbox_operation \<Rightarrow> bool" where
  "patches_card (UpdateProgressCard _ _) = True"
| "patches_card (FinalizeProgressCard _ _ _ _ _ _) = True"
| "patches_card _ = False"

lemma attempt_card_patch:
  assumes "attempt decode_op deliver lookup_fault t row = Some (operation, Inl (SfCardPatch e))"
  shows "patches_card operation"
  using assms
  by (cases operation)
    (auto simp: attempt_def split: sum.splits progress_anchor.splits)

lemma attempts_from_send:
  assumes "pump_reachable c decode_op config anchor_of s" "(i, Some (operation, Inl (SfCardPatch e))) \<in> ps_attempts s"
  shows "patches_card operation"
  using assms
proof (induction rule: pump_reachable.induct)
  case (start T)
  then show ?case by (simp add: pump_init_def)
next
  case (step s s')
  from step.hyps(2) step.IH step.prems show ?case
    by (cases rule: pump_step.cases) (auto simp: surviving_attempts_def dest: attempt_card_patch [OF sym])
qed


text \<open>A run: two rows are queued, claimed, and the first one delivered.\<close>

definition demo_decode :: "string \<Rightarrow> (outbox_error, string outbox_operation) result" where
  "demo_decode _ = Inr (ReplyText ''m'' None ''x'')"

definition demo_try :: "nat \<Rightarrow> receipt_try" where
  "demo_try k = \<lparr>rt_fault = None, rt_now = 6, rt_stop = False\<rparr>"

definition demo_queued :: outbox_table where
  "demo_queued = apply_op (\<lambda>_. None) (OpEnqueueBatch 1 [plain_row ''a'', plain_row ''b'']) []"

definition demo_claimed :: "outbox_row list \<times> outbox_table" where
  "demo_claimed = projr (claim_outbox_batch 3 3 64 demo_queued)"

lemma demo_run:
  "\<exists>row rest t. fst demo_claimed = row # rest \<and> rest \<noteq> [] \<and>
     pump_reachable tagged_codec demo_decode default_pump_config (\<lambda>_. None)
       \<lparr>ps_table = t, ps_tail = rest, ps_open = None,
         ps_attempts = {(ob_id row, Some (ReplyText ''m'' None ''x'', Inr ''r''))}, ps_clock = 3\<rparr>"
proof -
  let ?reach = "pump_reachable tagged_codec demo_decode default_pump_config (\<lambda>_. None)"
  let ?step = "pump_step tagged_codec demo_decode default_pump_config (\<lambda>_. None)"
  let ?res = "Some (ReplyText ''m'' None ''x'', Inr ''r'') :: string attempt_result"
  let ?s1 = "\<lparr>ps_table = demo_queued, ps_tail = [], ps_open = None, ps_attempts = {}, ps_clock = 0\<rparr>"
  have claimed: "claim_outbox_batch 3 3 64 demo_queued = Inr (fst demo_claimed, snd demo_claimed)"
    by (simp add: demo_claimed_def claim_outbox_batch_def Let_def)
  obtain row rest where rows: "fst demo_claimed = row # rest" "rest \<noteq> []"
    by (simp add: demo_claimed_def demo_queued_def enqueue_outbox_batch_def outbox_eval)
  obtain t where settled: "settle tagged_codec demo_try 6 default_pump_config row ?res (snd demo_claimed) = (Resolved, t)"
    by simp
  let ?s2 = "?s1\<lparr>ps_table := snd demo_claimed, ps_tail := row # rest, ps_clock := 3\<rparr>"
  let ?s3 = "?s2\<lparr>ps_open := Some ?res, ps_attempts := {(ob_id row, ?res)}\<rparr>"
  let ?s4 = "?s3\<lparr>ps_table := t, ps_open := None, ps_tail := rest\<rparr>"
  have "?step (pump_init 0) ?s1"
    using pump_step.other [of "OpEnqueueBatch 1 [plain_row ''a'', plain_row ''b'']" demo_queued "\<lambda>_. None" "pump_init 0"]
    by (simp add: pump_init_def demo_queued_def surviving_attempts_def)
  moreover have "?step ?s1 ?s2"
    using pump_step.claim [of ?s1 3 3 default_pump_config "row # rest" "snd demo_claimed"] claimed rows(1)
    by (simp add: default_pump_config_def STORE_OUTBOX_CLAIM_MAX_BATCH_def)
  moreover have "?step ?s2 ?s3"
    using pump_step.send [of ?s2 row rest ?res demo_decode "\<lambda>_. Inr ''r''" None]
    by (simp add: attempt_def demo_decode_def)
  moreover have "?step ?s3 ?s4"
    using pump_step.settle [of ?s3 row rest ?res tagged_codec demo_try 6 default_pump_config Resolved t] settled
    by (simp del: settle.simps)
  ultimately have "?reach ?s4"
    by (meson pump_reachable.start pump_reachable.step)
  with rows show ?thesis by auto
qed


text \<open>
  With the production limits the first failure of a row delays it by half a second, doubling per
  further failure, never by more than thirty seconds and never by nothing.
\<close>

theorem retry_delay_is_capped_exponential:
  "retry_delay_ms (Suc n) default_pump_config = min (500 * 2 ^ min n 10) 30000"
proof -
  have "(2::nat) ^ min n 10 \<le> 2 ^ 10" by (rule power_increasing) simp_all
  then have "500 * (2::nat) ^ min n 10 \<le> 512000" by simp
  then have "sat_mul_u64 500 (2 ^ min n 10) = 500 * 2 ^ min n 10"
    by (simp add: sat_mul_u64_def u64_max_def)
  moreover have "as_millis OUTBOX_RETRY_BASE = 500" "as_millis OUTBOX_RETRY_MAX = 30000"
    by (simp_all add: OUTBOX_RETRY_BASE_def OUTBOX_RETRY_MAX_def as_millis_def from_millis_def from_secs_def)
  ultimately have "retry_delay_ms (Suc n) default_pump_config = min (int (min (500 * 2 ^ min n 10) 30000)) i64_max"
    by (simp add: retry_delay_ms_def default_pump_config_def u64_max_def)
  also have "\<dots> = min (500 * 2 ^ min n 10) 30000"
    by (simp add: of_nat_min i64_max_def)
  finally show ?thesis .
qed

end
