(* ===== verification/Outbox_Outcomes.thy ===== *)
theory Outbox_Outcomes
  imports Outbox_Pump_Safety
begin

text \<open>
  Where each answer leads. \<open>expected_state\<close> is the delivery contract of the outbox as a table: the state
  a claimed row is in once the answer to its attempt is recorded. The pump's routines implement it
  whenever the store accepts the receipt.
\<close>

section \<open>The contract\<close>

definition retry_state :: "nat \<Rightarrow> outbox_state" where
  "retry_state attempts = (if attempts + 1 < STORE_OUTBOX_MAX_ATTEMPTS then Pending else Failed)"

fun expected_state :: "nat \<Rightarrow> 'spec attempt_result \<Rightarrow> outbox_state" where
  "expected_state n None = Failed"
| "expected_state n (Some (operation, Inr message_id)) = (if message_id = [] then UncertainDelivery else Sent)"
| "expected_state n (Some (operation, Inl (SfDelivery e))) =
     (case de_class e of FRetryable \<Rightarrow> retry_state n | FUncertain \<Rightarrow> UncertainDelivery | FDefinitive \<Rightarrow> Failed)"
| "expected_state n (Some (operation, Inl (SfCardPatch e))) =
     (if de_patch_retryable e \<and> retry_state n = Pending then Pending
      else if de_class e = FUncertain then UncertainDelivery
      else if is_finalize operation then Pending
      else Failed)"
| "expected_state n (Some (operation, Inl (SfStore e))) = retry_state n"
| "expected_state n (Some (operation, Inl SfDependencyPending)) = retry_state n"
| "expected_state n (Some (operation, Inl SfDependencyPermanent)) = Failed"
| "expected_state n (Some (operation, Inl SfDependencyUncertain)) = UncertainDelivery"

text \<open>
  The store accepts the receipt: the first write meets no fault, a message id fits in one store
  request, and a fallback post, where one is due, can be encoded and fits the queue's byte limits.
\<close>

definition fallback_fits :: "'spec json_codec \<Rightarrow> outbox_row \<Rightarrow> 'spec outbox_operation \<Rightarrow> outbox_table \<Rightarrow> bool" where
  "fallback_fits c row operation t =
     (case operation of
        FinalizeProgressCard anchor_key message_id thread_id text' fallback_markdown phase \<Rightarrow>
          (case encode c (ReplyMarkdownPost message_id thread_id fallback_markdown) of
             Inl e \<Rightarrow> False
           | Inr payload \<Rightarrow> \<forall>now. is_ok (replace_outbox_with_fallback now (ob_id row) payload t))
      | _ \<Rightarrow> True)"

fun receipt_accepted ::
    "'spec json_codec \<Rightarrow> (nat \<Rightarrow> receipt_try) \<Rightarrow> outbox_row \<Rightarrow> 'spec attempt_result \<Rightarrow> outbox_table \<Rightarrow> bool" where
  "receipt_accepted c tries row (Some (operation, Inr message_id)) t =
     (rt_fault (tries 0) = None \<and> length message_id \<le> STORE_REQUEST_MAX_BYTES)"
| "receipt_accepted c tries row (Some (operation, Inl (SfCardPatch e))) t =
     (rt_fault (tries 0) = None \<and> fallback_fits c row operation t)"
| "receipt_accepted c tries row res t = (rt_fault (tries 0) = None)"

section \<open>Healthy writes\<close>

lemma healthy_write:
  assumes "rt_fault (tries 0) = None" "w (rt_now (tries 0)) t = Inr (a, t')"
  shows "write_receipt tries w t = (Inr a, t')"
  using assms by (simp add: write_receipt_def write_once_def STORE_RECEIPT_WRITE_ATTEMPTS_def eval_nat_numeral)

lemma row_by_id_update:
  assumes "\<And>r. ob_id (f r) = ob_id r"
  shows "row_by_id (update_where (\<lambda>r. ob_id r = i) f t) i = map_option f (row_by_id t i)"
  using assms by (induction t) (auto simp: row_by_id_def)

lemma row_by_id_park: "row_by_id (park_successors now i retry t) i = row_by_id t i"
  by (induction t) (auto simp: row_by_id_def park_successors_def)

lemma claimed_row:
  assumes "outbox_wf t" "claimed_in t row"
  obtains r where "row_by_id t (ob_id row) = Some r" "ob_state r = Sending" "ob_attempts r = ob_attempts row"
    "ob_payload_json r = ob_payload_json row" "\<And>ctx. require_sending t (ob_id row) ctx = Inr (ob_attempts row)"
    "sat_add_u32 (ob_attempts row) 1 = ob_attempts row + 1" "ob_attempts row < STORE_OUTBOX_MAX_ATTEMPTS"
proof -
  from assms(2) obtain r where r: "r \<in> set t" "ob_id r = ob_id row" "ob_state r = Sending"
    "ob_attempts r = ob_attempts row" "ob_payload_json r = ob_payload_json row"
    unfolding claimed_in_def by blast
  have look: "row_by_id t (ob_id row) = Some r" using row_by_id_unique [OF assms(1) r(1)] r(2) by simp
  have "row_wf r" using assms(1) r(1) by (auto simp: outbox_wf_def list_all_iff)
  with r have lt: "ob_attempts row < STORE_OUTBOX_MAX_ATTEMPTS" by (simp add: row_wf_def live_def)
  then have "sat_add_u32 (ob_attempts row) 1 = ob_attempts row + 1"
    by (simp add: sat_add_u32_def u32_max_def STORE_OUTBOX_MAX_ATTEMPTS_def)
  with r look lt show thesis by (intro that [of r]) (auto simp: require_sending_def)
qed

lemma record_failure_state:
  assumes "outbox_wf t" "claimed_in t row" "rt_fault (tries 0) = None"
  shows "map_option ob_state (row_by_id (snd (record_failure tries now config row cls t)) (ob_id row)) =
     Some (case cls of CRetryable \<Rightarrow> retry_state (ob_attempts row) | CUncertain \<Rightarrow> UncertainDelivery
             | CPermanent \<Rightarrow> Failed)"
proof -
  obtain r where r: "row_by_id t (ob_id row) = Some r"
    "\<And>ctx. require_sending t (ob_id row) ctx = Inr (ob_attempts row)"
    "sat_add_u32 (ob_attempts row) 1 = ob_attempts row + 1"
    using claimed_row [OF assms(1,2)] by metis
  let ?now = "rt_now (tries 0)" and ?n = "ob_attempts row + 1"
  let ?retry = "sat_add_i64 now (retry_delay_ms ?n config)"
  let ?f = "\<lambda>s retry x. x\<lparr>ob_state := s, ob_attempts := ?n, ob_next_retry_ms := retry, ob_updated_ms := ?now\<rparr>"
  let ?u = "\<lambda>f. update_where (\<lambda>x. ob_id x = ob_id row) f t"
  show ?thesis
  proof (cases cls)
    case CRetryable
    have "fail_outbox_and_defer_successors ?now (ob_id row) ?n ?retry t =
        Inr (?n < STORE_OUTBOX_MAX_ATTEMPTS,
             if ?n < STORE_OUTBOX_MAX_ATTEMPTS then park_successors ?now (ob_id row) ?retry (?u (?f Pending ?retry))
             else ?u (?f Failed ?retry))"
      using r(2,3) by (simp add: fail_outbox_and_defer_successors_def Let_def)
    from healthy_write [where tries = tries and w = "\<lambda>now'. fail_outbox_and_defer_successors now' (ob_id row) ?n ?retry", OF assms(3) this]
    show ?thesis
      using CRetryable r
      by (simp add: record_failure_def Let_def retry_state_def row_by_id_park row_by_id_update)
  next
    case CUncertain
    have "fail_outbox ?now (ob_id row) ?n ?now True t = Inr ((), ?u (?f UncertainDelivery ?now))"
      using r(2,3) by (simp add: fail_outbox_def Let_def)
    from healthy_write [where tries = tries and w = "\<lambda>now. fail_outbox now (ob_id row) ?n now True", OF assms(3) this]
    show ?thesis using CUncertain r by (simp add: record_failure_def Let_def row_by_id_update)
  next
    case CPermanent
    have "fail_outbox_terminal ?now (ob_id row) t =
        Inr ((), ?u (\<lambda>x. x\<lparr>ob_state := Failed, ob_updated_ms := ?now\<rparr>))"
      using r(2) by (simp add: fail_outbox_terminal_def)
    from healthy_write [where tries = tries and w = "\<lambda>now. fail_outbox_terminal now (ob_id row)", OF assms(3) this]
    show ?thesis using CPermanent r by (simp add: record_failure_def Let_def row_by_id_update)
  qed
qed

lemma record_states:
  assumes "outbox_wf t" "claimed_in t row" "rt_fault (tries 0) = None"
  shows "map_option ob_state (row_by_id (snd (record_failure tries now config row CRetryable t)) (ob_id row)) =
           Some (retry_state (ob_attempts row))"
    and "map_option ob_state (row_by_id (snd (record_failure tries now config row CUncertain t)) (ob_id row)) =
           Some UncertainDelivery"
    and "map_option ob_state (row_by_id (snd (record_failure tries now config row CPermanent t)) (ob_id row)) =
           Some Failed"
  using record_failure_state [where tries = tries, OF assms, of now config CRetryable]
    record_failure_state [where tries = tries, OF assms, of now config CUncertain]
    record_failure_state [where tries = tries, OF assms, of now config CPermanent] by simp_all

lemma complete_state:
  assumes "outbox_wf t" "claimed_in t row" "rt_fault (tries 0) = None"
    "length message_id \<le> STORE_REQUEST_MAX_BYTES"
  shows "map_option (\<lambda>r. (ob_state r, ob_receipt_message_id r))
     (row_by_id (snd (write_receipt tries (\<lambda>now. complete_outbox now (ob_id row) message_id) t)) (ob_id row)) =
     Some (Sent, Some message_id)"
proof -
  obtain r where r: "row_by_id t (ob_id row) = Some r"
    "\<And>ctx. require_sending t (ob_id row) ctx = Inr (ob_attempts row)"
    using claimed_row [OF assms(1,2)] by metis
  let ?u = "update_where (\<lambda>x. ob_id x = ob_id row) (\<lambda>x. x\<lparr>ob_state := Sent,
      ob_receipt_message_id := Some message_id, ob_updated_ms := rt_now (tries 0)\<rparr>) t"
  have "request_bytes [message_id] \<le> STORE_REQUEST_MAX_BYTES \<and> request_bytes [message_id] \<le> STORE_WRITER_BYTE_BUDGET"
    using assms(4) by (simp add: request_bytes_def sat_add_u64_def limit_defs min_le_iff_disj)
  then have "complete_outbox (rt_now (tries 0)) (ob_id row) message_id t = Inr ((), ?u)"
    using r(2) by (simp add: complete_outbox_def run_sized_def)
  from healthy_write [where tries = tries and w = "\<lambda>now. complete_outbox now (ob_id row) message_id", OF assms(3) this] r
  show ?thesis by (simp add: row_by_id_update)
qed

lemma replace_state:
  assumes "replace_outbox_with_fallback now i payload t = Inr (a, t')" "row_by_id t i = Some r"
  shows "row_by_id t' i = Some (r\<lparr>ob_payload_json := payload, ob_payload_bytes := length payload,
     ob_state := Pending, ob_attempts := 0, ob_next_retry_ms := now, ob_updated_ms := now\<rparr>)"
  using assms
  by (auto simp: replace_outbox_with_fallback_def Let_def row_by_id_park row_by_id_update split: if_splits)

lemma fallback_state:
  assumes "outbox_wf t" "claimed_in t row" "rt_fault (tries 0) = None" "is_finalize operation"
    "fallback_fits c row operation t"
    "\<not> (de_patch_retryable error \<and> retry_state (ob_attempts row) = Pending)" "de_class error \<noteq> FUncertain"
  shows "map_option ob_state (row_by_id (snd (record_final_card_patch_failure c tries now config row operation error t))
     (ob_id row)) = Some Pending"
proof -
  obtain r where r: "row_by_id t (ob_id row) = Some r" "sat_add_u32 (ob_attempts row) 1 = ob_attempts row + 1"
    using claimed_row [OF assms(1,2)] by metis
  have retry: "retry_state (ob_attempts row) = Pending \<longleftrightarrow> ob_attempts row + 1 < STORE_OUTBOX_MAX_ATTEMPTS"
    by (simp add: retry_state_def)
  show ?thesis
  proof (cases "de_class error = FRetryable \<and> ob_attempts row + 1 < STORE_OUTBOX_MAX_ATTEMPTS")
    case True
    with record_states(1) [where tries = tries, OF assms(1-3), of now config] r(2) assms(6,7) retry show ?thesis
      by (auto simp: record_final_card_patch_failure_def Let_def)
  next
    case False
    from assms(4) obtain k m th x fb ph where op: "operation = FinalizeProgressCard k m th x fb ph"
      by (cases operation) auto
    with assms(5) obtain payload where enc: "encode c (ReplyMarkdownPost m th fb) = Inr payload"
      and ok: "\<And>now. is_ok (replace_outbox_with_fallback now (ob_id row) payload t)"
      by (auto simp: fallback_fits_def split: sum.splits)
    from ok [of "rt_now (tries 0)"] obtain t' where
      run: "replace_outbox_with_fallback (rt_now (tries 0)) (ob_id row) payload t = Inr ((), t')"
      by (cases "replace_outbox_with_fallback (rt_now (tries 0)) (ob_id row) payload t") auto
    have "write_receipt tries (\<lambda>now. replace_outbox_with_fallback now (ob_id row) payload) t = (Inr (), t')"
      by (rule healthy_write) (use assms(3) run in simp_all)
    then have "snd (record_final_card_patch_failure c tries now config row operation error t) = t'"
      using False assms(6,7) r(2) retry enc op by (auto simp: record_final_card_patch_failure_def Let_def)
    with replace_state [OF run r(1)] show ?thesis by simp
  qed
qed

section \<open>Properties\<close>

text \<open>
  C33: the pump implements the delivery contract. Whatever the attempt for a claimed row returned, once
  the store accepts the receipt the row is in the state the contract names.
\<close>

theorem settle_implements_contract:
  assumes "outbox_wf t" "claimed_in t row" "receipt_accepted c tries row res t"
  shows "map_option ob_state (row_by_id (snd (settle c tries now config row res t)) (ob_id row)) =
         Some (expected_state (ob_attempts row) res)"
proof (cases res rule: maybe_applied.cases)
  case (1 operation message_id)
  have n: "sat_add_u32 (ob_attempts row) 1 = ob_attempts row + 1" using claimed_row [OF assms(1,2)] by metis
  show ?thesis
  proof (cases "message_id = []")
    case True
    with 1 record_states(2) [OF assms(1,2), of tries now config] assms(3) n show ?thesis
      by (simp add: record_failure_def Let_def)
  next
    case False
    then show ?thesis
      using 1 complete_state [OF assms(1,2), of tries message_id] assms(3)
      by (auto simp: map_option_case split: option.splits)
  qed
next
  case (2 operation e)
  with record_states [OF assms(1,2), of tries now config] assms(3) show ?thesis
    by (cases "de_class e") simp_all
next
  case (3 operation e)
  have n: "sat_add_u32 (ob_attempts row) 1 = ob_attempts row + 1" using claimed_row [OF assms(1,2)] by metis
  have healthy: "rt_fault (tries 0) = None" and fits: "fallback_fits c row operation t" using assms(3) 3 by simp_all
  note fail = record_states [where tries = tries, OF assms(1,2) healthy, of now config]
  have retry: "retry_state (ob_attempts row) = Pending \<longleftrightarrow> ob_attempts row + 1 < STORE_OUTBOX_MAX_ATTEMPTS"
    by (simp add: retry_state_def)
  show ?thesis
  proof (cases "is_finalize operation \<and> \<not> (de_patch_retryable e \<and> retry_state (ob_attempts row) = Pending) \<and>
                de_class e \<noteq> FUncertain")
    case True
    then show ?thesis
      using fallback_state [where tries = tries, OF assms(1,2) healthy _ fits, of e now config] 3
      by (auto simp: record_card_patch_failure_def)
  next
    case False
    then show ?thesis
      using 3 fail n retry
      by (auto simp: record_card_patch_failure_def record_final_card_patch_failure_def Let_def)
  qed
next
  case "4_1"
  with record_states(3) [OF assms(1,2), of tries now config] assms(3) show ?thesis
    by (simp add: record_failure_def Let_def)
qed (use assms(3) record_states [OF assms(1,2), of tries now config] in simp_all)

theorem settle_implements_contract_witness:
  "\<exists>t row. outbox_wf t \<and> claimed_in t row \<and>
     map_option ob_state (row_by_id (snd (settle tagged_codec demo_try 6 default_pump_config row
       (Some (ReplyText ''m'' None ''x'', Inr ''r'')) t)) (ob_id row)) = Some Sent"
proof -
  let ?t = "fold (apply_op (\<lambda>_. None)) [OpEnqueue 1 (plain_row ''a''), OpClaim 3 3 2] []"
  have wf: "outbox_wf ?t" by (rule program_run [of 0 _ 3, THEN conjunct1]) simp
  obtain row where row: "?t = [row]" "ob_state row = Sending" by (simp add: outbox_eval)
  then have claimed: "claimed_in ?t row" by (simp add: claimed_in_def)
  have ok: "receipt_accepted tagged_codec demo_try row (Some (ReplyText ''m'' None ''x'', Inr ''r'')) ?t"
    by (simp add: demo_try_def limit_defs)
  from settle_implements_contract [OF wf claimed ok, of 6 default_pump_config] wf claimed show ?thesis
    by (intro exI [of _ ?t] exI [of _ row]) (simp del: settle.simps)
qed

section \<open>Fallback posts\<close>

text \<open>Every receipt but the fallback leaves the payloads alone.\<close>

definition payloads :: "outbox_table \<Rightarrow> (int \<times> string) list" where
  "payloads t = map (\<lambda>r. (ob_id r, ob_payload_json r)) t"

lemma payloads_update:
  "(\<And>r. ob_id (f r) = ob_id r) \<Longrightarrow> (\<And>r. ob_payload_json (f r) = ob_payload_json r) \<Longrightarrow>
     payloads (update_where P f t) = payloads t"
  unfolding payloads_def by (rule map_update_where) simp

lemma payloads_park: "payloads (park_successors now i retry t) = payloads t"
  unfolding park_successors_def by (rule payloads_update) simp_all

lemma receipt_jobs_payloads:
  shows "complete_outbox now i receipt t = Inr (u, t') \<Longrightarrow> payloads t' = payloads t"
    and "fail_outbox now i n retry b t = Inr (u, t') \<Longrightarrow> payloads t' = payloads t"
    and "fail_outbox_terminal now i t = Inr (u, t') \<Longrightarrow> payloads t' = payloads t"
    and "fail_outbox_and_defer_successors now i n retry t = Inr (d, t') \<Longrightarrow> payloads t' = payloads t"
  by (auto simp: complete_outbox_def fail_outbox_def fail_outbox_terminal_def
      fail_outbox_and_defer_successors_def Let_def payloads_update payloads_park
      dest!: run_sized_Inr split: if_splits)

lemma write_payloads:
  "(\<And>now a t'. w now t = Inr (a, t') \<Longrightarrow> payloads t' = payloads t) \<Longrightarrow>
     payloads (snd (write_receipt tries w t)) = payloads t"
  by (rule receipt.keeps [where P = "\<lambda>t'. payloads t' = payloads t"]) simp_all

lemma write_jobs_payloads:
  "payloads (snd (write_receipt tries (\<lambda>now. complete_outbox now i receipt) t)) = payloads t"
  "payloads (snd (write_receipt tries (\<lambda>now. fail_outbox now i n now True) t)) = payloads t"
  "payloads (snd (write_receipt tries (\<lambda>now. fail_outbox_terminal now i) t)) = payloads t"
  by (rule write_payloads, erule receipt_jobs_payloads)+

lemma record_failure_payloads: "payloads (snd (record_failure tries now config row cls t)) = payloads t"
proof (cases cls)
  case CRetryable
  have "payloads (snd (write_receipt tries (\<lambda>now'. fail_outbox_and_defer_successors now' i n retry) t)) = payloads t"
    for i n retry
    by (rule write_payloads) (rule receipt_jobs_payloads)
  with CRetryable show ?thesis by (simp add: record_failure_def Let_def split: prod.splits) (metis snd_conv)
qed (auto simp: record_failure_def Let_def intro!: write_payloads dest: receipt_jobs_payloads)

lemma settle_payloads:
  assumes "payloads (snd (settle c tries now config row res t)) \<noteq> payloads t"
  shows "\<exists>k m th x fb ph e payload. res = Some (FinalizeProgressCard k m th x fb ph, Inl (SfCardPatch e)) \<and>
     de_class e \<noteq> FUncertain \<and> encode c (ReplyMarkdownPost m th fb) = Inr payload \<and>
     snd (settle c tries now config row res t) =
       snd (write_receipt tries (\<lambda>now. replace_outbox_with_fallback now (ob_id row) payload) t)"
proof (cases res rule: maybe_applied.cases)
  case (3 operation e)
  have "\<exists>k m th x fb ph payload. operation = FinalizeProgressCard k m th x fb ph \<and> de_class e \<noteq> FUncertain \<and>
      encode c (ReplyMarkdownPost m th fb) = Inr payload \<and>
      snd (record_final_card_patch_failure c tries now config row operation e t) =
        snd (write_receipt tries (\<lambda>now. replace_outbox_with_fallback now (ob_id row) payload) t)"
    using assms 3 record_failure_payloads
    by (auto simp: record_card_patch_failure_def record_final_card_patch_failure_def Let_def
        split: if_splits outbox_operation.splits sum.splits prod.splits)
  moreover have "is_finalize operation"
    using assms 3 record_failure_payloads by (auto simp: record_card_patch_failure_def Let_def split: if_splits)
  ultimately show ?thesis using 3 by (auto simp: record_card_patch_failure_def)
next
  case (1 operation message_id)
  then show ?thesis
    using assms by (auto simp: write_jobs_payloads split: if_splits)
next
  case "4_1"
  then show ?thesis using assms by (simp add: write_jobs_payloads)
qed (use assms record_failure_payloads in auto)

text \<open>
  A final answer is posted as a separate message only when its card certainly was not updated. If
  recording an attempt changes what a row would send, the attempt was a final card update that failed
  with a definite (not an uncertain) answer, and the row now holds the fallback post of that very
  answer, pending with a fresh attempt budget.
\<close>

theorem fallback_only_after_definite_failure:
  assumes "outbox_wf t" "claimed_in t row"
    and "payloads (snd (settle c tries now config row res t)) \<noteq> payloads t"
  shows "\<exists>k m th x fb ph e r. res = Some (FinalizeProgressCard k m th x fb ph, Inl (SfCardPatch e)) \<and>
     de_class e \<noteq> FUncertain \<and>
     row_by_id (snd (settle c tries now config row res t)) (ob_id row) = Some r \<and>
     encode c (ReplyMarkdownPost m th fb) = Inr (ob_payload_json r) \<and>
     ob_state r = Pending \<and> ob_attempts r = 0"
proof -
  from settle_payloads [OF assms(3)] obtain k m th x fb ph e payload where
    res: "res = Some (FinalizeProgressCard k m th x fb ph, Inl (SfCardPatch e))" "de_class e \<noteq> FUncertain"
      "encode c (ReplyMarkdownPost m th fb) = Inr payload" and
    tab: "snd (settle c tries now config row res t) =
       snd (write_receipt tries (\<lambda>now. replace_outbox_with_fallback now (ob_id row) payload) t)" by blast
  obtain r where r: "row_by_id t (ob_id row) = Some r" using claimed_row [OF assms(1,2)] by metis
  obtain result t' where
    w: "write_receipt tries (\<lambda>now. replace_outbox_with_fallback now (ob_id row) payload) t = (result, t')"
    by fastforce
  from w show ?thesis
  proof (cases rule: receipt.cases_write)
    case (wrote now' a)
    from replace_state [OF wrote(2) r] tab w res show ?thesis by auto
  next
    case (failed e')
    with assms(3) tab w show ?thesis by simp
  qed
qed

theorem fallback_only_after_definite_failure_witness:
  "\<exists>t row (r :: outbox_row). payloads t \<noteq> payloads (snd (settle tagged_codec demo_try 6 default_pump_config row
       (Some (FinalizeProgressCard ''k'' ''m'' None ''x'' ''f'' Done, Inl (SfCardPatch (delivery_error_new FDefinitive ''c'')))) t)) \<and>
     encode tagged_codec (ReplyMarkdownPost ''m'' None ''f'') = Inr (ob_payload_json r) \<and> ob_state r = Pending"
proof -
  let ?t = "fold (apply_op (\<lambda>_. None)) [OpEnqueue 1 (plain_row ''a''), OpClaim 3 3 2] []"
  let ?res = "Some (FinalizeProgressCard ''k'' ''m'' None ''x'' ''f'' Done,
      Inl (SfCardPatch (delivery_error_new FDefinitive ''c''))) :: string attempt_result"
  have wf: "outbox_wf ?t" by (rule program_run [of 0 _ 3, THEN conjunct1]) simp
  obtain row where row: "?t = [row]" "ob_state row = Sending" "ob_payload_json row = ''{}''"
      "ob_payload_bytes row = 2" "ob_attempts row = 0"
    by (simp add: outbox_eval)
  then have claimed: "claimed_in ?t row" by (simp add: claimed_in_def)
  obtain payload where enc: "encode tagged_codec (ReplyMarkdownPost ''m'' None ''f'') = Inr payload"
      and size: "length payload \<le> 100" "payload \<noteq> ''{}''"
    by (simp add: encode_def tagged_codec_def OUTBOX_PAYLOAD_VERSION_def limit_defs)
  have small: "\<not> 8388606 < length payload - 2" "\<not> 268435454 < length payload - 2" using size(1) by linarith+
  obtain t' where run: "replace_outbox_with_fallback 6 (ob_id row) payload [row] = Inr ((), t')"
      and t': "payloads t' = [(ob_id row, payload)]"
    using size(1) row(2-) small by (simp add: replace_outbox_with_fallback_def payloads_def outbox_eval)
  have "write_receipt demo_try (\<lambda>now. replace_outbox_with_fallback now (ob_id row) payload) [row] = (Inr (), t')"
    by (rule healthy_write) (use run in \<open>simp_all add: demo_try_def\<close>)
  then have "snd (settle tagged_codec demo_try 6 default_pump_config row ?res [row]) = t'"
    using enc by (simp add: record_card_patch_failure_def record_final_card_patch_failure_def Let_def)
  then have "payloads (snd (settle tagged_codec demo_try 6 default_pump_config row ?res [row])) \<noteq> payloads [row]"
    using t' size(2) row(3) by (simp add: payloads_def)
  then have changed: "payloads (snd (settle tagged_codec demo_try 6 default_pump_config row ?res ?t)) \<noteq> payloads ?t"
    unfolding row(1) .
  from fallback_only_after_definite_failure [OF wf claimed changed] obtain k m th x fb ph e and r :: outbox_row where
    "?res = Some (FinalizeProgressCard k m th x fb ph, Inl (SfCardPatch e))"
    "encode tagged_codec (ReplyMarkdownPost m th fb) = Inr (ob_payload_json r)" "ob_state r = Pending"
    by (elim exE conjE) (rule that, assumption+)
  then have "encode tagged_codec (ReplyMarkdownPost ''m'' None ''f'') = Inr (ob_payload_json r)" by simp
  then show ?thesis
    using \<open>ob_state r = Pending\<close> changed [symmetric] by (intro exI [of _ ?t] exI [of _ row] exI [of _ r]) (intro conjI)
qed

end
