(* ===== verification/Email_Mask.thy ===== *)
theory Email_Mask
  imports Bridge_Limits
begin

text \<open>
  The email mask of \<^verbatim>\<open>src/src/render/mod.rs\<close> (\<open>email_mask\<close>, \<open>EmailToken\<close>). The code classifies each
  whitespace-delimited token in one pass and decides all its \<open>@\<close> signs when the token ends; the reference
  definition \<open>mask_from\<close> decides each \<open>@\<close> where it stands, from what follows it in its token. They are
  shown equal, masking twice changes nothing, and no address is left. Positions are counted in
  characters where the code counts the UTF-8 bytes of the same characters.
\<close>

section \<open>Characters\<close>

text \<open>\<open>char::is_whitespace\<close>: the Unicode \<open>White_Space\<close> property.\<close>

definition is_whitespace :: "uchar \<Rightarrow> bool" where
  "is_whitespace c \<longleftrightarrow> 9 \<le> c \<and> c \<le> 13 \<or> c = 32 \<or> c = 133 \<or> c = 160 \<or> c = 5760 \<or>
     8192 \<le> c \<and> c \<le> 8202 \<or> c = 8232 \<or> c = 8233 \<or> c = 8239 \<or> c = 8287 \<or> c = 12288"

definition is_ascii_digit :: "uchar \<Rightarrow> bool" where
  "is_ascii_digit c \<longleftrightarrow> 48 \<le> c \<and> c \<le> 57"

definition is_ascii_alphabetic :: "uchar \<Rightarrow> bool" where
  "is_ascii_alphabetic c \<longleftrightarrow> 65 \<le> c \<and> c \<le> 90 \<or> 97 \<le> c \<and> c \<le> 122"

definition is_local_char :: "uchar \<Rightarrow> bool" where
  "is_local_char c \<longleftrightarrow> is_ascii_alphabetic c \<or> is_ascii_digit c \<or> c \<in> {46, 95, 37, 43, 45}"

abbreviation at_sign :: uchar where "at_sign \<equiv> 64"
abbreviation dot :: uchar where "dot \<equiv> 46"

definition at_mask :: ustring where
  "at_mask = [91, 97, 116, 93]"

section \<open>The code's one-pass mask\<close>

record email_token =
  et_start :: nat
  et_last_dot :: "nat option"
  et_label_chars :: nat
  et_label_alpha :: bool
  et_previous_is_local :: bool
  et_candidates :: "nat list"

definition token_default :: email_token where
  "token_default = \<lparr>et_start = 0, et_last_dot = None, et_label_chars = 0, et_label_alpha = False,
     et_previous_is_local = False, et_candidates = []\<rparr>"

definition token_observe :: "email_token \<Rightarrow> nat \<Rightarrow> uchar \<Rightarrow> email_token" where
  "token_observe tok index character =
     (let tok1 = (if character = at_sign \<and> et_previous_is_local tok
                  then tok\<lparr>et_candidates := et_candidates tok @ [index]\<rparr> else tok);
          tok2 = (if character = dot
                  then tok1\<lparr>et_last_dot := Some index, et_label_chars := 0, et_label_alpha := True\<rparr>
                  else if et_last_dot tok1 \<noteq> None
                  then tok1\<lparr>et_label_chars := sat_add_u64 (et_label_chars tok1) 1,
                            et_label_alpha := (et_label_alpha tok1 \<and> is_ascii_alphabetic character)\<rparr>
                  else tok1)
      in tok2\<lparr>et_previous_is_local := is_local_char character\<rparr>)"

definition slice :: "ustring \<Rightarrow> nat \<Rightarrow> nat \<Rightarrow> ustring" where
  "slice text' a b = take (b - a) (drop a text')"

definition starts_with_digit :: "ustring \<Rightarrow> bool" where
  "starts_with_digit text' = (case text' of [] \<Rightarrow> False | c # _ \<Rightarrow> is_ascii_digit c)"

fun emit_candidates ::
    "ustring \<Rightarrow> nat \<Rightarrow> bool \<Rightarrow> nat option \<Rightarrow> nat \<Rightarrow> nat list \<Rightarrow> ustring" where
  "emit_candidates text' end' is_domain last_dot cursor [] = slice text' cursor end'"
| "emit_candidates text' end' is_domain last_dot cursor (candidate # candidates) =
     slice text' cursor candidate @
     (if is_domain \<and> (case last_dot of None \<Rightarrow> False | Some d \<Rightarrow> candidate < d) \<and>
         \<not> starts_with_digit (slice text' (candidate + 1) end')
      then at_mask else [at_sign]) @
     emit_candidates text' end' is_domain last_dot (candidate + 1) candidates"

definition token_emit :: "email_token \<Rightarrow> ustring \<Rightarrow> nat \<Rightarrow> ustring" where
  "token_emit tok text' end' =
     emit_candidates text' end' (et_label_alpha tok \<and> 2 \<le> et_label_chars tok \<and> et_label_chars tok \<le> 24)
       (et_last_dot tok) (et_start tok) (et_candidates tok)"

definition token_reset :: "email_token \<Rightarrow> nat \<Rightarrow> email_token" where
  "token_reset tok start = token_default\<lparr>et_start := start\<rparr>"

fun mask_loop :: "ustring \<Rightarrow> nat \<Rightarrow> email_token \<Rightarrow> ustring \<Rightarrow> ustring" where
  "mask_loop text' index tok [] = token_emit tok text' index"
| "mask_loop text' index tok (c # cs) =
     (if is_whitespace c
      then token_emit tok text' index @ [c] @ mask_loop text' (index + 1) (token_reset tok (index + 1)) cs
      else mask_loop text' (index + 1) (token_observe tok index c) cs)"

definition email_mask :: "ustring \<Rightarrow> ustring" where
  "email_mask text' = mask_loop text' 0 token_default text'"

section \<open>The reference mask\<close>

definition token_rest :: "ustring \<Rightarrow> ustring" where
  "token_rest cs = takeWhile (\<lambda>c. \<not> is_whitespace c) cs"

text \<open>The characters after the last dot.\<close>

definition label :: "ustring \<Rightarrow> ustring" where
  "label s = rev (takeWhile (\<lambda>c. c \<noteq> dot) (rev s))"

definition domain_tail :: "ustring \<Rightarrow> bool" where
  "domain_tail s \<longleftrightarrow> dot \<in> set s \<and> list_all is_ascii_alphabetic (label s) \<and>
     2 \<le> length (label s) \<and> length (label s) \<le> 24"

definition address_tail :: "ustring \<Rightarrow> bool" where
  "address_tail s \<longleftrightarrow> domain_tail s \<and> \<not> starts_with_digit s"

fun mask_from :: "bool \<Rightarrow> ustring \<Rightarrow> ustring" where
  "mask_from prev [] = []"
| "mask_from prev (c # cs) =
     (if c = at_sign \<and> prev \<and> address_tail (token_rest cs) then at_mask else [c]) @ mask_from (is_local_char c) cs"

text \<open>An address: a local character, an \<open>@\<close>, and a rest of the token that ends in a domain label.\<close>

fun has_address :: "bool \<Rightarrow> ustring \<Rightarrow> bool" where
  "has_address prev [] = False"
| "has_address prev (c # cs) \<longleftrightarrow>
     c = at_sign \<and> prev \<and> address_tail (token_rest cs) \<or> has_address (is_local_char c) cs"

section \<open>The two masks agree\<close>

lemma whitespace_not_local: "is_whitespace c \<Longrightarrow> \<not> is_local_char c \<and> c \<noteq> dot \<and> c \<noteq> at_sign"
  by (auto simp: is_whitespace_def is_local_char_def is_ascii_alphabetic_def is_ascii_digit_def)

lemma label_Cons: "label (c # s) = (if dot \<in> set s then label s else if c = dot then s else c # s)"
proof -
  have "takeWhile (\<lambda>c. c \<noteq> dot) (rev s) = rev s" if "dot \<notin> set s"
    using that by (intro takeWhile_eq_all_conv [THEN iffD2]) auto
  then show ?thesis
    by (auto simp: label_def takeWhile_append)
qed

lemma label_snoc: "label (s @ [c]) = (if c = dot then [] else label s @ [c])"
  by (simp add: label_def)

lemma label_eq_self: "dot \<notin> set s \<Longrightarrow> label s = s"
  by (induction s) (auto simp: label_Cons label_def)

text \<open>What the token record knows after the characters \<open>s\<close> that start at \<open>start\<close>.\<close>

fun candidates_from :: "nat \<Rightarrow> bool \<Rightarrow> ustring \<Rightarrow> nat list" where
  "candidates_from k prev [] = []"
| "candidates_from k prev (c # cs) =
     (if c = at_sign \<and> prev then [k] else []) @ candidates_from (k + 1) (is_local_char c) cs"

definition last_local :: "ustring \<Rightarrow> bool" where
  "last_local s = (s \<noteq> [] \<and> is_local_char (last s))"

lemma candidates_snoc:
  "candidates_from k False (s @ [c]) =
     candidates_from k False s @ (if c = at_sign \<and> last_local s then [k + length s] else [])"
proof -
  have "candidates_from k prev (s @ [c]) = candidates_from k prev s @
      (if c = at_sign \<and> (if s = [] then prev else is_local_char (last s)) then [k + length s] else [])" for k prev
    by (induction s arbitrary: k prev) auto
  then show ?thesis by (simp add: last_local_def)
qed

definition last_dot_of :: "nat \<Rightarrow> ustring \<Rightarrow> nat option" where
  "last_dot_of start s = (if dot \<in> set s then Some (start + length s - 1 - length (label s)) else None)"

lemma length_label_less: "dot \<in> set s \<Longrightarrow> length (label s) < length s"
  by (induction s) (auto simp: label_Cons)

definition token_of :: "nat \<Rightarrow> ustring \<Rightarrow> email_token" where
  "token_of start s = \<lparr>et_start = start, et_last_dot = last_dot_of start s,
     et_label_chars = (if dot \<in> set s then min (length (label s)) u64_max else 0),
     et_label_alpha = (dot \<in> set s \<and> list_all is_ascii_alphabetic (label s)),
     et_previous_is_local = last_local s, et_candidates = candidates_from start False s\<rparr>"

lemma token_of_Nil: "token_of start [] = token_default\<lparr>et_start := start\<rparr>"
  by (simp add: token_of_def token_default_def last_dot_of_def last_local_def)

lemma token_of_snoc: "token_observe (token_of start s) (start + length s) c = token_of start (s @ [c])"
proof -
  have sat: "sat_add_u64 (min n u64_max) (Suc 0) = min (Suc n) u64_max" for n
    by (auto simp: sat_add_u64_def min_def)
  show ?thesis
    using length_label_less [of s]
    by (auto simp: token_of_def token_observe_def Let_def candidates_snoc label_snoc last_dot_of_def
        last_local_def sat)
qed

text \<open>Within one token.\<close>

fun mask_token :: "bool \<Rightarrow> ustring \<Rightarrow> ustring" where
  "mask_token prev [] = []"
| "mask_token prev (c # cs) =
     (if c = at_sign \<and> prev \<and> address_tail cs then at_mask else [c]) @ mask_token (is_local_char c) cs"

lemma label_append: "label (x @ y) = (if dot \<in> set y then label y else label x @ y)"
  by (induction x) (auto simp: label_Cons label_eq_self)

lemma slice_snoc: "cursor \<le> length pre \<Longrightarrow> slice (pre @ c # post) cursor (length pre) @ [c] = slice (pre @ c # post) cursor (Suc (length pre))"
  by (simp add: slice_def take_Suc_conv_app_nth Suc_diff_le)

lemma slice_after: "slice (pre @ c # cs @ post) (Suc (length pre)) (length pre + Suc (length cs)) = cs"
  by (simp add: slice_def)

lemma candidate_domain:
  assumes "s = u @ c # cs" "c \<noteq> dot"
  shows "(dot \<in> set s \<and> list_all is_ascii_alphabetic (label s) \<and> 2 \<le> length (label s) \<and> length (label s) \<le> 24 \<and>
          (case last_dot_of start s of None \<Rightarrow> False | Some d \<Rightarrow> start + length u < d)) \<longleftrightarrow> domain_tail cs"
proof (cases "dot \<in> set cs")
  case True
  then have "label s = label cs" unfolding assms(1) by (simp add: label_append label_Cons)
  with True length_label_less [OF True] assms(1) show ?thesis
    by (auto simp: last_dot_of_def domain_tail_def)
next
  case False
  have "length cs < length (label s)"
    using False assms(2) unfolding assms(1) by (simp add: label_append)
  with False assms(1) show ?thesis by (auto simp: last_dot_of_def domain_tail_def)
qed

lemma emit_suffix:
  assumes "text' = pre @ s @ post" "s = u @ v" "start = length pre" "cursor \<le> start + length u"
    "is_domain \<longleftrightarrow> dot \<in> set s \<and> list_all is_ascii_alphabetic (label s) \<and> 2 \<le> length (label s) \<and> length (label s) \<le> 24"
  shows "emit_candidates text' (start + length s) is_domain (last_dot_of start s) cursor
           (candidates_from (start + length u) prev v) =
         slice text' cursor (start + length u) @ mask_token prev v"
  using assms(2,4)
proof (induction v arbitrary: u cursor prev)
  case Nil
  then show ?case by simp
next
  case (Cons c cs)
  have split: "text' = (pre @ u) @ c # cs @ post" using assms(1) Cons.prems(1) by simp
  have step: "slice text' cursor (start + length u) @ [c] = slice text' cursor (Suc (start + length u))"
    unfolding split using slice_snoc [of cursor "pre @ u" c "cs @ post"] Cons.prems(2) assms(3) by simp
  have rest: "slice text' (Suc (start + length u)) (start + length s) = cs"
    unfolding split using slice_after [of "pre @ u" c cs post] Cons.prems(1) assms(3) by (simp add: add.assoc)
  have IH: "emit_candidates text' (start + length s) is_domain (last_dot_of start s) cur
      (candidates_from (Suc (start + length u)) p cs) =
      slice text' cur (Suc (start + length u)) @ mask_token p cs" if "cur \<le> Suc (start + length u)" for cur p
    using Cons.IH [of "u @ [c]" cur p] Cons.prems(1) that by simp
  show ?case
  proof (cases "c = at_sign \<and> prev")
    case True
    have "is_domain \<and> (case last_dot_of start s of None \<Rightarrow> False | Some d \<Rightarrow> start + length u < d) \<and>
        \<not> starts_with_digit cs \<longleftrightarrow> address_tail cs"
      using candidate_domain [OF Cons.prems(1), of start] True assms(5) by (auto simp: address_tail_def)
    moreover have "slice text' (Suc (start + length u)) (Suc (start + length u)) = []" by (simp add: slice_def)
    ultimately show ?thesis using True IH [of "Suc (start + length u)" "is_local_char c"] rest by simp
  next
    case False
    then have "candidates_from (start + length u) prev (c # cs) =
        candidates_from (Suc (start + length u)) (is_local_char c) cs"
      "mask_token prev (c # cs) = [c] @ mask_token (is_local_char c) cs" by auto
    then show ?thesis
      using IH [of cursor "is_local_char c"] Cons.prems(2) step by (simp flip: append_assoc)
  qed
qed

lemma emit_token:
  assumes "text' = pre @ s @ post" "start = length pre"
  shows "token_emit (token_of start s) text' (start + length s) = mask_token False s"
proof -
  have "min n u64_max \<le> 24 \<longleftrightarrow> n \<le> 24" "2 \<le> min n u64_max \<longleftrightarrow> 2 \<le> n" for n
    by (auto simp: u64_max_def)
  then show ?thesis
    using emit_suffix [OF assms(1), of "[]" s start start _ False] assms(2)
    by (auto simp: token_emit_def token_of_def slice_def)
qed

lemma mask_from_token:
  assumes "list_all (\<lambda>c. \<not> is_whitespace c) s" "post = [] \<or> is_whitespace (hd post)"
  shows "mask_from prev (s @ post) = mask_token prev s @ mask_from (if s = [] then prev else is_local_char (last s)) post"
  using assms(1)
proof (induction s arbitrary: prev)
  case Nil
  then show ?case by simp
next
  case (Cons c cs)
  have "token_rest (cs @ post) = cs"
    using Cons.prems assms(2) by (cases post) (auto simp: token_rest_def takeWhile_append list_all_iff)
  with Cons show ?case by simp
qed

lemma mask_loop_mask_from:
  assumes "text' = pre @ s @ cs" "list_all (\<lambda>c. \<not> is_whitespace c) s"
  shows "mask_loop text' (length pre + length s) (token_of (length pre) s) cs = mask_from False (s @ cs)"
  using assms
proof (induction cs arbitrary: pre s)
  case Nil
  then show ?case using emit_token [of text' pre s "[]"] mask_from_token [of s "[]"] by simp
next
  case (Cons c cs)
  show ?case
  proof (cases "is_whitespace c")
    case True
    have "mask_loop text' (Suc (length pre + length s)) (token_reset (token_of (length pre) s) (Suc (length pre + length s))) cs
        = mask_from False cs"
      using Cons.IH [of "pre @ s @ [c]" "[]"] Cons.prems(1) by (simp add: token_reset_def token_of_Nil)
    moreover have "mask_from False (s @ c # cs) = mask_token False s @ c # mask_from False cs"
      using mask_from_token [of s "c # cs" False] Cons.prems(2) True whitespace_not_local [OF True] by simp
    ultimately show ?thesis using True emit_token [of text' pre s "c # cs"] Cons.prems(1) by simp
  next
    case False
    then show ?thesis
      using Cons.IH [of pre "s @ [c]"] Cons.prems token_of_snoc [of "length pre" s c] by simp
  qed
qed

lemma email_mask_mask_from: "email_mask text' = mask_from False text'"
  using mask_loop_mask_from [of text' "[]" "[]" text'] by (simp add: email_mask_def token_of_Nil token_default_def)

section \<open>No address is left\<close>

lemma mask_token_id: "dot \<notin> set s \<Longrightarrow> mask_token prev s = s"
  by (induction s arbitrary: prev) (auto simp: address_tail_def domain_tail_def)

lemma dot_mask_from [simp]: "dot \<in> set (mask_from prev s) \<longleftrightarrow> dot \<in> set s"
  by (induction s arbitrary: prev) (auto simp: at_mask_def)

text \<open>What a mask leaves of the rest of a token still ends the same way and starts the same way.\<close>

lemma token_rest_mask_from: "token_rest (mask_from prev s) = mask_token prev (token_rest s)"
proof (induction s arbitrary: prev)
  case Nil
  then show ?case by (simp add: token_rest_def)
next
  case (Cons c cs)
  have "token_rest (at_mask @ x) = at_mask @ token_rest x" for x
    by (simp add: token_rest_def at_mask_def is_whitespace_def)
  then show ?case
    using Cons [of "is_local_char c"] whitespace_not_local [of c]
    by (cases "is_whitespace c") (auto simp: token_rest_def)
qed

lemma label_mask_token: "dot \<in> set s \<Longrightarrow> label (mask_token prev s) = label s"
proof (induction s arbitrary: prev)
  case Nil
  then show ?case by simp
next
  case (Cons c cs)
  have set: "dot \<in> set (mask_token p cs) \<longleftrightarrow> dot \<in> set cs" for p
    by (induction cs arbitrary: p) (auto simp: at_mask_def)
  show ?case
  proof (cases "dot \<in> set cs")
    case True
    with Cons.IH set show ?thesis by (simp add: label_append label_Cons)
  next
    case False
    with Cons.prems have "c = dot" by simp
    with False show ?thesis by (simp add: mask_token_id label_Cons)
  qed
qed

lemma dot_mask_token [simp]: "dot \<in> set (mask_token prev s) \<longleftrightarrow> dot \<in> set s"
  by (induction s arbitrary: prev) (auto simp: at_mask_def)

lemma starts_with_digit_mask_token [simp]: "starts_with_digit (mask_token prev s) = starts_with_digit s"
  by (cases s) (auto simp: starts_with_digit_def at_mask_def is_ascii_digit_def)

lemma address_tail_mask_token: "address_tail (mask_token prev s) = address_tail s"
  by (auto simp: address_tail_def domain_tail_def label_mask_token)

lemma has_address_at_mask [simp]: "has_address prev (at_mask @ s) = has_address False s"
  by (simp add: at_mask_def is_local_char_def is_ascii_alphabetic_def is_ascii_digit_def)

lemma has_address_mono: "has_address False s \<Longrightarrow> has_address prev s"
  by (cases s) auto

lemma no_address_mask_from: "\<not> has_address prev (mask_from prev s)"
proof (induction s arbitrary: prev)
  case Nil
  then show ?case by simp
next
  case (Cons c cs)
  show ?case
  proof (cases "c = at_sign \<and> prev \<and> address_tail (token_rest cs)")
    case True
    then show ?thesis using Cons has_address_mono by auto
  next
    case False
    then show ?thesis using Cons [of "is_local_char c"]
      by (auto simp: token_rest_mask_from address_tail_mask_token)
  qed
qed

lemma mask_from_id: "\<not> has_address prev s \<Longrightarrow> mask_from prev s = s"
  by (induction s arbitrary: prev) auto

section \<open>Properties\<close>

text \<open>
  C36: the one-pass mask replaces exactly the \<open>@\<close> signs of addresses: those after a local character
  whose token continues, not with a digit, up to a dot and a final label of 2 to 24 ASCII letters.
\<close>

theorem email_mask_matches_reference: "email_mask text' = mask_from False text'"
  by (rule email_mask_mask_from)

text \<open>
  Masked text contains no address, and masking it again changes nothing.
\<close>

theorem email_mask_leaves_no_address:
  "\<not> has_address False (email_mask text') \<and> email_mask (email_mask text') = email_mask text'"
  by (simp add: email_mask_mask_from no_address_mask_from mask_from_id)

end
