(* ===== verification/Reply_Projector.thy ===== *)
theory Reply_Projector
  imports Email_Mask Store_Base
begin

text \<open>
  The reply projector of \<^verbatim>\<open>src/src/render/mod.rs\<close>: streaming progress with its throttle and its one-step
  rollback, the terminal projection of a turn, and the bounded text splitter. Text is the list of its
  Unicode scalar values, instants and durations are nanoseconds. The Markdown projection and its
  splitter (\<^verbatim>\<open>src/src/render/markdown.rs\<close>) are arguments of the final projection.
\<close>

section \<open>Events\<close>

datatype message_phase = Commentary | FinalAnswer | UnknownPhase string

datatype thread_item =
    UserMessage
  | AgentMessage string ustring "message_phase option"
  | PlanItem
  | Reasoning
  | HookPrompt
  | CommandExecution
  | FileChange
  | McpToolCall
  | DynamicToolCall
  | CollabAgentToolCall
  | SubAgentActivity
  | WebSearch
  | ImageView
  | SleepItem
  | ImageGeneration
  | EnteredReviewMode
  | ExitedReviewMode
  | ContextCompaction
  | UnknownItem

datatype app_server_event =
    AgentMessageDelta string ustring
  | ItemStarted thread_item
  | ItemCompleted thread_item
  | OtherEvent

record turn_outcome =
  completed_items :: "thread_item list"

section \<open>Text bounds\<close>

definition truncate_to_chars :: "nat \<Rightarrow> ustring \<Rightarrow> ustring" where
  "truncate_to_chars max_chars buffer =
     (let excess = length buffer - max_chars in
      if excess = 0 then buffer else take (length buffer - excess) buffer)"

definition truncate_with_marker :: "ustring \<Rightarrow> nat \<Rightarrow> ustring" where
  "truncate_with_marker text' max_chars =
     take (max_chars - length REPLY_TRUNCATION_MARKER) text' @ REPLY_TRUNCATION_MARKER"

definition split_at_chars :: "ustring \<Rightarrow> nat \<Rightarrow> ustring \<times> ustring" where
  "split_at_chars text' count = (take count text', drop count text')"

text \<open>The loop of \<open>split_text\<close>: \<open>Inl\<close> when it returns from inside, \<open>Inr\<close> the parts and the remainder otherwise.\<close>

fun split_loop :: "nat \<Rightarrow> nat \<Rightarrow> ustring list \<Rightarrow> ustring \<Rightarrow> ustring list + (ustring list \<times> ustring)" where
  "split_loop 0 max_chars parts rest = Inr (parts, rest)"
| "split_loop (Suc splits) max_chars parts rest =
     (if length rest \<le> max_chars then Inl (parts @ [rest])
      else let (head, tail) = split_at_chars rest max_chars in split_loop splits max_chars (parts @ [head]) tail)"

text \<open>\<open>None\<close> is the panic of the two assertions.\<close>

definition split_text :: "ustring \<Rightarrow> nat \<Rightarrow> nat \<Rightarrow> ustring list option" where
  "split_text text' max_chars max_splits =
     (if max_chars = 0 \<or> max_splits = 0 then None
      else case split_loop max_splits max_chars [] text' of
        Inl parts \<Rightarrow> Some parts
      | Inr (parts, rest) \<Rightarrow>
          if rest \<noteq> [] then Some (butlast parts @ [truncate_with_marker (last parts) max_chars])
          else Some parts)"

text \<open>The text beyond the first \<open>n\<close> UTF-8 bytes; \<open>None\<close> when \<open>n\<close> is not a character boundary.\<close>

fun drop_utf8 :: "nat \<Rightarrow> ustring \<Rightarrow> ustring option" where
  "drop_utf8 n [] = (if n = 0 then Some [] else None)"
| "drop_utf8 n (c # cs) = (if n = 0 then Some (c # cs) else if len_utf8 c \<le> n then drop_utf8 (n - len_utf8 c) cs else None)"

definition tail_beyond :: "ustring \<Rightarrow> nat \<Rightarrow> ustring" where
  "tail_beyond text' prefix_bytes =
     (if prefix_bytes = 0 then text'
      else if prefix_bytes \<ge> ulen text' then []
      else case drop_utf8 prefix_bytes text' of None \<Rightarrow> [] | Some tail \<Rightarrow> tail)"

definition trim :: "ustring \<Rightarrow> ustring" where
  "trim text' = rev (dropWhile is_whitespace (rev (dropWhile is_whitespace text')))"

section \<open>Status lines\<close>

definition item_status_line :: "thread_item \<Rightarrow> bool \<Rightarrow> ustring option" where
  "item_status_line item started =
     (let verb = (if started then [27491, 22312] else [24050, 23436, 25104]) in
      case item of
        Reasoning \<Rightarrow> Some ([62, 32, 129504, 32] @ verb @ [24605, 32771])
      | CommandExecution \<Rightarrow> Some ([62, 32, 128295, 32] @ verb @ [25191, 34892, 21629, 20196])
      | FileChange \<Rightarrow> Some ([62, 32, 128221, 32] @ verb @ [20462, 25913, 25991, 20214])
      | McpToolCall \<Rightarrow> Some ([62, 32, 128736, 32] @ verb @ [35843, 29992, 24037, 20855])
      | DynamicToolCall \<Rightarrow> Some ([62, 32, 128736, 32] @ verb @ [35843, 29992, 24037, 20855])
      | WebSearch \<Rightarrow> Some ([62, 32, 128269, 32] @ verb @ [25628, 32034])
      | ImageView \<Rightarrow> Some ([62, 32, 128444, 32] @ verb @ [26597, 30475, 22270, 29255])
      | _ \<Rightarrow> None)"

section \<open>The projector\<close>

record projector_config =
  max_chars :: nat
  max_splits :: nat
  min_interval :: duration
  min_chars :: nat

definition default_projector_config :: projector_config where
  "default_projector_config = \<lparr>max_chars = REPLY_MESSAGE_MAX_CHARS, max_splits = REPLY_MAX_SPLITS,
     min_interval = REPLY_UPDATE_MIN_INTERVAL, min_chars = REPLY_UPDATE_MIN_CHARS\<rparr>"

datatype projected_reply = Final "ustring list" | ProgressFinal ustring | Empty
datatype projector_output = Progress ustring | Nothing

record progress_checkpoint =
  cp_streamed_content :: ustring
  cp_emitted_progress :: nat
  cp_last_progress :: "instant option"
  cp_emitted_text :: ustring

record reply_projector =
  config :: projector_config
  progress_buffer :: ustring
  last_progress :: "instant option"
  emitted_progress :: nat
  streamed_content :: ustring
  checkpoint :: "progress_checkpoint option"
  item_prefix_bytes :: "string \<Rightarrow> nat option"
  last_completed_item_id :: "string option"

definition projector_new :: "projector_config \<Rightarrow> reply_projector" where
  "projector_new cfg = \<lparr>config = cfg, progress_buffer = [], last_progress = None, emitted_progress = 0,
     streamed_content = [], checkpoint = None, item_prefix_bytes = Map.empty, last_completed_item_id = None\<rparr>"

definition with_defaults :: reply_projector where
  "with_defaults = projector_new default_projector_config"

text \<open>\<open>Duration::MAX\<close>, the elapsed time before the first progress.\<close>

definition DURATION_MAX :: duration where
  "DURATION_MAX = u64_max * 1000000000 + 999999999"

definition push_progress :: "ustring \<Rightarrow> reply_projector \<Rightarrow> reply_projector" where
  "push_progress text' p =
     p\<lparr>progress_buffer := truncate_to_chars (max_chars (config p)) (progress_buffer p @ text')\<rparr>"

definition append_status_line :: "ustring \<Rightarrow> reply_projector \<Rightarrow> reply_projector" where
  "append_status_line line p =
     (let buffer = (if progress_buffer p \<noteq> [] \<and> last (progress_buffer p) \<noteq> 10
                    then progress_buffer p @ [10] else progress_buffer p)
      in p\<lparr>progress_buffer := truncate_to_chars (max_chars (config p)) (buffer @ line @ [10])\<rparr>)"

definition maybe_emit :: "reply_projector \<Rightarrow> instant \<Rightarrow> projector_output \<times> reply_projector" where
  "maybe_emit p now =
     (if progress_buffer p = [] then (Nothing, p)
      else
        let first_card = (emitted_progress p = 0);
            min_chars' = (if first_card then 1 else min_chars (config p));
            min_interval' = (if first_card then 0 else min_interval (config p));
            elapsed = (case last_progress p of None \<Rightarrow> DURATION_MAX | Some l \<Rightarrow> now - l)
        in if elapsed \<ge> min_interval' \<and> length (progress_buffer p) \<ge> min_chars'
           then
             let text' = email_mask (progress_buffer p) in
             (Progress text',
              p\<lparr>checkpoint := Some \<lparr>cp_streamed_content = streamed_content p,
                    cp_emitted_progress = emitted_progress p, cp_last_progress = last_progress p,
                    cp_emitted_text = text'\<rparr>,
                last_progress := Some now,
                emitted_progress := sat_add_u32 (emitted_progress p) 1,
                streamed_content := truncate_to_chars (max_chars (config p)) (streamed_content p @ text'),
                progress_buffer := []\<rparr>)
           else (Nothing, p))"

fun observe :: "reply_projector \<Rightarrow> app_server_event \<Rightarrow> instant \<Rightarrow> projector_output \<times> reply_projector" where
  "observe p (AgentMessageDelta item_id delta) now =
     (let seen = (case item_prefix_bytes p item_id of None \<Rightarrow> 0 | Some n \<Rightarrow> n);
          p1 = p\<lparr>item_prefix_bytes := (item_prefix_bytes p)(item_id \<mapsto> seen + ulen delta)\<rparr>
      in maybe_emit (push_progress delta p1) now)"
| "observe p (ItemStarted item) now =
     (case item_status_line item True of
        Some line \<Rightarrow> maybe_emit (append_status_line line p) now
      | None \<Rightarrow> (Nothing, p))"
| "observe p (ItemCompleted (AgentMessage i text' phase)) now =
     (if last_completed_item_id p = Some i then (Nothing, p)
      else
        let delta_prefix = (case item_prefix_bytes p i of None \<Rightarrow> 0 | Some n \<Rightarrow> n);
            p1 = p\<lparr>last_completed_item_id := Some i, item_prefix_bytes := (item_prefix_bytes p)(i := None)\<rparr>;
            tail = tail_beyond text' delta_prefix;
            p2 = (if tail \<noteq> [] then push_progress tail p1 else p1)
        in maybe_emit p2 now)"
| "observe p (ItemCompleted item) now =
     (case item_status_line item False of
        Some line \<Rightarrow> maybe_emit (append_status_line line p) now
      | None \<Rightarrow> (Nothing, p))"
| "observe p OtherEvent now = (Nothing, p)"

definition restore_progress :: "reply_projector \<Rightarrow> ustring \<Rightarrow> reply_projector" where
  "restore_progress p text' =
     (case checkpoint p of
        None \<Rightarrow> p
      | Some cp \<Rightarrow>
          if cp_emitted_text cp \<noteq> text' then p
          else p\<lparr>checkpoint := None, streamed_content := cp_streamed_content cp,
                 emitted_progress := cp_emitted_progress cp, last_progress := cp_last_progress cp,
                 progress_buffer := truncate_to_chars (max_chars (config p)) (text' @ progress_buffer p)\<rparr>)"

section \<open>Terminal projection\<close>

definition is_final_phase :: "message_phase option \<Rightarrow> bool" where
  "is_final_phase phase = (phase = Some FinalAnswer)"

fun find_final :: "thread_item list \<Rightarrow> (ustring \<times> bool) option" where
  "find_final [] = None"
| "find_final (AgentMessage i text' phase # items) =
     (if is_final_phase phase then Some (text', True) else find_final items)"
| "find_final (_ # items) = find_final items"

fun find_trailing :: "thread_item list \<Rightarrow> (ustring \<times> bool) option" where
  "find_trailing [] = None"
| "find_trailing (AgentMessage i text' phase # items) = Some (text', phase = None)"
| "find_trailing (_ # items) = find_trailing items"

text \<open>The extracted text and whether it is an independent final.\<close>

definition extract_final :: "turn_outcome \<Rightarrow> (ustring \<times> bool) option" where
  "extract_final outcome =
     (case find_final (rev (completed_items outcome)) of
        Some x \<Rightarrow> Some x
      | None \<Rightarrow> find_trailing (rev (completed_items outcome)))"

definition render_progress_final :: "reply_projector \<Rightarrow> ustring \<Rightarrow> projected_reply" where
  "render_progress_final p text' =
     (let masked = truncate_to_chars (max_chars (config p)) (email_mask (trim text')) in
      if masked = [] then Empty else ProgressFinal masked)"

definition render_progress_snapshot :: "reply_projector \<Rightarrow> projected_reply" where
  "render_progress_snapshot p = render_progress_final p (streamed_content p @ email_mask (progress_buffer p))"

record markdown_renderer =
  render_lark_markdown :: "ustring \<Rightarrow> ustring"
  split_lark_markdown :: "ustring \<Rightarrow> nat \<Rightarrow> nat \<Rightarrow> nat \<Rightarrow> ustring list"

definition render_final :: "markdown_renderer \<Rightarrow> reply_projector \<Rightarrow> ustring \<Rightarrow> projected_reply" where
  "render_final md p text' =
     (let trimmed = trim (email_mask text') in
      if trimmed = [] then Empty
      else
        let markdown = email_mask (render_lark_markdown md trimmed) in
        if markdown = [] then Empty
        else Final (split_lark_markdown md markdown (max_chars (config p)) LARK_MAX_SEND_BODY_BYTES
                      (max_splits (config p))))"

definition finish :: "markdown_renderer \<Rightarrow> reply_projector \<Rightarrow> turn_outcome \<Rightarrow> projected_reply" where
  "finish md p outcome =
     (case extract_final outcome of
        None \<Rightarrow> if emitted_progress p > 0 then render_progress_snapshot p else Empty
      | Some (text', independent) \<Rightarrow>
          if emitted_progress p > 0
          then if independent then render_progress_final p text' else render_progress_snapshot p
          else render_final md p text')"

definition project_final :: "markdown_renderer \<Rightarrow> reply_projector \<Rightarrow> turn_outcome \<Rightarrow> projected_reply" where
  "project_final md p outcome =
     (case extract_final outcome of
        None \<Rightarrow> Empty
      | Some (text', _) \<Rightarrow> render_final md p text')"

definition mask_and_split :: "reply_projector \<Rightarrow> ustring \<Rightarrow> ustring list option" where
  "mask_and_split p text' = split_text (email_mask text') (max_chars (config p)) (max_splits (config p))"

text \<open>The live card's cumulative text, \<open>append_progress_snapshot\<close> of \<^verbatim>\<open>src/src/runtime/scope.rs\<close>.\<close>

definition append_progress_snapshot :: "ustring \<Rightarrow> ustring \<Rightarrow> ustring" where
  "append_progress_snapshot current next' = take REPLY_MESSAGE_MAX_CHARS (current @ next')"

section \<open>Splitting\<close>

lemma truncate_to_chars_take: "truncate_to_chars n s = take n s"
  by (auto simp: truncate_to_chars_def Let_def)

lemma length_truncation_marker [simp]: "length REPLY_TRUNCATION_MARKER = 12"
  by (simp add: REPLY_TRUNCATION_MARKER_def ustr_def)

lemma split_loop_fits:
  assumes "length rest \<le> m * Suc k" "0 < m"
  shows "\<exists>parts'. split_loop (Suc k) m parts rest = Inl (parts @ parts') \<and> concat parts' = rest \<and>
           list_all (\<lambda>x. length x \<le> m) parts' \<and> length parts' \<le> Suc k"
  using assms
proof (induction k arbitrary: parts rest)
  case 0
  then show ?case by (intro exI [of _ "[rest]"]) simp
next
  case (Suc k)
  show ?case
  proof (cases "length rest \<le> m")
    case True
    then show ?thesis by (intro exI [of _ "[rest]"]) simp
  next
    case False
    with Suc.prems have "length (drop m rest) \<le> m * Suc k" by simp
    from Suc.IH [OF this Suc.prems(2), of "parts @ [take m rest]"] obtain parts' where
      "split_loop (Suc k) m (parts @ [take m rest]) (drop m rest) = Inl ((parts @ [take m rest]) @ parts')"
      "concat parts' = drop m rest" "list_all (\<lambda>x. length x \<le> m) parts'" "length parts' \<le> Suc k" by blast
    with False show ?thesis
      by (intro exI [of _ "take m rest # parts'"]) (simp add: split_at_chars_def del: split_loop.simps(2), simp add: split_at_chars_def)
  qed
qed

lemma split_loop_overflows:
  assumes "m * k < length rest" "0 < m"
  shows "\<exists>parts'. split_loop k m parts rest = Inr (parts @ parts', drop (m * k) rest) \<and>
           concat parts' = take (m * k) rest \<and> list_all (\<lambda>x. length x = m) parts' \<and> length parts' = k"
  using assms
proof (induction k arbitrary: parts rest)
  case 0
  then show ?case by (intro exI [of _ "[]"]) simp
next
  case (Suc k)
  then have "\<not> length rest \<le> m" "m * k < length (drop m rest)" by auto
  from Suc.IH [OF this(2) Suc.prems(2), of "parts @ [take m rest]"] obtain parts' where
    "split_loop k m (parts @ [take m rest]) (drop m rest) = Inr ((parts @ [take m rest]) @ parts', drop (m * k) (drop m rest))"
    "concat parts' = take (m * k) (drop m rest)" "list_all (\<lambda>x. length x = m) parts'" "length parts' = k" by blast
  with \<open>\<not> length rest \<le> m\<close> show ?case
    by (intro exI [of _ "take m rest # parts'"]) (auto simp: split_at_chars_def take_add [symmetric] add.commute)
qed

text \<open>
  With room for the truncation marker, splitting gives at most \<open>max_splits\<close> parts of at most
  \<open>max_chars\<close> characters. Text that fits is reproduced exactly by the parts in order; longer text keeps
  all full parts but the last unchanged and ends in the truncation marker.
\<close>

theorem split_text_bounded_and_lossless:
  assumes "12 \<le> m" "0 < k" "split_text text' m k = Some parts"
  shows "length parts \<le> k \<and> list_all (\<lambda>x. length x \<le> m) parts \<and>
         (if length text' \<le> m * k then concat parts = text'
          else length parts = k \<and> concat (butlast parts) = take (m * (k - 1)) text' \<and>
               (\<exists>head. last parts = head @ REPLY_TRUNCATION_MARKER))"
proof (cases "length text' \<le> m * k")
  case True
  from assms(2) obtain j where j: "k = Suc j" by (cases k) auto
  from split_loop_fits [of text' m j "[]"] True assms(1) j obtain parts' where
    "split_loop k m [] text' = Inl parts'" "concat parts' = text'" "list_all (\<lambda>x. length x \<le> m) parts'"
    "length parts' \<le> k" by auto
  with True assms show ?thesis by (simp add: split_text_def)
next
  case False
  then have "m * k < length text'" "0 < m" using assms(1) by simp_all
  from split_loop_overflows [OF this, of "[]"] obtain full where
    full: "split_loop k m [] text' = Inr (full, drop (m * k) text')" "concat full = take (m * k) text'"
      "list_all (\<lambda>x. length x = m) full" "length full = k" by auto
  have "drop (m * k) text' \<noteq> []" using False by simp
  with full(1) assms have parts: "parts = butlast full @ [truncate_with_marker (last full) m]"
    by (simp add: split_text_def)
  have ne: "full \<noteq> []" using full(4) assms(2) by auto
  then have app: "full = butlast full @ [last full]" by simp
  have lens: "length x = m" if "x \<in> set full" for x using full(3) that by (simp add: list_all_iff)
  have "length (concat (butlast full)) = m * (k - 1)"
  proof -
    have "length (concat xs) = m * length xs" if "list_all (\<lambda>x. length x = m) xs" for xs :: "ustring list"
      using that by (induction xs) auto
    moreover have "list_all (\<lambda>x. length x = m) (butlast full)"
      using lens by (auto simp: list_all_iff dest: in_set_butlastD)
    ultimately show ?thesis using full(4) by simp
  qed
  moreover have "concat full = concat (butlast full) @ last full" by (metis app concat_append concat.simps append_Nil2)
  ultimately have "concat (butlast full) = take (m * (k - 1)) (take (m * k) text')"
    using full(2) by (metis append_eq_conv_conj)
  then have body: "concat (butlast full) = take (m * (k - 1)) text'" by (simp add: min_def)
  have "length (truncate_with_marker (last full) m) \<le> m"
    using lens [OF last_in_set [OF ne]] assms(1) by (simp add: truncate_with_marker_def)
  moreover have "list_all (\<lambda>x. length x \<le> m) (butlast full)"
    using lens by (auto simp: list_all_iff dest: in_set_butlastD)
  ultimately show ?thesis
    using False parts body full(4) ne assms(2) by (auto simp: truncate_with_marker_def)
qed

theorem split_text_bounded_and_lossless_witness:
  "\<exists>parts. split_text (replicate 30 97) 12 2 = Some parts \<and> length parts \<le> 2"
proof -
  have "split_text (replicate 30 97) 12 2 \<noteq> None"
    by (auto simp: split_text_def split: sum.splits)
  then obtain parts where run: "split_text (replicate 30 97) 12 2 = Some parts" by blast
  with split_text_bounded_and_lossless [OF _ _ run] show ?thesis by simp
qed

text \<open>
  The bound fails below the length of the marker. With \<open>max_chars = 1\<close> a truncated part has 12
  characters, although the function documents parts of at most \<open>max_chars\<close> characters.
\<close>

theorem split_text_exceeds_tiny_limit:
  "split_text [97, 98] 1 1 = Some [REPLY_TRUNCATION_MARKER] \<and> length REPLY_TRUNCATION_MARKER = 12"
  by (simp add: split_text_def split_at_chars_def truncate_with_marker_def)

section \<open>The projector invariant\<close>

definition progress_wf :: "nat \<Rightarrow> ustring \<Rightarrow> nat \<Rightarrow> instant option \<Rightarrow> bool" where
  "progress_wf limit streamed emitted last_at \<longleftrightarrow>
     length streamed \<le> limit \<and> emitted \<le> u32_max \<and> (emitted = 0 \<longleftrightarrow> last_at = None) \<and>
     (emitted = 0 \<longrightarrow> streamed = [])"

definition projector_wf :: "projector_config \<Rightarrow> reply_projector \<Rightarrow> bool" where
  "projector_wf cfg p \<longleftrightarrow>
     config p = cfg \<and> length (progress_buffer p) \<le> max_chars cfg \<and>
     progress_wf (max_chars cfg) (streamed_content p) (emitted_progress p) (last_progress p) \<and>
     (case checkpoint p of
        None \<Rightarrow> True
      | Some cp \<Rightarrow> progress_wf (max_chars cfg) (cp_streamed_content cp) (cp_emitted_progress cp) (cp_last_progress cp))"

lemma projector_new_wf: "projector_wf cfg (projector_new cfg)"
  by (simp add: projector_wf_def progress_wf_def projector_new_def)

lemma push_progress_wf: "projector_wf cfg p \<Longrightarrow> projector_wf cfg (push_progress text' p)"
  by (auto simp: projector_wf_def push_progress_def truncate_to_chars_take min_def)

lemma append_status_line_wf: "projector_wf cfg p \<Longrightarrow> projector_wf cfg (append_status_line line p)"
  by (auto simp: projector_wf_def append_status_line_def truncate_to_chars_take Let_def min_def)

lemma maybe_emit_wf: "projector_wf cfg p \<Longrightarrow> projector_wf cfg (snd (maybe_emit p now))"
  by (auto simp: projector_wf_def progress_wf_def maybe_emit_def truncate_to_chars_take Let_def
      sat_add_u32_def u32_max_def)

lemma item_bookkeeping_wf:
  "projector_wf cfg p \<Longrightarrow> projector_wf cfg (p\<lparr>item_prefix_bytes := m\<rparr>)"
  "projector_wf cfg p \<Longrightarrow> projector_wf cfg (p\<lparr>last_completed_item_id := i, item_prefix_bytes := m\<rparr>)"
  by (simp_all add: projector_wf_def)

text \<open>Every event first changes the buffer and the bookkeeping, then may emit.\<close>

lemma observe_cases:
  assumes "projector_wf cfg p"
  obtains (idle) "observe p event now = (Nothing, p)"
  | (emits) q where "observe p event now = maybe_emit q now" "projector_wf cfg q"
      "emitted_progress q = emitted_progress p" "last_progress q = last_progress p"
proof -
  have status: thesis if "observe p event now = (case item_status_line item b of
      Some line \<Rightarrow> maybe_emit (append_status_line line p) now | None \<Rightarrow> (Nothing, p))" for item b
  proof (cases "item_status_line item b")
    case None
    with that idle show ?thesis by simp
  next
    case (Some line)
    with that assms show ?thesis
      by (intro emits [of "append_status_line line p"]) (simp_all add: append_status_line_wf, simp_all add: append_status_line_def Let_def)
  qed
  show thesis
  proof (cases event)
    case OtherEvent
    with idle show ?thesis by simp
  next
    case (ItemStarted item)
    with status [of item True] show ?thesis by simp
  next
    case (ItemCompleted item)
    show ?thesis
    proof (cases "\<exists>i text' phase. item = AgentMessage i text' phase")
      case False
      with ItemCompleted have "observe p event now = (case item_status_line item False of
          Some line \<Rightarrow> maybe_emit (append_status_line line p) now | None \<Rightarrow> (Nothing, p))"
        by (cases item) simp_all
      then show ?thesis by (rule status)
    next
      case True
      then obtain i text' phase where 3: "event = ItemCompleted (AgentMessage i text' phase)"
        using ItemCompleted by blast
      let ?q = "p\<lparr>last_completed_item_id := Some i, item_prefix_bytes := (item_prefix_bytes p)(i := None)\<rparr>"
      let ?tail = "tail_beyond text' (case item_prefix_bytes p i of None \<Rightarrow> 0 | Some n \<Rightarrow> n)"
      show ?thesis
      proof (cases "last_completed_item_id p = Some i")
        case True
        with 3 idle show ?thesis by simp
      next
        case False
        with 3 assms show ?thesis
          by (intro emits [of "if ?tail \<noteq> [] then push_progress ?tail ?q else ?q"])
            (auto simp: Let_def intro!: push_progress_wf item_bookkeeping_wf, simp_all add: push_progress_def)
      qed
    qed
  next
    case (AgentMessageDelta item_id delta)
    with assms show ?thesis
      by (intro emits [of "push_progress delta (p\<lparr>item_prefix_bytes := (item_prefix_bytes p)
          (item_id \<mapsto> (case item_prefix_bytes p item_id of None \<Rightarrow> 0 | Some n \<Rightarrow> n) + ulen delta)\<rparr>)"])
        (auto simp: Let_def intro!: push_progress_wf item_bookkeeping_wf, simp_all add: push_progress_def)
  qed
qed

lemma observe_wf: "projector_wf cfg p \<Longrightarrow> projector_wf cfg (snd (observe p event now))"
  by (cases rule: observe_cases [of cfg p event now]) (auto intro: maybe_emit_wf)

lemma restore_progress_wf: "projector_wf cfg p \<Longrightarrow> projector_wf cfg (restore_progress p text')"
  by (auto simp: projector_wf_def restore_progress_def truncate_to_chars_take split: option.splits)

datatype projector_op = OpObserve app_server_event instant | OpRestore ustring

fun projector_step :: "projector_op \<Rightarrow> reply_projector \<Rightarrow> reply_projector" where
  "projector_step (OpObserve event now) p = snd (observe p event now)"
| "projector_step (OpRestore text') p = restore_progress p text'"

interpretation projector_run: invariant_steps projector_step "projector_wf cfg"
  for cfg
proof (unfold_locales, goal_cases)
  case (1 p op)
  then show ?case by (cases op) (simp_all add: observe_wf restore_progress_wf)
qed

section \<open>Emission\<close>

lemma mask_from_empty [simp]: "mask_from prev s = [] \<longleftrightarrow> s = []"
  by (cases s) (auto simp: at_mask_def)

lemma email_mask_empty [simp]: "email_mask s = [] \<longleftrightarrow> s = []"
  by (simp add: email_mask_mask_from)

lemma maybe_emit_Progress:
  assumes "maybe_emit p now = (Progress text', p')"
  shows "text' = email_mask (progress_buffer p)" "text' \<noteq> []" "progress_buffer p' = []"
    "emitted_progress p \<noteq> 0 \<Longrightarrow> min_chars (config p) \<le> length (progress_buffer p)"
    "emitted_progress p \<noteq> 0 \<Longrightarrow> last_progress p = Some l \<Longrightarrow> min_interval (config p) \<le> now - l"
    "checkpoint p' = Some \<lparr>cp_streamed_content = streamed_content p, cp_emitted_progress = emitted_progress p,
       cp_last_progress = last_progress p, cp_emitted_text = text'\<rparr>"
    "last_progress p' = Some now" "config p' = config p"
  using assms by (auto simp: maybe_emit_def Let_def split: if_splits)

text \<open>
  Whatever events arrive and whatever progress sends are rejected, the buffers stay within
  \<open>max_chars\<close>, and the projector knows of a first card exactly when it has the time of its last one.
\<close>

theorem progress_bounded_always:
  "projector_wf cfg (fold projector_step ops (projector_new cfg))"
  by (rule projector_run.run_inv) (rule projector_new_wf)

text \<open>
  Every progress update is non-empty and contains no address; after the first card, updates are
  at least \<open>min_interval\<close> apart.
\<close>

theorem progress_is_masked_and_throttled:
  assumes "p = fold projector_step ops (projector_new cfg)" "observe p event now = (Progress text', p')"
  shows "text' \<noteq> [] \<and> \<not> has_address False text' \<and> last_progress p' = Some now \<and>
         (case last_progress p of None \<Rightarrow> True | Some l \<Rightarrow> min_interval cfg \<le> now - l)"
proof -
  have wf: "projector_wf cfg p" unfolding assms(1) by (rule projector_run.run_inv) (rule projector_new_wf)
  from wf show ?thesis
  proof (cases rule: observe_cases [of cfg p event now])
    case idle
    with assms(2) show ?thesis by simp
  next
    case (emits q)
    with assms(2) have run: "maybe_emit q now = (Progress text', p')" by simp
    note e = maybe_emit_Progress [OF run]
    have "\<not> has_address False text'"
      unfolding e(1) email_mask_mask_from by (rule no_address_mask_from)
    moreover have "min_interval cfg \<le> now - l" if "last_progress p = Some l" for l
    proof -
      have "emitted_progress q \<noteq> 0" "config q = cfg"
        using wf emits that by (auto simp: projector_wf_def progress_wf_def)
      with e(5) [of l] emits that show ?thesis by simp
    qed
    ultimately show ?thesis using e(2,7) by (simp split: option.splits)
  qed
qed

theorem progress_is_masked_and_throttled_witness:
  "\<exists>text' p'. observe (projector_new default_projector_config) (AgentMessageDelta ''i'' [97, 98]) 5 = (Progress text', p') \<and>
     text' \<noteq> [] \<and> \<not> has_address False text'"
proof -
  have "maybe_emit (push_progress [97, 98] (projector_new default_projector_config
      \<lparr>item_prefix_bytes := [''i'' \<mapsto> ulen [97, 98]]\<rparr>)) 5 = (Progress (email_mask [97, 98]), p')" if "p' =
      snd (maybe_emit (push_progress [97, 98] (projector_new default_projector_config
      \<lparr>item_prefix_bytes := [''i'' \<mapsto> ulen [97, 98]]\<rparr>)) 5)" for p'
    unfolding that
    by (simp add: maybe_emit_def push_progress_def projector_new_def truncate_to_chars_take Let_def
        default_projector_config_def REPLY_MESSAGE_MAX_CHARS_def DURATION_MAX_def)
  then obtain p' where run: "observe (fold projector_step [] (projector_new default_projector_config))
      (AgentMessageDelta ''i'' [97, 98]) 5 = (Progress (email_mask [97, 98]), p')"
    by (auto simp: Let_def projector_new_def)
  from progress_is_masked_and_throttled [OF refl run] run show ?thesis by auto
qed

text \<open>
  When the sink rejects a progress update, restoring it puts its text back at the front of the
  buffer and everything else back to what it was before the update, so the turn's end still delivers it.
\<close>

theorem rejected_progress_is_not_lost:
  assumes "maybe_emit p now = (Progress text', p')"
  shows "restore_progress p' text' = p\<lparr>progress_buffer := take (max_chars (config p)) text', checkpoint := None\<rparr>"
  using assms
  by (auto simp: maybe_emit_def restore_progress_def truncate_to_chars_take Let_def split: if_splits)

theorem rejected_progress_is_not_lost_witness:
  "restore_progress (snd (maybe_emit (push_progress [97, 98] with_defaults) 5)) (email_mask [97, 98]) =
     (push_progress [97, 98] with_defaults)\<lparr>progress_buffer := take 4000 (email_mask [97, 98]), checkpoint := None\<rparr>"
proof -
  let ?p = "push_progress [97, 98] with_defaults"
  have cfg: "max_chars (config ?p) = 4000"
    by (simp add: push_progress_def with_defaults_def projector_new_def default_projector_config_def REPLY_MESSAGE_MAX_CHARS_def)
  have "fst (maybe_emit ?p 5) = Progress (email_mask [97, 98])"
    by (simp add: maybe_emit_def push_progress_def with_defaults_def projector_new_def truncate_to_chars_take Let_def
        default_projector_config_def REPLY_MESSAGE_MAX_CHARS_def DURATION_MAX_def)
  then have "maybe_emit ?p 5 = (Progress (email_mask [97, 98]), snd (maybe_emit ?p 5))" by (metis prod.collapse)
  from rejected_progress_is_not_lost [OF this] show ?thesis unfolding cfg .
qed

lemma drop_utf8_0 [simp]: "drop_utf8 0 s = Some s"
  by (cases s) auto

lemma drop_utf8_append: "drop_utf8 (ulen d) (d @ rest) = Some rest"
  by (induction d) (auto simp: len_utf8_pos [THEN less_imp_neq, THEN not_sym])

text \<open>
  A completed message whose beginning was streamed adds exactly the part the deltas did not cover.
\<close>

theorem completion_appends_only_the_tail: "tail_beyond (streamed @ rest) (ulen streamed) = rest"
proof (cases "rest = []")
  case True
  then show ?thesis by (cases streamed) (auto simp: tail_beyond_def)
next
  case False
  then have "ulen (streamed @ rest) > ulen streamed" by (cases rest) (auto simp: add_pos_nonneg)
  moreover have "streamed = []" if "ulen streamed = 0" using that by (cases streamed) (auto simp: len_utf8_pos [THEN less_imp_neq, THEN not_sym])
  ultimately show ?thesis by (auto simp: tail_beyond_def drop_utf8_append)
qed

section \<open>Terminal projection\<close>

definition card_text :: "reply_projector \<Rightarrow> turn_outcome \<Rightarrow> ustring" where
  "card_text p outcome =
     (case extract_final outcome of
        Some (text', True) \<Rightarrow> text'
      | _ \<Rightarrow> streamed_content p @ email_mask (progress_buffer p))"

lemma finish_open_card:
  "0 < emitted_progress p \<Longrightarrow> finish md p outcome = render_progress_final p (card_text p outcome)"
  by (auto simp: finish_def card_text_def render_progress_snapshot_def split: option.splits bool.splits)

text \<open>
  A turn ends on one surface. With an open progress card the end of the turn never sends a separate
  final message: it updates the card with at most \<open>max_chars\<close> characters, unless the text to show is
  blank, and then it sends nothing and the card is left as it is. Without a card it never refers to one,
  and a turn without any agent message sends nothing.
\<close>

theorem finish_uses_one_surface:
  "(if 0 < emitted_progress p
    then finish md p outcome =
      (let masked = take (max_chars (config p)) (email_mask (trim (card_text p outcome)))
       in if masked = [] then Empty else ProgressFinal masked)
    else (case finish md p outcome of ProgressFinal _ \<Rightarrow> False | _ \<Rightarrow> True) \<and>
      (extract_final outcome = None \<longleftrightarrow>
        \<not> list_ex (\<lambda>item. case item of AgentMessage _ _ _ \<Rightarrow> True | _ \<Rightarrow> False) (completed_items outcome)) \<and>
      (case extract_final outcome of None \<Rightarrow> finish md p outcome = Empty | Some _ \<Rightarrow> True))"
proof -
  have none: "find_final items = None \<and> find_trailing items = None \<longleftrightarrow>
      \<not> list_ex (\<lambda>item. case item of AgentMessage _ _ _ \<Rightarrow> True | _ \<Rightarrow> False) items" for items
    by (induction items rule: find_trailing.induct) auto
  have "extract_final outcome = None \<longleftrightarrow>
        \<not> list_ex (\<lambda>item. case item of AgentMessage _ _ _ \<Rightarrow> True | _ \<Rightarrow> False) (completed_items outcome)"
    using none [of "rev (completed_items outcome)"] by (auto simp: extract_final_def split: option.splits)
  moreover have "finish md p outcome = (case extract_final outcome of None \<Rightarrow> Empty | Some (text', _) \<Rightarrow> render_final md p text')"
    if "\<not> 0 < emitted_progress p"
    using that by (auto simp: finish_def split: option.splits)
  moreover have "(case render_final md p text' of ProgressFinal _ \<Rightarrow> False | _ \<Rightarrow> True)" for text'
    by (simp add: render_final_def Let_def)
  ultimately show ?thesis
    by (cases "extract_final outcome"; cases "0 < emitted_progress p")
      (simp_all add: finish_open_card render_progress_final_def truncate_to_chars_take Let_def split: prod.splits)
qed

text \<open>
  After progress was shown, a phase-marked final answer that is blank makes the turn end with
  nothing to send, so the progress card is not finalized.
\<close>

theorem blank_final_leaves_card_running:
  "emitted_progress (snd (observe with_defaults (AgentMessageDelta ''i'' [104, 105]) 0)) = 1 \<and>
   finish md (snd (observe with_defaults (AgentMessageDelta ''i'' [104, 105]) 0))
     \<lparr>completed_items = [AgentMessage ''i'' [104, 105] (Some Commentary), AgentMessage ''j'' [32] (Some FinalAnswer)]\<rparr> = Empty"
proof -
  let ?p = "snd (observe with_defaults (AgentMessageDelta ''i'' [104, 105]) 0)"
  have p: "emitted_progress ?p = 1"
    by (simp add: Let_def maybe_emit_def push_progress_def with_defaults_def projector_new_def truncate_to_chars_take
        default_projector_config_def REPLY_MESSAGE_MAX_CHARS_def DURATION_MAX_def sat_add_u32_def u32_max_def)
  moreover have "card_text ?p \<lparr>completed_items = [AgentMessage ''i'' [104, 105] (Some Commentary), AgentMessage ''j'' [32] (Some FinalAnswer)]\<rparr> = [32]"
    by (simp add: card_text_def extract_final_def is_final_phase_def)
  moreover have "trim [32] = []" by (simp add: trim_def is_whitespace_def)
  ultimately show ?thesis
    by (simp add: finish_open_card render_progress_final_def truncate_to_chars_take del: observe.simps)
qed

text \<open>
  The live card's cumulative text is masked chunk by chunk. An address whose \<open>@\<close> ends one
  progress update and whose domain starts the next appears unmasked on the card.
\<close>

theorem chunked_masking_misses_split_address:
  "append_progress_snapshot (email_mask (ustr ''user@'')) (email_mask (ustr ''example.com'')) = ustr ''user@example.com'' \<and>
   email_mask (ustr ''user@example.com'') = ustr ''user[at]example.com''"
  by (simp add: append_progress_snapshot_def REPLY_MESSAGE_MAX_CHARS_def email_mask_mask_from ustr_def at_mask_def
      address_tail_def domain_tail_def label_def token_rest_def starts_with_digit_def
      is_local_char_def is_ascii_alphabetic_def is_ascii_digit_def is_whitespace_def)

text \<open>
  An address followed directly by sentence punctuation is not masked: the label after the last
  dot is then empty or not alphabetic.
\<close>

theorem trailing_punctuation_defeats_mask:
  "email_mask (ustr ''mail user@example.com.'') = ustr ''mail user@example.com.'' \<and>
   email_mask (ustr ''user@example.com, thanks'') = ustr ''user@example.com, thanks''"
  by (simp add: email_mask_mask_from ustr_def at_mask_def
      address_tail_def domain_tail_def label_def token_rest_def starts_with_digit_def
      is_local_char_def is_ascii_alphabetic_def is_ascii_digit_def is_whitespace_def)

end
