(* ===== verification/Inbound_Event.thy ===== *)
theory Inbound_Event
  imports Store_Base
begin

text \<open>
  One inbound message (the data of \<^verbatim>\<open>src/src/lark/normalize.rs\<close>), the tenant namespace of
  \<^verbatim>\<open>src/src/runtime/intake.rs\<close>, and the parts of \<^verbatim>\<open>src/src/store/dedup.rs\<close> that concern a single event: the
  idempotency keys of its replies, its validation, the crash-replay descriptor without resource keys, the
  binding of a live event to its descriptor, and the versioned payload. The JSON library is the argument
  \<open>inbound_codec\<close>; \<open>inbound_codec_ok\<close> states its round trip.
\<close>

section \<open>Events\<close>

datatype conversation_mode = P2p | Group | Topic

datatype scope_key = ScopeChat string | ScopeThread string string

fun scope_to_string :: "scope_key \<Rightarrow> string" where
  "scope_to_string (ScopeChat chat_id) = ''im:'' @ chat_id"
| "scope_to_string (ScopeThread chat_id thread_id) = ''im:'' @ chat_id @ '':thread:'' @ thread_id"

datatype part_status = PartAvailable | PartUnsupported | PartUnavailable

datatype transcript_failure = TranscriptInvalid | TranscriptTooLarge | TranscriptNotRetained

record media_metadata =
  mm_file_name :: "string option"
  mm_mime_type :: "string option"
  mm_size_bytes :: "nat option"
  mm_duration_ms :: "nat option"
  mm_transcript_failure :: "transcript_failure option"

record media_part =
  mp_key :: "string option"
  mp_thumbnail_key :: "string option"
  mp_metadata :: media_metadata
  mp_status :: part_status

datatype message_part =
    PText string
  | PImage media_part
  | PFile media_part
  | PSticker media_part
  | PAudio media_part
  | PVideo media_part
  | PForward "string option" part_status
  | PCard part_status
  | PUnsupported string part_status

datatype media_kind = KindImage | KindFile

record resource_desc =
  rd_kind :: media_kind
  rd_key :: string

record mention_identity =
  mi_key :: "string option"
  mi_open_id :: "string option"
  mi_user_id :: "string option"
  mi_union_id :: "string option"
  mi_name :: "string option"

record inbound_event =
  ev_event_id :: string
  ev_message_id :: string
  ev_chat_id :: string
  ev_sender_id :: string
  ev_chat_type :: conversation_mode
  ev_thread_id :: "string option"
  ev_root_id :: "string option"
  ev_reply_to_message_id :: "string option"
  ev_text :: string
  ev_mentions_bot :: bool
  ev_mention_all :: bool
  ev_sender_is_human :: bool
  ev_mentions :: "mention_identity list"
  ev_parts :: "message_part list"
  ev_resources :: "resource_desc list"
  ev_message_type :: string
  ev_create_time_ms :: int
  ev_scope :: scope_key

section \<open>Keys\<close>

text \<open>
  A tenant namespace is a digest of 32 bytes, here one 256-bit word whose most significant byte is the
  first one.
\<close>

datatype tenant_namespace = TenantNamespace "256 word"

definition hex_char :: "nat \<Rightarrow> char" where
  "hex_char d = (if d < 10 then char_of (48 + d) else char_of (87 + d))"

definition nibble :: "256 word \<Rightarrow> nat \<Rightarrow> nat" where
  "nibble w i = unat (drop_bit (4 * i) w) mod 16"

fun as_hex :: "tenant_namespace \<Rightarrow> string" where
  "as_hex (TenantNamespace w) = map (\<lambda>i. hex_char (nibble w (63 - i))) [0..<64]"

record inbound_key =
  ik_tenant :: tenant_namespace
  ik_event_id :: string

datatype inbound_rejection_kind =
    Overloaded | NotOwner | NotSender | NotGroup | MissingMention | OwnerCommandRequired | Policy | Stale | Internal

fun rejection_as_str :: "inbound_rejection_kind \<Rightarrow> string" where
  "rejection_as_str Overloaded = ''overloaded''"
| "rejection_as_str NotOwner = ''not_owner''"
| "rejection_as_str NotSender = ''not_sender''"
| "rejection_as_str NotGroup = ''not_group''"
| "rejection_as_str MissingMention = ''missing_mention''"
| "rejection_as_str OwnerCommandRequired = ''owner_command_required''"
| "rejection_as_str Policy = ''policy''"
| "rejection_as_str Stale = ''stale''"
| "rejection_as_str Internal = ''internal''"

definition all_rejections :: "inbound_rejection_kind list" where
  "all_rejections = [Overloaded, NotOwner, NotSender, NotGroup, MissingMention, OwnerCommandRequired, Policy, Stale, Internal]"

definition is_classified_inbound_rejection :: "string \<Rightarrow> bool" where
  "is_classified_inbound_rejection reason = list_ex (\<lambda>kind. rejection_as_str kind = reason) all_rejections"

definition inbound_reply_outbox_key :: "string \<Rightarrow> string \<Rightarrow> string \<Rightarrow> string" where
  "inbound_reply_outbox_key tenant event_id suffix' = ''inbound:v1:'' @ tenant @ '':'' @ event_id @ '':'' @ suffix'"

definition control_outbox_idempotency_key :: "inbound_key \<Rightarrow> string" where
  "control_outbox_idempotency_key key = inbound_reply_outbox_key (as_hex (ik_tenant key)) (ik_event_id key) ''control''"

definition rejection_outbox_idempotency_key :: "inbound_key \<Rightarrow> inbound_rejection_kind \<Rightarrow> string" where
  "rejection_outbox_idempotency_key key reason =
     inbound_reply_outbox_key (as_hex (ik_tenant key)) (ik_event_id key) (''notice:'' @ rejection_as_str reason)"

definition is_tenant_namespace :: "string \<Rightarrow> bool" where
  "is_tenant_namespace tenant \<longleftrightarrow>
     length tenant = 64 \<and>
     list_all (\<lambda>ch. let b = of_char ch :: nat in 48 \<le> b \<and> b \<le> 57 \<or> 97 \<le> b \<and> b \<le> 102) tenant"

datatype turn_resolution = TurnCompleted | TurnFailedRes | TurnInterrupted | TurnUncertain

section \<open>Validation\<close>

definition validate_id :: "string \<Rightarrow> string \<Rightarrow> (store_error, unit) result" where
  "validate_id value' context' =
     ensure (value' \<noteq> [] \<and> length value' \<le> STORE_INBOUND_ID_MAX_BYTES) (PayloadTooLarge context' STORE_INBOUND_ID_MAX_BYTES)"

definition validate_optional_id :: "string option \<Rightarrow> string \<Rightarrow> (store_error, unit) result" where
  "validate_optional_id value' context' = (case value' of None \<Rightarrow> Inr () | Some v \<Rightarrow> validate_id v context')"

definition validate_incoming_key :: "inbound_event \<Rightarrow> (store_error, unit) result" where
  "validate_incoming_key event =
     all_ok [validate_id (ev_event_id event) ''validating an inbound event ID'',
             validate_id (ev_message_id event) ''validating an inbound message ID'']"

definition some_values :: "'a option list \<Rightarrow> 'a list" where
  "some_values xs = concat (map (\<lambda>x. case x of None \<Rightarrow> [] | Some v \<Rightarrow> [v]) xs)"

definition is_ascii_control :: "char \<Rightarrow> bool" where
  "is_ascii_control ch \<longleftrightarrow> (of_char ch :: nat) < 32 \<or> (of_char ch :: nat) = 127"

definition file_name_ok :: "string \<Rightarrow> bool" where
  "file_name_ok name \<longleftrightarrow>
     name \<noteq> [] \<and> length name \<le> ATTACHMENT_FILE_NAME_MAX_BYTES \<and> name \<noteq> ''.'' \<and> name \<noteq> ''..'' \<and>
     list_all (\<lambda>ch. \<not> is_ascii_control ch \<and> ch \<noteq> CHR ''/'' \<and> ch \<noteq> CHR 0x5C) name"

definition mime_ok :: "string \<Rightarrow> bool" where
  "mime_ok mime \<longleftrightarrow>
     mime \<noteq> [] \<and> length mime \<le> ATTACHMENT_MIME_MAX_BYTES \<and>
     list_all (\<lambda>ch. 32 \<le> (of_char ch :: nat) \<and> (of_char ch :: nat) \<le> 126) mime"

definition validate_media_part :: "media_part \<Rightarrow> (store_error, unit) result" where
  "validate_media_part media =
     all_ok
      [for_each (\<lambda>key. ensure (key \<noteq> [] \<and> length key \<le> STORE_INBOUND_RESOURCE_KEY_MAX_BYTES)
                   (PayloadTooLarge ''validating an inbound media key'' STORE_INBOUND_RESOURCE_KEY_MAX_BYTES))
         (some_values [mp_key media, mp_thumbnail_key media]),
       ensure (\<not> (mp_status media = PartAvailable \<and> mp_key media = None))
         (CorruptData ''validating an available inbound media part''),
       ensure (case mm_file_name (mp_metadata media) of None \<Rightarrow> True | Some name \<Rightarrow> file_name_ok name)
         (CorruptData ''validating inbound media file name metadata''),
       ensure (case mm_mime_type (mp_metadata media) of None \<Rightarrow> True | Some mime \<Rightarrow> mime_ok mime)
         (CorruptData ''validating inbound media MIME metadata'')]"

fun validate_part :: "message_part \<Rightarrow> (store_error, unit) result" where
  "validate_part (PText text') =
     ensure (length text' \<le> STORE_INBOUND_TEXT_MAX_BYTES)
       (PayloadTooLarge ''validating an inbound text part'' STORE_INBOUND_TEXT_MAX_BYTES)"
| "validate_part (PImage media) = validate_media_part media"
| "validate_part (PFile media) = validate_media_part media"
| "validate_part (PSticker media) = validate_media_part media"
| "validate_part (PAudio media) = validate_media_part media"
| "validate_part (PVideo media) = validate_media_part media"
| "validate_part (PForward message_id _) =
     validate_optional_id message_id ''validating an inbound forwarded message ID''"
| "validate_part (PCard _) = Inr ()"
| "validate_part (PUnsupported message_type _) =
     ensure (message_type \<noteq> [] \<and> length message_type \<le> STORE_INBOUND_MESSAGE_TYPE_MAX_BYTES)
       (PayloadTooLarge ''validating an unsupported inbound message type'' STORE_INBOUND_MESSAGE_TYPE_MAX_BYTES)"

definition validate_mention :: "mention_identity \<Rightarrow> (store_error, unit) result" where
  "validate_mention mention =
     all_ok
      [for_each (\<lambda>value'. ensure (length value' \<le> STORE_INBOUND_ID_MAX_BYTES)
                   (PayloadTooLarge ''validating an inbound mention identity'' STORE_INBOUND_ID_MAX_BYTES))
         (some_values [mi_key mention, mi_open_id mention, mi_user_id mention, mi_union_id mention]),
       ensure (case mi_name mention of None \<Rightarrow> True | Some name \<Rightarrow> length name \<le> STORE_INBOUND_TEXT_MAX_BYTES)
         (PayloadTooLarge ''validating an inbound mention name'' STORE_INBOUND_TEXT_MAX_BYTES)]"

fun scope_consistent :: "inbound_event \<Rightarrow> scope_key \<Rightarrow> (store_error, unit) result" where
  "scope_consistent event (ScopeChat chat_id) =
     ensure (chat_id = ev_chat_id event \<and> ev_thread_id event = None)
       (CorruptData ''validating inbound chat scope consistency'')"
| "scope_consistent event (ScopeThread chat_id thread_id) =
     ensure (chat_id = ev_chat_id event \<and> ev_thread_id event = Some thread_id \<and> ev_chat_type event = Topic)
       (CorruptData ''validating inbound thread scope consistency'')"

definition validate_event :: "inbound_event \<Rightarrow> (store_error, unit) result" where
  "validate_event event =
     all_ok
      [validate_incoming_key event,
       validate_id (ev_chat_id event) ''validating an inbound chat ID'',
       validate_id (ev_sender_id event) ''validating an inbound sender ID'',
       validate_optional_id (ev_thread_id event) ''validating an inbound thread ID'',
       validate_optional_id (ev_root_id event) ''validating an inbound root ID'',
       validate_optional_id (ev_reply_to_message_id event) ''validating an inbound reply ID'',
       ensure (length (scope_to_string (ev_scope event)) \<le> STORE_INBOUND_SCOPE_MAX_BYTES)
         (PayloadTooLarge ''validating an inbound scope'' STORE_INBOUND_SCOPE_MAX_BYTES),
       scope_consistent event (ev_scope event),
       ensure (length (ev_message_type event) \<le> STORE_INBOUND_MESSAGE_TYPE_MAX_BYTES)
         (PayloadTooLarge ''validating an inbound message type'' STORE_INBOUND_MESSAGE_TYPE_MAX_BYTES),
       ensure (length (ev_text event) \<le> STORE_INBOUND_TEXT_MAX_BYTES)
         (PayloadTooLarge ''validating inbound text'' STORE_INBOUND_TEXT_MAX_BYTES),
       ensure (length (ev_resources event) \<le> STORE_INBOUND_RESOURCE_MAX_COUNT)
         (CapacityExceeded ''validating inbound resource count''),
       for_each (\<lambda>resource. ensure (rd_key resource \<noteq> [] \<and> length (rd_key resource) \<le> STORE_INBOUND_RESOURCE_KEY_MAX_BYTES)
                   (PayloadTooLarge ''validating an inbound resource key'' STORE_INBOUND_RESOURCE_KEY_MAX_BYTES))
         (ev_resources event),
       ensure (foldl (\<lambda>n resource. sat_add_u64 n (length (rd_key resource))) 0 (ev_resources event)
                 \<le> STORE_INBOUND_RESOURCE_KEY_MAX_TOTAL_BYTES)
         (CapacityExceeded ''validating aggregate inbound resource keys''),
       ensure (length (ev_mentions event) \<le> STORE_INBOUND_RESOURCE_MAX_COUNT)
         (CapacityExceeded ''validating inbound mention count''),
       for_each validate_mention (ev_mentions event),
       ensure (length (ev_parts event) \<le> STORE_INBOUND_RESOURCE_MAX_COUNT)
         (CapacityExceeded ''validating inbound part count''),
       for_each validate_part (ev_parts event)]"

section \<open>Request sizes\<close>

definition opt_len :: "string option \<Rightarrow> nat" where
  "opt_len x = (case x of None \<Rightarrow> 0 | Some s \<Rightarrow> length s)"

definition mention_variable_bytes :: "mention_identity \<Rightarrow> nat" where
  "mention_variable_bytes mention =
     foldl sat_add_u64 0 (map length (some_values [mi_key mention, mi_open_id mention, mi_user_id mention, mi_union_id mention, mi_name mention]))"

definition metadata_variable_bytes :: "media_metadata \<Rightarrow> nat" where
  "metadata_variable_bytes metadata = sat_add_u64 (opt_len (mm_file_name metadata)) (opt_len (mm_mime_type metadata))"

definition media_variable_bytes :: "media_part \<Rightarrow> nat" where
  "media_variable_bytes media =
     sat_add_u64 (sat_add_u64 (opt_len (mp_key media)) (opt_len (mp_thumbnail_key media)))
       (metadata_variable_bytes (mp_metadata media))"

fun part_variable_bytes :: "message_part \<Rightarrow> nat" where
  "part_variable_bytes (PText text') = length text'"
| "part_variable_bytes (PImage media) = media_variable_bytes media"
| "part_variable_bytes (PFile media) = media_variable_bytes media"
| "part_variable_bytes (PSticker media) = media_variable_bytes media"
| "part_variable_bytes (PAudio media) = media_variable_bytes media"
| "part_variable_bytes (PVideo media) = media_variable_bytes media"
| "part_variable_bytes (PForward message_id _) = opt_len message_id"
| "part_variable_bytes (PCard _) = 0"
| "part_variable_bytes (PUnsupported message_type _) = length message_type"

fun scope_variable_bytes :: "scope_key \<Rightarrow> nat" where
  "scope_variable_bytes (ScopeChat chat_id) = length chat_id"
| "scope_variable_bytes (ScopeThread chat_id thread_id) = sat_add_u64 (length chat_id) (length thread_id)"

definition inbound_event_variable_bytes :: "inbound_event \<Rightarrow> nat" where
  "inbound_event_variable_bytes event =
     foldl sat_add_u64 0
       [length (ev_event_id event), length (ev_message_id event), length (ev_chat_id event), length (ev_sender_id event),
        opt_len (ev_thread_id event), opt_len (ev_root_id event), opt_len (ev_reply_to_message_id event),
        length (ev_text event), length (ev_message_type event), scope_variable_bytes (ev_scope event),
        sum_list (map (\<lambda>resource. length (rd_key resource)) (ev_resources event)),
        sum_list (map mention_variable_bytes (ev_mentions event)),
        sum_list (map part_variable_bytes (ev_parts event))]"

section \<open>The crash-replay descriptor\<close>

definition strip_media :: "media_part \<Rightarrow> media_part" where
  "strip_media media = media\<lparr>mp_key := None, mp_thumbnail_key := None,
     mp_status := (if mp_status media = PartAvailable then PartUnavailable else mp_status media)\<rparr>"

fun persistable_part :: "message_part \<Rightarrow> message_part" where
  "persistable_part (PImage media) = PImage (strip_media media)"
| "persistable_part (PFile media) = PFile (strip_media media)"
| "persistable_part (PSticker media) = PSticker (strip_media media)"
| "persistable_part (PAudio media) = PAudio (strip_media media)"
| "persistable_part (PVideo media) = PVideo (strip_media media)"
| "persistable_part part = part"

definition persistable_event :: "inbound_event \<Rightarrow> inbound_event" where
  "persistable_event event = event\<lparr>ev_resources := [], ev_parts := map persistable_part (ev_parts event)\<rparr>"

definition legacy_media_part :: "resource_desc list \<Rightarrow> media_kind \<Rightarrow> media_part" where
  "legacy_media_part resources kind =
     (let key = map_option rd_key (List.find (\<lambda>resource. rd_kind resource = kind) resources) in
      \<lparr>mp_key = key, mp_thumbnail_key = None,
       mp_metadata = \<lparr>mm_file_name = None, mm_mime_type = None, mm_size_bytes = None, mm_duration_ms = None, mm_transcript_failure = None\<rparr>,
       mp_status = (if key \<noteq> None then PartAvailable else PartUnavailable)\<rparr>)"

definition parts_from_v1 :: "string \<Rightarrow> string \<Rightarrow> resource_desc list \<Rightarrow> message_part list" where
  "parts_from_v1 message_type text' resources =
     (if message_type = ''text'' then [PText text']
      else if message_type = ''image'' then [PImage (legacy_media_part resources KindImage)]
      else if message_type = ''file'' then [PFile (legacy_media_part resources KindFile)]
      else [PUnsupported message_type PartUnsupported])"

definition same_persisted_media_metadata :: "media_part \<Rightarrow> media_part \<Rightarrow> bool" where
  "same_persisted_media_metadata left right \<longleftrightarrow>
     mp_key right = None \<and> mp_thumbnail_key right = None \<and>
     mp_status right = (if mp_status left = PartAvailable then PartUnavailable else mp_status left) \<and>
     mm_file_name (mp_metadata left) = mm_file_name (mp_metadata right) \<and>
     mm_mime_type (mp_metadata left) = mm_mime_type (mp_metadata right) \<and>
     mm_size_bytes (mp_metadata left) = mm_size_bytes (mp_metadata right) \<and>
     mm_duration_ms (mp_metadata left) = mm_duration_ms (mp_metadata right) \<and>
     mm_transcript_failure (mp_metadata left) = mm_transcript_failure (mp_metadata right)"

definition same_shape :: "message_part \<Rightarrow> message_part \<Rightarrow> bool" where
  "same_shape live_part persisted_part =
     (case (live_part, persisted_part) of
        (PText left, PText right) \<Rightarrow> (left = right)
      | (PImage left, PImage right) \<Rightarrow> same_persisted_media_metadata left right
      | (PFile left, PFile right) \<Rightarrow> same_persisted_media_metadata left right
      | (PSticker left, PSticker right) \<Rightarrow> same_persisted_media_metadata left right
      | (PAudio left, PAudio right) \<Rightarrow> same_persisted_media_metadata left right
      | (PVideo left, PVideo right) \<Rightarrow> same_persisted_media_metadata left right
      | (PForward left_id left_status, PForward right_id right_status) \<Rightarrow> (left_id = right_id \<and> left_status = right_status)
      | (PCard left_status, PCard right_status) \<Rightarrow> (left_status = right_status)
      | (PUnsupported left_type left_status, PUnsupported right_type right_status) \<Rightarrow> (left_type = right_type \<and> left_status = right_status)
      | _ \<Rightarrow> False)"

definition validate_live_claim :: "inbound_event \<Rightarrow> inbound_event \<Rightarrow> (store_error, unit) result" where
  "validate_live_claim live persisted =
     (let live_parts = (if ev_parts live = [] then parts_from_v1 (ev_message_type live) (ev_text live) (ev_resources live)
                        else ev_parts live) in
      all_ok
       [ensure (ev_event_id live = ev_event_id persisted \<and> ev_message_id live = ev_message_id persisted \<and>
                ev_chat_id live = ev_chat_id persisted \<and> ev_sender_id live = ev_sender_id persisted \<and>
                ev_chat_type live = ev_chat_type persisted \<and> ev_thread_id live = ev_thread_id persisted \<and>
                ev_root_id live = ev_root_id persisted \<and> ev_reply_to_message_id live = ev_reply_to_message_id persisted \<and>
                ev_text live = ev_text persisted \<and> ev_mentions_bot live = ev_mentions_bot persisted \<and>
                ev_mention_all live = ev_mention_all persisted \<and> ev_sender_is_human live = ev_sender_is_human persisted \<and>
                ev_mentions live = ev_mentions persisted \<and> ev_message_type live = ev_message_type persisted \<and>
                ev_create_time_ms live = ev_create_time_ms persisted \<and> ev_scope live = ev_scope persisted)
          (CorruptData ''binding a live inbound event to its durable descriptor''),
        ensure (length live_parts = length (ev_parts persisted)) (CorruptData ''binding live inbound part count''),
        for_each (\<lambda>(live_part, persisted_part). ensure (same_shape live_part persisted_part)
                    (CorruptData ''binding live inbound part shapes''))
          (zip live_parts (ev_parts persisted))])"

section \<open>The versioned payload\<close>

definition INBOUND_PAYLOAD_VERSION :: int where
  "INBOUND_PAYLOAD_VERSION = 1"

datatype scope_kind_wire = WireChat | WireThread

record scope_wire =
  sw_kind :: scope_kind_wire
  sw_chat_id :: string
  sw_thread_id :: "string option"

text \<open>The wire enumerations of the chat mode and the resource kind have the variants of the enumerations above.\<close>

record inbound_payload_v1 =
  pv_event_id :: string
  pv_message_id :: string
  pv_chat_id :: string
  pv_sender_id :: string
  pv_chat_type :: conversation_mode
  pv_thread_id :: "string option"
  pv_root_id :: "string option"
  pv_reply_to_message_id :: "string option"
  pv_text :: string
  pv_mentions_bot :: bool
  pv_mention_all :: bool
  pv_sender_is_human :: bool
  pv_mentions :: "mention_identity list"
  pv_parts :: "message_part list"
  pv_resources :: "resource_desc list"
  pv_message_type :: string
  pv_create_time_ms :: int
  pv_scope :: scope_wire

record inbound_codec =
  to_vec :: "inbound_payload_v1 \<Rightarrow> string option"
  from_slice :: "string \<Rightarrow> inbound_payload_v1 option"

fun wire_of_scope :: "scope_key \<Rightarrow> scope_wire" where
  "wire_of_scope (ScopeChat chat_id) = \<lparr>sw_kind = WireChat, sw_chat_id = chat_id, sw_thread_id = None\<rparr>"
| "wire_of_scope (ScopeThread chat_id thread_id) =
     \<lparr>sw_kind = WireThread, sw_chat_id = chat_id, sw_thread_id = Some thread_id\<rparr>"

definition scope_of_wire :: "scope_wire \<Rightarrow> (store_error, scope_key) result" where
  "scope_of_wire w =
     (case (sw_kind w, sw_thread_id w) of
        (WireChat, None) \<Rightarrow> Inr (ScopeChat (sw_chat_id w))
      | (WireThread, Some thread_id) \<Rightarrow> Inr (ScopeThread (sw_chat_id w) thread_id)
      | _ \<Rightarrow> Inl (CorruptData ''decoding an inbound scope''))"

definition from_event :: "inbound_event \<Rightarrow> inbound_payload_v1" where
  "from_event event =
     \<lparr>pv_event_id = ev_event_id event, pv_message_id = ev_message_id event, pv_chat_id = ev_chat_id event,
      pv_sender_id = ev_sender_id event, pv_chat_type = ev_chat_type event, pv_thread_id = ev_thread_id event,
      pv_root_id = ev_root_id event, pv_reply_to_message_id = ev_reply_to_message_id event, pv_text = ev_text event,
      pv_mentions_bot = ev_mentions_bot event, pv_mention_all = ev_mention_all event,
      pv_sender_is_human = ev_sender_is_human event, pv_mentions = ev_mentions event, pv_parts = ev_parts event,
      pv_resources = ev_resources event, pv_message_type = ev_message_type event,
      pv_create_time_ms = ev_create_time_ms event, pv_scope = wire_of_scope (ev_scope event)\<rparr>"

definition into_event :: "inbound_payload_v1 \<Rightarrow> (store_error, inbound_event) result" where
  "into_event p =
     result_bind (scope_of_wire (pv_scope p)) (\<lambda>scope.
       let parts = (if pv_parts p = [] then parts_from_v1 (pv_message_type p) (pv_text p) (pv_resources p) else pv_parts p);
           event = \<lparr>ev_event_id = pv_event_id p, ev_message_id = pv_message_id p, ev_chat_id = pv_chat_id p,
             ev_sender_id = pv_sender_id p, ev_chat_type = pv_chat_type p, ev_thread_id = pv_thread_id p,
             ev_root_id = pv_root_id p, ev_reply_to_message_id = pv_reply_to_message_id p, ev_text = pv_text p,
             ev_mentions_bot = pv_mentions_bot p, ev_mention_all = pv_mention_all p,
             ev_sender_is_human = pv_sender_is_human p, ev_mentions = pv_mentions p, ev_parts = parts,
             ev_resources = pv_resources p, ev_message_type = pv_message_type p,
             ev_create_time_ms = pv_create_time_ms p, ev_scope = scope\<rparr>
       in result_bind (validate_event event) (\<lambda>_. Inr event))"

definition encode_event :: "inbound_codec \<Rightarrow> inbound_event \<Rightarrow> (store_error, string) result" where
  "encode_event c event =
     result_bind (validate_event event) (\<lambda>_.
       case to_vec c (from_event (persistable_event event)) of
         None \<Rightarrow> Inl (CorruptData ''encoding an inbound payload'')
       | Some payload \<Rightarrow>
           if length payload > STORE_INBOUND_PAYLOAD_MAX_BYTES
           then Inl (PayloadTooLarge ''encoding an inbound payload'' STORE_INBOUND_PAYLOAD_MAX_BYTES)
           else Inr payload)"

text \<open>
  What the store relies on of \<open>serde_json\<close>: what it wrote it reads back, and the text of an object holds
  the event id and the field names, so it is longer than the id by more than the 256 bytes those names take.
\<close>

definition inbound_codec_ok :: "inbound_codec \<Rightarrow> bool" where
  "inbound_codec_ok c \<longleftrightarrow>
     (\<forall>p payload. to_vec c p = Some payload \<longrightarrow>
        from_slice c payload = Some p \<and> length (pv_event_id p) + 256 \<le> length payload)"

section \<open>Stored rows\<close>

datatype inbound_event_state = EvReceived | EvAccepted | EvCompleted | EvRejected

fun inbound_state_as_str :: "inbound_event_state \<Rightarrow> string" where
  "inbound_state_as_str EvReceived = ''received''"
| "inbound_state_as_str EvAccepted = ''accepted''"
| "inbound_state_as_str EvCompleted = ''completed''"
| "inbound_state_as_str EvRejected = ''rejected''"

definition inbound_state_parse :: "string \<Rightarrow> inbound_event_state option" where
  "inbound_state_parse text' =
     (if text' = ''received'' then Some EvReceived
      else if text' = ''accepted'' then Some EvAccepted
      else if text' = ''completed'' then Some EvCompleted
      else if text' = ''rejected'' then Some EvRejected
      else None)"

definition inbound_is_terminal :: "inbound_event_state \<Rightarrow> bool" where
  "inbound_is_terminal state \<longleftrightarrow> state = EvCompleted \<or> state = EvRejected"

text \<open>A row of \<open>inbound_events\<close>: the fields of \<open>StoredInbound\<close> with the tenant and the time columns.\<close>

record inbound_row =
  ir_tenant :: string
  ir_event_id :: string
  ir_message_id :: string
  ir_scope_key :: string
  ir_state :: inbound_event_state
  ir_first_seen_ms :: int
  ir_updated_ms :: int
  ir_payload_version :: "int option"
  ir_payload_blob :: "string option"
  ir_payload_bytes :: int
  ir_turn_row_id :: "int option"
  ir_rejection_reason :: "string option"
  ir_reply_outbox_key :: "string option"

record retained_inbound =
  ri_event :: inbound_event
  ri_retained_bytes :: nat

definition retained_from_stored :: "inbound_codec \<Rightarrow> inbound_row \<Rightarrow> (store_error, retained_inbound) result" where
  "retained_from_stored c stored =
     (if ir_state stored \<noteq> EvReceived \<and> ir_state stored \<noteq> EvAccepted
      then Inl (CorruptData ''decoding a terminal inbound payload'')
      else case ir_payload_version stored of
        None \<Rightarrow> Inl (CorruptData ''decoding an inbound payload version'')
      | Some version \<Rightarrow>
          if version \<noteq> INBOUND_PAYLOAD_VERSION \<or> ir_payload_bytes stored < 0
          then Inl (CorruptData ''decoding an inbound payload version'')
          else case ir_payload_blob stored of
            None \<Rightarrow> Inl (CorruptData ''decoding a missing inbound payload'')
          | Some payload \<Rightarrow>
              if ir_payload_bytes stored \<noteq> int (length payload) \<or> length payload > STORE_INBOUND_PAYLOAD_MAX_BYTES
              then Inl (CorruptData ''validating an inbound payload length'')
              else case from_slice c payload of
                None \<Rightarrow> Inl (CorruptData ''decoding a strict inbound payload v1'')
              | Some dto \<Rightarrow>
                  result_bind (into_event dto) (\<lambda>event.
                    if ev_event_id event \<noteq> ir_event_id stored \<or> ev_message_id event \<noteq> ir_message_id stored \<or>
                       scope_to_string (ev_scope event) \<noteq> ir_scope_key stored
                    then Inl (CorruptData ''validating inbound row and payload identity'')
                    else Inr \<lparr>ri_event = event, ri_retained_bytes = length payload\<rparr>))"

section \<open>Replay\<close>

lemma wire_of_scope_roundtrip [simp]: "scope_of_wire (wire_of_scope scope) = Inr scope"
  by (cases scope) (simp_all add: scope_of_wire_def)

lemma validate_media_part_strip: "validate_media_part media = Inr () \<Longrightarrow> validate_media_part (strip_media media) = Inr ()"
  by (auto simp: validate_media_part_def strip_media_def some_values_def)

lemma validate_part_persistable: "validate_part part = Inr () \<Longrightarrow> validate_part (persistable_part part) = Inr ()"
  by (cases part) (simp_all add: validate_media_part_strip)

lemma same_media_strip: "same_persisted_media_metadata media (strip_media media)"
  by (simp add: same_persisted_media_metadata_def strip_media_def)

lemma same_shape_persistable: "same_shape part (persistable_part part)"
  by (cases part) (simp_all add: same_shape_def same_media_strip)

lemma parts_from_v1_same_shape:
  "for_each (\<lambda>(x, y). ensure (same_shape x y) e) (zip (parts_from_v1 mt text' resources) (parts_from_v1 mt text' [])) = Inr ()"
  by (auto simp: parts_from_v1_def legacy_media_part_def same_persisted_media_metadata_def ensure_def same_shape_def)

lemma length_parts_from_v1 [simp]: "length (parts_from_v1 mt text' resources) = 1"
  by (simp add: parts_from_v1_def)

lemma validate_parts_from_v1:
  "validate_event event = Inr () \<Longrightarrow> ev_message_type event \<noteq> [] \<Longrightarrow>
     for_each validate_part (parts_from_v1 (ev_message_type event) (ev_text event) []) = Inr ()"
  by (auto simp: parts_from_v1_def validate_event_def validate_media_part_def legacy_media_part_def some_values_def)

text \<open>The event that a restart reads back.\<close>

definition replayed_event :: "inbound_event \<Rightarrow> inbound_event" where
  "replayed_event event = (persistable_event event)\<lparr>ev_parts :=
     (if ev_parts event = [] then parts_from_v1 (ev_message_type event) (ev_text event) []
      else map persistable_part (ev_parts event))\<rparr>"

lemma validate_replayed_event:
  assumes "validate_event event = Inr ()" "ev_parts event \<noteq> [] \<or> ev_message_type event \<noteq> []"
  shows "validate_event (replayed_event event) = Inr ()"
proof -
  have "for_each validate_part (ev_parts (replayed_event event)) = Inr ()"
    using assms validate_parts_from_v1 [OF assms(1)]
    by (auto simp: replayed_event_def validate_event_def for_each_iff list_all_iff validate_part_persistable)
  moreover have "length (ev_parts (replayed_event event)) \<le> STORE_INBOUND_RESOURCE_MAX_COUNT"
    using assms(1) by (auto simp: replayed_event_def validate_event_def STORE_INBOUND_RESOURCE_MAX_COUNT_def)
  moreover have "scope_consistent (replayed_event event) s = scope_consistent event s" for s
    by (cases s) (simp_all add: replayed_event_def persistable_event_def)
  ultimately show ?thesis
    using assms(1) by (simp add: validate_event_def validate_incoming_key_def)
      (simp add: replayed_event_def persistable_event_def)
qed

lemma into_event_replays:
  assumes "validate_event event = Inr ()" "ev_parts event \<noteq> [] \<or> ev_message_type event \<noteq> []"
  shows "into_event (from_event (persistable_event event)) = Inr (replayed_event event)"
proof -
  have "into_event (from_event (persistable_event event)) =
      result_bind (validate_event (replayed_event event)) (\<lambda>_. Inr (replayed_event event))"
    by (cases event) (simp add: into_event_def from_event_def persistable_event_def replayed_event_def Let_def)
  with validate_replayed_event [OF assms] show ?thesis by simp
qed

lemma live_claim_replayed: "validate_live_claim event (replayed_event event) = Inr ()"
proof -
  have "for_each (\<lambda>(x, y). ensure (same_shape x y) e) (zip parts (map persistable_part parts)) = Inr ()" for parts and e :: store_error
    by (induction parts) (simp_all add: ensure_def same_shape_persistable)
  then show ?thesis
    by (simp add: validate_live_claim_def replayed_event_def persistable_event_def Let_def parts_from_v1_same_shape)
qed

lemma encoded_row_replays:
  assumes "inbound_codec_ok c" "encode_event c event = Inr payload"
    and "ev_parts event \<noteq> [] \<or> ev_message_type event \<noteq> []"
    and "ir_state row = EvReceived \<or> ir_state row = EvAccepted"
    and "ir_payload_version row = Some 1" "ir_payload_blob row = Some payload" "ir_payload_bytes row = int (length payload)"
    and "ir_event_id row = ev_event_id event" "ir_message_id row = ev_message_id event"
    and "ir_scope_key row = scope_to_string (ev_scope event)"
  shows "retained_from_stored c row = Inr \<lparr>ri_event = replayed_event event, ri_retained_bytes = length payload\<rparr>"
    and "length (ir_event_id row) + 256 \<le> length payload"
proof -
  from assms(2) have valid: "validate_event event = Inr ()"
    and vec: "to_vec c (from_event (persistable_event event)) = Some payload"
    and len: "length payload \<le> STORE_INBOUND_PAYLOAD_MAX_BYTES"
    by (auto simp: encode_event_def split: option.splits if_splits)
  have "from_slice c payload = Some (from_event (persistable_event event))"
    and "length (pv_event_id (from_event (persistable_event event))) + 256 \<le> length payload"
    using assms(1) vec by (auto simp: inbound_codec_ok_def)
  then show "retained_from_stored c row = Inr \<lparr>ri_event = replayed_event event, ri_retained_bytes = length payload\<rparr>"
    and "length (ir_event_id row) + 256 \<le> length payload"
    using assms(4-) len into_event_replays [OF valid assms(3)]
    by (auto simp: retained_from_stored_def INBOUND_PAYLOAD_VERSION_def replayed_event_def persistable_event_def from_event_def)
qed

text \<open>
  C39: an event the store accepted is read back after a restart. Decoding its row succeeds
  and gives the same identity, text, mentions and scope, so the authenticated live event, redelivered
  later, still binds to it; only resource keys and availability are gone. The event has a part or
  a message type, as every event of the normalizer has.
\<close>

theorem restart_replays_registered_event:
  assumes "inbound_codec_ok c" "encode_event c event = Inr payload"
    and "ev_parts event \<noteq> [] \<or> ev_message_type event \<noteq> []"
    and "ir_state row = EvReceived \<or> ir_state row = EvAccepted"
    and "ir_payload_version row = Some 1" "ir_payload_blob row = Some payload" "ir_payload_bytes row = int (length payload)"
    and "ir_event_id row = ev_event_id event" "ir_message_id row = ev_message_id event"
    and "ir_scope_key row = scope_to_string (ev_scope event)"
  shows "\<exists>replayed. retained_from_stored c row = Inr \<lparr>ri_event = replayed, ri_retained_bytes = length payload\<rparr> \<and>
           validate_live_claim event replayed = Inr () \<and> validate_event replayed = Inr () \<and> ev_resources replayed = []"
proof -
  from assms(2) have "validate_event event = Inr ()" by (auto simp: encode_event_def)
  then show ?thesis
    using encoded_row_replays [OF assms] live_claim_replayed validate_replayed_event [OF _ assms(3)]
    by (simp add: replayed_event_def persistable_event_def)
qed

definition demo_event :: inbound_event where
  "demo_event = \<lparr>ev_event_id = ''e'', ev_message_id = ''m'', ev_chat_id = ''c'', ev_sender_id = ''u'', ev_chat_type = P2p,
     ev_thread_id = None, ev_root_id = None, ev_reply_to_message_id = None, ev_text = ''hi'', ev_mentions_bot = False,
     ev_mention_all = False, ev_sender_is_human = True, ev_mentions = [], ev_parts = [PText ''hi''], ev_resources = [],
     ev_message_type = ''text'', ev_create_time_ms = 0, ev_scope = ScopeChat ''c''\<rparr>"

definition demo_payload :: string where
  "demo_payload = replicate 300 (CHR ''x'')"

definition demo_codec :: inbound_codec where
  "demo_codec = \<lparr>to_vec = (\<lambda>p. if p = from_event (persistable_event demo_event) then Some demo_payload else None),
     from_slice = (\<lambda>s. if s = demo_payload then Some (from_event (persistable_event demo_event)) else None)\<rparr>"

lemma demo_codec_ok: "inbound_codec_ok demo_codec"
  by (simp add: inbound_codec_ok_def demo_codec_def demo_payload_def from_event_def persistable_event_def demo_event_def)

lemma demo_event_valid: "validate_event demo_event = Inr ()"
  by (simp add: validate_event_def validate_incoming_key_def validate_id_def validate_optional_id_def demo_event_def
      inbound_limit_defs)

lemma demo_event_encodes: "encode_event demo_codec demo_event = Inr demo_payload"
  by (simp add: encode_event_def demo_event_valid) (simp add: demo_codec_def demo_payload_def inbound_limit_defs)

definition demo_row :: inbound_row where
  "demo_row = \<lparr>ir_tenant = as_hex (TenantNamespace 0), ir_event_id = ''e'', ir_message_id = ''m'', ir_scope_key = ''im:c'',
     ir_state = EvReceived, ir_first_seen_ms = 0, ir_updated_ms = 0, ir_payload_version = Some 1,
     ir_payload_blob = Some demo_payload, ir_payload_bytes = 300, ir_turn_row_id = None, ir_rejection_reason = None,
     ir_reply_outbox_key = None\<rparr>"

theorem restart_replays_registered_event_witness:
  "\<exists>replayed. retained_from_stored demo_codec demo_row = Inr \<lparr>ri_event = replayed, ri_retained_bytes = 300\<rparr>"
  using restart_replays_registered_event [OF demo_codec_ok demo_event_encodes, of demo_row]
  by (auto simp: demo_event_def demo_row_def demo_payload_def)

section \<open>Keys of replies\<close>

lemma length_as_hex [simp]: "length (as_hex tenant) = 64"
  by (cases tenant) simp

lemma hex_char_inject: "m < 16 \<Longrightarrow> n < 16 \<Longrightarrow> hex_char m = hex_char n \<longleftrightarrow> m = n"
proof
  assume "m < 16" "n < 16" "hex_char m = hex_char n"
  then have "(of_char (hex_char m) :: nat) = of_char (hex_char n)" by simp
  with \<open>m < 16\<close> \<open>n < 16\<close> show "m = n" by (simp add: hex_char_def split: if_splits)
qed simp

lemma bit_nibble: "j < 4 \<Longrightarrow> bit (nibble w i) j = bit w (4 * i + j)"
proof -
  assume j: "j < 4"
  have "nibble w i = take_bit 4 (unat (drop_bit (4 * i) w))" by (simp add: nibble_def take_bit_eq_mod)
  with j show ?thesis by (simp add: bit_take_bit_iff bit_unsigned_iff bit_drop_bit_eq)
qed

lemma nibbles_inject:
  assumes "\<And>i. i < 64 \<Longrightarrow> nibble v i = nibble w i"
  shows "v = w"
proof (rule bit_word_eqI)
  fix n assume "n < LENGTH(256)"
  then have i: "n div 4 < 64" and n: "4 * (n div 4) + n mod 4 = n" by simp_all
  have "bit v (4 * (n div 4) + n mod 4) = bit w (4 * (n div 4) + n mod 4)"
    using bit_nibble [of "n mod 4" v "n div 4"] bit_nibble [of "n mod 4" w "n div 4"] assms [OF i] by simp
  with n show "bit v n = bit w n" by simp
qed

lemma as_hex_inject [simp]: "as_hex a = as_hex b \<longleftrightarrow> a = b"
proof (cases a; cases b)
  fix v w assume ab: "a = TenantNamespace v" "b = TenantNamespace w"
  have "v = w" if eq: "as_hex a = as_hex b"
  proof (rule nibbles_inject)
    fix i :: nat assume i: "i < 64"
    from eq have "as_hex a ! (63 - i) = as_hex b ! (63 - i)" by simp
    moreover have "[0..<64] ! (63 - i) = 63 - i" by (subst nth_upt) simp_all
    ultimately have "hex_char (nibble v i) = hex_char (nibble w i)" using i ab by simp
    then show "nibble v i = nibble w i" by (simp add: hex_char_inject nibble_def)
  qed
  with ab show ?thesis by auto
qed

lemma as_hex_namespace [simp]: "is_tenant_namespace (as_hex tenant)"
proof (cases tenant)
  case (TenantNamespace w)
  have digit: "let b = of_char (hex_char d) :: nat in 48 \<le> b \<and> b \<le> 57 \<or> 97 \<le> b \<and> b \<le> 102" if "d < 16" for d
    using that by (simp add: hex_char_def)
  have "let b = of_char ch :: nat in 48 \<le> b \<and> b \<le> 57 \<or> 97 \<le> b \<and> b \<le> 102" if "ch \<in> set (as_hex tenant)" for ch
    using that TenantNamespace digit [of "nibble w _"] by (auto simp: nibble_def)
  then show ?thesis unfolding is_tenant_namespace_def list_all_iff by simp
qed

lemma append_same_length: "length a = length b \<Longrightarrow> a @ x = b @ y \<longleftrightarrow> a = b \<and> x = y"
  by (rule append_eq_append_conv) simp

lemma reason_no_colon: "CHR '':'' \<notin> set (rejection_as_str reason)"
  by (cases reason) simp_all

lemma reason_inject: "rejection_as_str reason = rejection_as_str reason' \<longleftrightarrow> reason = reason'"
  by (cases reason; cases reason') simp_all

lemma last_segment:
  assumes "CHR '':'' \<notin> set x" "CHR '':'' \<notin> set y" "a @ CHR '':'' # x = b @ CHR '':'' # y"
  shows "a = b \<and> x = y"
proof -
  have seg: "rev (takeWhile (\<lambda>ch. ch \<noteq> CHR '':'') (rev (s @ CHR '':'' # z))) = z" if "CHR '':'' \<notin> set z" for s z
  proof -
    have "takeWhile (\<lambda>ch. ch \<noteq> CHR '':'') (rev z @ [CHR '':''] @ rev s) = rev z"
      using that by (subst takeWhile_append2) auto
    then show ?thesis by simp
  qed
  have "x = y" using seg [OF assms(1), of a] seg [OF assms(2), of b] assms(3) by simp
  with assms(3) show ?thesis by simp
qed

text \<open>
  Replies to inbound events of any two tenants never share an idempotency key: a control reply and
  a rejection notice of the same event differ, and equal keys mean the same tenant, event and reason.
\<close>

theorem event_reply_keys_are_unique:
  "(control_outbox_idempotency_key key = control_outbox_idempotency_key key' \<longleftrightarrow> key = key') \<and>
   (rejection_outbox_idempotency_key key reason = rejection_outbox_idempotency_key key' reason' \<longleftrightarrow>
      key = key' \<and> reason = reason') \<and>
   control_outbox_idempotency_key key \<noteq> rejection_outbox_idempotency_key key' reason"
proof -
  have ctl: "control_outbox_idempotency_key k = ''inbound:v1:'' @ as_hex (ik_tenant k) @ '':'' @ (ik_event_id k @ CHR '':'' # ''control'')" for k
    by (simp add: control_outbox_idempotency_key_def inbound_reply_outbox_key_def)
  have rej: "rejection_outbox_idempotency_key k r =
      ''inbound:v1:'' @ as_hex (ik_tenant k) @ '':'' @ ((ik_event_id k @ '':notice'') @ CHR '':'' # rejection_as_str r)" for k r
    by (simp add: rejection_outbox_idempotency_key_def inbound_reply_outbox_key_def)
  have eq: "key = key' \<longleftrightarrow> ik_tenant key = ik_tenant key' \<and> ik_event_id key = ik_event_id key'" by auto
  have same: "''inbound:v1:'' @ as_hex (ik_tenant key) @ '':'' @ x = ''inbound:v1:'' @ as_hex (ik_tenant key') @ '':'' @ y \<longleftrightarrow>
      ik_tenant key = ik_tenant key' \<and> x = y" for x y
    by (simp add: append_same_length)
  have "rejection_as_str reason \<noteq> ''control''" by (cases reason) simp_all
  then have "ik_event_id key @ CHR '':'' # ''control'' \<noteq> (ik_event_id key' @ '':notice'') @ CHR '':'' # rejection_as_str reason"
    using last_segment [of "''control''" "rejection_as_str reason"] reason_no_colon [of reason] by fastforce
  then have "control_outbox_idempotency_key key \<noteq> rejection_outbox_idempotency_key key' reason"
    unfolding ctl rej same by simp
  moreover have "control_outbox_idempotency_key key = control_outbox_idempotency_key key' \<longleftrightarrow> key = key'"
    unfolding ctl same eq by simp
  moreover have "(ik_event_id key @ '':notice'') @ CHR '':'' # rejection_as_str reason =
      (ik_event_id key' @ '':notice'') @ CHR '':'' # rejection_as_str reason' \<longleftrightarrow>
      ik_event_id key = ik_event_id key' \<and> reason = reason'"
    using last_segment [OF reason_no_colon [of reason] reason_no_colon [of reason']] reason_inject
    by (metis append_same_eq)
  then have "rejection_outbox_idempotency_key key reason = rejection_outbox_idempotency_key key' reason' \<longleftrightarrow>
      key = key' \<and> reason = reason'"
    unfolding rej same eq by blast
  ultimately show ?thesis by blast
qed

end
