(* ===== verification/Unicode_Text.thy ===== *)
theory Unicode_Text
  imports Bridge_Prelude
begin

text \<open>
  UTF-8: the bytes of a text (\<open>String::as_bytes\<close>) and the text of valid bytes (\<open>str::chars\<close>). Encoding is a
  prefix code, so it is injective and decoding inverts it.
\<close>

section \<open>UTF-8\<close>

definition utf8_char :: "uchar \<Rightarrow> string" where
  "utf8_char c =
     (if c < 128 then [char_of c]
      else if c < 2048 then [char_of (192 + c div 64), char_of (128 + c mod 64)]
      else if c < 65536 then [char_of (224 + c div 4096), char_of (128 + c div 64 mod 64), char_of (128 + c mod 64)]
      else [char_of (240 + c div 262144), char_of (128 + c div 4096 mod 64), char_of (128 + c div 64 mod 64),
            char_of (128 + c mod 64)])"

definition utf8 :: "ustring \<Rightarrow> string" where
  "utf8 s = concat (map utf8_char s)"

lemma length_utf8: "length (utf8 s) = ulen s"
  by (induction s) (simp_all add: utf8_def utf8_char_def len_utf8_def)

lemma utf8_empty [simp]: "utf8 s = [] \<longleftrightarrow> s = []"
  by (cases s) (auto simp: utf8_def utf8_char_def)

fun utf8_chars :: "string \<Rightarrow> ustring" where
  "utf8_chars [] = []"
| "utf8_chars (b # bs) =
     (let n = of_char b in
      if n < 128 then n # utf8_chars bs
      else case bs of
        [] \<Rightarrow> []
      | b1 # bs1 \<Rightarrow>
          if n < 224 then ((n - 192) * 64 + (of_char b1 - 128)) # utf8_chars bs1
          else case bs1 of
            [] \<Rightarrow> []
          | b2 # bs2 \<Rightarrow>
              if n < 240 then ((n - 224) * 4096 + (of_char b1 - 128) * 64 + (of_char b2 - 128)) # utf8_chars bs2
              else case bs2 of
                [] \<Rightarrow> []
              | b3 # bs3 \<Rightarrow>
                  ((n - 240) * 262144 + (of_char b1 - 128) * 4096 + (of_char b2 - 128) * 64 + (of_char b3 - 128)) # utf8_chars bs3)"

section \<open>Decoding inverts encoding\<close>

definition unicode :: "ustring \<Rightarrow> bool" where
  "unicode s \<longleftrightarrow> list_all (\<lambda>c. c < 1114112) s"

lemma digits64:
  fixes c :: nat
  shows "c div 4096 * 64 + c div 64 mod 64 = c div 64" "c div 262144 * 64 + c div 4096 mod 64 = c div 4096"
  using div_mult2_eq[of c 64 64] div_mult_mod_eq[of "c div 64" 64] div_mult2_eq[of c 4096 64]
    div_mult_mod_eq[of "c div 4096" 64] by simp_all

lemma utf8_chars_char:
  assumes "c < 1114112"
  shows "utf8_chars (utf8_char c @ bs) = c # utf8_chars bs"
proof -
  have three: "c div 4096 * 4096 + c div 64 mod 64 * 64 + c mod 64 = c"
    using digits64(1)[of c] div_mult_mod_eq[of c 64] by linarith
  have four: "c div 262144 * 262144 + c div 4096 mod 64 * 4096 + c div 64 mod 64 * 64 + c mod 64 = c"
    using digits64(2)[of c] three by linarith
  have lead: "c < 2048 \<Longrightarrow> c div 64 < 32" "c < 65536 \<Longrightarrow> c div 4096 < 16" "c div 262144 < 5"
    using assms by (simp_all add: less_mult_imp_div_less)
  have low: "of_char (char_of (128 + x mod 64) :: char) - 128 = x mod (64 :: nat)" for x
    using mod_less_divisor[of 64 x] by (simp add: mod_less[of "128 + x mod 64" 256])
  consider "c < 128" | "\<not> c < 128" "c < 2048" | "\<not> c < 2048" "c < 65536" | "\<not> c < 65536" by linarith
  then show ?thesis
  proof cases
    case 1
    then show ?thesis by (simp add: utf8_char_def)
  next
    case 2
    then have "of_char (char_of (192 + c div 64) :: char) = (192 + c div 64 :: nat)" using lead(1) by simp
    then show ?thesis using 2 lead(1) low[of c] by (simp add: utf8_char_def Let_def)
  next
    case 3
    then have "of_char (char_of (224 + c div 4096) :: char) = (224 + c div 4096 :: nat)" using lead(2) by simp
    then show ?thesis using 3 lead(2) low[of c] low[of "c div 64"] three by (simp add: utf8_char_def Let_def)
  next
    case 4
    then have "of_char (char_of (240 + c div 262144) :: char) = (240 + c div 262144 :: nat)" using lead(3) by simp
    then show ?thesis using 4 lead(3) low[of c] low[of "c div 64"] low[of "c div 4096"] four
      by (simp add: utf8_char_def Let_def)
  qed
qed

lemma utf8_chars_utf8 [simp]: "unicode s \<Longrightarrow> utf8_chars (utf8 s) = s"
  by (induction s) (auto simp: utf8_def unicode_def utf8_chars_char simp del: utf8_chars.simps(2))

lemma utf8_inj: "utf8 s = utf8 t \<Longrightarrow> unicode s \<Longrightarrow> unicode t \<Longrightarrow> s = t"
  by (metis utf8_chars_utf8)

end
