(* ===== verification/Reply_Sink.thy ===== *)
theory Reply_Sink
  imports Outbox_Outcomes Reply_Projector Inbound_Event Unicode_Text
begin

text \<open>
  The durable reply sink, \<^verbatim>\<open>src/src/outbox/sink.rs\<close>: which outbox rows a progress update, a finished turn,
  a control reply and a rejection become, and under which idempotency keys. The keys of inbound events
  are those of \<^verbatim>\<open>src/src/store/dedup.rs\<close>. Text is handed to the payload codec as its UTF-8 bytes.
\<close>

section \<open>Turns and notices\<close>

datatype turn_failure_kind = FkAttachment | FkWorkspace | FkTurnStartRejected | FkTurnFailed | FkConnectionLost | FkInterrupted

datatype reply_sink_error = SinkUnavailable | SinkCapacity | SinkInvariant

record turn_source =
  src_event_id :: string
  src_message_id :: string
  src_chat_id :: string
  src_thread_id :: "string option"

record turn_finalization =
  tf_turn_row_id :: int
  tf_scope_key :: string
  tf_sources :: "turn_source list"
  tf_resolution :: turn_resolution
  tf_outcome :: "turn_outcome option"
  tf_failure :: "turn_failure_kind option"

record turn_progress =
  tp_turn_row_id :: int
  tp_scope_key :: string
  tp_source :: turn_source
  tp_sequence :: nat
  tp_text :: ustring

definition FAILED_TEXT :: ustring where
  "FAILED_TEXT = [20219, 21153, 25191, 34892, 22833, 36133]"

definition INTERRUPTED_TEXT :: ustring where
  "INTERRUPTED_TEXT = [20219, 21153, 24050, 20013, 26029]"

definition UNCERTAIN_TEXT :: ustring where
  "UNCERTAIN_TEXT = [20219, 21153, 25191, 34892, 32467, 26524, 26410, 30693, 65292, 35831, 37325, 26032, 21457, 36215]"

fun failure_notice :: "turn_failure_kind \<Rightarrow> ustring" where
  "failure_notice FkAttachment = [20219, 21153, 25191, 34892, 22833, 36133, 65288, 38468, 20214, 26410, 33021, 22788, 29702, 65289]"
| "failure_notice FkWorkspace = [20219, 21153, 25191, 34892, 22833, 36133, 65288, 24037, 20316, 30446, 24405, 26080, 25928, 65289]"
| "failure_notice FkTurnStartRejected = [20219, 21153, 26410, 33021, 21551, 21160, 65288, 27169, 22411, 25110, 35831, 27714, 34987, 25298, 32477, 65289]"
| "failure_notice FkTurnFailed = [20219, 21153, 25191, 34892, 22833, 36133, 65288, 67, 111, 100, 101, 120, 32, 36820, 22238, 22833, 36133, 65289]"
| "failure_notice FkConnectionLost = [20219, 21153, 25191, 34892, 32467, 26524, 26410, 30693, 65292, 35831, 37325, 26032, 21457, 36215]"
| "failure_notice FkInterrupted = [20219, 21153, 24050, 20013, 26029]"

definition notice_for :: "turn_finalization \<Rightarrow> ustring" where
  "notice_for turn =
     (case tf_failure turn of
        Some kind \<Rightarrow> failure_notice kind
      | None \<Rightarrow> (case tf_resolution turn of
          TurnInterrupted \<Rightarrow> INTERRUPTED_TEXT
        | TurnUncertain \<Rightarrow> UNCERTAIN_TEXT
        | TurnFailedRes \<Rightarrow> FAILED_TEXT
        | TurnCompleted \<Rightarrow> FAILED_TEXT))"

definition terminal_phase :: "turn_finalization \<Rightarrow> run_card_phase" where
  "terminal_phase turn =
     (case (case tf_failure turn of None \<Rightarrow> FkTurnFailed | Some kind \<Rightarrow> kind) of
        FkInterrupted \<Rightarrow> Interrupted
      | _ \<Rightarrow> PhaseFailed)"

fun map_store_error :: "store_error \<Rightarrow> reply_sink_error" where
  "map_store_error QueueFull = SinkCapacity"
| "map_store_error (CapacityExceeded _) = SinkCapacity"
| "map_store_error (PayloadTooLarge _ _) = SinkInvariant"
| "map_store_error (CorruptData _) = SinkInvariant"
| "map_store_error (InvalidPath _) = SinkInvariant"
| "map_store_error (InvalidTransition _) = SinkInvariant"
| "map_store_error (NotFound _) = SinkInvariant"
| "map_store_error (Io _) = SinkUnavailable"
| "map_store_error (Sqlite _ _) = SinkUnavailable"
| "map_store_error (Migration _ _) = SinkUnavailable"
| "map_store_error AlreadyOpen = SinkUnavailable"
| "map_store_error Closed = SinkUnavailable"

section \<open>Rows\<close>

definition new_row :: "string \<Rightarrow> string \<Rightarrow> string \<Rightarrow> string \<Rightarrow> new_outbox_row" where
  "new_row key scope kind payload = \<lparr>nb_idempotency_key = key, nb_scope_key = scope, nb_kind = kind,
     nb_payload_json = payload, nb_next_retry_ms = 0\<rparr>"

definition encode_or_invariant :: "'spec json_codec \<Rightarrow> 'spec outbox_operation \<Rightarrow> (reply_sink_error, string) result" where
  "encode_or_invariant c operation = (case encode c operation of Inl e \<Rightarrow> Inl SinkInvariant | Inr json \<Rightarrow> Inr json)"

definition encode_text_reply :: "'spec json_codec \<Rightarrow> turn_source \<Rightarrow> ustring \<Rightarrow> (reply_sink_error, string) result" where
  "encode_text_reply c source text' =
     encode_or_invariant c (ReplyText (src_message_id source) (src_thread_id source) (utf8 text'))"

definition encode_markdown_reply :: "'spec json_codec \<Rightarrow> turn_source \<Rightarrow> ustring \<Rightarrow> (reply_sink_error, string) result" where
  "encode_markdown_reply c source markdown =
     encode_or_invariant c (ReplyMarkdownPost (src_message_id source) (src_thread_id source) (utf8 markdown))"

definition nonempty_fallback_markdown :: "markdown_renderer \<Rightarrow> ustring \<Rightarrow> ustring" where
  "nonempty_fallback_markdown md text' =
     (let rendered = render_lark_markdown md text' in
      if rendered = [] then [65288, 22238, 22797, 19981, 21253, 21547, 21487, 26174, 31034, 25991, 26412, 65289] else rendered)"

definition progress_anchor_key :: "int \<Rightarrow> string" where
  "progress_anchor_key turn_row_id = int_to_string turn_row_id @ '':progress''"

definition progress_row :: "'spec json_codec \<Rightarrow> turn_progress \<Rightarrow> (reply_sink_error, new_outbox_row) result" where
  "progress_row c progress =
     (let anchor_key = progress_anchor_key (tp_turn_row_id progress);
          (key, operation) =
            (if tp_sequence progress = 0
             then (anchor_key, ReplyProgressCard (src_message_id (tp_source progress))
                     (src_thread_id (tp_source progress)) (utf8 (tp_text progress)))
             else (anchor_key @ '':'' @ nat_to_string (tp_sequence progress),
                   UpdateProgressCard anchor_key (utf8 (tp_text progress))))
      in result_map (new_row key (tp_scope_key progress) ''progress'') (encode_or_invariant c operation))"

definition progress ::
    "'spec json_codec \<Rightarrow> (string \<Rightarrow> string option) \<Rightarrow> int \<Rightarrow> turn_progress \<Rightarrow> outbox_table \<Rightarrow>
       (reply_sink_error, outbox_table) result" where
  "progress c anchor_of now p t =
     result_bind (progress_row c p) (\<lambda>row.
       case enqueue_outbox anchor_of now row t of
         Inl e \<Rightarrow> Inl (map_store_error e)
       | Inr (_, t') \<Rightarrow> Inr t')"

definition final_key :: "int \<Rightarrow> nat \<Rightarrow> string" where
  "final_key turn_row_id index =
     (if index = 0 then int_to_string turn_row_id @ '':final''
      else int_to_string turn_row_id @ '':final:'' @ nat_to_string index)"

fun final_part_rows ::
    "'spec json_codec \<Rightarrow> turn_finalization \<Rightarrow> turn_source \<Rightarrow> nat \<Rightarrow> ustring list \<Rightarrow>
       (reply_sink_error, new_outbox_row list) result" where
  "final_part_rows c turn source index [] = Inr []"
| "final_part_rows c turn source index (text' # parts) =
     result_bind (encode_markdown_reply c source text') (\<lambda>payload.
       result_map (\<lambda>rows. new_row (final_key (tf_turn_row_id turn) index) (tf_scope_key turn) ''final'' payload # rows)
         (final_part_rows c turn source (index + 1) parts))"

definition last_source :: "turn_finalization \<Rightarrow> turn_source option" where
  "last_source turn = (if tf_sources turn = [] then None else Some (last (tf_sources turn)))"

definition final_rows ::
    "'spec json_codec \<Rightarrow> turn_finalization \<Rightarrow> ustring list \<Rightarrow> (reply_sink_error, new_outbox_row list) result" where
  "final_rows c turn parts =
     (case last_source turn of None \<Rightarrow> Inr [] | Some source \<Rightarrow> final_part_rows c turn source 0 parts)"

definition notice_rows ::
    "'spec json_codec \<Rightarrow> turn_finalization \<Rightarrow> ustring \<Rightarrow> (reply_sink_error, new_outbox_row list) result" where
  "notice_rows c turn text' =
     (case last_source turn of
        None \<Rightarrow> Inr []
      | Some source \<Rightarrow>
          result_map (\<lambda>payload. [new_row (int_to_string (tf_turn_row_id turn) @ '':notice'') (tf_scope_key turn) ''notice'' payload])
            (encode_text_reply c source text'))"

definition finalize_card_rows ::
    "'spec json_codec \<Rightarrow> turn_finalization \<Rightarrow> ustring \<Rightarrow> ustring \<Rightarrow> run_card_phase \<Rightarrow>
       (reply_sink_error, new_outbox_row list) result" where
  "finalize_card_rows c turn text' fallback phase =
     (case last_source turn of
        None \<Rightarrow> Inr []
      | Some source \<Rightarrow>
          let anchor_key = progress_anchor_key (tf_turn_row_id turn) in
          result_map (\<lambda>payload. [new_row (anchor_key @ '':final'') (tf_scope_key turn) ''final'' payload])
            (encode_or_invariant c (FinalizeProgressCard anchor_key (src_message_id source) (src_thread_id source)
               (utf8 text') (utf8 fallback) phase)))"

definition progress_final_rows ::
    "'spec json_codec \<Rightarrow> markdown_renderer \<Rightarrow> turn_finalization \<Rightarrow> ustring \<Rightarrow> (reply_sink_error, new_outbox_row list) result" where
  "progress_final_rows c md turn text' =
     finalize_card_rows c turn text' (nonempty_fallback_markdown md text') Done"

definition progress_notice_rows ::
    "'spec json_codec \<Rightarrow> markdown_renderer \<Rightarrow> turn_finalization \<Rightarrow> ustring \<Rightarrow> ustring \<Rightarrow>
       (reply_sink_error, new_outbox_row list) result" where
  "progress_notice_rows c md turn text' fallback =
     finalize_card_rows c turn text' (nonempty_fallback_markdown md fallback) (terminal_phase turn)"

definition terminal_notice_rows ::
    "'spec json_codec \<Rightarrow> markdown_renderer \<Rightarrow> turn_finalization \<Rightarrow> projected_reply \<Rightarrow>
       (reply_sink_error, new_outbox_row list) result" where
  "terminal_notice_rows c md turn reply =
     (let notice = notice_for turn in
      case reply of
        ProgressFinal text' \<Rightarrow>
          progress_notice_rows c md turn
            (if trim text' = [] then notice else text' @ [10, 10, 45, 45, 45, 10] @ notice) notice
      | _ \<Rightarrow> notice_rows c turn notice)"

definition build_projected_finalization_rows ::
    "'spec json_codec \<Rightarrow> markdown_renderer \<Rightarrow> turn_finalization \<Rightarrow> projected_reply \<Rightarrow>
       (reply_sink_error, new_outbox_row list) result" where
  "build_projected_finalization_rows c md turn reply =
     (if tf_resolution turn = TurnCompleted
      then (case reply of
              Final parts \<Rightarrow> final_rows c turn parts
            | ProgressFinal text' \<Rightarrow> progress_final_rows c md turn text'
            | Empty \<Rightarrow> Inr [])
      else terminal_notice_rows c md turn reply)"

definition build_finalization_rows ::
    "'spec json_codec \<Rightarrow> markdown_renderer \<Rightarrow> turn_finalization \<Rightarrow> reply_projector \<Rightarrow>
       (reply_sink_error, new_outbox_row list) result" where
  "build_finalization_rows c md turn projector =
     (if tf_resolution turn = TurnCompleted
      then (case tf_outcome turn of
              None \<Rightarrow> notice_rows c turn UNCERTAIN_TEXT
            | Some outcome \<Rightarrow> (case project_final md projector outcome of
                  Final parts \<Rightarrow> final_rows c turn parts
                | ProgressFinal _ \<Rightarrow> Inl SinkInvariant
                | Empty \<Rightarrow> Inr []))
      else notice_rows c turn (notice_for turn))"

definition enqueue_finalization ::
    "(string \<Rightarrow> string option) \<Rightarrow> int \<Rightarrow> (reply_sink_error, new_outbox_row list) result \<Rightarrow> outbox_table \<Rightarrow>
       (reply_sink_error, outbox_table) result" where
  "enqueue_finalization anchor_of now rows t =
     result_bind rows (\<lambda>rows.
       case enqueue_outbox_batch anchor_of now rows t of
         Inl e \<Rightarrow> Inl (map_store_error e)
       | Inr (_, t') \<Rightarrow> Inr t')"

definition finalize ::
    "'spec json_codec \<Rightarrow> markdown_renderer \<Rightarrow> (string \<Rightarrow> string option) \<Rightarrow> int \<Rightarrow> turn_finalization \<Rightarrow> outbox_table \<Rightarrow>
       (reply_sink_error, outbox_table) result" where
  "finalize c md anchor_of now turn t =
     enqueue_finalization anchor_of now (build_finalization_rows c md turn with_defaults) t"

definition finalize_projected ::
    "'spec json_codec \<Rightarrow> markdown_renderer \<Rightarrow> (string \<Rightarrow> string option) \<Rightarrow> int \<Rightarrow> turn_finalization \<Rightarrow> projected_reply \<Rightarrow>
       outbox_table \<Rightarrow> (reply_sink_error, outbox_table) result" where
  "finalize_projected c md anchor_of now turn reply t =
     enqueue_finalization anchor_of now (build_projected_finalization_rows c md turn reply) t"

section \<open>Replies to inbound events\<close>

fun rejection_text :: "inbound_rejection_kind \<Rightarrow> ustring" where
  "rejection_text Overloaded = [24403, 21069, 22788, 29702, 36127, 36733, 36807, 39640, 65292, 35831, 31245, 21518, 37325, 35797]"
| "rejection_text Stale = [28040, 24687, 24050, 36807, 26399, 65292, 26410, 22788, 29702]"
| "rejection_text Internal = [22788, 29702, 35813, 28040, 24687, 26102, 21457, 29983, 20869, 37096, 38169, 35823]"
| "rejection_text _ = [35813, 28040, 24687, 26410, 33719, 25480, 26435, 22788, 29702]"

definition rejection_notice ::
    "'spec json_codec \<Rightarrow> inbound_key \<Rightarrow> inbound_event \<Rightarrow> inbound_rejection_kind \<Rightarrow> (reply_sink_error, new_outbox_row) result" where
  "rejection_notice c key event reason =
     result_map (new_row (rejection_outbox_idempotency_key key reason) (scope_to_string (ev_scope event)) ''notice'')
       (encode_or_invariant c (ReplyText (ev_message_id event) (ev_thread_id event) (utf8 (rejection_text reason))))"

definition control_reply ::
    "'spec json_codec \<Rightarrow> inbound_key \<Rightarrow> inbound_event \<Rightarrow> ustring \<Rightarrow> (reply_sink_error, new_outbox_row) result" where
  "control_reply c key event text' =
     (if length text' = 0 \<or> length text' > REPLY_MESSAGE_MAX_CHARS then Inl SinkInvariant
      else result_map (new_row (control_outbox_idempotency_key key) (scope_to_string (ev_scope event)) ''control'')
             (encode_or_invariant c (ReplyText (ev_message_id event) (ev_thread_id event) (utf8 text'))))"

definition control_card ::
    "'spec json_codec \<Rightarrow> inbound_key \<Rightarrow> inbound_event \<Rightarrow> 'spec \<Rightarrow> (reply_sink_error, new_outbox_row) result" where
  "control_card c key event spec =
     result_map (new_row (control_outbox_idempotency_key key) (scope_to_string (ev_scope event)) ''control'')
       (encode_or_invariant c (ReplyInteractiveCard (ev_message_id event) (ev_thread_id event) spec))"

section \<open>Keys\<close>

lemma digit_char_neq_colon: "d < 10 \<Longrightarrow> digit_char d \<noteq> CHR '':''"
proof
  assume d: "d < 10" and eq: "digit_char d = CHR '':''"
  from d have "of_char (digit_char d) = (48 + d :: nat)" by (simp add: digit_char_def)
  with eq d show False by simp
qed

lemma digit_char_neq_minus: "d < 10 \<Longrightarrow> digit_char d \<noteq> CHR ''-''"
proof
  assume d: "d < 10" and eq: "digit_char d = CHR ''-''"
  from d have "of_char (digit_char d) = (48 + d :: nat)" by (simp add: digit_char_def)
  with eq show False by simp
qed

lemma nat_to_string_no_colon: "CHR '':'' \<notin> set (nat_to_string n)"
proof (induction n rule: nat_to_string.induct)
  case (1 n)
  show ?case
    using 1 digit_char_neq_colon [of n] digit_char_neq_colon [of "n mod 10"]
    by (cases "n < 10") (auto simp: nat_to_string.simps [of n] dest: sym)
qed

lemma int_to_string_no_colon: "CHR '':'' \<notin> set (int_to_string i)"
  by (simp add: int_to_string_def nat_to_string_no_colon)

lemma int_to_string_inject [simp]: "int_to_string i = int_to_string j \<longleftrightarrow> i = j"
proof -
  have sign: "nat_to_string m \<noteq> CHR ''-'' # s" "CHR ''-'' # s \<noteq> nat_to_string m" for m s
    using nat_to_string_Cons [of m] digit_char_neq_minus by fastforce+
  show ?thesis
    by (cases "i < 0"; cases "j < 0") (simp_all add: int_to_string_def sign, linarith+)
qed

text \<open>Every key of a turn starts with its row id and a colon.\<close>

definition key_turn :: "string \<Rightarrow> string" where
  "key_turn key = takeWhile (\<lambda>ch. ch \<noteq> CHR '':'') key"

lemma key_turn_id: "key_turn (int_to_string i @ CHR '':'' # rest) = int_to_string i"
  using int_to_string_no_colon [of i] unfolding key_turn_def
  by (subst takeWhile_append2) (auto simp: in_set_conv_decomp)

lemma final_key_turn: "key_turn (final_key i n) = int_to_string i"
  by (simp add: final_key_def key_turn_id)

lemma final_key_inject: "final_key i m = final_key i n \<longleftrightarrow> m = n"
  by (auto simp: final_key_def)

lemma final_part_rows_keys:
  "final_part_rows c turn source index parts = Inr rows \<Longrightarrow>
     map nb_idempotency_key rows = map (final_key (tf_turn_row_id turn)) [index ..< index + length parts]"
proof (induction parts arbitrary: index rows)
  case Nil
  then show ?case by simp
next
  case (Cons x parts)
  then obtain payload rest where "rows = new_row (final_key (tf_turn_row_id turn) index) (tf_scope_key turn) ''final'' payload # rest"
    "final_part_rows c turn source (index + 1) parts = Inr rest" by auto
  moreover have "[index ..< index + length (x # parts)] = index # [index + 1 ..< index + 1 + length parts]"
    by (simp add: upt_conv_Cons del: upt_Suc)
  ultimately show ?case using Cons.IH [of "index + 1" rest] by (simp add: new_row_def del: upt_Suc)
qed

lemma final_rows_keys:
  assumes "final_rows c turn parts = Inr rows"
  shows "distinct (map nb_idempotency_key rows) \<and>
         list_all (\<lambda>row. key_turn (nb_idempotency_key row) = int_to_string (tf_turn_row_id turn)) rows"
proof (cases "last_source turn")
  case None
  with assms show ?thesis by (simp add: final_rows_def)
next
  case (Some source)
  with assms have keys: "map nb_idempotency_key rows = map (final_key (tf_turn_row_id turn)) [0 ..< length parts]"
    using final_part_rows_keys [of c turn source 0 parts rows] by (simp add: final_rows_def)
  have "distinct (map (final_key (tf_turn_row_id turn)) [0 ..< length parts])"
    by (simp add: distinct_map inj_on_def final_key_inject)
  moreover have "key_turn (nb_idempotency_key row) = int_to_string (tf_turn_row_id turn)" if "row \<in> set rows" for row
  proof -
    from that have "nb_idempotency_key row \<in> set (map nb_idempotency_key rows)" by simp
    then show ?thesis unfolding keys by (auto simp: final_key_turn)
  qed
  ultimately show ?thesis using keys by (simp add: list_all_iff)
qed

lemma finalize_card_rows_keys:
  "finalize_card_rows c turn x fb ph = Inr rows \<Longrightarrow>
     length rows \<le> 1 \<and> list_all (\<lambda>row. key_turn (nb_idempotency_key row) = int_to_string (tf_turn_row_id turn)) rows"
  using key_turn_id [of "tf_turn_row_id turn" "''progress:final''"]
  by (auto simp: finalize_card_rows_def new_row_def progress_anchor_key_def Let_def split: option.splits)

lemma notice_rows_keys:
  "notice_rows c turn x = Inr rows \<Longrightarrow>
     length rows \<le> 1 \<and> list_all (\<lambda>row. key_turn (nb_idempotency_key row) = int_to_string (tf_turn_row_id turn)) rows"
  using key_turn_id [of "tf_turn_row_id turn" "''notice''"]
  by (auto simp: notice_rows_def new_row_def split: option.splits)

lemma distinct_short: "length xs \<le> 1 \<Longrightarrow> distinct (map f xs)"
  by (cases xs) auto

lemma projected_rows_keys:
  assumes "build_projected_finalization_rows c md turn reply = Inr rows"
  shows "distinct (map nb_idempotency_key rows) \<and>
         list_all (\<lambda>row. key_turn (nb_idempotency_key row) = int_to_string (tf_turn_row_id turn)) rows"
  using assms
  by (auto simp: build_projected_finalization_rows_def terminal_notice_rows_def progress_final_rows_def
      progress_notice_rows_def Let_def split: if_splits projected_reply.splits
      dest!: final_rows_keys finalize_card_rows_keys notice_rows_keys intro: distinct_short)

text \<open>
  The rows of one finished turn have distinct idempotency keys, and the rows of two different turns
  never share one, so no reply is dropped as a duplicate of another.
\<close>

theorem finalization_keys_are_unique:
  assumes "build_projected_finalization_rows c md turn reply = Inr rows"
    and "build_projected_finalization_rows c md turn' reply' = Inr rows'"
    and "tf_turn_row_id turn \<noteq> tf_turn_row_id turn'"
  shows "distinct (map nb_idempotency_key rows) \<and>
         set (map nb_idempotency_key rows) \<inter> set (map nb_idempotency_key rows') = {}"
proof -
  note keys = projected_rows_keys [OF assms(1)] and keys' = projected_rows_keys [OF assms(2)]
  have False if "row \<in> set rows" "row' \<in> set rows'" "nb_idempotency_key row = nb_idempotency_key row'" for row row'
    using keys keys' that assms(3) by (auto simp: list_all_iff)
  with keys show ?thesis by auto
qed

definition demo_turn :: "int \<Rightarrow> turn_resolution \<Rightarrow> turn_finalization" where
  "demo_turn i res = \<lparr>tf_turn_row_id = i, tf_scope_key = ''s'',
     tf_sources = [\<lparr>src_event_id = ''e'', src_message_id = ''m'', src_chat_id = ''c'', src_thread_id = None\<rparr>],
     tf_resolution = res, tf_outcome = None, tf_failure = None\<rparr>"

definition plain_md :: markdown_renderer where
  "plain_md = \<lparr>render_lark_markdown = id, split_lark_markdown = (\<lambda>x _ _ _. [x])\<rparr>"

lemma tagged_encodes:
  "\<not> finalizes_running operation \<Longrightarrow>
   length (the (jc_to_string tagged_codec (payload_of_operation tagged_codec operation))) \<le> STORE_OUTBOX_PAYLOAD_MAX_BYTES \<Longrightarrow>
     \<exists>json. encode_or_invariant tagged_codec operation = Inr json"
  using payload_version [of tagged_codec operation]
  by (simp add: encode_or_invariant_def encode_def tagged_codec_def OUTBOX_PAYLOAD_VERSION_def)

lemma demo_rows:
  "\<exists>row. build_projected_finalization_rows tagged_codec plain_md (demo_turn i TurnCompleted) (Final [[104]]) = Inr [row]"
  using tagged_encodes [of "ReplyMarkdownPost ''m'' None (utf8 [104])"]
  by (auto simp: build_projected_finalization_rows_def final_rows_def last_source_def demo_turn_def
      encode_markdown_reply_def utf8_def utf8_char_def tagged_codec_def limit_defs OUTBOX_PAYLOAD_VERSION_def)

theorem finalization_keys_are_unique_witness:
  "\<exists>row row'. build_projected_finalization_rows tagged_codec plain_md (demo_turn 1 TurnCompleted) (Final [[104]]) = Inr [row] \<and>
     build_projected_finalization_rows tagged_codec plain_md (demo_turn 2 TurnCompleted) (Final [[104]]) = Inr [row'] \<and>
     nb_idempotency_key row \<noteq> nb_idempotency_key row'"
proof -
  obtain row row' where rows:
    "build_projected_finalization_rows tagged_codec plain_md (demo_turn 1 TurnCompleted) (Final [[104]]) = Inr [row]"
    "build_projected_finalization_rows tagged_codec plain_md (demo_turn 2 TurnCompleted) (Final [[104]]) = Inr [row']"
    using demo_rows by blast
  have "tf_turn_row_id (demo_turn 1 TurnCompleted) \<noteq> tf_turn_row_id (demo_turn 2 TurnCompleted)"
    by (simp add: demo_turn_def)
  with finalization_keys_are_unique [OF rows] rows show ?thesis by auto
qed

section \<open>Notices\<close>

text \<open>
  What the user of a turn that did not complete is to be told: a plain notice in reply to the last
  message, or, when the turn already has a progress card, the card's final state with the notice after
  what the card showed, and the notice alone should the card not be reachable.
\<close>

definition card_notice_text :: "ustring \<Rightarrow> ustring \<Rightarrow> ustring" where
  "card_notice_text shown notice = (if trim shown = [] then [] else shown @ [10, 10, 45, 45, 45, 10]) @ notice"

definition notice_operation :: "markdown_renderer \<Rightarrow> turn_finalization \<Rightarrow> turn_source \<Rightarrow> projected_reply \<Rightarrow> 'spec outbox_operation" where
  "notice_operation md turn source reply =
     (case reply of
        ProgressFinal shown \<Rightarrow>
          FinalizeProgressCard (progress_anchor_key (tf_turn_row_id turn)) (src_message_id source) (src_thread_id source)
            (utf8 (card_notice_text shown (notice_for turn))) (utf8 (nonempty_fallback_markdown md (notice_for turn))) (terminal_phase turn)
      | _ \<Rightarrow> ReplyText (src_message_id source) (src_thread_id source) (utf8 (notice_for turn)))"

lemma notice_for_nonempty: "notice_for turn \<noteq> []"
proof -
  have "failure_notice kind \<noteq> []" for kind by (cases kind) simp_all
  then show ?thesis
    by (simp add: notice_for_def INTERRUPTED_TEXT_def UNCERTAIN_TEXT_def FAILED_TEXT_def split: option.splits turn_resolution.splits)
qed

lemma terminal_phase_final: "terminal_phase turn \<noteq> Running"
  by (auto simp: terminal_phase_def split: turn_failure_kind.splits option.splits)

lemma notice_operation_wf:
  assumes "src_message_id source \<noteq> []" "src_thread_id source \<noteq> Some []"
  shows "operation_wf (notice_operation md turn source reply)" "spec_writable c (notice_operation md turn source reply)"
    "\<not> finalizes_running (notice_operation md turn source reply)"
proof -
  have fallback: "utf8 (nonempty_fallback_markdown md x) \<noteq> []" for x by (simp add: nonempty_fallback_markdown_def Let_def)
  have anchor: "progress_anchor_key i \<noteq> []" for i by (simp add: progress_anchor_key_def)
  show "operation_wf (notice_operation md turn source reply)"
    using assms notice_for_nonempty [of turn] terminal_phase_final [of turn] fallback anchor
    by (simp add: notice_operation_def card_notice_text_def split: projected_reply.split)
  show "spec_writable c (notice_operation md turn source reply)" "\<not> finalizes_running (notice_operation md turn source reply)"
    using terminal_phase_final [of turn]
    by (simp_all add: notice_operation_def split: projected_reply.split) (cases "terminal_phase turn"; simp)
qed

lemma notice_rows_built:
  assumes "tf_resolution turn \<noteq> TurnCompleted" "last_source turn = Some source"
  obtains key kind where "build_projected_finalization_rows c md turn reply =
      result_map (\<lambda>payload. [new_row key (tf_scope_key turn) kind payload]) (encode_or_invariant c (notice_operation md turn source reply))"
    "key_turn key = int_to_string (tf_turn_row_id turn)"
proof (cases "\<exists>shown. reply = ProgressFinal shown")
  case True
  then obtain shown where reply: "reply = ProgressFinal shown" by blast
  show thesis
    by (rule that [of "progress_anchor_key (tf_turn_row_id turn) @ '':final''" "''final''"])
      (use assms key_turn_id [of "tf_turn_row_id turn" "''progress:final''"] in
        \<open>simp_all add: reply build_projected_finalization_rows_def terminal_notice_rows_def progress_notice_rows_def finalize_card_rows_def
          notice_operation_def card_notice_text_def progress_anchor_key_def Let_def\<close>)
next
  case False
  show thesis
    by (rule that [of "int_to_string (tf_turn_row_id turn) @ '':notice''" "''notice''"])
      (use assms False key_turn_id [of "tf_turn_row_id turn" "''notice''"] in
        \<open>auto simp: build_projected_finalization_rows_def terminal_notice_rows_def notice_rows_def encode_text_reply_def notice_operation_def
          Let_def split: projected_reply.split\<close>)
qed

text \<open>
  C35: a turn that did not complete is never dropped silently. When it has a message to answer and the
  notice, written as JSON, fits the payload limit of the outbox, exactly one row is built, under a key of
  this turn and in its scope, and the pump reads back exactly the operation \<open>notice_operation\<close> names, with
  its text, its fallback and its phase. When the JSON cannot be written or is too long, the sink reports an
  error, never an empty batch.
\<close>

theorem unresolved_turn_is_noticed_or_reported:
  fixes turn :: turn_finalization and md :: markdown_renderer and source :: turn_source and reply :: projected_reply
    and c :: "'spec json_codec"
  defines "operation \<equiv> notice_operation md turn source reply :: 'spec outbox_operation"
  assumes "json_codec_ok c" "tf_resolution turn \<noteq> TurnCompleted" "last_source turn = Some source"
    "src_message_id source \<noteq> []" "src_thread_id source \<noteq> Some []"
  shows "case jc_to_string c (payload_of_operation c operation) of
      None \<Rightarrow> build_projected_finalization_rows c md turn reply = Inl SinkInvariant
    | Some json \<Rightarrow>
        if length json > STORE_OUTBOX_PAYLOAD_MAX_BYTES then build_projected_finalization_rows c md turn reply = Inl SinkInvariant
        else \<exists>row. build_projected_finalization_rows c md turn reply = Inr [row] \<and> decode c render (nb_payload_json row) = Inr operation \<and>
          nb_scope_key row = tf_scope_key turn \<and> key_turn (nb_idempotency_key row) = int_to_string (tf_turn_row_id turn)"
proof -
  have wf: "operation_wf operation" "spec_writable c operation" "\<not> finalizes_running operation"
    unfolding operation_def by (rule notice_operation_wf [OF assms(5,6)])+
  obtain key kind where rows: "build_projected_finalization_rows c md turn reply =
      result_map (\<lambda>payload. [new_row key (tf_scope_key turn) kind payload]) (encode_or_invariant c operation)"
    "key_turn key = int_to_string (tf_turn_row_id turn)"
    unfolding operation_def by (rule notice_rows_built [OF assms(3,4)])
  have "decode c render json = Inr operation" if "encode c operation = Inr json" for json
    using operation_v2_roundtrip [OF assms(2) wf(1,2)] decode_encoded [OF assms(2) that] by simp
  then show ?thesis
    using wf(3) rows by (auto simp: encode_or_invariant_def encode_def new_row_def split: option.splits)
qed

theorem unresolved_turn_is_noticed_or_reported_witness:
  "\<exists>row. build_projected_finalization_rows tagged_codec plain_md (demo_turn 1 TurnInterrupted) Empty = Inr [row] \<and>
     decode tagged_codec id (nb_payload_json row) = Inr (ReplyText ''m'' None (utf8 INTERRUPTED_TEXT))"
proof -
  let ?turn = "demo_turn 1 TurnInterrupted"
  let ?source = "\<lparr>src_event_id = ''e'', src_message_id = ''m'', src_chat_id = ''c'', src_thread_id = None\<rparr>"
  have source: "last_source ?turn = Some ?source" by (simp add: last_source_def demo_turn_def)
  have operation: "notice_operation plain_md ?turn ?source Empty = ReplyText ''m'' None (utf8 INTERRUPTED_TEXT)"
    by (simp add: notice_operation_def notice_for_def demo_turn_def)
  obtain json where json: "jc_to_string tagged_codec (payload_of_operation tagged_codec (ReplyText ''m'' None (utf8 INTERRUPTED_TEXT))) = Some json"
      "\<not> length json > STORE_OUTBOX_PAYLOAD_MAX_BYTES"
    by (simp add: INTERRUPTED_TEXT_def utf8_def utf8_char_def tagged_codec_def limit_defs OUTBOX_PAYLOAD_VERSION_def)
  have "tf_resolution ?turn \<noteq> TurnCompleted" "src_message_id ?source \<noteq> []" "src_thread_id ?source \<noteq> Some []"
    by (simp_all add: demo_turn_def)
  note noticed = unresolved_turn_is_noticed_or_reported [OF tagged_codec_ok this(1) source this(2,3), of plain_md Empty id, unfolded operation]
  from noticed json show ?thesis by (simp only: option.case if_False) blast
qed

end
