(* ===== verification/Turn_Store.thy ===== *)
theory Turn_Store
  imports Inbound_Event
begin

text \<open>
  Scopes, threads and turns, \<^verbatim>\<open>src/src/store/sessions.rs\<close>: the tables as lists in rowid order with the unique
  indexes of \<^verbatim>\<open>src/src/store/schema.rs\<close> as constraint failures, the turn state machine and the bound on
  live turns. Statements that change a row are list updates; the clock reading of an operation is an
  argument. A failed unique index is the SQLite error with extended code 2067 (1555 for a primary key).
\<close>

section \<open>Data\<close>

datatype thread_status = ThreadActive | ThreadArchived

fun thread_status_as_str :: "thread_status \<Rightarrow> string" where
  "thread_status_as_str ThreadActive = ''active''"
| "thread_status_as_str ThreadArchived = ''archived''"

definition thread_status_parse :: "string \<Rightarrow> thread_status option" where
  "thread_status_parse text' =
     (if text' = ''active'' then Some ThreadActive else if text' = ''archived'' then Some ThreadArchived else None)"

datatype thread_origin = BridgeCreated | ExternallyAdopted

fun thread_origin_as_str :: "thread_origin \<Rightarrow> string" where
  "thread_origin_as_str BridgeCreated = ''bridge_created''"
| "thread_origin_as_str ExternallyAdopted = ''externally_adopted''"

definition thread_origin_parse :: "string \<Rightarrow> thread_origin option" where
  "thread_origin_parse text' =
     (if text' = ''bridge_created'' then Some BridgeCreated
      else if text' = ''externally_adopted'' then Some ExternallyAdopted else None)"

datatype turn_state = StStarting | StRunning | StCompleted | StFailed | StInterrupted | StUncertain

fun turn_state_as_str :: "turn_state \<Rightarrow> string" where
  "turn_state_as_str StStarting = ''starting''"
| "turn_state_as_str StRunning = ''running''"
| "turn_state_as_str StCompleted = ''completed''"
| "turn_state_as_str StFailed = ''failed''"
| "turn_state_as_str StInterrupted = ''interrupted''"
| "turn_state_as_str StUncertain = ''uncertain''"

definition turn_state_parse :: "string \<Rightarrow> turn_state option" where
  "turn_state_parse text' =
     (if text' = ''starting'' then Some StStarting
      else if text' = ''running'' then Some StRunning
      else if text' = ''completed'' then Some StCompleted
      else if text' = ''failed'' then Some StFailed
      else if text' = ''interrupted'' then Some StInterrupted
      else if text' = ''uncertain'' then Some StUncertain
      else None)"

record scope_row =
  sc_scope_key :: string
  sc_cwd :: string
  sc_policy_fingerprint :: string
  sc_updated_ms :: int

record thread_row =
  th_scope_key :: string
  th_codex_thread_id :: string
  th_status :: thread_status
  th_created_ms :: int
  th_archived_ms :: "int option"
  th_context_tools_version :: nat
  th_origin :: thread_origin
  th_adoption_generation :: "nat option"

record turn_row =
  tn_id :: int
  tn_scope_key :: string
  tn_client_message_id :: string
  tn_codex_thread_id :: "string option"
  tn_codex_turn_id :: "string option"
  tn_state :: turn_state
  tn_uncertain :: bool
  tn_created_ms :: int
  tn_updated_ms :: int
  tn_inbound_count :: nat

record new_turn_row =
  nt_scope_key :: string
  nt_client_message_id :: string
  nt_codex_thread_id :: "string option"
  nt_state :: turn_state

type_synonym scope_table = "scope_row list"
type_synonym thread_table = "thread_row list"
type_synonym turn_table = "turn_row list"

definition str_or_empty :: "string option \<Rightarrow> string" where
  "str_or_empty x = (case x of None \<Rightarrow> [] | Some s \<Rightarrow> s)"

section \<open>Scopes\<close>

text \<open>The workspace path is given as \<open>Path::to_str\<close> returns it: \<open>None\<close> for a path that is not UTF-8.\<close>

definition upsert_scope :: "int \<Rightarrow> scope_key \<Rightarrow> string option \<Rightarrow> string \<Rightarrow> (scope_table, unit) job" where
  "upsert_scope now scope cwd fingerprint t =
     (let key = scope_to_string scope in
      case cwd of
        None \<Rightarrow> Inl (InvalidPath ''persisting a non-UTF-8 workspace path'')
      | Some path \<Rightarrow>
          run_sized (request_bytes [key, path, fingerprint]) (\<lambda>t.
            let row = \<lparr>sc_scope_key = key, sc_cwd = path, sc_policy_fingerprint = fingerprint, sc_updated_ms = now\<rparr> in
            if list_ex (\<lambda>r. sc_scope_key r = key) t
            then Inr ((), map (\<lambda>r. if sc_scope_key r = key then row else r) t)
            else Inr ((), t @ [row])) t)"

definition scope_row_read :: "scope_key \<Rightarrow> (scope_table, scope_row option) job" where
  "scope_row_read scope t =
     (let key = scope_to_string scope in
      run_sized (request_bytes [key]) (\<lambda>t. Inr (List.find (\<lambda>r. sc_scope_key r = key) t, t)) t)"

section \<open>Threads\<close>

definition active_of :: "thread_table \<Rightarrow> string \<Rightarrow> thread_row option" where
  "active_of t key = List.find (\<lambda>r. th_scope_key r = key \<and> th_status r = ThreadActive) t"

definition thread_of :: "thread_table \<Rightarrow> string \<Rightarrow> string \<Rightarrow> thread_row option" where
  "thread_of t key thread_id = List.find (\<lambda>r. th_scope_key r = key \<and> th_codex_thread_id r = thread_id) t"

text \<open>The indexes \<open>threads_one_active_per_scope\<close> and \<open>threads_one_active_thread_id\<close> on a row about to be active.\<close>

definition active_conflict :: "thread_table \<Rightarrow> string \<Rightarrow> string \<Rightarrow> bool" where
  "active_conflict t key thread_id =
     list_ex (\<lambda>r. th_status r = ThreadActive \<and> (th_scope_key r = key \<or> th_codex_thread_id r = thread_id) \<and>
                 \<not> (th_scope_key r = key \<and> th_codex_thread_id r = thread_id)) t"

definition record_active_thread_with_context_tools ::
    "int \<Rightarrow> scope_key \<Rightarrow> string \<Rightarrow> nat \<Rightarrow> (thread_table, unit) job" where
  "record_active_thread_with_context_tools now scope thread_id version t =
     (let key = scope_to_string scope in
      run_sized (request_bytes [key, thread_id]) (\<lambda>t.
        if thread_of t key thread_id \<noteq> None then Inl (Sqlite ''recording an active thread'' (Some 1555))
        else if active_conflict t key thread_id then Inl (Sqlite ''recording an active thread'' (Some 2067))
        else Inr ((), t @ [\<lparr>th_scope_key = key, th_codex_thread_id = thread_id, th_status = ThreadActive,
               th_created_ms = now, th_archived_ms = None, th_context_tools_version = version,
               th_origin = BridgeCreated, th_adoption_generation = None\<rparr>])) t)"

definition record_active_thread :: "int \<Rightarrow> scope_key \<Rightarrow> string \<Rightarrow> (thread_table, unit) job" where
  "record_active_thread now scope thread_id = record_active_thread_with_context_tools now scope thread_id 0"

definition active_thread :: "scope_key \<Rightarrow> (thread_table, thread_row option) job" where
  "active_thread scope t =
     (let key = scope_to_string scope in run_sized (request_bytes [key]) (\<lambda>t. Inr (active_of t key, t)) t)"

definition archive_row :: "int \<Rightarrow> string \<Rightarrow> string \<Rightarrow> thread_table \<Rightarrow> thread_table" where
  "archive_row now key thread_id t =
     map (\<lambda>r. if th_scope_key r = key \<and> th_codex_thread_id r = thread_id \<and> th_status r = ThreadActive
              then r\<lparr>th_status := ThreadArchived, th_archived_ms := Some now\<rparr> else r) t"

definition archive_active_thread :: "int \<Rightarrow> scope_key \<Rightarrow> (thread_table, thread_row option) job" where
  "archive_active_thread now scope t =
     (let key = scope_to_string scope in
      run_sized (request_bytes [key]) (\<lambda>t.
        case active_of t key of
          None \<Rightarrow> Inr (None, t)
        | Some row \<Rightarrow>
            if th_origin row \<noteq> BridgeCreated
            then Inl (InvalidTransition ''archiving an externally adopted thread outside release finish'')
            else Inr (Some (row\<lparr>th_status := ThreadArchived, th_archived_ms := Some now\<rparr>),
                      archive_row now (th_scope_key row) (th_codex_thread_id row) t)) t)"

text \<open>\<open>ORDER BY COALESCE(archived_ms, created_ms) DESC, created_ms DESC\<close> as a stable sort on the negated keys.\<close>

definition thread_recency :: "thread_row \<Rightarrow> int" where
  "thread_recency r = (case th_archived_ms r of None \<Rightarrow> th_created_ms r | Some ms \<Rightarrow> ms)"

definition list_scope_threads :: "scope_key \<Rightarrow> nat \<Rightarrow> (thread_table, thread_row list) job" where
  "list_scope_threads scope limit t =
     (let key = scope_to_string scope; n = max 1 (min limit 20) in
      run_sized (request_bytes [key]) (\<lambda>t.
        Inr (take n (sort_key (\<lambda>r. - thread_recency r)
                (sort_key (\<lambda>r. - th_created_ms r) (filter (\<lambda>r. th_scope_key r = key) t))), t)) t)"

definition activate_row :: "string \<Rightarrow> string \<Rightarrow> thread_table \<Rightarrow> thread_table" where
  "activate_row key thread_id t =
     map (\<lambda>r. if th_scope_key r = key \<and> th_codex_thread_id r = thread_id
              then r\<lparr>th_status := ThreadActive, th_archived_ms := None\<rparr> else r) t"

definition archive_for_resume :: "int \<Rightarrow> string \<Rightarrow> thread_table \<Rightarrow> (store_error, thread_table) result" where
  "archive_for_resume now key t =
     (case active_of t key of
        None \<Rightarrow> Inr t
      | Some active \<Rightarrow>
          if th_origin active \<noteq> BridgeCreated
          then Inl (InvalidTransition ''archiving an externally adopted thread outside release finish'')
          else Inr (archive_row now (th_scope_key active) (th_codex_thread_id active) t))"

definition reactivate_archived_thread :: "int \<Rightarrow> scope_key \<Rightarrow> string \<Rightarrow> (thread_table, thread_row option) job" where
  "reactivate_archived_thread now scope thread_id t =
     (let key = scope_to_string scope in
      run_sized (request_bytes [key, thread_id]) (\<lambda>t.
        case thread_of t key thread_id of
          None \<Rightarrow> Inr (None, t)
        | Some row \<Rightarrow>
            if th_origin row \<noteq> BridgeCreated
            then Inl (InvalidTransition ''reactivating an externally adopted thread outside adoption'')
            else if th_status row = ThreadActive then Inr (Some row, t)
            else
              result_bind (archive_for_resume now key t)
                (\<lambda>t'. if active_conflict t' key thread_id
                      then Inl (Sqlite ''reactivating an archived thread'' (Some 2067))
                      else Inr (Some (row\<lparr>th_status := ThreadActive, th_archived_ms := None\<rparr>),
                                activate_row key thread_id t'))) t)"

section \<open>Turns\<close>

definition turn_by_id :: "turn_table \<Rightarrow> int \<Rightarrow> turn_row option" where
  "turn_by_id t i = List.find (\<lambda>r. tn_id r = i) t"

definition next_turn_id :: "turn_table \<Rightarrow> int" where
  "next_turn_id t = fold max (map tn_id t) 0 + 1"

definition live_turn :: "turn_row \<Rightarrow> bool" where
  "live_turn r \<longleftrightarrow> tn_state r = StStarting \<or> tn_state r = StRunning \<or> tn_state r = StUncertain \<and> tn_uncertain r"

definition turn_row_bytes :: "turn_row \<Rightarrow> nat" where
  "turn_row_bytes r = length (tn_scope_key r) + length (tn_client_message_id r) +
     opt_len (tn_codex_thread_id r) + opt_len (tn_codex_turn_id r)"

definition turns_bytes :: "turn_row list \<Rightarrow> nat" where
  "turns_bytes rs = sum_list (map turn_row_bytes rs)"

definition recovery_usage :: "turn_table \<Rightarrow> int option \<Rightarrow> nat \<times> nat" where
  "recovery_usage t exclude_id =
     (let rows = filter (\<lambda>r. live_turn r \<and> exclude_id \<noteq> Some (tn_id r)) t in (length rows, turns_bytes rows))"

definition turn_bytes :: "string \<Rightarrow> string \<Rightarrow> string option \<Rightarrow> string option \<Rightarrow> nat" where
  "turn_bytes scope client thread_id turn_id = request_bytes [scope, client, str_or_empty thread_id, str_or_empty turn_id]"

definition ensure_recovery_capacity :: "nat \<Rightarrow> nat \<Rightarrow> nat \<Rightarrow> string \<Rightarrow> (store_error, unit) result" where
  "ensure_recovery_capacity count bytes additional context' =
     ensure (\<not> (count \<ge> STORE_RECOVERY_TURN_MAX_ROWS \<or> sat_add_u64 bytes additional > STORE_RECOVERY_TURN_MAX_BYTES))
       (CapacityExceeded context')"

fun legal_turn_transition :: "turn_state \<Rightarrow> turn_state \<Rightarrow> bool" where
  "legal_turn_transition StStarting to = (to \<in> {StRunning, StFailed, StInterrupted, StUncertain})"
| "legal_turn_transition StRunning to = (to \<in> {StCompleted, StFailed, StInterrupted, StUncertain})"
| "legal_turn_transition StUncertain to = (to \<in> {StCompleted, StFailed, StInterrupted})"
| "legal_turn_transition _ to = False"

text \<open>The insertion of a turn, with the unique index on \<open>client_message_id\<close>.\<close>

definition insert_turn :: "int \<Rightarrow> new_turn_row \<Rightarrow> nat \<Rightarrow> string \<Rightarrow> (turn_table, int) job" where
  "insert_turn now row count context' t =
     (if list_ex (\<lambda>r. tn_client_message_id r = nt_client_message_id row) t
      then Inl (Sqlite context' (Some 2067))
      else Inr (next_turn_id t, t @ [\<lparr>tn_id = next_turn_id t, tn_scope_key = nt_scope_key row,
             tn_client_message_id = nt_client_message_id row, tn_codex_thread_id = nt_codex_thread_id row,
             tn_codex_turn_id = None, tn_state = StStarting, tn_uncertain = False, tn_created_ms = now,
             tn_updated_ms = now, tn_inbound_count = count\<rparr>]))"

definition record_turn :: "int \<Rightarrow> new_turn_row \<Rightarrow> (turn_table, int) job" where
  "record_turn now row t =
     (if nt_state row \<noteq> StStarting then Inl (InvalidTransition ''creating a turn outside the starting state'')
      else run_sized (request_bytes [nt_scope_key row, nt_client_message_id row, str_or_empty (nt_codex_thread_id row)])
        (\<lambda>t. let (count, bytes) = recovery_usage t None;
                  row_bytes = turn_bytes (nt_scope_key row) (nt_client_message_id row) (nt_codex_thread_id row) None
              in result_bind (ensure_recovery_capacity count bytes row_bytes ''recording a live turn'')
                   (\<lambda>_. insert_turn now row 0 ''recording a turn'' t)) t)"

definition coalesce :: "'a option \<Rightarrow> 'a option \<Rightarrow> 'a option" where
  "coalesce x y = (case x of None \<Rightarrow> y | Some _ \<Rightarrow> x)"

definition update_turn :: "int \<Rightarrow> (turn_row \<Rightarrow> turn_row) \<Rightarrow> turn_table \<Rightarrow> turn_table" where
  "update_turn i f t = map (\<lambda>r. if tn_id r = i then f r else r) t"

definition set_turn_state :: "int \<Rightarrow> int \<Rightarrow> turn_state \<Rightarrow> string option \<Rightarrow> (turn_table, unit) job" where
  "set_turn_state now i state codex_turn_id t =
     run_sized (request_bytes [str_or_empty codex_turn_id]) (\<lambda>t.
       case turn_by_id t i of
         None \<Rightarrow> Inl (NotFound ''transitioning an unknown turn'')
       | Some row \<Rightarrow>
           result_bind (all_ok
             [ensure (legal_turn_transition (tn_state row) state) (InvalidTransition ''transitioning a turn''),
              ensure (\<not> (tn_inbound_count row > 0 \<and> \<not> (tn_state row = StStarting \<and> state = StRunning)))
                (InvalidTransition ''terminalizing an inbound turn outside the combined API''),
              if state = StRunning \<or> state = StUncertain
              then let (count, bytes) = recovery_usage t (Some i);
                       row_bytes = turn_bytes (tn_scope_key row) (tn_client_message_id row) (tn_codex_thread_id row)
                                     (coalesce codex_turn_id (tn_codex_turn_id row))
                   in ensure_recovery_capacity count bytes row_bytes ''transitioning a live turn''
              else Inr ()])
             (\<lambda>_. Inr ((), update_turn i (\<lambda>r. r\<lparr>tn_state := state, tn_uncertain := (state = StUncertain),
                    tn_updated_ms := now, tn_codex_turn_id := coalesce codex_turn_id (tn_codex_turn_id r)\<rparr>) t))) t"

definition uncertain_turns :: "(turn_table, turn_row list) job" where
  "uncertain_turns t =
     run_job (\<lambda>t. let (count, bytes) = recovery_usage t None in
       if count > STORE_RECOVERY_TURN_MAX_ROWS \<or> bytes > STORE_RECOVERY_TURN_MAX_BYTES
       then Inl (CapacityExceeded ''reading live turn recovery rows'')
       else Inr (take STORE_RECOVERY_TURN_MAX_ROWS (sort_key tn_id (filter live_turn t)), t)) t"

definition turn_row_read :: "int \<Rightarrow> (turn_table, turn_row option) job" where
  "turn_row_read i t = run_job (\<lambda>t. Inr (turn_by_id t i, t)) t"

section \<open>Invariants of turns\<close>

definition turn_ids_ok :: "turn_table \<Rightarrow> bool" where
  "turn_ids_ok t \<longleftrightarrow> distinct (map tn_id t) \<and> distinct (map tn_client_message_id t)"

definition turn_flags_ok :: "turn_table \<Rightarrow> bool" where
  "turn_flags_ok t = list_all (\<lambda>r. tn_uncertain r \<longrightarrow> tn_state r = StUncertain) t"

definition live_turns_bounded :: "turn_table \<Rightarrow> bool" where
  "live_turns_bounded t \<longleftrightarrow> length (filter live_turn t) \<le> STORE_RECOVERY_TURN_MAX_ROWS \<and>
     turns_bytes (filter live_turn t) \<le> STORE_RECOVERY_TURN_MAX_BYTES"

definition turns_wf :: "turn_table \<Rightarrow> bool" where
  "turns_wf t \<longleftrightarrow> turn_ids_ok t \<and> turn_flags_ok t \<and> live_turns_bounded t"

lemma turns_bytes_simps [simp]: "turns_bytes [] = 0" "turns_bytes (r # rs) = turn_row_bytes r + turns_bytes rs"
  "turns_bytes (rs @ rs') = turns_bytes rs + turns_bytes rs'"
  by (simp_all add: turns_bytes_def)

lemma request_bytes_sum: "request_bytes xs = min (sum_list (map length xs)) u64_max"
proof -
  have "foldl (\<lambda>acc v. sat_add_u64 acc (length v)) n xs = min (n + sum_list (map length xs)) u64_max" if "n \<le> u64_max" for n
    using that by (induction xs arbitrary: n) (auto simp: sat_add_u64_def)
  from this [of 0] show ?thesis by (simp add: request_bytes_def)
qed

lemma length_str_or_empty [simp]: "length (str_or_empty x) = opt_len x"
  by (simp add: str_or_empty_def opt_len_def split: option.splits)

lemma recovery_capacityD:
  assumes "ensure_recovery_capacity count bytes (turn_bytes a b x y) context' = Inr u"
  shows "count < STORE_RECOVERY_TURN_MAX_ROWS \<and>
         bytes + (length a + length b + opt_len x + opt_len y) \<le> STORE_RECOVERY_TURN_MAX_BYTES"
  using assms
  by (auto simp: ensure_recovery_capacity_def turn_bytes_def request_bytes_sum sat_add_u64_def u64_max_def limit_defs
      min_def split: if_splits)

lemma next_turn_id_fresh: "next_turn_id t \<notin> tn_id ` set t"
  using fold_max_ge [of 0 "map tn_id t"] by (force simp: next_turn_id_def)

lemma turn_by_id_SomeD: "turn_by_id t i = Some r \<Longrightarrow> r \<in> set t \<and> tn_id r = i"
  unfolding turn_by_id_def by (rule find_SomeD)

lemma turn_by_id_unique: "turn_ids_ok t \<Longrightarrow> r \<in> set t \<Longrightarrow> turn_by_id t (tn_id r) = Some r"
  by (simp add: turn_by_id_def turn_ids_ok_def find_unique)

lemma update_turn_keeps_column: "(\<And>r. g (f r) = g r) \<Longrightarrow> map g (update_turn i f t) = map g t"
  by (simp add: update_turn_def)

lemma set_update_turn: "set (update_turn i f t) = (\<lambda>r. if tn_id r = i then f r else r) ` set t"
  by (simp add: update_turn_def)

lemma live_usage_update:
  assumes "turn_ids_ok t" "turn_by_id t i = Some row"
  shows "length (filter live_turn (update_turn i f t)) =
           fst (recovery_usage t (Some i)) + (if live_turn (f row) then 1 else 0)"
    and "turns_bytes (filter live_turn (update_turn i f t)) =
           snd (recovery_usage t (Some i)) + (if live_turn (f row) then turn_row_bytes (f row) else 0)"
proof -
  from assms have row: "row \<in> set t" "tn_id row = i" "distinct (map tn_id t)"
    by (auto simp: turn_ids_ok_def dest: turn_by_id_SomeD)
  note sums = update_one_sum [OF row(3,1), of _ f, unfolded row(2)]
  have rest: "filter (\<lambda>r. live_turn r \<and> Some i \<noteq> Some (tn_id r)) t = filter live_turn (filter (\<lambda>r. tn_id r \<noteq> i) t)"
    by (auto intro: filter_cong)
  show "length (filter live_turn (update_turn i f t)) =
      fst (recovery_usage t (Some i)) + (if live_turn (f row) then 1 else 0)"
    using sums [of "\<lambda>r. if live_turn r then 1 else 0"]
    unfolding recovery_usage_def Let_def rest fst_conv length_filter_if update_turn_def .
  show "turns_bytes (filter live_turn (update_turn i f t)) =
      snd (recovery_usage t (Some i)) + (if live_turn (f row) then turn_row_bytes (f row) else 0)"
    using sums [of "\<lambda>r. if live_turn r then turn_row_bytes r else 0"]
    unfolding recovery_usage_def Let_def rest snd_conv turns_bytes_def sum_list_filter_if update_turn_def .
qed

lemma insert_turn_wf:
  assumes "turns_wf t" "insert_turn now row n context' t = Inr (i, t')"
    and "length (filter live_turn t) < STORE_RECOVERY_TURN_MAX_ROWS"
    and "turns_bytes (filter live_turn t) + (length (nt_scope_key row) + length (nt_client_message_id row) + opt_len (nt_codex_thread_id row))
           \<le> STORE_RECOVERY_TURN_MAX_BYTES"
  shows "turns_wf t'"
proof -
  let ?new = "\<lparr>tn_id = next_turn_id t, tn_scope_key = nt_scope_key row, tn_client_message_id = nt_client_message_id row,
     tn_codex_thread_id = nt_codex_thread_id row, tn_codex_turn_id = None, tn_state = StStarting, tn_uncertain = False,
     tn_created_ms = now, tn_updated_ms = now, tn_inbound_count = n\<rparr>"
  from assms(2) have t': "t' = t @ [?new]" and client: "nt_client_message_id row \<notin> tn_client_message_id ` set t"
    by (auto simp: insert_turn_def list_ex_iff split: if_splits)
  have "turn_ids_ok t'"
    using assms(1) client next_turn_id_fresh [of t] by (auto simp: t' turns_wf_def turn_ids_ok_def)
  moreover have "turn_flags_ok t'" using assms(1) by (simp add: t' turns_wf_def turn_flags_ok_def)
  moreover have "live_turns_bounded t'"
    using assms(3,4) by (simp add: t' live_turns_bounded_def live_turn_def turn_row_bytes_def opt_len_def)
  ultimately show ?thesis by (simp add: turns_wf_def)
qed

lemma recovery_usage_all: "recovery_usage t None = (length (filter live_turn t), turns_bytes (filter live_turn t))"
  by (simp add: recovery_usage_def Let_def)

lemma record_turn_wf:
  assumes "turns_wf t" "record_turn now row t = Inr (i, t')"
  shows "turns_wf t'"
proof -
  from assms(2) have "ensure_recovery_capacity (length (filter live_turn t)) (turns_bytes (filter live_turn t))
      (turn_bytes (nt_scope_key row) (nt_client_message_id row) (nt_codex_thread_id row) None) ''recording a live turn'' = Inr ()"
    and ins: "insert_turn now row 0 ''recording a turn'' t = Inr (i, t')"
    by (auto simp: record_turn_def recovery_usage_all split: if_splits dest!: run_sized_Inr)
  from recovery_capacityD [OF this(1)] show ?thesis
    by (intro insert_turn_wf [OF assms(1) ins]) (simp_all add: opt_len_def)
qed

lemma update_turn_wf:
  assumes "turns_wf t" "turn_by_id t i = Some row"
    and "\<And>r. tn_id (f r) = tn_id r" "\<And>r. tn_client_message_id (f r) = tn_client_message_id r"
    and "\<And>r. tn_uncertain (f r) \<Longrightarrow> tn_state (f r) = StUncertain"
    and "live_turn (f row) \<Longrightarrow> fst (recovery_usage t (Some i)) < STORE_RECOVERY_TURN_MAX_ROWS \<and>
           snd (recovery_usage t (Some i)) + turn_row_bytes (f row) \<le> STORE_RECOVERY_TURN_MAX_BYTES"
  shows "turns_wf (update_turn i f t)"
proof -
  from assms(1) have ids: "turn_ids_ok t" and flags: "turn_flags_ok t" and bound: "live_turns_bounded t"
    by (simp_all add: turns_wf_def)
  have "turn_ids_ok (update_turn i f t)"
    using ids assms(3,4) by (simp add: turn_ids_ok_def update_turn_keeps_column)
  moreover have "turn_flags_ok (update_turn i f t)"
    using flags assms(5) by (auto simp: turn_flags_ok_def list_all_iff set_update_turn)
  moreover have "live_turns_bounded (update_turn i f t)"
  proof (cases "live_turn (f row)")
    case True
    with assms(6) live_usage_update [OF ids assms(2), of f] show ?thesis by (simp add: live_turns_bounded_def)
  next
    case False
    have "fst (recovery_usage t (Some i)) \<le> length (filter live_turn t)"
      by (auto simp: recovery_usage_def Let_def intro: length_filter_mono)
    moreover have "snd (recovery_usage t (Some i)) \<le> turns_bytes (filter live_turn t)"
      by (auto simp: recovery_usage_def Let_def turns_bytes_def sum_list_filter_if intro!: sum_list_mono)
    ultimately show ?thesis
      using False bound live_usage_update [OF ids assms(2), of f] by (simp add: live_turns_bounded_def)
  qed
  ultimately show ?thesis by (simp add: turns_wf_def)
qed

lemma set_turn_stateD:
  assumes "set_turn_state now i state turn_id t = Inr (u, t')"
  obtains row where "turn_by_id t i = Some row" "legal_turn_transition (tn_state row) state"
    "tn_inbound_count row > 0 \<Longrightarrow> tn_state row = StStarting \<and> state = StRunning"
    "state = StRunning \<or> state = StUncertain \<Longrightarrow>
       fst (recovery_usage t (Some i)) < STORE_RECOVERY_TURN_MAX_ROWS \<and>
       snd (recovery_usage t (Some i)) + (length (tn_scope_key row) + length (tn_client_message_id row) +
         opt_len (tn_codex_thread_id row) + opt_len (coalesce turn_id (tn_codex_turn_id row))) \<le> STORE_RECOVERY_TURN_MAX_BYTES"
    "t' = update_turn i (\<lambda>r. r\<lparr>tn_state := state, tn_uncertain := (state = StUncertain),
       tn_updated_ms := now, tn_codex_turn_id := coalesce turn_id (tn_codex_turn_id r)\<rparr>) t"
  using run_sized_Inr [OF assms [unfolded set_turn_state_def]]
  by (auto simp: case_prod_beta Let_def split: option.splits if_splits dest!: recovery_capacityD)

lemma set_turn_state_wf:
  assumes "turns_wf t" "set_turn_state now i state turn_id t = Inr (u, t')"
  shows "turns_wf t'"
  using assms(2)
proof (rule set_turn_stateD)
  fix row
  let ?f = "\<lambda>r. r\<lparr>tn_state := state, tn_uncertain := (state = StUncertain),
       tn_updated_ms := now, tn_codex_turn_id := coalesce turn_id (tn_codex_turn_id r)\<rparr>"
  assume row: "turn_by_id t i = Some row" and t': "t' = update_turn i ?f t"
    and legal: "legal_turn_transition (tn_state row) state"
    and cap: "state = StRunning \<or> state = StUncertain \<Longrightarrow>
       fst (recovery_usage t (Some i)) < STORE_RECOVERY_TURN_MAX_ROWS \<and>
       snd (recovery_usage t (Some i)) + (length (tn_scope_key row) + length (tn_client_message_id row) +
         opt_len (tn_codex_thread_id row) + opt_len (coalesce turn_id (tn_codex_turn_id row))) \<le> STORE_RECOVERY_TURN_MAX_BYTES"
  have "state \<noteq> StStarting" using legal by (cases "tn_state row") auto
  then have "live_turn (?f row) \<Longrightarrow> state = StRunning \<or> state = StUncertain" by (auto simp: live_turn_def)
  with cap show ?thesis
    unfolding t' by (intro update_turn_wf [OF assms(1) row]) (auto simp: turn_row_bytes_def)
qed

section \<open>Invariants of threads\<close>

definition thread_keys_ok :: "thread_table \<Rightarrow> bool" where
  "thread_keys_ok t = distinct (map (\<lambda>r. (th_scope_key r, th_codex_thread_id r)) t)"

definition active_threads :: "thread_table \<Rightarrow> thread_row list" where
  "active_threads t = filter (\<lambda>r. th_status r = ThreadActive) t"

definition threads_wf :: "thread_table \<Rightarrow> bool" where
  "threads_wf t \<longleftrightarrow> thread_keys_ok t \<and> distinct (map th_scope_key (active_threads t)) \<and>
     distinct (map th_codex_thread_id (active_threads t)) \<and>
     list_all (\<lambda>r. th_status r = ThreadArchived \<longleftrightarrow> th_archived_ms r \<noteq> None) t"

datatype thread_op =
    OpRecord int scope_key string nat
  | OpArchive int scope_key
  | OpReactivate int scope_key string

fun apply_thread_op :: "thread_op \<Rightarrow> thread_table \<Rightarrow> thread_table" where
  "apply_thread_op (OpRecord now scope thread_id version) = after (record_active_thread_with_context_tools now scope thread_id version)"
| "apply_thread_op (OpArchive now scope) = after (archive_active_thread now scope)"
| "apply_thread_op (OpReactivate now scope thread_id) = after (reactivate_archived_thread now scope thread_id)"

abbreviation thread_key :: "thread_row \<Rightarrow> string \<times> string" where
  "thread_key r \<equiv> (th_scope_key r, th_codex_thread_id r)"

lemma update_split:
  assumes "distinct (map key xs)" "x \<in> set xs"
  obtains us vs where "xs = us @ x # vs" "map (\<lambda>y. if key y = key x then f y else y) xs = us @ f x # vs"
proof -
  from assms(2) obtain us vs where xs: "xs = us @ x # vs" by (auto dest: split_list)
  with assms(1) have "key x \<notin> key ` set us" "key x \<notin> key ` set vs" by auto
  then have "map (\<lambda>y. if key y = key x then f y else y) xs = us @ f x # vs" by (simp add: xs update_absent)
  with xs show ?thesis by (rule that)
qed

lemma active_archive_row:
  "active_threads (archive_row now key thread_id t) = filter (\<lambda>r. thread_key r \<noteq> (key, thread_id)) (active_threads t)"
  by (induction t) (auto simp: active_threads_def archive_row_def)

lemma distinct_map_filter': "distinct (map f xs) \<Longrightarrow> distinct (map f (filter P xs))"
  by (induction xs) auto

lemma archive_row_keys: "map thread_key (archive_row now key thread_id t) = map thread_key t"
  by (simp add: archive_row_def)

lemma archive_row_wf: "threads_wf t \<Longrightarrow> threads_wf (archive_row now key thread_id t)"
proof -
  assume t: "threads_wf t"
  have "thread_keys_ok (archive_row now key thread_id t)"
    using t by (simp only: threads_wf_def thread_keys_ok_def archive_row_keys)
  moreover have "list_all (\<lambda>r. th_status r = ThreadArchived \<longleftrightarrow> th_archived_ms r \<noteq> None) (archive_row now key thread_id t)"
    using t by (auto simp: threads_wf_def archive_row_def list_all_iff)
  ultimately show ?thesis
    using t by (simp add: threads_wf_def active_archive_row distinct_map_filter')
qed

lemma record_active_thread_wf:
  assumes "threads_wf t" "record_active_thread_with_context_tools now scope thread_id version t = Inr (u, t')"
  shows "threads_wf t'"
proof -
  let ?k = "scope_to_string scope"
  from run_sized_Inr [OF assms(2) [unfolded record_active_thread_with_context_tools_def Let_def]]
  have fresh: "(?k, thread_id) \<notin> thread_key ` set t" and conflict: "\<not> active_conflict t ?k thread_id"
    and t': "t' = t @ [\<lparr>th_scope_key = ?k, th_codex_thread_id = thread_id, th_status = ThreadActive, th_created_ms = now,
       th_archived_ms = None, th_context_tools_version = version, th_origin = BridgeCreated, th_adoption_generation = None\<rparr>]"
    by (auto simp: thread_of_def find_None_iff split: if_splits)
  from fresh conflict have "?k \<notin> th_scope_key ` set (active_threads t)" "thread_id \<notin> th_codex_thread_id ` set (active_threads t)"
    by (force simp: active_threads_def active_conflict_def list_ex_iff)+
  with fresh assms(1) show ?thesis by (auto simp: t' threads_wf_def thread_keys_ok_def active_threads_def)
qed

lemma archive_active_thread_wf:
  "threads_wf t \<Longrightarrow> archive_active_thread now scope t = Inr (r, t') \<Longrightarrow> threads_wf t'"
  by (auto simp: archive_active_thread_def Let_def archive_row_wf split: option.splits if_splits dest!: run_sized_Inr)

lemma activate_row_wf:
  assumes "threads_wf t" "thread_of t key thread_id = Some row" "\<not> active_conflict t key thread_id"
    "th_status row = ThreadArchived"
  shows "threads_wf (activate_row key thread_id t)"
proof -
  let ?f = "\<lambda>r. r\<lparr>th_status := ThreadActive, th_archived_ms := None\<rparr>"
  from assms(2) have row: "row \<in> set t" "thread_key row = (key, thread_id)"
    unfolding thread_of_def by (auto dest: find_SomeD)
  from assms(1) have d: "distinct (map thread_key t)" by (simp add: threads_wf_def thread_keys_ok_def)
  obtain us vs where t: "t = us @ row # vs"
    and t': "map (\<lambda>r. if thread_key r = thread_key row then ?f r else r) t = us @ ?f row # vs"
    using update_split [OF d row(1), of ?f] .
  have act: "activate_row key thread_id t = us @ ?f row # vs"
    using t' row(2) by (simp add: activate_row_def)
  have others: "th_scope_key r \<noteq> key \<and> th_codex_thread_id r \<noteq> thread_id" if "r \<in> set (us @ vs)" "th_status r = ThreadActive" for r
  proof -
    have "thread_key row \<notin> thread_key ` set (us @ vs)" using d unfolding t by (simp add: image_Un)
    moreover have "thread_key r \<in> thread_key ` set (us @ vs)" using that(1) by (rule imageI)
    ultimately have "thread_key r \<noteq> thread_key row" by fastforce
    then have "thread_key r \<noteq> (key, thread_id)" using row(2) by simp
    moreover have "r \<in> set t" using that(1) by (auto simp: t)
    ultimately show ?thesis using that(2) assms(3) by (auto simp: active_conflict_def list_ex_iff)
  qed
  have "th_scope_key row \<notin> th_scope_key ` set (active_threads (us @ vs))"
    "th_codex_thread_id row \<notin> th_codex_thread_id ` set (active_threads (us @ vs))"
    using others row(2) by (fastforce simp: active_threads_def)+
  moreover have "threads_wf t" by (rule assms(1))
  ultimately show ?thesis
    unfolding act using assms(4)
    by (auto simp: t threads_wf_def thread_keys_ok_def active_threads_def)
qed

lemma thread_of_archive_row:
  assumes "thread_keys_ok t" "thread_of t key thread_id = Some row" "th_status row = ThreadArchived"
  shows "thread_of (archive_row now key' thread_id' t) key thread_id = Some row"
proof -
  from assms(2) have row: "row \<in> set t" "thread_key row = (key, thread_id)" unfolding thread_of_def by (auto dest: find_SomeD)
  have "row \<in> set (archive_row now key' thread_id' t)" using row(1) assms(3) by (force simp: archive_row_def)
  moreover have "distinct (map thread_key (archive_row now key' thread_id' t))"
    using assms(1) by (simp only: thread_keys_ok_def archive_row_keys)
  ultimately show ?thesis using find_unique [of thread_key _ row] row(2) by (simp add: thread_of_def)
qed

lemma reactivate_archived_thread_wf:
  assumes "threads_wf t" "reactivate_archived_thread now scope thread_id t = Inr (r, t')"
  shows "threads_wf t'"
proof -
  let ?k = "scope_to_string scope"
  have job: "(case thread_of t ?k thread_id of None \<Rightarrow> Inr (None, t)
      | Some row \<Rightarrow> if th_origin row \<noteq> BridgeCreated
          then Inl (InvalidTransition ''reactivating an externally adopted thread outside adoption'')
          else if th_status row = ThreadActive then Inr (Some row, t)
          else result_bind (archive_for_resume now ?k t)
                 (\<lambda>t'. if active_conflict t' ?k thread_id then Inl (Sqlite ''reactivating an archived thread'' (Some 2067))
                       else Inr (Some (row\<lparr>th_status := ThreadActive, th_archived_ms := None\<rparr>), activate_row ?k thread_id t'))) = Inr (r, t')"
    using run_sized_Inr [OF assms(2) [unfolded reactivate_archived_thread_def Let_def]] .
  consider (same) "t' = t"
    | (act) row t1 where "thread_of t ?k thread_id = Some row" "th_status row = ThreadArchived" "\<not> active_conflict t1 ?k thread_id"
      "archive_for_resume now ?k t = Inr t1" "t' = activate_row ?k thread_id t1"
  proof (cases "thread_of t ?k thread_id")
    case None
    with job same show ?thesis by simp
  next
    case (Some row)
    with job same act [of row] show ?thesis by (cases "th_status row") (auto split: if_splits)
  qed
  then show ?thesis
  proof cases
    case same
    with assms(1) show ?thesis by simp
  next
    case act
    then have "threads_wf t1" "thread_of t1 ?k thread_id = Some row"
      using assms(1) archive_row_wf [of t] thread_of_archive_row [of t ?k thread_id row]
      by (auto simp: archive_for_resume_def threads_wf_def split: option.splits if_splits)
    with act show ?thesis using activate_row_wf by blast
  qed
qed

lemma apply_thread_op_wf: "threads_wf t \<Longrightarrow> threads_wf (apply_thread_op op t)"
  by (cases op) (auto simp: after_def split: sum.splits
      dest: record_active_thread_wf archive_active_thread_wf reactivate_archived_thread_wf)

interpretation thread_run: invariant_steps apply_thread_op threads_wf
  by unfold_locales (rule apply_thread_op_wf)

text \<open>
  Whatever threads are recorded, archived and resumed, in whatever order, a scope has at most one
  active thread, a Codex thread is active in at most one scope, and exactly the archived threads have an
  archive time.
\<close>

theorem one_active_thread_per_scope:
  "distinct (map th_scope_key (active_threads (fold apply_thread_op ops []))) \<and>
   distinct (map th_codex_thread_id (active_threads (fold apply_thread_op ops []))) \<and>
   list_all (\<lambda>r. th_status r = ThreadArchived \<longleftrightarrow> th_archived_ms r \<noteq> None) (fold apply_thread_op ops [])"
proof -
  have "threads_wf []" by (simp add: threads_wf_def thread_keys_ok_def active_threads_def)
  from thread_run.run_inv [OF this, of ops] show ?thesis by (simp add: threads_wf_def)
qed

lemma find_filter: "List.find P (filter Q xs) = List.find (\<lambda>x. Q x \<and> P x) xs"
  by (induction xs) auto

lemma archive_for_resume_ok:
  assumes "threads_wf t" "thread_of t key thread_id = Some row" "list_all (\<lambda>r. th_origin r = BridgeCreated) t"
    and "list_all (\<lambda>r. th_codex_thread_id r = thread_id \<longrightarrow> th_status r = ThreadArchived) t"
  shows "\<exists>t1. archive_for_resume now key t = Inr t1 \<and> threads_wf t1 \<and> thread_of t1 key thread_id = Some row \<and>
           map thread_key t1 = map thread_key t \<and> \<not> active_conflict t1 key thread_id"
proof (cases "active_of t key")
  case None
  then have "\<not> active_conflict t key thread_id"
    using assms(4) by (auto simp: active_of_def find_None_iff active_conflict_def list_ex_iff list_all_iff)
  with None assms(1,2) show ?thesis by (simp add: archive_for_resume_def)
next
  case (Some active)
  then have act: "active \<in> set (active_threads t)" "th_scope_key active = key" "active \<in> set t"
    unfolding active_of_def by (auto simp: active_threads_def dest: find_SomeD)
  let ?t1 = "archive_row now key (th_codex_thread_id active) t"
  from assms(2) have row: "row \<in> set t" "thread_key row = (key, thread_id)" unfolding thread_of_def by (auto dest: find_SomeD)
  with assms(4) have "th_status row = ThreadArchived" by (auto simp: list_all_iff)
  then have "thread_of ?t1 key thread_id = Some row"
    using thread_of_archive_row assms(1,2) by (simp add: threads_wf_def)
  moreover have "\<not> active_conflict ?t1 key thread_id"
  proof -
    have False if "r \<in> set ?t1" "th_status r = ThreadActive" "th_scope_key r = key \<or> th_codex_thread_id r = thread_id" for r
    proof -
      from that(1,2) have r: "r \<in> set (active_threads ?t1)" by (simp add: active_threads_def)
      then have "r \<in> set (active_threads t)" "thread_key r \<noteq> (key, th_codex_thread_id active)"
        by (simp_all add: active_archive_row)
      moreover from this(1) have "th_codex_thread_id r \<noteq> thread_id"
        using assms(4) by (auto simp: active_threads_def list_all_iff)
      moreover have "distinct (map th_scope_key (active_threads t))" using assms(1) by (simp add: threads_wf_def)
      ultimately show False using that(3) act by (metis distinct_map inj_onD)
    qed
    then show ?thesis by (auto simp: active_conflict_def list_ex_iff)
  qed
  ultimately show ?thesis
    using Some act assms(1,3) archive_row_wf archive_row_keys by (auto simp: archive_for_resume_def list_all_iff)
qed

text \<open>
  \<open>/resume\<close> of an archived thread that no other scope has active succeeds, makes that thread
  the active one of the scope, and only archives: the set of recorded threads stays the same.
\<close>

theorem resume_switches_the_active_thread:
  assumes "threads_wf t" "thread_of t (scope_to_string scope) thread_id = Some row"
    and "list_all (\<lambda>r. th_origin r = BridgeCreated) t"
    and "list_all (\<lambda>r. th_codex_thread_id r = thread_id \<longrightarrow> th_status r = ThreadArchived) t"
    and "length (scope_to_string scope) + length thread_id \<le> 4096"
  shows "\<exists>t'. reactivate_archived_thread now scope thread_id t =
           Inr (Some (row\<lparr>th_status := ThreadActive, th_archived_ms := None\<rparr>), t') \<and>
         active_of t' (scope_to_string scope) = Some (row\<lparr>th_status := ThreadActive, th_archived_ms := None\<rparr>) \<and>
         map thread_key t' = map thread_key t"
proof -
  let ?k = "scope_to_string scope" and ?row = "row\<lparr>th_status := ThreadActive, th_archived_ms := None\<rparr>"
  from assms(2) have row: "row \<in> set t" "thread_key row = (?k, thread_id)" unfolding thread_of_def by (auto dest: find_SomeD)
  with assms(3,4) have archived: "th_status row = ThreadArchived" and origin: "th_origin row = BridgeCreated"
    by (auto simp: list_all_iff)
  obtain t1 where t1: "archive_for_resume now ?k t = Inr t1" "threads_wf t1" "thread_of t1 ?k thread_id = Some row"
      "map thread_key t1 = map thread_key t" "\<not> active_conflict t1 ?k thread_id"
    using archive_for_resume_ok [OF assms(1-4)] by blast
  then have res: "reactivate_archived_thread now scope thread_id t = Inr (Some ?row, activate_row ?k thread_id t1)"
    using assms(2,5) archived origin
    by (simp add: reactivate_archived_thread_def Let_def run_sized_def request_bytes_sum u64_max_def limit_defs)
  have wf: "threads_wf (activate_row ?k thread_id t1)"
    by (rule activate_row_wf [OF t1(2,3,5) archived])
  have "row \<in> set t1" using t1(3) unfolding thread_of_def by (auto dest: find_SomeD)
  then have "?row \<in> set (activate_row ?k thread_id t1)" using row(2) by (force simp: activate_row_def)
  then have "?row \<in> set (active_threads (activate_row ?k thread_id t1))" by (simp add: active_threads_def)
  from find_unique [OF _ this, of th_scope_key] wf have "active_of (activate_row ?k thread_id t1) ?k = Some ?row"
    using row(2) by (simp add: threads_wf_def active_of_def active_threads_def find_filter conj_commute)
  moreover have "map thread_key (activate_row ?k thread_id t1) = map thread_key t1"
    by (simp add: activate_row_def)
  with t1(4) have "map thread_key (activate_row ?k thread_id t1) = map thread_key t" by simp
  ultimately show ?thesis using res by blast
qed

definition demo_threads :: thread_table where
  "demo_threads =
     [\<lparr>th_scope_key = ''im:c'', th_codex_thread_id = ''t1'', th_status = ThreadArchived, th_created_ms = 1, th_archived_ms = Some 2,
       th_context_tools_version = 0, th_origin = BridgeCreated, th_adoption_generation = None\<rparr>,
      \<lparr>th_scope_key = ''im:c'', th_codex_thread_id = ''t2'', th_status = ThreadActive, th_created_ms = 2, th_archived_ms = None,
       th_context_tools_version = 0, th_origin = BridgeCreated, th_adoption_generation = None\<rparr>]"

theorem resume_switches_the_active_thread_witness:
  "\<exists>r t'. reactivate_archived_thread 3 (ScopeChat ''c'') ''t1'' demo_threads = Inr (Some r, t') \<and> th_codex_thread_id r = ''t1''"
proof -
  have "threads_wf demo_threads"
    by (simp add: threads_wf_def thread_keys_ok_def active_threads_def demo_threads_def)
  from resume_switches_the_active_thread [OF this, of "ScopeChat ''c''" "''t1''" "demo_threads ! 0" 3]
  show ?thesis by (auto simp: thread_of_def demo_threads_def)
qed

end
