(* ===== verification/Inbound_Store.thy ===== *)
theory Inbound_Store
  imports Turn_Store Outbox_Fifo "HOL-Library.List_Lexorder" "HOL-Library.Char_ord"
begin

text \<open>
  The durable inbox, \<^verbatim>\<open>src/src/store/dedup.rs\<close>: registration and deduplication of inbound events, the atomic
  claim of events by a new turn, the atomic resolution of a turn with its events, settlement without a
  turn (completion, control reply, rejection, rejection notice), the retention sweep, and the integrity
  scan with the recovery read of a restart. The operations work on the three tables they write; the
  triggers of \<^verbatim>\<open>src/src/store/schema.rs\<close> are checks on every changed row (extended code 1811).
\<close>

section \<open>State\<close>

record bridge_store =
  bs_turns :: turn_table
  bs_inbound :: "inbound_row list"
  bs_outbox :: outbox_table

datatype dedup_outcome =
    DedupNew retained_inbound
  | ReplayReceived retained_inbound
  | Duplicate inbound_key inbound_event_state "int option"

record claimed_inbound =
  ci_key :: inbound_key
  ci_retained :: retained_inbound

record skipped_inbound =
  si_key :: inbound_key
  si_state :: inbound_event_state
  si_turn_row_id :: "int option"

datatype begin_turn_outcome =
    Started int "claimed_inbound list" "skipped_inbound list"
  | NoReceived "skipped_inbound list"

datatype inbound_terminal = TermCompleted | TermRejected

datatype resolve_turn_outcome = ResolvedNow nat | AlreadyResolved nat

datatype inbound_disposition = DispCompleted | DispRejected | AlreadyRejected | AlreadyClaimed int | AlreadyCompleted

section \<open>Rows and triggers\<close>

definition same_key :: "string \<Rightarrow> string \<Rightarrow> inbound_row \<Rightarrow> bool" where
  "same_key tenant event_id r \<longleftrightarrow> ir_tenant r = tenant \<and> ir_event_id r = event_id"

definition read_inbound_row :: "inbound_row list \<Rightarrow> string \<Rightarrow> string \<Rightarrow> inbound_row option" where
  "read_inbound_row rows tenant event_id = List.find (same_key tenant event_id) rows"

definition read_message_candidates :: "inbound_row list \<Rightarrow> string \<Rightarrow> string \<Rightarrow> inbound_row list" where
  "read_message_candidates rows tenant message_id =
     sort_key ir_event_id (filter (\<lambda>r. ir_tenant r = tenant \<and> ir_message_id r = message_id \<and> ir_state r \<noteq> EvRejected) rows)"

definition inbound_row_bytes :: "inbound_row \<Rightarrow> nat" where
  "inbound_row_bytes r = length (ir_tenant r) + length (ir_event_id r) + length (ir_message_id r) + length (ir_scope_key r) +
     opt_len (ir_rejection_reason r) + opt_len (ir_reply_outbox_key r) + nat (ir_payload_bytes r)"

definition inbound_logical_bytes :: "inbound_row list \<Rightarrow> nat" where
  "inbound_logical_bytes rows = sum_list (map inbound_row_bytes rows)"

definition received_rows :: "inbound_row list \<Rightarrow> inbound_row list" where
  "received_rows rows = filter (\<lambda>r. ir_state r = EvReceived) rows"

definition received_bytes :: "inbound_row list \<Rightarrow> nat" where
  "received_bytes rows = sum_list (map (\<lambda>r. nat (ir_payload_bytes r)) (received_rows rows))"

definition payload_shape_ok :: "inbound_row \<Rightarrow> bool" where
  "payload_shape_ok r \<longleftrightarrow> ir_payload_version r = Some 1 \<and>
     (case ir_payload_blob r of None \<Rightarrow> False | Some blob \<Rightarrow> ir_payload_bytes r = int (length blob))"

definition resolved_turn :: "turn_row \<Rightarrow> bool" where
  "resolved_turn t \<longleftrightarrow> tn_state t \<in> {StCompleted, StFailed, StInterrupted} \<or> tn_state t = StUncertain \<and> \<not> tn_uncertain t"

text \<open>\<open>inbound_events_v2_shape_insert\<close> and \<open>inbound_events_v2_shape_update\<close>.\<close>

definition v2_shape_ok :: "turn_table \<Rightarrow> inbound_row \<Rightarrow> bool" where
  "v2_shape_ok turns r =
     (case ir_state r of
        EvReceived \<Rightarrow> ir_turn_row_id r = None \<and> payload_shape_ok r
      | EvAccepted \<Rightarrow> payload_shape_ok r \<and>
          list_ex (\<lambda>t. ir_turn_row_id r = Some (tn_id t) \<and> tn_scope_key t = ir_scope_key r) turns
      | _ \<Rightarrow> ir_payload_version r = None \<and> ir_payload_blob r = None \<and> ir_payload_bytes r = 0 \<and>
          (ir_turn_row_id r = None \<or>
           list_ex (\<lambda>t. ir_turn_row_id r = Some (tn_id t) \<and> tn_scope_key t = ir_scope_key r \<and> resolved_turn t) turns))"

text \<open>\<open>inbound_events_v12_reply_effect_insert\<close> and the new-row part of the update trigger.\<close>

definition v12_effect_ok :: "inbound_row \<Rightarrow> bool" where
  "v12_effect_ok r =
     (case ir_reply_outbox_key r of
        None \<Rightarrow> True
      | Some key \<Rightarrow>
          1 \<le> length key \<and> length key \<le> 4308 \<and> is_tenant_namespace (ir_tenant r) \<and> ir_turn_row_id r = None \<and>
          (ir_state r = EvCompleted \<and> ir_rejection_reason r = None \<and>
             key = inbound_reply_outbox_key (ir_tenant r) (ir_event_id r) ''control'' \<or>
           ir_state r = EvRejected \<and>
             (case ir_rejection_reason r of
                None \<Rightarrow> False
              | Some reason \<Rightarrow> is_classified_inbound_rejection reason \<and>
                  key = inbound_reply_outbox_key (ir_tenant r) (ir_event_id r) (''notice:'' @ reason))))"

definition update_inbound ::
    "turn_table \<Rightarrow> string \<Rightarrow> (inbound_row \<Rightarrow> bool) \<Rightarrow> (inbound_row \<Rightarrow> inbound_row) \<Rightarrow> inbound_row list \<Rightarrow>
       (store_error, nat \<times> inbound_row list) result" where
  "update_inbound turns context' P f rows =
     (if list_all (\<lambda>r. P r \<longrightarrow> v2_shape_ok turns (f r) \<and> v12_effect_ok (f r) \<and>
                     (ir_reply_outbox_key r = None \<or> ir_reply_outbox_key (f r) = ir_reply_outbox_key r)) rows
      then Inr (length (filter P rows), map (\<lambda>r. if P r then f r else r) rows)
      else Inl (Sqlite context' (Some 1811)))"

text \<open>An update of the row with the given key that must change exactly one row.\<close>

definition update_one_inbound ::
    "turn_table \<Rightarrow> string \<Rightarrow> string \<Rightarrow> (inbound_row \<Rightarrow> bool) \<Rightarrow> (inbound_row \<Rightarrow> inbound_row) \<Rightarrow> inbound_row list \<Rightarrow>
       (store_error, inbound_row list) result" where
  "update_one_inbound turns context' changed_context P f rows =
     result_bind (update_inbound turns context' P f rows) (\<lambda>(changed, rows').
       if changed \<noteq> 1 then Inl (CorruptData changed_context) else Inr rows')"

definition erase_payload :: "inbound_row \<Rightarrow> inbound_row" where
  "erase_payload r = r\<lparr>ir_payload_version := None, ir_payload_blob := None, ir_payload_bytes := 0\<rparr>"

section \<open>Registration\<close>

definition registration_from_stored ::
    "inbound_codec \<Rightarrow> inbound_row \<Rightarrow> tenant_namespace \<Rightarrow> bool \<Rightarrow> inbound_event option \<Rightarrow> (store_error, dedup_outcome) result" where
  "registration_from_stored c stored tenant exact live' =
     (if ir_state stored = EvReceived
      then result_bind (retained_from_stored c stored) (\<lambda>persisted.
        Inr (ReplayReceived
          (case live' of
             Some event \<Rightarrow>
               if exact \<and> is_ok (validate_event event) \<and> is_ok (validate_live_claim event (ri_event persisted))
               then \<lparr>ri_event = event, ri_retained_bytes = ri_retained_bytes persisted\<rparr> else persisted
           | None \<Rightarrow> persisted)))
      else if ir_state stored = EvAccepted \<and> ir_turn_row_id stored = None
      then Inl (CorruptData ''validating an accepted inbound association'')
      else Inr (Duplicate \<lparr>ik_tenant = tenant, ik_event_id = ir_event_id stored\<rparr> (ir_state stored) (ir_turn_row_id stored)))"

definition ensure_inbound_capacity :: "inbound_row list \<Rightarrow> nat \<Rightarrow> nat \<Rightarrow> (store_error, unit) result" where
  "ensure_inbound_capacity rows additional_logical additional_payload =
     ensure (\<not> (length rows \<ge> STORE_INBOUND_MAX_ROWS \<or>
                sat_add_u64 (inbound_logical_bytes rows) additional_logical > STORE_INBOUND_MAX_BYTES \<or>
                length (received_rows rows) \<ge> STORE_INBOUND_RECEIVED_MAX_ROWS \<or>
                sat_add_u64 (received_bytes rows) additional_payload > STORE_INBOUND_RECEIVED_MAX_BYTES))
       (CapacityExceeded ''registering an inbound event'')"

definition new_inbound_row :: "int \<Rightarrow> string \<Rightarrow> inbound_event \<Rightarrow> string \<Rightarrow> inbound_row" where
  "new_inbound_row now tenant event payload =
     \<lparr>ir_tenant = tenant, ir_event_id = ev_event_id event, ir_message_id = ev_message_id event,
      ir_scope_key = scope_to_string (ev_scope event), ir_state = EvReceived, ir_first_seen_ms = now, ir_updated_ms = now,
      ir_payload_version = Some INBOUND_PAYLOAD_VERSION, ir_payload_blob = Some payload, ir_payload_bytes = int (length payload),
      ir_turn_row_id = None, ir_rejection_reason = None, ir_reply_outbox_key = None\<rparr>"

definition insert_inbound ::
    "inbound_codec \<Rightarrow> int \<Rightarrow> string \<Rightarrow> inbound_event \<Rightarrow> (bridge_store, dedup_outcome) job" where
  "insert_inbound c now tenant event s =
     result_bind (encode_event c event) (\<lambda>payload.
       let logical = sat_add_u64 (request_bytes [tenant, ev_event_id event, ev_message_id event, scope_to_string (ev_scope event)])
                       (length payload);
           row = new_inbound_row now tenant event payload
       in result_bind (ensure_inbound_capacity (bs_inbound s) logical (length payload)) (\<lambda>_.
         if v2_shape_ok (bs_turns s) row \<and> v12_effect_ok row
         then Inr (DedupNew \<lparr>ri_event = event, ri_retained_bytes = length payload\<rparr>, s\<lparr>bs_inbound := bs_inbound s @ [row]\<rparr>)
         else Inl (Sqlite ''registering an inbound event'' (Some 1811))))"

definition register_inbound ::
    "inbound_codec \<Rightarrow> int \<Rightarrow> tenant_namespace \<Rightarrow> inbound_event \<Rightarrow> (bridge_store, dedup_outcome) job" where
  "register_inbound c now tenant_namespace event s =
     (let tenant = as_hex tenant_namespace in
      result_bind (validate_incoming_key event) (\<lambda>_.
        run_sized (sat_add_u64 (sat_add_u64 (request_bytes [tenant, ev_event_id event, ev_message_id event])
                     (sat_mul_u64 (inbound_event_variable_bytes event) 2)) (2 * 1024)) (\<lambda>s.
          case read_inbound_row (bs_inbound s) tenant (ev_event_id event) of
            Some stored \<Rightarrow> result_map (\<lambda>out. (out, s)) (registration_from_stored c stored tenant_namespace True (Some event))
          | None \<Rightarrow>
              (case read_message_candidates (bs_inbound s) tenant (ev_message_id event) of
                 [] \<Rightarrow> insert_inbound c now tenant event s
               | [stored] \<Rightarrow> result_map (\<lambda>out. (out, s)) (registration_from_stored c stored tenant_namespace False None)
               | _ \<Rightarrow> Inl (CorruptData ''selecting a canonical inbound message''))) s))"

section \<open>Integrity\<close>

definition validate_nonempty_bounded :: "string \<Rightarrow> nat \<Rightarrow> string \<Rightarrow> (store_error, unit) result" where
  "validate_nonempty_bounded value' limit context' = ensure (value' \<noteq> [] \<and> length value' \<le> limit) (CorruptData context')"

definition rows_of_turn :: "inbound_row list \<Rightarrow> int \<Rightarrow> inbound_row list" where
  "rows_of_turn rows i = filter (\<lambda>r. ir_turn_row_id r = Some i) rows"

definition count_state :: "inbound_event_state \<Rightarrow> inbound_row list \<Rightarrow> nat" where
  "count_state state rows = length (filter (\<lambda>r. ir_state r = state) rows)"

definition validate_resolved_markers :: "inbound_row list \<Rightarrow> int \<Rightarrow> nat \<Rightarrow> inbound_event_state \<Rightarrow> (store_error, unit) result" where
  "validate_resolved_markers rows i inbound_count expected =
     (let linked = rows_of_turn rows i in
      ensure (count_state EvAccepted linked = 0 \<and> length linked \<le> inbound_count \<and> count_state expected linked = length linked)
        (CorruptData ''validating resolved inbound markers''))"

definition validate_unresolved_markers :: "inbound_row list \<Rightarrow> int \<Rightarrow> string \<Rightarrow> nat \<Rightarrow> (store_error, unit) result" where
  "validate_unresolved_markers rows i turn_scope inbound_count =
     (let linked = rows_of_turn rows i in
      ensure (length linked = inbound_count \<and> count_state EvAccepted linked = inbound_count \<and>
              filter (\<lambda>r. ir_scope_key r \<noteq> turn_scope) linked = [])
        (CorruptData ''validating unresolved inbound markers''))"

definition unresolved_turn :: "turn_row \<Rightarrow> bool" where
  "unresolved_turn t \<longleftrightarrow> (tn_state t = StStarting \<or> tn_state t = StRunning) \<and> \<not> tn_uncertain t \<or>
     tn_state t = StUncertain \<and> tn_uncertain t"

definition validate_runtime_turn_group :: "inbound_row list \<Rightarrow> turn_row \<Rightarrow> (store_error, unit) result" where
  "validate_runtime_turn_group rows t =
     (if unresolved_turn t then validate_unresolved_markers rows (tn_id t) (tn_scope_key t) (tn_inbound_count t)
      else if tn_uncertain t \<or> tn_state t \<notin> {StCompleted, StFailed, StInterrupted, StUncertain}
      then Inl (CorruptData ''validating an inbound turn resolution state'')
      else validate_resolved_markers rows (tn_id t) (tn_inbound_count t)
             (if tn_state t = StCompleted then EvCompleted else EvRejected))"

definition validate_runtime_turn_groups :: "bridge_store \<Rightarrow> (store_error, unit) result" where
  "validate_runtime_turn_groups s =
     for_each (validate_runtime_turn_group (bs_inbound s)) (sort_key tn_id (filter (\<lambda>t. tn_inbound_count t > 0) (bs_turns s)))"

fun turn_reason :: "turn_state \<Rightarrow> string option" where
  "turn_reason StFailed = Some ''turn_failed''"
| "turn_reason StInterrupted = Some ''turn_interrupted''"
| "turn_reason StUncertain = Some ''turn_uncertain''"
| "turn_reason _ = None"

definition resolved_flag :: "turn_row \<Rightarrow> bool" where
  "resolved_flag t \<longleftrightarrow> tn_state t \<in> {StCompleted, StFailed, StInterrupted, StUncertain} \<and> \<not> tn_uncertain t"

definition validate_turn_association :: "bridge_store \<Rightarrow> inbound_row \<Rightarrow> (store_error, unit) result" where
  "validate_turn_association s stored =
     (case ir_turn_row_id stored of
        None \<Rightarrow> Inl (CorruptData ''validating a missing inbound turn association'')
      | Some i \<Rightarrow>
          case turn_by_id (bs_turns s) i of
            None \<Rightarrow> Inl (CorruptData ''validating a missing inbound turn'')
          | Some t \<Rightarrow>
              if tn_scope_key t \<noteq> ir_scope_key stored \<or> tn_inbound_count t = 0
              then Inl (CorruptData ''validating an inbound turn scope and claim count'')
              else result_bind
                (if ir_state stored = EvAccepted \<and> unresolved_turn t then Inr ()
                 else if ir_state stored = EvCompleted \<and> resolved_flag t \<and> tn_state t = StCompleted then Inr ()
                 else if ir_state stored = EvRejected \<and> resolved_flag t
                 then (case turn_reason (tn_state t) of
                         None \<Rightarrow> Inl (CorruptData ''validating a rejected inbound turn outcome'')
                       | Some reason \<Rightarrow> ensure (ir_rejection_reason stored = Some reason)
                           (CorruptData ''validating an inbound turn rejection reason''))
                 else Inl (CorruptData ''validating an inbound turn state association''))
                (\<lambda>_. validate_runtime_turn_group (bs_inbound s) t))"

definition INBOUND_REPLY_KEY_MAX_BYTES :: nat where
  "INBOUND_REPLY_KEY_MAX_BYTES = length ''inbound:v1:'' + 64 + 1 + STORE_INBOUND_ID_MAX_BYTES + 1 + length ''notice:'' +
     STORE_REJECTION_REASON_MAX_BYTES"

definition validate_inbound_reply_effect :: "inbound_row \<Rightarrow> (store_error, unit) result" where
  "validate_inbound_reply_effect stored =
     (case ir_reply_outbox_key stored of
        None \<Rightarrow> Inr ()
      | Some recorded \<Rightarrow>
          if \<not> is_tenant_namespace (ir_tenant stored) \<or> recorded = [] \<or> length recorded > INBOUND_REPLY_KEY_MAX_BYTES
          then Inl (CorruptData ''validating an inbound reply effect marker size'')
          else result_bind
            (if ir_state stored = EvCompleted \<and> ir_turn_row_id stored = None \<and> ir_rejection_reason stored = None
             then Inr ''control''
             else if ir_state stored = EvRejected \<and> ir_turn_row_id stored = None
             then (case ir_rejection_reason stored of
                     None \<Rightarrow> Inl (CorruptData ''validating an inbound reply effect rejection reason'')
                   | Some reason \<Rightarrow>
                       if is_classified_inbound_rejection reason then Inr (''notice:'' @ reason)
                       else Inl (CorruptData ''validating an inbound reply effect rejection class''))
             else Inl (CorruptData ''validating an inbound reply effect state association''))
            (\<lambda>suffix'. ensure (recorded = inbound_reply_outbox_key (ir_tenant stored) (ir_event_id stored) suffix')
                         (CorruptData ''validating an inbound reply effect identity'')))"

definition validate_stored_inbound_row :: "inbound_codec \<Rightarrow> bridge_store \<Rightarrow> inbound_row \<Rightarrow> (store_error, unit) result" where
  "validate_stored_inbound_row c s stored =
     all_ok
      [validate_nonempty_bounded (ir_tenant stored) STORE_INBOUND_ID_MAX_BYTES ''validating an inbound tenant'',
       validate_nonempty_bounded (ir_event_id stored) STORE_INBOUND_ID_MAX_BYTES ''validating a stored inbound event ID'',
       validate_nonempty_bounded (ir_message_id stored) STORE_INBOUND_ID_MAX_BYTES ''validating a stored inbound message ID'',
       validate_nonempty_bounded (ir_scope_key stored) STORE_INBOUND_SCOPE_MAX_BYTES ''validating a stored inbound scope'',
       ensure (case ir_rejection_reason stored of None \<Rightarrow> True
               | Some reason \<Rightarrow> reason \<noteq> [] \<and> length reason \<le> STORE_REJECTION_REASON_MAX_BYTES)
         (CorruptData ''validating an inbound rejection reason''),
       ensure (0 \<le> ir_payload_bytes stored \<and> ir_payload_bytes stored \<le> int STORE_INBOUND_PAYLOAD_MAX_BYTES)
         (CorruptData ''validating stored inbound payload bytes''),
       (case ir_state stored of
          EvReceived \<Rightarrow>
            if \<not> is_tenant_namespace (ir_tenant stored) \<or> ir_turn_row_id stored \<noteq> None \<or> ir_rejection_reason stored \<noteq> None
            then Inl (CorruptData ''validating a received inbound row'')
            else result_map (\<lambda>_. ()) (retained_from_stored c stored)
        | EvAccepted \<Rightarrow>
            if \<not> is_tenant_namespace (ir_tenant stored) \<or> ir_turn_row_id stored = None \<or> ir_rejection_reason stored \<noteq> None
            then Inl (CorruptData ''validating an accepted inbound row'')
            else result_bind (retained_from_stored c stored) (\<lambda>_. validate_turn_association s stored)
        | _ \<Rightarrow>
            if ir_payload_version stored \<noteq> None \<or> ir_payload_blob stored \<noteq> None \<or> ir_payload_bytes stored \<noteq> 0 \<or>
               ir_state stored = EvCompleted \<and> ir_rejection_reason stored \<noteq> None
            then Inl (CorruptData ''validating a terminal inbound row'')
            else if ir_turn_row_id stored = None then Inr ()
            else if \<not> is_tenant_namespace (ir_tenant stored) then Inl (CorruptData ''validating a terminal inbound tenant'')
            else validate_turn_association s stored),
       validate_inbound_reply_effect stored]"

definition canonical_conflict :: "inbound_row list \<Rightarrow> bool" where
  "canonical_conflict rows \<longleftrightarrow>
     \<not> distinct (map (\<lambda>r. (ir_tenant r, ir_message_id r)) (filter (\<lambda>r. ir_state r \<noteq> EvRejected) rows))"

definition validate_inbound_collection :: "inbound_codec \<Rightarrow> bridge_store \<Rightarrow> (store_error, unit) result" where
  "validate_inbound_collection c s =
     (let rows = bs_inbound s in
      all_ok
       [ensure (\<not> (length rows > STORE_INBOUND_MAX_ROWS \<or> inbound_logical_bytes rows > STORE_INBOUND_MAX_BYTES \<or>
                   length (received_rows rows) > STORE_INBOUND_RECEIVED_MAX_ROWS \<or>
                   received_bytes rows > STORE_INBOUND_RECEIVED_MAX_BYTES))
          (CapacityExceeded ''recovering the inbound collection''),
        ensure (\<not> canonical_conflict rows) (CorruptData ''validating canonical inbound messages''),
        for_each (validate_stored_inbound_row c s) (sort_key (\<lambda>r. (ir_tenant r, ir_event_id r)) rows),
        validate_runtime_turn_groups s])"

fun retained_all :: "inbound_codec \<Rightarrow> inbound_row list \<Rightarrow> (store_error, retained_inbound list) result" where
  "retained_all c [] = Inr []"
| "retained_all c (r # rows) =
     result_bind (retained_from_stored c r) (\<lambda>x. result_map (\<lambda>xs. x # xs) (retained_all c rows))"

definition recover_received ::
    "inbound_codec \<Rightarrow> tenant_namespace \<Rightarrow> (bridge_store, retained_inbound list) job" where
  "recover_received c tenant_namespace s =
     (let tenant = as_hex tenant_namespace in
      run_sized (length tenant) (\<lambda>s.
        result_bind (validate_inbound_collection c s) (\<lambda>_.
          result_map (\<lambda>xs. (xs, s))
            (retained_all c (sort_key (\<lambda>r. (ir_first_seen_ms r, ir_event_id r))
               (filter (\<lambda>r. ir_tenant r = tenant \<and> ir_state r = EvReceived) (bs_inbound s)))))) s)"

section \<open>Claiming\<close>

fun validate_claims ::
    "string \<Rightarrow> (string \<times> string) list \<Rightarrow> nat \<Rightarrow> nat \<Rightarrow> (inbound_key \<times> inbound_event option) list \<Rightarrow>
       (store_error, nat \<times> nat) result" where
  "validate_claims scope unique key_bytes live_bytes [] = Inr (key_bytes, live_bytes)"
| "validate_claims scope unique key_bytes live_bytes ((key, live') # events) =
     result_bind (validate_id (ik_event_id key) ''validating a claimed inbound event ID'') (\<lambda>_.
       let tenant = as_hex (ik_tenant key);
           key_bytes' = sat_add_u64 (sat_add_u64 key_bytes (length tenant)) (length (ik_event_id key))
       in if (tenant, ik_event_id key) \<in> set unique
          then Inl (CorruptData ''validating unique inbound claim keys'')
          else case live' of
            None \<Rightarrow> validate_claims scope ((tenant, ik_event_id key) # unique) key_bytes' live_bytes events
          | Some event \<Rightarrow>
              result_bind (validate_event event) (\<lambda>_.
                if ev_event_id event \<noteq> ik_event_id key \<or> scope_to_string (ev_scope event) \<noteq> scope
                then Inl (CorruptData ''validating a live inbound claim identity'')
                else validate_claims scope ((tenant, ik_event_id key) # unique) key_bytes'
                       (sat_add_u64 live_bytes (inbound_event_variable_bytes event)) events))"

definition claim_retained ::
    "inbound_codec \<Rightarrow> inbound_row \<Rightarrow> inbound_event option \<Rightarrow> (store_error, retained_inbound) result" where
  "claim_retained c stored live' =
     result_bind (retained_from_stored c stored) (\<lambda>persisted.
       case live' of
         None \<Rightarrow> Inr persisted
       | Some event \<Rightarrow> result_bind (validate_live_claim event (ri_event persisted)) (\<lambda>_.
           Inr \<lparr>ri_event = event, ri_retained_bytes = ri_retained_bytes persisted\<rparr>))"

fun collect_claims ::
    "inbound_codec \<Rightarrow> bridge_store \<Rightarrow> string \<Rightarrow> (inbound_key \<times> inbound_event option) list \<Rightarrow>
       (store_error, claimed_inbound list \<times> skipped_inbound list) result" where
  "collect_claims c s scope [] = Inr ([], [])"
| "collect_claims c s scope ((key, live') # events) =
     (case read_inbound_row (bs_inbound s) (as_hex (ik_tenant key)) (ik_event_id key) of
        None \<Rightarrow> Inl (NotFound ''claiming an unknown inbound row'')
      | Some stored \<Rightarrow>
          if ir_scope_key stored \<noteq> scope then Inl (CorruptData ''claiming an inbound row from another scope'')
          else result_bind (validate_stored_inbound_row c s stored) (\<lambda>_.
            if ir_state stored = EvReceived
            then if ir_turn_row_id stored \<noteq> None then Inl (CorruptData ''claiming an associated received row'')
                 else result_bind (claim_retained c stored live') (\<lambda>retained.
                   result_map (\<lambda>(received, skipped). (\<lparr>ci_key = key, ci_retained = retained\<rparr> # received, skipped))
                     (collect_claims c s scope events))
            else result_map (\<lambda>(received, skipped).
                   (received, \<lparr>si_key = key, si_state = ir_state stored, si_turn_row_id = ir_turn_row_id stored\<rparr> # skipped))
                 (collect_claims c s scope events)))"

definition ensure_new_turn_capacity :: "turn_table \<Rightarrow> new_turn_row \<Rightarrow> (store_error, unit) result" where
  "ensure_new_turn_capacity turns turn =
     (let live' = filter live_turn turns;
          row_bytes = request_bytes [nt_scope_key turn, nt_client_message_id turn, str_or_empty (nt_codex_thread_id turn)]
      in ensure (\<not> (length live' \<ge> STORE_RECOVERY_TURN_MAX_ROWS \<or> sat_add_u64 (turns_bytes live') row_bytes > STORE_RECOVERY_TURN_MAX_BYTES))
           (CapacityExceeded ''recording a live inbound turn''))"

definition accept_row :: "int \<Rightarrow> int \<Rightarrow> inbound_row \<Rightarrow> inbound_row" where
  "accept_row now i r = r\<lparr>ir_state := EvAccepted, ir_turn_row_id := Some i, ir_updated_ms := now\<rparr>"

fun mark_accepted :: "turn_table \<Rightarrow> int \<Rightarrow> int \<Rightarrow> inbound_key list \<Rightarrow> inbound_row list \<Rightarrow> (store_error, inbound_row list) result" where
  "mark_accepted turns now i [] rows = Inr rows"
| "mark_accepted turns now i (key # keys) rows =
     result_bind (update_one_inbound turns ''claiming an inbound row'' ''claiming a concurrently changed inbound row''
         (\<lambda>r. same_key (as_hex (ik_tenant key)) (ik_event_id key) r \<and> ir_state r = EvReceived \<and> ir_turn_row_id r = None)
         (accept_row now i) rows)
       (mark_accepted turns now i keys)"

definition begin_turn_and_claim_inbound_inner ::
    "inbound_codec \<Rightarrow> int \<Rightarrow> new_turn_row \<Rightarrow> (inbound_key \<times> inbound_event option) list \<Rightarrow> (bridge_store, begin_turn_outcome) job" where
  "begin_turn_and_claim_inbound_inner c now turn events s =
     (if nt_state turn \<noteq> StStarting then Inl (InvalidTransition ''creating an inbound turn outside the starting state'')
      else if length events > STORE_INBOUND_BEGIN_MAX_KEYS then Inl (CapacityExceeded ''claiming too many inbound rows'')
      else result_bind (validate_claims (nt_scope_key turn) [] 0 0 events) (\<lambda>(key_bytes, live_bytes).
        if key_bytes > STORE_INBOUND_BEGIN_MAX_KEY_BYTES
        then Inl (PayloadTooLarge ''claiming inbound row keys'' STORE_INBOUND_BEGIN_MAX_KEY_BYTES)
        else run_sized (sat_add_u64 (sat_add_u64 key_bytes live_bytes)
               (request_bytes [nt_scope_key turn, nt_client_message_id turn, str_or_empty (nt_codex_thread_id turn)])) (\<lambda>s.
          result_bind (collect_claims c s (nt_scope_key turn) events) (\<lambda>(received, skipped).
            if received = [] then Inr (NoReceived skipped, s)
            else result_bind (ensure_new_turn_capacity (bs_turns s) turn) (\<lambda>_.
              result_bind (insert_turn now turn (length received) ''recording an inbound turn'' (bs_turns s)) (\<lambda>(i, turns).
                result_bind (mark_accepted turns now i (map ci_key received) (bs_inbound s)) (\<lambda>rows.
                  Inr (Started i received skipped, s\<lparr>bs_turns := turns, bs_inbound := rows\<rparr>)))))) s))"

definition begin_turn_and_claim_inbound ::
    "inbound_codec \<Rightarrow> int \<Rightarrow> new_turn_row \<Rightarrow> inbound_key list \<Rightarrow> (bridge_store, begin_turn_outcome) job" where
  "begin_turn_and_claim_inbound c now turn events = begin_turn_and_claim_inbound_inner c now turn (map (\<lambda>key. (key, None)) events)"

definition begin_turn_and_claim_inbound_live ::
    "inbound_codec \<Rightarrow> int \<Rightarrow> new_turn_row \<Rightarrow> (inbound_key \<times> inbound_event) list \<Rightarrow> (bridge_store, begin_turn_outcome) job" where
  "begin_turn_and_claim_inbound_live c now turn events =
     begin_turn_and_claim_inbound_inner c now turn (map (\<lambda>(key, event). (key, Some event)) events)"

section \<open>Resolution\<close>

fun resolution_target :: "turn_resolution \<Rightarrow> turn_state \<times> inbound_terminal \<times> string option" where
  "resolution_target TurnCompleted = (StCompleted, TermCompleted, None)"
| "resolution_target TurnFailedRes = (StFailed, TermRejected, Some ''turn_failed'')"
| "resolution_target TurnInterrupted = (StInterrupted, TermRejected, Some ''turn_interrupted'')"
| "resolution_target TurnUncertain = (StUncertain, TermRejected, Some ''turn_uncertain'')"

fun terminal_state :: "inbound_terminal \<Rightarrow> inbound_event_state" where
  "terminal_state TermCompleted = EvCompleted"
| "terminal_state TermRejected = EvRejected"

definition resolve_turn_row :: "int \<Rightarrow> turn_state \<Rightarrow> turn_row \<Rightarrow> turn_row" where
  "resolve_turn_row now state r = r\<lparr>tn_state := state, tn_uncertain := False, tn_updated_ms := now\<rparr>"

definition resolution_legal :: "turn_row \<Rightarrow> turn_resolution \<Rightarrow> bool" where
  "resolution_legal row turn =
     (case tn_state row of
        StStarting \<Rightarrow> turn \<in> {TurnFailedRes, TurnInterrupted, TurnUncertain}
      | StRunning \<Rightarrow> True
      | StUncertain \<Rightarrow> tn_uncertain row
      | _ \<Rightarrow> False)"

definition finish_row :: "int \<Rightarrow> inbound_event_state \<Rightarrow> string option \<Rightarrow> inbound_row \<Rightarrow> inbound_row" where
  "finish_row now state reason r =
     (erase_payload r)\<lparr>ir_state := state, ir_rejection_reason := reason, ir_updated_ms := now\<rparr>"

definition resolve_turn_and_finish_inbound_batch ::
    "int \<Rightarrow> int \<Rightarrow> turn_resolution \<Rightarrow> inbound_terminal \<Rightarrow> (bridge_store, resolve_turn_outcome) job" where
  "resolve_turn_and_finish_inbound_batch now i turn inbound s =
     (let (target, target_inbound, reason) = resolution_target turn; expected = terminal_state target_inbound in
      if inbound \<noteq> target_inbound then Inl (InvalidTransition ''resolving a turn with conflicting inbound state'')
      else run_job (\<lambda>s.
        case turn_by_id (bs_turns s) i of
          None \<Rightarrow> Inl (NotFound ''resolving an unknown inbound turn'')
        | Some row \<Rightarrow>
            let count = tn_inbound_count row; rows = bs_inbound s;
                turns = update_turn i (resolve_turn_row now target) (bs_turns s) in
            if count = 0 then Inl (CorruptData ''resolving a turn without historical inbound links'')
            else if tn_state row = target \<and> \<not> tn_uncertain row
            then result_bind (validate_resolved_markers rows i count expected) (\<lambda>_. Inr (AlreadyResolved count, s))
            else if tn_state row = StUncertain \<and> \<not> tn_uncertain row
            then if turn \<noteq> TurnFailedRes \<and> turn \<noteq> TurnInterrupted
                 then Inl (InvalidTransition ''refining a resolved uncertain turn'')
                 else result_bind (validate_resolved_markers rows i count EvRejected) (\<lambda>_.
                   result_bind (update_inbound turns ''refining uncertain inbound markers''
                       (\<lambda>r. ir_turn_row_id r = Some i \<and> ir_state r = EvRejected)
                       (\<lambda>r. r\<lparr>ir_rejection_reason := reason, ir_updated_ms := now\<rparr>) rows) (\<lambda>(_, rows').
                     Inr (ResolvedNow count, s\<lparr>bs_turns := turns, bs_inbound := rows'\<rparr>)))
            else if tn_state row \<in> {StCompleted, StFailed, StInterrupted}
            then Inl (InvalidTransition ''resolving a terminal turn differently'')
            else if \<not> resolution_legal row turn then Inl (InvalidTransition ''resolving an inbound turn'')
            else result_bind (validate_unresolved_markers rows i (tn_scope_key row) count) (\<lambda>_.
              result_bind (update_inbound turns ''finishing accepted inbound rows''
                  (\<lambda>r. ir_turn_row_id r = Some i \<and> ir_state r = EvAccepted) (finish_row now expected reason) rows) (\<lambda>(changed, rows').
                if changed \<noteq> count then Inl (CorruptData ''finishing every accepted inbound row'')
                else Inr (ResolvedNow count, s\<lparr>bs_turns := turns, bs_inbound := rows'\<rparr>)))) s)"

definition inbound_state_read :: "tenant_namespace \<Rightarrow> string \<Rightarrow> (bridge_store, inbound_event_state option) job" where
  "inbound_state_read tenant_namespace event_id s =
     (let tenant = as_hex tenant_namespace in
      run_sized (request_bytes [tenant, event_id]) (\<lambda>s. Inr (map_option ir_state (read_inbound_row (bs_inbound s) tenant event_id), s)) s)"

section \<open>Settlement without a turn\<close>

definition terminal_disposition ::
    "inbound_row \<Rightarrow> inbound_rejection_kind \<Rightarrow> (store_error, inbound_disposition option) result" where
  "terminal_disposition stored reason =
     (case ir_state stored of
        EvReceived \<Rightarrow> Inr None
      | EvAccepted \<Rightarrow> (case ir_turn_row_id stored of
            None \<Rightarrow> Inl (CorruptData ''rejecting an unassociated accepted row'')
          | Some i \<Rightarrow> Inr (Some (AlreadyClaimed i)))
      | EvCompleted \<Rightarrow> Inr (Some AlreadyCompleted)
      | EvRejected \<Rightarrow>
          if ir_rejection_reason stored = Some (rejection_as_str reason) then Inr (Some AlreadyRejected)
          else Inl (InvalidTransition ''rejecting an inbound row with a conflicting reason''))"

definition reject_received_in_transaction ::
    "inbound_codec \<Rightarrow> int \<Rightarrow> inbound_key \<Rightarrow> inbound_rejection_kind \<Rightarrow> (bridge_store, inbound_disposition) job" where
  "reject_received_in_transaction c now key reason s =
     (case read_inbound_row (bs_inbound s) (as_hex (ik_tenant key)) (ik_event_id key) of
        None \<Rightarrow> Inl (NotFound ''rejecting an unknown inbound row'')
      | Some stored \<Rightarrow>
          result_bind (terminal_disposition stored reason) (\<lambda>existing.
            case existing of
              Some disposition \<Rightarrow> Inr (disposition, s)
            | None \<Rightarrow>
                result_bind (retained_from_stored c stored) (\<lambda>_.
                  result_bind (update_one_inbound (bs_turns s) ''rejecting a received inbound row'' ''rejecting a concurrently changed inbound row''
                      (\<lambda>r. same_key (as_hex (ik_tenant key)) (ik_event_id key) r \<and> ir_state r = EvReceived)
                      (finish_row now EvRejected (Some (rejection_as_str reason))) (bs_inbound s)) (\<lambda>rows.
                    Inr (DispRejected, s\<lparr>bs_inbound := rows\<rparr>)))))"

definition reject_received ::
    "inbound_codec \<Rightarrow> int \<Rightarrow> inbound_key \<Rightarrow> inbound_rejection_kind \<Rightarrow> (bridge_store, inbound_disposition) job" where
  "reject_received c now key reason s =
     run_sized (length (as_hex (ik_tenant key)) + length (ik_event_id key)) (reject_received_in_transaction c now key reason) s"

definition complete_received_without_turn :: "inbound_codec \<Rightarrow> int \<Rightarrow> inbound_key \<Rightarrow> (bridge_store, inbound_disposition) job" where
  "complete_received_without_turn c now key s =
     (let tenant = as_hex (ik_tenant key) in
      run_sized (length tenant + length (ik_event_id key)) (\<lambda>s.
        case read_inbound_row (bs_inbound s) tenant (ik_event_id key) of
          None \<Rightarrow> Inl (NotFound ''completing an unknown inbound row without a turn'')
        | Some stored \<Rightarrow>
            case ir_state stored of
              EvReceived \<Rightarrow>
                result_bind (retained_from_stored c stored) (\<lambda>_.
                  result_bind (update_one_inbound (bs_turns s) ''completing a received row without a turn'' ''completing a concurrently changed inbound row''
                      (\<lambda>r. same_key tenant (ik_event_id key) r \<and> ir_state r = EvReceived \<and> ir_turn_row_id r = None)
                      (\<lambda>r. (erase_payload r)\<lparr>ir_state := EvCompleted, ir_updated_ms := now\<rparr>) (bs_inbound s)) (\<lambda>rows.
                    Inr (DispCompleted, s\<lparr>bs_inbound := rows\<rparr>)))
            | EvAccepted \<Rightarrow>
                if ir_turn_row_id stored = None then Inl (CorruptData ''completing an unassociated accepted inbound row'')
                else Inl (InvalidTransition ''completing an already-claimed inbound row without a turn'')
            | EvCompleted \<Rightarrow>
                if ir_turn_row_id stored = None then Inr (AlreadyCompleted, s)
                else Inl (InvalidTransition ''completing a terminal inbound row without a turn'')
            | EvRejected \<Rightarrow> Inl (InvalidTransition ''completing a terminal inbound row without a turn'')) s)"

definition validate_existing_inbound_reply :: "outbox_table \<Rightarrow> new_outbox_row \<Rightarrow> (store_error, bool) result" where
  "validate_existing_inbound_reply outbox notice =
     (if length (nb_payload_json notice) > STORE_OUTBOX_PAYLOAD_MAX_BYTES
      then Inl (PayloadTooLarge ''enqueueing an inbound rejection notice'' STORE_OUTBOX_PAYLOAD_MAX_BYTES)
      else case row_by_key outbox (nb_idempotency_key notice) of
        None \<Rightarrow> Inr False
      | Some r \<Rightarrow>
          if ob_scope_key r \<noteq> nb_scope_key notice \<or> ob_kind r \<noteq> nb_kind notice \<or> ob_payload_json r \<noteq> nb_payload_json notice \<or>
             ob_payload_bytes r \<noteq> length (nb_payload_json notice)
          then Inl (CorruptData ''validating an inbound rejection notice idempotency key'')
          else Inr True)"

definition enqueue_new_inbound_reply ::
    "(string \<Rightarrow> string option) \<Rightarrow> int \<Rightarrow> new_outbox_row \<Rightarrow> nat \<Rightarrow> outbox_table \<Rightarrow> (store_error, outbox_table) result" where
  "enqueue_new_inbound_reply anchor_of now notice payload_bytes outbox =
     result_bind (enforce_total_cap anchor_of now payload_bytes outbox) (\<lambda>t.
       Inr (t @ [inserted_row t (max (nb_next_retry_ms notice) (retry_watermark t)) now notice]))"

definition enqueue_inbound_reply_in_transaction ::
    "(string \<Rightarrow> string option) \<Rightarrow> int \<Rightarrow> new_outbox_row \<Rightarrow> outbox_table \<Rightarrow> (store_error, outbox_table) result" where
  "enqueue_inbound_reply_in_transaction anchor_of now notice outbox =
     result_bind (validate_existing_inbound_reply outbox notice) (\<lambda>exists.
       if exists then Inr outbox
       else
         let payload_bytes = length (nb_payload_json notice); live_rows = filter live outbox in
         if length live_rows \<ge> STORE_OUTBOX_MAX_ROWS \<or>
            sat_add_u64 (rows_bytes live_rows) payload_bytes > STORE_OUTBOX_MAX_QUEUED_BYTES
         then Inl (CapacityExceeded ''enqueueing an inbound rejection notice'')
         else enqueue_new_inbound_reply anchor_of now notice payload_bytes outbox)"

definition record_inbound_reply_effect ::
    "turn_table \<Rightarrow> int \<Rightarrow> string \<Rightarrow> string \<Rightarrow> string \<Rightarrow> inbound_row list \<Rightarrow> (store_error, inbound_row list) result" where
  "record_inbound_reply_effect turns now tenant event_id key rows =
     (if sat_add_u64 (inbound_logical_bytes rows) (length key) > STORE_INBOUND_MAX_BYTES
      then Inl (CapacityExceeded ''recording an inbound reply effect marker'')
      else update_one_inbound turns ''recording an inbound reply effect marker'' ''recording an inbound reply effect marker''
             (\<lambda>r. same_key tenant event_id r \<and> ir_reply_outbox_key r = None)
             (\<lambda>r. r\<lparr>ir_reply_outbox_key := Some key, ir_updated_ms := now\<rparr>) rows)"

definition reply_request_bytes :: "inbound_key \<Rightarrow> new_outbox_row \<Rightarrow> nat" where
  "reply_request_bytes key reply =
     request_bytes [as_hex (ik_tenant key), ik_event_id key, nb_idempotency_key reply, nb_scope_key reply, nb_kind reply, nb_payload_json reply]"

text \<open>A settled row whose marker is missing (a store of an older version) gets its reply once.\<close>

definition backfill_reply ::
    "(string \<Rightarrow> string option) \<Rightarrow> int \<Rightarrow> inbound_key \<Rightarrow> new_outbox_row \<Rightarrow> string \<Rightarrow> inbound_row \<Rightarrow> bridge_store \<Rightarrow>
       (store_error, bridge_store) result" where
  "backfill_reply anchor_of now key reply marker_context stored s =
     (case ir_reply_outbox_key stored of
        Some recorded \<Rightarrow>
          if recorded = nb_idempotency_key reply
          then result_bind (validate_existing_inbound_reply (bs_outbox s) reply) (\<lambda>_. Inr s)
          else Inl (CorruptData marker_context)
      | None \<Rightarrow>
          result_bind (enqueue_inbound_reply_in_transaction anchor_of now reply (bs_outbox s)) (\<lambda>outbox.
            result_bind (record_inbound_reply_effect (bs_turns s) now (as_hex (ik_tenant key)) (ik_event_id key)
                (nb_idempotency_key reply) (bs_inbound s)) (\<lambda>rows.
              Inr (s\<lparr>bs_outbox := outbox, bs_inbound := rows\<rparr>))))"

definition complete_received_and_enqueue_control_reply ::
    "inbound_codec \<Rightarrow> (string \<Rightarrow> string option) \<Rightarrow> int \<Rightarrow> inbound_key \<Rightarrow> new_outbox_row \<Rightarrow> (bridge_store, inbound_disposition) job" where
  "complete_received_and_enqueue_control_reply c anchor_of now key reply s =
     (let tenant = as_hex (ik_tenant key) in
      run_sized (reply_request_bytes key reply) (\<lambda>s.
        if nb_idempotency_key reply \<noteq> control_outbox_idempotency_key key \<or> nb_kind reply \<noteq> ''control'' \<or> nb_next_retry_ms reply \<noteq> 0
        then Inl (CorruptData ''validating a control reply identity'')
        else case read_inbound_row (bs_inbound s) tenant (ik_event_id key) of
          None \<Rightarrow> Inl (NotFound ''completing an unknown control inbound row'')
        | Some stored \<Rightarrow>
            if nb_scope_key reply \<noteq> ir_scope_key stored then Inl (CorruptData ''validating a control reply scope'')
            else case ir_state stored of
              EvReceived \<Rightarrow>
                if ir_reply_outbox_key stored \<noteq> None then Inl (CorruptData ''validating a received control reply effect marker'')
                else result_bind (retained_from_stored c stored) (\<lambda>_.
                  result_bind (enqueue_inbound_reply_in_transaction anchor_of now reply (bs_outbox s)) (\<lambda>outbox.
                    result_bind (update_one_inbound (bs_turns s) ''completing a control inbound row''
                        ''completing a concurrently changed control inbound row''
                        (\<lambda>r. same_key tenant (ik_event_id key) r \<and> ir_state r = EvReceived \<and> ir_turn_row_id r = None \<and>
                             ir_reply_outbox_key r = None)
                        (\<lambda>r. (erase_payload r)\<lparr>ir_state := EvCompleted, ir_reply_outbox_key := Some (nb_idempotency_key reply),
                              ir_updated_ms := now\<rparr>) (bs_inbound s)) (\<lambda>rows.
                      Inr (DispCompleted, s\<lparr>bs_outbox := outbox, bs_inbound := rows\<rparr>))))
            | EvCompleted \<Rightarrow>
                if ir_turn_row_id stored = None
                then result_map (\<lambda>s'. (AlreadyCompleted, s'))
                       (backfill_reply anchor_of now key reply ''validating a completed control reply effect marker'' stored s)
                else Inl (InvalidTransition ''completing a terminal non-command inbound row as control'')
            | EvAccepted \<Rightarrow> Inl (InvalidTransition ''completing an already-claimed control inbound row'')
            | EvRejected \<Rightarrow> Inl (InvalidTransition ''completing a terminal non-command inbound row as control'')) s)"

definition reject_received_and_enqueue_notice ::
    "inbound_codec \<Rightarrow> (string \<Rightarrow> string option) \<Rightarrow> int \<Rightarrow> inbound_key \<Rightarrow> inbound_rejection_kind \<Rightarrow> new_outbox_row \<Rightarrow>
       (bridge_store, inbound_disposition) job" where
  "reject_received_and_enqueue_notice c anchor_of now key reason notice s =
     (let tenant = as_hex (ik_tenant key) in
      run_sized (reply_request_bytes key notice) (\<lambda>s.
        if nb_idempotency_key notice \<noteq> rejection_outbox_idempotency_key key reason \<or> nb_kind notice \<noteq> ''notice'' \<or> nb_next_retry_ms notice \<noteq> 0
        then Inl (CorruptData ''validating an inbound rejection notice identity'')
        else case read_inbound_row (bs_inbound s) tenant (ik_event_id key) of
          None \<Rightarrow> Inl (NotFound ''rejecting an unknown inbound row'')
        | Some stored \<Rightarrow>
            result_bind (terminal_disposition stored reason) (\<lambda>existing.
              if nb_scope_key notice \<noteq> ir_scope_key stored then Inl (CorruptData ''validating an inbound rejection notice scope'')
              else case existing of
                Some disposition \<Rightarrow>
                  if disposition = AlreadyRejected
                  then result_map (\<lambda>s'. (disposition, s'))
                         (backfill_reply anchor_of now key notice ''validating a rejected reply effect marker'' stored s)
                  else Inr (disposition, s)
              | None \<Rightarrow>
                  if ir_reply_outbox_key stored \<noteq> None then Inl (CorruptData ''validating a received rejection reply effect marker'')
                  else result_bind (retained_from_stored c stored) (\<lambda>_.
                    result_bind (enqueue_inbound_reply_in_transaction anchor_of now notice (bs_outbox s)) (\<lambda>outbox.
                      result_bind (reject_received_in_transaction c now key reason s) (\<lambda>(disposition, s1).
                        result_bind (record_inbound_reply_effect (bs_turns s1) now tenant (ik_event_id key)
                            (nb_idempotency_key notice) (bs_inbound s1)) (\<lambda>rows.
                          Inr (disposition, s1\<lparr>bs_outbox := outbox, bs_inbound := rows\<rparr>))))))) s)"

section \<open>Retention\<close>

definition sweep_inbound :: "int \<Rightarrow> nat \<Rightarrow> (bridge_store, nat) job" where
  "sweep_inbound older_than_ms max_rows s =
     (let n = min max_rows DEDUP_SWEEP_BATCH in
      if n = 0 then Inr (0, s)
      else run_job (\<lambda>s.
        let victims = take n (sort_key (\<lambda>r. (ir_updated_ms r, ir_tenant r, ir_event_id r))
              (filter (\<lambda>r. inbound_is_terminal (ir_state r) \<and> ir_updated_ms r < older_than_ms) (bs_inbound s)));
            kept = filter (\<lambda>r. (ir_tenant r, ir_event_id r) \<notin> set (map (\<lambda>v. (ir_tenant v, ir_event_id v)) victims)) (bs_inbound s)
        in Inr (length (bs_inbound s) - length kept, s\<lparr>bs_inbound := kept\<rparr>)) s)"

end
