(* ===== verification/Inbound_Invariants.thy ===== *)
theory Inbound_Invariants
  imports Inbound_Store
begin

text \<open>
  The invariant of the durable inbox and the runs of the store: what each row and each group of linked
  rows looks like, the capacity bounds, and that every operation of the inbox, of the turns and of the
  outbox keeps them. The integrity scan of a restart follows from the invariant.
\<close>

section \<open>The invariant\<close>

abbreviation ikey :: "inbound_row \<Rightarrow> string \<times> string" where
  "ikey r \<equiv> (ir_tenant r, ir_event_id r)"

definition hex_key :: "inbound_key \<Rightarrow> string \<times> string" where
  "hex_key key = (as_hex (ik_tenant key), ik_event_id key)"

definition pending_body :: "inbound_codec \<Rightarrow> inbound_row \<Rightarrow> bool" where
  "pending_body c r \<longleftrightarrow> ir_rejection_reason r = None \<and> ir_reply_outbox_key r = None \<and> is_ok (retained_from_stored c r) \<and>
     length (ir_event_id r) + 256 \<le> nat (ir_payload_bytes r)"

definition erased_body :: "inbound_row \<Rightarrow> bool" where
  "erased_body r \<longleftrightarrow> ir_payload_version r = None \<and> ir_payload_blob r = None \<and> ir_payload_bytes r = 0"

fun turn_fits :: "inbound_event_state \<Rightarrow> string option \<Rightarrow> turn_row \<Rightarrow> bool" where
  "turn_fits EvReceived reason t = False"
| "turn_fits EvAccepted reason t = unresolved_turn t"
| "turn_fits EvCompleted reason t = (resolved_flag t \<and> tn_state t = StCompleted)"
| "turn_fits EvRejected reason t = (resolved_flag t \<and> reason \<noteq> None \<and> turn_reason (tn_state t) = reason)"

definition link_ok :: "turn_table \<Rightarrow> inbound_row \<Rightarrow> int \<Rightarrow> bool" where
  "link_ok turns r i =
     (case turn_by_id turns i of
        None \<Rightarrow> False
      | Some t \<Rightarrow> tn_scope_key t = ir_scope_key r \<and> tn_inbound_count t > 0 \<and> turn_fits (ir_state r) (ir_rejection_reason r) t)"

definition classified_reason :: "string option \<Rightarrow> bool" where
  "classified_reason reason = (case reason of None \<Rightarrow> False | Some x \<Rightarrow> is_classified_inbound_rejection x)"

definition ids_ok :: "inbound_row \<Rightarrow> bool" where
  "ids_ok r \<longleftrightarrow> is_tenant_namespace (ir_tenant r) \<and>
     ir_event_id r \<noteq> [] \<and> length (ir_event_id r) \<le> STORE_INBOUND_ID_MAX_BYTES \<and>
     ir_message_id r \<noteq> [] \<and> length (ir_message_id r) \<le> STORE_INBOUND_ID_MAX_BYTES \<and>
     ir_scope_key r \<noteq> [] \<and> length (ir_scope_key r) \<le> STORE_INBOUND_SCOPE_MAX_BYTES"

definition inbound_row_ok :: "inbound_codec \<Rightarrow> turn_table \<Rightarrow> inbound_row \<Rightarrow> bool" where
  "inbound_row_ok c turns r \<longleftrightarrow>
     ids_ok r \<and> (if inbound_is_terminal (ir_state r) then erased_body r else pending_body c r) \<and>
     (ir_state r = EvCompleted \<longrightarrow> ir_rejection_reason r = None) \<and> v12_effect_ok r \<and>
     (case ir_turn_row_id r of
        None \<Rightarrow> ir_state r \<noteq> EvAccepted \<and> (ir_state r = EvRejected \<longrightarrow> classified_reason (ir_rejection_reason r))
      | Some i \<Rightarrow> ir_reply_outbox_key r = None \<and> link_ok turns r i)"

definition group_ok :: "inbound_row list \<Rightarrow> turn_row \<Rightarrow> bool" where
  "group_ok rows t =
     (if unresolved_turn t then length (rows_of_turn rows (tn_id t)) = tn_inbound_count t
      else length (rows_of_turn rows (tn_id t)) \<le> tn_inbound_count t)"

definition row_potential :: "inbound_row \<Rightarrow> nat" where
  "row_potential r = inbound_row_bytes r + (if ir_rejection_reason r = Some ''turn_uncertain'' then 2 else 0)"

definition inbound_caps_ok :: "inbound_row list \<Rightarrow> bool" where
  "inbound_caps_ok rows \<longleftrightarrow>
     length rows \<le> STORE_INBOUND_MAX_ROWS \<and> length (received_rows rows) \<le> STORE_INBOUND_RECEIVED_MAX_ROWS \<and>
     received_bytes rows \<le> STORE_INBOUND_RECEIVED_MAX_BYTES \<and>
     sum_list (map row_potential rows) \<le> STORE_INBOUND_MAX_BYTES + 2 * length rows"

definition inbound_keys_ok :: "inbound_row list \<Rightarrow> bool" where
  "inbound_keys_ok rows \<longleftrightarrow> distinct (map ikey rows) \<and> \<not> canonical_conflict rows"

definition inbound_ok :: "inbound_codec \<Rightarrow> turn_table \<Rightarrow> inbound_row list \<Rightarrow> bool" where
  "inbound_ok c turns rows \<longleftrightarrow> inbound_keys_ok rows \<and> inbound_caps_ok rows \<and>
     list_all (inbound_row_ok c turns) rows \<and> list_all (group_ok rows) turns"

definition bridge_ok :: "inbound_codec \<Rightarrow> bridge_store \<Rightarrow> bool" where
  "bridge_ok c s \<longleftrightarrow> turns_wf (bs_turns s) \<and> outbox_wf (bs_outbox s) \<and> inbound_ok c (bs_turns s) (bs_inbound s)"

definition empty_store :: bridge_store where
  "empty_store = \<lparr>bs_turns = [], bs_inbound = [], bs_outbox = []\<rparr>"

lemma empty_store_ok: "bridge_ok c empty_store"
  by (simp add: bridge_ok_def empty_store_def turns_wf_def turn_ids_ok_def turn_flags_ok_def live_turns_bounded_def
      outbox_wf_def inbound_ok_def inbound_keys_ok_def canonical_conflict_def inbound_caps_ok_def received_rows_def
      received_bytes_def)

section \<open>Rewriting rows\<close>

text \<open>
  One lemma for every operation that rewrites rows in place: it may move rows forward and shrink them,
  but it keeps their identity.
\<close>

definition row_step :: "inbound_row \<Rightarrow> inbound_row \<Rightarrow> bool" where
  "row_step r r' \<longleftrightarrow> ikey r' = ikey r \<and> ir_message_id r' = ir_message_id r \<and>
     (ir_state r' \<noteq> EvRejected \<longrightarrow> ir_state r \<noteq> EvRejected) \<and>
     (ir_state r' = EvReceived \<longrightarrow> ir_state r = EvReceived \<and> ir_payload_bytes r' = ir_payload_bytes r)"

lemma row_step_refl [simp]: "row_step r r"
  by (simp add: row_step_def)

lemma canonical_map:
  assumes "\<And>r. r \<in> set rows \<Longrightarrow> row_step r (g r)" "\<not> canonical_conflict rows"
  shows "\<not> canonical_conflict (map g rows)"
  using assms
proof (induction rows)
  case (Cons r rows)
  have step: "row_step r (g r)" "\<And>x. x \<in> set rows \<Longrightarrow> row_step x (g x)" using Cons.prems(1) by auto
  have IH: "\<not> canonical_conflict (map g rows)"
    using Cons by (auto simp: canonical_conflict_def split: if_splits)
  show ?case
  proof (cases "ir_state (g r) = EvRejected")
    case True
    with IH show ?thesis by (simp add: canonical_conflict_def)
  next
    case False
    with step(1) have r: "ir_state r \<noteq> EvRejected" by (auto simp: row_step_def)
    have "(ir_tenant (g r), ir_message_id (g r)) \<noteq> (ir_tenant (g x), ir_message_id (g x))"
      if "x \<in> set rows" "ir_state (g x) \<noteq> EvRejected" for x
    proof -
      from step(2) [OF that(1)] that have "ir_state x \<noteq> EvRejected" by (auto simp: row_step_def)
      then have "(ir_tenant r, ir_message_id r) \<noteq> (ir_tenant x, ir_message_id x)"
        using Cons.prems(2) r that(1) by (force simp: canonical_conflict_def)
      with step(1) step(2) [OF that(1)] show ?thesis by (simp add: row_step_def)
    qed
    with False IH show ?thesis by (auto simp: canonical_conflict_def)
  qed
qed (simp add: canonical_conflict_def)

lemma received_map_le:
  assumes "\<And>r. r \<in> set rows \<Longrightarrow> row_step r (g r)"
  shows "length (received_rows (map g rows)) \<le> length (received_rows rows) \<and> received_bytes (map g rows) \<le> received_bytes rows"
  using assms by (induction rows) (auto simp: received_rows_def received_bytes_def row_step_def)

lemma keys_map: "(\<And>r. r \<in> set rows \<Longrightarrow> row_step r (g r)) \<Longrightarrow> map ikey (map g rows) = map ikey rows"
  by (auto simp: row_step_def)

lemma inbound_ok_map:
  assumes "inbound_ok c turns rows" "\<And>r. r \<in> set rows \<Longrightarrow> row_step r (g r)"
    and "\<And>r. r \<in> set rows \<Longrightarrow> inbound_row_ok c turns' (g r)"
    and "sum_list (map row_potential (map g rows)) \<le> STORE_INBOUND_MAX_BYTES + 2 * length rows"
    and "\<And>t. t \<in> set turns' \<Longrightarrow> group_ok (map g rows) t"
  shows "inbound_ok c turns' (map g rows)"
proof -
  have "inbound_keys_ok (map g rows)"
    using assms(1) keys_map [of rows g, OF assms(2)] canonical_map [of rows g, OF assms(2)]
    by (simp add: inbound_ok_def inbound_keys_ok_def del: map_map)
  moreover have "inbound_caps_ok (map g rows)"
    using assms(1,4) received_map_le [of rows g, OF assms(2)] by (simp add: inbound_ok_def inbound_caps_ok_def)
  ultimately show ?thesis using assms(3,5) by (simp add: inbound_ok_def list_all_iff)
qed

lemma potential_map_le:
  assumes "inbound_ok c turns rows" "\<And>r. r \<in> set rows \<Longrightarrow> row_potential (g r) \<le> row_potential r"
  shows "sum_list (map row_potential (map g rows)) \<le> STORE_INBOUND_MAX_BYTES + 2 * length rows"
proof -
  have "sum_list (map row_potential (map g rows)) \<le> sum_list (map row_potential rows)"
    using assms(2) by (simp add: comp_def sum_list_mono)
  with assms(1) show ?thesis by (simp add: inbound_ok_def inbound_caps_ok_def)
qed

lemma rows_of_turn_map:
  assumes "\<And>r. r \<in> set rows \<Longrightarrow> ir_turn_row_id (g r) = ir_turn_row_id r"
  shows "length (rows_of_turn (map g rows) i) = length (rows_of_turn rows i)"
  using assms by (induction rows) (auto simp: rows_of_turn_def)

text \<open>An operation that rewrites rows but leaves the turns and all links as they are.\<close>

lemma inbound_ok_map_linked:
  assumes "inbound_ok c turns rows" "\<And>r. r \<in> set rows \<Longrightarrow> row_step r (g r)"
    and "\<And>r. r \<in> set rows \<Longrightarrow> inbound_row_ok c turns (g r)"
    and "\<And>r. r \<in> set rows \<Longrightarrow> ir_turn_row_id (g r) = ir_turn_row_id r"
    and "sum_list (map row_potential (map g rows)) \<le> STORE_INBOUND_MAX_BYTES + 2 * length rows"
  shows "inbound_ok c turns (map g rows)"
proof (rule inbound_ok_map [OF assms(1-3,5)])
  fix t assume "t \<in> set turns"
  with assms(1) have "group_ok rows t" by (simp add: inbound_ok_def list_all_iff)
  with rows_of_turn_map [of rows g, OF assms(4)] show "group_ok (map g rows) t" by (simp add: group_ok_def)
qed

lemma read_inbound_rowD:
  "read_inbound_row rows tenant event_id = Some r \<Longrightarrow> r \<in> set rows \<and> ikey r = (tenant, event_id)"
  unfolding read_inbound_row_def by (auto dest!: find_SomeD simp: same_key_def)

lemma update_inboundD:
  assumes "update_inbound turns context' P f rows = Inr (n, rows')"
  shows "rows' = map (\<lambda>r. if P r then f r else r) rows \<and> n = length (filter P rows)"
  using assms by (auto simp: update_inbound_def split: if_splits)

lemma update_one_inboundD:
  assumes "update_one_inbound turns context' context'' P f rows = Inr rows'"
  shows "rows' = map (\<lambda>r. if P r then f r else r) rows \<and> length (filter P rows) = 1"
  using assms by (auto simp: update_one_inbound_def dest: update_inboundD split: if_splits)

lemma update_inbound_shape:
  assumes "update_inbound turns context' P f rows = Inr (n, rows')" "r \<in> set rows" "P r"
  shows "v2_shape_ok turns (f r) \<and> v12_effect_ok (f r)"
  using assms by (auto simp: update_inbound_def list_all_iff split: if_splits)

lemma update_one_inbound_shape:
  assumes "update_one_inbound turns context' context'' P f rows = Inr rows'" "r \<in> set rows" "P r"
  shows "v2_shape_ok turns (f r) \<and> v12_effect_ok (f r)"
  using assms by (auto simp: update_one_inbound_def dest: update_inbound_shape)

lemma row_by_ikey_unique: "distinct (map ikey rows) \<Longrightarrow> r \<in> set rows \<Longrightarrow> x \<in> set rows \<Longrightarrow> ikey x = ikey r \<Longrightarrow> x = r"
  by (metis (mono_tags, lifting) distinct_map inj_onD)

lemma potential_le: "sum_list (map row_potential rows) \<le> inbound_logical_bytes rows + 2 * length rows"
  by (induction rows) (auto simp: row_potential_def inbound_logical_bytes_def)

lemma logical_le_potential: "inbound_logical_bytes rows \<le> sum_list (map row_potential rows)"
  by (simp add: inbound_logical_bytes_def row_potential_def sum_list_mono)

lemma update_row_ok:
  assumes ok: "inbound_ok c turns rows" and r: "r \<in> set rows" and P: "\<And>x. P x \<Longrightarrow> ikey x = ikey r"
    and step: "row_step r (f r)" "inbound_row_ok c turns (f r)" "ir_turn_row_id (f r) = ir_turn_row_id r"
    and bytes: "row_potential (f r) \<le> row_potential r \<or>
      inbound_logical_bytes (map (\<lambda>x. if P x then f x else x) rows) \<le> STORE_INBOUND_MAX_BYTES"
  shows "inbound_ok c turns (map (\<lambda>x. if P x then f x else x) rows)"
proof -
  let ?g = "\<lambda>x. if P x then f x else x"
  from ok have d: "distinct (map ikey rows)" and rows: "\<And>x. x \<in> set rows \<Longrightarrow> inbound_row_ok c turns x"
    by (simp_all add: inbound_ok_def inbound_keys_ok_def list_all_iff)
  have only: "x = r" if "x \<in> set rows" "P x" for x using row_by_ikey_unique [OF d r that(1)] P [OF that(2)] by simp
  have "sum_list (map row_potential (map ?g rows)) \<le> STORE_INBOUND_MAX_BYTES + 2 * length rows"
    using bytes
  proof
    assume "row_potential (f r) \<le> row_potential r"
    with only show ?thesis by (intro potential_map_le [OF ok]) auto
  next
    assume "inbound_logical_bytes (map ?g rows) \<le> STORE_INBOUND_MAX_BYTES"
    with potential_le [of "map ?g rows"] show ?thesis by simp
  qed
  then show ?thesis
    using only step rows by (intro inbound_ok_map_linked [OF ok]) auto
qed

section \<open>Settlement without a turn\<close>

lemma rejection_as_str_length: "length (rejection_as_str reason) \<le> 22"
  by (cases reason) simp_all

lemma classified_rejection [simp]: "classified_reason (Some (rejection_as_str reason))"
  by (cases reason) (simp_all add: classified_reason_def is_classified_inbound_rejection_def all_rejections_def)

lemma rejection_not_uncertain [simp]: "rejection_as_str reason \<noteq> ''turn_uncertain''"
  by (cases reason) simp_all

lemma finish_row_simps [simp]:
  "ikey (finish_row now state reason r) = ikey r" "ir_message_id (finish_row now state reason r) = ir_message_id r"
  "ir_state (finish_row now state reason r) = state" "ir_scope_key (finish_row now state reason r) = ir_scope_key r"
  "ir_rejection_reason (finish_row now state reason r) = reason" "ir_turn_row_id (finish_row now state reason r) = ir_turn_row_id r"
  "ir_reply_outbox_key (finish_row now state reason r) = ir_reply_outbox_key r" "erased_body (finish_row now state reason r)"
  "ids_ok (finish_row now state reason r) = ids_ok r"
  by (simp_all add: finish_row_def erase_payload_def erased_body_def ids_ok_def)

lemma finish_row_potential:
  assumes "pending_body c r" "opt_len reason \<le> 22"
  shows "row_potential (finish_row now state reason r) \<le> row_potential r"
  using assms by (auto simp: row_potential_def inbound_row_bytes_def finish_row_def erase_payload_def pending_body_def opt_len_def)

lemma inbound_ok_row: "inbound_ok c turns rows \<Longrightarrow> r \<in> set rows \<Longrightarrow> inbound_row_ok c turns r"
  by (simp add: inbound_ok_def list_all_iff)

lemma inbound_ok_group: "inbound_ok c turns rows \<Longrightarrow> t \<in> set turns \<Longrightarrow> group_ok rows t"
  by (simp add: inbound_ok_def list_all_iff)

lemma received_row:
  assumes "inbound_ok c turns rows" "r \<in> set rows" "ir_state r = EvReceived"
  shows "ids_ok r \<and> pending_body c r \<and> ir_turn_row_id r = None"
  using inbound_ok_row [OF assms(1,2)] assms(3)
  by (cases "ir_turn_row_id r") (simp_all add: inbound_row_ok_def inbound_is_terminal_def link_ok_def split: option.splits)

lemma rejectD:
  assumes "reject_received_in_transaction c now key reason s = Inr (d, s')"
  obtains (same) "s' = s"
  | (rejected) stored where "read_inbound_row (bs_inbound s) (as_hex (ik_tenant key)) (ik_event_id key) = Some stored" "ir_state stored = EvReceived"
      "d = DispRejected"
      "s' = s\<lparr>bs_inbound := map (\<lambda>x. if same_key (as_hex (ik_tenant key)) (ik_event_id key) x \<and> ir_state x = EvReceived
         then finish_row now EvRejected (Some (rejection_as_str reason)) x else x) (bs_inbound s)\<rparr>"
proof -
  obtain stored where stored: "read_inbound_row (bs_inbound s) (as_hex (ik_tenant key)) (ik_event_id key) = Some stored"
    using assms by (auto simp: reject_received_in_transaction_def split: option.splits)
  then show thesis
    using assms
    by (cases "ir_state stored")
      (auto simp: reject_received_in_transaction_def terminal_disposition_def split: option.splits if_splits
        dest!: update_one_inboundD intro: same rejected [OF stored])
qed

lemma reject_in_transaction_ok:
  assumes "inbound_ok c (bs_turns s) (bs_inbound s)" "reject_received_in_transaction c now key reason s = Inr (d, s')"
  shows "inbound_ok c (bs_turns s') (bs_inbound s') \<and> bs_turns s' = bs_turns s \<and> bs_outbox s' = bs_outbox s"
  using assms(2)
proof (cases rule: rejectD)
  case (rejected stored)
  note r = read_inbound_rowD [OF rejected(1)]
  from received_row [OF assms(1) _ rejected(2)] r have body: "ids_ok stored" "pending_body c stored" "ir_turn_row_id stored = None" by auto
  have "inbound_ok c (bs_turns s) (map (\<lambda>x. if same_key (as_hex (ik_tenant key)) (ik_event_id key) x \<and> ir_state x = EvReceived
         then finish_row now EvRejected (Some (rejection_as_str reason)) x else x) (bs_inbound s))"
  proof (rule update_row_ok [OF assms(1), of stored])
    show "inbound_row_ok c (bs_turns s) (finish_row now EvRejected (Some (rejection_as_str reason)) stored)"
      using body by (simp add: inbound_row_ok_def inbound_is_terminal_def v12_effect_ok_def pending_body_def)
  qed (use r finish_row_potential [OF body(2), of "Some (rejection_as_str reason)"] rejection_as_str_length in
      \<open>auto simp: same_key_def row_step_def opt_len_def rejected(2)\<close>)
  with rejected show ?thesis by simp
qed (use assms(1) in simp)

lemma reject_received_ok:
  assumes "bridge_ok c s" "reject_received c now key reason s = Inr (d, s')"
  shows "bridge_ok c s'"
  using assms reject_in_transaction_ok [OF _ run_sized_Inr [OF assms(2) [unfolded reject_received_def]]]
  by (auto simp: bridge_ok_def)

lemma completeD:
  assumes "complete_received_without_turn c now key s = Inr (d, s')"
  obtains (same) "s' = s"
  | (finish) stored where "read_inbound_row (bs_inbound s) (as_hex (ik_tenant key)) (ik_event_id key) = Some stored" "ir_state stored = EvReceived"
      "s' = s\<lparr>bs_inbound := map (\<lambda>x. if same_key (as_hex (ik_tenant key)) (ik_event_id key) x \<and> ir_state x = EvReceived \<and> ir_turn_row_id x = None
         then (erase_payload x)\<lparr>ir_state := EvCompleted, ir_updated_ms := now\<rparr> else x) (bs_inbound s)\<rparr>"
proof -
  note job = run_sized_Inr [OF assms [unfolded complete_received_without_turn_def Let_def]]
  then obtain stored where stored: "read_inbound_row (bs_inbound s) (as_hex (ik_tenant key)) (ik_event_id key) = Some stored"
    by (auto split: option.splits)
  from job show thesis
    by (cases "ir_state stored") (auto simp: stored split: if_splits dest!: update_one_inboundD intro: same finish [OF stored])
qed

lemma complete_received_without_turn_ok:
  assumes "bridge_ok c s" "complete_received_without_turn c now key s = Inr (d, s')"
  shows "bridge_ok c s'"
  using assms(2)
proof (cases rule: completeD)
  case (finish stored)
  let ?f = "\<lambda>r. (erase_payload r)\<lparr>ir_state := EvCompleted, ir_updated_ms := now\<rparr>"
  from assms(1) have ok: "inbound_ok c (bs_turns s) (bs_inbound s)" by (simp add: bridge_ok_def)
  note r = read_inbound_rowD [OF finish(1)]
  from received_row [OF ok _ finish(2)] r have body: "ids_ok stored" "pending_body c stored" "ir_turn_row_id stored = None" by auto
  have "inbound_ok c (bs_turns s) (map (\<lambda>x. if same_key (as_hex (ik_tenant key)) (ik_event_id key) x \<and> ir_state x = EvReceived \<and>
      ir_turn_row_id x = None then ?f x else x) (bs_inbound s))"
  proof (rule update_row_ok [OF ok, of stored])
    show "inbound_row_ok c (bs_turns s) (?f stored)"
      using body by (simp add: inbound_row_ok_def inbound_is_terminal_def v12_effect_ok_def pending_body_def ids_ok_def
          erased_body_def erase_payload_def)
  qed (use r body finish(2) in \<open>auto simp: same_key_def row_step_def row_potential_def inbound_row_bytes_def erase_payload_def\<close>)
  with finish assms(1) show ?thesis by (simp add: bridge_ok_def)
qed (use assms(1) in simp)

section \<open>Replies\<close>

text \<open>
  The second copy of the enqueue code, which the inbox uses for its replies, is the outbox's own
  enqueue: whenever it succeeds, \<open>enqueue_one\<close> succeeds with the same table, so the retry watermark, the
  caps and the in-order claims hold for these replies too.
\<close>

theorem inbound_reply_is_enqueue:
  "case enqueue_inbound_reply_in_transaction anchor_of now notice t of
     Inl e \<Rightarrow> True
   | Inr t' \<Rightarrow> \<exists>out. enqueue_one anchor_of now notice t = Inr (out, t')"
  by (auto simp: enqueue_inbound_reply_in_transaction_def validate_existing_inbound_reply_def enqueue_one_def
      enqueue_new_inbound_reply_def Let_def split: sum.splits option.splits if_splits)

lemma enqueue_inbound_reply_wf:
  assumes "outbox_wf t" "enqueue_inbound_reply_in_transaction anchor_of now notice t = Inr t'"
  shows "outbox_wf t'"
proof -
  have "\<exists>out. enqueue_one anchor_of now notice t = Inr (out, t')"
    using assms(2)
    by (auto simp: enqueue_inbound_reply_in_transaction_def validate_existing_inbound_reply_def enqueue_one_def
        enqueue_new_inbound_reply_def Let_def split: option.splits if_splits)
  moreover have "length (nb_payload_json notice) \<le> STORE_OUTBOX_PAYLOAD_MAX_BYTES"
    using assms(2) by (auto simp: enqueue_inbound_reply_in_transaction_def validate_existing_inbound_reply_def split: if_splits)
  ultimately show ?thesis using enqueue_one_wf [OF assms(1)] by blast
qed

lemma record_effect_ok:
  assumes ok: "inbound_ok c turns rows" and rec: "record_inbound_reply_effect turns now tenant event_id key rows = Inr rows'"
  shows "inbound_ok c turns rows'"
proof -
  let ?P = "\<lambda>r. same_key tenant event_id r \<and> ir_reply_outbox_key r = None"
  let ?f = "\<lambda>r. r\<lparr>ir_reply_outbox_key := Some key, ir_updated_ms := now\<rparr>"
  from rec have cap: "inbound_logical_bytes rows + length key \<le> STORE_INBOUND_MAX_BYTES"
    and upd: "update_one_inbound turns ''recording an inbound reply effect marker'' ''recording an inbound reply effect marker'' ?P ?f rows = Inr rows'"
    by (auto simp: record_inbound_reply_effect_def sat_add_u64_def u64_max_def inbound_limit_defs min_def split: if_splits)
  from update_one_inboundD [OF upd] have rows': "rows' = map (\<lambda>x. if ?P x then ?f x else x) rows"
    and one: "length (filter ?P rows) = 1" by auto
  from one have "filter ?P rows \<noteq> []" by auto
  then obtain r where r: "r \<in> set rows" "?P r" by (auto simp: filter_empty_conv)
  note row = inbound_ok_row [OF ok r(1)]
  from update_one_inbound_shape [OF upd r] have v12: "v12_effect_ok (?f r)" by simp
  then have settled: "inbound_is_terminal (ir_state r)" "ir_turn_row_id r = None"
    by (auto simp: v12_effect_ok_def inbound_is_terminal_def)
  have d: "distinct (map ikey rows)" using ok by (simp add: inbound_ok_def inbound_keys_ok_def)
  have "inbound_logical_bytes (map (\<lambda>x. if ?P x then ?f x else x) rows) \<le> STORE_INBOUND_MAX_BYTES"
  proof -
    have "?P x \<longleftrightarrow> ikey x = ikey r" if "x \<in> set rows" for x
    proof
      assume "ikey x = ikey r"
      then have "x = r" by (rule row_by_ikey_unique [OF d r(1) that])
      with r(2) show "?P x" by simp
    qed (use r(2) in \<open>simp add: same_key_def\<close>)
    then have "map (\<lambda>x. if ?P x then ?f x else x) rows = map (\<lambda>x. if ikey x = ikey r then ?f x else x) rows"
      by (intro map_cong) simp_all
    then have "inbound_logical_bytes (map (\<lambda>x. if ?P x then ?f x else x) rows) =
        sum_list (map inbound_row_bytes (filter (\<lambda>x. ikey x \<noteq> ikey r) rows)) + inbound_row_bytes (?f r)"
      unfolding inbound_logical_bytes_def using update_one_sum [OF d r(1), of inbound_row_bytes ?f] by (simp only:)
    moreover have "inbound_logical_bytes rows = sum_list (map inbound_row_bytes (filter (\<lambda>x. ikey x \<noteq> ikey r) rows)) + inbound_row_bytes r"
      unfolding inbound_logical_bytes_def by (rule split_one_sum [OF d r(1)])
    moreover have "inbound_row_bytes (?f r) = inbound_row_bytes r + length key"
      using r(2) by (simp add: inbound_row_bytes_def opt_len_def)
    ultimately show ?thesis using cap by simp
  qed
  then show ?thesis
    unfolding rows' using r row v12 settled
    by (intro update_row_ok [OF ok r(1)])
      (auto simp: same_key_def row_step_def inbound_row_ok_def ids_ok_def erased_body_def pending_body_def inbound_is_terminal_def)
qed

lemma backfill_reply_ok:
  assumes "bridge_ok c s" "backfill_reply anchor_of now key reply context' stored s = Inr s'"
  shows "bridge_ok c s'"
  using assms
  by (auto simp: backfill_reply_def bridge_ok_def split: option.splits if_splits
      dest: enqueue_inbound_reply_wf record_effect_ok)

lemma reply_key_length: "length (inbound_reply_outbox_key (as_hex tenant) event_id suffix') = 77 + length event_id + length suffix'"
  by (simp add: inbound_reply_outbox_key_def)

definition unanswered :: "inbound_key \<Rightarrow> inbound_row \<Rightarrow> bool" where
  "unanswered key r \<longleftrightarrow> same_key (as_hex (ik_tenant key)) (ik_event_id key) r \<and> ir_state r = EvReceived \<and>
     ir_turn_row_id r = None \<and> ir_reply_outbox_key r = None"

definition answer_row :: "int \<Rightarrow> string \<Rightarrow> inbound_row \<Rightarrow> inbound_row" where
  "answer_row now reply_key r = (erase_payload r)\<lparr>ir_state := EvCompleted, ir_reply_outbox_key := Some reply_key, ir_updated_ms := now\<rparr>"

lemma controlD:
  assumes "complete_received_and_enqueue_control_reply c anchor_of now key reply s = Inr (d, s')"
  obtains (answer) stored outbox rows where "d = DispCompleted" "ir_state stored = EvReceived" "s' = s\<lparr>bs_outbox := outbox, bs_inbound := rows\<rparr>"
      "read_inbound_row (bs_inbound s) (as_hex (ik_tenant key)) (ik_event_id key) = Some stored"
      "nb_idempotency_key reply = control_outbox_idempotency_key key" "nb_scope_key reply = ir_scope_key stored"
      "enqueue_inbound_reply_in_transaction anchor_of now reply (bs_outbox s) = Inr outbox"
      "update_one_inbound (bs_turns s) ''completing a control inbound row'' ''completing a concurrently changed control inbound row''
         (unanswered key) (answer_row now (nb_idempotency_key reply)) (bs_inbound s) = Inr rows"
  | (backfill) stored where "d = AlreadyCompleted" "ir_state stored = EvCompleted" "ir_turn_row_id stored = None"
      "read_inbound_row (bs_inbound s) (as_hex (ik_tenant key)) (ik_event_id key) = Some stored"
      "nb_idempotency_key reply = control_outbox_idempotency_key key" "nb_scope_key reply = ir_scope_key stored"
      "backfill_reply anchor_of now key reply ''validating a completed control reply effect marker'' stored s = Inr s'"
proof -
  have defs: "unanswered key = (\<lambda>r. same_key (as_hex (ik_tenant key)) (ik_event_id key) r \<and> ir_state r = EvReceived \<and>
       ir_turn_row_id r = None \<and> ir_reply_outbox_key r = None)"
    "answer_row now (nb_idempotency_key reply) = (\<lambda>r. (erase_payload r)\<lparr>ir_state := EvCompleted,
       ir_reply_outbox_key := Some (nb_idempotency_key reply), ir_updated_ms := now\<rparr>)"
    by (auto simp: unanswered_def answer_row_def)
  note job = run_sized_Inr [OF assms [unfolded complete_received_and_enqueue_control_reply_def Let_def]]
  then obtain stored where stored: "read_inbound_row (bs_inbound s) (as_hex (ik_tenant key)) (ik_event_id key) = Some stored"
    by (auto split: option.splits if_splits)
  from job show thesis
    by (cases "ir_state stored") (auto simp: stored split: if_splits intro: answer [unfolded defs, OF _ _ _ stored] backfill [OF _ _ _ stored])
qed

lemma complete_received_and_enqueue_control_reply_ok:
  assumes "bridge_ok c s" "complete_received_and_enqueue_control_reply c anchor_of now key reply s = Inr (d, s')"
  shows "bridge_ok c s'"
  using assms(2)
proof (cases rule: controlD)
  case (answer stored outbox rows)
  let ?f = "answer_row now (nb_idempotency_key reply)"
  from assms(1) have ok: "inbound_ok c (bs_turns s) (bs_inbound s)" and out: "outbox_wf (bs_outbox s)" by (simp_all add: bridge_ok_def)
  note r = read_inbound_rowD [OF answer(4)]
  from received_row [OF ok _ answer(2)] r have body: "ids_ok stored" "pending_body c stored" "ir_turn_row_id stored = None" by auto
  have Pr: "unanswered key stored" using r answer(2) body by (simp add: unanswered_def same_key_def pending_body_def)
  from update_one_inbound_shape [OF answer(8) _ Pr] r have v12: "v12_effect_ok (?f stored)" by simp
  have len: "length (nb_idempotency_key reply) = 84 + length (ir_event_id stored)"
    using r by (simp add: answer(5) control_outbox_idempotency_key_def reply_key_length)
  have "inbound_ok c (bs_turns s) (map (\<lambda>x. if unanswered key x then ?f x else x) (bs_inbound s))"
  proof (rule update_row_ok [OF ok, of stored])
    show "inbound_row_ok c (bs_turns s) (?f stored)"
      using body v12 by (simp add: inbound_row_ok_def inbound_is_terminal_def pending_body_def ids_ok_def
          erased_body_def erase_payload_def answer_row_def)
  qed (use r body answer(2) len in \<open>auto simp: same_key_def row_step_def row_potential_def inbound_row_bytes_def erase_payload_def
        pending_body_def opt_len_def unanswered_def answer_row_def\<close>)
  with answer assms(1) show ?thesis
    using update_one_inboundD [OF answer(8)] enqueue_inbound_reply_wf [OF out answer(7)] by (simp add: bridge_ok_def)
next
  case (backfill stored)
  with assms(1) show ?thesis using backfill_reply_ok by blast
qed

lemma noticeD:
  assumes "reject_received_and_enqueue_notice c anchor_of now key reason notice s = Inr (d, s')"
  obtains (same) "s' = s"
  | (backfill) stored where "d = AlreadyRejected"
      "backfill_reply anchor_of now key notice ''validating a rejected reply effect marker'' stored s = Inr s'"
  | (new) outbox s1 rows where "enqueue_inbound_reply_in_transaction anchor_of now notice (bs_outbox s) = Inr outbox"
      "reject_received_in_transaction c now key reason s = Inr (d, s1)"
      "record_inbound_reply_effect (bs_turns s1) now (as_hex (ik_tenant key)) (ik_event_id key) (nb_idempotency_key notice) (bs_inbound s1) = Inr rows"
      "s' = s1\<lparr>bs_outbox := outbox, bs_inbound := rows\<rparr>"
proof -
  note job = run_sized_Inr [OF assms [unfolded reject_received_and_enqueue_notice_def Let_def]]
  then obtain stored where stored: "read_inbound_row (bs_inbound s) (as_hex (ik_tenant key)) (ik_event_id key) = Some stored"
    by (auto split: option.splits if_splits)
  from job show thesis
    by (auto simp: stored split: option.splits if_splits intro: same backfill [of stored] new)
qed

lemma reject_received_and_enqueue_notice_ok:
  assumes "bridge_ok c s" "reject_received_and_enqueue_notice c anchor_of now key reason notice s = Inr (d, s')"
  shows "bridge_ok c s'"
  using assms(2)
proof (cases rule: noticeD)
  case (new outbox s1 rows)
  from assms(1) have ok: "inbound_ok c (bs_turns s) (bs_inbound s)" and out: "outbox_wf (bs_outbox s)" and turns: "turns_wf (bs_turns s)"
    by (simp_all add: bridge_ok_def)
  from reject_in_transaction_ok [OF ok new(2)] have "inbound_ok c (bs_turns s1) (bs_inbound s1)" "bs_turns s1 = bs_turns s" by auto
  with record_effect_ok [OF _ new(3)] enqueue_inbound_reply_wf [OF out new(1)] turns new(4) show ?thesis
    by (simp add: bridge_ok_def)
qed (use assms(1) backfill_reply_ok in auto)

section \<open>Registration\<close>

text \<open>The events of the normalizer have a part or a message type.\<close>

definition replayable :: "inbound_event \<Rightarrow> bool" where
  "replayable event \<longleftrightarrow> ev_parts event \<noteq> [] \<or> ev_message_type event \<noteq> []"

lemma capacityD:
  assumes "ensure_inbound_capacity rows (sat_add_u64 (request_bytes xs) n) m = Inr u"
  shows "length rows < STORE_INBOUND_MAX_ROWS \<and> inbound_logical_bytes rows + sum_list (map length xs) + n \<le> STORE_INBOUND_MAX_BYTES \<and>
         length (received_rows rows) < STORE_INBOUND_RECEIVED_MAX_ROWS \<and> received_bytes rows + m \<le> STORE_INBOUND_RECEIVED_MAX_BYTES"
  using assms
  by (auto simp: ensure_inbound_capacity_def request_bytes_sum sat_add_u64_def u64_max_def inbound_limit_defs min_def split: if_splits)

lemma sort_key_empty: "sort_key f xs = [] \<longleftrightarrow> xs = []"
  using set_sort [of f xs] by (metis set_empty)

lemma insert_inbound_ok:
  assumes codec: "inbound_codec_ok c" and ok: "inbound_ok c (bs_turns s) (bs_inbound s)" and ev: "replayable event"
    and key: "validate_incoming_key event = Inr ()"
    and fresh: "read_inbound_row (bs_inbound s) (as_hex tenant) (ev_event_id event) = None"
    and canonical: "read_message_candidates (bs_inbound s) (as_hex tenant) (ev_message_id event) = []"
    and ins: "insert_inbound c now (as_hex tenant) event s = Inr (out, s')"
  shows "inbound_ok c (bs_turns s') (bs_inbound s') \<and> bs_turns s' = bs_turns s \<and> bs_outbox s' = bs_outbox s"
proof -
  let ?rows = "bs_inbound s"
  from ins obtain payload where enc: "encode_event c event = Inr payload"
    and cap: "ensure_inbound_capacity ?rows (sat_add_u64 (request_bytes [as_hex tenant, ev_event_id event, ev_message_id event,
        scope_to_string (ev_scope event)]) (length payload)) (length payload) = Inr ()"
    and s': "s' = s\<lparr>bs_inbound := ?rows @ [new_inbound_row now (as_hex tenant) event payload]\<rparr>"
    by (auto simp: insert_inbound_def Let_def split: if_splits)
  define row where "row = new_inbound_row now (as_hex tenant) event payload"
  have body: "pending_body c row"
    using encoded_row_replays [OF codec enc, of row] ev
    by (simp add: row_def new_inbound_row_def INBOUND_PAYLOAD_VERSION_def pending_body_def replayable_def)
  have "validate_event event = Inr ()" using enc by (auto simp: encode_event_def)
  then have "ids_ok row"
    using key by (cases "ev_scope event") (auto simp: row_def new_inbound_row_def ids_ok_def validate_incoming_key_def
        validate_id_def validate_event_def)
  with body have row_ok: "inbound_row_ok c (bs_turns s) row"
    by (simp add: inbound_row_ok_def inbound_is_terminal_def v12_effect_ok_def row_def new_inbound_row_def)
  have "ikey row \<notin> ikey ` set ?rows"
    using fresh by (force simp: read_inbound_row_def find_None_iff same_key_def row_def new_inbound_row_def)
  moreover have "(ir_tenant row, ir_message_id row) \<noteq> (ir_tenant r, ir_message_id r)" if "r \<in> set ?rows" "ir_state r \<noteq> EvRejected" for r
  proof -
    from canonical have "filter (\<lambda>x. ir_tenant x = as_hex tenant \<and> ir_message_id x = ev_message_id event \<and> ir_state x \<noteq> EvRejected) ?rows = []"
      by (simp add: read_message_candidates_def sort_key_empty)
    with that show ?thesis by (auto simp: filter_empty_conv row_def new_inbound_row_def)
  qed
  ultimately have keys: "inbound_keys_ok (?rows @ [row])"
    using ok by (auto simp: inbound_ok_def inbound_keys_ok_def canonical_conflict_def)
  from capacityD [OF cap] have "inbound_logical_bytes (?rows @ [row]) \<le> STORE_INBOUND_MAX_BYTES"
    "length ?rows < STORE_INBOUND_MAX_ROWS" "length (received_rows ?rows) < STORE_INBOUND_RECEIVED_MAX_ROWS"
    "received_bytes ?rows + length payload \<le> STORE_INBOUND_RECEIVED_MAX_BYTES"
    by (simp_all add: inbound_logical_bytes_def inbound_row_bytes_def row_def new_inbound_row_def opt_len_def)
  then have "inbound_caps_ok (?rows @ [row])"
    using potential_le [of "?rows @ [row]"]
    by (simp add: inbound_caps_ok_def received_rows_def received_bytes_def row_def new_inbound_row_def)
  moreover have "group_ok (?rows @ [row]) t" if "t \<in> set (bs_turns s)" for t
    using inbound_ok_group [OF ok that] by (auto simp: group_ok_def rows_of_turn_def row_def new_inbound_row_def split: if_splits)
  ultimately show ?thesis
    using ok keys row_ok by (simp add: s' row_def [symmetric] inbound_ok_def list_all_iff)
qed

lemma registerD:
  assumes "register_inbound c now tenant event s = Inr (out, s')"
  obtains (known) stored where "read_inbound_row (bs_inbound s) (as_hex tenant) (ev_event_id event) = Some stored" "s' = s"
      "registration_from_stored c stored tenant True (Some event) = Inr out"
  | (same_message) stored where "read_inbound_row (bs_inbound s) (as_hex tenant) (ev_event_id event) = None"
      "read_message_candidates (bs_inbound s) (as_hex tenant) (ev_message_id event) = [stored]" "s' = s"
      "registration_from_stored c stored tenant False None = Inr out"
  | (new) "read_inbound_row (bs_inbound s) (as_hex tenant) (ev_event_id event) = None"
      "read_message_candidates (bs_inbound s) (as_hex tenant) (ev_message_id event) = []"
      "validate_incoming_key event = Inr ()" "insert_inbound c now (as_hex tenant) event s = Inr (out, s')"
proof -
  let ?row = "read_inbound_row (bs_inbound s) (as_hex tenant) (ev_event_id event)"
  let ?rows = "read_message_candidates (bs_inbound s) (as_hex tenant) (ev_message_id event)"
  have key: "validate_incoming_key event = Inr ()" using assms by (auto simp: register_inbound_def Let_def)
  have "(case ?row of
            Some stored \<Rightarrow> result_map (\<lambda>out. (out, s)) (registration_from_stored c stored tenant True (Some event))
          | None \<Rightarrow>
              (case ?rows of
                 [] \<Rightarrow> insert_inbound c now (as_hex tenant) event s
               | [stored] \<Rightarrow> result_map (\<lambda>out. (out, s)) (registration_from_stored c stored tenant False None)
               | _ \<Rightarrow> Inl (CorruptData ''selecting a canonical inbound message''))) = Inr (out, s')"
    using assms by (auto simp: register_inbound_def Let_def dest!: run_sized_Inr)
  with key show thesis by (cases ?row; cases ?rows) (auto intro: known same_message new split: list.splits)
qed

lemma register_inbound_ok:
  assumes "inbound_codec_ok c" "bridge_ok c s" "replayable event" "register_inbound c now tenant event s = Inr (out, s')"
  shows "bridge_ok c s'"
  using assms(4)
proof (cases rule: registerD)
  case new
  from insert_inbound_ok [OF assms(1) _ assms(3) new(3,1,2,4)] assms(2) show ?thesis by (auto simp: bridge_ok_def)
qed (use assms(2) in simp_all)

end
