(* ===== verification/Inbound_Turns.thy ===== *)
theory Inbound_Turns
  imports Inbound_Invariants
begin

text \<open>
  The operations that join the inbox with the turns: creating a turn together with the claim of its
  events, its state changes, its resolution together with the settlement of the claimed events, and the
  retention sweep. Each keeps the invariant of \<open>Inbound_Invariants\<close>.
\<close>

section \<open>Changing turns\<close>

lemma turn_by_id_append:
  "turn_by_id (t @ [r]) i = (case turn_by_id t i of Some x \<Rightarrow> Some x | None \<Rightarrow> if tn_id r = i then Some r else None)"
  unfolding turn_by_id_def by (induction t) auto

lemma turn_by_id_update:
  assumes "\<And>r. tn_id (f r) = tn_id r"
  shows "turn_by_id (update_turn i f t) j = (if j = i then map_option f (turn_by_id t i) else turn_by_id t j)"
  using assms by (induction t) (auto simp: turn_by_id_def update_turn_def)

lemma linked_turn:
  assumes "inbound_ok c turns rows" "r \<in> set rows" "ir_turn_row_id r = Some i"
  obtains t where "turn_by_id turns i = Some t" "tn_scope_key t = ir_scope_key r" "tn_inbound_count t > 0"
    "turn_fits (ir_state r) (ir_rejection_reason r) t" "ir_reply_outbox_key r = None" "ids_ok r"
  using inbound_ok_row [OF assms(1,2)] assms(3)
  by (auto simp: inbound_row_ok_def link_ok_def split: option.splits)

lemma unknown_turn_unlinked: "inbound_ok c turns rows \<Longrightarrow> turn_by_id turns i = None \<Longrightarrow> rows_of_turn rows i = []"
  by (auto simp: rows_of_turn_def filter_empty_conv elim: linked_turn)

lemma fresh_turn_unknown: "turn_by_id t (next_turn_id t) = None"
  using next_turn_id_fresh [of t] by (force simp: turn_by_id_def find_None_iff)

lemma inbound_ok_turns:
  assumes "inbound_ok c turns rows" "\<And>t. t \<in> set turns' \<Longrightarrow> group_ok rows t"
    and "\<And>r i. r \<in> set rows \<Longrightarrow> ir_turn_row_id r = Some i \<Longrightarrow> link_ok turns r i \<Longrightarrow> link_ok turns' r i"
  shows "inbound_ok c turns' rows"
  using assms by (auto simp: inbound_ok_def list_all_iff inbound_row_ok_def split: option.splits)

lemma link_ok_append: "link_ok turns r i \<Longrightarrow> link_ok (turns @ [t]) r i"
  by (simp add: link_ok_def turn_by_id_append split: option.splits)

lemma record_turn_ok:
  assumes "inbound_ok c turns rows" "record_turn now row turns = Inr (i, turns')"
  shows "inbound_ok c turns' rows"
proof -
  obtain new where turns': "turns' = turns @ [new]" and new: "tn_id new = next_turn_id turns" "tn_inbound_count new = 0"
    using assms(2) by (auto simp: record_turn_def insert_turn_def case_prod_beta Let_def split: if_splits dest!: run_sized_Inr)
  have "group_ok rows new"
    using unknown_turn_unlinked [OF assms(1) fresh_turn_unknown] by (simp add: group_ok_def new)
  then show ?thesis
    unfolding turns' using inbound_ok_group [OF assms(1)] link_ok_append by (intro inbound_ok_turns [OF assms(1)]) auto
qed

lemma set_turn_state_ok:
  assumes "turns_wf turns" "inbound_ok c turns rows" "set_turn_state now i state turn_id turns = Inr (u, turns')"
  shows "inbound_ok c turns' rows"
  using assms(3)
proof (rule set_turn_stateD)
  fix row
  let ?f = "\<lambda>r. r\<lparr>tn_state := state, tn_uncertain := (state = StUncertain),
       tn_updated_ms := now, tn_codex_turn_id := coalesce turn_id (tn_codex_turn_id r)\<rparr>"
  assume row: "turn_by_id turns i = Some row" and turns': "turns' = update_turn i ?f turns"
    and count: "tn_inbound_count row > 0 \<Longrightarrow> tn_state row = StStarting \<and> state = StRunning"
  from turn_by_id_SomeD [OF row] have r: "row \<in> set turns" "tn_id row = i" by auto
  have only: "t = row" if "t \<in> set turns" "tn_id t = i" for t
    using turn_by_id_unique [of turns t] assms(1) that row by (simp add: turns_wf_def)
  have flag: "tn_state row = StStarting \<Longrightarrow> \<not> tn_uncertain row"
    using assms(1) r(1) by (auto simp: turns_wf_def turn_flags_ok_def list_all_iff)
  have "group_ok rows (?f row)"
    using inbound_ok_group [OF assms(2) r(1)] count flag
    by (cases "tn_inbound_count row") (auto simp: group_ok_def unresolved_turn_def split: if_splits)
  then have "group_ok rows t" if "t \<in> set turns'" for t
    using that only inbound_ok_group [OF assms(2)] by (auto simp: turns' set_update_turn)
  moreover have "link_ok turns' x j" if "link_ok turns x j" for x j
    using that row count flag
    by (cases "ir_state x") (auto simp: link_ok_def turns' turn_by_id_update unresolved_turn_def resolved_flag_def split: option.splits if_splits)
  ultimately show ?thesis by (rule inbound_ok_turns [OF assms(2)])
qed

section \<open>Claiming\<close>

lemma accept_row_simps [simp]:
  "ir_tenant (accept_row now i r) = ir_tenant r" "ir_event_id (accept_row now i r) = ir_event_id r" "ir_message_id (accept_row now i r) = ir_message_id r"
  "ir_state (accept_row now i r) = EvAccepted" "ir_scope_key (accept_row now i r) = ir_scope_key r"
  "ir_turn_row_id (accept_row now i r) = Some i" "ir_rejection_reason (accept_row now i r) = ir_rejection_reason r"
  "ir_reply_outbox_key (accept_row now i r) = ir_reply_outbox_key r" "row_potential (accept_row now i r) = row_potential r"
  "ids_ok (accept_row now i r) = ids_ok r" "accept_row now i (accept_row now i r) = accept_row now i r"
  by (simp_all add: accept_row_def row_potential_def inbound_row_bytes_def ids_ok_def)

lemma accept_row_retained:
  "ir_state r = EvReceived \<Longrightarrow> retained_from_stored c (accept_row now i r) = retained_from_stored c r"
  by (simp add: accept_row_def retained_from_stored_def cong: option.case_cong if_cong)

lemma accept_row_pending: "ir_state r = EvReceived \<Longrightarrow> pending_body c (accept_row now i r) = pending_body c r"
  by (simp add: pending_body_def accept_row_retained) (simp add: accept_row_def)

definition claimable :: "turn_table \<Rightarrow> int \<Rightarrow> int \<Rightarrow> inbound_row list \<Rightarrow> inbound_key \<Rightarrow> bool" where
  "claimable turns now i rows key \<longleftrightarrow> (\<exists>r \<in> set rows. ikey r = hex_key key \<and> ir_state r = EvReceived \<and> ir_turn_row_id r = None \<and>
     v2_shape_ok turns (accept_row now i r))"

lemma same_key_ikey: "same_key (as_hex (ik_tenant key)) (ik_event_id key) r \<longleftrightarrow> ikey r = hex_key key"
  by (simp add: same_key_def hex_key_def)

lemma mark_accepted_step:
  assumes "distinct (map ikey rows)"
    and "update_one_inbound turns c1 c2 (\<lambda>r. ikey r = k \<and> ir_state r = EvReceived \<and> ir_turn_row_id r = None) (accept_row now i) rows = Inr rows1"
  obtains r where "r \<in> set rows" "ikey r = k" "ir_state r = EvReceived" "ir_turn_row_id r = None" "v2_shape_ok turns (accept_row now i r)"
    "rows1 = map (\<lambda>x. if ikey x = k then accept_row now i x else x) rows"
proof -
  let ?P = "\<lambda>r. ikey r = k \<and> ir_state r = EvReceived \<and> ir_turn_row_id r = None"
  note upd = update_one_inboundD [OF assms(2)]
  then have "filter ?P rows \<noteq> []" by auto
  then obtain r where r: "r \<in> set rows" "?P r" unfolding filter_empty_conv by blast
  have "?P x \<longleftrightarrow> ikey x = k" if "x \<in> set rows" for x
  proof
    assume "ikey x = k"
    with r have "x = r" using row_by_ikey_unique [OF assms(1) r(1) that] by simp
    with r show "?P x" by simp
  qed simp
  then have "rows1 = map (\<lambda>x. if ikey x = k then accept_row now i x else x) rows" using upd by simp
  with r update_one_inbound_shape [OF assms(2) r] show thesis by (intro that) auto
qed

lemma mark_acceptedD:
  assumes "mark_accepted turns now i keys rows = Inr rows'" "distinct (map ikey rows)"
  shows "rows' = map (\<lambda>r. if ikey r \<in> hex_key ` set keys then accept_row now i r else r) rows \<and>
    distinct (map hex_key keys) \<and> list_all (claimable turns now i rows) keys"
  using assms
proof (induction keys arbitrary: rows)
  case (Cons key keys)
  then obtain rows1 where upd: "update_one_inbound turns ''claiming an inbound row'' ''claiming a concurrently changed inbound row''
         (\<lambda>r. ikey r = hex_key key \<and> ir_state r = EvReceived \<and> ir_turn_row_id r = None) (accept_row now i) rows = Inr rows1"
    and rest: "mark_accepted turns now i keys rows1 = Inr rows'"
    unfolding mark_accepted.simps same_key_ikey result_bind_Inr_iff by blast
  obtain r where r: "r \<in> set rows" "ikey r = hex_key key" "ir_state r = EvReceived" "ir_turn_row_id r = None"
      "v2_shape_ok turns (accept_row now i r)" and rows1: "rows1 = map (\<lambda>x. if ikey x = hex_key key then accept_row now i x else x) rows"
    by (rule mark_accepted_step [OF Cons.prems(2) upd]) (rule that)
  have d1: "distinct (map ikey rows1)" using Cons.prems(2) unfolding rows1 by (simp add: comp_def if_distrib cong: if_cong)
  note IH = Cons.IH [OF rest d1]
  have fresh: "hex_key k \<noteq> hex_key key \<and> claimable turns now i rows k" if "k \<in> set keys" for k
  proof -
    from IH that obtain x where "x \<in> set rows1" "ikey x = hex_key k" "ir_state x = EvReceived" "ir_turn_row_id x = None"
        "v2_shape_ok turns (accept_row now i x)"
      by (auto simp: list_all_iff claimable_def)
    then show ?thesis by (auto simp: rows1 claimable_def split: if_splits)
  qed
  have "rows' = map (\<lambda>r. if ikey r \<in> hex_key ` set (key # keys) then accept_row now i r else r) rows"
    using IH fresh by (auto simp: rows1 image_iff)
  moreover have "claimable turns now i rows key" using r by (auto simp: claimable_def)
  ultimately show ?case using IH fresh by (force simp: list_all_iff)
qed simp

lemma length_filter_keys:
  assumes "distinct (map ikey rows)" "distinct ks" "set ks \<subseteq> ikey ` set rows"
  shows "length (filter (\<lambda>r. ikey r \<in> set ks) rows) = length ks"
proof -
  have "length (filter (\<lambda>r. ikey r \<in> set ks) rows) = card (set (map ikey (filter (\<lambda>r. ikey r \<in> set ks) rows)))"
    using assms(1) by (metis (no_types, lifting) distinct_card distinct_map_filter length_map)
  also have "set (map ikey (filter (\<lambda>r. ikey r \<in> set ks) rows)) = set ks" using assms(3) by auto
  finally show ?thesis using assms(2) by (simp add: distinct_card)
qed

lemma beginD:
  assumes "begin_turn_and_claim_inbound_inner c now turn events s = Inr (out, s')"
  obtains (none) skipped where "out = NoReceived skipped" "s' = s"
  | (started) i received skipped turns rows where "out = Started i received skipped" "s' = s\<lparr>bs_turns := turns, bs_inbound := rows\<rparr>"
      "collect_claims c s (nt_scope_key turn) events = Inr (received, skipped)" "received \<noteq> []"
      "ensure_new_turn_capacity (bs_turns s) turn = Inr ()"
      "insert_turn now turn (length received) ''recording an inbound turn'' (bs_turns s) = Inr (i, turns)"
      "mark_accepted turns now i (map ci_key received) (bs_inbound s) = Inr rows"
  using assms unfolding begin_turn_and_claim_inbound_inner_def
  by (auto split: if_splits dest!: run_sized_Inr)

lemma new_turn_capacityD:
  assumes "ensure_new_turn_capacity turns turn = Inr u"
  shows "length (filter live_turn turns) < STORE_RECOVERY_TURN_MAX_ROWS \<and>
    turns_bytes (filter live_turn turns) + (length (nt_scope_key turn) + length (nt_client_message_id turn) + opt_len (nt_codex_thread_id turn))
      \<le> STORE_RECOVERY_TURN_MAX_BYTES"
  using assms
  by (auto simp: ensure_new_turn_capacity_def Let_def request_bytes_sum sat_add_u64_def u64_max_def limit_defs min_def split: if_splits)

lemma claim_rows_ok:
  assumes ok: "inbound_ok c turns rows" and new: "tn_id new = next_turn_id turns" "tn_inbound_count new = length keys" "unresolved_turn new"
    and keys: "keys \<noteq> []" and mark: "mark_accepted (turns @ [new]) now (next_turn_id turns) keys rows = Inr rows'"
  shows "inbound_ok c (turns @ [new]) rows'"
proof -
  let ?i = "next_turn_id turns" and ?K = "hex_key ` set keys"
  let ?g = "\<lambda>r. if ikey r \<in> ?K then accept_row now ?i r else r"
  from ok have d: "distinct (map ikey rows)" by (simp add: inbound_ok_def inbound_keys_ok_def)
  from mark_acceptedD [OF mark d] have rows': "rows' = map ?g rows" and dk: "distinct (map hex_key keys)"
    and claim: "\<And>k. k \<in> set keys \<Longrightarrow> claimable (turns @ [new]) now ?i rows k" by (auto simp: list_all_iff)
  have claimed: "ir_state r = EvReceived \<and> ir_turn_row_id r = None \<and> v2_shape_ok (turns @ [new]) (accept_row now ?i r)"
    if r: "r \<in> set rows" "ikey r \<in> ?K" for r
  proof -
    from r(2) obtain k where k: "k \<in> set keys" "ikey r = hex_key k" by auto
    from claim [OF k(1)] obtain x where x: "x \<in> set rows" "ikey x = hex_key k" "ir_state x = EvReceived" "ir_turn_row_id x = None"
        "v2_shape_ok (turns @ [new]) (accept_row now ?i x)" by (auto simp: claimable_def)
    have "r = x" using row_by_ikey_unique [OF d x(1) r(1)] k(2) x(2) by simp
    with x show ?thesis by simp
  qed
  have old: "inbound_row_ok c (turns @ [new]) r" if "r \<in> set rows" for r
    using inbound_ok_row [OF ok that] link_ok_append by (auto simp: inbound_row_ok_def split: option.splits)
  have new_row: "inbound_row_ok c (turns @ [new]) (accept_row now ?i r)" if r: "r \<in> set rows" "ikey r \<in> ?K" for r
  proof -
    have at: "turn_by_id (turns @ [new]) ?i = Some new" by (simp add: turn_by_id_append fresh_turn_unknown new(1))
    from claimed [OF r] obtain t where t: "t \<in> set (turns @ [new])" "?i = tn_id t" "tn_scope_key t = ir_scope_key r"
      by (auto simp: v2_shape_ok_def list_ex_iff)
    with next_turn_id_fresh [of turns] have "t = new" by auto
    with t at keys have "link_ok (turns @ [new]) (accept_row now ?i r) ?i" by (simp add: link_ok_def new)
    moreover have "ir_reply_outbox_key r = None" using received_row [OF ok r(1)] claimed [OF r] by (simp add: pending_body_def)
    ultimately show ?thesis
      using received_row [OF ok r(1)] claimed [OF r]
      by (simp add: inbound_row_ok_def inbound_is_terminal_def accept_row_pending v12_effect_ok_def)
  qed
  have count: "rows_of_turn (map ?g rows) ?i = map ?g (filter (\<lambda>r. ikey r \<in> set (map hex_key keys)) rows)"
    using unknown_turn_unlinked [OF ok fresh_turn_unknown]
    by (auto simp: rows_of_turn_def filter_map filter_empty_conv comp_def intro!: arg_cong [of _ _ "map ?g"] filter_cong)
  have "set (map hex_key keys) \<subseteq> ikey ` set rows" using claim by (force simp: claimable_def)
  with count have group_new: "group_ok (map ?g rows) new"
    using length_filter_keys [OF d dk] by (simp add: group_ok_def new)
  have group_old: "group_ok (map ?g rows) t" if t: "t \<in> set turns" for t
  proof -
    have "tn_id t \<noteq> ?i" using next_turn_id_fresh [of turns] t by (metis imageI)
    then have "rows_of_turn (map ?g rows) (tn_id t) = rows_of_turn rows (tn_id t)"
      using claimed by (induction rows) (auto simp: rows_of_turn_def)
    with inbound_ok_group [OF ok t] show ?thesis by (simp add: group_ok_def)
  qed
  show ?thesis
    unfolding rows' using claimed old new_row group_new group_old
    by (intro inbound_ok_map [OF ok] potential_map_le [OF ok]) (auto simp: row_step_def)
qed

lemma begin_turn_ok:
  assumes "bridge_ok c s" "begin_turn_and_claim_inbound_inner c now turn events s = Inr (out, s')"
  shows "bridge_ok c s'"
  using assms(2)
proof (cases rule: beginD)
  case (started i received skipped turns rows)
  from assms(1) have ok: "turns_wf (bs_turns s)" "outbox_wf (bs_outbox s)" "inbound_ok c (bs_turns s) (bs_inbound s)"
    by (simp_all add: bridge_ok_def)
  from started(6) obtain new where turns: "turns = bs_turns s @ [new]" and i: "i = next_turn_id (bs_turns s)"
    and new: "tn_id new = next_turn_id (bs_turns s)" "tn_inbound_count new = length (map ci_key received)" "unresolved_turn new"
    by (auto simp: insert_turn_def unresolved_turn_def split: if_splits)
  from started(7) have "inbound_ok c turns rows"
    unfolding turns i by (intro claim_rows_ok [OF ok(3) new]) (use started(4) in auto)
  moreover have "turns_wf turns" using insert_turn_wf [OF ok(1) started(6)] new_turn_capacityD [OF started(5)] by simp
  ultimately show ?thesis using ok(2) started(2) by (simp add: bridge_ok_def)
qed (use assms(1) in simp)

section \<open>Resolution\<close>

definition resolve_turns :: "int \<Rightarrow> int \<Rightarrow> turn_state \<Rightarrow> turn_table \<Rightarrow> turn_table" where
  "resolve_turns now i target turns = update_turn i (resolve_turn_row now target) turns"

lemma resolveD:
  assumes "resolve_turn_and_finish_inbound_batch now i turn inbound s = Inr (out, s')"
    "resolution_target turn = (target, target_inbound, reason)"
  obtains (already) "s' = s"
  | (refine) row where "turn_by_id (bs_turns s) i = Some row" "turn = TurnFailedRes \<or> turn = TurnInterrupted"
      "tn_state row = StUncertain" "\<not> tn_uncertain row"
      "s' = s\<lparr>bs_turns := resolve_turns now i target (bs_turns s), bs_inbound := map (\<lambda>r. if ir_turn_row_id r = Some i \<and> ir_state r = EvRejected
         then r\<lparr>ir_rejection_reason := reason, ir_updated_ms := now\<rparr> else r) (bs_inbound s)\<rparr>"
  | (finish) row where "turn_by_id (bs_turns s) i = Some row" "resolution_legal row turn"
      "s' = s\<lparr>bs_turns := resolve_turns now i target (bs_turns s), bs_inbound := map (\<lambda>r. if ir_turn_row_id r = Some i \<and> ir_state r = EvAccepted
         then finish_row now (terminal_state target_inbound) reason r else r) (bs_inbound s)\<rparr>"
  using assms unfolding resolve_turn_and_finish_inbound_batch_def resolve_turns_def
  by (auto simp: Let_def split: option.splits if_splits dest!: update_inboundD)

lemma resolve_turn_row_simps [simp]:
  "tn_id (resolve_turn_row now target r) = tn_id r" "tn_state (resolve_turn_row now target r) = target"
  "tn_uncertain (resolve_turn_row now target r) = False" "tn_scope_key (resolve_turn_row now target r) = tn_scope_key r"
  "tn_inbound_count (resolve_turn_row now target r) = tn_inbound_count r"
  "tn_client_message_id (resolve_turn_row now target r) = tn_client_message_id r"
  by (simp_all add: resolve_turn_row_def)

lemma resolution_target_cases:
  assumes "resolution_target turn = (target, target_inbound, reason)"
  shows "target \<in> {StCompleted, StFailed, StInterrupted, StUncertain}" "turn_reason target = reason" "opt_len reason \<le> 16"
    "target = StCompleted \<longleftrightarrow> target_inbound = TermCompleted" "reason = None \<longleftrightarrow> target_inbound = TermCompleted"
  using assms by (cases turn; auto simp: opt_len_def)+

lemma resolve_turns_wf:
  assumes "turns_wf turns" "turn_by_id turns i = Some row" "resolution_target turn = (target, target_inbound, reason)"
  shows "turns_wf (resolve_turns now i target turns)"
  unfolding resolve_turns_def using resolution_target_cases [OF assms(3)]
  by (intro update_turn_wf [OF assms(1,2)]) (auto simp: live_turn_def)

lemma resolve_rows_ok:
  assumes turns: "turns_wf turns" and ok: "inbound_ok c turns rows" and row: "turn_by_id turns i = Some row"
    and target: "target \<in> {StCompleted, StFailed, StInterrupted, StUncertain}"
    and step: "\<And>r. r \<in> set rows \<Longrightarrow> ir_turn_row_id r = Some i \<Longrightarrow>
        row_step r (g r) \<and> ir_turn_row_id (g r) = Some i \<and> row_potential (g r) \<le> row_potential r \<and>
        inbound_row_ok c (resolve_turns now i target turns) (g r)"
    and same: "\<And>r. r \<in> set rows \<Longrightarrow> ir_turn_row_id r \<noteq> Some i \<Longrightarrow> g r = r"
  shows "inbound_ok c (resolve_turns now i target turns) (map g rows)"
proof -
  let ?turns = "resolve_turns now i target turns"
  have link: "ir_turn_row_id (g r) = ir_turn_row_id r" if "r \<in> set rows" for r
    using step [OF that] same [OF that] by (cases "ir_turn_row_id r = Some i") auto
  have other: "inbound_row_ok c ?turns r" if "r \<in> set rows" "ir_turn_row_id r \<noteq> Some i" for r
    using inbound_ok_row [OF ok that(1)] that(2)
    by (auto simp: inbound_row_ok_def link_ok_def resolve_turns_def turn_by_id_update split: option.splits)
  have group: "group_ok (map g rows) t" if t: "t \<in> set ?turns" for t
  proof -
    from t obtain t0 where t0: "t0 \<in> set turns" "t = (if tn_id t0 = i then resolve_turn_row now target t0 else t0)"
      by (auto simp: resolve_turns_def set_update_turn)
    have "group_ok rows t"
      using inbound_ok_group [OF ok t0(1)] t0(2) target by (auto simp: group_ok_def unresolved_turn_def split: if_splits)
    with rows_of_turn_map [of rows g, OF link] show ?thesis by (simp add: group_ok_def)
  qed
  have "row_step r (g r) \<and> row_potential (g r) \<le> row_potential r \<and> inbound_row_ok c ?turns (g r)" if "r \<in> set rows" for r
    using step [OF that] same [OF that] other [OF that] by (cases "ir_turn_row_id r = Some i") auto
  with group show ?thesis by (intro inbound_ok_map [OF ok] potential_map_le [OF ok]) auto
qed

lemma unresolved_links:
  assumes "inbound_ok c turns rows" "turn_by_id turns i = Some row" "unresolved_turn row" "r \<in> set rows" "ir_turn_row_id r = Some i"
  shows "ir_state r = EvAccepted \<and> pending_body c r \<and> ids_ok r \<and> tn_scope_key row = ir_scope_key r \<and> tn_inbound_count row > 0"
proof -
  from linked_turn [OF assms(1,4,5)] obtain t where t: "turn_by_id turns i = Some t" "tn_scope_key t = ir_scope_key r"
      "tn_inbound_count t > 0" "turn_fits (ir_state r) (ir_rejection_reason r) t" "ids_ok r" by metis
  then have "ir_state r = EvAccepted"
    using assms(2,3) by (cases "ir_state r") (auto simp: unresolved_turn_def resolved_flag_def)
  with t assms(2) inbound_ok_row [OF assms(1,4)] show ?thesis by (simp add: inbound_row_ok_def inbound_is_terminal_def)
qed

lemma legal_unresolved: "turns_wf turns \<Longrightarrow> turn_by_id turns i = Some row \<Longrightarrow> resolution_legal row turn \<Longrightarrow> unresolved_turn row"
  using turn_by_id_SomeD [of turns i row]
  by (auto simp: turns_wf_def turn_flags_ok_def list_all_iff resolution_legal_def unresolved_turn_def split: turn_state.splits)

lemma finish_linked_ok:
  assumes "turns_wf turns" "inbound_ok c turns rows" "turn_by_id turns i = Some row" "unresolved_turn row"
    and target: "resolution_target turn = (target, target_inbound, reason)"
  shows "inbound_ok c (resolve_turns now i target turns)
    (map (\<lambda>r. if ir_turn_row_id r = Some i \<and> ir_state r = EvAccepted then finish_row now (terminal_state target_inbound) reason r else r) rows)"
proof (rule resolve_rows_ok [OF assms(1-3) resolution_target_cases(1) [OF target]])
  fix r assume r: "r \<in> set rows" "ir_turn_row_id r = Some i"
  note pend = unresolved_links [OF assms(2,3,4) r]
  have at: "turn_by_id (resolve_turns now i target turns) i = Some (resolve_turn_row now target row)"
    using assms(3) by (simp add: resolve_turns_def turn_by_id_update)
  have "ir_reply_outbox_key r = None" using pend by (simp add: pending_body_def)
  then have "inbound_row_ok c (resolve_turns now i target turns) (finish_row now (terminal_state target_inbound) reason r)"
    using pend r(2) at resolution_target_cases [OF target]
    by (cases target_inbound) (auto simp: inbound_row_ok_def inbound_is_terminal_def v12_effect_ok_def link_ok_def resolved_flag_def)
  moreover have "row_step r (finish_row now (terminal_state target_inbound) reason r)"
    using pend finish_row_simps(1) [of now "terminal_state target_inbound" reason r]
    by (cases target_inbound) (simp_all add: row_step_def)
  moreover have "row_potential (finish_row now (terminal_state target_inbound) reason r) \<le> row_potential r"
    using finish_row_potential [of c r reason] pend resolution_target_cases(3) [OF target] by simp
  ultimately show "row_step r (if ir_turn_row_id r = Some i \<and> ir_state r = EvAccepted then finish_row now (terminal_state target_inbound) reason r else r) \<and>
      ir_turn_row_id (if ir_turn_row_id r = Some i \<and> ir_state r = EvAccepted then finish_row now (terminal_state target_inbound) reason r else r) = Some i \<and>
      row_potential (if ir_turn_row_id r = Some i \<and> ir_state r = EvAccepted then finish_row now (terminal_state target_inbound) reason r else r) \<le> row_potential r \<and>
      inbound_row_ok c (resolve_turns now i target turns)
        (if ir_turn_row_id r = Some i \<and> ir_state r = EvAccepted then finish_row now (terminal_state target_inbound) reason r else r)"
    using pend r(2) by simp
qed auto

lemma refine_linked_ok:
  assumes "turns_wf turns" "inbound_ok c turns rows" "turn_by_id turns i = Some row" "tn_state row = StUncertain" "\<not> tn_uncertain row"
    and turn: "turn = TurnFailedRes \<or> turn = TurnInterrupted" and target: "resolution_target turn = (target, target_inbound, reason)"
  shows "inbound_ok c (resolve_turns now i target turns)
    (map (\<lambda>r. if ir_turn_row_id r = Some i \<and> ir_state r = EvRejected then r\<lparr>ir_rejection_reason := reason, ir_updated_ms := now\<rparr> else r) rows)"
    (is "inbound_ok c ?turns (map ?g rows)")
proof (rule resolve_rows_ok [OF assms(1-3) resolution_target_cases(1) [OF target]])
  fix r assume r: "r \<in> set rows" "ir_turn_row_id r = Some i"
  let ?f = "r\<lparr>ir_rejection_reason := reason, ir_updated_ms := now\<rparr>"
  from linked_turn [OF assms(2) r] obtain t where t: "turn_by_id turns i = Some t" "tn_scope_key t = ir_scope_key r"
      "tn_inbound_count t > 0" "turn_fits (ir_state r) (ir_rejection_reason r) t" "ir_reply_outbox_key r = None" "ids_ok r" by metis
  with assms(3,4,5) have rej: "ir_state r = EvRejected" "ir_rejection_reason r = Some ''turn_uncertain''"
    by (cases "ir_state r"; auto simp: unresolved_turn_def resolved_flag_def)+
  have at: "turn_by_id ?turns i = Some (resolve_turn_row now target row)"
    using assms(3) by (simp add: resolve_turns_def turn_by_id_update)
  have "inbound_row_ok c ?turns ?f"
    using inbound_ok_row [OF assms(2) r(1)] t assms(3) rej r(2) at target turn
    by (auto simp: inbound_row_ok_def inbound_is_terminal_def v12_effect_ok_def link_ok_def resolved_flag_def ids_ok_def erased_body_def)
  moreover have "row_potential ?f \<le> row_potential r"
    using rej target turn by (auto simp: row_potential_def inbound_row_bytes_def opt_len_def)
  ultimately show "row_step r (?g r) \<and> ir_turn_row_id (?g r) = Some i \<and> row_potential (?g r) \<le> row_potential r \<and> inbound_row_ok c ?turns (?g r)"
    using rej r(2) by (simp add: row_step_def)
qed auto

lemma resolve_turn_ok:
  assumes "bridge_ok c s" "resolve_turn_and_finish_inbound_batch now i turn inbound s = Inr (out, s')"
  shows "bridge_ok c s'"
proof -
  obtain target target_inbound reason where target: "resolution_target turn = (target, target_inbound, reason)"
    by (cases "resolution_target turn") auto
  from assms(1) have ok: "turns_wf (bs_turns s)" "inbound_ok c (bs_turns s) (bs_inbound s)" "outbox_wf (bs_outbox s)"
    by (simp_all add: bridge_ok_def)
  from assms(2) target show ?thesis
  proof (cases rule: resolveD)
    case (refine row)
    from refine_linked_ok [OF ok(1,2) refine(1,3,4,2) target] resolve_turns_wf [OF ok(1) refine(1) target] refine(5) ok(3)
    show ?thesis by (simp add: bridge_ok_def)
  next
    case (finish row)
    from finish_linked_ok [OF ok(1,2) finish(1) legal_unresolved [OF ok(1) finish(1,2)] target]
      resolve_turns_wf [OF ok(1) finish(1) target] finish(3) ok(3)
    show ?thesis by (simp add: bridge_ok_def)
  qed (use assms(1) in simp)
qed

section \<open>Retention\<close>

lemma potential_filter:
  assumes "\<And>r. r \<in> set rows \<Longrightarrow> ids_ok r"
  shows "sum_list (map row_potential (filter P rows)) + 2 * length rows \<le> sum_list (map row_potential rows) + 2 * length (filter P rows)"
  using assms
proof (induction rows)
  case (Cons r rows)
  have "2 \<le> row_potential r"
    using Cons.prems [of r] by (cases "ir_event_id r"; cases "ir_message_id r") (auto simp: ids_ok_def row_potential_def inbound_row_bytes_def)
  with Cons show ?case by auto
qed simp

lemma inbound_ok_filter:
  assumes ok: "inbound_ok c turns rows" and keep: "\<And>r. r \<in> set rows \<Longrightarrow> \<not> inbound_is_terminal (ir_state r) \<Longrightarrow> P r" and wf: "turns_wf turns"
  shows "inbound_ok c turns (filter P rows)"
proof -
  have "inbound_keys_ok (filter P rows)"
    using ok distinct_map_filter' [of ikey rows P]
      distinct_map_filter' [of "\<lambda>r. (ir_tenant r, ir_message_id r)" "filter (\<lambda>r. ir_state r \<noteq> EvRejected) rows" P]
    by (simp add: inbound_ok_def inbound_keys_ok_def canonical_conflict_def conj_commute)
  moreover have "sum_list (map row_potential (filter P rows)) \<le> STORE_INBOUND_MAX_BYTES + 2 * length (filter P rows)"
    using potential_filter [of rows P] ok by (fastforce simp: inbound_ok_def inbound_caps_ok_def list_all_iff inbound_row_ok_def)
  moreover have "length (received_rows (filter P rows)) \<le> length (received_rows rows)" "received_bytes (filter P rows) \<le> received_bytes rows"
    by (auto simp: received_rows_def received_bytes_def sum_list_filter_if intro: length_filter_mono intro!: sum_list_mono)
  moreover have "length (filter P rows) \<le> STORE_INBOUND_MAX_ROWS"
    using length_filter_le [of P rows] ok by (auto simp: inbound_ok_def inbound_caps_ok_def simp del: length_filter_le)
  moreover have "group_ok (filter P rows) t" if t: "t \<in> set turns" for t
  proof (cases "unresolved_turn t")
    case True
    have "turn_by_id turns (tn_id t) = Some t" using wf t turn_by_id_unique by (simp add: turns_wf_def)
    then have "rows_of_turn (filter P rows) (tn_id t) = rows_of_turn rows (tn_id t)"
      unfolding rows_of_turn_def filter_filter
      using unresolved_links [OF ok _ True] keep by (intro filter_cong) (auto simp: inbound_is_terminal_def)
    with inbound_ok_group [OF ok t] show ?thesis by (simp add: group_ok_def)
  next
    case False
    have "length (rows_of_turn (filter P rows) (tn_id t)) \<le> length (rows_of_turn rows (tn_id t))"
      by (auto simp: rows_of_turn_def intro: length_filter_mono)
    with False inbound_ok_group [OF ok t] show ?thesis by (simp add: group_ok_def)
  qed
  ultimately show ?thesis using ok by (auto simp: inbound_ok_def inbound_caps_ok_def list_all_iff)
qed

lemma sweepD:
  assumes "sweep_inbound older_than_ms max_rows s = Inr (n, s')" "distinct (map ikey (bs_inbound s))"
  obtains P where "s' = s\<lparr>bs_inbound := filter P (bs_inbound s)\<rparr>"
    "\<And>r. r \<in> set (bs_inbound s) \<Longrightarrow> \<not> P r \<Longrightarrow> inbound_is_terminal (ir_state r) \<and> ir_updated_ms r < older_than_ms"
proof -
  define victims where "victims = take (min max_rows DEDUP_SWEEP_BATCH) (sort_key (\<lambda>r. (ir_updated_ms r, ir_tenant r, ir_event_id r))
    (filter (\<lambda>r. inbound_is_terminal (ir_state r) \<and> ir_updated_ms r < older_than_ms) (bs_inbound s)))"
  have old: "v \<in> set (bs_inbound s) \<and> inbound_is_terminal (ir_state v) \<and> ir_updated_ms v < older_than_ms" if "v \<in> set victims" for v
    using that unfolding victims_def by (auto dest: in_set_takeD)
  have "inbound_is_terminal (ir_state r) \<and> ir_updated_ms r < older_than_ms" if "r \<in> set (bs_inbound s)" "ikey r \<in> set (map ikey victims)" for r
  proof -
    from that(2) obtain v where v: "v \<in> set victims" "ikey r = ikey v" by auto
    with old row_by_ikey_unique [OF assms(2) _ that(1)] show ?thesis by blast
  qed
  moreover consider "s' = s" | "s' = s\<lparr>bs_inbound := filter (\<lambda>r. ikey r \<notin> set (map ikey victims)) (bs_inbound s)\<rparr>"
    using assms(1) unfolding sweep_inbound_def Let_def run_job victims_def by (auto split: if_splits)
  ultimately show thesis
    using that [of "\<lambda>_. True"] that [of "\<lambda>r. ikey r \<notin> set (map ikey victims)"] by cases auto
qed

lemma sweep_inbound_ok:
  assumes "bridge_ok c s" "sweep_inbound older_than_ms max_rows s = Inr (n, s')"
  shows "bridge_ok c s'"
proof -
  from assms(1) have ok: "turns_wf (bs_turns s)" "inbound_ok c (bs_turns s) (bs_inbound s)" "outbox_wf (bs_outbox s)"
    by (simp_all add: bridge_ok_def)
  from ok(2) have "distinct (map ikey (bs_inbound s))" by (simp add: inbound_ok_def inbound_keys_ok_def)
  from assms(2) this show ?thesis
  proof (rule sweepD)
    fix P assume s': "s' = s\<lparr>bs_inbound := filter P (bs_inbound s)\<rparr>"
      and old: "\<And>r. r \<in> set (bs_inbound s) \<Longrightarrow> \<not> P r \<Longrightarrow> inbound_is_terminal (ir_state r) \<and> ir_updated_ms r < older_than_ms"
    have "inbound_ok c (bs_turns s) (filter P (bs_inbound s))"
      by (rule inbound_ok_filter [OF ok(2) _ ok(1)]) (use old in blast)
    with s' ok show ?thesis by (simp add: bridge_ok_def)
  qed
qed

end
