(* ===== verification/Bridge_Runs.thy ===== *)
theory Bridge_Runs
  imports Inbound_Turns
begin

text \<open>
  Runs of the durable store: the operations of the inbox, of the turns and of the outbox in any order,
  from an empty database. The invariant holds after every run, so the integrity scan of a restart
  passes, every pending event is found again, and every live turn can be resolved.
\<close>

section \<open>Operations\<close>

datatype bridge_op =
    BRegister int tenant_namespace inbound_event
  | BBegin int new_turn_row "inbound_key list"
  | BBeginLive int new_turn_row "(inbound_key \<times> inbound_event) list"
  | BResolve int int turn_resolution inbound_terminal
  | BReject int inbound_key inbound_rejection_kind
  | BComplete int inbound_key
  | BControl int inbound_key new_outbox_row
  | BNotice int inbound_key inbound_rejection_kind new_outbox_row
  | BSweep int nat
  | BRecordTurn int new_turn_row
  | BTurnState int int turn_state "string option"
  | BOutbox outbox_op

definition on_turns :: "(turn_table, 'a) job \<Rightarrow> (bridge_store, 'a) job" where
  "on_turns job s = result_map (\<lambda>(a, turns). (a, s\<lparr>bs_turns := turns\<rparr>)) (job (bs_turns s))"

fun apply_bridge_op :: "inbound_codec \<Rightarrow> (string \<Rightarrow> string option) \<Rightarrow> bridge_op \<Rightarrow> bridge_store \<Rightarrow> bridge_store" where
  "apply_bridge_op c anchor_of (BRegister now tenant event) s = after (register_inbound c now tenant event) s"
| "apply_bridge_op c anchor_of (BBegin now turn keys) s = after (begin_turn_and_claim_inbound c now turn keys) s"
| "apply_bridge_op c anchor_of (BBeginLive now turn events) s = after (begin_turn_and_claim_inbound_live c now turn events) s"
| "apply_bridge_op c anchor_of (BResolve now i turn inbound) s = after (resolve_turn_and_finish_inbound_batch now i turn inbound) s"
| "apply_bridge_op c anchor_of (BReject now key reason) s = after (reject_received c now key reason) s"
| "apply_bridge_op c anchor_of (BComplete now key) s = after (complete_received_without_turn c now key) s"
| "apply_bridge_op c anchor_of (BControl now key reply) s = after (complete_received_and_enqueue_control_reply c anchor_of now key reply) s"
| "apply_bridge_op c anchor_of (BNotice now key reason notice) s = after (reject_received_and_enqueue_notice c anchor_of now key reason notice) s"
| "apply_bridge_op c anchor_of (BSweep older n) s = after (sweep_inbound older n) s"
| "apply_bridge_op c anchor_of (BRecordTurn now row) s = after (on_turns (record_turn now row)) s"
| "apply_bridge_op c anchor_of (BTurnState now i state turn_id) s = after (on_turns (set_turn_state now i state turn_id)) s"
| "apply_bridge_op c anchor_of (BOutbox op) s = s\<lparr>bs_outbox := apply_op anchor_of op (bs_outbox s)\<rparr>"

text \<open>The events the bridge registers come from the normalizer.\<close>

fun normalized_op :: "bridge_op \<Rightarrow> bool" where
  "normalized_op (BRegister now tenant event) = replayable event"
| "normalized_op _ = True"

lemma turn_ops_ok:
  "bridge_ok c s \<Longrightarrow> on_turns (record_turn now row) s = Inr (i, s') \<Longrightarrow> bridge_ok c s'"
  "bridge_ok c s \<Longrightarrow> on_turns (set_turn_state now j state turn_id) s = Inr (u, s') \<Longrightarrow> bridge_ok c s'"
  by (auto simp: on_turns_def bridge_ok_def intro: record_turn_wf record_turn_ok set_turn_state_wf set_turn_state_ok)

lemmas bridge_ops_ok =
  resolve_turn_ok reject_received_ok complete_received_without_turn_ok complete_received_and_enqueue_control_reply_ok
  reject_received_and_enqueue_notice_ok sweep_inbound_ok turn_ops_ok begin_turn_ok

lemma apply_bridge_op_ok:
  assumes "inbound_codec_ok c" "bridge_ok c s" "normalized_op op"
  shows "bridge_ok c (apply_bridge_op c anchor_of op s)"
proof (cases op)
  case (BRegister now tenant event)
  with assms show ?thesis by (auto simp: after_def split: sum.splits dest: register_inbound_ok)
next
  case (BOutbox oop)
  with assms(2) show ?thesis by (simp add: bridge_ok_def apply_op_wf)
qed (use assms(2) in \<open>auto simp: after_def begin_turn_and_claim_inbound_def begin_turn_and_claim_inbound_live_def
      split: sum.splits dest: bridge_ops_ok\<close>)

interpretation bridge_run: guarded_steps "apply_bridge_op c anchor_of" "\<lambda>s. inbound_codec_ok c \<and> bridge_ok c s" normalized_op
  for c anchor_of
  by unfold_locales (simp add: apply_bridge_op_ok)

definition run_bridge :: "inbound_codec \<Rightarrow> (string \<Rightarrow> string option) \<Rightarrow> bridge_op list \<Rightarrow> bridge_store" where
  "run_bridge c anchor_of ops = fold (apply_bridge_op c anchor_of) ops empty_store"

lemma run_bridge_ok: "inbound_codec_ok c \<Longrightarrow> list_all normalized_op ops \<Longrightarrow> bridge_ok c (run_bridge c anchor_of ops)"
  unfolding run_bridge_def using bridge_run.run_inv [of c empty_store ops anchor_of] empty_store_ok by simp

section \<open>The integrity scan\<close>

lemma count_state_all: "(\<And>r. r \<in> set rows \<Longrightarrow> ir_state r = state) \<Longrightarrow> count_state state' rows = (if state = state' then length rows else 0)"
  by (induction rows) (auto simp: count_state_def)

lemma resolved_links:
  assumes "inbound_ok c turns rows" "turn_by_id turns i = Some t" "\<not> unresolved_turn t" "r \<in> set rows" "ir_turn_row_id r = Some i"
  shows "ir_state r = (if tn_state t = StCompleted then EvCompleted else EvRejected) \<and> resolved_flag t"
proof -
  from linked_turn [OF assms(1,4,5)] obtain t' where "turn_by_id turns i = Some t'" "turn_fits (ir_state r) (ir_rejection_reason r) t'" by metis
  with assms(2,3) show ?thesis by (cases "ir_state r") auto
qed

lemma group_validates:
  assumes "turns_wf turns" "inbound_ok c turns rows" "t \<in> set turns"
  shows "validate_runtime_turn_group rows t = Inr ()"
proof -
  have at: "turn_by_id turns (tn_id t) = Some t" using assms(1,3) turn_by_id_unique by (simp add: turns_wf_def)
  note group = inbound_ok_group [OF assms(2,3)]
  show ?thesis
  proof (cases "unresolved_turn t")
    case True
    have linked: "ir_state r = EvAccepted \<and> ir_scope_key r = tn_scope_key t" if "r \<in> set (rows_of_turn rows (tn_id t))" for r
      using unresolved_links [OF assms(2) at True, of r] that by (simp add: rows_of_turn_def)
    then have "count_state EvAccepted (rows_of_turn rows (tn_id t)) = length (rows_of_turn rows (tn_id t))"
      using count_state_all [of "rows_of_turn rows (tn_id t)" EvAccepted EvAccepted] by simp
    with True group linked show ?thesis
      by (simp add: validate_runtime_turn_group_def validate_unresolved_markers_def group_ok_def filter_empty_conv)
  next
    case False
    let ?expected = "if tn_state t = StCompleted then EvCompleted else EvRejected"
    have linked: "ir_state r = ?expected" if "r \<in> set (rows_of_turn rows (tn_id t))" for r
      using resolved_links [OF assms(2) at False, of r] that by (simp add: rows_of_turn_def)
    have "\<not> (tn_uncertain t \<or> tn_state t \<notin> {StCompleted, StFailed, StInterrupted, StUncertain})"
      using False assms(1,3) by (cases "tn_state t") (auto simp: unresolved_turn_def turns_wf_def turn_flags_ok_def list_all_iff)
    with False group count_state_all [of "rows_of_turn rows (tn_id t)", OF linked] show ?thesis
      by (simp add: validate_runtime_turn_group_def validate_resolved_markers_def group_ok_def Let_def)
  qed
qed

lemma is_ok_iff: "is_ok r \<longleftrightarrow> (\<exists>a. r = Inr a)"
  by (cases r) simp_all

lemma retained_fromD:
  assumes "retained_from_stored c r = Inr x"
  shows "ev_event_id (ri_event x) = ir_event_id r \<and> 0 \<le> ir_payload_bytes r \<and> ir_payload_bytes r \<le> int STORE_INBOUND_PAYLOAD_MAX_BYTES"
  using assms by (auto simp: retained_from_stored_def split: option.splits if_splits)

lemma pending_retained:
  assumes "pending_body c r"
  obtains x where "retained_from_stored c r = Inr x" "ev_event_id (ri_event x) = ir_event_id r"
    "0 \<le> ir_payload_bytes r" "ir_payload_bytes r \<le> int STORE_INBOUND_PAYLOAD_MAX_BYTES"
  using assms retained_fromD unfolding pending_body_def is_ok_iff by blast

lemma reason_bounded:
  assumes "inbound_row_ok c turns r" "ir_rejection_reason r = Some reason"
  shows "reason \<noteq> [] \<and> length reason \<le> STORE_REJECTION_REASON_MAX_BYTES"
proof (cases "ir_turn_row_id r")
  case None
  with assms have "is_classified_inbound_rejection reason"
    by (cases "ir_state r") (auto simp: inbound_row_ok_def inbound_is_terminal_def pending_body_def classified_reason_def)
  then obtain kind where "reason = rejection_as_str kind" by (auto simp: is_classified_inbound_rejection_def list_ex_iff)
  then show ?thesis using rejection_as_str_length [of kind] by (cases kind) (auto simp: STORE_REJECTION_REASON_MAX_BYTES_def)
next
  case (Some i)
  with assms have "\<exists>state. turn_reason state = Some reason"
    by (cases "ir_state r") (auto simp: inbound_row_ok_def inbound_is_terminal_def pending_body_def link_ok_def split: option.splits)
  then obtain state where "turn_reason state = Some reason" ..
  then show ?thesis by (cases state) (auto simp: STORE_REJECTION_REASON_MAX_BYTES_def)
qed

lemma effect_validates:
  assumes "v12_effect_ok r"
  shows "validate_inbound_reply_effect r = Inr ()"
  using assms
  by (auto simp: v12_effect_ok_def validate_inbound_reply_effect_def INBOUND_REPLY_KEY_MAX_BYTES_def inbound_limit_defs inbound_reply_outbox_key_def
      split: option.splits if_splits)

lemma row_validates:
  assumes "bridge_ok c s" "r \<in> set (bs_inbound s)"
  shows "validate_stored_inbound_row c s r = Inr ()"
proof -
  from assms(1) have ok: "turns_wf (bs_turns s)" "inbound_ok c (bs_turns s) (bs_inbound s)" by (simp_all add: bridge_ok_def)
  note row = inbound_ok_row [OF ok(2) assms(2)]
  then have ids: "ids_ok r" and v12: "v12_effect_ok r" by (simp_all add: inbound_row_ok_def)
  have assoc: "validate_turn_association s r = Inr ()" if "ir_turn_row_id r = Some i" for i
  proof -
    from linked_turn [OF ok(2) assms(2) that] obtain t where t: "turn_by_id (bs_turns s) i = Some t" "tn_scope_key t = ir_scope_key r"
      "tn_inbound_count t > 0" "turn_fits (ir_state r) (ir_rejection_reason r) t" by metis
    with turn_by_id_SomeD [OF t(1)] group_validates [OF ok, of t] show ?thesis
      by (cases "ir_state r") (auto simp: validate_turn_association_def that split: option.splits)
  qed
  have reason: "case ir_rejection_reason r of None \<Rightarrow> True | Some reason \<Rightarrow> reason \<noteq> [] \<and> length reason \<le> STORE_REJECTION_REASON_MAX_BYTES"
    using reason_bounded [OF row] by (auto split: option.splits)
  have tenant: "ir_tenant r \<noteq> [] \<and> length (ir_tenant r) \<le> STORE_INBOUND_ID_MAX_BYTES \<and> is_tenant_namespace (ir_tenant r)"
    using ids by (auto simp: ids_ok_def is_tenant_namespace_def STORE_INBOUND_ID_MAX_BYTES_def)
  show ?thesis
  proof (cases "inbound_is_terminal (ir_state r)")
    case True
    with row have "erased_body r" "ir_state r = EvCompleted \<longrightarrow> ir_rejection_reason r = None" by (simp_all add: inbound_row_ok_def)
    with True ids tenant reason assoc effect_validates [OF v12] show ?thesis
      by (cases "ir_state r"; cases "ir_turn_row_id r")
        (auto simp: validate_stored_inbound_row_def validate_nonempty_bounded_def erased_body_def ids_ok_def inbound_is_terminal_def)
  next
    case False
    with row have "pending_body c r" by (simp add: inbound_row_ok_def)
    with False row ids tenant assoc effect_validates [OF v12] received_row [OF ok(2) assms(2)] show ?thesis
      by (elim pending_retained, cases "ir_state r"; cases "ir_turn_row_id r")
        (auto simp: validate_stored_inbound_row_def validate_nonempty_bounded_def ids_ok_def inbound_is_terminal_def pending_body_def inbound_row_ok_def)
  qed
qed

text \<open>The unclaimed events of a tenant, oldest first.\<close>

definition received_of :: "tenant_namespace \<Rightarrow> bridge_store \<Rightarrow> inbound_row list" where
  "received_of tenant s = sort_key (\<lambda>r. (ir_first_seen_ms r, ir_event_id r))
     (filter (\<lambda>r. ir_tenant r = as_hex tenant \<and> ir_state r = EvReceived) (bs_inbound s))"

lemma retained_all_ids:
  assumes "\<And>r. r \<in> set rows \<Longrightarrow> pending_body c r"
  shows "\<exists>xs. retained_all c rows = Inr xs \<and> map (\<lambda>x. ev_event_id (ri_event x)) xs = map ir_event_id rows"
  using assms
proof (induction rows)
  case (Cons r rows)
  then obtain xs where "retained_all c rows = Inr xs" "map (\<lambda>x. ev_event_id (ri_event x)) xs = map ir_event_id rows" by auto
  moreover from Cons.prems [of r] obtain x where "retained_from_stored c r = Inr x" "ev_event_id (ri_event x) = ir_event_id r"
    by (auto elim: pending_retained)
  ultimately show ?case by simp
qed simp

lemma collection_validates:
  assumes "bridge_ok c s" "inbound_logical_bytes (bs_inbound s) \<le> STORE_INBOUND_MAX_BYTES"
  shows "validate_inbound_collection c s = Inr ()"
proof -
  from assms(1) have ok: "turns_wf (bs_turns s)" "inbound_ok c (bs_turns s) (bs_inbound s)" by (simp_all add: bridge_ok_def)
  then show ?thesis
    using assms(2) row_validates [OF assms(1)] group_validates [OF ok]
    by (auto simp: validate_inbound_collection_def validate_runtime_turn_groups_def Let_def inbound_ok_def inbound_caps_ok_def
        inbound_keys_ok_def for_each_iff list_all_iff)
qed

lemma recover_received_ok:
  assumes "bridge_ok c s" "inbound_logical_bytes (bs_inbound s) \<le> STORE_INBOUND_MAX_BYTES"
  shows "\<exists>xs. recover_received c tenant s = Inr (xs, s) \<and> map (\<lambda>x. ev_event_id (ri_event x)) xs = map ir_event_id (received_of tenant s)"
proof -
  have "pending_body c r" if "r \<in> set (received_of tenant s)" for r
    using that assms(1) received_row [of c "bs_turns s" "bs_inbound s" r] by (auto simp: received_of_def bridge_ok_def)
  then have "\<exists>xs. retained_all c (received_of tenant s) = Inr xs \<and> map (\<lambda>x. ev_event_id (ri_event x)) xs = map ir_event_id (received_of tenant s)"
    by (rule retained_all_ids)
  with collection_validates [OF assms] show ?thesis
    by (auto simp: recover_received_def Let_def run_sized_def limit_defs received_of_def [symmetric])
qed

text \<open>
  C4: whatever the bridge did before it stopped, the scan at the next start finds no corrupt row
  and the recovery read returns exactly the unclaimed events of the tenant, oldest first, without
  changing the store. The only other outcome is a capacity error, when the accounted size of all rows
  exceeds the limit, which it does by at most two bytes per row.
\<close>

theorem restart_recovers_every_received_event:
  assumes "inbound_codec_ok c" "list_all normalized_op ops"
  shows "case recover_received c tenant (run_bridge c anchor_of ops) of
      Inr (xs, s') \<Rightarrow> s' = run_bridge c anchor_of ops \<and>
        map (\<lambda>x. ev_event_id (ri_event x)) xs = map ir_event_id (received_of tenant (run_bridge c anchor_of ops))
    | Inl e \<Rightarrow> e = CapacityExceeded ''recovering the inbound collection'' \<and>
        STORE_INBOUND_MAX_BYTES < inbound_logical_bytes (bs_inbound (run_bridge c anchor_of ops)) \<and>
        inbound_logical_bytes (bs_inbound (run_bridge c anchor_of ops)) \<le>
          STORE_INBOUND_MAX_BYTES + 2 * length (bs_inbound (run_bridge c anchor_of ops))"
proof -
  let ?s = "run_bridge c anchor_of ops"
  have ok: "bridge_ok c ?s" using run_bridge_ok [OF assms] .
  show ?thesis
  proof (cases "inbound_logical_bytes (bs_inbound ?s) \<le> STORE_INBOUND_MAX_BYTES")
    case True
    with recover_received_ok [OF ok, of tenant] show ?thesis by auto
  next
    case False
    then have "recover_received c tenant ?s = Inl (CapacityExceeded ''recovering the inbound collection'')"
      by (simp add: recover_received_def Let_def run_sized_def limit_defs validate_inbound_collection_def ensure_def)
    moreover have "inbound_logical_bytes (bs_inbound ?s) \<le> STORE_INBOUND_MAX_BYTES + 2 * length (bs_inbound ?s)"
      using ok logical_le_potential [of "bs_inbound ?s"] by (simp add: bridge_ok_def inbound_ok_def inbound_caps_ok_def)
    ultimately show ?thesis using False by simp
  qed
qed

abbreviation demo_ops :: "bridge_op list" where
  "demo_ops \<equiv> [BRegister 0 (TenantNamespace 0) demo_event]"

lemma demo_register:
  "result_bind (validate_incoming_key demo_event) (\<lambda>_. run_sized (sat_add_u64 (sat_add_u64 (request_bytes [as_hex (TenantNamespace 0),
     ev_event_id demo_event, ev_message_id demo_event]) (sat_mul_u64 (inbound_event_variable_bytes demo_event) 2)) (2 * 1024)) j s') = j s'"
proof -
  have key: "validate_incoming_key demo_event = Inr ()" using demo_event_valid by (auto simp: validate_event_def)
  have "inbound_event_variable_bytes demo_event \<le> 100" by (simp add: inbound_event_variable_bytes_def demo_event_def sat_add_u64_def opt_len_def u64_max_def)
  with key show ?thesis
    by (simp add: run_sized_def sat_add_u64_def sat_mul_u64_def request_bytes_sum u64_max_def limit_defs demo_event_def del: as_hex.simps)
qed

lemma demo_store_run: "run_bridge demo_codec anchor_of demo_ops = \<lparr>bs_turns = [], bs_inbound = [demo_row], bs_outbox = []\<rparr>"
proof -
  have row: "new_inbound_row 0 (as_hex (TenantNamespace 0)) demo_event demo_payload = demo_row"
    by (simp add: new_inbound_row_def demo_row_def demo_event_def demo_payload_def INBOUND_PAYLOAD_VERSION_def del: as_hex.simps)
  have "v2_shape_ok [] demo_row \<and> v12_effect_ok demo_row"
    by (simp add: v2_shape_ok_def v12_effect_ok_def payload_shape_ok_def demo_row_def demo_payload_def del: as_hex.simps)
  moreover have "ensure_inbound_capacity [] (sat_add_u64 (request_bytes [as_hex (TenantNamespace 0), ev_event_id demo_event, ev_message_id demo_event,
      scope_to_string (ev_scope demo_event)]) (length demo_payload)) (length demo_payload) = Inr ()"
    by (simp add: ensure_inbound_capacity_def inbound_logical_bytes_def received_rows_def received_bytes_def sat_add_u64_def request_bytes_sum
        u64_max_def inbound_limit_defs demo_event_def demo_payload_def del: as_hex.simps)
  ultimately have "insert_inbound demo_codec 0 (as_hex (TenantNamespace 0)) demo_event empty_store =
      Inr (DedupNew \<lparr>ri_event = demo_event, ri_retained_bytes = 300\<rparr>, \<lparr>bs_turns = [], bs_inbound = [demo_row], bs_outbox = []\<rparr>)"
    using demo_event_encodes
    by (simp add: insert_inbound_def Let_def row empty_store_def del: as_hex.simps) (simp add: demo_payload_def)
  then have "register_inbound demo_codec 0 (TenantNamespace 0) demo_event empty_store =
      Inr (DedupNew \<lparr>ri_event = demo_event, ri_retained_bytes = 300\<rparr>, \<lparr>bs_turns = [], bs_inbound = [demo_row], bs_outbox = []\<rparr>)"
    unfolding register_inbound_def Let_def demo_register
    by (simp add: read_inbound_row_def read_message_candidates_def empty_store_def del: as_hex.simps)
  then show ?thesis by (simp add: run_bridge_def after_def)
qed

lemma demo_ops_normalized: "list_all normalized_op demo_ops"
  by (simp add: replayable_def demo_event_def)

theorem restart_recovers_every_received_event_witness:
  "\<exists>xs. recover_received demo_codec (TenantNamespace 0) (run_bridge demo_codec (\<lambda>_. None) demo_ops) =
     Inr (xs, run_bridge demo_codec (\<lambda>_. None) demo_ops) \<and> map (\<lambda>x. ev_event_id (ri_event x)) xs = [''e'']"
proof -
  have "inbound_logical_bytes [demo_row] \<le> STORE_INBOUND_MAX_BYTES"
    by (simp add: inbound_logical_bytes_def inbound_row_bytes_def opt_len_def demo_row_def inbound_limit_defs del: as_hex.simps)
  moreover have "map ir_event_id (received_of (TenantNamespace 0) \<lparr>bs_turns = [], bs_inbound = [demo_row], bs_outbox = []\<rparr>) = [''e'']"
    by (simp add: received_of_def demo_row_def del: as_hex.simps)
  ultimately show ?thesis
    using restart_recovers_every_received_event [OF demo_codec_ok demo_ops_normalized, of "\<lambda>_. None" "TenantNamespace 0"]
    by (auto simp: demo_store_run split: sum.splits)
qed

text \<open>
  C10: whatever the bridge did before it stopped, the recovery read of the turns succeeds and returns
  every live turn, and every claimed event that is not settled belongs to one of them, in the same
  scope. So a claimed event is never stranded by a crash.
\<close>

theorem claimed_events_keep_a_recoverable_turn:
  assumes "inbound_codec_ok c" "list_all normalized_op ops"
  shows "\<exists>live. uncertain_turns (bs_turns (run_bridge c anchor_of ops)) = Inr (live, bs_turns (run_bridge c anchor_of ops)) \<and>
    set live = set (filter live_turn (bs_turns (run_bridge c anchor_of ops))) \<and>
    list_all (\<lambda>r. ir_state r = EvAccepted \<longrightarrow> list_ex (\<lambda>t. ir_turn_row_id r = Some (tn_id t) \<and> tn_scope_key t = ir_scope_key r) live)
      (bs_inbound (run_bridge c anchor_of ops))"
proof -
  let ?s = "run_bridge c anchor_of ops"
  let ?live = "sort_key tn_id (filter live_turn (bs_turns ?s))"
  have ok: "turns_wf (bs_turns ?s)" "inbound_ok c (bs_turns ?s) (bs_inbound ?s)"
    using run_bridge_ok [OF assms] by (simp_all add: bridge_ok_def)
  have "uncertain_turns (bs_turns ?s) = Inr (?live, bs_turns ?s)"
    using ok(1) by (simp add: uncertain_turns_def recovery_usage_all turns_wf_def live_turns_bounded_def)
  moreover have "list_ex (\<lambda>t. ir_turn_row_id r = Some (tn_id t) \<and> tn_scope_key t = ir_scope_key r) ?live"
    if r: "r \<in> set (bs_inbound ?s)" "ir_state r = EvAccepted" for r
  proof -
    obtain i where i: "ir_turn_row_id r = Some i"
      using inbound_ok_row [OF ok(2) r(1)] r(2) by (cases "ir_turn_row_id r") (auto simp: inbound_row_ok_def)
    from linked_turn [OF ok(2) r(1) i] r(2) obtain t where t: "turn_by_id (bs_turns ?s) i = Some t" "tn_scope_key t = ir_scope_key r" "unresolved_turn t"
      by (metis turn_fits.simps(2))
    with turn_by_id_SomeD [OF t(1)] i have "t \<in> set ?live" "ir_turn_row_id r = Some (tn_id t)" by (auto simp: live_turn_def unresolved_turn_def)
    with t(2) show ?thesis unfolding list_ex_iff by blast
  qed
  ultimately show ?thesis by (intro exI [of _ ?live]) (simp add: list_all_iff)
qed

section \<open>Resolution\<close>

lemma finish_shape:
  assumes "turns_wf turns" "inbound_ok c turns rows" "turn_by_id turns i = Some row" "unresolved_turn row"
    and target: "resolution_target turn = (target, target_inbound, reason)" and r: "r \<in> set rows" "ir_turn_row_id r = Some i"
  shows "v2_shape_ok (resolve_turns now i target turns) (finish_row now (terminal_state target_inbound) reason r) \<and>
    v12_effect_ok (finish_row now (terminal_state target_inbound) reason r) \<and> ir_reply_outbox_key r = None"
proof -
  note pend = unresolved_links [OF assms(2-4) r]
  from turn_by_id_SomeD [OF assms(3)] have row: "row \<in> set turns" "tn_id row = i" by auto
  have "resolve_turn_row now target row \<in> set (resolve_turns now i target turns)"
    using row by (force simp: resolve_turns_def set_update_turn)
  moreover have "resolved_turn (resolve_turn_row now target row)"
    using resolution_target_cases(1) [OF target] by (auto simp: resolved_turn_def)
  ultimately have "list_ex (\<lambda>t. ir_turn_row_id r = Some (tn_id t) \<and> tn_scope_key t = ir_scope_key r \<and> resolved_turn t) (resolve_turns now i target turns)"
    unfolding list_ex_iff using r(2) row pend by (intro bexI [of _ "resolve_turn_row now target row"]) auto
  with pend r(2) finish_row_simps(8) [of now "terminal_state target_inbound" reason r] show ?thesis
    by (cases target_inbound) (simp_all add: v2_shape_ok_def v12_effect_ok_def erased_body_def pending_body_def)
qed

lemma resolve_live_turn:
  assumes ok: "bridge_ok c s" and row: "turn_by_id (bs_turns s) i = Some row" and count: "tn_inbound_count row > 0"
    and legal: "resolution_legal row turn" and target: "resolution_target turn = (target, target_inbound, reason)"
  shows "resolve_turn_and_finish_inbound_batch now i turn target_inbound s =
    Inr (ResolvedNow (tn_inbound_count row), s\<lparr>bs_turns := resolve_turns now i target (bs_turns s),
      bs_inbound := map (\<lambda>r. if ir_turn_row_id r = Some i then finish_row now (terminal_state target_inbound) reason r else r) (bs_inbound s)\<rparr>)"
proof -
  let ?P = "\<lambda>r. ir_turn_row_id r = Some i \<and> ir_state r = EvAccepted" and ?rows = "bs_inbound s"
  from ok have wf: "turns_wf (bs_turns s)" and inb: "inbound_ok c (bs_turns s) ?rows" by (simp_all add: bridge_ok_def)
  note un = legal_unresolved [OF wf row legal]
  note linked = unresolved_links [OF inb row un]
  have P: "?P r \<longleftrightarrow> ir_turn_row_id r = Some i" if "r \<in> set ?rows" for r using linked [OF that] by auto
  from turn_by_id_SomeD [OF row] have r: "row \<in> set (bs_turns s)" "tn_id row = i" by auto
  have group: "length (rows_of_turn ?rows i) = tn_inbound_count row"
    using inbound_ok_group [OF inb r(1)] un r(2) by (simp add: group_ok_def)
  have "validate_unresolved_markers ?rows i (tn_scope_key row) (tn_inbound_count row) = Inr ()"
    using group_validates [OF wf inb r(1)] un r(2) by (simp add: validate_runtime_turn_group_def)
  moreover have "update_inbound (resolve_turns now i target (bs_turns s)) ''finishing accepted inbound rows'' ?P
      (finish_row now (terminal_state target_inbound) reason) ?rows =
      Inr (tn_inbound_count row, map (\<lambda>r. if ir_turn_row_id r = Some i then finish_row now (terminal_state target_inbound) reason r else r) ?rows)"
  proof -
    have "length (filter ?P ?rows) = tn_inbound_count row"
      using group P by (simp add: rows_of_turn_def cong: filter_cong)
    moreover have "map (\<lambda>r. if ?P r then finish_row now (terminal_state target_inbound) reason r else r) ?rows =
        map (\<lambda>r. if ir_turn_row_id r = Some i then finish_row now (terminal_state target_inbound) reason r else r) ?rows"
      using P by (intro map_cong) auto
    ultimately show ?thesis
      using finish_shape [OF wf inb row un target] by (auto simp: update_inbound_def list_all_iff)
  qed
  moreover have "target \<noteq> StStarting" "target \<noteq> StRunning" using resolution_target_cases(1) [OF target] by auto
  ultimately show ?thesis
    using row count legal un
    by (cases "tn_state row")
      (simp_all add: resolve_turn_and_finish_inbound_batch_def target Let_def resolve_turns_def unresolved_turn_def)
qed

text \<open>
  C9: after any run, a live turn with claimed events can be resolved in every way its state allows.
  The resolution succeeds, ends the turn, settles all its events with the outcome, erases their payloads
  and leaves every other event alone.
\<close>

theorem every_live_turn_can_be_resolved:
  assumes "inbound_codec_ok c" "list_all normalized_op ops"
    and "turn_by_id (bs_turns (run_bridge c anchor_of ops)) i = Some row" "tn_inbound_count row > 0"
    and "resolution_legal row turn" "resolution_target turn = (target, target_inbound, reason)"
  shows "\<exists>s'. resolve_turn_and_finish_inbound_batch now i turn target_inbound (run_bridge c anchor_of ops) =
      Inr (ResolvedNow (tn_inbound_count row), s') \<and>
    turn_by_id (bs_turns s') i = Some (row\<lparr>tn_state := target, tn_uncertain := False, tn_updated_ms := now\<rparr>) \<and>
    length (rows_of_turn (bs_inbound s') i) = tn_inbound_count row \<and>
    list_all (\<lambda>r. ir_state r = terminal_state target_inbound \<and> ir_rejection_reason r = reason \<and> ir_payload_blob r = None)
      (rows_of_turn (bs_inbound s') i) \<and>
    filter (\<lambda>r. ir_turn_row_id r \<noteq> Some i) (bs_inbound s') = filter (\<lambda>r. ir_turn_row_id r \<noteq> Some i) (bs_inbound (run_bridge c anchor_of ops))"
proof -
  let ?s = "run_bridge c anchor_of ops"
  let ?g = "\<lambda>r. if ir_turn_row_id r = Some i then finish_row now (terminal_state target_inbound) reason r else r"
  note ok = run_bridge_ok [OF assms(1,2), of anchor_of]
  note res = resolve_live_turn [OF ok assms(3-6), of now]
  have wf: "turns_wf (bs_turns ?s)" and inb: "inbound_ok c (bs_turns ?s) (bs_inbound ?s)" using ok by (simp_all add: bridge_ok_def)
  have rows: "rows_of_turn (map ?g xs) i = map (finish_row now (terminal_state target_inbound) reason) (rows_of_turn xs i)" for xs
    by (induction xs) (simp_all add: rows_of_turn_def)
  have other: "filter (\<lambda>r. ir_turn_row_id r \<noteq> Some i) (map ?g xs) = filter (\<lambda>r. ir_turn_row_id r \<noteq> Some i) xs" for xs
    by (induction xs) simp_all
  have "length (rows_of_turn (bs_inbound ?s) i) = tn_inbound_count row"
    using inbound_ok_group [OF inb, of row] turn_by_id_SomeD [OF assms(3)] legal_unresolved [OF wf assms(3,5)] by (simp add: group_ok_def)
  moreover have "ir_payload_blob (finish_row now (terminal_state target_inbound) reason r) = None" for r
    by (simp add: finish_row_def erase_payload_def)
  moreover have "turn_by_id (resolve_turns now i target (bs_turns ?s)) i = Some (row\<lparr>tn_state := target, tn_uncertain := False, tn_updated_ms := now\<rparr>)"
    using assms(3) by (simp add: resolve_turns_def turn_by_id_update) (simp add: resolve_turn_row_def)
  ultimately show ?thesis using res rows other by (simp add: list_all_iff)
qed

definition demo_turn :: new_turn_row where
  "demo_turn = \<lparr>nt_scope_key = ''im:c'', nt_client_message_id = ''bridge-1'', nt_codex_thread_id = None, nt_state = StStarting\<rparr>"

definition demo_turn_row :: turn_row where
  "demo_turn_row = \<lparr>tn_id = 1, tn_scope_key = ''im:c'', tn_client_message_id = ''bridge-1'', tn_codex_thread_id = None,
     tn_codex_turn_id = None, tn_state = StStarting, tn_uncertain = False, tn_created_ms = 1, tn_updated_ms = 1, tn_inbound_count = 1\<rparr>"

definition demo_key :: inbound_key where
  "demo_key = \<lparr>ik_tenant = TenantNamespace 0, ik_event_id = ''e''\<rparr>"

abbreviation demo_claim_ops :: "bridge_op list" where
  "demo_claim_ops \<equiv> [BRegister 0 (TenantNamespace 0) demo_event, BBegin 1 demo_turn [demo_key]]"

lemma demo_row_retained: "\<exists>x. retained_from_stored demo_codec demo_row = Inr x"
  using encoded_row_replays(1) [OF demo_codec_ok demo_event_encodes, of demo_row]
  by (auto simp: demo_event_def demo_row_def demo_payload_def)

lemma demo_begin:
  assumes "bridge_ok demo_codec \<lparr>bs_turns = [], bs_inbound = [demo_row], bs_outbox = []\<rparr>"
  shows "\<exists>x. begin_turn_and_claim_inbound demo_codec 1 demo_turn [demo_key] \<lparr>bs_turns = [], bs_inbound = [demo_row], bs_outbox = []\<rparr> =
     Inr (Started 1 [\<lparr>ci_key = demo_key, ci_retained = x\<rparr>] [],
       \<lparr>bs_turns = [demo_turn_row], bs_inbound = [accept_row 1 1 demo_row], bs_outbox = []\<rparr>)"
proof -
  obtain x where x: "retained_from_stored demo_codec demo_row = Inr x" using demo_row_retained ..
  have valid: "validate_stored_inbound_row demo_codec \<lparr>bs_turns = [], bs_inbound = [demo_row], bs_outbox = []\<rparr> demo_row = Inr ()"
    by (rule row_validates [OF assms]) simp
  have key: "same_key (as_hex (ik_tenant demo_key)) (ik_event_id demo_key) demo_row" "ir_scope_key demo_row = nt_scope_key demo_turn"
      "ir_state demo_row = EvReceived" "ir_turn_row_id demo_row = None"
    by (simp_all add: same_key_def demo_key_def demo_row_def demo_turn_def del: as_hex.simps)
  then have collect: "collect_claims demo_codec \<lparr>bs_turns = [], bs_inbound = [demo_row], bs_outbox = []\<rparr> (nt_scope_key demo_turn) [(demo_key, None)] =
      Inr ([\<lparr>ci_key = demo_key, ci_retained = x\<rparr>], [])"
    using valid x by (simp add: read_inbound_row_def claim_retained_def)
  have shape: "v2_shape_ok [demo_turn_row] (accept_row 1 1 demo_row)" "v12_effect_ok (accept_row 1 1 demo_row)"
    by (simp_all add: v2_shape_ok_def v12_effect_ok_def payload_shape_ok_def accept_row_def demo_row_def demo_turn_row_def demo_payload_def del: as_hex.simps)
  have mark: "mark_accepted [demo_turn_row] 1 1 [demo_key] [demo_row] = Inr [accept_row 1 1 demo_row]"
    using key shape by (simp add: update_one_inbound_def update_inbound_def)
  have "insert_turn 1 demo_turn 1 ''recording an inbound turn'' [] = Inr (1, [demo_turn_row])"
    by (simp add: insert_turn_def next_turn_id_def demo_turn_def demo_turn_row_def)
  moreover have "ensure_new_turn_capacity [] demo_turn = Inr ()"
    by (simp add: ensure_new_turn_capacity_def Let_def request_bytes_sum sat_add_u64_def u64_max_def limit_defs demo_turn_def opt_len_def)
  moreover have "validate_claims (nt_scope_key demo_turn) [] 0 0 [(demo_key, None)] = Inr (65, 0)"
    by (simp add: demo_key_def validate_id_def sat_add_u64_def u64_max_def inbound_limit_defs Let_def del: as_hex.simps)
  moreover have "run_sized (sat_add_u64 (sat_add_u64 65 0) (request_bytes [nt_scope_key demo_turn, nt_client_message_id demo_turn,
      str_or_empty (nt_codex_thread_id demo_turn)])) j s = j s" for j :: "(bridge_store, begin_turn_outcome) job" and s
    by (simp add: run_sized_def sat_add_u64_def request_bytes_sum u64_max_def limit_defs demo_turn_def opt_len_def)
  moreover have "nt_state demo_turn = StStarting" "1 \<le> STORE_INBOUND_BEGIN_MAX_KEYS" "65 \<le> STORE_INBOUND_BEGIN_MAX_KEY_BYTES"
    by (simp_all add: demo_turn_def inbound_limit_defs)
  ultimately show ?thesis
    using collect mark
    by (simp add: begin_turn_and_claim_inbound_def begin_turn_and_claim_inbound_inner_def del: collect_claims.simps mark_accepted.simps validate_claims.simps)
qed

lemma demo_claim_run:
  "run_bridge demo_codec anchor_of demo_claim_ops = \<lparr>bs_turns = [demo_turn_row], bs_inbound = [accept_row 1 1 demo_row], bs_outbox = []\<rparr>"
proof -
  let ?s = "\<lparr>bs_turns = [], bs_inbound = [demo_row], bs_outbox = []\<rparr>"
  have run: "apply_bridge_op demo_codec anchor_of (BRegister 0 (TenantNamespace 0) demo_event) empty_store = ?s"
    using demo_store_run [of anchor_of] by (simp add: run_bridge_def)
  have "bridge_ok demo_codec ?s"
    using run_bridge_ok [OF demo_codec_ok demo_ops_normalized, of anchor_of] by (simp add: demo_store_run)
  from demo_begin [OF this] show ?thesis
    unfolding run_bridge_def fold_simps run by (auto simp: after_def)
qed

lemma demo_claim_normalized: "list_all normalized_op demo_claim_ops"
  by (simp add: replayable_def demo_event_def)

theorem claimed_events_keep_a_recoverable_turn_witness:
  "ir_state (accept_row 1 1 demo_row) = EvAccepted \<and> uncertain_turns [demo_turn_row] = Inr ([demo_turn_row], [demo_turn_row])"
proof -
  from claimed_events_keep_a_recoverable_turn [OF demo_codec_ok demo_claim_normalized, of "\<lambda>_. None"]
  obtain live where "uncertain_turns [demo_turn_row] = Inr (live, [demo_turn_row])" by (auto simp: demo_claim_run)
  then show ?thesis
    by (simp add: uncertain_turns_def Let_def live_turn_def demo_turn_row_def case_prod_beta STORE_RECOVERY_TURN_MAX_ROWS_def split: if_splits)
qed

theorem every_live_turn_can_be_resolved_witness:
  "\<exists>s'. resolve_turn_and_finish_inbound_batch 2 1 TurnInterrupted TermRejected
     \<lparr>bs_turns = [demo_turn_row], bs_inbound = [accept_row 1 1 demo_row], bs_outbox = []\<rparr> = Inr (ResolvedNow 1, s')"
  using every_live_turn_can_be_resolved [OF demo_codec_ok demo_claim_normalized, of "\<lambda>_. None" 1 demo_turn_row TurnInterrupted StInterrupted
      TermRejected "Some ''turn_interrupted''" 2]
  by (auto simp: demo_claim_run turn_by_id_def resolution_legal_def demo_turn_row_def)

end
