(* ===== verification/Inbound_Once.thy ===== *)
theory Inbound_Once
  imports Bridge_Runs
begin

text \<open>
  At most once: an event, once settled or claimed, is never given to a turn again, a redelivery makes no
  second row, and a settled command is answered once.
\<close>

section \<open>Settled events stay settled\<close>

definition settled :: "inbound_row list \<Rightarrow> (string \<times> string) set" where
  "settled rows = ikey ` set (filter (\<lambda>r. ir_state r \<noteq> EvReceived) rows)"

definition forward :: "inbound_row list \<Rightarrow> inbound_row list \<Rightarrow> bool" where
  "forward rows rows' \<longleftrightarrow> settled rows \<subseteq> settled rows'"

lemma forward_refl [simp]: "forward rows rows"
  by (simp add: forward_def)

lemma forward_append [simp]: "forward rows (rows @ [r])"
  by (auto simp: forward_def settled_def)

lemma forward_trans: "forward a b \<Longrightarrow> forward b c \<Longrightarrow> forward a c"
  by (auto simp: forward_def)

lemma forward_update:
  assumes "\<And>r. ir_tenant (f r) = ir_tenant r" "\<And>r. ir_event_id (f r) = ir_event_id r"
    and "\<And>r. ir_state (f r) = EvReceived \<Longrightarrow> ir_state r = EvReceived"
  shows "forward rows (map (\<lambda>r. if P r then f r else r) rows)"
proof -
  let ?g = "\<lambda>r. if P r then f r else r"
  have "ikey r \<in> settled (map ?g rows)" if "r \<in> set rows" "ir_state r \<noteq> EvReceived" for r
  proof -
    have "?g r \<in> set (filter (\<lambda>r. ir_state r \<noteq> EvReceived) (map ?g rows))" using that assms(3) [of r] by auto
    then have "ikey (?g r) \<in> settled (map ?g rows)" unfolding settled_def by (rule imageI)
    with assms(1,2) show ?thesis by (simp split: if_splits)
  qed
  then show ?thesis unfolding forward_def by (subst settled_def) auto
qed

lemma finish_row_fields [simp]:
  "ir_tenant (finish_row now state reason r) = ir_tenant r" "ir_event_id (finish_row now state reason r) = ir_event_id r"
  "ir_tenant (erase_payload r) = ir_tenant r" "ir_event_id (erase_payload r) = ir_event_id r"
  by (simp_all add: finish_row_def erase_payload_def)

lemma register_forward:
  assumes "register_inbound c now tenant event s = Inr (out, s')"
  shows "forward (bs_inbound s) (bs_inbound s')"
  using assms by (cases rule: registerD) (auto simp: insert_inbound_def Let_def split: if_splits)

lemma resolve_forward:
  assumes "resolve_turn_and_finish_inbound_batch now i turn inbound s = Inr (out, s')"
  shows "forward (bs_inbound s) (bs_inbound s')"
proof -
  obtain target target_inbound reason where "resolution_target turn = (target, target_inbound, reason)"
    by (cases "resolution_target turn") auto
  with assms show ?thesis
  proof (cases rule: resolveD)
    case (finish row)
    have "terminal_state target_inbound \<noteq> EvReceived" by (cases target_inbound) simp_all
    with finish(3) show ?thesis by (auto intro!: forward_update)
  qed (auto intro!: forward_update)
qed

lemma reject_in_transaction_forward:
  assumes "reject_received_in_transaction c now key reason s = Inr (d, s')"
  shows "forward (bs_inbound s) (bs_inbound s')"
  using assms by (cases rule: rejectD) (auto intro!: forward_update)

lemma record_effect_forward:
  "record_inbound_reply_effect turns now tenant event_id key rows = Inr rows' \<Longrightarrow> forward rows rows'"
  unfolding record_inbound_reply_effect_def by (auto split: if_splits dest!: update_one_inboundD intro!: forward_update)

lemma backfill_forward:
  "backfill_reply anchor_of now key reply context' stored s = Inr s' \<Longrightarrow> forward (bs_inbound s) (bs_inbound s')"
  by (auto simp: backfill_reply_def split: option.splits if_splits dest: record_effect_forward)

lemma complete_forward:
  assumes "complete_received_without_turn c now key s = Inr (d, s')"
  shows "forward (bs_inbound s) (bs_inbound s')"
  using assms by (cases rule: completeD) (auto intro!: forward_update)

lemma control_forward:
  assumes "complete_received_and_enqueue_control_reply c anchor_of now key reply s = Inr (d, s')"
  shows "forward (bs_inbound s) (bs_inbound s')"
  using assms
proof (cases rule: controlD)
  case (answer stored outbox rows)
  with update_one_inboundD [OF answer(8)] show ?thesis by (auto intro!: forward_update simp: answer_row_def)
qed (rule backfill_forward)

lemma notice_forward:
  assumes "reject_received_and_enqueue_notice c anchor_of now key reason notice s = Inr (d, s')"
  shows "forward (bs_inbound s) (bs_inbound s')"
  using assms
proof (cases rule: noticeD)
  case (new outbox s1 rows)
  from reject_in_transaction_forward [OF new(2)] record_effect_forward [OF new(3)] new(4) show ?thesis
    by (auto intro: forward_trans)
qed (auto intro: backfill_forward)

lemma begin_forward:
  assumes "distinct (map ikey (bs_inbound s))" "begin_turn_and_claim_inbound_inner c now turn events s = Inr (out, s')"
  shows "forward (bs_inbound s) (bs_inbound s')"
  using assms(2)
proof (cases rule: beginD)
  case (started i received skipped turns rows)
  with mark_acceptedD [OF started(7) assms(1)] show ?thesis by (auto intro!: forward_update)
qed simp

section \<open>Claims\<close>

fun is_sweep :: "bridge_op \<Rightarrow> bool" where
  "is_sweep (BSweep older n) = True"
| "is_sweep _ = False"

definition started_keys :: "(store_error, begin_turn_outcome \<times> bridge_store) result \<Rightarrow> (string \<times> string) list" where
  "started_keys res = (case res of Inr (Started i received skipped, s') \<Rightarrow> map (\<lambda>x. hex_key (ci_key x)) received | _ \<Rightarrow> [])"

text \<open>The events one operation hands to a turn, and all those of a run.\<close>

fun claims_of :: "inbound_codec \<Rightarrow> bridge_op \<Rightarrow> bridge_store \<Rightarrow> (string \<times> string) list" where
  "claims_of c (BBegin now turn keys) s = started_keys (begin_turn_and_claim_inbound c now turn keys s)"
| "claims_of c (BBeginLive now turn events) s = started_keys (begin_turn_and_claim_inbound_live c now turn events s)"
| "claims_of c _ s = []"

fun run_claims :: "inbound_codec \<Rightarrow> (string \<Rightarrow> string option) \<Rightarrow> bridge_op list \<Rightarrow> bridge_store \<Rightarrow> (string \<times> string) list" where
  "run_claims c anchor_of [] s = []"
| "run_claims c anchor_of (op # ops) s = claims_of c op s @ run_claims c anchor_of ops (apply_bridge_op c anchor_of op s)"

lemma apply_forward:
  assumes "bridge_ok c s" "\<not> is_sweep op"
  shows "forward (bs_inbound s) (bs_inbound (apply_bridge_op c anchor_of op s))"
proof -
  from assms(1) have d: "distinct (map ikey (bs_inbound s))" by (simp add: bridge_ok_def inbound_ok_def inbound_keys_ok_def)
  have "reject_received c now key reason s = Inr (a, s') \<Longrightarrow> forward (bs_inbound s) (bs_inbound s')" for now key reason a s'
    unfolding reject_received_def by (drule run_sized_Inr) (rule reject_in_transaction_forward)
  with d assms(2) show ?thesis
    by (cases op) (auto simp: after_def on_turns_def begin_turn_and_claim_inbound_def begin_turn_and_claim_inbound_live_def split: sum.splits
        intro: register_forward begin_forward resolve_forward complete_forward control_forward notice_forward)
qed

lemma started_claims:
  assumes "bridge_ok c s" "begin_turn_and_claim_inbound_inner c now turn events s = res"
  shows "distinct (started_keys res) \<and> set (started_keys res) \<inter> settled (bs_inbound s) = {} \<and>
    set (started_keys res) \<subseteq> settled (bs_inbound (after (begin_turn_and_claim_inbound_inner c now turn events) s))"
proof (cases res)
  case (Inr x)
  then obtain out s' where begin': "begin_turn_and_claim_inbound_inner c now turn events s = Inr (out, s')" and x: "x = (out, s')"
    using assms(2) by (cases x) simp
  from assms(1) have d: "distinct (map ikey (bs_inbound s))" by (simp add: bridge_ok_def inbound_ok_def inbound_keys_ok_def)
  from begin' show ?thesis
  proof (cases rule: beginD)
    case (started i received skipped turns rows)
    have keys: "started_keys res = map hex_key (map ci_key received)" by (simp add: Inr x started(1) started_keys_def)
    note mark = mark_acceptedD [OF started(7) d]
    have "ikey r \<notin> hex_key ` set (map ci_key received)" if "r \<in> set (bs_inbound s)" "ir_state r \<noteq> EvReceived" for r
    proof
      assume "ikey r \<in> hex_key ` set (map ci_key received)"
      then obtain k where k: "k \<in> set (map ci_key received)" "ikey r = hex_key k" by blast
      with mark obtain x where x: "x \<in> set (bs_inbound s)" "ikey x = hex_key k" "ir_state x = EvReceived"
        unfolding list_all_iff claimable_def by blast
      have "r = x" by (rule row_by_ikey_unique [OF d x(1) that(1)]) (simp only: k(2) x(2))
      with x(3) that(2) show False by simp
    qed
    moreover have "hex_key k \<in> settled rows" if k: "k \<in> set (map ci_key received)" for k
    proof -
      from mark k obtain r where r: "r \<in> set (bs_inbound s)" "ikey r = hex_key k" unfolding list_all_iff claimable_def by blast
      with k have "accept_row now i r \<in> set (filter (\<lambda>r. ir_state r \<noteq> EvReceived) rows)" using mark by force
      then have "ikey (accept_row now i r) \<in> settled rows" unfolding settled_def by (rule imageI)
      with r(2) show ?thesis by simp
    qed
    ultimately show ?thesis
      using mark unfolding keys by (auto simp: after_def begin' started(2) settled_def [of "bs_inbound s"])
  qed (simp add: Inr x started_keys_def)
qed (simp add: started_keys_def)

lemma claims_of_new:
  assumes "bridge_ok c s"
  shows "distinct (claims_of c op s) \<and> set (claims_of c op s) \<inter> settled (bs_inbound s) = {} \<and>
    set (claims_of c op s) \<subseteq> settled (bs_inbound (apply_bridge_op c anchor_of op s))"
  using started_claims [OF assms refl]
  by (cases op) (simp_all add: begin_turn_and_claim_inbound_def begin_turn_and_claim_inbound_live_def)

lemma run_claims_new:
  assumes "inbound_codec_ok c" "bridge_ok c s" "list_all normalized_op ops" "list_all (\<lambda>op. \<not> is_sweep op) ops"
  shows "distinct (run_claims c anchor_of ops s) \<and> set (run_claims c anchor_of ops s) \<inter> settled (bs_inbound s) = {}"
  using assms(2-)
proof (induction ops arbitrary: s)
  case (Cons op ops)
  let ?s = "apply_bridge_op c anchor_of op s"
  have "bridge_ok c ?s" using Cons.prems assms(1) by (simp add: apply_bridge_op_ok)
  with Cons have IH: "distinct (run_claims c anchor_of ops ?s)" "set (run_claims c anchor_of ops ?s) \<inter> settled (bs_inbound ?s) = {}" by auto
  have "settled (bs_inbound s) \<subseteq> settled (bs_inbound ?s)" using apply_forward Cons.prems by (simp add: forward_def)
  with IH claims_of_new [OF Cons.prems(1), of op anchor_of] show ?case by auto
qed simp

text \<open>
  C8: over any run with redeliveries, crashes between operations, retries and resolutions, no event is
  handed to a turn twice, as long as the retention sweep has not removed its row.
\<close>

theorem event_is_claimed_at_most_once:
  assumes "inbound_codec_ok c" "list_all normalized_op ops" "list_all (\<lambda>op. \<not> is_sweep op) ops"
  shows "distinct (run_claims c anchor_of ops empty_store)"
  using run_claims_new [OF assms(1) empty_store_ok assms(2,3)] by simp

theorem event_is_claimed_at_most_once_witness:
  "distinct (run_claims demo_codec (\<lambda>_. None) (demo_claim_ops @ demo_claim_ops) empty_store)"
  using event_is_claimed_at_most_once [OF demo_codec_ok, of "demo_claim_ops @ demo_claim_ops"] by (simp add: replayable_def demo_event_def)

section \<open>Redelivery\<close>

text \<open>
  An event the store knows: it has a row for this event id, or a row for the same message that was not
  rejected. A message that was only ever rejected counts as new when it arrives under another event id.
\<close>

definition known_event :: "inbound_row list \<Rightarrow> string \<Rightarrow> inbound_event \<Rightarrow> bool" where
  "known_event rows tenant event \<longleftrightarrow>
     (\<exists>r\<in>set rows. ir_tenant r = tenant \<and>
        (ir_event_id r = ev_event_id event \<or> ir_message_id r = ev_message_id event \<and> ir_state r \<noteq> EvRejected))"

text \<open>
  C19: registration knows exactly what it has seen. When the store has a row for the event, or a row of
  the same message that was not rejected, registering leaves the store as it is and never reports a new
  event: a pending one is replayed, a settled one is reported with its state. Otherwise (in particular
  for a message whose earlier deliveries, under other event ids, were all rejected) exactly one row is
  added, in the received state, and the event is reported as new.
\<close>

theorem redelivery_changes_nothing:
  assumes "register_inbound c now tenant event s = Inr (out, s')"
  shows "if known_event (bs_inbound s) (as_hex tenant) event
    then s' = s \<and> (case out of DedupNew x \<Rightarrow> False | ReplayReceived x \<Rightarrow> True | Duplicate key state turn \<Rightarrow> state \<noteq> EvReceived)
    else (\<exists>x. out = DedupNew x) \<and>
      (\<exists>row. s' = s\<lparr>bs_inbound := bs_inbound s @ [row]\<rparr> \<and> ir_tenant row = as_hex tenant \<and> ir_event_id row = ev_event_id event \<and>
         ir_message_id row = ev_message_id event \<and> ir_state row = EvReceived)"
proof -
  let ?known = "known_event (bs_inbound s) (as_hex tenant) event"
  have old: "case out of DedupNew x \<Rightarrow> False | ReplayReceived x \<Rightarrow> True | Duplicate key state turn \<Rightarrow> state \<noteq> EvReceived"
    if "registration_from_stored c stored tenant exact' live' = Inr out" for stored exact' live'
    using that by (auto simp: registration_from_stored_def split: if_splits)
  have candidate: "r \<in> set (read_message_candidates (bs_inbound s) (as_hex tenant) (ev_message_id event)) \<longleftrightarrow>
      r \<in> set (bs_inbound s) \<and> ir_tenant r = as_hex tenant \<and> ir_message_id r = ev_message_id event \<and> ir_state r \<noteq> EvRejected" for r
    by (simp add: read_message_candidates_def)
  from assms show ?thesis
  proof (cases rule: registerD)
    case (known stored)
    have ?known unfolding known_event_def using read_inbound_rowD [OF known(1)] by blast
    with known old show ?thesis by simp
  next
    case (same_message stored)
    have ?known unfolding known_event_def using candidate [of stored] same_message(2) by auto
    with same_message old show ?thesis by simp
  next
    case new
    have "\<not> ?known"
      using new(1,2) candidate by (fastforce simp: known_event_def read_inbound_row_def find_None_iff same_key_def)
    moreover obtain payload where "out = DedupNew \<lparr>ri_event = event, ri_retained_bytes = length payload\<rparr>"
        "s' = s\<lparr>bs_inbound := bs_inbound s @ [new_inbound_row now (as_hex tenant) event payload]\<rparr>"
      using new(4) by (auto simp: insert_inbound_def Let_def split: if_splits)
    moreover have "ir_tenant row = as_hex tenant \<and> ir_event_id row = ev_event_id event \<and> ir_message_id row = ev_message_id event \<and>
        ir_state row = EvReceived" if "row = new_inbound_row now (as_hex tenant) event payload" for row
      by (simp add: that new_inbound_row_def)
    ultimately show ?thesis by auto
  qed
qed

theorem redelivery_changes_nothing_witness:
  "\<exists>out. register_inbound demo_codec 5 (TenantNamespace 0) demo_event \<lparr>bs_turns = [], bs_inbound = [finish_row 1 EvCompleted None demo_row], bs_outbox = []\<rparr> =
     Inr (out, \<lparr>bs_turns = [], bs_inbound = [finish_row 1 EvCompleted None demo_row], bs_outbox = []\<rparr>)"
proof -
  let ?s = "\<lparr>bs_turns = [], bs_inbound = [finish_row 1 EvCompleted None demo_row], bs_outbox = []\<rparr>"
  have key: "ir_tenant (finish_row 1 EvCompleted None demo_row) = as_hex (TenantNamespace 0)"
      "ir_event_id (finish_row 1 EvCompleted None demo_row) = ev_event_id demo_event"
    by (simp_all add: demo_row_def demo_event_def del: as_hex.simps)
  have "read_inbound_row (bs_inbound ?s) (as_hex (TenantNamespace 0)) (ev_event_id demo_event) = Some (finish_row 1 EvCompleted None demo_row)"
    using key by (simp add: read_inbound_row_def same_key_def del: as_hex.simps finish_row_fields)
  then have "\<exists>out s'. register_inbound demo_codec 5 (TenantNamespace 0) demo_event ?s = Inr (out, s')"
    unfolding register_inbound_def Let_def demo_register by (simp add: registration_from_stored_def del: as_hex.simps)
  moreover have "known_event (bs_inbound ?s) (as_hex (TenantNamespace 0)) demo_event"
    using key by (simp add: known_event_def del: as_hex.simps finish_row_fields)
  ultimately show ?thesis using redelivery_changes_nothing [of demo_codec 5 "TenantNamespace 0" demo_event ?s] by fastforce
qed

section \<open>Replies\<close>

lemma find_map_keys: "(\<And>x. P (g x) = P x) \<Longrightarrow> List.find P (map g xs) = map_option g (List.find P xs)"
  by (induction xs) auto

lemma find_append: "List.find P xs = None \<Longrightarrow> List.find P (xs @ ys) = List.find P ys"
  by (induction xs) (auto split: if_splits)

lemma read_after_update:
  assumes "read_inbound_row rows tenant event_id = Some stored" "\<And>r. ir_tenant (f r) = ir_tenant r" "\<And>r. ir_event_id (f r) = ir_event_id r"
  shows "read_inbound_row (map (\<lambda>r. if P r then f r else r) rows) tenant event_id = Some (if P stored then f stored else stored)"
  using assms by (simp add: read_inbound_row_def find_map_keys same_key_def)

lemma enqueued_reply:
  assumes "enqueue_inbound_reply_in_transaction anchor_of now notice t = Inr t'"
  shows "validate_existing_inbound_reply t' notice = Inr True"
proof -
  from assms obtain exists where ex: "validate_existing_inbound_reply t notice = Inr exists"
    by (auto simp: enqueue_inbound_reply_in_transaction_def)
  show ?thesis
  proof (cases exists)
    case True
    with assms ex show ?thesis by (simp add: enqueue_inbound_reply_in_transaction_def)
  next
    case False
    with assms ex obtain t1 where t1: "enforce_total_cap anchor_of now (length (nb_payload_json notice)) t = Inr t1"
      and t': "t' = t1 @ [inserted_row t1 (max (nb_next_retry_ms notice) (retry_watermark t1)) now notice]"
      by (auto simp: enqueue_inbound_reply_in_transaction_def enqueue_new_inbound_reply_def Let_def split: if_splits)
    from ex False have size': "length (nb_payload_json notice) \<le> STORE_OUTBOX_PAYLOAD_MAX_BYTES" and none: "row_by_key t (nb_idempotency_key notice) = None"
      by (auto simp: validate_existing_inbound_reply_def split: if_splits option.splits)
    obtain P where "t1 = filter P t" using enforce_total_capD [OF t1] by metis
    with none have "List.find (\<lambda>r. ob_idempotency_key r = nb_idempotency_key notice) t1 = None"
      by (auto simp: row_by_key_def find_None_iff)
    then have "row_by_key t' (nb_idempotency_key notice) = Some (inserted_row t1 (max (nb_next_retry_ms notice) (retry_watermark t1)) now notice)"
      by (simp add: t' row_by_key_def find_append inserted_row_def)
    with size' show ?thesis by (simp add: validate_existing_inbound_reply_def inserted_row_def)
  qed
qed

lemma control_again:
  assumes "complete_received_and_enqueue_control_reply c anchor_of now key reply s = Inr x"
    and "read_inbound_row (bs_inbound s') (as_hex (ik_tenant key)) (ik_event_id key) = Some r" "nb_scope_key reply = ir_scope_key r"
    and "ir_state r = EvCompleted" "ir_turn_row_id r = None" "ir_reply_outbox_key r = Some (nb_idempotency_key reply)"
    and "validate_existing_inbound_reply (bs_outbox s') reply = Inr b"
  shows "complete_received_and_enqueue_control_reply c anchor_of now' key reply s' = Inr (AlreadyCompleted, s')"
  using assms by (simp add: complete_received_and_enqueue_control_reply_def run_sized_def Let_def backfill_reply_def split: if_splits)

lemma record_effect_read:
  assumes "read_inbound_row rows (as_hex (ik_tenant key)) (ik_event_id key) = Some stored" "ir_reply_outbox_key stored = None"
    and "record_inbound_reply_effect turns now (as_hex (ik_tenant key)) (ik_event_id key) reply_key rows = Inr rows'"
  shows "read_inbound_row rows' (as_hex (ik_tenant key)) (ik_event_id key) = Some (stored\<lparr>ir_reply_outbox_key := Some reply_key, ir_updated_ms := now\<rparr>)"
proof -
  from assms(3) have rows': "rows' = map (\<lambda>r. if same_key (as_hex (ik_tenant key)) (ik_event_id key) r \<and> ir_reply_outbox_key r = None
      then r\<lparr>ir_reply_outbox_key := Some reply_key, ir_updated_ms := now\<rparr> else r) rows"
    by (auto simp: record_inbound_reply_effect_def split: if_splits dest!: update_one_inboundD)
  have "same_key (as_hex (ik_tenant key)) (ik_event_id key) stored" using read_inbound_rowD [OF assms(1)] by (simp add: same_key_def)
  with assms(2) show ?thesis unfolding rows' by (subst read_after_update [OF assms(1)]) simp_all
qed

text \<open>
  C18: settling a command and queueing its reply is one step and happens once. When it succeeds the
  first time, the event is completed with the reply's key recorded and the reply is in the outbox;
  repeating it, after a crash or a redelivery, changes nothing.
\<close>

theorem control_command_is_answered_once:
  assumes "inbound_codec_ok c" "list_all normalized_op ops"
    and "complete_received_and_enqueue_control_reply c anchor_of now key reply (run_bridge c anchor_of ops) = Inr (d, s')"
  shows "complete_received_and_enqueue_control_reply c anchor_of now' key reply s' = Inr (AlreadyCompleted, s') \<and>
    (d = DispCompleted \<longrightarrow>
       map_option ob_payload_json (row_by_key (bs_outbox s') (nb_idempotency_key reply)) = Some (nb_payload_json reply) \<and>
       map_option (\<lambda>r. (ir_state r, ir_reply_outbox_key r)) (read_inbound_row (bs_inbound s') (as_hex (ik_tenant key)) (ik_event_id key)) =
         Some (EvCompleted, Some (nb_idempotency_key reply)))"
  using assms(3)
proof (cases rule: controlD)
  case (answer stored outbox rows)
  let ?r = "answer_row now (nb_idempotency_key reply) stored"
  have ok: "inbound_ok c (bs_turns (run_bridge c anchor_of ops)) (bs_inbound (run_bridge c anchor_of ops))"
    using run_bridge_ok [OF assms(1,2)] by (simp add: bridge_ok_def)
  note key = read_inbound_rowD [OF answer(4)]
  have "unanswered key stored"
    using received_row [OF ok _ answer(2)] key answer(2) by (simp add: unanswered_def same_key_def pending_body_def)
  then have read: "read_inbound_row rows (as_hex (ik_tenant key)) (ik_event_id key) = Some ?r"
    using update_one_inboundD [OF answer(8)] read_after_update [OF answer(4), of "answer_row now (nb_idempotency_key reply)" "unanswered key"]
    by (simp add: answer_row_def)
  have turn: "ir_turn_row_id ?r = None" using received_row [OF ok _ answer(2)] key by (simp add: answer_row_def erase_payload_def)
  have "complete_received_and_enqueue_control_reply c anchor_of now' key reply s' = Inr (AlreadyCompleted, s')"
    by (rule control_again [OF assms(3), of _ ?r True])
      (use read turn answer(3,6) enqueued_reply [OF answer(7)] in \<open>simp_all add: answer_row_def erase_payload_def\<close>)
  with read answer(3) enqueued_reply [OF answer(7)] show ?thesis
    by (auto simp: answer_row_def validate_existing_inbound_reply_def split: if_splits option.splits)
next
  case (backfill stored)
  let ?s = "run_bridge c anchor_of ops"
  show ?thesis
  proof (cases "ir_reply_outbox_key stored")
    case None
    with backfill(7) obtain outbox rows where out: "enqueue_inbound_reply_in_transaction anchor_of now reply (bs_outbox ?s) = Inr outbox"
      and rec: "record_inbound_reply_effect (bs_turns ?s) now (as_hex (ik_tenant key)) (ik_event_id key) (nb_idempotency_key reply) (bs_inbound ?s) = Inr rows"
      and s': "s' = ?s\<lparr>bs_outbox := outbox, bs_inbound := rows\<rparr>"
      by (auto simp: backfill_reply_def)
    note read = record_effect_read [OF backfill(4) None rec]
    have "complete_received_and_enqueue_control_reply c anchor_of now' key reply s' = Inr (AlreadyCompleted, s')"
      by (rule control_again [OF assms(3), of _ "stored\<lparr>ir_reply_outbox_key := Some (nb_idempotency_key reply), ir_updated_ms := now\<rparr>" True])
        (use read s' enqueued_reply [OF out] backfill in simp_all)
    with backfill(1) show ?thesis by simp
  next
    case (Some recorded)
    with backfill(7) obtain b where "s' = ?s" "recorded = nb_idempotency_key reply" "validate_existing_inbound_reply (bs_outbox ?s) reply = Inr b"
      by (auto simp: backfill_reply_def split: if_splits)
    then have "complete_received_and_enqueue_control_reply c anchor_of now' key reply s' = Inr (AlreadyCompleted, s')"
      using Some backfill by (intro control_again [OF assms(3), of _ stored]) simp_all
    with backfill(1) show ?thesis by simp
  qed
qed

definition demo_reply :: new_outbox_row where
  "demo_reply = \<lparr>nb_idempotency_key = control_outbox_idempotency_key demo_key, nb_scope_key = ''im:c'', nb_kind = ''control'',
     nb_payload_json = ''{}'', nb_next_retry_ms = 0\<rparr>"

lemma demo_control:
  "\<exists>s'. complete_received_and_enqueue_control_reply demo_codec anchor_of 1 demo_key demo_reply \<lparr>bs_turns = [], bs_inbound = [demo_row], bs_outbox = []\<rparr> =
     Inr (DispCompleted, s')"
proof -
  let ?key = "control_outbox_idempotency_key demo_key"
  obtain x where x: "retained_from_stored demo_codec demo_row = Inr x" using demo_row_retained ..
  have len: "length ?key = 85" by (simp add: control_outbox_idempotency_key_def reply_key_length demo_key_def del: as_hex.simps)
  have row: "same_key (as_hex (ik_tenant demo_key)) (ik_event_id demo_key) demo_row" "ir_scope_key demo_row = ''im:c''"
      "ir_state demo_row = EvReceived" "ir_turn_row_id demo_row = None" "ir_reply_outbox_key demo_row = None"
    by (simp_all add: same_key_def demo_key_def demo_row_def del: as_hex.simps)
  have enq: "\<exists>t. enqueue_inbound_reply_in_transaction anchor_of 1 demo_reply [] = Inr t"
    by (simp add: enqueue_inbound_reply_in_transaction_def validate_existing_inbound_reply_def enqueue_new_inbound_reply_def
        enforce_total_cap_def total_outbox_count_bytes_def rows_bytes_def row_by_key_def Let_def sat_add_u64_def u64_max_def limit_defs demo_reply_def)
  let ?f = "(erase_payload demo_row)\<lparr>ir_state := EvCompleted, ir_reply_outbox_key := Some ?key, ir_updated_ms := 1\<rparr>"
  have "v2_shape_ok [] ?f" by (simp add: v2_shape_ok_def erase_payload_def row)
  moreover have "v12_effect_ok ?f"
    using len by (simp add: v12_effect_ok_def erase_payload_def row) (simp add: control_outbox_idempotency_key_def demo_row_def demo_key_def del: as_hex.simps)
  moreover have "run_sized (reply_request_bytes demo_key demo_reply) j s = j s" for j :: "(bridge_store, inbound_disposition) job" and s
    using len by (simp add: run_sized_def reply_request_bytes_def request_bytes_sum u64_max_def limit_defs demo_reply_def) (simp add: demo_key_def)
  ultimately show ?thesis
    using enq row x
    by (auto simp: complete_received_and_enqueue_control_reply_def Let_def demo_reply_def read_inbound_row_def update_one_inbound_def update_inbound_def)
qed

theorem control_command_is_answered_once_witness:
  "\<exists>s'. complete_received_and_enqueue_control_reply demo_codec (\<lambda>_. None) 9 demo_key demo_reply s' = Inr (AlreadyCompleted, s')"
proof -
  from demo_control [of "\<lambda>_. None"] obtain s' where
    "complete_received_and_enqueue_control_reply demo_codec (\<lambda>_. None) 1 demo_key demo_reply (run_bridge demo_codec (\<lambda>_. None) demo_ops) = Inr (DispCompleted, s')"
    by (auto simp: demo_store_run)
  from control_command_is_answered_once [OF demo_codec_ok demo_ops_normalized this, of 9] show ?thesis by blast
qed

end
