(* ===== verification/Runtime_Limits.thy ===== *)
theory Runtime_Limits
  imports Bridge_Limits
begin

text \<open>
  The bounds of \<^verbatim>\<open>src/src/limits.rs\<close> for the configuration, the command parser, the router, the scope
  actors and the pending media of the turn runtime, under their source names.
\<close>

section \<open>Configuration\<close>

definition MAX_CONFIG_OWNERS :: nat where
  "MAX_CONFIG_OWNERS = 256"

definition MAX_CONFIG_OWNER_BYTES :: nat where
  "MAX_CONFIG_OWNER_BYTES = 32 * 1024"

definition MAX_CONFIG_ALLOW_ROOTS :: nat where
  "MAX_CONFIG_ALLOW_ROOTS = 64"

definition MAX_CONFIG_ALLOW_ROOT_BYTES :: nat where
  "MAX_CONFIG_ALLOW_ROOT_BYTES = 16 * 1024"

definition MAX_CONFIG_ALLOWED_SENDERS :: nat where
  "MAX_CONFIG_ALLOWED_SENDERS = 256"

definition MAX_CONFIG_ALLOWED_SENDER_BYTES :: nat where
  "MAX_CONFIG_ALLOWED_SENDER_BYTES = 32 * 1024"

definition MAX_CONFIG_ALLOWED_GROUPS :: nat where
  "MAX_CONFIG_ALLOWED_GROUPS = 256"

definition MAX_CONFIG_ALLOWED_GROUP_BYTES :: nat where
  "MAX_CONFIG_ALLOWED_GROUP_BYTES = 32 * 1024"

definition MAX_CONFIG_MODEL_BYTES :: nat where
  "MAX_CONFIG_MODEL_BYTES = 128"

definition MAX_PLATFORM_PROTECTED_ROOTS :: nat where
  "MAX_PLATFORM_PROTECTED_ROOTS = 64"

definition MAX_PLATFORM_PROTECTED_ROOT_BYTES :: nat where
  "MAX_PLATFORM_PROTECTED_ROOT_BYTES = 16 * 1024"

definition ASR_MAX_DURATION_MS :: nat where
  "ASR_MAX_DURATION_MS = 10 * 60 * 1000"

definition ASR_ABSOLUTE_MAX_DURATION_MS :: nat where
  "ASR_ABSOLUTE_MAX_DURATION_MS = ASR_MAX_DURATION_MS"

definition ASR_TRANSCRIPT_MAX_BYTES :: nat where
  "ASR_TRANSCRIPT_MAX_BYTES = 32 * 1024"

definition ASR_MAX_ARGS :: nat where
  "ASR_MAX_ARGS = 32"

definition ASR_MAX_ARG_BYTES :: nat where
  "ASR_MAX_ARG_BYTES = 4 * 1024"

section \<open>Commands\<close>

definition BRIDGE_COMMAND_MAX_BYTES :: nat where
  "BRIDGE_COMMAND_MAX_BYTES = 16 * 1024"

definition THREAD_DISCOVERY_CURSOR_MAX_BYTES :: nat where
  "THREAD_DISCOVERY_CURSOR_MAX_BYTES = 512"

definition THREAD_ADOPTION_SELECTOR_MAX_BYTES :: nat where
  "THREAD_ADOPTION_SELECTOR_MAX_BYTES = 128"

section \<open>Router and scopes\<close>

definition ROUTER_RETRY_CAPACITY :: nat where
  "ROUTER_RETRY_CAPACITY = 256"

definition ROUTER_RETRY_BYTE_BUDGET :: nat where
  "ROUTER_RETRY_BYTE_BUDGET = 8 * 1024 * 1024"

definition SCOPE_MAILBOX_CAPACITY :: nat where
  "SCOPE_MAILBOX_CAPACITY = 64"

definition SCOPE_MAILBOX_BYTE_BUDGET :: nat where
  "SCOPE_MAILBOX_BYTE_BUDGET = 8 * 1024 * 1024"

definition TURN_BATCH_MAX_MESSAGES :: nat where
  "TURN_BATCH_MAX_MESSAGES = 64"

definition TURN_BATCH_TEXT_BYTE_BUDGET :: nat where
  "TURN_BATCH_TEXT_BYTE_BUDGET = 768 * 1024"

definition PENDING_MEDIA_TTL :: duration where
  "PENDING_MEDIA_TTL = from_secs (10 * 60)"

definition PENDING_MEDIA_MAX_COUNT :: nat where
  "PENDING_MEDIA_MAX_COUNT = 16"

definition PENDING_MEDIA_MAX_METADATA_BYTES :: nat where
  "PENDING_MEDIA_MAX_METADATA_BYTES = 256 * 1024"

end
