(* ===== verification/Bridge_Commands.thy ===== *)
theory Bridge_Commands
  imports Reply_Projector Runtime_Limits
begin

text \<open>
  The command language of \<^verbatim>\<open>src/src/runtime/commands.rs\<close>: the recognised commands, their parser, the text
  a card button stands for, and the help table. The parser reads characters (whitespace is a Unicode
  property), so text is a \<open>ustring\<close> and a byte length is \<open>ulen\<close>. The JSON string parser of
  \<^verbatim>\<open>serde_json\<close> is the argument \<open>json_string\<close> of \<open>parse_command\<close>.
\<close>

section \<open>Commands and errors\<close>

datatype sandbox_mode = ReadOnly | WorkspaceWrite | DangerFullAccess

datatype config_patch =
    Model "ustring option"
  | Effort "ustring option"
  | Sandbox sandbox_mode
  | Approval ustring
  | GroupAdd ustring
  | GroupRemove ustring
  | SenderAdd ustring
  | SenderRemove ustring
  | Form "ustring option" "ustring option" "sandbox_mode option" "ustring option"

datatype bridge_command =
    New
  | Stop
  | Status
  | Resume "ustring option"
  | Cd "ustring option"
  | Threads "ustring option"
  | Adopt ustring
  | Release
  | Help
  | Info
  | Config "config_patch option" bool

datatype command_parse_error =
    TooLong
  | MissingArgument string
  | UnexpectedArgument string
  | HandoffConfirmationRequired
  | InvalidSelector
  | InvalidConfigValue

type_synonym parsed_command = "(command_parse_error, bridge_command option) result"

record command_spec =
  spec_name :: ustring
  spec_usage :: ustring
  spec_description :: ustring

definition command_requires_owner :: "bridge_command \<Rightarrow> bool" where
  "command_requires_owner command =
     (case command of
        Cd path \<Rightarrow> True
      | Threads cursor \<Rightarrow> True
      | Adopt selector \<Rightarrow> True
      | Release \<Rightarrow> True
      | Config action cancel \<Rightarrow> True
      | _ \<Rightarrow> False)"

section \<open>Text\<close>

text \<open>\<open>str::split_whitespace\<close>, \<open>str::strip_suffix\<close>, \<open>str::trim_end\<close> and \<open>str::split_once\<close>.\<close>

function split_whitespace :: "ustring \<Rightarrow> ustring list" where
  "split_whitespace s =
     (let r = dropWhile is_whitespace s in
      if r = [] then []
      else takeWhile (\<lambda>c. \<not> is_whitespace c) r # split_whitespace (dropWhile (\<lambda>c. \<not> is_whitespace c) r))"
  by pat_completeness auto
termination
proof (relation "measure length", goal_cases)
  case (2 s r)
  obtain c cs where r: "r = c # cs" using 2(2) by (meson neq_Nil_conv)
  then have "\<not> is_whitespace c" using 2 by (metis dropWhile_eq_Cons_conv)
  then have "dropWhile (\<lambda>c. \<not> is_whitespace c) r = dropWhile (\<lambda>c. \<not> is_whitespace c) cs"
    by (simp add: r)
  then have "length (dropWhile (\<lambda>c. \<not> is_whitespace c) r) < length r"
    by (simp add: r le_imp_less_Suc length_dropWhile_le)
  also have "length r \<le> length s"
    by (simp only: 2 length_dropWhile_le)
  finally show ?case by simp
qed simp

declare split_whitespace.simps [simp del]

definition strip_suffix_u :: "ustring \<Rightarrow> ustring \<Rightarrow> ustring option" where
  "strip_suffix_u suffix s =
     (if length suffix \<le> length s \<and> drop (length s - length suffix) s = suffix
      then Some (take (length s - length suffix) s) else None)"

definition trim_end :: "ustring \<Rightarrow> ustring" where
  "trim_end s = rev (dropWhile is_whitespace (rev s))"

definition split_once :: "uchar \<Rightarrow> ustring \<Rightarrow> (ustring \<times> ustring) option" where
  "split_once sep s =
     (if sep \<in> set s then Some (takeWhile (\<lambda>c. c \<noteq> sep) s, tl (dropWhile (\<lambda>c. c \<noteq> sep) s)) else None)"

definition has_ascii_control :: "ustring \<Rightarrow> bool" where
  "has_ascii_control s \<longleftrightarrow> list_ex (\<lambda>c. c < 32 \<or> c = 127) s"

section \<open>Card actions\<close>

definition command_text_from_card_action :: "ustring \<Rightarrow> ustring option \<Rightarrow> ustring option" where
  "command_text_from_card_action cmd arg =
     (if cmd = ustr ''new'' \<or> cmd = ustr ''reset'' then Some (ustr ''/new'')
      else if cmd = ustr ''stop'' then Some (ustr ''/stop'')
      else if cmd = ustr ''status'' then Some (ustr ''/status'')
      else if cmd = ustr ''help'' then Some (ustr ''/help'')
      else if cmd = ustr ''info'' then Some (ustr ''/info'')
      else if cmd = ustr ''resume'' \<and> arg = None then Some (ustr ''/resume'')
      else if (cmd = ustr ''resume'' \<or> cmd = ustr ''resume.use'') \<and> arg \<noteq> None
        then Some (ustr ''/resume use '' @ the arg)
      else if cmd = ustr ''cd'' then
        (case arg of None \<Rightarrow> Some (ustr ''/cd'') | Some path \<Rightarrow> Some (ustr ''/cd '' @ path))
      else if cmd = ustr ''config'' then Some (ustr ''/config'')
      else if cmd = ustr ''config.cancel'' then Some (ustr ''/config cancel'')
      else None)"

text \<open>
  The submitted configuration form of \<^verbatim>\<open>src/src/lark/normalize.rs\<close>: the JSON values a field can have
  (the text of a number is its decimal rendering) and the command line built from them.
\<close>

datatype form_json = FString ustring | FNumber ustring | FBool bool | FOther

definition form_field_text :: "form_json \<Rightarrow> ustring option" where
  "form_field_text value' =
     (case value' of
        FString t \<Rightarrow> Some (trim t)
      | FNumber t \<Rightarrow> Some t
      | FBool b \<Rightarrow> Some (ustr (if b then ''true'' else ''false''))
      | FOther \<Rightarrow> None)"

definition is_ascii_whitespace :: "uchar \<Rightarrow> bool" where
  "is_ascii_whitespace c \<longleftrightarrow> c = 9 \<or> c = 10 \<or> c = 12 \<or> c = 13 \<or> c = 32"

definition form_field :: "(string \<rightharpoonup> form_json) \<Rightarrow> string \<Rightarrow> ustring option" where
  "form_field form key =
     (case Option.bind (form key) form_field_text of
        None \<Rightarrow> None
      | Some value' \<Rightarrow>
          if value' = [] \<or> list_ex (\<lambda>c. is_ascii_whitespace c \<or> c < 32 \<or> c = 127) value' then None
          else Some value')"

definition form_tokens :: "(string \<rightharpoonup> form_json) \<Rightarrow> ustring list" where
  "form_tokens form =
     concat (map (\<lambda>key. case form_field form key of None \<Rightarrow> [] | Some value' \<Rightarrow> [ustr key @ 61 # value'])
       [''model'', ''effort'', ''sandbox'', ''approval''])"

definition config_command_from_form :: "(string \<rightharpoonup> form_json) option \<Rightarrow> ustring option" where
  "config_command_from_form form =
     (case form of
        None \<Rightarrow> None
      | Some form \<Rightarrow>
          let tokens = form_tokens form in
          if tokens = [] then None
          else Some (ustr ''/config'' @ 32 # ustr ''apply'' @ concat (map (\<lambda>t. 32 # t) tokens)))"

section \<open>The help table\<close>

definition spec :: "string \<Rightarrow> ustring \<Rightarrow> string \<Rightarrow> command_spec" where
  "spec name usage description =
     \<lparr>spec_name = ustr name, spec_usage = usage, spec_description = ustr description\<rparr>"

definition COMMAND_SPECS :: "command_spec list" where
  "COMMAND_SPECS =
    [spec ''/new'' (ustr ''/new'') ''start a new session in the current workspace'',
     spec ''/stop'' (ustr ''/stop'') ''interrupt the active turn'',
     spec ''/status'' (ustr ''/status'') ''show a redacted runtime status'',
     spec ''/resume'' (ustr ''/resume [use <selector>]'') ''list or restore a historical session'',
     spec ''/cd'' (ustr ''/cd [path]'') ''show or change workspace and reset the session'',
     spec ''/threads'' (ustr ''/threads [cursor]'')
       ''list persisted-thread candidates when safe adoption is available'',
     spec ''/adopt'' (ustr ''/adopt <selector> --handoff-complete'')
       ''adopt one explicitly selected thread after sequential handoff'',
     spec ''/release'' (ustr ''/release'')
       ''release an adopted thread without changing its global lifecycle'',
     spec ''/help'' (ustr ''/help'') ''list bridge commands'',
     spec ''/info'' (ustr ''/info'') ''show MCP servers, skills, workspace, and sessions'',
     spec ''/config'' (ustr ''/config [model|effort|sandbox|approval|group|sender] '' @ [8230])
       ''show or change model and allowlists in a private chat'']"

definition render_help :: ustring where
  "render_help =
     ustr ''Available commands:'' @ [10] @
     concat (map (\<lambda>s. spec_usage s @ [32, 8212, 32] @ spec_description s @ [10]) COMMAND_SPECS)"

section \<open>The parser\<close>

definition recognized_names :: "ustring list" where
  "recognized_names = map ustr
    [''/new'', ''/reset'', ''/stop'', ''/status'', ''/resume'', ''/cd'', ''/threads'', ''/adopt'',
     ''/release'', ''/help'', ''/info'', ''/config'']"

definition split_command :: "ustring \<Rightarrow> (ustring \<times> ustring) option" where
  "split_command s =
     (case s of
        [] \<Rightarrow> None
      | c # cs \<Rightarrow>
          if c \<noteq> 47 then None
          else Some (takeWhile (\<lambda>c. \<not> is_whitespace c) s, dropWhile (\<lambda>c. \<not> is_whitespace c) s))"

definition no_argument :: "ustring \<Rightarrow> string \<Rightarrow> bridge_command \<Rightarrow> parsed_command" where
  "no_argument arguments command value' =
     (if trim arguments = [] then Inr (Some value') else Inl (UnexpectedArgument command))"

definition remaining_token :: "ustring list \<Rightarrow> bool \<Rightarrow> (command_parse_error, ustring) result" where
  "remaining_token values required =
     (case values of
        [] \<Rightarrow> if required then Inl (MissingArgument ''/config'') else Inr []
      | [first] \<Rightarrow> Inr first
      | first # _ \<Rightarrow> Inl (UnexpectedArgument ''/config''))"

definition parse_sandbox_token :: "ustring \<Rightarrow> (command_parse_error, sandbox_mode) result" where
  "parse_sandbox_token value' =
     (if value' = ustr ''read-only'' then Inr ReadOnly
      else if value' = ustr ''workspace-write'' then Inr WorkspaceWrite
      else if value' = ustr ''danger-full-access'' then Inr DangerFullAccess
      else Inl InvalidConfigValue)"

definition config_patch_command :: "config_patch \<Rightarrow> bridge_command" where
  "config_patch_command action = Config (Some action) False"

text \<open>The loop of \<open>parse_config_apply\<close> with its five local variables.\<close>

fun parse_config_apply_loop ::
    "ustring option \<Rightarrow> ustring option \<Rightarrow> sandbox_mode option \<Rightarrow> ustring option \<Rightarrow> bool \<Rightarrow> ustring list \<Rightarrow> parsed_command" where
  "parse_config_apply_loop model effort sandbox approval seen [] =
     (if \<not> seen then Inl (MissingArgument ''/config'')
      else Inr (Some (config_patch_command (Form model effort sandbox approval))))"
| "parse_config_apply_loop model effort sandbox approval seen (token # rest) =
     (case split_once 61 token of
        None \<Rightarrow> Inl InvalidConfigValue
      | Some (key, value') \<Rightarrow>
          if value' = [] then Inl InvalidConfigValue
          else if key = ustr ''model'' then parse_config_apply_loop (Some value') effort sandbox approval True rest
          else if key = ustr ''effort'' then parse_config_apply_loop model (Some value') sandbox approval True rest
          else if key = ustr ''sandbox'' then
            result_bind (parse_sandbox_token value')
              (\<lambda>mode. parse_config_apply_loop model effort (Some mode) approval True rest)
          else if key = ustr ''approval'' then parse_config_apply_loop model effort sandbox (Some value') True rest
          else Inl InvalidConfigValue)"

definition parse_config_apply :: "ustring list \<Rightarrow> parsed_command" where
  "parse_config_apply values = parse_config_apply_loop None None None None False values"

definition config_allowlist_patch :: "ustring \<Rightarrow> ustring \<Rightarrow> ustring \<Rightarrow> (command_parse_error, config_patch) result" where
  "config_allowlist_patch verb op id' =
     (if verb = ustr ''group'' \<and> op = ustr ''add'' then Inr (GroupAdd id')
      else if verb = ustr ''group'' \<and> (op = ustr ''rm'' \<or> op = ustr ''remove'') then Inr (GroupRemove id')
      else if verb = ustr ''sender'' \<and> op = ustr ''add'' then Inr (SenderAdd id')
      else if verb = ustr ''sender'' \<and> (op = ustr ''rm'' \<or> op = ustr ''remove'') then Inr (SenderRemove id')
      else Inl InvalidConfigValue)"

definition parse_config :: "ustring \<Rightarrow> parsed_command" where
  "parse_config arguments =
     (let trimmed = trim arguments in
      if trimmed = [] then Inr (Some (Config None False))
      else let words = split_whitespace trimmed;
               verb = (case words of [] \<Rightarrow> [] | w # _ \<Rightarrow> w);
               values = tl words
           in
           if verb = ustr ''cancel'' then
             (if values \<noteq> [] then Inl (UnexpectedArgument ''/config'') else Inr (Some (Config None True)))
           else if verb = ustr ''model'' then
             result_bind (remaining_token values True)
               (\<lambda>name. Inr (Some (config_patch_command (Model (Some name)))))
           else if verb = ustr ''effort'' then
             result_bind (remaining_token values True)
               (\<lambda>effort. Inr (Some (config_patch_command (Effort (Some effort)))))
           else if verb = ustr ''sandbox'' then
             result_bind (remaining_token values True) (\<lambda>token.
             result_bind (parse_sandbox_token token)
               (\<lambda>sandbox. Inr (Some (config_patch_command (Sandbox sandbox)))))
           else if verb = ustr ''approval'' then
             result_bind (remaining_token values True)
               (\<lambda>approval. Inr (Some (config_patch_command (Approval approval))))
           else if verb = ustr ''group'' \<or> verb = ustr ''sender'' then
             (case values of
                [] \<Rightarrow> Inl (MissingArgument ''/config'')
              | op # rest \<Rightarrow>
                  result_bind (remaining_token rest True) (\<lambda>id'.
                  result_bind (config_allowlist_patch verb op id')
                    (\<lambda>action. Inr (Some (config_patch_command action)))))
           else if verb = ustr ''apply'' then parse_config_apply values
           else Inl (UnexpectedArgument ''/config''))"

definition checked_selector :: "ustring \<Rightarrow> (command_parse_error, ustring) result" where
  "checked_selector selector =
     (if selector = [] \<or> has_ascii_control selector then Inl InvalidSelector
      else if ulen selector > THREAD_ADOPTION_SELECTOR_MAX_BYTES then Inl TooLong
      else Inr selector)"

definition parse_resume :: "ustring \<Rightarrow> parsed_command" where
  "parse_resume arguments =
     (let trimmed = trim arguments in
      if trimmed = [] then Inr (Some (Resume None))
      else let words = split_whitespace trimmed;
               first = (case words of [] \<Rightarrow> [] | w # _ \<Rightarrow> w);
               values = tl words
           in
           result_bind
             (if first = ustr ''use'' then
                (case values of
                   [] \<Rightarrow> Inl (MissingArgument ''/resume'')
                 | selector # rest \<Rightarrow>
                     if rest \<noteq> [] then Inl (UnexpectedArgument ''/resume'') else Inr selector)
              else if values \<noteq> [] then Inl (UnexpectedArgument ''/resume'')
              else Inr first)
             (\<lambda>selector. result_map (\<lambda>s. Some (Resume (Some s))) (checked_selector selector)))"

definition parse_cd :: "ustring \<Rightarrow> parsed_command" where
  "parse_cd arguments =
     (let path = trim arguments in
      if path = [] then Inr (Some (Cd None)) else Inr (Some (Cd (Some path))))"

definition parse_threads :: "ustring \<Rightarrow> parsed_command" where
  "parse_threads arguments =
     (let values = split_whitespace arguments;
          cursor = (case values of [] \<Rightarrow> None | v # _ \<Rightarrow> Some v)
      in
      if tl values \<noteq> [] then Inl (UnexpectedArgument ''/threads'')
      else if (case cursor of None \<Rightarrow> False | Some v \<Rightarrow> ulen v > THREAD_DISCOVERY_CURSOR_MAX_BYTES) then Inl TooLong
      else Inr (Some (Threads cursor)))"

definition parse_adopt :: "(ustring \<Rightarrow> ustring option) \<Rightarrow> ustring \<Rightarrow> parsed_command" where
  "parse_adopt json_string arguments0 =
     (let arguments = trim arguments0 in
      if arguments = [] then Inl (MissingArgument ''/adopt'')
      else case strip_suffix_u (ustr ''--handoff-complete'') arguments of
        None \<Rightarrow> Inl HandoffConfirmationRequired
      | Some before_handoff \<Rightarrow>
          if \<not> (before_handoff \<noteq> [] \<and> is_whitespace (last before_handoff)) then Inl HandoffConfirmationRequired
          else let selector_source = trim_end before_handoff in
            if selector_source = [] then Inl (MissingArgument ''/adopt'')
            else result_bind
              (if hd selector_source = 34 then
                 (case json_string selector_source of None \<Rightarrow> Inl InvalidSelector | Some s \<Rightarrow> Inr s)
               else if list_ex is_whitespace selector_source then Inl InvalidSelector
               else Inr selector_source)
              (\<lambda>selector. result_map (\<lambda>s. Some (Adopt s)) (checked_selector selector)))"

definition parse_command :: "(ustring \<Rightarrow> ustring option) \<Rightarrow> ustring \<Rightarrow> parsed_command" where
  "parse_command json_string text' =
     (let trimmed = trim text' in
      case split_command trimmed of
        None \<Rightarrow> Inr None
      | Some (name, arguments) \<Rightarrow>
          if name \<notin> set recognized_names then Inr None
          else if ulen trimmed > BRIDGE_COMMAND_MAX_BYTES then Inl TooLong
          else if name = ustr ''/new'' \<or> name = ustr ''/reset'' then no_argument arguments ''/new'' New
          else if name = ustr ''/stop'' then no_argument arguments ''/stop'' Stop
          else if name = ustr ''/status'' then no_argument arguments ''/status'' Status
          else if name = ustr ''/release'' then no_argument arguments ''/release'' Release
          else if name = ustr ''/help'' then no_argument arguments ''/help'' Help
          else if name = ustr ''/info'' then no_argument arguments ''/info'' Info
          else if name = ustr ''/config'' then parse_config arguments
          else if name = ustr ''/resume'' then parse_resume arguments
          else if name = ustr ''/cd'' then parse_cd arguments
          else if name = ustr ''/threads'' then parse_threads arguments
          else if name = ustr ''/adopt'' then parse_adopt json_string arguments
          else Inr None)"

section \<open>Words and trimming\<close>

lemma trim_eq: "trim s = trim_end (dropWhile is_whitespace s)"
  by (simp add: trim_def trim_end_def)

lemma trim_end_append: "trim_end (xs @ ys) = (if trim_end ys = [] then trim_end xs else xs @ trim_end ys)"
  by (auto simp: trim_end_def dropWhile_append)

lemma trim_end_simps [simp]: "trim_end [] = []"
  "trim_end (trim_end s) = trim_end s"
  "trim_end s = [] \<longleftrightarrow> (\<forall>c\<in>set s. is_whitespace c)"
  by (simp_all add: trim_end_def dropWhile_idem)

lemma trim_end_id [simp]: "s \<noteq> [] \<Longrightarrow> \<not> is_whitespace (last s) \<Longrightarrow> trim_end s = s"
  by (cases s rule: rev_cases) (auto simp: trim_end_def)

lemma trim_end_last: "trim_end s \<noteq> [] \<Longrightarrow> \<not> is_whitespace (last (trim_end s))"
  unfolding trim_end_def by (metis hd_dropWhile last_rev rev_is_Nil_conv)

lemma trim_end_parts: "\<exists>gap. s = trim_end s @ gap \<and> (\<forall>c\<in>set gap. is_whitespace c)"
proof -
  have "s = rev (dropWhile is_whitespace (rev s)) @ rev (takeWhile is_whitespace (rev s))"
    by (metis rev_append rev_rev_ident takeWhile_dropWhile_id)
  then show ?thesis by (metis set_rev set_takeWhileD trim_end_def)
qed

lemma trim_ws [simp]: "is_whitespace c \<Longrightarrow> trim (c # s) = trim s"
  by (simp add: trim_def)

lemma trim_Cons: "\<not> is_whitespace c \<Longrightarrow> trim (c # s) = trim_end (c # s)"
  by (simp add: trim_eq)

lemma trim_Nil [simp]: "trim [] = []"
  by (simp add: trim_def)

lemma trim_eq_Nil: "trim s = [] \<longleftrightarrow> (\<forall>c\<in>set s. is_whitespace c)"
  by (auto simp: trim_eq dest: set_dropWhileD) (metis dropWhile_eq_Nil_conv hd_dropWhile list.set_sel(1))

lemma trim_append_blank: "\<forall>c\<in>set gap. is_whitespace c \<Longrightarrow> trim (s @ gap) = trim s"
proof (induction s)
  case Nil
  then show ?case by (simp add: trim_eq_Nil)
next
  case (Cons c s)
  then show ?case
    by (cases "is_whitespace c")
      (simp_all add: trim_Cons trim_end_append[of "c # s" gap, simplified])
qed

lemma trim_trim_end [simp]: "trim (trim_end s) = trim s"
  using trim_end_parts[of s] trim_append_blank by metis

lemma split_whitespace_Nil [simp]: "split_whitespace [] = []"
  by (simp add: split_whitespace.simps)

lemma split_whitespace_blank: "\<forall>c\<in>set s. is_whitespace c \<Longrightarrow> split_whitespace s = []"
  by (simp add: split_whitespace.simps)

lemma split_whitespace_ws [simp]: "is_whitespace c \<Longrightarrow> split_whitespace (c # s) = split_whitespace s"
  by (subst (1 2) split_whitespace.simps) simp

lemma split_whitespace_dropWhile [simp]: "split_whitespace (dropWhile is_whitespace s) = split_whitespace s"
  by (induction s) auto

lemma split_whitespace_word:
  assumes "w \<noteq> []" "\<forall>c\<in>set w. \<not> is_whitespace c" "rest = [] \<or> is_whitespace (hd rest)"
  shows "split_whitespace (w @ rest) = w # split_whitespace rest"
proof -
  have "dropWhile is_whitespace (w @ rest) = w @ rest"
    using assms by (cases w) auto
  moreover have "takeWhile (\<lambda>c. \<not> is_whitespace c) (w @ rest) = w"
    "dropWhile (\<lambda>c. \<not> is_whitespace c) (w @ rest) = rest"
    using assms by (cases rest; simp add: takeWhile_append dropWhile_append)+
  ultimately show ?thesis
    using assms(1) by (subst split_whitespace.simps) simp
qed

lemma split_whitespace_word_only: "w \<noteq> [] \<Longrightarrow> \<forall>c\<in>set w. \<not> is_whitespace c \<Longrightarrow> split_whitespace w = [w]"
  using split_whitespace_word[of w "[]"] by simp

lemma split_whitespace_append_blank:
  "\<forall>c\<in>set gap. is_whitespace c \<Longrightarrow> split_whitespace (s @ gap) = split_whitespace s"
proof (induction s rule: split_whitespace.induct)
  case (1 s)
  let ?r = "dropWhile is_whitespace s"
  let ?w = "takeWhile (\<lambda>c. \<not> is_whitespace c) ?r" and ?t = "dropWhile (\<lambda>c. \<not> is_whitespace c) ?r"
  show ?case
  proof (cases "?r = []")
    case True
    then show ?thesis using 1(2) by (simp add: split_whitespace_blank ball_Un)
  next
    case False
    have drop: "dropWhile is_whitespace (s @ gap) = ?r @ gap"
      using False by (metis dropWhile_append1 dropWhile_eq_Nil_conv)
    have w: "?w \<noteq> []" using False by (metis hd_dropWhile list.collapse takeWhile.simps(2) list.distinct(1))
    have hd: "?t @ gap = [] \<or> is_whitespace (hd (?t @ gap))"
      using 1(2) hd_dropWhile[of "\<lambda>c. \<not> is_whitespace c" ?r]
      by (metis append_Nil hd_append2 list.set_sel(1))
    have "split_whitespace (s @ gap) = split_whitespace (?w @ (?t @ gap))"
      by (metis append.assoc drop split_whitespace_dropWhile takeWhile_dropWhile_id)
    also have "\<dots> = ?w # split_whitespace (?t @ gap)"
      using w hd by (intro split_whitespace_word) (auto dest: set_takeWhileD)
    also have "\<dots> = split_whitespace s"
      using 1(1)[OF refl False 1(2)] False by (subst (2) split_whitespace.simps) (simp add: Let_def)
    finally show ?thesis .
  qed
qed

lemma split_whitespace_trim_end [simp]: "split_whitespace (trim_end s) = split_whitespace s"
  using trim_end_parts[of s] split_whitespace_append_blank by metis

lemma split_whitespace_trim [simp]: "split_whitespace (trim s) = split_whitespace s"
  by (simp add: trim_eq)

section \<open>What the parser recognises\<close>

definition blank :: "ustring \<Rightarrow> bool" where
  "blank s \<longleftrightarrow> list_all is_whitespace s"

definition is_word :: "ustring \<Rightarrow> bool" where
  "is_word w \<longleftrightarrow> w \<noteq> [] \<and> list_all (\<lambda>c. \<not> is_whitespace c) w"

lemma is_wordD: "is_word w \<Longrightarrow> w \<noteq> [] \<and> (\<forall>c\<in>set w. \<not> is_whitespace c)"
  by (simp add: is_word_def list_all_iff)

lemma recognized_is_word: "name \<in> set recognized_names \<Longrightarrow> is_word name \<and> hd name = 47"
  by (auto simp: recognized_names_def ustr_def is_word_def is_whitespace_def)

lemma trim_command_word:
  assumes "is_word name" "hd name = 47"
  shows "trim (name @ rest) = name @ trim_end rest"
proof -
  obtain cs where name: "name = 47 # cs" using assms by (cases name) (auto simp: is_word_def)
  have last: "\<not> is_whitespace (last name)" using assms(1) by (simp add: is_wordD)
  have "trim (name @ rest) = trim_end (name @ rest)"
    by (simp add: name trim_Cons is_whitespace_def)
  also have "\<dots> = name @ trim_end rest"
    using last assms(1) by (auto simp: trim_end_append is_wordD)
  finally show ?thesis .
qed

lemma split_command_word:
  assumes "is_word name" "hd name = 47" "rest = [] \<or> is_whitespace (hd rest)"
  shows "split_command (trim (name @ rest)) = Some (name, trim_end rest)"
proof -
  obtain cs where name: "name = 47 # cs" using assms by (cases name) (auto simp: is_word_def)
  obtain gap where "rest = trim_end rest @ gap" using trim_end_parts by blast
  then have "trim_end rest = [] \<or> is_whitespace (hd (trim_end rest))"
    using assms(3) by (metis hd_append2 append_is_Nil_conv)
  then have "takeWhile (\<lambda>c. \<not> is_whitespace c) (name @ trim_end rest) = name"
    "dropWhile (\<lambda>c. \<not> is_whitespace c) (name @ trim_end rest) = trim_end rest"
    using is_wordD[OF assms(1)]
    by (cases "trim_end rest"; simp del: trim_end_simps(3) add: takeWhile_append dropWhile_append)+
  then show ?thesis unfolding trim_command_word[OF assms(1,2)] split_command_def by (simp add: name)
qed

lemma split_command_SomeD:
  assumes "split_command (trim t) = Some (name, arguments)"
  shows "split_whitespace t = name # split_whitespace arguments" "trim t = name @ arguments" "is_word name"
    "arguments = [] \<or> is_whitespace (hd arguments)"
proof -
  obtain cs where t: "trim t = 47 # cs"
    using assms by (auto simp: split_command_def split: list.splits if_splits)
  have name: "name = takeWhile (\<lambda>c. \<not> is_whitespace c) (trim t)"
    "arguments = dropWhile (\<lambda>c. \<not> is_whitespace c) (trim t)"
    using assms t by (auto simp: split_command_def)
  show word: "is_word name"
    using name(1) t by (auto simp: is_word_def list_all_iff is_whitespace_def dest: set_takeWhileD)
  show hd: "arguments = [] \<or> is_whitespace (hd arguments)"
    using name(2) hd_dropWhile[of "\<lambda>c. \<not> is_whitespace c" "trim t"] by auto
  show eq: "trim t = name @ arguments" by (simp add: name)
  show "split_whitespace t = name # split_whitespace arguments"
    using split_whitespace_word[of name arguments] is_wordD[OF word] hd
    by (metis eq split_whitespace_trim)
qed

lemma split_command_NoneD:
  assumes "split_command (trim t) = None" "split_whitespace t = name # rest"
  shows "hd name \<noteq> 47"
proof -
  have "trim t \<noteq> []" using assms(2) by (metis list.distinct(1) split_whitespace_Nil split_whitespace_trim)
  then obtain c cs where t: "trim t = c # cs" by (cases "trim t") auto
  then have c: "c \<noteq> 47" using assms(1) by (auto simp: split_command_def)
  have nws: "\<not> is_whitespace c"
    using t trim_end_parts[of "dropWhile is_whitespace t"]
    by (metis append_Cons dropWhile_eq_Cons_conv trim_eq)
  then have "split_whitespace (c # cs) = takeWhile (\<lambda>c. \<not> is_whitespace c) (c # cs)
      # split_whitespace (dropWhile (\<lambda>c. \<not> is_whitespace c) (c # cs))"
    by (subst split_whitespace.simps) simp
  then show ?thesis using assms(2) t c nws by (metis list.sel(1) list.inject split_whitespace_trim takeWhile.simps(2))
qed

text \<open>A parser result is an error or a command with a given shape; never ordinary input.\<close>

definition produces :: "(bridge_command \<Rightarrow> bool) \<Rightarrow> parsed_command \<Rightarrow> bool" where
  "produces P r \<longleftrightarrow> (case r of Inl e \<Rightarrow> True | Inr None \<Rightarrow> False | Inr (Some c) \<Rightarrow> P c)"

lemma produces_simps [simp]: "produces P (Inl e)" "\<not> produces P (Inr None)" "produces P (Inr (Some c)) = P c"
  by (simp_all add: produces_def)

lemma produces_bind [intro]: "(\<And>v. r = Inr v \<Longrightarrow> produces P (f v)) \<Longrightarrow> produces P (result_bind r f)"
  by (cases r) auto

lemma produces_map [intro]: "(\<And>v. r = Inr v \<Longrightarrow> P (g v)) \<Longrightarrow> produces P (result_map (\<lambda>s. Some (g s)) r)"
  by (cases r) auto

lemma produces_if: "(b \<Longrightarrow> produces P r) \<Longrightarrow> (\<not> b \<Longrightarrow> produces P r') \<Longrightarrow> produces P (if b then r else r')"
  by simp

lemma list_produces:
  "produces P r \<Longrightarrow> (\<And>y ys. produces P (f y ys)) \<Longrightarrow> produces P (case xs of [] \<Rightarrow> r | y # ys \<Rightarrow> f y ys)"
  by (cases xs) auto

lemma producesD: "produces P r \<Longrightarrow> r = Inr (Some c) \<Longrightarrow> P c"
  by simp

lemma produces_mono: "produces P r \<Longrightarrow> (\<And>c. P c \<Longrightarrow> Q c) \<Longrightarrow> produces Q r"
  by (auto simp: produces_def split: sum.splits option.splits)

fun is_config :: "bridge_command \<Rightarrow> bool" where
  "is_config (Config action cancel) = (action = None \<or> \<not> cancel)"
| "is_config _ = False"

definition clean_selector :: "ustring \<Rightarrow> bool" where
  "clean_selector s \<longleftrightarrow> s \<noteq> [] \<and> \<not> has_ascii_control s \<and> ulen s \<le> THREAD_ADOPTION_SELECTOR_MAX_BYTES"

lemma checked_selector_iff: "checked_selector s = Inr s' \<longleftrightarrow> clean_selector s \<and> s' = s"
  by (auto simp: checked_selector_def clean_selector_def)

lemma no_argument_produces: "produces (\<lambda>c. c = v) (no_argument a n v)"
  by (simp add: no_argument_def)

lemma parse_config_apply_loop_produces: "produces is_config (parse_config_apply_loop m e s a seen ts)"
proof (induction ts arbitrary: m e s a seen)
  case (Cons t ts)
  then show ?case
    by (auto split: option.splits simp del: result_bind.simps)
qed (simp add: config_patch_command_def)

lemma parse_config_produces: "produces is_config (parse_config a)"
  unfolding parse_config_def Let_def parse_config_apply_def config_patch_command_def
  by (intro produces_if produces_bind list_produces) (simp_all add: parse_config_apply_loop_produces)

lemma parse_resume_produces:
  "produces (\<lambda>c. \<exists>s. c = Resume s \<and> (\<forall>x. s = Some x \<longrightarrow> clean_selector x)) (parse_resume a)"
  unfolding parse_resume_def Let_def
  by (intro produces_if produces_bind produces_map) (simp_all add: checked_selector_iff)

lemma parse_cd_produces: "produces (\<lambda>c. \<exists>p. c = Cd p) (parse_cd a)"
  by (simp add: parse_cd_def Let_def)

lemma parse_threads_produces:
  "produces (\<lambda>c. \<exists>p. c = Threads p \<and> (\<forall>x. p = Some x \<longrightarrow> ulen x \<le> THREAD_DISCOVERY_CURSOR_MAX_BYTES)) (parse_threads a)"
  by (auto simp: parse_threads_def Let_def split: option.splits list.splits)

lemma parse_adopt_produces: "produces (\<lambda>c. \<exists>s. c = Adopt s \<and> clean_selector s) (parse_adopt j a)"
  unfolding parse_adopt_def Let_def by (auto split: option.splits simp: checked_selector_iff)

lemmas parsers_produce =
  no_argument_produces parse_config_produces parse_resume_produces parse_cd_produces parse_threads_produces
  parse_adopt_produces

lemma parse_command_recognized:
  assumes "split_command (trim t) = Some (name, arguments)" "name \<in> set recognized_names"
  shows "produces (\<lambda>c. True) (parse_command j t)"
proof -
  have "produces (\<lambda>c. True) (no_argument a n v)" "produces (\<lambda>c. True) (parse_config a)"
    "produces (\<lambda>c. True) (parse_resume a)" "produces (\<lambda>c. True) (parse_cd a)"
    "produces (\<lambda>c. True) (parse_threads a)" "produces (\<lambda>c. True) (parse_adopt j a)" for a n v
    by (rule produces_mono, rule parsers_produce, simp)+
  then show ?thesis
    unfolding parse_command_def assms(1) Let_def option.case prod.case
    using assms(2) by (intro produces_if) (simp_all add: recognized_names_def)
qed

text \<open>
  Text is passed on as ordinary input exactly when its first word is not a command name:
  an unknown slash word is never an error, and a recognised command is never forwarded to the model,
  however malformed its arguments are.
\<close>

theorem ordinary_input_iff_unknown_word:
  "parse_command j t = Inr None \<longleftrightarrow> (\<nexists>name rest. split_whitespace t = name # rest \<and> name \<in> set recognized_names)"
proof (cases "split_command (trim t)")
  case None
  then have "parse_command j t = Inr None" by (simp add: parse_command_def)
  moreover have "name \<notin> set recognized_names" if "split_whitespace t = name # rest" for name rest
    using split_command_NoneD[OF None that] recognized_is_word by auto
  ultimately show ?thesis by auto
next
  case (Some p)
  then obtain name arguments where p: "split_command (trim t) = Some (name, arguments)" by (cases p) auto
  have words: "split_whitespace t = name # split_whitespace arguments" using p by (rule split_command_SomeD)
  show ?thesis
  proof (cases "name \<in> set recognized_names")
    case True
    then have "produces (\<lambda>c. True) (parse_command j t)" using p by (rule parse_command_recognized[rotated])
    then have "parse_command j t \<noteq> Inr None" by auto
    then show ?thesis using words True by auto
  next
    case False
    then show ?thesis using words p by (simp add: parse_command_def)
  qed
qed

section \<open>Card actions\<close>

lemma ustr_eq_iff [simp]: "ustr s = ustr t \<longleftrightarrow> s = t"
  unfolding ustr_def by (rule inj_eq) (rule list.inj_map, rule injI, metis char_of_char)

lemma parse_command_word:
  assumes "is_word name" "hd name = 47" "rest = [] \<or> is_whitespace (hd rest)" "name \<in> set recognized_names"
    "ulen (trim (name @ rest)) \<le> BRIDGE_COMMAND_MAX_BYTES"
  shows "parse_command j (name @ rest) =
     (if name = ustr ''/new'' \<or> name = ustr ''/reset'' then no_argument (trim_end rest) ''/new'' New
      else if name = ustr ''/stop'' then no_argument (trim_end rest) ''/stop'' Stop
      else if name = ustr ''/status'' then no_argument (trim_end rest) ''/status'' Status
      else if name = ustr ''/release'' then no_argument (trim_end rest) ''/release'' Release
      else if name = ustr ''/help'' then no_argument (trim_end rest) ''/help'' Help
      else if name = ustr ''/info'' then no_argument (trim_end rest) ''/info'' Info
      else if name = ustr ''/config'' then parse_config (trim_end rest)
      else if name = ustr ''/resume'' then parse_resume (trim_end rest)
      else if name = ustr ''/cd'' then parse_cd (trim_end rest)
      else if name = ustr ''/threads'' then parse_threads (trim_end rest)
      else if name = ustr ''/adopt'' then parse_adopt j (trim_end rest)
      else Inr None)"
  unfolding parse_command_def Let_def split_command_word[OF assms(1-3)] option.case prod.case
  using assms(4,5) by (simp only: not_less[symmetric] if_False not_True_eq_False simp_thms)

lemma parse_cd_trim_end [simp]: "parse_cd (trim_end (32 # s)) = parse_cd s"
  by (simp add: parse_cd_def is_whitespace_def)

lemma words_use: "split_whitespace (32 # ustr ''use'' @ 32 # s) = ustr ''use'' # split_whitespace s"
  using split_whitespace_word[of "ustr ''use''" "32 # s"] by (simp add: ustr_def is_whitespace_def)

lemma parse_resume_use:
  "parse_resume (trim_end (32 # ustr ''use'' @ 32 # s)) =
     (case split_whitespace s of
        [] \<Rightarrow> Inl (MissingArgument ''/resume'')
      | selector # rest \<Rightarrow>
          if rest \<noteq> [] then Inl (UnexpectedArgument ''/resume'')
          else result_map (\<lambda>s. Some (Resume (Some s))) (checked_selector selector))"
proof -
  have "trim (32 # ustr ''use'' @ 32 # s) \<noteq> []"
    by (auto simp: trim_eq_Nil ustr_def is_whitespace_def)
  then show ?thesis
    by (simp add: parse_resume_def words_use split: list.split)
qed

lemma short_commands:
  "parse_command j (ustr ''/new'') = Inr (Some New)" "parse_command j (ustr ''/stop'') = Inr (Some Stop)"
  "parse_command j (ustr ''/status'') = Inr (Some Status)" "parse_command j (ustr ''/help'') = Inr (Some Help)"
  "parse_command j (ustr ''/info'') = Inr (Some Info)" "parse_command j (ustr ''/resume'') = Inr (Some (Resume None))"
  "parse_command j (ustr ''/cd'') = Inr (Some (Cd None))" "parse_command j (ustr ''/config'') = Inr (Some (Config None False))"
  by (simp_all add: parse_command_def split_command_def recognized_names_def ustr_def trim_def is_whitespace_def
      no_argument_def parse_resume_def parse_cd_def parse_config_def len_utf8_def BRIDGE_COMMAND_MAX_BYTES_def)

lemma config_cancel_command: "parse_command j (ustr ''/config cancel'') = Inr (Some (Config None True))"
  by (simp add: parse_command_def split_command_def recognized_names_def ustr_def trim_def is_whitespace_def
      parse_config_def len_utf8_def BRIDGE_COMMAND_MAX_BYTES_def split_whitespace.simps)

text \<open>The command a card button stands for, read off its two values.\<close>

definition card_meaning :: "ustring \<Rightarrow> ustring option \<Rightarrow> parsed_command" where
  "card_meaning cmd arg =
     (if cmd = ustr ''new'' \<or> cmd = ustr ''reset'' then Inr (Some New)
      else if cmd = ustr ''stop'' then Inr (Some Stop)
      else if cmd = ustr ''status'' then Inr (Some Status)
      else if cmd = ustr ''help'' then Inr (Some Help)
      else if cmd = ustr ''info'' then Inr (Some Info)
      else if cmd = ustr ''config'' then Inr (Some (Config None False))
      else if cmd = ustr ''config.cancel'' then Inr (Some (Config None True))
      else if cmd = ustr ''cd'' then
        Inr (Some (Cd (case arg of None \<Rightarrow> None | Some path \<Rightarrow> if trim path = [] then None else Some (trim path))))
      else case arg of
        None \<Rightarrow> Inr (Some (Resume None))
      | Some text' \<Rightarrow>
          (case split_whitespace text' of
             [] \<Rightarrow> Inl (MissingArgument ''/resume'')
           | selector # rest \<Rightarrow>
               if rest \<noteq> [] then Inl (UnexpectedArgument ''/resume'')
               else if clean_selector selector then Inr (Some (Resume (Some selector)))
               else if selector = [] \<or> has_ascii_control selector then Inl InvalidSelector else Inl TooLong))"

lemma checked_selector_map:
  "result_map (\<lambda>s. Some (Resume (Some s))) (checked_selector selector) =
     (if clean_selector selector then Inr (Some (Resume (Some selector)))
      else if selector = [] \<or> has_ascii_control selector then Inl InvalidSelector else Inl TooLong)"
  by (auto simp: checked_selector_def clean_selector_def)

lemma parse_command_too_long:
  assumes "is_word name" "hd name = 47" "rest = [] \<or> is_whitespace (hd rest)" "name \<in> set recognized_names"
    "ulen (trim (name @ rest)) > BRIDGE_COMMAND_MAX_BYTES"
  shows "parse_command j (name @ rest) = Inl TooLong"
  unfolding parse_command_def Let_def split_command_word[OF assms(1-3)] option.case prod.case
  using assms(4,5) by simp

lemma argument_names:
  "is_word (ustr ''/cd'')" "is_word (ustr ''/resume'')" "ustr ''/cd'' \<in> set recognized_names"
  "ustr ''/resume'' \<in> set recognized_names" "hd (ustr ''/cd'') = 47" "hd (ustr ''/resume'') = 47"
  by (auto simp: recognized_names_def ustr_def is_word_def is_whitespace_def)

lemma parse_cd_command:
  "parse_command j (ustr ''/cd '' @ path) =
     (if ulen (trim (ustr ''/cd '' @ path)) > BRIDGE_COMMAND_MAX_BYTES then Inl TooLong else parse_cd path)"
proof -
  have split: "ustr ''/cd '' @ path = ustr ''/cd'' @ 32 # path" by (simp add: ustr_def)
  have "parse_command j (ustr ''/cd'' @ 32 # path) = parse_cd path"
    if "ulen (trim (ustr ''/cd'' @ 32 # path)) \<le> BRIDGE_COMMAND_MAX_BYTES"
    using parse_command_word[OF argument_names(1,5) _ argument_names(3) that, of j]
    by (simp add: is_whitespace_def)
  moreover have "parse_command j (ustr ''/cd'' @ 32 # path) = Inl TooLong"
    if "ulen (trim (ustr ''/cd'' @ 32 # path)) > BRIDGE_COMMAND_MAX_BYTES"
    by (rule parse_command_too_long) (use that argument_names in \<open>simp_all add: is_whitespace_def\<close>)
  ultimately show ?thesis unfolding split using not_less by (simp only: if_splits) blast
qed

lemma parse_resume_command:
  "parse_command j (ustr ''/resume use '' @ s) =
     (if ulen (trim (ustr ''/resume use '' @ s)) > BRIDGE_COMMAND_MAX_BYTES then Inl TooLong
      else parse_resume (trim_end (32 # ustr ''use'' @ 32 # s)))"
proof -
  let ?rest = "32 # ustr ''use'' @ 32 # s"
  have split: "ustr ''/resume use '' @ s = ustr ''/resume'' @ ?rest" by (simp add: ustr_def)
  have "parse_command j (ustr ''/resume'' @ ?rest) = parse_resume (trim_end ?rest)"
    if "ulen (trim (ustr ''/resume'' @ ?rest)) \<le> BRIDGE_COMMAND_MAX_BYTES"
    using parse_command_word[OF argument_names(2,6) _ argument_names(4) that, of j]
    by (simp add: is_whitespace_def)
  moreover have "parse_command j (ustr ''/resume'' @ ?rest) = Inl TooLong"
    if "ulen (trim (ustr ''/resume'' @ ?rest)) > BRIDGE_COMMAND_MAX_BYTES"
    by (rule parse_command_too_long) (use that argument_names in \<open>simp_all add: is_whitespace_def\<close>)
  ultimately show ?thesis unfolding split using not_less by (simp only: if_splits) blast
qed

lemma short_fits:
  "s \<in> set [''/new'', ''/stop'', ''/status'', ''/help'', ''/info'', ''/resume'', ''/cd'', ''/config'', ''/config cancel'']
    \<Longrightarrow> \<not> ulen (trim (ustr s)) > BRIDGE_COMMAND_MAX_BYTES"
  by (auto simp: ustr_def trim_def is_whitespace_def len_utf8_def BRIDGE_COMMAND_MAX_BYTES_def)

lemma card_action_parses:
  assumes "command_text_from_card_action cmd arg = Some text'"
  shows "parse_command j text' =
      (if ulen (trim text') > BRIDGE_COMMAND_MAX_BYTES then Inl TooLong else card_meaning cmd arg)"
proof (cases "arg \<noteq> None \<and> (cmd = ustr ''cd'' \<or> cmd = ustr ''resume'' \<or> cmd = ustr ''resume.use'')")
  case True
  then obtain a where arg: "arg = Some a" by auto
  have "parse_cd a = card_meaning (ustr ''cd'') arg"
    by (simp add: arg card_meaning_def parse_cd_def)
  moreover have "parse_resume (trim_end (32 # ustr ''use'' @ 32 # a)) = card_meaning cmd arg"
    if "cmd = ustr ''resume'' \<or> cmd = ustr ''resume.use''"
    using that by (auto simp: arg card_meaning_def parse_resume_use checked_selector_map split: list.split)
  ultimately show ?thesis
    using assms True parse_cd_command[of j a] parse_resume_command[of j a]
    by (elim conjE disjE) (simp_all add: arg command_text_from_card_action_def)
next
  case False
  then show ?thesis
    using assms unfolding command_text_from_card_action_def
    by (auto split: if_split_asm option.splits
        simp: short_commands config_cancel_command card_meaning_def short_fits)
qed

text \<open>
  C32: A button of a card (other than the submit button of the configuration form, whose text is built
  elsewhere) does what its name says. The text built from its two values is refused as too long, or parses
  to the result \<open>card_meaning\<close> gives for that name, which is the fixed command of the button, its directory
  as one path, its selector as one word, or the refusal of a selector that is missing, malformed, too long
  or followed by more words. Whether the owner check applies depends on the name alone, never on the
  argument: exactly for the directory and configuration buttons. No argument yields a thread listing, an
  adoption, a release or a change of the configuration.
\<close>

theorem card_action_means_its_command:
  assumes "command_text_from_card_action cmd arg = Some text'"
  shows "parse_command j text' =
      (if ulen (trim text') > BRIDGE_COMMAND_MAX_BYTES then Inl TooLong else card_meaning cmd arg) \<and>
    produces (\<lambda>c. (command_requires_owner c \<longleftrightarrow> cmd \<in> set (map ustr [''cd'', ''config'', ''config.cancel''])) \<and>
        c \<in> {New, Stop, Status, Help, Info, Config None False, Config None True} \<union> range Resume \<union> range Cd)
      (parse_command j text')"
proof
  show eq: "parse_command j text' =
      (if ulen (trim text') > BRIDGE_COMMAND_MAX_BYTES then Inl TooLong else card_meaning cmd arg)"
    using assms by (rule card_action_parses)
  have name: "cmd \<in> set (map ustr [''new'', ''reset'', ''stop'', ''status'', ''help'', ''info'', ''resume'', ''resume.use'', ''cd'', ''config'', ''config.cancel''])"
    using assms by (auto simp: command_text_from_card_action_def split: if_splits)
  show "produces (\<lambda>c. (command_requires_owner c \<longleftrightarrow> cmd \<in> set (map ustr [''cd'', ''config'', ''config.cancel''])) \<and>
        c \<in> {New, Stop, Status, Help, Info, Config None False, Config None True} \<union> range Resume \<union> range Cd)
      (parse_command j text')"
    unfolding eq card_meaning_def using name
    by (intro produces_if) (auto simp: command_requires_owner_def ustr_def split: option.split list.split)
qed


text \<open>A button with an argument, and one that tries to smuggle a second command in it.\<close>

theorem card_action_means_its_command_witness:
  "parse_command (\<lambda>_. None) (ustr ''/cd /srv --handoff-complete'') = Inr (Some (Cd (Some (ustr ''/srv --handoff-complete''))))"
  using card_action_means_its_command[of "ustr ''cd''" "Some (ustr ''/srv --handoff-complete'')"
      "ustr ''/cd /srv --handoff-complete''" "\<lambda>_. None"]
  by (simp add: command_text_from_card_action_def card_meaning_def ustr_def trim_def is_whitespace_def
      len_utf8_def BRIDGE_COMMAND_MAX_BYTES_def)

section \<open>Adoption\<close>

lemma adopt_comes_from_adopt:
  assumes "parse_command j t = Inr (Some (Adopt sel))"
  obtains arguments where "split_command (trim t) = Some (ustr ''/adopt'', arguments)"
    "parse_adopt j arguments = Inr (Some (Adopt sel))"
proof -
  obtain name arguments where split: "split_command (trim t) = Some (name, arguments)"
    using assms by (cases "split_command (trim t)") (auto simp: parse_command_def)
  have others: "no_argument a n v = Inr (Some (Adopt sel)) \<longrightarrow> v = Adopt sel" "parse_config a \<noteq> Inr (Some (Adopt sel))"
    "parse_resume a \<noteq> Inr (Some (Adopt sel))" "parse_cd a \<noteq> Inr (Some (Adopt sel))"
    "parse_threads a \<noteq> Inr (Some (Adopt sel))" for a n v
    using parsers_produce[THEN producesD] by fastforce+
  have "name = ustr ''/adopt'' \<and> parse_adopt j arguments = Inr (Some (Adopt sel))"
    using assms others unfolding parse_command_def split Let_def option.case prod.case
    by (auto simp del: ustr_eq_iff split: if_split_asm)
  then show ?thesis using split that by auto
qed

lemma strip_suffix_SomeD: "strip_suffix_u suffix s = Some p \<Longrightarrow> s = p @ suffix"
  by (auto simp: strip_suffix_u_def split: if_splits) (metis append_take_drop_id)

lemma parse_adopt_AdoptD:
  assumes "parse_adopt j arguments = Inr (Some (Adopt sel))"
  obtains before where "trim arguments = before @ ustr ''--handoff-complete''" "before \<noteq> []" "is_whitespace (last before)"
    "trim_end before \<noteq> []"
    "if hd (trim_end before) = 34 then j (trim_end before) = Some sel else is_word (trim_end before) \<and> sel = trim_end before"
proof -
  obtain before where before: "strip_suffix_u (ustr ''--handoff-complete'') (trim arguments) = Some before"
    using assms by (auto simp: parse_adopt_def Let_def split: if_splits option.splits)
  have guards: "before \<noteq> []" "is_whitespace (last before)" "trim_end before \<noteq> []"
    using assms before unfolding parse_adopt_def Let_def by (auto split: if_splits)
  obtain selector where "if hd (trim_end before) = 34 then j (trim_end before) = Some selector
      else is_word (trim_end before) \<and> selector = trim_end before"
    and "result_map (\<lambda>s. Some (Adopt s)) (checked_selector selector) = Inr (Some (Adopt sel))"
    using assms before guards unfolding parse_adopt_def Let_def
    by (auto simp: is_word_def list_all_iff list_ex_iff simp del: trim_end_simps(3) split: if_splits option.splits)
  moreover from this(2) have "selector = sel"
    by (cases "checked_selector selector") (auto simp: checked_selector_iff)
  ultimately show ?thesis
    using that[of before] guards strip_suffix_SomeD[OF before] by auto
qed

lemma trim_last: "trim s \<noteq> [] \<Longrightarrow> \<not> is_whitespace (last (trim s))"
  unfolding trim_eq by (rule trim_end_last)

text \<open>
  A thread is adopted only by a line that ends in the exact acknowledgement as a word of its own,
  with one selector between the command and the acknowledgement: a single word, or one JSON string. The
  selector is not empty, has no control character and is at most 128 bytes long.
\<close>

theorem adoption_needs_explicit_handoff:
  assumes "parse_command j t = Inr (Some (Adopt sel))"
  shows "clean_selector sel \<and>
    (\<exists>lead source gap. trim t = ustr ''/adopt'' @ lead @ source @ gap @ ustr ''--handoff-complete'' \<and>
       lead \<noteq> [] \<and> blank lead \<and> gap \<noteq> [] \<and> blank gap \<and> source \<noteq> [] \<and>
       (if hd source = 34 then j source = Some sel else is_word source \<and> sel = source))"
proof
  obtain arguments where split: "split_command (trim t) = Some (ustr ''/adopt'', arguments)"
    and parse: "parse_adopt j arguments = Inr (Some (Adopt sel))"
    using assms by (rule adopt_comes_from_adopt)
  show "clean_selector sel"
    using producesD[OF parse_adopt_produces parse] by auto
  obtain before where before: "trim arguments = before @ ustr ''--handoff-complete''" "before \<noteq> []"
      "is_whitespace (last before)" and source: "trim_end before \<noteq> []"
    and sel: "if hd (trim_end before) = 34 then j (trim_end before) = Some sel
      else is_word (trim_end before) \<and> sel = trim_end before"
    using parse by (rule parse_adopt_AdoptD)
  obtain gap where gap: "before = trim_end before @ gap" "\<forall>c\<in>set gap. is_whitespace c"
    using trim_end_parts by blast
  then have gap_ne: "gap \<noteq> []" using before(3) source trim_end_last by (metis append_Nil2)
  note t = split_command_SomeD[OF split]
  let ?lead = "takeWhile is_whitespace arguments" and ?core = "dropWhile is_whitespace arguments"
  have ne: "arguments \<noteq> []" "?core \<noteq> []"
    using before(1,2) by (metis append_is_Nil_conv dropWhile.simps(1) trim_end_simps(1) trim_eq)+
  have "last ?core = last (trim t)" using ne t(2) by (metis last_appendR takeWhile_dropWhile_id)
  then have "?core = before @ ustr ''--handoff-complete''"
    using ne trim_last[of t] t(2) before(1) by (metis append_is_Nil_conv trim_end_id trim_eq)
  then have "arguments = ?lead @ trim_end before @ gap @ ustr ''--handoff-complete''"
    using gap(1) by (metis append.assoc takeWhile_dropWhile_id)
  moreover have "?lead \<noteq> []" using ne(1) t(4) by (cases arguments) auto
  moreover have "blank ?lead" "blank gap" using gap(2) by (auto simp: blank_def list_all_iff dest: set_takeWhileD)
  ultimately have "trim t = ustr ''/adopt'' @ ?lead @ trim_end before @ gap @ ustr ''--handoff-complete''"
    "?lead \<noteq> [] \<and> blank ?lead \<and> gap \<noteq> [] \<and> blank gap"
    using t(2) gap_ne by simp_all
  then show "\<exists>lead source gap. trim t = ustr ''/adopt'' @ lead @ source @ gap @ ustr ''--handoff-complete'' \<and>
       lead \<noteq> [] \<and> blank lead \<and> gap \<noteq> [] \<and> blank gap \<and> source \<noteq> [] \<and>
       (if hd source = 34 then j source = Some sel else is_word source \<and> sel = source)"
    using source sel by (intro exI[of _ ?lead] exI[of _ "trim_end before"] exI[of _ gap]) simp
qed

theorem adoption_needs_explicit_handoff_witness:
  "parse_command (\<lambda>_. None) (ustr ''/adopt t1 --handoff-complete '') = Inr (Some (Adopt (ustr ''t1''))) \<and>
   clean_selector (ustr ''t1'')"
proof -
  have parse: "parse_command (\<lambda>_. None) (ustr ''/adopt t1 --handoff-complete '') = Inr (Some (Adopt (ustr ''t1'')))"
    by (simp add: parse_command_def parse_adopt_def split_command_def recognized_names_def strip_suffix_u_def ustr_def
        trim_def trim_end_def is_whitespace_def len_utf8_def BRIDGE_COMMAND_MAX_BYTES_def checked_selector_def
        has_ascii_control_def THREAD_ADOPTION_SELECTOR_MAX_BYTES_def)
  from adoption_needs_explicit_handoff[OF parse] parse show ?thesis by blast
qed

section \<open>The configuration form\<close>

lemma form_field_word:
  "form_field form key = Some v \<Longrightarrow> v \<noteq> []"
  by (auto simp: form_field_def split: option.splits if_splits)

lemma join_words:
  "list_all is_word ws \<Longrightarrow> split_whitespace (concat (map (\<lambda>t. 32 # t) ws)) = ws"
proof (induction ws)
  case (Cons w ws)
  have "split_whitespace (w @ concat (map (\<lambda>t. 32 # t) ws)) = w # split_whitespace (concat (map (\<lambda>t. 32 # t) ws))"
    using is_wordD[of w] Cons.prems by (intro split_whitespace_word) (cases ws; simp add: is_whitespace_def)+
  then show ?case using Cons by (simp add: is_whitespace_def)
qed simp

lemma join_words_end:
  "list_all is_word ws \<Longrightarrow> trim_end (concat (map (\<lambda>t. 32 # t) ws)) = concat (map (\<lambda>t. 32 # t) ws)"
proof (cases ws rule: rev_cases)
  case (snoc ys w)
  assume "list_all is_word ws"
  then have "\<not> is_whitespace (last w)" "w \<noteq> []" using snoc is_wordD by auto
  then show ?thesis using snoc by simp
qed simp

lemma split_once_key: "61 \<notin> set k \<Longrightarrow> split_once 61 (k @ 61 # v) = Some (k, v)"
proof -
  assume "61 \<notin> set k"
  then have "\<And>x. x \<in> set k \<Longrightarrow> x \<noteq> 61" by blast
  then show ?thesis by (simp add: split_once_def takeWhile_append2 dropWhile_append2)
qed

lemma form_keys: "key \<in> set [''model'', ''effort'', ''sandbox'', ''approval''] \<Longrightarrow> 61 \<notin> set (ustr key) \<and> is_word (ustr key)"
  by (auto simp: ustr_def is_word_def is_whitespace_def)

lemma form_tokens_words:
  assumes "\<And>key v. form_field form key = Some v \<Longrightarrow> is_word v"
  shows "list_all is_word (form_tokens form)"
proof -
  have "is_word (ustr key @ 61 # v)"
    if "form_field form key = Some v" "key \<in> set [''model'', ''effort'', ''sandbox'', ''approval'']" for key v
    using form_keys[OF that(2)] assms[OF that(1)] by (auto simp: is_word_def is_whitespace_def)
  then show ?thesis by (auto simp: form_tokens_def list_all_iff split: option.split)
qed

text \<open>What a submitted form asks for.\<close>

definition form_meaning :: "(string \<rightharpoonup> form_json) \<Rightarrow> parsed_command" where
  "form_meaning form =
     (let field = form_field form in
      case field ''sandbox'' of
        None \<Rightarrow> Inr (Some (Config (Some (Form (field ''model'') (field ''effort'') None (field ''approval''))) False))
      | Some token \<Rightarrow>
          result_bind (parse_sandbox_token token) (\<lambda>mode.
            Inr (Some (Config (Some (Form (field ''model'') (field ''effort'') (Some mode) (field ''approval''))) False))))"

lemma parse_form_tokens:
  assumes "form_tokens form \<noteq> []"
  shows "parse_config_apply (form_tokens form) = form_meaning form"
proof -
  note key = form_keys[THEN conjunct1, THEN split_once_key]
  have ne: "v \<noteq> []" if "form_field form k = Some v" for k v using that by (rule form_field_word)
  have sandbox: "result_bind (parse_sandbox_token t) f = result_bind (parse_sandbox_token t) g"
    if "\<And>m. f m = g m" for t :: ustring and f g :: "sandbox_mode \<Rightarrow> parsed_command"
    using that by (cases "parse_sandbox_token t") auto
  show ?thesis
    using assms
    by (cases "form_field form ''model''"; cases "form_field form ''effort''"; cases "form_field form ''sandbox''";
        cases "form_field form ''approval''")
      (simp_all add: form_tokens_def parse_config_apply_def form_meaning_def key config_patch_command_def ne
        cong: if_cong)
qed

text \<open>
  A submitted configuration form changes exactly the fields that were filled in: the command line built
  from it parses to the patch with those fields and no others, or is refused for an unknown sandbox
  mode, provided no field contains whitespace.
\<close>

theorem form_changes_only_its_fields:
  assumes "config_command_from_form (Some form) = Some text'"
    and "\<And>key v. form_field form key = Some v \<Longrightarrow> is_word v"
    and "ulen text' \<le> BRIDGE_COMMAND_MAX_BYTES"
  shows "parse_command j text' = form_meaning form"
proof -
  let ?ws = "ustr ''apply'' # form_tokens form"
  have tokens: "form_tokens form \<noteq> []"
    and line: "text' = ustr ''/config'' @ concat (map (\<lambda>t. 32 # t) ?ws)"
    using assms(1) by (auto simp: config_command_from_form_def Let_def split: if_splits)
  have name: "is_word (ustr ''/config'')" "hd (ustr ''/config'') = 47" "ustr ''/config'' \<in> set recognized_names"
    by (auto simp: recognized_names_def ustr_def is_word_def is_whitespace_def)
  have words: "list_all is_word ?ws"
    using form_tokens_words[of form] assms(2) by (simp add: is_word_def ustr_def is_whitespace_def)
  let ?rest = "concat (map (\<lambda>t. 32 # t) ?ws)"
  have trim: "trim text' = text'"
    unfolding line trim_command_word[OF name(1,2)] join_words_end[OF words] ..
  have "trim ?rest \<noteq> []" using join_words[OF words] by (metis list.distinct(1) split_whitespace_Nil split_whitespace_trim)
  then have "parse_config (trim_end ?rest) = parse_config_apply (form_tokens form)"
    unfolding parse_config_def Let_def trim_trim_end split_whitespace_trim split_whitespace_trim_end join_words[OF words]
    by simp
  moreover have "parse_command j text' = parse_config (trim_end ?rest)"
    using parse_command_word[OF name(1,2) _ name(3), of ?rest j] assms(3) trim by (simp add: line is_whitespace_def)
  ultimately show ?thesis using parse_form_tokens[OF tokens] by simp
qed

definition demo_form :: "string \<rightharpoonup> form_json" where
  "demo_form = [''model'' \<mapsto> FString (ustr ''gpt''), ''sandbox'' \<mapsto> FString (ustr ''read-only'')]"

lemma demo_form_fields:
  "form_field demo_form key = (if key = ''model'' then Some (ustr ''gpt'') else if key = ''sandbox'' then Some (ustr ''read-only'') else None)"
  by (simp add: form_field_def demo_form_def form_field_text_def ustr_def trim_def is_whitespace_def is_ascii_whitespace_def)

theorem form_changes_only_its_fields_witness:
  "parse_command (\<lambda>_. None) (ustr ''/config apply model=gpt sandbox=read-only'') =
     Inr (Some (Config (Some (Form (Some (ustr ''gpt'')) None (Some ReadOnly) None)) False))"
proof -
  have "config_command_from_form (Some demo_form) = Some (ustr ''/config apply model=gpt sandbox=read-only'')"
    by (simp add: config_command_from_form_def form_tokens_def demo_form_fields ustr_def)
  moreover have "is_word v" if "form_field demo_form key = Some v" for key v
    using that by (auto simp: demo_form_fields is_word_def ustr_def is_whitespace_def split: if_splits)
  moreover have "ulen (ustr ''/config apply model=gpt sandbox=read-only'') \<le> BRIDGE_COMMAND_MAX_BYTES"
    by (simp add: ustr_def len_utf8_def BRIDGE_COMMAND_MAX_BYTES_def)
  ultimately have "parse_command (\<lambda>_. None) (ustr ''/config apply model=gpt sandbox=read-only'') = form_meaning demo_form"
    by (rule form_changes_only_its_fields)
  then show ?thesis by (simp add: form_meaning_def demo_form_fields parse_sandbox_token_def)
qed

text \<open>
  The proviso is needed. The form filter drops fields with ASCII whitespace only, while the parser
  splits at every Unicode space: a model name with an ideographic space in it sets the sandbox mode too.
\<close>

theorem form_field_smuggles_a_setting:
  "\<exists>form text'. form ''sandbox'' = None \<and> config_command_from_form (Some form) = Some text' \<and>
     parse_command j text' =
       Inr (Some (Config (Some (Form (Some (ustr ''gpt'')) None (Some DangerFullAccess) None)) False))"
proof (intro exI conjI)
  let ?form = "[''model'' \<mapsto> FString (ustr ''gpt'' @ 12288 # ustr ''sandbox=danger-full-access'')] :: string \<rightharpoonup> form_json"
  let ?line = "ustr ''/config apply model=gpt'' @ 12288 # ustr ''sandbox=danger-full-access''"
  show "?form ''sandbox'' = None" by simp
  show "config_command_from_form (Some ?form) = Some ?line"
    by (simp add: config_command_from_form_def form_tokens_def form_field_def form_field_text_def ustr_def trim_def
        is_whitespace_def is_ascii_whitespace_def)
  show "parse_command j ?line =
       Inr (Some (Config (Some (Form (Some (ustr ''gpt'')) None (Some DangerFullAccess) None)) False))"
    by (simp add: parse_command_def split_command_def recognized_names_def ustr_def trim_def is_whitespace_def
        parse_config_def len_utf8_def BRIDGE_COMMAND_MAX_BYTES_def split_whitespace.simps parse_config_apply_def
        split_once_def parse_sandbox_token_def config_patch_command_def)
qed

text \<open>
  The help table and the parser agree: every name in the table is a recognised command, and every
  recognised name but the alias of \<^verbatim>\<open>/new\<close> is in the table.
\<close>

theorem help_lists_every_command:
  "set (map spec_name COMMAND_SPECS) = set recognized_names - {ustr ''/reset''} \<and> distinct (map spec_name COMMAND_SPECS)"
  by (auto simp: COMMAND_SPECS_def spec_def recognized_names_def)

end
