(* ===== verification/Bridge_Config.thy ===== *)
theory Bridge_Config
  imports Bridge_Commands Unicode_Text "HOL-Library.Sublist" "HOL-Library.List_Lexorder"
begin

text \<open>
  The configuration of \<^verbatim>\<open>src/src/config.rs\<close>: its sections, the static validation with the normalisation of
  the identity lists, and the resolution of relative runtime paths. Paths are Unix paths, as bytes, with
  the component semantics of \<^verbatim>\<open>std::path\<close>; the file system is the argument \<open>filesystem\<close> of the
  definitions that ask it.
\<close>

section \<open>Paths\<close>

type_synonym path = string

datatype component = RootDir | CurDir | ParentDir | Normal string

definition is_absolute :: "path \<Rightarrow> bool" where
  "is_absolute p \<longleftrightarrow> p \<noteq> [] \<and> hd p = CHR ''/''"

fun split_slash :: "string \<Rightarrow> string \<Rightarrow> string list" where
  "split_slash acc [] = [acc]"
| "split_slash acc (c # cs) = (if c = CHR ''/'' then acc # split_slash [] cs else split_slash (acc @ [c]) cs)"

definition component_of :: "string \<Rightarrow> component" where
  "component_of s = (if s = ''..'' then ParentDir else Normal s)"

definition components :: "path \<Rightarrow> component list" where
  "components p =
     (let parts = split_slash [] p;
          body = map component_of (filter (\<lambda>s. s \<noteq> [] \<and> s \<noteq> ''.'') parts)
      in if is_absolute p then RootDir # body
         else if hd parts = ''.'' then CurDir # body
         else body)"

definition path_eq :: "path \<Rightarrow> path \<Rightarrow> bool" where
  "path_eq p q \<longleftrightarrow> components p = components q"

definition path_starts_with :: "path \<Rightarrow> path \<Rightarrow> bool" where
  "path_starts_with p base \<longleftrightarrow> prefix (components base) (components p)"

definition has_parent :: "path \<Rightarrow> bool" where
  "has_parent p \<longleftrightarrow> components p \<noteq> [] \<and> components p \<noteq> [RootDir]"

definition join :: "path \<Rightarrow> path \<Rightarrow> path" where
  "join parent p =
     (if is_absolute p then p
      else if parent = [] \<or> last parent = CHR ''/'' then parent @ p
      else parent @ CHR ''/'' # p)"

text \<open>\<open>PathBuf::push\<close> of a component and \<open>PathBuf::pop\<close>, on the list of components of the buffer.\<close>

fun normalize_step :: "component list \<Rightarrow> component \<Rightarrow> component list" where
  "normalize_step normalized CurDir = normalized"
| "normalize_step normalized ParentDir =
     (if normalized = [] \<or> last normalized = RootDir then normalized else butlast normalized)"
| "normalize_step normalized RootDir = [RootDir]"
| "normalize_step normalized (Normal s) = normalized @ [Normal s]"

fun component_text :: "component \<Rightarrow> string" where
  "component_text RootDir = ''/''"
| "component_text CurDir = ''.''"
| "component_text ParentDir = ''..''"
| "component_text (Normal s) = s"

definition path_of_components :: "component list \<Rightarrow> path" where
  "path_of_components cs = foldl (\<lambda>p c. join p (component_text c)) [] cs"

definition lexical_normalize :: "path \<Rightarrow> path" where
  "lexical_normalize p = path_of_components (foldl normalize_step [] (components p))"

text \<open>\<open>Ord\<close> of \<open>Component\<close> and \<open>Path\<close>: by the constructors, then by bytes.\<close>

fun component_key :: "component \<Rightarrow> nat list" where
  "component_key RootDir = [0]"
| "component_key CurDir = [1]"
| "component_key ParentDir = [2]"
| "component_key (Normal s) = 3 # map of_char s"

definition path_key :: "path \<Rightarrow> nat list list" where
  "path_key p = map component_key (components p)"

fun dedup_paths :: "path list \<Rightarrow> path list" where
  "dedup_paths (p # q # ps) = (if path_eq p q then dedup_paths (p # ps) else p # dedup_paths (q # ps))"
| "dedup_paths ps = ps"

definition encoded_path_bytes :: "path list \<Rightarrow> nat" where
  "encoded_path_bytes paths = foldl (\<lambda>total p. sat_add_u64 total (length p)) 0 paths"

section \<open>Sections\<close>

record granular_approval_policy =
  mcp_elicitations :: bool
  rules :: bool
  sandbox_approval :: bool
  request_permissions :: bool
  skill_approval :: bool

datatype approval_policy = Named ustring | Granular granular_approval_policy

record codex_sidecar_config =
  sc_node_binary :: path
  sc_entrypoint :: path
  sc_codex_binary :: "path option"
  sc_codex_home :: "path option"
  sc_codex_arguments :: "string list"

datatype codex_backend_config =
    SpawnedStdio path "path option"
  | ProtocolSidecar codex_sidecar_config
  | ExternalEndpoint string

record workspace_policy =
  allow_roots :: "path list"
  network_access :: bool

record concurrency_config =
  active_turn_permits :: nat
  max_scope_actors :: nat

record codex_section =
  cx_backend :: codex_backend_config
  cx_model :: "ustring option"
  cx_effort :: "ustring option"
  cx_sandbox :: sandbox_mode
  cx_approval_policy :: approval_policy

record channel_section =
  ch_node_binary :: path
  ch_sidecar_entrypoint :: path

record asr_section =
  asr_command :: "path option"
  asr_args :: "string list"
  asr_ffmpeg :: path
  asr_max_duration_ms :: nat
  asr_max_transcript_bytes :: nat

record paths_section =
  pt_database :: path
  pt_attachment_cache :: path

record bridge_config =
  bc_owners :: "ustring list"
  bc_allowed_senders :: "ustring list"
  bc_allowed_groups :: "ustring list"
  bc_default_workspace :: "path option"
  bc_workspace :: workspace_policy
  bc_concurrency :: concurrency_config
  bc_codex :: codex_section
  bc_channel :: channel_section
  bc_paths :: paths_section
  bc_asr :: asr_section

datatype config_error =
    LocateConfigDirectory | ConfigRead | ConfigParse
  | EmptyOwners | InvalidOwner | TooManyOwners | OwnersTooLarge
  | InvalidSender | TooManySenders | SendersTooLarge
  | InvalidGroup | TooManyGroups | GroupsTooLarge
  | TooManyAllowRoots | AllowRootsTooLarge | InvalidAllowRoot
  | InvalidRuntimePath | InvalidDefaultWorkspace | PlatformRootsError
  | InvalidCodexBackend | InvalidCodexEffort
  | InvalidAsrCommand | TooManyAsrArgs | AsrArgsTooLarge | InvalidAsrLimit | ConfigWrite

text \<open>
  The file system: \<open>fs::canonicalize\<close>, the three outcomes of \<open>fs::metadata\<close> the code tells apart, and
  \<open>fs::read_to_string\<close>. A \<open>None\<close> of \<open>fs_canonicalize\<close> is an I/O error.
\<close>

datatype metadata = DirectoryEntry | OtherEntry | NoEntry | MetadataError

datatype file_text = FileText ustring | FileNotFound | FileError

record filesystem =
  fs_canonicalize :: "path \<Rightarrow> path option"
  fs_metadata :: "path \<Rightarrow> metadata"
  fs_read_to_string :: "path \<Rightarrow> file_text"

definition fs_is_dir :: "filesystem \<Rightarrow> path \<Rightarrow> bool option" where
  "fs_is_dir fs p =
     (case fs_metadata fs p of DirectoryEntry \<Rightarrow> Some True | OtherEntry \<Rightarrow> Some False | _ \<Rightarrow> None)"

section \<open>Identity lists\<close>

definition valid_id :: "ustring \<Rightarrow> bool" where
  "valid_id id' \<longleftrightarrow> \<not> (id' = [] \<or> trim id' \<noteq> id' \<or> list_ex is_ascii_whitespace id')"

fun retain_new :: "ustring list \<Rightarrow> ustring list \<Rightarrow> ustring list" where
  "retain_new known [] = []"
| "retain_new known (id' # ids) =
     (if id' \<in> set known then retain_new known ids else id' # retain_new (id' # known) ids)"

definition normalize_id_collection ::
    "ustring list \<Rightarrow> nat \<Rightarrow> nat \<Rightarrow> config_error \<Rightarrow> config_error \<Rightarrow> config_error \<Rightarrow> (config_error, ustring list) result" where
  "normalize_id_collection ids max_count max_bytes too_many too_large invalid =
     (if length ids > max_count then Inl too_many
      else if sum_list (map ulen ids) > max_bytes then Inl too_large
      else if list_ex (\<lambda>id'. \<not> valid_id id') ids then Inl invalid
      else Inr (retain_new [] ids))"

section \<open>Static validation\<close>

definition sidecar_validate :: "filesystem \<Rightarrow> codex_sidecar_config \<Rightarrow> bool" where
  "sidecar_validate fs c \<longleftrightarrow>
     \<not> (sc_node_binary c = [] \<or> sc_entrypoint c = [] \<or> sc_codex_binary c = Some [] \<or>
        length (sc_codex_arguments c) > 8 \<or>
        list_ex (\<lambda>a. a = [] \<or> length a > 1024 \<or> CHR 0x00 \<in> set a) (sc_codex_arguments c)) \<and>
     (case sc_codex_home c of None \<Rightarrow> True | Some home \<Rightarrow> fs_is_dir fs home = Some True)"

definition asr_validate :: "asr_section \<Rightarrow> (config_error, unit) result" where
  "asr_validate a =
     (if asr_command a = Some [] then Inl InvalidAsrCommand
      else if asr_ffmpeg a = [] then Inl InvalidAsrCommand
      else if length (asr_args a) > ASR_MAX_ARGS then Inl TooManyAsrArgs
      else if list_ex (\<lambda>arg. length arg > ASR_MAX_ARG_BYTES) (asr_args a) then Inl AsrArgsTooLarge
      else if asr_max_duration_ms a = 0 \<or> asr_max_duration_ms a > ASR_ABSOLUTE_MAX_DURATION_MS \<or>
              asr_max_transcript_bytes a = 0 \<or> asr_max_transcript_bytes a > ASR_TRANSCRIPT_MAX_BYTES
        then Inl InvalidAsrLimit
      else Inr ())"

definition is_configured :: "asr_section \<Rightarrow> bool" where
  "is_configured a \<longleftrightarrow> (case asr_command a of None \<Rightarrow> False | Some c \<Rightarrow> c \<noteq> [])"

definition validate_codex :: "filesystem \<Rightarrow> codex_section \<Rightarrow> (config_error, unit) result" where
  "validate_codex fs codex =
     (case cx_backend codex of
        ProtocolSidecar c \<Rightarrow>
          if \<not> sidecar_validate fs c then Inl InvalidCodexBackend
          else if (case cx_effort codex of None \<Rightarrow> False | Some e \<Rightarrow> trim e = []) then Inl InvalidCodexEffort
          else Inr ()
      | _ \<Rightarrow> Inl InvalidCodexBackend)"

definition validate_static :: "filesystem \<Rightarrow> bridge_config \<Rightarrow> (config_error, bridge_config) result" where
  "validate_static fs cfg =
     result_bind (normalize_id_collection (bc_owners cfg) MAX_CONFIG_OWNERS MAX_CONFIG_OWNER_BYTES
                    TooManyOwners OwnersTooLarge InvalidOwner) (\<lambda>owners.
     if owners = [] then Inl EmptyOwners else
     result_bind (normalize_id_collection (bc_allowed_senders cfg) MAX_CONFIG_ALLOWED_SENDERS
                    MAX_CONFIG_ALLOWED_SENDER_BYTES TooManySenders SendersTooLarge InvalidSender) (\<lambda>senders.
     result_bind (normalize_id_collection (bc_allowed_groups cfg) MAX_CONFIG_ALLOWED_GROUPS
                    MAX_CONFIG_ALLOWED_GROUP_BYTES TooManyGroups GroupsTooLarge InvalidGroup) (\<lambda>groups.
     if length (allow_roots (bc_workspace cfg)) > MAX_CONFIG_ALLOW_ROOTS then Inl TooManyAllowRoots
     else if sum_list (map length (allow_roots (bc_workspace cfg))) > MAX_CONFIG_ALLOW_ROOT_BYTES
       then Inl AllowRootsTooLarge
     else
     result_bind (validate_codex fs (bc_codex cfg)) (\<lambda>_.
     result_bind (asr_validate (bc_asr cfg)) (\<lambda>_.
     if ch_node_binary (bc_channel cfg) = [] \<or> ch_sidecar_entrypoint (bc_channel cfg) = []
       then Inl InvalidRuntimePath
     else Inr (cfg\<lparr>bc_owners := owners, bc_allowed_senders := senders, bc_allowed_groups := groups\<rparr>))))))"

section \<open>Runtime paths\<close>

definition resolve_relative_path :: "path \<Rightarrow> path \<Rightarrow> (config_error, path) result" where
  "resolve_relative_path parent p =
     (if \<not> is_absolute parent then Inl InvalidRuntimePath
      else if is_absolute p then Inr p
      else Inr (lexical_normalize (join parent p)))"

definition resolve_command_path :: "path \<Rightarrow> path \<Rightarrow> (config_error, path) result" where
  "resolve_command_path parent p =
     (if p = [] then Inl InvalidAsrCommand
      else if is_absolute p then Inr p
      else if length (components p) \<le> 1 then Inr p
      else resolve_relative_path parent p)"

fun resolve_optional :: "(path \<Rightarrow> (config_error, path) result) \<Rightarrow> path option \<Rightarrow> (config_error, path option) result" where
  "resolve_optional f None = Inr None"
| "resolve_optional f (Some p) = result_map Some (f p)"

fun as_backend_error :: "(config_error, 'a) result \<Rightarrow> (config_error, 'a) result" where
  "as_backend_error (Inl e) = Inl InvalidCodexBackend"
| "as_backend_error (Inr a) = Inr a"

definition resolve_backend :: "path \<Rightarrow> codex_backend_config \<Rightarrow> (config_error, codex_backend_config) result" where
  "resolve_backend parent backend =
     (case backend of
        ProtocolSidecar c \<Rightarrow>
          result_bind (as_backend_error (resolve_command_path parent (sc_node_binary c))) (\<lambda>node_binary.
          result_bind (as_backend_error (resolve_relative_path parent (sc_entrypoint c))) (\<lambda>entrypoint.
          result_bind (as_backend_error (resolve_optional (resolve_command_path parent) (sc_codex_binary c))) (\<lambda>codex_binary.
          result_bind (as_backend_error (resolve_optional (resolve_relative_path parent) (sc_codex_home c))) (\<lambda>codex_home.
          Inr (ProtocolSidecar (c\<lparr>sc_node_binary := node_binary, sc_entrypoint := entrypoint,
                                  sc_codex_binary := codex_binary, sc_codex_home := codex_home\<rparr>))))))
      | _ \<Rightarrow> Inr backend)"

text \<open>\<open>parent\<close> is the directory of the configuration file, joined to the working directory when relative.\<close>

definition resolve_runtime_paths :: "path \<Rightarrow> bridge_config \<Rightarrow> (config_error, bridge_config) result" where
  "resolve_runtime_paths parent cfg =
     result_bind (resolve_relative_path parent (pt_database (bc_paths cfg))) (\<lambda>database.
     result_bind (resolve_relative_path parent (pt_attachment_cache (bc_paths cfg))) (\<lambda>attachment_cache.
     result_bind (resolve_optional (resolve_command_path parent) (asr_command (bc_asr cfg))) (\<lambda>command.
     result_bind (resolve_command_path parent (asr_ffmpeg (bc_asr cfg))) (\<lambda>ffmpeg.
     result_bind (resolve_command_path parent (ch_node_binary (bc_channel cfg))) (\<lambda>node_binary.
     result_bind (resolve_relative_path parent (ch_sidecar_entrypoint (bc_channel cfg))) (\<lambda>entrypoint.
     result_bind (resolve_backend parent (cx_backend (bc_codex cfg))) (\<lambda>backend.
     Inr (cfg\<lparr>bc_paths := \<lparr>pt_database = database, pt_attachment_cache = attachment_cache\<rparr>,
                 bc_asr := (bc_asr cfg)\<lparr>asr_command := command, asr_ffmpeg := ffmpeg\<rparr>,
                 bc_channel := \<lparr>ch_node_binary = node_binary, ch_sidecar_entrypoint = entrypoint\<rparr>,
                 bc_codex := (bc_codex cfg)\<lparr>cx_backend := backend\<rparr>\<rparr>))))))))"

section \<open>What validation guarantees\<close>

lemma set_retain_new: "set (retain_new known ids) = set ids - set known"
  by (induction ids arbitrary: known) auto

lemma distinct_retain_new: "distinct (retain_new known ids)"
  by (induction ids arbitrary: known) (auto simp: set_retain_new)

lemma retain_new_length: "length (retain_new known ids) \<le> length ids"
  by (induction ids arbitrary: known) (auto simp: le_SucI)

lemma retain_new_bytes: "sum_list (map ulen (retain_new known ids)) \<le> sum_list (map ulen ids)"
  by (induction ids arbitrary: known) (auto simp: trans_le_add2)

lemma retain_new_id: "distinct ids \<Longrightarrow> set ids \<inter> set known = {} \<Longrightarrow> retain_new known ids = ids"
  by (induction ids arbitrary: known) auto

text \<open>An identity list the runtime may hold: distinct valid identities within both limits.\<close>

definition id_list_ok :: "nat \<Rightarrow> nat \<Rightarrow> ustring list \<Rightarrow> bool" where
  "id_list_ok max_count max_bytes ids \<longleftrightarrow>
     distinct ids \<and> list_all valid_id ids \<and> length ids \<le> max_count \<and> sum_list (map ulen ids) \<le> max_bytes"

lemma normalize_id_collection_ok:
  assumes "normalize_id_collection ids max_count max_bytes e1 e2 e3 = Inr ids'"
  shows "id_list_ok max_count max_bytes ids'" "set ids' = set ids"
proof -
  from assms have "length ids \<le> max_count" "sum_list (map ulen ids) \<le> max_bytes" "list_all valid_id ids"
    and ids': "ids' = retain_new [] ids"
    by (auto simp: normalize_id_collection_def list_ex_iff list_all_iff split: if_splits)
  then show "id_list_ok max_count max_bytes ids'" "set ids' = set ids"
    using retain_new_length[of "[]" ids] retain_new_bytes[of "[]" ids]
    by (auto simp: id_list_ok_def distinct_retain_new set_retain_new list_all_iff)
qed

lemma normalize_id_collection_idem:
  "id_list_ok max_count max_bytes ids \<Longrightarrow> normalize_id_collection ids max_count max_bytes e1 e2 e3 = Inr ids"
  by (auto simp: normalize_id_collection_def id_list_ok_def list_ex_iff list_all_iff retain_new_id)

text \<open>What the runtime relies on in a validated configuration.\<close>

definition config_static_ok :: "filesystem \<Rightarrow> bridge_config \<Rightarrow> bool" where
  "config_static_ok fs cfg \<longleftrightarrow>
     bc_owners cfg \<noteq> [] \<and> id_list_ok MAX_CONFIG_OWNERS MAX_CONFIG_OWNER_BYTES (bc_owners cfg) \<and>
     id_list_ok MAX_CONFIG_ALLOWED_SENDERS MAX_CONFIG_ALLOWED_SENDER_BYTES (bc_allowed_senders cfg) \<and>
     id_list_ok MAX_CONFIG_ALLOWED_GROUPS MAX_CONFIG_ALLOWED_GROUP_BYTES (bc_allowed_groups cfg) \<and>
     length (allow_roots (bc_workspace cfg)) \<le> MAX_CONFIG_ALLOW_ROOTS \<and>
     sum_list (map length (allow_roots (bc_workspace cfg))) \<le> MAX_CONFIG_ALLOW_ROOT_BYTES \<and>
     validate_codex fs (bc_codex cfg) = Inr () \<and> asr_validate (bc_asr cfg) = Inr () \<and>
     ch_node_binary (bc_channel cfg) \<noteq> [] \<and> ch_sidecar_entrypoint (bc_channel cfg) \<noteq> []"

lemma bind_InrD: "result_bind r f = Inr b \<Longrightarrow> \<exists>a. r = Inr a \<and> f a = Inr b"
  by (cases r) auto

text \<open>
  Static validation either refuses a configuration or returns it with every identity list
  deduplicated in its order, valid and within its limits, with at least one owner and the sidecar backend;
  an already valid configuration comes back unchanged.
\<close>

lemma validate_static_ok:
  assumes "validate_static fs cfg = Inr cfg'"
  shows "config_static_ok fs cfg'" "set (bc_owners cfg') = set (bc_owners cfg)"
    "bc_workspace cfg' = bc_workspace cfg" "bc_codex cfg' = bc_codex cfg" "bc_default_workspace cfg' = bc_default_workspace cfg"
    "bc_concurrency cfg' = bc_concurrency cfg" "bc_asr cfg' = bc_asr cfg" "bc_channel cfg' = bc_channel cfg" "bc_paths cfg' = bc_paths cfg"
    "set (bc_allowed_senders cfg') = set (bc_allowed_senders cfg)" "set (bc_allowed_groups cfg') = set (bc_allowed_groups cfg)"
proof -
  obtain owners senders groups where ids:
      "normalize_id_collection (bc_owners cfg) MAX_CONFIG_OWNERS MAX_CONFIG_OWNER_BYTES TooManyOwners OwnersTooLarge InvalidOwner = Inr owners"
      "normalize_id_collection (bc_allowed_senders cfg) MAX_CONFIG_ALLOWED_SENDERS MAX_CONFIG_ALLOWED_SENDER_BYTES
         TooManySenders SendersTooLarge InvalidSender = Inr senders"
      "normalize_id_collection (bc_allowed_groups cfg) MAX_CONFIG_ALLOWED_GROUPS MAX_CONFIG_ALLOWED_GROUP_BYTES
         TooManyGroups GroupsTooLarge InvalidGroup = Inr groups"
    and rest: "owners \<noteq> []" "length (allow_roots (bc_workspace cfg)) \<le> MAX_CONFIG_ALLOW_ROOTS"
      "sum_list (map length (allow_roots (bc_workspace cfg))) \<le> MAX_CONFIG_ALLOW_ROOT_BYTES"
      "validate_codex fs (bc_codex cfg) = Inr ()" "asr_validate (bc_asr cfg) = Inr ()"
      "ch_node_binary (bc_channel cfg) \<noteq> []" "ch_sidecar_entrypoint (bc_channel cfg) \<noteq> []"
    and cfg': "cfg' = cfg\<lparr>bc_owners := owners, bc_allowed_senders := senders, bc_allowed_groups := groups\<rparr>"
    using assms unfolding validate_static_def by (auto dest!: bind_InrD split: if_splits)
  show "config_static_ok fs cfg'" using ids[THEN normalize_id_collection_ok(1)] rest by (simp add: config_static_ok_def cfg')
  show "set (bc_owners cfg') = set (bc_owners cfg)" "set (bc_allowed_senders cfg') = set (bc_allowed_senders cfg)"
    "set (bc_allowed_groups cfg') = set (bc_allowed_groups cfg)"
    using ids[THEN normalize_id_collection_ok(2)] by (simp_all add: cfg')
qed (use assms in \<open>auto simp: validate_static_def dest!: bind_InrD split: if_splits\<close>)

lemma validate_static_idem:
  assumes "config_static_ok fs cfg" shows "validate_static fs cfg = Inr cfg"
  using assms by (auto simp: config_static_ok_def validate_static_def normalize_id_collection_idem)

end
