(* ===== verification/Access_Policy.thy ===== *)
theory Access_Policy
  imports Bridge_Config Inbound_Event
begin

text \<open>
  The access policy of \<^verbatim>\<open>src/src/runtime/policy.rs\<close>: who may talk to the bot, who may use owner commands,
  which directories may be workspaces, the fingerprint that ties a thread to a policy, and the discovery
  of the protected directories on Linux. The last part of \<^verbatim>\<open>src/src/config.rs\<close>, the validation against these
  roots, is here because the two call each other.
\<close>

section \<open>Decisions\<close>

datatype access_decision =
    Allow
  | DenyNotOwner
  | DenyNotSender
  | DenyNotGroup
  | DenyMissingMention
  | DenyOwnerCommandRequired
  | DenyWorkspace

fun rejection_kind :: "access_decision \<Rightarrow> inbound_rejection_kind option" where
  "rejection_kind Allow = None"
| "rejection_kind DenyNotOwner = Some NotOwner"
| "rejection_kind DenyNotSender = Some NotSender"
| "rejection_kind DenyNotGroup = Some NotGroup"
| "rejection_kind DenyMissingMention = Some MissingMention"
| "rejection_kind DenyOwnerCommandRequired = Some OwnerCommandRequired"
| "rejection_kind DenyWorkspace = Some Policy"

datatype workspace_rejection =
    Relative | Inaccessible | NotDirectory | FilesystemRoot | HomeRoot | SystemTree | TempTree
  | DesktopOrDownloads | OutsideAllowRoots

record platform_roots =
  home :: path
  temp_trees :: "path list"
  system_trees :: "path list"
  desktop_download_trees :: "path list"

record access_policy =
  ap_owners :: "ustring list"
  ap_allowed_senders :: "ustring list"
  ap_allowed_groups :: "ustring list"
  ap_allow_roots :: "path list"
  ap_roots :: platform_roots
  ap_sandbox :: sandbox_mode
  ap_approval_policy :: approval_policy
  ap_network_access :: bool

definition is_owner :: "access_policy \<Rightarrow> string \<Rightarrow> bool" where
  "is_owner policy sender_id = list_ex (\<lambda>owner. utf8 owner = sender_id) (ap_owners policy)"

definition is_allowed_sender :: "access_policy \<Rightarrow> string \<Rightarrow> bool" where
  "is_allowed_sender policy sender_id = list_ex (\<lambda>sender. utf8 sender = sender_id) (ap_allowed_senders policy)"

definition is_allowed_group :: "access_policy \<Rightarrow> string \<Rightarrow> bool" where
  "is_allowed_group policy chat_id = list_ex (\<lambda>group. utf8 group = chat_id) (ap_allowed_groups policy)"

definition mention_gate :: "inbound_event \<Rightarrow> access_decision" where
  "mention_gate event = (if ev_chat_type event \<noteq> P2p \<and> \<not> ev_mentions_bot event then DenyMissingMention else Allow)"

definition decide :: "access_policy \<Rightarrow> inbound_event \<Rightarrow> access_decision" where
  "decide policy event =
     (if \<not> ev_sender_is_human event then DenyNotSender
      else if is_owner policy (ev_sender_id event) then mention_gate event
      else if is_allowed_sender policy (ev_sender_id event) then mention_gate event
      else if ev_chat_type event \<noteq> P2p \<and> is_allowed_group policy (ev_chat_id event) then mention_gate event
      else if ev_chat_type event = P2p then DenyNotOwner
      else DenyNotGroup)"

definition decide_command :: "access_policy \<Rightarrow> inbound_event \<Rightarrow> access_decision" where
  "decide_command policy event =
     (if \<not> ev_sender_is_human event then DenyNotSender
      else if \<not> is_owner policy (ev_sender_id event) then DenyOwnerCommandRequired
      else mention_gate event)"

text \<open>The actor identity is the prefix \<^verbatim>\<open>lark-\<close> and 19 bytes of a SHA-256 digest in hexadecimal.\<close>

definition authorized_lark_actor :: "(string \<Rightarrow> nat list) \<Rightarrow> string \<Rightarrow> string" where
  "authorized_lark_actor sha256 sender_id =
     ''lark-'' @ concat (map (\<lambda>byte. [hex_char (byte div 16), hex_char (byte mod 16)])
       (take 19 (sha256 (''lark-codex-authorized-actor-v1'' @ [CHR 0x00] @ sender_id))))"

definition authorize_external_source ::
    "(string \<Rightarrow> nat list) \<Rightarrow> access_policy \<Rightarrow> inbound_event \<Rightarrow> (access_decision, string) result" where
  "authorize_external_source sha256 policy event =
     (let decision = decide policy event in
      if decision \<noteq> Allow then Inl decision else Inr (authorized_lark_actor sha256 (ev_sender_id event)))"

definition authorize_external_approval_recipient ::
    "(string \<Rightarrow> nat list) \<Rightarrow> access_policy \<Rightarrow> inbound_event \<Rightarrow> (access_decision, string) result" where
  "authorize_external_approval_recipient sha256 policy event =
     (let decision = decide_command policy event in
      if decision \<noteq> Allow then Inl decision else Inr (authorized_lark_actor sha256 (ev_sender_id event)))"

definition replace_allowlists :: "ustring list \<Rightarrow> ustring list \<Rightarrow> access_policy \<Rightarrow> access_policy" where
  "replace_allowlists senders groups policy = policy\<lparr>ap_allowed_senders := senders, ap_allowed_groups := groups\<rparr>"

definition replace_codex_policy :: "sandbox_mode \<Rightarrow> approval_policy \<Rightarrow> access_policy \<Rightarrow> access_policy" where
  "replace_codex_policy sandbox approval policy = policy\<lparr>ap_sandbox := sandbox, ap_approval_policy := approval\<rparr>"

section \<open>Workspaces\<close>

definition canonical_directory :: "filesystem \<Rightarrow> path \<Rightarrow> (workspace_rejection, path) result" where
  "canonical_directory fs p =
     (case fs_canonicalize fs p of
        None \<Rightarrow> Inl Inaccessible
      | Some canonical \<Rightarrow>
          (case fs_is_dir fs canonical of
             None \<Rightarrow> Inl Inaccessible
           | Some True \<Rightarrow> Inr canonical
           | Some False \<Rightarrow> Inl NotDirectory))"

definition classify_hard_deny :: "path \<Rightarrow> platform_roots \<Rightarrow> workspace_rejection option" where
  "classify_hard_deny p roots =
     (if \<not> has_parent p then Some FilesystemRoot
      else if path_eq p (home roots) then Some HomeRoot
      else if list_ex (path_starts_with p) (system_trees roots) then Some SystemTree
      else if list_ex (path_starts_with p) (temp_trees roots) then Some TempTree
      else if list_ex (path_starts_with p) (desktop_download_trees roots) then Some DesktopOrDownloads
      else None)"

definition validate_workspace :: "filesystem \<Rightarrow> access_policy \<Rightarrow> path \<Rightarrow> (workspace_rejection, path) result" where
  "validate_workspace fs policy p =
     (if \<not> is_absolute p then Inl Relative
      else case fs_canonicalize fs p of
        None \<Rightarrow> Inl Inaccessible
      | Some canonical \<Rightarrow>
          (case fs_is_dir fs canonical of
             None \<Rightarrow> Inl Inaccessible
           | Some False \<Rightarrow> Inl NotDirectory
           | Some True \<Rightarrow>
               (case classify_hard_deny canonical (ap_roots policy) of
                  Some rejection \<Rightarrow> Inl rejection
                | None \<Rightarrow>
                    if list_ex (path_starts_with canonical) (ap_allow_roots policy) then Inr canonical
                    else Inl OutsideAllowRoots)))"

section \<open>Fingerprints\<close>

fun be_bytes :: "nat \<Rightarrow> nat \<Rightarrow> nat list" where
  "be_bytes 0 n = []"
| "be_bytes (Suc k) n = be_bytes k (n div 256) @ [n mod 256]"

definition bytes_of :: "string \<Rightarrow> nat list" where
  "bytes_of s = map of_char s"

definition write_part :: "string \<Rightarrow> nat list \<Rightarrow> nat list" where
  "write_part tag value' = be_bytes 8 (length tag) @ bytes_of tag @ be_bytes 8 (length value') @ value'"

fun sandbox_tag :: "sandbox_mode \<Rightarrow> nat" where
  "sandbox_tag ReadOnly = 1"
| "sandbox_tag WorkspaceWrite = 2"
| "sandbox_tag DangerFullAccess = 3"

definition flag :: "bool \<Rightarrow> nat" where
  "flag b = (if b then 1 else 0)"

fun approval_parts :: "approval_policy \<Rightarrow> nat list" where
  "approval_parts (Named name) =
     write_part ''approval-kind'' (bytes_of ''named'') @ write_part ''approval-value'' (bytes_of (utf8 name))"
| "approval_parts (Granular g) =
     write_part ''approval-kind'' (bytes_of ''granular'') @
     write_part ''approval-value''
       [flag (mcp_elicitations g), flag (rules g), flag (sandbox_approval g), flag (request_permissions g), flag (skill_approval g)]"

text \<open>The bytes fed to the hash.\<close>

definition fingerprint_preimage :: "string \<Rightarrow> path \<Rightarrow> sandbox_mode \<Rightarrow> approval_policy \<Rightarrow> bool \<Rightarrow> nat list" where
  "fingerprint_preimage platform cwd sandbox approval network =
     write_part ''version'' (bytes_of ''lark-codex-policy-v1'') @
     write_part ''platform'' (bytes_of platform) @
     write_part ''cwd'' (bytes_of cwd) @
     write_part ''sandbox'' [sandbox_tag sandbox] @
     approval_parts approval @
     write_part ''network'' [flag network]"

definition fingerprint_v1 ::
    "(nat list \<Rightarrow> nat list) \<Rightarrow> string \<Rightarrow> path \<Rightarrow> sandbox_mode \<Rightarrow> approval_policy \<Rightarrow> bool \<Rightarrow> string" where
  "fingerprint_v1 sha256 platform cwd sandbox approval network =
     concat (map (\<lambda>byte. [hex_char (byte div 16), hex_char (byte mod 16)])
       (take 16 (sha256 (fingerprint_preimage platform cwd sandbox approval network))))"

definition fingerprint ::
    "(nat list \<Rightarrow> nat list) \<Rightarrow> string \<Rightarrow> filesystem \<Rightarrow> access_policy \<Rightarrow> path \<Rightarrow> (workspace_rejection, string) result" where
  "fingerprint sha256 platform fs policy cwd =
     result_bind (validate_workspace fs policy cwd) (\<lambda>cwd.
       Inr (fingerprint_v1 sha256 platform cwd (ap_sandbox policy) (ap_approval_policy policy) (ap_network_access policy)))"

section \<open>Protected roots\<close>

definition validate_platform_root_input_bounds :: "path list \<Rightarrow> (workspace_rejection, unit) result" where
  "validate_platform_root_input_bounds roots =
     (if length roots > MAX_PLATFORM_PROTECTED_ROOTS \<or> encoded_path_bytes roots > MAX_PLATFORM_PROTECTED_ROOT_BYTES
      then Inl Inaccessible else Inr ())"

fun canonical_directories :: "filesystem \<Rightarrow> path list \<Rightarrow> (workspace_rejection, path list) result" where
  "canonical_directories fs [] = Inr []"
| "canonical_directories fs (p # ps) =
     result_bind (canonical_directory fs p) (\<lambda>c. result_map (\<lambda>cs. c # cs) (canonical_directories fs ps))"

definition canonicalize_bounded_roots :: "filesystem \<Rightarrow> path list \<Rightarrow> (workspace_rejection, path list) result" where
  "canonicalize_bounded_roots fs roots =
     result_bind (validate_platform_root_input_bounds roots) (\<lambda>_.
     if list_ex (\<lambda>root. \<not> is_absolute root) roots then Inl Inaccessible
     else result_bind (canonical_directories fs roots) (\<lambda>canonical0.
       let canonical = dedup_paths (sort_key path_key canonical0) in
       result_bind (validate_platform_root_input_bounds canonical) (\<lambda>_. Inr canonical)))"

definition platform_roots_new ::
    "filesystem \<Rightarrow> path \<Rightarrow> path list \<Rightarrow> path list \<Rightarrow> path list \<Rightarrow> (workspace_rejection, platform_roots) result" where
  "platform_roots_new fs home' temps systems desktops =
     (if \<not> is_absolute home' then Inl Inaccessible
      else
      result_bind (canonical_directory fs home') (\<lambda>home'.
      result_bind (canonicalize_bounded_roots fs temps) (\<lambda>temps.
      result_bind (canonicalize_bounded_roots fs systems) (\<lambda>systems.
      result_bind (canonicalize_bounded_roots fs desktops) (\<lambda>desktops.
      Inr \<lparr>home = home', temp_trees = temps, system_trees = systems,
           desktop_download_trees = filter (\<lambda>root. \<not> path_eq root home') desktops\<rparr>)))))"

fun existing_directories :: "filesystem \<Rightarrow> path list \<Rightarrow> (workspace_rejection, path list) result" where
  "existing_directories fs [] = Inr []"
| "existing_directories fs (p # ps) =
     (case fs_metadata fs p of
        DirectoryEntry \<Rightarrow> result_map (\<lambda>rest. p # rest) (existing_directories fs ps)
      | OtherEntry \<Rightarrow> existing_directories fs ps
      | NoEntry \<Rightarrow> existing_directories fs ps
      | MetadataError \<Rightarrow> Inl Inaccessible)"

definition discovered_temp_trees :: "filesystem \<Rightarrow> path \<Rightarrow> (workspace_rejection, path list) result" where
  "discovered_temp_trees fs environment_temp =
     (if \<not> is_absolute environment_temp \<or> fs_metadata fs environment_temp \<noteq> DirectoryEntry then Inl Inaccessible
      else existing_directories fs [environment_temp, ''/tmp'', ''/var/tmp''])"

definition discovered_system_trees :: "filesystem \<Rightarrow> (workspace_rejection, path list) result" where
  "discovered_system_trees fs =
     (let candidates = [''/bin'', ''/boot'', ''/dev'', ''/etc'', ''/lib'', ''/lib64'', ''/proc'', ''/run'', ''/sbin'',
          ''/sys'', ''/usr'', ''/var''] in
      if list_ex (\<lambda>p. \<not> is_absolute p) candidates then Inl Inaccessible
      else existing_directories fs candidates)"

text \<open>The freedesktop file of user directories.\<close>

datatype xdg_user_directory = Unspecified | Disabled | XdgPath path

record xdg_user_directory_config =
  xdg_desktop :: xdg_user_directory
  xdg_downloads :: xdg_user_directory

definition MAX_XDG_USER_DIRS_BYTES :: nat where
  "MAX_XDG_USER_DIRS_BYTES = 16 * 1024"

fun split_char :: "uchar \<Rightarrow> ustring \<Rightarrow> ustring \<Rightarrow> ustring list" where
  "split_char sep acc [] = [acc]"
| "split_char sep acc (c # cs) = (if c = sep then acc # split_char sep [] cs else split_char sep (acc @ [c]) cs)"

text \<open>\<open>str::lines\<close>: a final line terminator adds no empty line, and a carriage return before it is dropped.\<close>

definition strip_cr :: "ustring \<Rightarrow> ustring" where
  "strip_cr line = (if line \<noteq> [] \<and> last line = 13 then butlast line else line)"

definition lines :: "ustring \<Rightarrow> ustring list" where
  "lines s =
     (let parts = split_char 10 [] s
      in map strip_cr (butlast parts) @ (if last parts = [] then [] else [last parts]))"

definition unquote :: "ustring \<Rightarrow> ustring option" where
  "unquote value' =
     (if value' \<noteq> [] \<and> hd value' = 34 then strip_suffix_u [34] (tl value') else None)"

definition xdg_line_path :: "path \<Rightarrow> ustring \<Rightarrow> (workspace_rejection, path) result" where
  "xdg_line_path home' value' =
     (if (96 \<in> set value' \<or> 36 \<in> set value') \<and> \<not> prefix (ustr ''$HOME/'') value' then Inl Inaccessible
      else if prefix (ustr ''$HOME/'') value' then
        (let relative = drop 6 value' in
         if list_ex (\<lambda>part. part = ustr ''..'') (split_char 47 [] relative) then Inl Inaccessible
         else Inr (join home' (utf8 relative)))
      else if \<not> is_absolute (utf8 value') then Inl Inaccessible
      else Inr (utf8 value'))"

definition xdg_line ::
    "path \<Rightarrow> ustring \<Rightarrow> xdg_user_directory_config \<Rightarrow> (workspace_rejection, xdg_user_directory_config) result" where
  "xdg_line home' line config' =
     (case split_once 61 line of
        None \<Rightarrow> Inr config'
      | Some (key, raw) \<Rightarrow>
          let set_directory = (\<lambda>d. if trim key = ustr ''XDG_DESKTOP_DIR'' then config'\<lparr>xdg_desktop := d\<rparr>
                                    else config'\<lparr>xdg_downloads := d\<rparr>) in
          if trim key \<noteq> ustr ''XDG_DESKTOP_DIR'' \<and> trim key \<noteq> ustr ''XDG_DOWNLOAD_DIR'' then Inr config'
          else case unquote (trim raw) of
            None \<Rightarrow> Inl Inaccessible
          | Some value' \<Rightarrow>
              if value' = ustr ''$HOME'' then Inr (set_directory Disabled)
              else result_map (\<lambda>p. set_directory (XdgPath p)) (xdg_line_path home' value'))"

fun xdg_lines ::
    "path \<Rightarrow> ustring list \<Rightarrow> xdg_user_directory_config \<Rightarrow> (workspace_rejection, xdg_user_directory_config) result" where
  "xdg_lines home' [] config' = Inr config'"
| "xdg_lines home' (line # rest) config' = result_bind (xdg_line home' line config') (xdg_lines home' rest)"

definition parse_xdg_user_directory_config :: "path \<Rightarrow> ustring \<Rightarrow> (workspace_rejection, xdg_user_directory_config) result" where
  "parse_xdg_user_directory_config home' source =
     xdg_lines home' (lines source) \<lparr>xdg_desktop = Unspecified, xdg_downloads = Unspecified\<rparr>"

definition read_xdg_user_directory_source :: "filesystem \<Rightarrow> path option \<Rightarrow> path \<Rightarrow> (workspace_rejection, ustring option) result" where
  "read_xdg_user_directory_source fs xdg_config_home home' =
     (let config_home = (case xdg_config_home of
            Some value' \<Rightarrow> if value' \<noteq> [] then value' else join home' ''.config''
          | None \<Rightarrow> join home' ''.config'') in
      if \<not> is_absolute config_home then Inl Inaccessible
      else case fs_read_to_string fs (join config_home ''user-dirs.dirs'') of
        FileNotFound \<Rightarrow> Inr None
      | FileError \<Rightarrow> Inl Inaccessible
      | FileText source \<Rightarrow>
          if ulen source > MAX_XDG_USER_DIRS_BYTES then Inl Inaccessible else Inr (Some source))"

definition xdg_trees :: "filesystem \<Rightarrow> xdg_user_directory \<Rightarrow> path \<Rightarrow> (workspace_rejection, path list) result" where
  "xdg_trees fs directory fallback =
     (case directory of
        Unspecified \<Rightarrow> existing_directories fs [fallback]
      | Disabled \<Rightarrow> Inr []
      | XdgPath p \<Rightarrow> result_map (\<lambda>c. [c]) (canonical_directory fs p))"

definition desktop_download_trees_from_xdg_source ::
    "filesystem \<Rightarrow> path \<Rightarrow> ustring option \<Rightarrow> (workspace_rejection, path list) result" where
  "desktop_download_trees_from_xdg_source fs home' source =
     result_bind
       (case source of
          None \<Rightarrow> Inr \<lparr>xdg_desktop = Unspecified, xdg_downloads = Unspecified\<rparr>
        | Some source \<Rightarrow> parse_xdg_user_directory_config home' source)
       (\<lambda>config'.
          result_bind (xdg_trees fs (xdg_desktop config') (join home' ''Desktop'')) (\<lambda>desktop.
          result_map (\<lambda>downloads. desktop @ downloads)
            (xdg_trees fs (xdg_downloads config') (join home' ''Downloads''))))"

text \<open>The environment variables \<^verbatim>\<open>HOME\<close> and \<^verbatim>\<open>XDG_CONFIG_HOME\<close> and the temporary directory are arguments.\<close>

definition platform_roots_discover ::
    "filesystem \<Rightarrow> path option \<Rightarrow> path option \<Rightarrow> path \<Rightarrow> (workspace_rejection, platform_roots) result" where
  "platform_roots_discover fs home_var xdg_config_home environment_temp =
     (case home_var of
        None \<Rightarrow> Inl Inaccessible
      | Some home' \<Rightarrow>
          if home' = [] then Inl Inaccessible
          else
          result_bind (discovered_temp_trees fs environment_temp) (\<lambda>temps.
          result_bind (result_bind (read_xdg_user_directory_source fs xdg_config_home home')
                         (desktop_download_trees_from_xdg_source fs home')) (\<lambda>desktops.
          result_bind (discovered_system_trees fs) (\<lambda>systems.
          platform_roots_new fs home' temps systems desktops))))"

section \<open>Building a policy from a configuration\<close>

definition from_prepared_config :: "bridge_config \<Rightarrow> platform_roots \<Rightarrow> access_policy" where
  "from_prepared_config cfg roots =
     \<lparr>ap_owners = bc_owners cfg, ap_allowed_senders = bc_allowed_senders cfg, ap_allowed_groups = bc_allowed_groups cfg,
      ap_allow_roots = allow_roots (bc_workspace cfg), ap_roots = roots, ap_sandbox = cx_sandbox (bc_codex cfg),
      ap_approval_policy = cx_approval_policy (bc_codex cfg), ap_network_access = network_access (bc_workspace cfg)\<rparr>"

definition validate_path_collection_bounds :: "path list \<Rightarrow> bool" where
  "validate_path_collection_bounds roots \<longleftrightarrow>
     \<not> (length roots > MAX_CONFIG_ALLOW_ROOTS \<or> encoded_path_bytes roots > MAX_CONFIG_ALLOW_ROOT_BYTES)"

fun prepare_roots :: "filesystem \<Rightarrow> platform_roots \<Rightarrow> path list \<Rightarrow> (config_error, path list) result" where
  "prepare_roots fs roots [] = Inr []"
| "prepare_roots fs roots (allow_root # rest) =
     (if \<not> is_absolute allow_root then Inl InvalidAllowRoot
      else case canonical_directory fs allow_root of
        Inl _ \<Rightarrow> Inl InvalidAllowRoot
      | Inr canonical \<Rightarrow>
          if classify_hard_deny canonical roots \<noteq> None then Inl InvalidAllowRoot
          else result_map (\<lambda>cs. canonical # cs) (prepare_roots fs roots rest))"

definition prepare_config :: "filesystem \<Rightarrow> bridge_config \<Rightarrow> platform_roots \<Rightarrow> (config_error, bridge_config) result" where
  "prepare_config fs cfg roots =
     result_bind (prepare_roots fs roots (allow_roots (bc_workspace cfg))) (\<lambda>canonical_roots0.
     let canonical_roots = dedup_paths (sort_key path_key canonical_roots0) in
     if \<not> validate_path_collection_bounds canonical_roots then Inl AllowRootsTooLarge
     else Inr (cfg\<lparr>bc_workspace := (bc_workspace cfg)\<lparr>allow_roots := canonical_roots\<rparr>\<rparr>))"

definition validate_with_platform_roots :: "filesystem \<Rightarrow> platform_roots \<Rightarrow> bridge_config \<Rightarrow> (config_error, bridge_config) result" where
  "validate_with_platform_roots fs roots cfg0 =
     result_bind (validate_static fs cfg0) (\<lambda>cfg1.
     result_bind (prepare_config fs cfg1 roots) (\<lambda>cfg2.
     case bc_default_workspace cfg2 of
       None \<Rightarrow> Inr cfg2
     | Some default_workspace \<Rightarrow>
         (case validate_workspace fs (from_prepared_config cfg2 roots) default_workspace of
            Inl _ \<Rightarrow> Inl InvalidDefaultWorkspace
          | Inr canonical \<Rightarrow> Inr (cfg2\<lparr>bc_default_workspace := Some canonical\<rparr>))))"

definition with_platform_roots :: "filesystem \<Rightarrow> bridge_config \<Rightarrow> platform_roots \<Rightarrow> (config_error, access_policy) result" where
  "with_platform_roots fs cfg roots =
     result_map (\<lambda>cfg'. from_prepared_config cfg' roots) (validate_with_platform_roots fs roots cfg)"

section \<open>Who may do what\<close>

text \<open>The access matrix, independent of the order of the checks.\<close>

definition may_talk :: "access_policy \<Rightarrow> inbound_event \<Rightarrow> bool" where
  "may_talk policy event \<longleftrightarrow>
     ev_sender_is_human event \<and> (ev_chat_type event = P2p \<or> ev_mentions_bot event) \<and>
     (ev_sender_id event \<in> utf8 ` set (ap_owners policy @ ap_allowed_senders policy) \<or>
      ev_chat_type event \<noteq> P2p \<and> ev_chat_id event \<in> utf8 ` set (ap_allowed_groups policy))"

definition may_command :: "access_policy \<Rightarrow> inbound_event \<Rightarrow> bool" where
  "may_command policy event \<longleftrightarrow>
     ev_sender_is_human event \<and> (ev_chat_type event = P2p \<or> ev_mentions_bot event) \<and>
     ev_sender_id event \<in> utf8 ` set (ap_owners policy)"

lemma is_owner_iff: "is_owner policy x \<longleftrightarrow> x \<in> utf8 ` set (ap_owners policy)"
  by (auto simp: is_owner_def list_ex_iff)

lemma is_allowed_sender_iff: "is_allowed_sender policy x \<longleftrightarrow> x \<in> utf8 ` set (ap_allowed_senders policy)"
  by (auto simp: is_allowed_sender_def list_ex_iff)

lemma is_allowed_group_iff: "is_allowed_group policy x \<longleftrightarrow> x \<in> utf8 ` set (ap_allowed_groups policy)"
  by (auto simp: is_allowed_group_def list_ex_iff)

lemmas grants_iff = is_owner_iff is_allowed_sender_iff is_allowed_group_iff

lemma decide_Allow_iff: "decide policy event = Allow \<longleftrightarrow> may_talk policy event"
  by (auto simp: decide_def may_talk_def mention_gate_def grants_iff)

lemma decide_command_Allow_iff: "decide_command policy event = Allow \<longleftrightarrow> may_command policy event"
  by (auto simp: decide_command_def may_command_def mention_gate_def grants_iff)

text \<open>
  C23: The policy admits exactly the events of the access matrix: a human sender, addressed directly or by
  mention, who is an owner, an allowed sender, or writes in an allowed group. Owner commands need an owner
  whatever the allowlists say, so the allowlists can never grant one, and whoever may command may talk. Every
  denial has a rejection kind, an admission has none.
\<close>

theorem access_matrix:
  "(decide policy event = Allow \<longleftrightarrow> may_talk policy event) \<and>
   (decide_command policy event = Allow \<longleftrightarrow> may_command policy event) \<and>
   Collect (may_command policy) \<subseteq> Collect (may_talk policy) \<and>
   decide_command (replace_allowlists senders groups policy) event = decide_command policy event \<and>
   (rejection_kind d = None \<longleftrightarrow> d = Allow)"
proof (intro conjI)
  show "Collect (may_command policy) \<subseteq> Collect (may_talk policy)"
    by (auto simp: may_talk_def may_command_def)
  show "decide_command (replace_allowlists senders groups policy) event = decide_command policy event"
    by (simp add: decide_command_def replace_allowlists_def is_owner_def)
  show "(rejection_kind d = None) = (d = Allow)" by (cases d) auto
qed (rule decide_Allow_iff decide_command_Allow_iff)+

section \<open>Which directories may be workspaces\<close>

definition under :: "path \<Rightarrow> path \<Rightarrow> bool" where
  "under p tree \<longleftrightarrow> path_starts_with p tree"

definition protected :: "platform_roots \<Rightarrow> path \<Rightarrow> bool" where
  "protected roots p \<longleftrightarrow>
     \<not> has_parent p \<or> path_eq p (home roots) \<or>
     (\<exists>tree\<in>set (system_trees roots @ temp_trees roots @ desktop_download_trees roots). under p tree)"

lemma classify_None_iff: "classify_hard_deny p roots = None \<longleftrightarrow> \<not> protected roots p"
  by (auto simp: classify_hard_deny_def protected_def under_def list_ex_iff)

lemma validate_workspace_iff:
  "validate_workspace fs policy p = Inr c \<longleftrightarrow>
     is_absolute p \<and> fs_canonicalize fs p = Some c \<and> fs_is_dir fs c = Some True \<and> \<not> protected (ap_roots policy) c \<and>
     (\<exists>root\<in>set (ap_allow_roots policy). under c root)"
  by (auto simp: validate_workspace_def classify_None_iff[symmetric] under_def list_ex_iff split: option.splits bool.splits)

lemma canonical_directory_iff:
  "canonical_directory fs p = Inr c \<longleftrightarrow> fs_canonicalize fs p = Some c \<and> fs_is_dir fs c = Some True"
  by (auto simp: canonical_directory_def split: option.splits bool.splits)

lemma under_trans: "under a b \<Longrightarrow> under b c \<Longrightarrow> under a c"
  unfolding under_def path_starts_with_def by (rule prefix_order.trans)

lemma dedup_paths_set: "set (dedup_paths ps) \<subseteq> set ps" "\<forall>p\<in>set ps. \<exists>q\<in>set (dedup_paths ps). path_eq q p"
  by (induction ps rule: dedup_paths.induct) (auto simp: path_eq_def)

lemma dedup_paths_length: "length (dedup_paths ps) \<le> length ps"
  by (induction ps rule: dedup_paths.induct) auto

lemma prepare_roots_ok:
  "prepare_roots fs roots ps = Inr cs \<Longrightarrow>
     (\<forall>c\<in>set cs. \<not> protected roots c \<and> fs_is_dir fs c = Some True \<and> (\<exists>p\<in>set ps. fs_canonicalize fs p = Some c))"
proof (induction ps arbitrary: cs)
  case (Cons p ps)
  then obtain c cs' where "canonical_directory fs p = Inr c" "classify_hard_deny c roots = None"
    "prepare_roots fs roots ps = Inr cs'" "cs = c # cs'"
    by (auto split: if_splits sum.splits elim!: result_map.elims)
  then show ?case using Cons.IH by (auto simp: canonical_directory_iff classify_None_iff)
qed simp

lemma prepare_config_ok:
  assumes "prepare_config fs cfg roots = Inr cfg'"
  shows "\<forall>root\<in>set (allow_roots (bc_workspace cfg')). \<not> protected roots root \<and> fs_is_dir fs root = Some True \<and>
      (\<exists>p\<in>set (allow_roots (bc_workspace cfg)). fs_canonicalize fs p = Some root)"
    and "cfg' = cfg\<lparr>bc_workspace := (bc_workspace cfg)\<lparr>allow_roots := allow_roots (bc_workspace cfg')\<rparr>\<rparr>"
    and "validate_path_collection_bounds (allow_roots (bc_workspace cfg'))"
proof -
  obtain cs where "prepare_roots fs roots (allow_roots (bc_workspace cfg)) = Inr cs"
    and cfg': "cfg' = cfg\<lparr>bc_workspace := (bc_workspace cfg)\<lparr>allow_roots := dedup_paths (sort_key path_key cs)\<rparr>\<rparr>"
    and bounds: "validate_path_collection_bounds (dedup_paths (sort_key path_key cs))"
    using assms by (auto simp: prepare_config_def Let_def dest!: bind_InrD split: if_splits)
  moreover have "set (dedup_paths (sort_key path_key cs)) \<subseteq> set cs"
    using dedup_paths_set(1)[of "sort_key path_key cs"] by simp
  ultimately show "\<forall>root\<in>set (allow_roots (bc_workspace cfg')). \<not> protected roots root \<and> fs_is_dir fs root = Some True \<and>
      (\<exists>p\<in>set (allow_roots (bc_workspace cfg)). fs_canonicalize fs p = Some root)"
    using prepare_roots_ok by auto
  show "cfg' = cfg\<lparr>bc_workspace := (bc_workspace cfg)\<lparr>allow_roots := allow_roots (bc_workspace cfg')\<rparr>\<rparr>"
    "validate_path_collection_bounds (allow_roots (bc_workspace cfg'))"
    using cfg' bounds by simp_all
qed

lemma validate_with_platform_rootsD:
  assumes "validate_with_platform_roots fs roots cfg = Inr cfg'"
  obtains cfg1 cfg2 where "validate_static fs cfg = Inr cfg1" "prepare_config fs cfg1 roots = Inr cfg2"
    "cfg' = cfg2\<lparr>bc_default_workspace := bc_default_workspace cfg'\<rparr>"
proof -
  obtain cfg1 where static: "validate_static fs cfg = Inr cfg1"
    and rest: "result_bind (prepare_config fs cfg1 roots) (\<lambda>cfg2.
     case bc_default_workspace cfg2 of
       None \<Rightarrow> Inr cfg2
     | Some default_workspace \<Rightarrow>
         (case validate_workspace fs (from_prepared_config cfg2 roots) default_workspace of
            Inl _ \<Rightarrow> Inl InvalidDefaultWorkspace
          | Inr canonical \<Rightarrow> Inr (cfg2\<lparr>bc_default_workspace := Some canonical\<rparr>))) = Inr cfg'"
    using assms by (auto simp: validate_with_platform_roots_def dest!: bind_InrD)
  from bind_InrD[OF rest] obtain cfg2 where prepared: "prepare_config fs cfg1 roots = Inr cfg2"
    and last: "(case bc_default_workspace cfg2 of
       None \<Rightarrow> Inr cfg2
     | Some default_workspace \<Rightarrow>
         (case validate_workspace fs (from_prepared_config cfg2 roots) default_workspace of
            Inl _ \<Rightarrow> Inl InvalidDefaultWorkspace
          | Inr canonical \<Rightarrow> Inr (cfg2\<lparr>bc_default_workspace := Some canonical\<rparr>))) = Inr cfg'"
    by blast
  have "cfg' = cfg2 \<or> (\<exists>w. cfg' = cfg2\<lparr>bc_default_workspace := w\<rparr>)"
  proof (cases "bc_default_workspace cfg2")
    case (Some w)
    then show ?thesis using last by (cases "validate_workspace fs (from_prepared_config cfg2 roots) w") auto
  qed (use last in simp)
  then show ?thesis using that static prepared by auto
qed

lemma prepared_fields:
  assumes "prepare_config fs cfg roots = Inr cfg'"
  shows "bc_owners cfg' = bc_owners cfg" "bc_allowed_senders cfg' = bc_allowed_senders cfg"
    "bc_allowed_groups cfg' = bc_allowed_groups cfg" "bc_codex cfg' = bc_codex cfg" "bc_asr cfg' = bc_asr cfg"
    "bc_channel cfg' = bc_channel cfg" "bc_concurrency cfg' = bc_concurrency cfg" "bc_paths cfg' = bc_paths cfg"
    "network_access (bc_workspace cfg') = network_access (bc_workspace cfg)"
  using assms by (auto simp: prepare_config_def Let_def dest!: bind_InrD split: if_splits)

lemma with_platform_roots_ok:
  assumes "with_platform_roots fs cfg roots = Inr policy"
  shows "ap_roots policy = roots"
    "\<forall>root\<in>set (ap_allow_roots policy). \<not> protected roots root \<and>
       (\<exists>p\<in>set (allow_roots (bc_workspace cfg)). fs_canonicalize fs p = Some root)"
    "set (ap_owners policy) = set (bc_owners cfg)"
proof -
  obtain cfg' where valid: "validate_with_platform_roots fs roots cfg = Inr cfg'"
    and policy: "policy = from_prepared_config cfg' roots"
    using assms by (auto simp: with_platform_roots_def elim!: result_map.elims)
  obtain cfg1 cfg2 where static: "validate_static fs cfg = Inr cfg1"
    and prepared: "prepare_config fs cfg1 roots = Inr cfg2" and cfg': "cfg' = cfg2\<lparr>bc_default_workspace := bc_default_workspace cfg'\<rparr>"
    using valid by (rule validate_with_platform_rootsD)
  have roots: "ap_allow_roots policy = allow_roots (bc_workspace cfg2)" "ap_owners policy = bc_owners cfg2" "ap_roots policy = roots"
    using cfg' unfolding policy from_prepared_config_def
    by (metis access_policy.select_convs bridge_config.select_convs(1,5) bridge_config.surjective bridge_config.update_convs(4))+
  show "ap_roots policy = roots" by (rule roots)
  show "\<forall>root\<in>set (ap_allow_roots policy). \<not> protected roots root \<and>
       (\<exists>p\<in>set (allow_roots (bc_workspace cfg)). fs_canonicalize fs p = Some root)"
    using prepare_config_ok(1)[OF prepared] validate_static_ok(3)[OF static] by (simp add: roots)
  show "set (ap_owners policy) = set (bc_owners cfg)"
    using validate_static_ok(2)[OF static] prepared_fields(1)[OF prepared] by (simp add: roots)
qed

text \<open>
  C24: A workspace that a policy built from a configuration accepts, at any later state of the file system, is a
  directory inside the canonical form of an allow root of that configuration, is not the file system root or
  the home directory, and lies in no protected tree; nor does the allow root. Checking the accepted
  directory again gives it back, so a repeated check before each use detects every change. \<open>fs'\<close> is only
  assumed to return absolute canonical paths that canonicalize to themselves.
\<close>

theorem workspaces_are_confined:
  assumes "with_platform_roots fs cfg roots = Inr policy"
    and "validate_workspace fs' policy p = Inr c"
    and "\<forall>q d. fs_canonicalize fs' q = Some d \<longrightarrow> is_absolute d \<and> fs_canonicalize fs' d = Some d"
  shows "\<not> protected roots c \<and>
    (\<exists>root\<in>set (allow_roots (bc_workspace cfg)). \<exists>r. fs_canonicalize fs root = Some r \<and> \<not> protected roots r \<and> under c r) \<and>
    validate_workspace fs' policy c = Inr c"
  using with_platform_roots_ok[OF assms(1)] assms(2,3) unfolding validate_workspace_iff by blast

definition demo_fs :: filesystem where
  "demo_fs = \<lparr>fs_canonicalize = (\<lambda>p. if p = ''/srv/link'' then Some ''/srv/app'' else if is_absolute p then Some p else None),
     fs_metadata = (\<lambda>p. DirectoryEntry), fs_read_to_string = (\<lambda>p. FileNotFound)\<rparr>"

definition demo_roots :: platform_roots where
  "demo_roots = \<lparr>home = ''/home/u'', temp_trees = [''/tmp''], system_trees = [''/etc'', ''/usr''], desktop_download_trees = []\<rparr>"

definition demo_config :: bridge_config where
  "demo_config =
     \<lparr>bc_owners = [ustr ''ou_o'', ustr ''ou_o''], bc_allowed_senders = [], bc_allowed_groups = [ustr ''oc_g''],
      bc_default_workspace = Some ''/srv/app'', bc_workspace = \<lparr>allow_roots = [''/srv''], network_access = False\<rparr>,
      bc_concurrency = \<lparr>active_turn_permits = 4, max_scope_actors = 256\<rparr>,
      bc_codex = \<lparr>cx_backend = ProtocolSidecar \<lparr>sc_node_binary = ''node'', sc_entrypoint = ''index.cjs'', sc_codex_binary = None,
          sc_codex_home = None, sc_codex_arguments = []\<rparr>, cx_model = None, cx_effort = None, cx_sandbox = WorkspaceWrite,
          cx_approval_policy = Named (ustr ''never'')\<rparr>,
      bc_channel = \<lparr>ch_node_binary = ''node'', ch_sidecar_entrypoint = ''index.cjs''\<rparr>,
      bc_paths = \<lparr>pt_database = ''b.sqlite3'', pt_attachment_cache = ''attachments''\<rparr>,
      bc_asr = \<lparr>asr_command = None, asr_args = [], asr_ffmpeg = ''ffmpeg'', asr_max_duration_ms = 1000, asr_max_transcript_bytes = 1000\<rparr>\<rparr>"

lemmas config_limits =
  MAX_CONFIG_OWNERS_def MAX_CONFIG_OWNER_BYTES_def MAX_CONFIG_ALLOW_ROOTS_def MAX_CONFIG_ALLOW_ROOT_BYTES_def
  MAX_CONFIG_ALLOWED_SENDERS_def MAX_CONFIG_ALLOWED_SENDER_BYTES_def MAX_CONFIG_ALLOWED_GROUPS_def
  MAX_CONFIG_ALLOWED_GROUP_BYTES_def ASR_MAX_ARGS_def ASR_MAX_ARG_BYTES_def ASR_ABSOLUTE_MAX_DURATION_MS_def
  ASR_MAX_DURATION_MS_def ASR_TRANSCRIPT_MAX_BYTES_def

lemmas path_defs = components_def is_absolute_def component_of_def path_eq_def path_starts_with_def has_parent_def

lemma demo_static: "validate_static demo_fs demo_config = Inr (demo_config\<lparr>bc_owners := [ustr ''ou_o'']\<rparr>)"
  by (simp add: validate_static_def demo_config_def normalize_id_collection_def config_limits valid_id_def ustr_def trim_def
      is_whitespace_def is_ascii_whitespace_def len_utf8_def validate_codex_def sidecar_validate_def asr_validate_def)

lemma demo_policy:
  "with_platform_roots demo_fs demo_config demo_roots = Inr (from_prepared_config (demo_config\<lparr>bc_owners := [ustr ''ou_o'']\<rparr>) demo_roots)"
  by (simp add: with_platform_roots_def validate_with_platform_roots_def demo_static prepare_config_def)
    (simp add: demo_config_def demo_fs_def demo_roots_def canonical_directory_def fs_is_dir_def classify_hard_deny_def path_defs
      validate_path_collection_bounds_def encoded_path_bytes_def sat_add_u64_def u64_max_def config_limits validate_workspace_def
      from_prepared_config_def)

theorem workspaces_are_confined_witness:
  "validate_workspace demo_fs (from_prepared_config (demo_config\<lparr>bc_owners := [ustr ''ou_o'']\<rparr>) demo_roots) ''/srv/app'' = Inr ''/srv/app''"
proof -
  have "validate_workspace demo_fs (from_prepared_config (demo_config\<lparr>bc_owners := [ustr ''ou_o'']\<rparr>) demo_roots) ''/srv/link'' = Inr ''/srv/app''"
    by (simp add: validate_workspace_def demo_fs_def fs_is_dir_def classify_hard_deny_def path_defs demo_roots_def
        from_prepared_config_def demo_config_def)
  moreover have "\<forall>q d. fs_canonicalize demo_fs q = Some d \<longrightarrow> is_absolute d \<and> fs_canonicalize demo_fs d = Some d"
    by (auto simp: demo_fs_def is_absolute_def)
  ultimately show ?thesis using workspaces_are_confined[OF demo_policy] by blast
qed

section \<open>Fingerprints determine the policy\<close>

lemma length_be_bytes [simp]: "length (be_bytes k n) = k"
  by (induction k arbitrary: n) auto

lemma be_bytes_inj: "be_bytes k n = be_bytes k m \<Longrightarrow> n < 256 ^ k \<Longrightarrow> m < 256 ^ k \<Longrightarrow> n = m"
proof (induction k arbitrary: n m)
  case (Suc k)
  then have "n div 256 = m div 256" "n mod 256 = m mod 256"
    by (auto simp: less_mult_imp_div_less mult.commute)
  then show ?case by (metis div_mult_mod_eq)
qed simp

lemma write_part_inj:
  assumes "write_part tag v @ r = write_part tag v' @ r'" "length v < 2 ^ 64" "length v' < 2 ^ 64"
  shows "v = v' \<and> r = r'"
proof -
  have "be_bytes 8 (length v) @ v @ r = be_bytes 8 (length v') @ v' @ r'"
    using assms(1) by (simp add: write_part_def)
  then have eq: "be_bytes 8 (length v) = be_bytes 8 (length v')" "v @ r = v' @ r'"
    by (simp_all add: append_eq_append_conv)
  moreover have "(2::nat) ^ 64 = 256 ^ 8" by simp
  ultimately have "length v = length v'" using be_bytes_inj assms(2,3) by metis
  then show ?thesis using eq(2) by simp
qed

lemma bytes_of_inj [simp]: "bytes_of s = bytes_of t \<longleftrightarrow> s = t"
  unfolding bytes_of_def by (rule inj_eq) (rule list.inj_map, rule injI, metis char_of_char)

lemma length_bytes_of [simp]: "length (bytes_of s) = length s"
  by (simp add: bytes_of_def)

lemma flag_inj [simp]: "flag a = flag b \<longleftrightarrow> a = b"
  by (simp add: flag_def)

lemma sandbox_tag_inj [simp]: "sandbox_tag a = sandbox_tag b \<longleftrightarrow> a = b"
  by (cases a; cases b) auto

fun approval_ok :: "approval_policy \<Rightarrow> bool" where
  "approval_ok (Named name) = (unicode name \<and> length (utf8 name) < 2 ^ 64)"
| "approval_ok (Granular g) = True"

lemma approval_parts_inj:
  assumes "approval_parts a @ r = approval_parts b @ r'" "approval_ok a" "approval_ok b"
  shows "a = b \<and> r = r'"
proof (cases a; cases b)
  fix n m assume ab: "a = Named n" "b = Named m"
  then have "write_part ''approval-value'' (bytes_of (utf8 n)) @ r = write_part ''approval-value'' (bytes_of (utf8 m)) @ r'"
    using assms(1) by simp
  from write_part_inj[OF this] show ?thesis using assms(2,3) ab utf8_inj by auto
next
  fix g h assume ab: "a = Granular g" "b = Granular h"
  then have "write_part ''approval-value'' [flag (mcp_elicitations g), flag (rules g), flag (sandbox_approval g), flag (request_permissions g), flag (skill_approval g)] @ r =
      write_part ''approval-value'' [flag (mcp_elicitations h), flag (rules h), flag (sandbox_approval h), flag (request_permissions h), flag (skill_approval h)] @ r'"
    using assms(1) by simp
  from write_part_inj[OF this] show ?thesis using ab by simp
next
  fix n g assume ab: "a = Named n" "b = Granular g"
  obtain x y where "write_part ''approval-kind'' (bytes_of ''named'') @ x = write_part ''approval-kind'' (bytes_of ''granular'') @ y"
    using assms(1) ab by auto
  from write_part_inj[OF this] show ?thesis by simp
next
  fix n g assume ab: "a = Granular g" "b = Named n"
  obtain x y where "write_part ''approval-kind'' (bytes_of ''granular'') @ x = write_part ''approval-kind'' (bytes_of ''named'') @ y"
    using assms(1) ab by auto
  from write_part_inj[OF this] show ?thesis by simp
qed

text \<open>
  The bytes hashed into a policy fingerprint determine the platform, the working directory, the sandbox
  mode, the approval policy and the network flag. A thread is therefore reused under another policy only if
  SHA-256 collides on its first 16 bytes.
\<close>

theorem fingerprint_determines_policy:
  assumes "fingerprint_preimage platform cwd sandbox approval network = fingerprint_preimage platform' cwd' sandbox' approval' network'"
    and "length platform < 2 ^ 64" "length platform' < 2 ^ 64" "length cwd < 2 ^ 64" "length cwd' < 2 ^ 64"
    and "approval_ok approval" "approval_ok approval'"
  shows "platform = platform' \<and> cwd = cwd' \<and> sandbox = sandbox' \<and> approval = approval' \<and> network = network'"
proof -
  note eq0 = assms(1)[unfolded fingerprint_preimage_def]
  have eq1: "write_part ''platform'' (bytes_of platform) @ write_part ''cwd'' (bytes_of cwd) @
      write_part ''sandbox'' [sandbox_tag sandbox] @ approval_parts approval @ write_part ''network'' [flag network] =
      write_part ''platform'' (bytes_of platform') @ write_part ''cwd'' (bytes_of cwd') @
      write_part ''sandbox'' [sandbox_tag sandbox'] @ approval_parts approval' @ write_part ''network'' [flag network']"
    using eq0 by simp
  note eq2 = write_part_inj[OF eq1, simplified length_bytes_of, OF assms(2,3)]
  note eq3 = write_part_inj[OF eq2[THEN conjunct2], simplified length_bytes_of, OF assms(4,5)]
  have eq4: "[sandbox_tag sandbox] = [sandbox_tag sandbox'] \<and> approval_parts approval @ write_part ''network'' [flag network] =
      approval_parts approval' @ write_part ''network'' [flag network']"
    by (rule write_part_inj[OF eq3[THEN conjunct2]]) simp_all
  have eq5: "approval = approval' \<and> write_part ''network'' [flag network] = write_part ''network'' [flag network']"
    by (rule approval_parts_inj[OF eq4[THEN conjunct2] assms(6,7)])
  have "flag network = flag network'"
    using write_part_inj[of "''network''" "[flag network]" "[]" "[flag network']" "[]"] eq5 by simp
  then show ?thesis using eq2 eq3 eq4 eq5 by simp
qed

theorem fingerprint_determines_policy_witness:
  "fingerprint_preimage ''linux'' ''/srv'' ReadOnly (Named (ustr ''never'')) False \<noteq>
   fingerprint_preimage ''linux'' ''/srv'' ReadOnly (Named (ustr ''on-request'')) False"
  using fingerprint_determines_policy[of "''linux''" "''/srv''" ReadOnly "Named (ustr ''never'')" False
      "''linux''" "''/srv''" ReadOnly "Named (ustr ''on-request'')" False]
  by (auto simp: unicode_def length_utf8 ustr_def len_utf8_def)

end
