(* ===== verification/Live_Config.thy ===== *)
theory Live_Config
  imports Access_Policy
begin

text \<open>
  The hot-reloadable settings of \<^verbatim>\<open>src/src/runtime/live.rs\<close>: what a configuration command changes in memory and
  on disk, with the settings of \<^verbatim>\<open>src/src/runtime/router.rs\<close> it refreshes. The file system at the time of a
  change and the outcome of the atomic file replacement are arguments.
\<close>

section \<open>State\<close>

record router_settings =
  rs_default_workspace :: "path option"
  rs_bot_open_id :: "string option"
  rs_active_turn_permits :: nat
  rs_max_scope_actors :: nat
  rs_sandbox :: sandbox_mode
  rs_approval_policy :: approval_policy
  rs_model :: "ustring option"
  rs_effort :: "ustring option"
  rs_network_access :: bool
  rs_debounce :: duration
  rs_message_max_age :: duration
  rs_finalization_retry :: duration
  rs_shutdown_cleanup_timeout :: duration
  rs_asr :: asr_section
  rs_pending_media_ttl :: duration
  rs_pending_media_max_count :: nat
  rs_pending_media_max_metadata_bytes :: nat
  rs_backend :: codex_backend_config

definition settings_from_config :: "bridge_config \<Rightarrow> router_settings" where
  "settings_from_config cfg =
     \<lparr>rs_default_workspace = bc_default_workspace cfg, rs_bot_open_id = None,
      rs_active_turn_permits = active_turn_permits (bc_concurrency cfg),
      rs_max_scope_actors = max_scope_actors (bc_concurrency cfg),
      rs_sandbox = cx_sandbox (bc_codex cfg), rs_approval_policy = cx_approval_policy (bc_codex cfg),
      rs_model = cx_model (bc_codex cfg), rs_effort = cx_effort (bc_codex cfg),
      rs_network_access = network_access (bc_workspace cfg), rs_debounce = from_millis 600,
      rs_message_max_age = from_secs (15 * 60), rs_finalization_retry = from_secs 1,
      rs_shutdown_cleanup_timeout = from_secs 5, rs_asr = bc_asr cfg, rs_pending_media_ttl = PENDING_MEDIA_TTL,
      rs_pending_media_max_count = PENDING_MEDIA_MAX_COUNT,
      rs_pending_media_max_metadata_bytes = PENDING_MEDIA_MAX_METADATA_BYTES, rs_backend = cx_backend (bc_codex cfg)\<rparr>"

definition overlay_hot_reload :: "router_settings \<Rightarrow> bridge_config \<Rightarrow> router_settings" where
  "overlay_hot_reload settings cfg =
     (settings_from_config cfg)
       \<lparr>rs_bot_open_id := rs_bot_open_id settings, rs_debounce := rs_debounce settings,
        rs_message_max_age := rs_message_max_age settings, rs_finalization_retry := rs_finalization_retry settings,
        rs_shutdown_cleanup_timeout := rs_shutdown_cleanup_timeout settings,
        rs_pending_media_ttl := rs_pending_media_ttl settings,
        rs_pending_media_max_count := rs_pending_media_max_count settings,
        rs_pending_media_max_metadata_bytes := rs_pending_media_max_metadata_bytes settings\<rparr>"

definition ROUTER_ACTIVE_TURN_HARD_LIMIT :: nat where
  "ROUTER_ACTIVE_TURN_HARD_LIMIT = 64"

definition ROUTER_SCOPE_ACTOR_HARD_LIMIT :: nat where
  "ROUTER_SCOPE_ACTOR_HARD_LIMIT = 256"

definition settings_validate :: "router_settings \<Rightarrow> bool" where
  "settings_validate s \<longleftrightarrow>
     \<not> (rs_active_turn_permits s = 0 \<or> rs_active_turn_permits s > ROUTER_ACTIVE_TURN_HARD_LIMIT \<or>
        rs_max_scope_actors s = 0 \<or> rs_max_scope_actors s > ROUTER_SCOPE_ACTOR_HARD_LIMIT \<or>
        rs_debounce s = 0 \<or> rs_message_max_age s = 0 \<or> rs_finalization_retry s = 0 \<or>
        rs_shutdown_cleanup_timeout s = 0 \<or> rs_pending_media_ttl s = 0 \<or>
        rs_pending_media_max_count s = 0 \<or> rs_pending_media_max_count s > PENDING_MEDIA_MAX_COUNT \<or>
        rs_pending_media_max_metadata_bytes s = 0 \<or>
        rs_pending_media_max_metadata_bytes s > PENDING_MEDIA_MAX_METADATA_BYTES)"

record live_inner =
  li_config :: "bridge_config option"
  li_policy :: access_policy
  li_settings :: router_settings

record live_bridge_config =
  persist_path :: "path option"
  inner :: live_inner

record config_view =
  cv_model :: "ustring option"
  cv_effort :: "ustring option"
  cv_sandbox :: sandbox_mode
  cv_approval :: ustring
  cv_allowed_groups :: "ustring list"
  cv_allowed_senders :: "ustring list"

datatype live_config_error = LiveLock | LiveInvalidValue | LivePersist | LiveValidate

definition live_from_runtime :: "access_policy \<Rightarrow> router_settings \<Rightarrow> live_bridge_config" where
  "live_from_runtime policy settings =
     \<lparr>persist_path = None, inner = \<lparr>li_config = None, li_policy = policy, li_settings = settings\<rparr>\<rparr>"

definition live_persistent :: "path \<Rightarrow> bridge_config \<Rightarrow> access_policy \<Rightarrow> router_settings \<Rightarrow> live_bridge_config" where
  "live_persistent p cfg policy settings =
     \<lparr>persist_path = Some p, inner = \<lparr>li_config = Some cfg, li_policy = policy, li_settings = settings\<rparr>\<rparr>"

fun named_approval :: "approval_policy \<Rightarrow> ustring" where
  "named_approval (Named name) = name"
| "named_approval (Granular g) = ustr ''granular''"

definition view_from_runtime :: "access_policy \<Rightarrow> router_settings \<Rightarrow> config_view" where
  "view_from_runtime policy settings =
     \<lparr>cv_model = rs_model settings, cv_effort = rs_effort settings, cv_sandbox = rs_sandbox settings,
      cv_approval = named_approval (rs_approval_policy settings), cv_allowed_groups = ap_allowed_groups policy,
      cv_allowed_senders = ap_allowed_senders policy\<rparr>"

section \<open>Values\<close>

definition normalize_model :: "ustring option \<Rightarrow> (live_config_error, ustring option) result" where
  "normalize_model value0 =
     (case value0 of
        None \<Rightarrow> Inr None
      | Some raw \<Rightarrow>
          let value' = trim raw in
          if value' = [] then Inr None
          else if value' = ustr ''-'' \<or> value' = ustr ''default'' then Inr None
          else if ulen value' > MAX_CONFIG_MODEL_BYTES \<or> has_ascii_control value' then Inl LiveInvalidValue
          else Inr (Some value'))"

definition normalize_effort :: "ustring option \<Rightarrow> (live_config_error, ustring option) result" where
  "normalize_effort value0 =
     (case value0 of
        None \<Rightarrow> Inr None
      | Some raw \<Rightarrow>
          let value' = trim raw in
          if value' = [] then Inr None
          else if value' \<in> set (map ustr [''-'', ''default'', ''none'']) then Inr None
          else if value' \<notin> set (map ustr [''low'', ''medium'', ''high'', ''xhigh'']) then Inl LiveInvalidValue
          else Inr (Some value'))"

definition normalize_approval :: "ustring \<Rightarrow> (live_config_error, ustring) result" where
  "normalize_approval raw =
     (let value' = trim raw in
      if value' \<notin> set (map ustr [''untrusted'', ''on-failure'', ''on-request'', ''never'']) then Inl LiveInvalidValue
      else Inr value')"

definition valid_allow_id :: "ustring \<Rightarrow> bool" where
  "valid_allow_id id' \<longleftrightarrow> id' \<noteq> [] \<and> trim id' = id' \<and> \<not> list_ex is_ascii_whitespace id'"

definition add_unique :: "ustring list \<Rightarrow> ustring \<Rightarrow> bool \<Rightarrow> (live_config_error, ustring list) result" where
  "add_unique ids id' in_group =
     (if \<not> valid_allow_id id' then Inl LiveInvalidValue
      else if id' \<in> set ids then Inr ids
      else let (max_count, max_bytes) =
             (if in_group then (MAX_CONFIG_ALLOWED_GROUPS, MAX_CONFIG_ALLOWED_GROUP_BYTES)
              else (MAX_CONFIG_ALLOWED_SENDERS, MAX_CONFIG_ALLOWED_SENDER_BYTES)) in
           if length ids \<ge> max_count then Inl LiveInvalidValue
           else if sat_add_u64 (sum_list (map ulen ids)) (ulen id') > max_bytes then Inl LiveInvalidValue
           else Inr (ids @ [id']))"

section \<open>Applying a patch\<close>

definition with_codex :: "(codex_section \<Rightarrow> codex_section) \<Rightarrow> bridge_config \<Rightarrow> bridge_config" where
  "with_codex f cfg = cfg\<lparr>bc_codex := f (bc_codex cfg)\<rparr>"

text \<open>The changes of a form, field by field; a field that is absent is left alone.\<close>

definition apply_form_to_config ::
    "ustring option \<Rightarrow> ustring option \<Rightarrow> sandbox_mode option \<Rightarrow> ustring option \<Rightarrow> bridge_config \<Rightarrow> (live_config_error, bridge_config) result" where
  "apply_form_to_config model effort sandbox approval cfg =
     result_bind (if model \<noteq> None
       then result_map (\<lambda>m. with_codex (\<lambda>c. c\<lparr>cx_model := m\<rparr>) cfg) (normalize_model model) else Inr cfg) (\<lambda>cfg.
     result_bind (if effort \<noteq> None
       then result_map (\<lambda>e. with_codex (\<lambda>c. c\<lparr>cx_effort := e\<rparr>) cfg) (normalize_effort effort) else Inr cfg) (\<lambda>cfg.
     let cfg = (case sandbox of None \<Rightarrow> cfg | Some mode \<Rightarrow> with_codex (\<lambda>c. c\<lparr>cx_sandbox := mode\<rparr>) cfg) in
     case approval of
       None \<Rightarrow> Inr cfg
     | Some name \<Rightarrow>
         result_map (\<lambda>a. with_codex (\<lambda>c. c\<lparr>cx_approval_policy := Named a\<rparr>) cfg) (normalize_approval name)))"

fun apply_patch_to_config :: "bridge_config \<Rightarrow> config_patch \<Rightarrow> (live_config_error, bridge_config) result" where
  "apply_patch_to_config cfg (Model model) =
     result_map (\<lambda>m. with_codex (\<lambda>c. c\<lparr>cx_model := m\<rparr>) cfg) (normalize_model model)"
| "apply_patch_to_config cfg (Effort effort) =
     result_map (\<lambda>e. with_codex (\<lambda>c. c\<lparr>cx_effort := e\<rparr>) cfg) (normalize_effort effort)"
| "apply_patch_to_config cfg (Sandbox sandbox) = Inr (with_codex (\<lambda>c. c\<lparr>cx_sandbox := sandbox\<rparr>) cfg)"
| "apply_patch_to_config cfg (Approval name) =
     result_map (\<lambda>a. with_codex (\<lambda>c. c\<lparr>cx_approval_policy := Named a\<rparr>) cfg) (normalize_approval name)"
| "apply_patch_to_config cfg (GroupAdd id') =
     result_map (\<lambda>ids. cfg\<lparr>bc_allowed_groups := ids\<rparr>) (add_unique (bc_allowed_groups cfg) id' True)"
| "apply_patch_to_config cfg (GroupRemove id') =
     Inr (cfg\<lparr>bc_allowed_groups := filter (\<lambda>item. item \<noteq> id') (bc_allowed_groups cfg)\<rparr>)"
| "apply_patch_to_config cfg (SenderAdd id') =
     result_map (\<lambda>ids. cfg\<lparr>bc_allowed_senders := ids\<rparr>) (add_unique (bc_allowed_senders cfg) id' False)"
| "apply_patch_to_config cfg (SenderRemove id') =
     Inr (cfg\<lparr>bc_allowed_senders := filter (\<lambda>item. item \<noteq> id') (bc_allowed_senders cfg)\<rparr>)"
| "apply_patch_to_config cfg (Form model effort sandbox approval) =
     apply_form_to_config model effort sandbox approval cfg"

text \<open>
  In memory-only runs the patch is applied in place: the result is paired with the state the call leaves
  behind, also when it fails.
\<close>

type_synonym live_step = "(live_config_error, unit) result \<times> live_inner"

definition set_settings :: "(router_settings \<Rightarrow> router_settings) \<Rightarrow> live_inner \<Rightarrow> live_inner" where
  "set_settings f li = li\<lparr>li_settings := f (li_settings li)\<rparr>"

definition set_policy :: "(access_policy \<Rightarrow> access_policy) \<Rightarrow> live_inner \<Rightarrow> live_inner" where
  "set_policy f li = li\<lparr>li_policy := f (li_policy li)\<rparr>"

definition on_value :: "(live_config_error, 'a) result \<Rightarrow> ('a \<Rightarrow> live_inner \<Rightarrow> live_step) \<Rightarrow> live_inner \<Rightarrow> live_step" where
  "on_value r f li = (case r of Inl e \<Rightarrow> (Inl e, li) | Inr a \<Rightarrow> f a li)"

definition refresh_codex_policy :: "live_inner \<Rightarrow> live_inner" where
  "refresh_codex_policy li =
     set_policy (replace_codex_policy (rs_sandbox (li_settings li)) (rs_approval_policy (li_settings li))) li"

definition set_sandbox :: "sandbox_mode option \<Rightarrow> live_inner \<Rightarrow> live_inner" where
  "set_sandbox sandbox li =
     (case sandbox of None \<Rightarrow> li | Some mode \<Rightarrow> set_settings (\<lambda>s. s\<lparr>rs_sandbox := mode\<rparr>) li)"

definition apply_form_to_runtime ::
    "ustring option \<Rightarrow> ustring option \<Rightarrow> sandbox_mode option \<Rightarrow> ustring option \<Rightarrow> live_inner \<Rightarrow> live_step" where
  "apply_form_to_runtime model effort sandbox approval li0 =
     on_value (if model \<noteq> None then result_map Some (normalize_model model) else Inr None)
       (\<lambda>m li1. let li1 = (case m of None \<Rightarrow> li1 | Some m \<Rightarrow> set_settings (\<lambda>s. s\<lparr>rs_model := m\<rparr>) li1) in
        on_value (if effort \<noteq> None then result_map Some (normalize_effort effort) else Inr None)
          (\<lambda>e li2. let li2 = set_sandbox sandbox
                      (case e of None \<Rightarrow> li2 | Some e \<Rightarrow> set_settings (\<lambda>s. s\<lparr>rs_effort := e\<rparr>) li2) in
           on_value (case approval of None \<Rightarrow> Inr None | Some name \<Rightarrow> result_map Some (normalize_approval name))
             (\<lambda>a li3. (Inr (), refresh_codex_policy
                (case a of None \<Rightarrow> li3 | Some a \<Rightarrow> set_settings (\<lambda>s. s\<lparr>rs_approval_policy := Named a\<rparr>) li3)))
             li2) li1) li0"

fun apply_patch_to_runtime :: "live_inner \<Rightarrow> config_patch \<Rightarrow> live_step" where
  "apply_patch_to_runtime li (Model model) =
     on_value (normalize_model model) (\<lambda>m li. (Inr (), set_settings (\<lambda>s. s\<lparr>rs_model := m\<rparr>) li)) li"
| "apply_patch_to_runtime li (Effort effort) =
     on_value (normalize_effort effort) (\<lambda>e li. (Inr (), set_settings (\<lambda>s. s\<lparr>rs_effort := e\<rparr>) li)) li"
| "apply_patch_to_runtime li (Sandbox sandbox) =
     (Inr (), refresh_codex_policy (set_settings (\<lambda>s. s\<lparr>rs_sandbox := sandbox\<rparr>) li))"
| "apply_patch_to_runtime li (Approval name) =
     on_value (normalize_approval name)
       (\<lambda>a li. (Inr (), refresh_codex_policy (set_settings (\<lambda>s. s\<lparr>rs_approval_policy := Named a\<rparr>) li))) li"
| "apply_patch_to_runtime li (GroupAdd id') =
     on_value (add_unique (ap_allowed_groups (li_policy li)) id' True)
       (\<lambda>groups li. (Inr (), set_policy (replace_allowlists (ap_allowed_senders (li_policy li)) groups) li)) li"
| "apply_patch_to_runtime li (GroupRemove id') =
     (Inr (), set_policy (replace_allowlists (ap_allowed_senders (li_policy li))
        (filter (\<lambda>item. item \<noteq> id') (ap_allowed_groups (li_policy li)))) li)"
| "apply_patch_to_runtime li (SenderAdd id') =
     on_value (add_unique (ap_allowed_senders (li_policy li)) id' False)
       (\<lambda>senders li. (Inr (), set_policy (replace_allowlists senders (ap_allowed_groups (li_policy li))) li)) li"
| "apply_patch_to_runtime li (SenderRemove id') =
     (Inr (), set_policy (replace_allowlists (filter (\<lambda>item. item \<noteq> id') (ap_allowed_senders (li_policy li)))
        (ap_allowed_groups (li_policy li))) li)"
| "apply_patch_to_runtime li (Form model effort sandbox approval) =
     apply_form_to_runtime model effort sandbox approval li"

text \<open>
  The whole call: \<open>written\<close> is the outcome of the file replacement. The view it returns is that of the
  state it leaves behind.
\<close>

definition prepare_patch ::
    "filesystem \<Rightarrow> access_policy \<Rightarrow> bridge_config \<Rightarrow> config_patch \<Rightarrow> (live_config_error, bridge_config) result" where
  "prepare_patch fs policy cfg patch =
     result_bind (apply_patch_to_config cfg patch) (\<lambda>cfg1.
       case validate_with_platform_roots fs (ap_roots policy) cfg1 of
         Inl _ \<Rightarrow> Inl LiveValidate
       | Inr cfg2 \<Rightarrow> Inr cfg2)"

definition live_apply ::
    "filesystem \<Rightarrow> bool \<Rightarrow> config_patch \<Rightarrow> live_bridge_config \<Rightarrow> (live_config_error, config_view) result \<times> live_bridge_config" where
  "live_apply fs written patch live =
     (let li = inner live in
      case li_config li of
        Some cfg \<Rightarrow>
          (case prepare_patch fs (li_policy li) cfg patch of
             Inl e \<Rightarrow> (Inl e, live)
           | Inr cfg' \<Rightarrow>
               if persist_path live \<noteq> None \<and> \<not> written then (Inl LivePersist, live)
               else let policy' = from_prepared_config cfg' (ap_roots (li_policy li));
                        settings' = overlay_hot_reload (li_settings li) cfg'
                    in (Inr (view_from_runtime policy' settings'),
                        live\<lparr>inner := \<lparr>li_config = Some cfg', li_policy = policy', li_settings = settings'\<rparr>\<rparr>))
      | None \<Rightarrow>
          (case apply_patch_to_runtime li patch of
             (Inl e, li') \<Rightarrow> (Inl e, live\<lparr>inner := li'\<rparr>)
           | (Inr _, li') \<Rightarrow> (Inr (view_from_runtime (li_policy li') (li_settings li')), live\<lparr>inner := li'\<rparr>)))"

section \<open>Changes keep policy, settings and file in step\<close>

definition config_ok :: "platform_roots \<Rightarrow> bridge_config \<Rightarrow> bool" where
  "config_ok roots cfg \<longleftrightarrow>
     bc_owners cfg \<noteq> [] \<and> id_list_ok MAX_CONFIG_OWNERS MAX_CONFIG_OWNER_BYTES (bc_owners cfg) \<and>
     id_list_ok MAX_CONFIG_ALLOWED_SENDERS MAX_CONFIG_ALLOWED_SENDER_BYTES (bc_allowed_senders cfg) \<and>
     id_list_ok MAX_CONFIG_ALLOWED_GROUPS MAX_CONFIG_ALLOWED_GROUP_BYTES (bc_allowed_groups cfg) \<and>
     list_all (\<lambda>root. \<not> protected roots root) (allow_roots (bc_workspace cfg)) \<and>
     validate_path_collection_bounds (allow_roots (bc_workspace cfg))"

lemma validate_static_keeps_ids:
  assumes "validate_static fs cfg = Inr cfg'" "id_list_ok MAX_CONFIG_OWNERS MAX_CONFIG_OWNER_BYTES (bc_owners cfg)"
  shows "bc_owners cfg' = bc_owners cfg"
  using assms by (auto simp: validate_static_def normalize_id_collection_idem dest!: bind_InrD split: if_splits)

lemma validated_config:
  assumes "validate_with_platform_roots fs roots cfg = Inr cfg'"
  shows "config_ok roots cfg'"
    and "id_list_ok MAX_CONFIG_OWNERS MAX_CONFIG_OWNER_BYTES (bc_owners cfg) \<Longrightarrow> bc_owners cfg' = bc_owners cfg"
    and "bc_concurrency cfg' = bc_concurrency cfg"
proof -
  obtain cfg1 cfg2 where static: "validate_static fs cfg = Inr cfg1" and prepared: "prepare_config fs cfg1 roots = Inr cfg2"
    and cfg': "cfg' = cfg2\<lparr>bc_default_workspace := bc_default_workspace cfg'\<rparr>"
    using assms by (rule validate_with_platform_rootsD)
  have fields: "bc_owners cfg' = bc_owners cfg2" "bc_allowed_senders cfg' = bc_allowed_senders cfg2"
    "bc_allowed_groups cfg' = bc_allowed_groups cfg2" "bc_workspace cfg' = bc_workspace cfg2" "bc_concurrency cfg' = bc_concurrency cfg2"
    by (subst cfg', simp)+
  note fields2 = prepared_fields[OF prepared]
  show "config_ok roots cfg'"
    using validate_static_ok(1)[OF static] prepare_config_ok(1,3)[OF prepared]
    by (simp add: config_ok_def config_static_ok_def fields fields2 list_all_iff)
  show "bc_owners cfg' = bc_owners cfg" if "id_list_ok MAX_CONFIG_OWNERS MAX_CONFIG_OWNER_BYTES (bc_owners cfg)"
    using validate_static_keeps_ids[OF static that] by (simp add: fields fields2)
  show "bc_concurrency cfg' = bc_concurrency cfg"
    using validate_static_ok(6)[OF static] by (simp add: fields fields2)
qed

lemma with_codex_fields [simp]:
  "bc_owners (with_codex f cfg) = bc_owners cfg" "bc_concurrency (with_codex f cfg) = bc_concurrency cfg"
  by (simp_all add: with_codex_def)

text \<open>A property of the value of a result, if it has one.\<close>

definition on_ok :: "('a \<Rightarrow> bool) \<Rightarrow> ('e, 'a) result \<Rightarrow> bool" where
  "on_ok P r \<longleftrightarrow> (\<forall>a. r = Inr a \<longrightarrow> P a)"

lemma on_ok_bind: "on_ok Q r \<Longrightarrow> (\<And>a. Q a \<Longrightarrow> on_ok P (f a)) \<Longrightarrow> on_ok P (result_bind r f)"
  by (cases r) (auto simp: on_ok_def)

lemma on_ok_map: "(\<And>a. P (f a)) \<Longrightarrow> on_ok P (result_map f r)"
  by (cases r) (auto simp: on_ok_def)

lemma on_ok_Inr [simp]: "on_ok P (Inr a) = P a" "on_ok P (Inl e)"
  by (simp_all add: on_ok_def)

abbreviation same_owners :: "bridge_config \<Rightarrow> bridge_config \<Rightarrow> bool" where
  "same_owners cfg cfg' \<equiv> bc_owners cfg' = bc_owners cfg"

lemma form_keeps_owners: "on_ok (same_owners cfg) (apply_form_to_config m e s a cfg)"
  unfolding apply_form_to_config_def Let_def
  by (rule on_ok_bind[of "same_owners cfg"], simp add: on_ok_map, rule on_ok_bind[of "same_owners cfg"], simp add: on_ok_map)
    (auto intro!: on_ok_map split: option.split)

lemma patch_keeps_owners: "apply_patch_to_config cfg patch = Inr cfg' \<Longrightarrow> same_owners cfg cfg'"
proof -
  have "on_ok (same_owners cfg) (apply_patch_to_config cfg patch)"
    by (cases patch) (auto intro: on_ok_map form_keeps_owners)
  then show "apply_patch_to_config cfg patch = Inr cfg' \<Longrightarrow> ?thesis" by (simp add: on_ok_def)
qed

text \<open>The settings that come from the configuration, and those that belong to the running process: the bot's own id, which
  \<^verbatim>\<open>src/src/app.rs\<close> asks Lark for at startup, and the timings and bounds of the runtime.\<close>

definition config_fields ::
    "router_settings \<Rightarrow> path option \<times> nat \<times> nat \<times> sandbox_mode \<times> approval_policy \<times> ustring option \<times> ustring option \<times> bool \<times>
       asr_section \<times> codex_backend_config" where
  "config_fields s =
     (rs_default_workspace s, rs_active_turn_permits s, rs_max_scope_actors s, rs_sandbox s, rs_approval_policy s, rs_model s, rs_effort s,
      rs_network_access s, rs_asr s, rs_backend s)"

definition runtime_fields ::
    "router_settings \<Rightarrow> string option \<times> duration \<times> duration \<times> duration \<times> duration \<times> duration \<times> nat \<times> nat" where
  "runtime_fields s =
     (rs_bot_open_id s, rs_debounce s, rs_message_max_age s, rs_finalization_retry s, rs_shutdown_cleanup_timeout s, rs_pending_media_ttl s,
      rs_pending_media_max_count s, rs_pending_media_max_metadata_bytes s)"

text \<open>The state of a live configuration whose file is known, for fixed owners and protected roots, in a process that started with
  the settings \<open>start\<close>.\<close>

definition in_step :: "platform_roots \<Rightarrow> ustring list \<Rightarrow> router_settings \<Rightarrow> live_bridge_config \<Rightarrow> bool" where
  "in_step roots owners start live \<longleftrightarrow>
     (case li_config (inner live) of
        None \<Rightarrow> False
      | Some cfg \<Rightarrow>
          config_ok roots cfg \<and> bc_owners cfg = owners \<and>
          li_policy (inner live) = from_prepared_config cfg roots \<and>
          config_fields (li_settings (inner live)) = config_fields (settings_from_config cfg) \<and>
          runtime_fields (li_settings (inner live)) = runtime_fields start)"

lemma overlay_fields:
  "config_fields (overlay_hot_reload settings cfg) = config_fields (settings_from_config cfg)"
  "runtime_fields (overlay_hot_reload settings cfg) = runtime_fields settings"
  by (simp_all add: overlay_hot_reload_def config_fields_def runtime_fields_def)

lemma prepare_patch_ok:
  assumes "prepare_patch fs policy cfg patch = Inr cfg'" "config_ok (ap_roots policy) cfg"
  shows "config_ok (ap_roots policy) cfg' \<and> bc_owners cfg' = bc_owners cfg"
proof -
  obtain cfg1 where patched: "apply_patch_to_config cfg patch = Inr cfg1"
    using assms(1) by (cases "apply_patch_to_config cfg patch") (auto simp: prepare_patch_def)
  have valid: "validate_with_platform_roots fs (ap_roots policy) cfg1 = Inr cfg'"
    using assms(1) patched
    by (cases "validate_with_platform_roots fs (ap_roots policy) cfg1") (auto simp: prepare_patch_def)
  from patched have "bc_owners cfg1 = bc_owners cfg" using patch_keeps_owners by blast
  then show ?thesis using validated_config[OF valid] assms(2) by (simp add: config_ok_def)
qed

type_synonym live_op = "filesystem \<times> bool \<times> config_patch"

fun live_step :: "live_op \<Rightarrow> live_bridge_config \<Rightarrow> live_bridge_config" where
  "live_step (fs, written, patch) live = snd (live_apply fs written patch live)"

interpretation live_config: invariant_steps live_step "in_step roots owners start" for roots owners start
proof
  fix live and op :: live_op assume inv: "in_step roots owners start live"
  obtain fs written patch where op: "op = (fs, written, patch)" by (cases op)
  obtain cfg where cfg: "li_config (inner live) = Some cfg" "config_ok roots cfg" "bc_owners cfg = owners"
    "li_policy (inner live) = from_prepared_config cfg roots" "runtime_fields (li_settings (inner live)) = runtime_fields start"
    using inv by (auto simp: in_step_def split: option.splits)
  have roots: "ap_roots (li_policy (inner live)) = roots" by (simp add: cfg from_prepared_config_def)
  show "in_step roots owners start (live_step op live)"
  proof (cases "prepare_patch fs (li_policy (inner live)) cfg patch")
    case (Inl e)
    then show ?thesis using inv by (simp add: op live_apply_def cfg(1) Let_def)
  next
    case (Inr cfg')
    then have "config_ok roots cfg' \<and> bc_owners cfg' = owners"
      using prepare_patch_ok[OF Inr] roots cfg(2,3) by simp
    then show ?thesis
      using inv Inr cfg(5) roots by (simp add: op live_apply_def cfg(1) Let_def in_step_def overlay_fields)
  qed
qed

text \<open>
  C25: A process starts with a validated configuration, its access policy, and settings whose configured part is that of the
  configuration; the rest of the settings is arbitrary (\<^verbatim>\<open>src/src/app.rs\<close> fills in the bot's id). Whatever configuration commands
  arrive, over any changes of the file system and with any outcome of the file writes: the access policy and the configured part of
  the settings in force are exactly those of the stored configuration, every other setting keeps the value of the start, the stored
  configuration stays valid, and the owners, who alone may use these commands, never change.
\<close>

theorem live_config_stays_in_step:
  assumes "validate_with_platform_roots fs roots cfg0 = Inr cfg" "config_fields start = config_fields (settings_from_config cfg)"
  shows "in_step roots (bc_owners cfg) start (fold live_step ops (live_persistent p cfg (from_prepared_config cfg roots) start))"
  using validated_config(1)[OF assms(1)] assms(2)
  by (intro live_config.run_inv) (simp add: in_step_def live_persistent_def)

lemma demo_validated:
  "validate_with_platform_roots demo_fs demo_roots demo_config = Inr (demo_config\<lparr>bc_owners := [ustr ''ou_o'']\<rparr>)"
  by (simp add: validate_with_platform_roots_def demo_static prepare_config_def)
    (simp add: demo_config_def demo_fs_def demo_roots_def canonical_directory_def fs_is_dir_def classify_hard_deny_def path_defs
      validate_path_collection_bounds_def encoded_path_bytes_def sat_add_u64_def u64_max_def config_limits validate_workspace_def
      from_prepared_config_def)

definition demo_start :: router_settings where
  "demo_start = (settings_from_config (demo_config\<lparr>bc_owners := [ustr ''ou_o'']\<rparr>))\<lparr>rs_bot_open_id := Some ''ou_bot''\<rparr>"

theorem live_config_stays_in_step_witness:
  "in_step demo_roots [ustr ''ou_o''] demo_start
    (fold live_step [(demo_fs, True, SenderAdd (ustr ''ou_x'')), (demo_fs, False, Sandbox DangerFullAccess)]
      (live_persistent ''/c'' (demo_config\<lparr>bc_owners := [ustr ''ou_o'']\<rparr>)
        (from_prepared_config (demo_config\<lparr>bc_owners := [ustr ''ou_o'']\<rparr>) demo_roots) demo_start)) \<and> rs_bot_open_id demo_start = Some ''ou_bot''"
  using live_config_stays_in_step[OF demo_validated, of demo_start "[(demo_fs, True, SenderAdd (ustr ''ou_x'')), (demo_fs, False, Sandbox DangerFullAccess)]" "''/c''"]
  by (simp add: demo_start_def config_fields_def)

text \<open>With a stored configuration a refused change leaves everything as it was.\<close>

lemma refused_change_is_atomic:
  "li_config (inner live) \<noteq> None \<Longrightarrow> live_apply fs written patch live = (Inl e, live') \<Longrightarrow> live' = live"
  by (auto simp: live_apply_def Let_def split: sum.splits if_splits)

text \<open>
  Without a stored configuration, in memory-only runs, a refused form can be half applied: the model is
  already changed when a later field of the same form is refused.
\<close>

theorem memory_only_form_is_not_atomic:
  "\<exists>patch policy settings e live'. live_apply fs written patch (live_from_runtime policy settings) = (Inl e, live') \<and>
      rs_model (li_settings (inner live')) \<noteq> rs_model settings"
proof -
  let ?cfg = "demo_config\<lparr>bc_owners := [ustr ''ou_o'']\<rparr>"
  let ?patch = "Form (Some (ustr ''gpt'')) (Some (ustr ''huge'')) None None"
  have "live_apply fs written ?patch (live_from_runtime (from_prepared_config ?cfg demo_roots) (settings_from_config ?cfg)) =
      (Inl LiveInvalidValue, live_from_runtime (from_prepared_config ?cfg demo_roots)
        ((settings_from_config ?cfg)\<lparr>rs_model := Some (ustr ''gpt'')\<rparr>))"
    by (simp add: live_apply_def live_from_runtime_def apply_form_to_runtime_def on_value_def normalize_model_def
        normalize_effort_def set_settings_def Let_def ustr_def trim_def is_whitespace_def len_utf8_def MAX_CONFIG_MODEL_BYTES_def
        has_ascii_control_def)
  then show ?thesis
    by (intro exI[of _ ?patch] exI[of _ "from_prepared_config ?cfg demo_roots"] exI[of _ "settings_from_config ?cfg"] exI[of _ LiveInvalidValue]
        exI[of _ "live_from_runtime (from_prepared_config ?cfg demo_roots) ((settings_from_config ?cfg)\<lparr>rs_model := Some (ustr ''gpt'')\<rparr>)"])
      (simp add: live_from_runtime_def settings_from_config_def demo_config_def)
qed

end
