(* ===== verification/Adoption_Store.thy ===== *)
theory Adoption_Store
  imports Turn_Store
begin

text \<open>
  The durable saga of an adopted Codex thread, \<^verbatim>\<open>src/src/store/adoption.rs\<close>: reservation, commit of the mapping, failed
  acquisition, release in two steps, the fence of one generation and of all at startup, and the reads. One scope has at
  most one saga row (the primary key of \<open>thread_adoption_sagas\<close> in \<^verbatim>\<open>src/src/store/schema.rs\<close>), a Codex thread
  is named by at most one row that is not terminal. A row is read back through its stored columns, as
  \<open>read_saga_row\<close> does; \<open>sql_update\<close> is an \<open>UPDATE\<close> with its row count.
\<close>

section \<open>Data\<close>

datatype thread_adoption_state = Acquiring | Owned | Releasing | RecoveryRequired | ReleaseFailed | Terminal

fun adoption_state_as_str :: "thread_adoption_state \<Rightarrow> string" where
  "adoption_state_as_str Acquiring = ''acquiring''"
| "adoption_state_as_str Owned = ''owned''"
| "adoption_state_as_str Releasing = ''releasing''"
| "adoption_state_as_str RecoveryRequired = ''recovery_required''"
| "adoption_state_as_str ReleaseFailed = ''release_failed''"
| "adoption_state_as_str Terminal = ''terminal''"

definition adoption_state_parse :: "string \<Rightarrow> thread_adoption_state option" where
  "adoption_state_parse v =
     (if v = ''acquiring'' then Some Acquiring
      else if v = ''owned'' then Some Owned
      else if v = ''releasing'' then Some Releasing
      else if v = ''recovery_required'' then Some RecoveryRequired
      else if v = ''release_failed'' then Some ReleaseFailed
      else if v = ''terminal'' then Some Terminal
      else None)"

datatype thread_adoption_outcome = AcquisitionFailed | Released

fun adoption_outcome_as_str :: "thread_adoption_outcome \<Rightarrow> string" where
  "adoption_outcome_as_str AcquisitionFailed = ''acquisition_failed''"
| "adoption_outcome_as_str Released = ''released''"

definition adoption_outcome_parse :: "string \<Rightarrow> thread_adoption_outcome option" where
  "adoption_outcome_parse v =
     (if v = ''acquisition_failed'' then Some AcquisitionFailed
      else if v = ''released'' then Some Released else None)"

datatype thread_adoption_release_result = ReleaseConfirmed | ReleaseUnconfirmed

record thread_adoption_saga =
  ta_scope_key :: string
  ta_codex_thread_id :: string
  ta_generation :: nat
  ta_state :: thread_adoption_state
  ta_outcome :: "thread_adoption_outcome option"
  ta_created_ms :: int
  ta_updated_ms :: int

record adoption_tables =
  at_scopes :: scope_table
  at_threads :: thread_table
  at_turns :: turn_table
  at_sagas :: "thread_adoption_saga list"

text \<open>The columns of a saga row as SQLite holds them.\<close>

record saga_columns =
  sq_scope_key :: string
  sq_generation :: int
  sq_codex_thread_id :: string
  sq_state :: string
  sq_outcome :: "string option"
  sq_created_ms :: int
  sq_updated_ms :: int

definition stored_saga :: "thread_adoption_saga \<Rightarrow> saga_columns" where
  "stored_saga r =
     \<lparr>sq_scope_key = ta_scope_key r, sq_generation = int (ta_generation r), sq_codex_thread_id = ta_codex_thread_id r,
      sq_state = adoption_state_as_str (ta_state r), sq_outcome = map_option adoption_outcome_as_str (ta_outcome r),
      sq_created_ms = ta_created_ms r, sq_updated_ms = ta_updated_ms r\<rparr>"

definition read_saga_row :: "saga_columns \<Rightarrow> thread_adoption_saga option" where
  "read_saga_row q =
     (if sq_generation q < 0 then None
      else case adoption_state_parse (sq_state q) of
        None \<Rightarrow> None
      | Some state \<Rightarrow>
          (case (case sq_outcome q of None \<Rightarrow> Some None | Some v \<Rightarrow> map_option Some (adoption_outcome_parse v)) of
             None \<Rightarrow> None
           | Some outcome \<Rightarrow>
               if (state = Terminal) \<noteq> (outcome \<noteq> None) then None
               else Some \<lparr>ta_scope_key = sq_scope_key q, ta_codex_thread_id = sq_codex_thread_id q,
                      ta_generation = nat (sq_generation q), ta_state = state, ta_outcome = outcome,
                      ta_created_ms = sq_created_ms q, ta_updated_ms = sq_updated_ms q\<rparr>))"

definition generation_i64 :: "nat \<Rightarrow> (store_error, int) result" where
  "generation_i64 generation =
     (if int generation \<le> i64_max then Inr (int generation)
      else Inl (CapacityExceeded ''encoding a thread adoption generation''))"

definition sql_update :: "('r \<Rightarrow> bool) \<Rightarrow> ('r \<Rightarrow> 'r) \<Rightarrow> 'r list \<Rightarrow> nat \<times> 'r list" where
  "sql_update P f t = (length (filter P t), map (\<lambda>r. if P r then f r else r) t)"

section \<open>Reads and requirements\<close>

definition read_optional_saga :: "string \<Rightarrow> thread_adoption_saga option \<Rightarrow> (store_error, thread_adoption_saga option) result" where
  "read_optional_saga context' row =
     (case row of
        None \<Rightarrow> Inr None
      | Some r \<Rightarrow> (case read_saga_row (stored_saga r) of None \<Rightarrow> Inl (Sqlite context' None) | Some saga \<Rightarrow> Inr (Some saga)))"

definition read_saga_by_scope :: "adoption_tables \<Rightarrow> string \<Rightarrow> (store_error, thread_adoption_saga option) result" where
  "read_saga_by_scope s key =
     read_optional_saga ''reading a thread adoption saga'' (List.find (\<lambda>r. ta_scope_key r = key) (at_sagas s))"

definition require_scope :: "adoption_tables \<Rightarrow> string \<Rightarrow> (store_error, unit) result" where
  "require_scope s key =
     ensure (list_ex (\<lambda>r. sc_scope_key r = key) (at_scopes s)) (NotFound ''reserving adoption for an unknown scope'')"

definition blocks_adoption :: "turn_row \<Rightarrow> bool" where
  "blocks_adoption r \<longleftrightarrow> tn_state r = StStarting \<or> tn_state r = StRunning \<or> tn_state r = StUncertain"

definition require_no_live_turn :: "adoption_tables \<Rightarrow> string \<Rightarrow> string \<Rightarrow> (store_error, unit) result" where
  "require_no_live_turn s key context' =
     ensure (\<not> list_ex (\<lambda>r. tn_scope_key r = key \<and> blocks_adoption r) (at_turns s)) (InvalidTransition context')"

definition active_mapping_identity :: "adoption_tables \<Rightarrow> string \<Rightarrow> (string \<times> thread_origin) option" where
  "active_mapping_identity s key = map_option (\<lambda>r. (th_codex_thread_id r, th_origin r)) (active_of (at_threads s) key)"

definition require_scope_available :: "adoption_tables \<Rightarrow> string \<Rightarrow> (store_error, unit) result" where
  "require_scope_available s key =
     result_bind
       (case active_mapping_identity s key of
          Some (_, ExternallyAdopted) \<Rightarrow> Inl (InvalidTransition ''reserving while the scope owns an adopted thread'')
        | _ \<Rightarrow> Inr ())
       (\<lambda>_. result_bind (read_saga_by_scope s key) (\<lambda>saga.
          case saga of
            Some row \<Rightarrow> ensure (ta_state row = Terminal) (InvalidTransition ''reserving while the scope has a live adoption saga'')
          | None \<Rightarrow> Inr ()))"

definition require_target_mapping_available :: "adoption_tables \<Rightarrow> string \<Rightarrow> (store_error, unit) result" where
  "require_target_mapping_available s thread_id =
     ensure (\<not> list_ex (\<lambda>r. th_codex_thread_id r = thread_id \<and> th_status r = ThreadActive) (at_threads s))
       (InvalidTransition ''adopting a thread with an active bridge mapping'')"

definition require_target_available :: "adoption_tables \<Rightarrow> string \<Rightarrow> string \<Rightarrow> (store_error, unit) result" where
  "require_target_available s key thread_id =
     result_bind (require_target_mapping_available s thread_id) (\<lambda>_.
       ensure (\<not> list_ex (\<lambda>r. ta_codex_thread_id r = thread_id \<and> ta_state r \<noteq> Terminal \<and> ta_scope_key r \<noteq> key) (at_sagas s))
         (InvalidTransition ''reserving a thread already claimed by another scope''))"

text \<open>The stored generation of a mapping is an \<open>i64\<close>; it is compared with the encoded generation of the saga.\<close>

definition owned_row :: "string \<Rightarrow> string \<Rightarrow> int \<Rightarrow> thread_row \<Rightarrow> bool" where
  "owned_row key thread_id generation r \<longleftrightarrow>
     th_scope_key r = key \<and> th_codex_thread_id r = thread_id \<and> map_option int (th_adoption_generation r) = Some generation \<and>
     th_status r = ThreadActive \<and> th_origin r = ExternallyAdopted"

definition owned_mapping_exists :: "adoption_tables \<Rightarrow> string \<Rightarrow> string \<Rightarrow> int \<Rightarrow> bool" where
  "owned_mapping_exists s key thread_id generation = list_ex (owned_row key thread_id generation) (at_threads s)"

definition require_owned_mapping :: "adoption_tables \<Rightarrow> string \<Rightarrow> string \<Rightarrow> int \<Rightarrow> (store_error, unit) result" where
  "require_owned_mapping s key thread_id generation =
     ensure (owned_mapping_exists s key thread_id generation)
       (InvalidTransition ''transitioning an adoption without its exact active mapping'')"

definition require_exact_saga :: "adoption_tables \<Rightarrow> string \<Rightarrow> string \<Rightarrow> nat \<Rightarrow> (store_error, thread_adoption_saga) result" where
  "require_exact_saga s key thread_id generation =
     result_bind (read_saga_by_scope s key) (\<lambda>found.
       case found of
         None \<Rightarrow> Inl (NotFound ''transitioning an unknown thread adoption saga'')
       | Some saga \<Rightarrow>
           if ta_generation saga \<noteq> generation \<or> ta_codex_thread_id saga \<noteq> thread_id
           then Inl (InvalidTransition ''transitioning a stale thread adoption generation'')
           else Inr saga)"

definition require_state :: "thread_adoption_saga \<Rightarrow> thread_adoption_state list \<Rightarrow> string \<Rightarrow> (store_error, unit) result" where
  "require_state saga allowed context' = ensure (ta_state saga \<in> set allowed) (InvalidTransition context')"

section \<open>Reservation\<close>

definition next_adoption_generation :: "thread_adoption_saga option \<Rightarrow> (store_error, nat) result" where
  "next_adoption_generation previous =
     (case previous of
        None \<Rightarrow> Inr 1
      | Some row \<Rightarrow>
          if ta_state row \<noteq> Terminal then Inl (InvalidTransition ''replacing a live thread adoption saga'')
          else if ta_generation row + 1 > u64_max then Inl (CapacityExceeded ''advancing a thread adoption generation'')
          else Inr (ta_generation row + 1))"

text \<open>The index \<open>thread_adoption_one_live_per_thread\<close> on a row of the scope about to be live.\<close>

definition saga_conflict :: "adoption_tables \<Rightarrow> string \<Rightarrow> string \<Rightarrow> bool" where
  "saga_conflict s key thread_id =
     list_ex (\<lambda>r. ta_codex_thread_id r = thread_id \<and> ta_state r \<noteq> Terminal \<and> ta_scope_key r \<noteq> key) (at_sagas s)"

definition write_reservation :: "thread_adoption_saga option \<Rightarrow> thread_adoption_saga \<Rightarrow> adoption_tables \<Rightarrow> (store_error, adoption_tables) result" where
  "write_reservation previous row s =
     (if previous \<noteq> None
      then if saga_conflict s (ta_scope_key row) (ta_codex_thread_id row)
           then Inl (Sqlite ''replacing a terminal adoption saga'' (Some 2067))
           else Inr (s\<lparr>at_sagas := snd (sql_update (\<lambda>r. ta_scope_key r = ta_scope_key row \<and> ta_state r = Terminal) (\<lambda>_. row) (at_sagas s))\<rparr>)
      else if list_ex (\<lambda>r. ta_scope_key r = ta_scope_key row) (at_sagas s)
           then Inl (Sqlite ''recording an adoption reservation'' (Some 1555))
           else if saga_conflict s (ta_scope_key row) (ta_codex_thread_id row)
           then Inl (Sqlite ''recording an adoption reservation'' (Some 2067))
           else Inr (s\<lparr>at_sagas := at_sagas s @ [row]\<rparr>))"

definition reserve_thread_adoption :: "int \<Rightarrow> scope_key \<Rightarrow> string \<Rightarrow> (adoption_tables, thread_adoption_saga) job" where
  "reserve_thread_adoption now scope thread_id s =
     (if thread_id = [] then Inl (InvalidTransition ''reserving an empty persisted thread identifier'')
      else let key = scope_to_string scope in
        run_sized (request_bytes [key, thread_id]) (\<lambda>s.
          result_bind (all_ok [require_scope s key, require_no_live_turn s key ''reserving a thread adoption'',
              require_target_available s key thread_id, require_scope_available s key]) (\<lambda>_.
          result_bind (read_saga_by_scope s key) (\<lambda>previous.
          result_bind (next_adoption_generation previous) (\<lambda>generation.
          result_bind (generation_i64 generation) (\<lambda>_.
            let row = \<lparr>ta_scope_key = key, ta_codex_thread_id = thread_id, ta_generation = generation, ta_state = Acquiring,
                       ta_outcome = None, ta_created_ms = now, ta_updated_ms = now\<rparr> in
            result_bind (write_reservation previous row s) (\<lambda>s'. Inr (row, s'))))))) s)"

section \<open>Commit\<close>

definition retire_bridge_mapping :: "int \<Rightarrow> string \<Rightarrow> string \<Rightarrow> thread_table \<Rightarrow> thread_table" where
  "retire_bridge_mapping now key thread_id t =
     snd (sql_update (\<lambda>r. th_scope_key r = key \<and> th_codex_thread_id r = thread_id \<and> th_status r = ThreadActive \<and> th_origin r = BridgeCreated)
       (\<lambda>r. r\<lparr>th_status := ThreadArchived, th_archived_ms := Some now\<rparr>) t)"

definition retire_current_mapping :: "int \<Rightarrow> string \<Rightarrow> adoption_tables \<Rightarrow> (store_error, adoption_tables) result" where
  "retire_current_mapping now key s =
     (case active_mapping_identity s key of
        None \<Rightarrow> Inr s
      | Some (current, origin) \<Rightarrow>
          if origin \<noteq> BridgeCreated
          then Inl (InvalidTransition ''replacing an externally adopted mapping without release'')
          else Inr (s\<lparr>at_threads := retire_bridge_mapping now key current (at_threads s)\<rparr>))"

definition advance_saga :: "thread_adoption_state \<Rightarrow> thread_adoption_outcome option \<Rightarrow> int \<Rightarrow> thread_adoption_saga \<Rightarrow> thread_adoption_saga" where
  "advance_saga state outcome now r = r\<lparr>ta_state := state, ta_outcome := outcome, ta_updated_ms := now\<rparr>"

definition exact_saga_row :: "string \<Rightarrow> string \<Rightarrow> int \<Rightarrow> thread_adoption_saga \<Rightarrow> bool" where
  "exact_saga_row key thread_id generation r \<longleftrightarrow>
     ta_scope_key r = key \<and> int (ta_generation r) = generation \<and> ta_codex_thread_id r = thread_id"

text \<open>The \<open>INSERT ... ON CONFLICT DO UPDATE ... WHERE threads.status = 'archived'\<close> with its row count.\<close>

definition adopted_thread_row :: "int \<Rightarrow> string \<Rightarrow> string \<Rightarrow> int \<Rightarrow> thread_row" where
  "adopted_thread_row now key thread_id generation =
     \<lparr>th_scope_key = key, th_codex_thread_id = thread_id, th_status = ThreadActive, th_created_ms = now, th_archived_ms = None,
      th_context_tools_version = 0, th_origin = ExternallyAdopted, th_adoption_generation = Some (nat generation)\<rparr>"

definition upsert_adopted_mapping :: "int \<Rightarrow> string \<Rightarrow> string \<Rightarrow> int \<Rightarrow> thread_table \<Rightarrow> (store_error, nat \<times> thread_table) result" where
  "upsert_adopted_mapping now key thread_id generation t =
     (let row = adopted_thread_row now key thread_id generation in
      case thread_of t key thread_id of
        None \<Rightarrow> if active_conflict t key thread_id then Inl (Sqlite ''committing an adopted thread mapping'' (Some 2067))
                else Inr (1, t @ [row])
      | Some old \<Rightarrow>
          if th_status old \<noteq> ThreadArchived then Inr (0, t)
          else if active_conflict t key thread_id then Inl (Sqlite ''committing an adopted thread mapping'' (Some 2067))
          else Inr (sql_update (\<lambda>r. th_scope_key r = key \<and> th_codex_thread_id r = thread_id) (\<lambda>_. row) t))"

definition update_adopted_workspace :: "int \<Rightarrow> string \<Rightarrow> string \<Rightarrow> string \<Rightarrow> adoption_tables \<Rightarrow> (store_error, adoption_tables) result" where
  "update_adopted_workspace now key cwd fingerprint s =
     (let (updated, scopes) = sql_update (\<lambda>r. sc_scope_key r = key)
            (\<lambda>r. r\<lparr>sc_cwd := cwd, sc_policy_fingerprint := fingerprint, sc_updated_ms := now\<rparr>) (at_scopes s)
      in if updated \<noteq> 1 then Inl (NotFound ''committing adoption for an unknown scope'') else Inr (s\<lparr>at_scopes := scopes\<rparr>))"

definition own_saga :: "int \<Rightarrow> string \<Rightarrow> string \<Rightarrow> int \<Rightarrow> adoption_tables \<Rightarrow> (store_error, adoption_tables) result" where
  "own_saga now key thread_id generation s =
     (let (advanced, sagas) = sql_update (\<lambda>r. exact_saga_row key thread_id generation r \<and> ta_state r = Acquiring)
            (\<lambda>r. r\<lparr>ta_state := Owned, ta_updated_ms := now\<rparr>) (at_sagas s)
      in if advanced \<noteq> 1 then Inl (InvalidTransition ''committing a stale thread adoption reservation'')
         else Inr (s\<lparr>at_sagas := sagas\<rparr>))"

definition map_adopted_thread :: "int \<Rightarrow> string \<Rightarrow> string \<Rightarrow> int \<Rightarrow> adoption_tables \<Rightarrow> (store_error, thread_row \<times> adoption_tables) result" where
  "map_adopted_thread now key thread_id generation s =
     result_bind (upsert_adopted_mapping now key thread_id generation (at_threads s)) (\<lambda>(inserted, t).
       if inserted \<noteq> 1 then Inl (InvalidTransition ''committing a conflicting adopted thread mapping'')
       else case List.find (\<lambda>r. th_scope_key r = key \<and> th_codex_thread_id r = thread_id \<and> th_status r = ThreadActive) t of
              None \<Rightarrow> Inl (Sqlite ''reading a committed adopted mapping'' None)
            | Some row \<Rightarrow> Inr (row, s\<lparr>at_threads := t\<rparr>))"

definition commit_thread_adoption :: "int \<Rightarrow> thread_adoption_saga \<Rightarrow> string option \<Rightarrow> string \<Rightarrow> (adoption_tables, thread_row) job" where
  "commit_thread_adoption now reservation canonical_cwd fingerprint s =
     (let key = ta_scope_key reservation; thread_id = ta_codex_thread_id reservation in
      result_bind (generation_i64 (ta_generation reservation)) (\<lambda>generation.
        case canonical_cwd of
          None \<Rightarrow> Inl (InvalidPath ''persisting a non-UTF-8 adopted workspace path'')
        | Some cwd \<Rightarrow>
            run_sized (request_bytes [key, thread_id, cwd, fingerprint]) (\<lambda>s.
              result_bind (require_exact_saga s key thread_id (ta_generation reservation)) (\<lambda>saga.
              result_bind (all_ok [require_state saga [Acquiring] ''committing an adoption'',
                  require_no_live_turn s key ''committing a thread adoption'']) (\<lambda>_.
              result_bind (update_adopted_workspace now key cwd fingerprint s) (\<lambda>s.
              result_bind (require_target_mapping_available s thread_id) (\<lambda>_.
              result_bind (retire_current_mapping now key s) (\<lambda>s.
              result_bind (own_saga now key thread_id generation s) (\<lambda>s.
                map_adopted_thread now key thread_id generation s))))))) s))"

section \<open>Failure, release and fences\<close>

text \<open>What the transitions of one generation share: the encoded generation, the request size and the exact saga.\<close>

definition with_exact_saga ::
    "thread_adoption_saga \<Rightarrow> (string \<Rightarrow> string \<Rightarrow> int \<Rightarrow> thread_adoption_saga \<Rightarrow> (adoption_tables, thread_adoption_saga) job) \<Rightarrow>
     (adoption_tables, thread_adoption_saga) job" where
  "with_exact_saga reservation body s =
     (let key = ta_scope_key reservation; thread_id = ta_codex_thread_id reservation in
      result_bind (generation_i64 (ta_generation reservation)) (\<lambda>generation.
        run_sized (request_bytes [key, thread_id]) (\<lambda>s.
          result_bind (require_exact_saga s key thread_id (ta_generation reservation)) (\<lambda>saga. body key thread_id generation saga s)) s))"

definition set_saga :: "(thread_adoption_saga \<Rightarrow> bool) \<Rightarrow> thread_adoption_state \<Rightarrow> thread_adoption_outcome option \<Rightarrow> int \<Rightarrow> adoption_tables \<Rightarrow> adoption_tables" where
  "set_saga P state outcome now s = s\<lparr>at_sagas := snd (sql_update P (advance_saga state outcome now) (at_sagas s))\<rparr>"

definition finish_thread_adoption_acquisition_failure :: "int \<Rightarrow> thread_adoption_saga \<Rightarrow> (adoption_tables, thread_adoption_saga) job" where
  "finish_thread_adoption_acquisition_failure now reservation =
     with_exact_saga reservation (\<lambda>key thread_id generation saga s.
       result_bind (all_ok [require_state saga [Acquiring, RecoveryRequired] ''finishing a failed acquisition'',
           require_no_live_turn s key ''finishing a failed acquisition'',
           ensure (\<not> owned_mapping_exists s key thread_id generation) (InvalidTransition ''failing an acquisition with a committed mapping'')])
         (\<lambda>_. Inr (advance_saga Terminal (Some AcquisitionFailed) now saga,
                   set_saga (exact_saga_row key thread_id generation) Terminal (Some AcquisitionFailed) now s)))"

definition begin_thread_adoption_release :: "int \<Rightarrow> thread_adoption_saga \<Rightarrow> (adoption_tables, thread_adoption_saga) job" where
  "begin_thread_adoption_release now reservation =
     with_exact_saga reservation (\<lambda>key thread_id generation saga s.
       result_bind (all_ok [require_state saga [Owned, RecoveryRequired, ReleaseFailed] ''beginning an adoption release'',
           require_no_live_turn s key ''beginning a thread adoption release'',
           require_owned_mapping s key thread_id generation])
         (\<lambda>_. Inr (advance_saga Releasing None now saga,
                   set_saga (exact_saga_row key thread_id generation) Releasing None now s)))"

definition retire_adopted_mapping :: "int \<Rightarrow> string \<Rightarrow> string \<Rightarrow> int \<Rightarrow> adoption_tables \<Rightarrow> (store_error, adoption_tables) result" where
  "retire_adopted_mapping now key thread_id generation s =
     (let (retired, t) = sql_update (owned_row key thread_id generation)
            (\<lambda>r. r\<lparr>th_status := ThreadArchived, th_archived_ms := Some now\<rparr>) (at_threads s)
      in if retired \<noteq> 1 then Inl (InvalidTransition ''retiring a stale adopted mapping'') else Inr (s\<lparr>at_threads := t\<rparr>))"

definition finish_thread_adoption_release ::
    "int \<Rightarrow> thread_adoption_saga \<Rightarrow> thread_adoption_release_result \<Rightarrow> (adoption_tables, thread_adoption_saga) job" where
  "finish_thread_adoption_release now reservation outcome =
     with_exact_saga reservation (\<lambda>key thread_id generation saga s.
       result_bind (all_ok [require_state saga [Releasing] ''finishing an adoption release'',
           require_no_live_turn s key ''finishing a thread adoption release'',
           require_owned_mapping s key thread_id generation])
         (\<lambda>_. let P = (\<lambda>r. exact_saga_row key thread_id generation r \<and> ta_state r = Releasing) in
              case outcome of
                ReleaseConfirmed \<Rightarrow>
                  result_bind (retire_adopted_mapping now key thread_id generation s) (\<lambda>s.
                    Inr (advance_saga Terminal (Some Released) now saga, set_saga P Terminal (Some Released) now s))
              | ReleaseUnconfirmed \<Rightarrow> Inr (advance_saga ReleaseFailed None now saga, set_saga P ReleaseFailed None now s)))"

definition fence_thread_adoption :: "int \<Rightarrow> thread_adoption_saga \<Rightarrow> (adoption_tables, thread_adoption_saga) job" where
  "fence_thread_adoption now reservation =
     with_exact_saga reservation (\<lambda>key thread_id generation saga s.
       if ta_state saga = Terminal then Inl (InvalidTransition ''fencing a terminal thread adoption saga'')
       else if ta_state saga = RecoveryRequired then Inr (saga, s)
       else Inr (advance_saga RecoveryRequired None now saga,
              set_saga (\<lambda>r. exact_saga_row key thread_id generation r \<and> ta_state r \<noteq> Terminal) RecoveryRequired None now s))"

section \<open>Startup and reads\<close>

text \<open>The two left joins that look for a mapping without its saga and for a saga without its mapping.\<close>

definition adoption_join :: "thread_row \<Rightarrow> thread_adoption_saga \<Rightarrow> bool" where
  "adoption_join t r \<longleftrightarrow> ta_scope_key r = th_scope_key t \<and> ta_codex_thread_id r = th_codex_thread_id t \<and>
     th_adoption_generation t = Some (ta_generation r)"

definition orphaned_mappings :: "adoption_tables \<Rightarrow> nat" where
  "orphaned_mappings s =
     length (filter (\<lambda>t. th_status t = ThreadActive \<and> th_origin t = ExternallyAdopted \<and>
       \<not> list_ex (\<lambda>r. adoption_join t r \<and> ta_state r \<noteq> Terminal) (at_sagas s)) (at_threads s))"

definition missing_mappings :: "adoption_tables \<Rightarrow> nat" where
  "missing_mappings s =
     length (filter (\<lambda>r. ta_state r \<in> {Owned, Releasing, ReleaseFailed} \<and>
       \<not> list_ex (\<lambda>t. adoption_join t r \<and> th_status t = ThreadActive \<and> th_origin t = ExternallyAdopted) (at_threads s)) (at_sagas s))"

definition fence_thread_adoptions_on_startup :: "int \<Rightarrow> (adoption_tables, nat) job" where
  "fence_thread_adoptions_on_startup now =
     run_job (\<lambda>s.
       if orphaned_mappings s \<noteq> 0 then Inl (CorruptData ''fencing an adopted mapping without a live saga'')
       else if missing_mappings s \<noteq> 0 then Inl (CorruptData ''fencing an owned adoption saga without its mapping'')
       else let (changed, sagas) = sql_update (\<lambda>r. ta_state r \<in> {Acquiring, Owned, Releasing, ReleaseFailed})
                  (advance_saga RecoveryRequired None now) (at_sagas s)
            in Inr (changed, s\<lparr>at_sagas := sagas\<rparr>))"

definition thread_adoption_saga_read :: "scope_key \<Rightarrow> (adoption_tables, thread_adoption_saga option) job" where
  "thread_adoption_saga_read scope s =
     (let key = scope_to_string scope in
      run_sized (request_bytes [key]) (\<lambda>s. result_bind (read_saga_by_scope s key) (\<lambda>saga. Inr (saga, s))) s)"

definition active_thread_adoption :: "scope_key \<Rightarrow> (adoption_tables, thread_adoption_saga option) job" where
  "active_thread_adoption scope s =
     (let key = scope_to_string scope in
      run_sized (request_bytes [key]) (\<lambda>s.
        result_bind (read_optional_saga ''reading an active thread adoption saga''
            (List.find (\<lambda>r. ta_scope_key r = key \<and> ta_state r \<noteq> Terminal) (at_sagas s)))
          (\<lambda>saga. Inr (saga, s))) s)"

definition thread_adoption_target_available :: "string \<Rightarrow> (adoption_tables, bool) job" where
  "thread_adoption_target_available thread_id s =
     (if thread_id = [] then Inr (False, s)
      else run_sized (request_bytes [thread_id]) (\<lambda>s.
        Inr (\<not> (list_ex (\<lambda>r. th_codex_thread_id r = thread_id \<and> th_status r = ThreadActive) (at_threads s) \<or>
                list_ex (\<lambda>r. ta_codex_thread_id r = thread_id \<and> ta_state r \<noteq> Terminal) (at_sagas s)), s)) s)"

end
