(* ===== verification/Adoption_Safety.thy ===== *)
theory Adoption_Safety
  imports Adoption_Store
begin

text \<open>
  The invariant that ties the mappings of adopted threads to their sagas, kept by every operation of
  \<open>Adoption_Store\<close> and by the thread operations of \<open>Turn_Store\<close>, and what follows from it for whole runs.
\<close>

section \<open>The invariant\<close>

definition adopted_in :: "thread_table \<Rightarrow> thread_row set" where
  "adopted_in t = {m \<in> set t. th_status m = ThreadActive \<and> th_origin m = ExternallyAdopted}"

definition saga_row_ok :: "thread_adoption_saga \<Rightarrow> bool" where
  "saga_row_ok r \<longleftrightarrow> 0 < ta_generation r \<and> int (ta_generation r) \<le> i64_max \<and> ta_codex_thread_id r \<noteq> [] \<and>
     (ta_state r = Terminal \<longleftrightarrow> ta_outcome r \<noteq> None)"

definition thread_shape_ok :: "thread_row \<Rightarrow> bool" where
  "thread_shape_ok r \<longleftrightarrow> (th_origin r = BridgeCreated \<longleftrightarrow> th_adoption_generation r = None)"

definition live_sagas :: "thread_adoption_saga list \<Rightarrow> thread_adoption_saga list" where
  "live_sagas t = filter (\<lambda>r. ta_state r \<noteq> Terminal) t"

text \<open>A saga and the adopted mapping it speaks for, once it has one.\<close>

definition saga_mapping_ok :: "thread_table \<Rightarrow> thread_adoption_saga \<Rightarrow> bool" where
  "saga_mapping_ok t r \<longleftrightarrow>
     (case ta_state r of
        Acquiring \<Rightarrow> (\<forall>m\<in>adopted_in t. th_scope_key m \<noteq> ta_scope_key r)
      | Terminal \<Rightarrow> (\<forall>m\<in>adopted_in t. th_scope_key m \<noteq> ta_scope_key r)
      | RecoveryRequired \<Rightarrow> (\<forall>m\<in>adopted_in t. th_scope_key m = ta_scope_key r \<longrightarrow> adoption_join m r)
      | _ \<Rightarrow> (\<exists>m\<in>adopted_in t. adoption_join m r))"

definition adoption_wf :: "adoption_tables \<Rightarrow> bool" where
  "adoption_wf s \<longleftrightarrow>
     threads_wf (at_threads s) \<and> list_all thread_shape_ok (at_threads s) \<and>
     distinct (map ta_scope_key (at_sagas s)) \<and> distinct (map ta_codex_thread_id (live_sagas (at_sagas s))) \<and>
     (\<forall>r\<in>set (at_sagas s). saga_row_ok r \<and> saga_mapping_ok (at_threads s) r \<and> ta_scope_key r \<in> sc_scope_key ` set (at_scopes s)) \<and>
     (\<forall>m\<in>adopted_in (at_threads s). th_scope_key m \<in> ta_scope_key ` set (at_sagas s)) \<and>
     distinct (map sc_scope_key (at_scopes s))"

lemma adopted_unique: "threads_wf t \<Longrightarrow> m \<in> adopted_in t \<Longrightarrow> m' \<in> adopted_in t \<Longrightarrow> th_scope_key m = th_scope_key m' \<Longrightarrow> m = m'"
  unfolding threads_wf_def adopted_in_def active_threads_def by (auto simp: distinct_map dest: inj_onD)

lemma saga_unique: "adoption_wf s \<Longrightarrow> r \<in> set (at_sagas s) \<Longrightarrow> r' \<in> set (at_sagas s) \<Longrightarrow> ta_scope_key r = ta_scope_key r' \<Longrightarrow> r = r'"
  unfolding adoption_wf_def by (auto simp: distinct_map dest: inj_onD)

lemma adoption_wf_parts:
  assumes "adoption_wf s"
  shows "threads_wf (at_threads s)" "list_all thread_shape_ok (at_threads s)" "distinct (map ta_scope_key (at_sagas s))"
    "distinct (map ta_codex_thread_id (live_sagas (at_sagas s)))" "distinct (map sc_scope_key (at_scopes s))"
  using assms by (simp_all add: adoption_wf_def)

lemma adoption_wf_row:
  assumes "adoption_wf s" "r \<in> set (at_sagas s)"
  shows "saga_row_ok r" "saga_mapping_ok (at_threads s) r" "ta_scope_key r \<in> sc_scope_key ` set (at_scopes s)"
  using assms by (simp_all add: adoption_wf_def)

lemma join_scope: "adoption_join m r \<Longrightarrow> th_scope_key m = ta_scope_key r"
  by (simp add: adoption_join_def)

lemma saga_mapping_recovery:
  assumes "threads_wf t" "saga_mapping_ok t r" "m \<in> adopted_in t" "th_scope_key m = ta_scope_key r"
  shows "adoption_join m r"
proof -
  have "adoption_join m r" if "m' \<in> adopted_in t" "adoption_join m' r" for m'
    using adopted_unique [OF assms(1) that(1) assms(3)] that(2) assms(4) join_scope [OF that(2)] by simp
  with assms(2-4) show ?thesis by (auto simp: saga_mapping_ok_def split: thread_adoption_state.splits)
qed

text \<open>An adopted mapping is always the one its scope's saga names, and that saga is not terminal.\<close>

lemma adopted_has_saga:
  assumes "adoption_wf s" "m \<in> adopted_in (at_threads s)"
  obtains r where "r \<in> set (at_sagas s)" "adoption_join m r" "ta_state r \<notin> {Acquiring, Terminal}"
proof -
  from assms obtain r where r: "r \<in> set (at_sagas s)" "ta_scope_key r = th_scope_key m" unfolding adoption_wf_def by (metis imageE)
  then have ok: "saga_mapping_ok (at_threads s) r" using adoption_wf_row(2) [OF assms(1)] by blast
  then have "adoption_join m r" using saga_mapping_recovery [OF adoption_wf_parts(1) [OF assms(1)]] assms(2) r(2) by metis
  moreover have "ta_state r \<notin> {Acquiring, Terminal}" using ok assms(2) r(2) by (auto simp: saga_mapping_ok_def)
  ultimately show ?thesis using r(1) that by blast
qed

section \<open>Reading a row back\<close>

lemma adoption_state_roundtrip [simp]: "adoption_state_parse (adoption_state_as_str st) = Some st"
  by (cases st) (simp_all add: adoption_state_parse_def)

lemma adoption_outcome_roundtrip [simp]: "adoption_outcome_parse (adoption_outcome_as_str oc) = Some oc"
  by (cases oc) (simp_all add: adoption_outcome_parse_def)

lemma read_stored_saga: "saga_row_ok r \<Longrightarrow> read_saga_row (stored_saga r) = Some r"
  by (cases r; cases "ta_state r"; cases "ta_outcome r")
    (simp_all add: read_saga_row_def stored_saga_def saga_row_ok_def del: adoption_state_as_str.simps)

lemma read_saga_by_scope_wf:
  "adoption_wf s \<Longrightarrow> read_saga_by_scope s key = Inr (List.find (\<lambda>r. ta_scope_key r = key) (at_sagas s))"
  by (auto simp: read_saga_by_scope_def read_optional_saga_def read_stored_saga adoption_wf_row split: option.splits dest: find_SomeD)

lemma require_exact_saga_wf:
  "adoption_wf s \<Longrightarrow> require_exact_saga s key thread_id g = Inr r \<longleftrightarrow>
     r \<in> set (at_sagas s) \<and> ta_scope_key r = key \<and> ta_codex_thread_id r = thread_id \<and> ta_generation r = g"
  using find_unique [OF adoption_wf_parts(3)]
  by (fastforce simp: require_exact_saga_def read_saga_by_scope_wf find_None_iff split: option.splits if_splits dest: find_SomeD)

lemma generation_i64_Inr [simp]: "generation_i64 g = Inr i \<longleftrightarrow> int g \<le> i64_max \<and> i = int g"
  by (auto simp: generation_i64_def)

lemma with_exact_sagaD:
  assumes "adoption_wf s" "with_exact_saga reservation body s = Inr x"
  obtains r where "r \<in> set (at_sagas s)" "ta_scope_key reservation = ta_scope_key r"
    "ta_codex_thread_id reservation = ta_codex_thread_id r" "ta_generation reservation = ta_generation r"
    "body (ta_scope_key r) (ta_codex_thread_id r) (int (ta_generation r)) r s = Inr x"
  using assms(2)
  by (auto simp: with_exact_saga_def Let_def require_exact_saga_wf [OF assms(1)] dest!: run_sized_Inr intro: that)

section \<open>Replacing one row\<close>

lemma sql_update_one:
  assumes "distinct t" "r \<in> set t" "\<And>x. x \<in> set t \<Longrightarrow> P x \<longleftrightarrow> x = r"
  obtains us vs where "t = us @ r # vs" "sql_update P f t = (1, us @ f r # vs)"
proof -
  from assms(2) obtain us vs where t: "t = us @ r # vs" by (auto dest: split_list)
  with assms(1) have "r \<notin> set us" "r \<notin> set vs" by auto
  with assms(3) have "\<And>x. x \<in> set us \<union> set vs \<Longrightarrow> \<not> P x" "P r" unfolding t by auto
  then have "sql_update P f t = (1, us @ f r # vs)" by (simp add: t sql_update_def map_idI filter_False)
  with t show ?thesis by (rule that)
qed

text \<open>
  The one lemma behind every transition: a saga row is replaced by one of the same scope, the mappings of other scopes stay, and the
  new row fits the mapping of its own scope.
\<close>

lemma replace_saga_wf:
  assumes "adoption_wf s" "at_sagas s = us @ r # vs" "ta_scope_key r' = ta_scope_key r" "saga_row_ok r'"
    and "ta_state r' \<noteq> Terminal \<Longrightarrow> ta_codex_thread_id r' \<notin> ta_codex_thread_id ` set (live_sagas (us @ vs))"
    and "threads_wf t" "list_all thread_shape_ok t" "saga_mapping_ok t r'"
    and same: "\<And>m. th_scope_key m \<noteq> ta_scope_key r \<Longrightarrow> m \<in> adopted_in t \<longleftrightarrow> m \<in> adopted_in (at_threads s)"
  shows "adoption_wf (s\<lparr>at_threads := t, at_sagas := us @ r' # vs\<rparr>)"
proof -
  have d: "distinct (map ta_scope_key (us @ r # vs))" using assms(1,2) by (simp add: adoption_wf_def)
  have keep: "saga_mapping_ok t x" if "x \<in> set us \<union> set vs" for x
  proof -
    have "ta_scope_key x \<noteq> ta_scope_key r" using that d by (auto simp: image_iff)
    moreover have "saga_mapping_ok (at_threads s) x" using that assms(1,2) by (auto simp: adoption_wf_def)
    ultimately show ?thesis
      using same by (auto simp: saga_mapping_ok_def adoption_join_def split: thread_adoption_state.splits)
  qed
  have "\<forall>m\<in>adopted_in t. th_scope_key m \<in> ta_scope_key ` set (us @ r' # vs)"
  proof
    fix m assume "m \<in> adopted_in t"
    then show "th_scope_key m \<in> ta_scope_key ` set (us @ r' # vs)"
      using same [of m] assms(1-3) by (cases "th_scope_key m = ta_scope_key r") (auto simp: adoption_wf_def)
  qed
  moreover have "distinct (map ta_codex_thread_id (live_sagas (us @ r' # vs)))"
    using assms(1,2,5) by (cases "ta_state r' = Terminal") (auto simp: adoption_wf_def live_sagas_def split: if_splits)
  ultimately show ?thesis using assms(1-4,6-8) d keep by (auto simp: adoption_wf_def)
qed

lemma advance_saga_wf:
  assumes "adoption_wf s" "r \<in> set (at_sagas s)" "\<And>x. x \<in> set (at_sagas s) \<Longrightarrow> P x \<longleftrightarrow> x = r"
    and "ta_state r \<noteq> Terminal \<or> st = Terminal" "st = Terminal \<longleftrightarrow> oc \<noteq> None"
    and "threads_wf t" "list_all thread_shape_ok t" "saga_mapping_ok t (advance_saga st oc now r)"
    and "\<And>m. th_scope_key m \<noteq> ta_scope_key r \<Longrightarrow> m \<in> adopted_in t \<longleftrightarrow> m \<in> adopted_in (at_threads s)"
  shows "adoption_wf (set_saga P st oc now (s\<lparr>at_threads := t\<rparr>))"
proof -
  have "distinct (at_sagas s)" using adoption_wf_parts(3) [OF assms(1)] by (simp add: distinct_map)
  then obtain us vs where e: "at_sagas s = us @ r # vs" "sql_update P (advance_saga st oc now) (at_sagas s) = (1, us @ advance_saga st oc now r # vs)"
    using sql_update_one [OF _ assms(2,3)] by metis
  have "saga_row_ok (advance_saga st oc now r)" using adoption_wf_row(1) [OF assms(1,2)] assms(5) by (simp add: saga_row_ok_def advance_saga_def)
  moreover have "ta_codex_thread_id r \<notin> ta_codex_thread_id ` set (live_sagas (us @ vs))" if "st \<noteq> Terminal"
    using that assms(4) adoption_wf_parts(4) [OF assms(1)] by (auto simp: e(1) live_sagas_def)
  ultimately have "adoption_wf (s\<lparr>at_threads := t, at_sagas := us @ advance_saga st oc now r # vs\<rparr>)"
    using assms by (intro replace_saga_wf [OF assms(1) e(1)]) (simp_all add: advance_saga_def)
  then show ?thesis by (simp add: set_saga_def e(2))
qed

section \<open>Release, failure and fences keep it\<close>

lemma exact_saga_row_iff:
  "adoption_wf s \<Longrightarrow> r \<in> set (at_sagas s) \<Longrightarrow> x \<in> set (at_sagas s) \<Longrightarrow>
     exact_saga_row (ta_scope_key r) (ta_codex_thread_id r) (int (ta_generation r)) x \<longleftrightarrow> x = r"
  using saga_unique [of s r x] by (auto simp: exact_saga_row_def)

lemma owned_row_iff:
  "owned_row (ta_scope_key r) (ta_codex_thread_id r) (int (ta_generation r)) m \<longleftrightarrow>
     th_status m = ThreadActive \<and> th_origin m = ExternallyAdopted \<and> adoption_join m r"
  by (auto simp: owned_row_def adoption_join_def)

lemma owned_mapping_exists_iff:
  "owned_mapping_exists s (ta_scope_key r) (ta_codex_thread_id r) (int (ta_generation r)) \<longleftrightarrow>
     (\<exists>m\<in>adopted_in (at_threads s). adoption_join m r)"
  by (auto simp: owned_mapping_exists_def list_ex_iff owned_row_iff adopted_in_def)

lemma adopted_archive_row:
  "m \<in> adopted_in (archive_row now key thread_id t) \<longleftrightarrow> m \<in> adopted_in t \<and> thread_key m \<noteq> (key, thread_id)"
  by (auto simp: adopted_in_def archive_row_def split: if_splits)

lemma archive_row_shape: "list_all thread_shape_ok t \<Longrightarrow> list_all thread_shape_ok (archive_row now key thread_id t)"
  by (auto simp: archive_row_def thread_shape_ok_def list_all_iff)

lemma saga_mapping_simps:
  "saga_mapping_ok t (advance_saga Terminal oc now r) \<longleftrightarrow> (\<forall>m\<in>adopted_in t. th_scope_key m \<noteq> ta_scope_key r)"
  "saga_mapping_ok t (advance_saga RecoveryRequired oc now r) \<longleftrightarrow> (\<forall>m\<in>adopted_in t. th_scope_key m = ta_scope_key r \<longrightarrow> adoption_join m r)"
  "st \<in> {Owned, Releasing, ReleaseFailed} \<Longrightarrow> saga_mapping_ok t (advance_saga st oc now r) \<longleftrightarrow> (\<exists>m\<in>adopted_in t. adoption_join m r)"
  by (auto simp: saga_mapping_ok_def advance_saga_def adoption_join_def)

lemma finish_failure_wf:
  assumes "adoption_wf s" "finish_thread_adoption_acquisition_failure now res s = Inr (a, s')"
  shows "adoption_wf s'"
proof -
  from assms(2) obtain r where r: "r \<in> set (at_sagas s)" "ta_state r \<in> {Acquiring, RecoveryRequired}"
      "\<not> (\<exists>m\<in>adopted_in (at_threads s). adoption_join m r)"
    and s': "s' = set_saga (exact_saga_row (ta_scope_key r) (ta_codex_thread_id r) (int (ta_generation r))) Terminal (Some AcquisitionFailed) now s"
    unfolding finish_thread_adoption_acquisition_failure_def
    by (elim with_exact_sagaD [OF assms(1)]) (auto simp: require_state_def owned_mapping_exists_iff)
  have "\<forall>m\<in>adopted_in (at_threads s). th_scope_key m \<noteq> ta_scope_key r"
    using r(3) saga_mapping_recovery [OF adoption_wf_parts(1) adoption_wf_row(2)] assms(1) r(1) by blast
  then have "adoption_wf (set_saga (exact_saga_row (ta_scope_key r) (ta_codex_thread_id r) (int (ta_generation r))) Terminal
      (Some AcquisitionFailed) now (s\<lparr>at_threads := at_threads s\<rparr>))"
    using assms(1) r(1) by (intro advance_saga_wf) (simp_all add: exact_saga_row_iff adoption_wf_parts saga_mapping_simps)
  then show ?thesis by (simp add: s')
qed

lemma begin_release_wf:
  assumes "adoption_wf s" "begin_thread_adoption_release now res s = Inr (a, s')"
  shows "adoption_wf s'"
proof -
  from assms(2) obtain r where r: "r \<in> set (at_sagas s)" "ta_state r \<in> {Owned, RecoveryRequired, ReleaseFailed}"
      "\<exists>m\<in>adopted_in (at_threads s). adoption_join m r"
    and s': "s' = set_saga (exact_saga_row (ta_scope_key r) (ta_codex_thread_id r) (int (ta_generation r))) Releasing None now s"
    unfolding begin_thread_adoption_release_def
    by (elim with_exact_sagaD [OF assms(1)]) (auto simp: require_state_def require_owned_mapping_def owned_mapping_exists_iff)
  then have "adoption_wf (set_saga (exact_saga_row (ta_scope_key r) (ta_codex_thread_id r) (int (ta_generation r))) Releasing None now
      (s\<lparr>at_threads := at_threads s\<rparr>))"
    using assms(1) by (intro advance_saga_wf) (auto simp: exact_saga_row_iff adoption_wf_parts saga_mapping_simps)
  then show ?thesis by (simp add: s')
qed

lemma fence_wf:
  assumes "adoption_wf s" "fence_thread_adoption now res s = Inr (a, s')"
  shows "adoption_wf s'"
proof -
  from assms(2) obtain r where r: "r \<in> set (at_sagas s)" "ta_state r \<noteq> Terminal"
    and s': "s' = s \<or> s' = set_saga (\<lambda>x. exact_saga_row (ta_scope_key r) (ta_codex_thread_id r) (int (ta_generation r)) x \<and>
                          ta_state x \<noteq> Terminal) RecoveryRequired None now s"
    unfolding fence_thread_adoption_def by (elim with_exact_sagaD [OF assms(1)]) (auto split: if_splits)
  have "adoption_wf (set_saga (\<lambda>x. exact_saga_row (ta_scope_key r) (ta_codex_thread_id r) (int (ta_generation r)) x \<and> ta_state x \<noteq> Terminal)
      RecoveryRequired None now (s\<lparr>at_threads := at_threads s\<rparr>))"
    using assms(1) r saga_mapping_recovery [OF adoption_wf_parts(1) adoption_wf_row(2)]
    by (intro advance_saga_wf) (auto simp: exact_saga_row_iff adoption_wf_parts saga_mapping_simps)
  with s' assms(1) show ?thesis by auto
qed

text \<open>The row that a confirmed release retires is the one active row of its scope and thread.\<close>

lemma retire_adopted_is_archive:
  assumes "threads_wf t" "m \<in> adopted_in t" "adoption_join m r"
  shows "snd (sql_update (owned_row (ta_scope_key r) (ta_codex_thread_id r) (int (ta_generation r)))
            (\<lambda>x. x\<lparr>th_status := ThreadArchived, th_archived_ms := Some now\<rparr>) t) = archive_row now (ta_scope_key r) (ta_codex_thread_id r) t"
proof -
  have "owned_row (ta_scope_key r) (ta_codex_thread_id r) (int (ta_generation r)) x \<longleftrightarrow>
          th_scope_key x = ta_scope_key r \<and> th_codex_thread_id x = ta_codex_thread_id r \<and> th_status x = ThreadActive" if "x \<in> set t" for x
  proof -
    have "x = m" if "thread_key x = thread_key m"
      using that \<open>x \<in> set t\<close> assms(1,2) by (auto simp: threads_wf_def thread_keys_ok_def distinct_map adopted_in_def dest: inj_onD)
    with assms(2,3) show ?thesis by (auto simp: owned_row_def adoption_join_def adopted_in_def)
  qed
  then show ?thesis by (simp add: sql_update_def archive_row_def)
qed

text \<open>The saga and the mapping after a finished release attempt.\<close>

definition release_finished :: "int \<Rightarrow> thread_adoption_release_result \<Rightarrow> thread_adoption_saga \<Rightarrow> adoption_tables \<Rightarrow> adoption_tables" where
  "release_finished now outcome r s =
     (let P = \<lambda>x. exact_saga_row (ta_scope_key r) (ta_codex_thread_id r) (int (ta_generation r)) x \<and> ta_state x = Releasing in
      case outcome of
        ReleaseConfirmed \<Rightarrow> set_saga P Terminal (Some Released) now
          (s\<lparr>at_threads := archive_row now (ta_scope_key r) (ta_codex_thread_id r) (at_threads s)\<rparr>)
      | ReleaseUnconfirmed \<Rightarrow> set_saga P ReleaseFailed None now (s\<lparr>at_threads := at_threads s\<rparr>))"

lemma finish_releaseD:
  assumes "adoption_wf s" "finish_thread_adoption_release now res outcome s = Inr (a, s')"
  obtains r where "r \<in> set (at_sagas s)" "ta_state r = Releasing" "\<exists>m\<in>adopted_in (at_threads s). adoption_join m r"
    "ta_scope_key res = ta_scope_key r" "ta_codex_thread_id res = ta_codex_thread_id r" "ta_generation res = ta_generation r"
    "\<not> list_ex (\<lambda>x. tn_scope_key x = ta_scope_key r \<and> blocks_adoption x) (at_turns s)" "s' = release_finished now outcome r s"
proof -
  from assms(2) obtain r where r: "r \<in> set (at_sagas s)" "ta_state r = Releasing" "\<exists>m\<in>adopted_in (at_threads s). adoption_join m r"
      "ta_scope_key res = ta_scope_key r" "ta_codex_thread_id res = ta_codex_thread_id r" "ta_generation res = ta_generation r"
      "\<not> list_ex (\<lambda>x. tn_scope_key x = ta_scope_key r \<and> blocks_adoption x) (at_turns s)"
    and s': "(let P = \<lambda>x. exact_saga_row (ta_scope_key r) (ta_codex_thread_id r) (int (ta_generation r)) x \<and> ta_state x = Releasing in
        case outcome of
          ReleaseConfirmed \<Rightarrow> (\<exists>s1. retire_adopted_mapping now (ta_scope_key r) (ta_codex_thread_id r) (int (ta_generation r)) s = Inr s1 \<and>
            s' = set_saga P Terminal (Some Released) now s1)
        | ReleaseUnconfirmed \<Rightarrow> s' = set_saga P ReleaseFailed None now s)"
    unfolding finish_thread_adoption_release_def
    by (elim with_exact_sagaD [OF assms(1)])
      (auto simp: require_state_def require_no_live_turn_def require_owned_mapping_def owned_mapping_exists_iff Let_def
        split: thread_adoption_release_result.splits)
  obtain m where m: "m \<in> adopted_in (at_threads s)" "adoption_join m r" using r(3) by blast
  have "s' = release_finished now outcome r s"
    using s' retire_adopted_is_archive [OF adoption_wf_parts(1) [OF assms(1)] m, of now]
    by (auto simp: release_finished_def retire_adopted_mapping_def Let_def split: prod.splits if_splits thread_adoption_release_result.splits)
  with r that show ?thesis by blast
qed

lemma finish_release_wf:
  assumes "adoption_wf s" "finish_thread_adoption_release now res outcome s = Inr (a, s')"
  shows "adoption_wf s'"
proof -
  obtain r where r: "r \<in> set (at_sagas s)" "ta_state r = Releasing" "\<exists>m\<in>adopted_in (at_threads s). adoption_join m r"
    and s': "s' = release_finished now outcome r s"
    using finish_releaseD [OF assms] by metis
  let ?P = "\<lambda>x. exact_saga_row (ta_scope_key r) (ta_codex_thread_id r) (int (ta_generation r)) x \<and> ta_state x = Releasing"
  note wf = adoption_wf_parts [OF assms(1)]
  show ?thesis
  proof (cases outcome)
    case ReleaseUnconfirmed
    have "adoption_wf (set_saga ?P ReleaseFailed None now (s\<lparr>at_threads := at_threads s\<rparr>))"
      using assms(1) r by (intro advance_saga_wf) (auto simp: exact_saga_row_iff wf saga_mapping_simps)
    with s' ReleaseUnconfirmed show ?thesis by (simp add: release_finished_def)
  next
    case ReleaseConfirmed
    let ?t = "archive_row now (ta_scope_key r) (ta_codex_thread_id r) (at_threads s)"
    obtain m where m: "m \<in> adopted_in (at_threads s)" "adoption_join m r" using r(3) by blast
    have "th_codex_thread_id x = ta_codex_thread_id r" if "x \<in> adopted_in (at_threads s)" "th_scope_key x = ta_scope_key r" for x
      using adopted_unique [OF wf(1) that(1) m(1)] that(2) m(2) by (simp add: adoption_join_def)
    then have "adoption_wf (set_saga ?P Terminal (Some Released) now (s\<lparr>at_threads := ?t\<rparr>))"
      using assms(1) r wf
      by (intro advance_saga_wf) (auto simp: exact_saga_row_iff archive_row_wf archive_row_shape saga_mapping_simps adopted_archive_row)
    with s' ReleaseConfirmed show ?thesis by (simp add: release_finished_def)
  qed
qed

lemma startup_fence_wf:
  assumes "adoption_wf s" "fence_thread_adoptions_on_startup now s = Inr (n, s')"
  shows "adoption_wf s'"
proof -
  define f where "f r = (if ta_state r \<in> {Acquiring, Owned, Releasing, ReleaseFailed} then advance_saga RecoveryRequired None now r else r)" for r
  from assms(2) have s': "s' = s\<lparr>at_sagas := map f (at_sagas s)\<rparr>"
    by (auto simp: fence_thread_adoptions_on_startup_def sql_update_def f_def [abs_def] split: if_splits)
  have ok: "saga_row_ok (f r) \<and> saga_mapping_ok (at_threads s) (f r)" if "r \<in> set (at_sagas s)" for r
  proof (cases "ta_state r \<in> {Acquiring, Owned, Releasing, ReleaseFailed}")
    case True
    then have "saga_row_ok (f r)" using adoption_wf_row(1) [OF assms(1) that] by (auto simp: f_def saga_row_ok_def advance_saga_def)
    moreover have "saga_mapping_ok (at_threads s) (f r)"
      using True saga_mapping_recovery [OF adoption_wf_parts(1) [OF assms(1)] adoption_wf_row(2) [OF assms(1) that]]
      by (simp add: f_def saga_mapping_simps)
    ultimately show ?thesis ..
  qed (use adoption_wf_row [OF assms(1) that] in \<open>simp add: f_def\<close>)
  have key [simp]: "ta_scope_key (f r) = ta_scope_key r" for r by (simp add: f_def advance_saga_def)
  have "map ta_codex_thread_id (live_sagas (map f t)) = map ta_codex_thread_id (live_sagas t)" for t
    by (induction t) (auto simp: live_sagas_def f_def advance_saga_def)
  with ok show ?thesis using assms(1) by (auto simp: s' adoption_wf_def comp_def image_image)
qed

section \<open>Reservation and commit keep it\<close>

lemma active_ofD: "active_of t key = Some m \<Longrightarrow> m \<in> set t \<and> th_scope_key m = key \<and> th_status m = ThreadActive"
  unfolding active_of_def by (drule find_SomeD) simp

lemma active_of_unique: "threads_wf t \<Longrightarrow> m \<in> set t \<Longrightarrow> th_status m = ThreadActive \<Longrightarrow> active_of t (th_scope_key m) = Some m"
  using find_unique [of th_scope_key "active_threads t" m]
  by (simp add: threads_wf_def active_of_def active_threads_def find_filter conj_commute)

lemma scope_not_adopted:
  "threads_wf t \<Longrightarrow> (\<And>m. active_of t key = Some m \<Longrightarrow> th_origin m \<noteq> ExternallyAdopted) \<Longrightarrow> \<forall>m\<in>adopted_in t. th_scope_key m \<noteq> key"
  using active_of_unique by (auto simp: adopted_in_def)

lemma require_scope_availableD:
  assumes "adoption_wf s" "require_scope_available s key = Inr ()"
  shows "\<forall>m\<in>adopted_in (at_threads s). th_scope_key m \<noteq> key"
    "r \<in> set (at_sagas s) \<Longrightarrow> ta_scope_key r = key \<Longrightarrow> ta_state r = Terminal"
proof -
  have "th_origin m \<noteq> ExternallyAdopted" if "active_of (at_threads s) key = Some m" for m
    using assms(2) that by (auto simp: require_scope_available_def active_mapping_identity_def split: thread_origin.splits)
  then show "\<forall>m\<in>adopted_in (at_threads s). th_scope_key m \<noteq> key"
    using scope_not_adopted adoption_wf_parts(1) [OF assms(1)] by blast
  show "ta_state r = Terminal" if "r \<in> set (at_sagas s)" "ta_scope_key r = key"
    using assms(2) find_unique [OF adoption_wf_parts(3) [OF assms(1)] that(1)] that(2)
    by (auto simp: require_scope_available_def read_saga_by_scope_wf [OF assms(1)])
qed

lemma append_saga_wf:
  assumes "adoption_wf s" "saga_row_ok row" "ta_state row = Acquiring" "ta_scope_key row \<notin> ta_scope_key ` set (at_sagas s)"
    and "ta_codex_thread_id row \<notin> ta_codex_thread_id ` set (live_sagas (at_sagas s))"
    and "\<forall>m\<in>adopted_in (at_threads s). th_scope_key m \<noteq> ta_scope_key row" "ta_scope_key row \<in> sc_scope_key ` set (at_scopes s)"
  shows "adoption_wf (s\<lparr>at_sagas := at_sagas s @ [row]\<rparr>)"
  using assms by (auto simp: adoption_wf_def live_sagas_def saga_mapping_ok_def)

lemma not_saga_conflict:
  "\<not> saga_conflict s key thread_id \<Longrightarrow> (\<And>r. r \<in> set t \<Longrightarrow> r \<in> set (at_sagas s) \<and> ta_scope_key r \<noteq> key) \<Longrightarrow>
     thread_id \<notin> ta_codex_thread_id ` set (live_sagas t)"
  by (force simp: saga_conflict_def list_ex_iff live_sagas_def)

lemma write_reservation_wf:
  assumes "adoption_wf s" "write_reservation (List.find (\<lambda>r. ta_scope_key r = ta_scope_key row) (at_sagas s)) row s = Inr s'"
    and "saga_row_ok row" "ta_state row = Acquiring" "require_scope_available s (ta_scope_key row) = Inr ()"
    and "ta_scope_key row \<in> sc_scope_key ` set (at_scopes s)"
  shows "adoption_wf s'"
proof (cases "List.find (\<lambda>r. ta_scope_key r = ta_scope_key row) (at_sagas s)")
  case None
  then have fresh: "\<And>r. r \<in> set (at_sagas s) \<Longrightarrow> ta_scope_key r \<noteq> ta_scope_key row" by (auto simp: find_None_iff)
  from None assms(2) have "\<not> saga_conflict s (ta_scope_key row) (ta_codex_thread_id row)" and s': "s' = s\<lparr>at_sagas := at_sagas s @ [row]\<rparr>"
    by (auto simp: write_reservation_def split: if_splits)
  then have "ta_codex_thread_id row \<notin> ta_codex_thread_id ` set (live_sagas (at_sagas s))"
    using fresh by (intro not_saga_conflict) auto
  then show ?thesis
    unfolding s' using assms fresh require_scope_availableD(1) [OF assms(1,5)] by (intro append_saga_wf) auto
next
  case (Some r)
  then have r: "r \<in> set (at_sagas s)" "ta_scope_key r = ta_scope_key row" by (auto dest: find_SomeD)
  have t: "ta_state r = Terminal" by (rule require_scope_availableD(2) [OF assms(1,5) r])
  have d: "distinct (at_sagas s)" using adoption_wf_parts(3) [OF assms(1)] by (simp add: distinct_map)
  have iff: "ta_scope_key x = ta_scope_key row \<and> ta_state x = Terminal \<longleftrightarrow> x = r" if "x \<in> set (at_sagas s)" for x
    using r t that saga_unique [OF assms(1) r(1) that] by auto
  obtain us vs where e: "at_sagas s = us @ r # vs"
      "sql_update (\<lambda>x. ta_scope_key x = ta_scope_key row \<and> ta_state x = Terminal) (\<lambda>_. row) (at_sagas s) = (1, us @ row # vs)"
    by (rule sql_update_one [OF d r(1) iff, of "\<lambda>_. row"])
  have "ta_scope_key x \<noteq> ta_scope_key row" if "x \<in> set us \<union> set vs" for x
    using that adoption_wf_parts(3) [OF assms(1)] r(2) by (auto simp: e(1) image_iff)
  moreover have "\<not> saga_conflict s (ta_scope_key row) (ta_codex_thread_id row)"
    and s': "s' = s\<lparr>at_threads := at_threads s, at_sagas := us @ row # vs\<rparr>"
    using assms(2) Some e(2) by (auto simp: write_reservation_def split: if_splits)
  ultimately have "ta_codex_thread_id row \<notin> ta_codex_thread_id ` set (live_sagas (us @ vs))"
    by (intro not_saga_conflict) (auto simp: e(1))
  then show ?thesis
    unfolding s' using assms(1,3,4) r(2) require_scope_availableD(1) [OF assms(1,5)] adoption_wf_parts [OF assms(1)]
    by (intro replace_saga_wf [OF assms(1) e(1)]) (auto simp: saga_mapping_ok_def)
qed

lemma reserve_wf:
  assumes "adoption_wf s" "reserve_thread_adoption now scope thread_id s = Inr (row, s')"
  shows "adoption_wf s'"
proof -
  from assms(2) have nonempty: "thread_id \<noteq> []" by (auto simp: reserve_thread_adoption_def)
  from assms(2) nonempty obtain previous g where
      req: "require_scope s (scope_to_string scope) = Inr ()" "require_scope_available s (scope_to_string scope) = Inr ()"
    and prev: "read_saga_by_scope s (scope_to_string scope) = Inr previous" "next_adoption_generation previous = Inr g" "int g \<le> i64_max"
    and row: "row = \<lparr>ta_scope_key = scope_to_string scope, ta_codex_thread_id = thread_id, ta_generation = g, ta_state = Acquiring,
                     ta_outcome = None, ta_created_ms = now, ta_updated_ms = now\<rparr>"
    and s': "write_reservation previous row s = Inr s'"
    by (auto simp: reserve_thread_adoption_def Let_def dest!: run_sized_Inr)
  have "0 < g" using prev(2) by (auto simp: next_adoption_generation_def split: option.splits if_splits)
  with nonempty prev(3) have "saga_row_ok row" by (simp add: row saga_row_ok_def)
  moreover have "ta_scope_key row \<in> sc_scope_key ` set (at_scopes s)" using req(1) by (force simp: row require_scope_def list_ex_iff)
  moreover have "previous = List.find (\<lambda>r. ta_scope_key r = ta_scope_key row) (at_sagas s)"
    using prev(1) by (simp add: read_saga_by_scope_wf [OF assms(1)] row)
  ultimately show ?thesis using write_reservation_wf [OF assms(1), of row s'] s' req(2) by (simp add: row)
qed

lemma active_conflictD:
  "\<not> active_conflict t key thread_id \<Longrightarrow> r \<in> set t \<Longrightarrow> th_status r = ThreadActive \<Longrightarrow> thread_key r \<noteq> (key, thread_id) \<Longrightarrow>
     th_scope_key r \<noteq> key \<and> th_codex_thread_id r \<noteq> thread_id"
  by (auto simp: active_conflict_def list_ex_iff)

lemma upsert_adopted_mapping_wf:
  assumes "threads_wf t" "list_all thread_shape_ok t" "upsert_adopted_mapping now key thread_id g t = Inr (1, t')"
  shows "threads_wf t' \<and> list_all thread_shape_ok t' \<and> adopted_in t' = insert (adopted_thread_row now key thread_id g) (adopted_in t)"
proof -
  let ?row = "adopted_thread_row now key thread_id g"
  have keys: "distinct (map thread_key t)" using assms(1) by (simp add: threads_wf_def thread_keys_ok_def)
  have conflict: "\<not> active_conflict t key thread_id"
    using assms(3) by (auto simp: upsert_adopted_mapping_def Let_def split: option.splits if_splits)
  obtain us vs where t: "t = us @ vs \<or> (\<exists>old. t = us @ old # vs \<and> thread_key old = (key, thread_id) \<and> th_status old = ThreadArchived)"
    and t': "t' = us @ ?row # vs" and fresh: "\<And>r. r \<in> set (us @ vs) \<Longrightarrow> thread_key r \<noteq> (key, thread_id)"
  proof (cases "thread_of t key thread_id")
    case None
    then have "\<And>r. r \<in> set (t @ []) \<Longrightarrow> thread_key r \<noteq> (key, thread_id)" by (auto simp: thread_of_def find_None_iff)
    moreover have "t' = t @ ?row # []" using assms(3) None by (simp add: upsert_adopted_mapping_def Let_def split: if_splits)
    ultimately show ?thesis using that [of t "[]"] by simp
  next
    case (Some old)
    then have old: "old \<in> set t" "thread_key old = (key, thread_id)" unfolding thread_of_def by (auto dest: find_SomeD)
    obtain us vs where e: "t = us @ old # vs" "map (\<lambda>y. if thread_key y = thread_key old then ?row else y) t = us @ ?row # vs"
      using update_split [OF keys old(1), of "\<lambda>_. ?row"] .
    have "th_status old = ThreadArchived" "t' = us @ ?row # vs"
      using assms(3) Some old(2) e(2) by (auto simp: upsert_adopted_mapping_def Let_def sql_update_def split: if_splits)
    moreover have "thread_key r \<noteq> (key, thread_id)" if "r \<in> set (us @ vs)" for r
    proof -
      have "thread_key old \<notin> thread_key ` set (us @ vs)" using keys unfolding e(1) by (simp add: image_Un)
      moreover have "thread_key r \<in> thread_key ` set (us @ vs)" using that by (rule imageI)
      ultimately have "thread_key r \<noteq> thread_key old" by fastforce
      then show ?thesis using old(2) by simp
    qed
    ultimately show ?thesis using that [of us vs] e(1) old(2) by blast
  qed
  have act: "active_threads t = active_threads us @ active_threads vs" and sub: "set (us @ vs) \<subseteq> set t"
    using t by (auto simp: active_threads_def)
  have "th_scope_key r \<noteq> key \<and> th_codex_thread_id r \<noteq> thread_id" if "r \<in> set (active_threads us) \<union> set (active_threads vs)" for r
    using that sub fresh active_conflictD [OF conflict, of r] by (auto simp: active_threads_def)
  then have "key \<notin> th_scope_key ` set (active_threads us @ active_threads vs)"
      "thread_id \<notin> th_codex_thread_id ` set (active_threads us @ active_threads vs)" by fastforce+
  moreover have "thread_keys_ok t'"
  proof -
    have "(key, thread_id) \<notin> thread_key ` set (us @ vs)" using fresh by fastforce
    moreover have "distinct (map thread_key us) \<and> distinct (map thread_key vs) \<and> thread_key ` set us \<inter> thread_key ` set vs = {}"
      using keys t by (elim disjE exE conjE) simp_all
    ultimately show ?thesis by (simp add: t' thread_keys_ok_def adopted_thread_row_def image_Un)
  qed
  moreover have "active_threads t' = active_threads us @ ?row # active_threads vs"
    by (simp add: t' active_threads_def adopted_thread_row_def)
  moreover have "th_scope_key ?row = key" "th_codex_thread_id ?row = thread_id" "th_status ?row = ThreadActive" "th_archived_ms ?row = None"
    by (simp_all add: adopted_thread_row_def)
  ultimately have "threads_wf t'"
    using assms(1) t unfolding threads_wf_def act by (auto simp: t')
  moreover have "list_all thread_shape_ok t'"
    using assms(2) t by (auto simp: t' adopted_thread_row_def thread_shape_ok_def)
  moreover have "adopted_in t' = insert ?row (adopted_in t)"
    using t by (auto simp: t' adopted_in_def adopted_thread_row_def)
  ultimately show ?thesis by blast
qed

lemma scopes_wf:
  assumes "adoption_wf s" "map sc_scope_key scopes = map sc_scope_key (at_scopes s)"
  shows "adoption_wf (s\<lparr>at_scopes := scopes\<rparr>)"
proof -
  have "sc_scope_key ` set scopes = sc_scope_key ` set (at_scopes s)" using arg_cong [OF assms(2), of set] by simp
  with assms show ?thesis by (simp add: adoption_wf_def)
qed

lemma update_adopted_workspaceD:
  assumes "update_adopted_workspace now key cwd fingerprint s = Inr s'"
  obtains scopes where "s' = s\<lparr>at_scopes := scopes\<rparr>" "map sc_scope_key scopes = map sc_scope_key (at_scopes s)"
    "\<exists>r\<in>set scopes. sc_scope_key r = key \<and> sc_cwd r = cwd \<and> sc_policy_fingerprint r = fingerprint"
proof -
  let ?f = "\<lambda>r. r\<lparr>sc_cwd := cwd, sc_policy_fingerprint := fingerprint, sc_updated_ms := now\<rparr>"
  have one: "length (filter (\<lambda>r. sc_scope_key r = key) (at_scopes s)) = 1"
    and s': "s' = s\<lparr>at_scopes := map (\<lambda>r. if sc_scope_key r = key then ?f r else r) (at_scopes s)\<rparr>"
    using assms by (auto simp: update_adopted_workspace_def sql_update_def split: if_splits)
  from one have "filter (\<lambda>r. sc_scope_key r = key) (at_scopes s) \<noteq> []" by auto
  then obtain r where "r \<in> set (at_scopes s)" "sc_scope_key r = key" by (auto simp: filter_empty_conv)
  then have "?f r \<in> set (map (\<lambda>r. if sc_scope_key r = key then ?f r else r) (at_scopes s))" by force
  then have "\<exists>c\<in>set (map (\<lambda>r. if sc_scope_key r = key then ?f r else r) (at_scopes s)). sc_scope_key c = key \<and> sc_cwd c = cwd \<and>
      sc_policy_fingerprint c = fingerprint"
    using \<open>sc_scope_key r = key\<close> by (intro bexI [of _ "?f r"]) simp_all
  moreover have "map sc_scope_key (map (\<lambda>r. if sc_scope_key r = key then ?f r else r) (at_scopes s)) = map sc_scope_key (at_scopes s)" by simp
  ultimately show ?thesis using that [OF s'] by blast
qed

lemma same_thread_row:
  "threads_wf t \<Longrightarrow> x \<in> set t \<Longrightarrow> m \<in> set t \<Longrightarrow> thread_key x = thread_key m \<Longrightarrow> x = m"
  by (auto simp: threads_wf_def thread_keys_ok_def distinct_map dest!: inj_onD)

lemma archive_bridge_adopted:
  assumes "threads_wf t" "m \<in> set t" "th_origin m = BridgeCreated"
  shows "adopted_in (archive_row now (th_scope_key m) (th_codex_thread_id m) t) = adopted_in t"
proof -
  have "thread_key x \<noteq> thread_key m" if "x \<in> adopted_in t" for x
    using same_thread_row [OF assms(1) _ assms(2), of x] that assms(3) by (auto simp: adopted_in_def)
  then show ?thesis by (auto simp: set_eq_iff adopted_archive_row)
qed

lemma retire_current_mappingD:
  assumes "threads_wf (at_threads s)" "list_all thread_shape_ok (at_threads s)" "retire_current_mapping now key s = Inr s'"
  obtains t where "s' = s\<lparr>at_threads := t\<rparr>" "threads_wf t" "list_all thread_shape_ok t" "adopted_in t = adopted_in (at_threads s)"
proof (cases "active_of (at_threads s) key")
  case None
  with assms show ?thesis by (intro that [of "at_threads s"]) (simp_all add: retire_current_mapping_def active_mapping_identity_def)
next
  case (Some m)
  let ?t = "archive_row now key (th_codex_thread_id m) (at_threads s)"
  note m = active_ofD [OF Some]
  from Some assms(3) have origin: "th_origin m = BridgeCreated"
    and s': "s' = s\<lparr>at_threads := retire_bridge_mapping now key (th_codex_thread_id m) (at_threads s)\<rparr>"
    by (auto simp: retire_current_mapping_def active_mapping_identity_def split: if_splits)
  have "retire_bridge_mapping now key (th_codex_thread_id m) (at_threads s) = ?t"
    using same_thread_row [OF assms(1), of _ m] m origin by (auto simp: retire_bridge_mapping_def sql_update_def archive_row_def)
  moreover have "adopted_in ?t = adopted_in (at_threads s)"
    using archive_bridge_adopted [OF assms(1), of m now] m origin by simp
  ultimately show ?thesis using s' assms(1,2) by (intro that [of ?t]) (simp_all add: archive_row_wf archive_row_shape)
qed

lemma map_adopted_threadD:
  assumes "map_adopted_thread now key thread_id g s = Inr (row, s')"
  obtains t where "upsert_adopted_mapping now key thread_id g (at_threads s) = Inr (1, t)" "s' = s\<lparr>at_threads := t\<rparr>"
    "row \<in> set t" "thread_key row = (key, thread_id)" "th_status row = ThreadActive"
  using assms by (auto simp: map_adopted_thread_def split: if_splits option.splits intro!: that dest: find_SomeD)

text \<open>What a commit did: the row of its own scope, the workspace, the saga and the mapping.\<close>

lemma commit_thread_adoptionD:
  assumes "adoption_wf s" "commit_thread_adoption now res cwd fingerprint s = Inr (row, s')"
  obtains r scopes t us vs where "r \<in> set (at_sagas s)" "ta_state r = Acquiring"
    "thread_key row = (ta_scope_key r, ta_codex_thread_id r)" "ta_scope_key res = ta_scope_key r" "ta_generation res = ta_generation r"
    "\<not> list_ex (\<lambda>x. tn_scope_key x = ta_scope_key r \<and> blocks_adoption x) (at_turns s)"
    "map sc_scope_key scopes = map sc_scope_key (at_scopes s)"
    "\<exists>c\<in>set scopes. sc_scope_key c = ta_scope_key r \<and> Some (sc_cwd c) = cwd \<and> sc_policy_fingerprint c = fingerprint"
    "at_sagas s = us @ r # vs" "threads_wf t" "list_all thread_shape_ok t"
    "adopted_in t = insert row (adopted_in (at_threads s))"
    "row = adopted_thread_row now (ta_scope_key r) (ta_codex_thread_id r) (int (ta_generation r))"
    "s' = s\<lparr>at_scopes := scopes, at_threads := t, at_sagas := us @ r\<lparr>ta_state := Owned, ta_updated_ms := now\<rparr> # vs\<rparr>"
proof -
  obtain path where path: "cwd = Some path" using assms(2) by (cases cwd) (auto simp: commit_thread_adoption_def Let_def)
  obtain r s1 s2 s3 where r: "r \<in> set (at_sagas s)" "ta_state r = Acquiring" "ta_scope_key res = ta_scope_key r"
      "ta_codex_thread_id res = ta_codex_thread_id r" "ta_generation res = ta_generation r"
    and idle: "require_no_live_turn s (ta_scope_key r) ''committing a thread adoption'' = Inr ()"
    and s1: "update_adopted_workspace now (ta_scope_key r) path fingerprint s = Inr s1"
    and s2: "retire_current_mapping now (ta_scope_key r) s1 = Inr s2"
    and s3: "own_saga now (ta_scope_key r) (ta_codex_thread_id r) (int (ta_generation r)) s2 = Inr s3"
    and s4: "map_adopted_thread now (ta_scope_key r) (ta_codex_thread_id r) (int (ta_generation r)) s3 = Inr (row, s')"
    using assms(2) unfolding commit_thread_adoption_def path Let_def
    by (auto simp: require_exact_saga_wf [OF assms(1)] require_state_def dest!: run_sized_Inr)
  obtain scopes where scopes: "s1 = s\<lparr>at_scopes := scopes\<rparr>" "map sc_scope_key scopes = map sc_scope_key (at_scopes s)"
      "\<exists>c\<in>set scopes. sc_scope_key c = ta_scope_key r \<and> sc_cwd c = path \<and> sc_policy_fingerprint c = fingerprint"
    using update_adopted_workspaceD [OF s1] .
  note wf = adoption_wf_parts [OF assms(1)]
  obtain t1 where t1: "s2 = s1\<lparr>at_threads := t1\<rparr>" "threads_wf t1" "list_all thread_shape_ok t1" "adopted_in t1 = adopted_in (at_threads s)"
    using retire_current_mappingD [OF _ _ s2] wf(1,2) by (auto simp: scopes(1))
  let ?P = "\<lambda>x. exact_saga_row (ta_scope_key r) (ta_codex_thread_id r) (int (ta_generation r)) x \<and> ta_state x = Acquiring"
  have iff: "?P x \<longleftrightarrow> x = r" if "x \<in> set (at_sagas s)" for x using exact_saga_row_iff [OF assms(1) r(1) that] r(2) by auto
  have d: "distinct (at_sagas s)" using wf(3) by (simp add: distinct_map)
  obtain us vs where sg: "at_sagas s = us @ r # vs"
      "sql_update ?P (\<lambda>x. x\<lparr>ta_state := Owned, ta_updated_ms := now\<rparr>) (at_sagas s) = (1, us @ r\<lparr>ta_state := Owned, ta_updated_ms := now\<rparr> # vs)"
    by (rule sql_update_one [OF d r(1) iff])
  have s3': "s3 = s2\<lparr>at_sagas := us @ r\<lparr>ta_state := Owned, ta_updated_ms := now\<rparr> # vs\<rparr>"
    using s3 sg(2) by (simp add: own_saga_def t1(1) scopes(1))
  obtain t where t: "upsert_adopted_mapping now (ta_scope_key r) (ta_codex_thread_id r) (int (ta_generation r)) t1 = Inr (1, t)"
      "s' = s3\<lparr>at_threads := t\<rparr>" "row \<in> set t" "thread_key row = (ta_scope_key r, ta_codex_thread_id r)" "th_status row = ThreadActive"
    using map_adopted_threadD [OF s4] by (auto simp: s3' t1(1))
  note up = upsert_adopted_mapping_wf [OF t1(2,3) t(1)]
  let ?new = "adopted_thread_row now (ta_scope_key r) (ta_codex_thread_id r) (int (ta_generation r))"
  have "?new \<in> set t" "th_status ?new = ThreadActive" "th_scope_key ?new = ta_scope_key r"
    using up by (auto simp: adopted_in_def adopted_thread_row_def)
  then have "row = ?new" using t(3-5) up active_of_unique [of t row] active_of_unique [of t ?new] by simp
  moreover have "\<not> list_ex (\<lambda>x. tn_scope_key x = ta_scope_key r \<and> blocks_adoption x) (at_turns s)"
    using idle by (simp add: require_no_live_turn_def)
  ultimately show ?thesis
    using r scopes(2,3) sg(1) up t(2,4) t1(1,4) path by (intro that [of r scopes us vs t]) (auto simp: s3' t1(1) scopes(1))
qed

lemma commit_wf:
  assumes "adoption_wf s" "commit_thread_adoption now res cwd fingerprint s = Inr (row, s')"
  shows "adoption_wf s'"
  using assms
proof (rule commit_thread_adoptionD)
  fix r :: thread_adoption_saga and scopes t us vs
  let ?r = "r\<lparr>ta_state := Owned, ta_updated_ms := now\<rparr>"
  assume a: "r \<in> set (at_sagas s)" "ta_state r = Acquiring" "map sc_scope_key scopes = map sc_scope_key (at_scopes s)"
    "at_sagas s = us @ r # vs" "threads_wf t" "list_all thread_shape_ok t" "adopted_in t = insert row (adopted_in (at_threads s))"
    "row = adopted_thread_row now (ta_scope_key r) (ta_codex_thread_id r) (int (ta_generation r))"
    and s': "s' = s\<lparr>at_scopes := scopes, at_threads := t, at_sagas := us @ ?r # vs\<rparr>"
  have "adoption_wf (s\<lparr>at_scopes := scopes\<rparr>)" by (rule scopes_wf [OF assms(1) a(3)])
  moreover have "saga_row_ok ?r" using adoption_wf_row(1) [OF assms(1) a(1)] a(2) by (simp add: saga_row_ok_def)
  moreover have "ta_codex_thread_id r \<notin> ta_codex_thread_id ` set (live_sagas (us @ vs))"
    using adoption_wf_parts(4) [OF assms(1)] a(2) by (auto simp: a(4) live_sagas_def)
  ultimately show ?thesis
    unfolding s' using a
    by (intro replace_saga_wf) (auto simp: saga_mapping_ok_def adoption_join_def adopted_thread_row_def)
qed

section \<open>Scopes and bridge threads keep it\<close>

lemma threads_change_wf:
  assumes "adoption_wf s" "threads_wf t" "list_all thread_shape_ok t" "adopted_in t = adopted_in (at_threads s)"
  shows "adoption_wf (s\<lparr>at_threads := t\<rparr>)"
proof -
  have "saga_mapping_ok t r = saga_mapping_ok (at_threads s) r" for r by (simp only: saga_mapping_ok_def assms(4))
  with assms show ?thesis by (simp add: adoption_wf_def)
qed

lemma activate_bridge_adopted:
  assumes "threads_wf t" "thread_of t key thread_id = Some row" "th_origin row = BridgeCreated"
  shows "adopted_in (activate_row key thread_id t) = adopted_in t"
proof -
  have row: "row \<in> set t" "thread_key row = (key, thread_id)" using assms(2) unfolding thread_of_def by (auto dest: find_SomeD)
  have "th_origin x = BridgeCreated" if "x \<in> set t" "th_scope_key x = key" "th_codex_thread_id x = thread_id" for x
    using same_thread_row [OF assms(1) that(1) row(1)] that(2,3) row(2) assms(3) by auto
  then show ?thesis unfolding adopted_in_def activate_row_def by (auto split: if_splits)
qed

lemma archive_for_resume_adopted:
  assumes "threads_wf t" "list_all thread_shape_ok t" "archive_for_resume now key t = Inr t'"
  shows "threads_wf t' \<and> list_all thread_shape_ok t' \<and> adopted_in t' = adopted_in t \<and>
    (thread_of t key thread_id = Some row \<longrightarrow> th_status row = ThreadArchived \<longrightarrow> thread_of t' key thread_id = Some row)"
proof (cases "active_of t key")
  case None
  with assms show ?thesis by (simp add: archive_for_resume_def)
next
  case (Some m)
  note m = active_ofD [OF Some]
  from Some assms(3) have "th_origin m = BridgeCreated" "t' = archive_row now (th_scope_key m) (th_codex_thread_id m) t"
    by (auto simp: archive_for_resume_def split: if_splits)
  moreover have "thread_keys_ok t" using assms(1) by (simp add: threads_wf_def)
  ultimately show ?thesis
    using m assms(1,2) archive_bridge_adopted [OF assms(1), of m now] thread_of_archive_row [of t key thread_id row]
    by (simp add: archive_row_wf archive_row_shape)
qed

lemma thread_op_adopted:
  assumes "threads_wf t" "list_all thread_shape_ok t"
  shows "adopted_in (apply_thread_op op t) = adopted_in t \<and> list_all thread_shape_ok (apply_thread_op op t)"
proof (cases op)
  case (OpRecord now scope thread_id version)
  then show ?thesis
    using assms(2) by (auto simp: after_def record_active_thread_with_context_tools_def Let_def adopted_in_def thread_shape_ok_def
        split: sum.splits if_splits dest!: run_sized_Inr)
next
  case (OpArchive now scope)
  have "th_origin m = BridgeCreated \<Longrightarrow> active_of t k = Some m \<Longrightarrow>
      adopted_in (archive_row now (th_scope_key m) (th_codex_thread_id m) t) = adopted_in t" for m k
    using archive_bridge_adopted [OF assms(1)] active_ofD by blast
  with OpArchive show ?thesis
    using assms(2) by (auto simp: after_def archive_active_thread_def Let_def archive_row_shape
        split: sum.splits if_splits option.splits dest!: run_sized_Inr)
next
  case (OpReactivate now scope thread_id)
  let ?k = "scope_to_string scope"
  show ?thesis
  proof (cases "reactivate_archived_thread now scope thread_id t")
    case (Inl e)
    with OpReactivate assms(2) show ?thesis by (simp add: after_def)
  next
    case (Inr res)
    then have "snd res = t \<or> (\<exists>row t1. thread_of t ?k thread_id = Some row \<and> th_origin row = BridgeCreated \<and> th_status row = ThreadArchived \<and>
        archive_for_resume now ?k t = Inr t1 \<and> snd res = activate_row ?k thread_id t1)"
      by (auto simp: reactivate_archived_thread_def Let_def split: option.splits if_splits dest!: run_sized_Inr)
        (metis thread_status.exhaust)+
    then show ?thesis
    proof (elim disjE exE conjE)
      assume "snd res = t"
      with Inr OpReactivate assms(2) show ?thesis by (cases res) (simp add: after_def)
    next
      fix row t1
      assume row: "thread_of t ?k thread_id = Some row" "th_origin row = BridgeCreated" "th_status row = ThreadArchived"
        and t1: "archive_for_resume now ?k t = Inr t1" and res: "snd res = activate_row ?k thread_id t1"
      have "threads_wf t1 \<and> list_all thread_shape_ok t1 \<and> adopted_in t1 = adopted_in t \<and> thread_of t1 ?k thread_id = Some row"
        using archive_for_resume_adopted [OF assms t1] row(1,3) by blast
      moreover from this row(2) have "adopted_in (activate_row ?k thread_id t1) = adopted_in t1"
        using activate_bridge_adopted by blast
      moreover have "list_all thread_shape_ok u \<Longrightarrow> list_all thread_shape_ok (activate_row ?k thread_id u)" for u
        by (auto simp: activate_row_def thread_shape_ok_def list_all_iff)
      ultimately show ?thesis using Inr OpReactivate res by (cases res) (simp add: after_def)
    qed
  qed
qed

lemma upsert_scope_wf:
  assumes "adoption_wf s"
  shows "adoption_wf (s\<lparr>at_scopes := after (upsert_scope now scope cwd fingerprint) (at_scopes s)\<rparr>)"
proof -
  let ?t = "after (upsert_scope now scope cwd fingerprint) (at_scopes s)"
  have "map sc_scope_key ?t = map sc_scope_key (at_scopes s) \<or>
      (\<exists>row. ?t = at_scopes s @ [row] \<and> sc_scope_key row \<notin> sc_scope_key ` set (at_scopes s))"
    by (auto simp: after_def upsert_scope_def Let_def list_ex_iff image_iff split: option.splits sum.splits if_splits dest!: run_sized_Inr) metis
  then show ?thesis using assms scopes_wf by (auto simp: adoption_wf_def)
qed

end
