(* ===== verification/Pending_Media.thy ===== *)
theory Pending_Media
  imports Live_Config
begin

text \<open>
  Attachments sent before the text they belong to: the queue of pending media of a direct-message scope,
  \<^verbatim>\<open>src/src/runtime/scope.rs\<close>, and the context drafts it holds, \<^verbatim>\<open>src/src/runtime/context.rs\<close>. Every reading of
  the clock is an argument.
\<close>

section \<open>Context drafts\<close>

datatype mention_kind = MentionUser | MentionBot | MentionEveryone

record mention_snapshot =
  ms_kind :: mention_kind
  ms_open_id :: "string option"
  ms_display_name :: "string option"

datatype draft_media_kind = DraftImage | DraftFile | DraftSticker | DraftAudio | DraftVideo

record draft_media_metadata =
  dm_name :: "string option"
  dm_mime_type :: "string option"
  dm_size_bytes :: "nat option"
  dm_duration_ms :: "nat option"

datatype draft_part =
    DText string
  | DMedia draft_media_kind resource_desc "resource_desc option" draft_media_metadata "transcript_failure option"
  | DCard
  | DForward "string option" part_status
  | DUnsupported string string

record context_draft =
  cd_event_id :: string
  cd_message_id :: string
  cd_sender_open_id :: string
  cd_sender_type :: string
  cd_chat_id :: string
  cd_chat_kind :: conversation_mode
  cd_mentions :: "mention_snapshot list"
  cd_thread_id :: "string option"
  cd_root_message_id :: "string option"
  cd_quote :: "string option"
  cd_message_type :: string
  cd_create_time_ms :: int
  cd_parts :: "draft_part list"

fun part_status_reason :: "part_status \<Rightarrow> string" where
  "part_status_reason PartAvailable = ''message part has no registered resolver''"
| "part_status_reason PartUnsupported = ''message part is not supported''"
| "part_status_reason PartUnavailable = ''message part descriptor is unavailable''"

fun media_kind_str :: "draft_media_kind \<Rightarrow> string" where
  "media_kind_str DraftImage = ''image''"
| "media_kind_str DraftFile = ''file''"
| "media_kind_str DraftSticker = ''sticker''"
| "media_kind_str DraftAudio = ''audio''"
| "media_kind_str DraftVideo = ''video''"

definition draft_media_metadata_of :: "media_metadata \<Rightarrow> draft_media_metadata" where
  "draft_media_metadata_of m =
     \<lparr>dm_name = mm_file_name m, dm_mime_type = mm_mime_type m, dm_size_bytes = mm_size_bytes m, dm_duration_ms = mm_duration_ms m\<rparr>"

definition draft_media_part :: "draft_media_kind \<Rightarrow> media_kind \<Rightarrow> media_part \<Rightarrow> draft_part" where
  "draft_media_part kind resource_kind media =
     (case mp_key media of
        Some key \<Rightarrow>
          if mp_status media = PartAvailable then
            DMedia kind \<lparr>rd_kind = resource_kind, rd_key = key\<rparr>
              (map_option (\<lambda>key. \<lparr>rd_kind = KindImage, rd_key = key\<rparr>) (mp_thumbnail_key media))
              (draft_media_metadata_of (mp_metadata media)) (mm_transcript_failure (mp_metadata media))
          else DUnsupported (media_kind_str kind) (part_status_reason (mp_status media))
      | None \<Rightarrow> DUnsupported (media_kind_str kind) (part_status_reason (mp_status media)))"

fun draft_part_from_inbound :: "message_part \<Rightarrow> draft_part" where
  "draft_part_from_inbound (PText text') = DText text'"
| "draft_part_from_inbound (PImage media) = draft_media_part DraftImage KindImage media"
| "draft_part_from_inbound (PFile media) = draft_media_part DraftFile KindFile media"
| "draft_part_from_inbound (PSticker media) = draft_media_part DraftSticker KindFile media"
| "draft_part_from_inbound (PAudio media) = draft_media_part DraftAudio KindFile media"
| "draft_part_from_inbound (PVideo media) = draft_media_part DraftVideo KindFile media"
| "draft_part_from_inbound (PForward message_id status) = DForward message_id status"
| "draft_part_from_inbound (PCard status) = DCard"
| "draft_part_from_inbound (PUnsupported message_type status) = DUnsupported message_type (part_status_reason status)"

definition draft_mentions :: "inbound_event \<Rightarrow> mention_snapshot list" where
  "draft_mentions event =
     (let named = map (\<lambda>mention. \<lparr>ms_kind = (if mi_user_id mention = Some ''all'' then MentionEveryone else MentionUser),
                                   ms_open_id = mi_open_id mention, ms_display_name = mi_name mention\<rparr>) (ev_mentions event);
          with_bot = (if ev_mentions_bot event
            then named @ [\<lparr>ms_kind = MentionBot, ms_open_id = None, ms_display_name = None\<rparr>] else named)
      in if ev_mention_all event \<and> \<not> list_ex (\<lambda>m. ms_kind m = MentionEveryone) with_bot
         then with_bot @ [\<lparr>ms_kind = MentionEveryone, ms_open_id = None, ms_display_name = None\<rparr>] else with_bot)"

definition draft_resource :: "resource_desc \<Rightarrow> draft_part" where
  "draft_resource resource =
     DMedia (case rd_kind resource of KindImage \<Rightarrow> DraftImage | KindFile \<Rightarrow> DraftFile) resource None
       \<lparr>dm_name = None, dm_mime_type = None, dm_size_bytes = None, dm_duration_ms = None\<rparr> None"

definition draft_parts :: "inbound_event \<Rightarrow> draft_part list" where
  "draft_parts event =
     (let parts = map draft_part_from_inbound (ev_parts event);
          legacy = (if parts \<noteq> [] then parts
            else (if ev_text event \<noteq> [] \<or> ev_message_type event = ''text'' then [DText (ev_text event)] else [])
                 @ map draft_resource (ev_resources event))
      in if legacy = [] then [DUnsupported (ev_message_type event) ''message type has no registered resolver''] else legacy)"

definition from_inbound :: "inbound_event \<Rightarrow> context_draft" where
  "from_inbound event =
     \<lparr>cd_event_id = ev_event_id event, cd_message_id = ev_message_id event, cd_sender_open_id = ev_sender_id event,
      cd_sender_type = ''user'', cd_chat_id = ev_chat_id event, cd_chat_kind = ev_chat_type event,
      cd_mentions = draft_mentions event, cd_thread_id = ev_thread_id event, cd_root_message_id = ev_root_id event,
      cd_quote = ev_reply_to_message_id event, cd_message_type = ev_message_type event,
      cd_create_time_ms = ev_create_time_ms event, cd_parts = draft_parts event\<rparr>"

section \<open>The queue\<close>

record pending_item =
  pi_draft :: context_draft
  pi_metadata_bytes :: nat
  pi_expires_at :: instant

record pending_media_queue =
  pq_items :: "pending_item list"
  pq_metadata_bytes :: nat
  pq_ttl :: duration
  pq_max_count :: nat
  pq_max_metadata_bytes :: nat
  pq_generation :: nat

definition pending_queue_new :: "router_settings \<Rightarrow> pending_media_queue" where
  "pending_queue_new settings =
     \<lparr>pq_items = [], pq_metadata_bytes = 0, pq_ttl = rs_pending_media_ttl settings,
      pq_max_count = rs_pending_media_max_count settings,
      pq_max_metadata_bytes = rs_pending_media_max_metadata_bytes settings, pq_generation = 0\<rparr>"

definition pending_part_bytes :: "message_part \<Rightarrow> nat" where
  "pending_part_bytes part =
     (let media_bytes = (\<lambda>media. sat_add_u64 (sat_add_u64 (sat_add_u64 (opt_len (mp_key media)) (opt_len (mp_thumbnail_key media)))
            (opt_len (mm_file_name (mp_metadata media)))) (opt_len (mm_mime_type (mp_metadata media))))
      in case part of
        PImage media \<Rightarrow> media_bytes media | PFile media \<Rightarrow> media_bytes media | PSticker media \<Rightarrow> media_bytes media
      | PAudio media \<Rightarrow> media_bytes media | PVideo media \<Rightarrow> media_bytes media
      | PText text' \<Rightarrow> length text'
      | PForward message_id status \<Rightarrow> opt_len message_id
      | PUnsupported message_type status \<Rightarrow> length message_type
      | PCard status \<Rightarrow> 0)"

definition pending_metadata_bytes :: "inbound_event \<Rightarrow> nat" where
  "pending_metadata_bytes event =
     (let identifiers = foldl sat_add_u64 0 [length (ev_event_id event), length (ev_message_id event), length (ev_chat_id event),
            length (ev_sender_id event), opt_len (ev_thread_id event), opt_len (ev_root_id event),
            opt_len (ev_reply_to_message_id event), length (ev_message_type event)];
          mentions = foldl (\<lambda>total mention. foldl sat_add_u64 total (map length (some_values
            [mi_key mention, mi_open_id mention, mi_user_id mention, mi_union_id mention, mi_name mention]))) 0 (ev_mentions event);
          resources = foldl sat_add_u64 0 (map (\<lambda>resource. length (rd_key resource)) (ev_resources event))
      in foldl (\<lambda>total part. sat_add_u64 total (pending_part_bytes part))
           (sat_add_u64 (sat_add_u64 identifiers mentions) resources) (ev_parts event))"

text \<open>Dropping items from the front of the queue with their bytes.\<close>

fun expire_items :: "instant \<Rightarrow> pending_item list \<Rightarrow> nat \<Rightarrow> pending_item list \<times> nat" where
  "expire_items now [] bytes = ([], bytes)"
| "expire_items now (item # rest) bytes =
     (if now \<ge> pi_expires_at item then expire_items now rest (bytes - pi_metadata_bytes item) else (item # rest, bytes))"

definition expire :: "instant \<Rightarrow> pending_media_queue \<Rightarrow> pending_media_queue" where
  "expire now q =
     (let (items, bytes) = expire_items now (pq_items q) (pq_metadata_bytes q)
      in q\<lparr>pq_items := items, pq_metadata_bytes := bytes\<rparr>)"

fun evict_items :: "(nat \<Rightarrow> nat \<Rightarrow> bool) \<Rightarrow> pending_item list \<Rightarrow> nat \<Rightarrow> pending_item list \<times> nat" where
  "evict_items full [] bytes = ([], bytes)"
| "evict_items full (item # rest) bytes =
     (if full (length (item # rest)) bytes then evict_items full rest (bytes - pi_metadata_bytes item)
      else (item # rest, bytes))"

definition stage :: "instant \<Rightarrow> instant \<Rightarrow> inbound_event \<Rightarrow> pending_media_queue \<Rightarrow> pending_media_queue" where
  "stage now now' event q0 =
     (let q = expire now q0; metadata_bytes = pending_metadata_bytes event in
      if metadata_bytes > pq_max_metadata_bytes q then q
      else let (items, bytes) = evict_items (\<lambda>count used. count \<ge> pq_max_count q \<or>
                  sat_add_u64 used metadata_bytes > pq_max_metadata_bytes q) (pq_items q) (pq_metadata_bytes q);
               draft = (from_inbound event)\<lparr>cd_quote := None\<rparr>
           in q\<lparr>pq_items := items @ [\<lparr>pi_draft = draft, pi_metadata_bytes = metadata_bytes, pi_expires_at = now' + pq_ttl q\<rparr>],
                 pq_metadata_bytes := sat_add_u64 bytes metadata_bytes\<rparr>)"

definition reserve_all :: "instant \<Rightarrow> pending_media_queue \<Rightarrow> (nat \<times> pending_item list) \<times> pending_media_queue" where
  "reserve_all now q0 =
     (let q = expire now q0 in ((pq_generation q, pq_items q), q\<lparr>pq_items := [], pq_metadata_bytes := 0\<rparr>))"

definition restore :: "instant \<Rightarrow> nat \<Rightarrow> pending_item list \<Rightarrow> pending_media_queue \<Rightarrow> pending_media_queue" where
  "restore now generation items q0 =
     (if generation \<noteq> pq_generation q0 then q0
      else let q = expire now q0;
               merged = sort_key pi_expires_at (filter (\<lambda>item. pi_expires_at item > now) (items @ pq_items q));
               total = foldl sat_add_u64 0 (map pi_metadata_bytes merged);
               (kept, bytes) = evict_items (\<lambda>count used. count > pq_max_count q \<or> used > pq_max_metadata_bytes q) merged total
           in q\<lparr>pq_items := kept, pq_metadata_bytes := bytes\<rparr>)"

definition next_expiry :: "pending_media_queue \<Rightarrow> instant option" where
  "next_expiry q = (case pq_items q of [] \<Rightarrow> None | item # _ \<Rightarrow> Some (pi_expires_at item))"

definition clear :: "pending_media_queue \<Rightarrow> pending_media_queue" where
  "clear q = q\<lparr>pq_items := [], pq_metadata_bytes := 0, pq_generation := (pq_generation q + 1) mod 2 ^ 64\<rparr>"

definition stats :: "instant \<Rightarrow> pending_media_queue \<Rightarrow> (nat \<times> nat) \<times> pending_media_queue" where
  "stats now q0 = (let q = expire now q0 in ((length (pq_items q), pq_metadata_bytes q), q))"

record pending_reservation =
  pr_generation :: nat
  pr_items :: "pending_item list option"

definition reservation_drafts :: "instant \<Rightarrow> pending_media_queue \<Rightarrow> pending_reservation \<Rightarrow> context_draft list" where
  "reservation_drafts now q r =
     (if pq_generation q \<noteq> pr_generation r then []
      else map pi_draft (filter (\<lambda>item. pi_expires_at item > now) (case pr_items r of None \<Rightarrow> [] | Some items \<Rightarrow> items)))"

definition reservation_commit :: "pending_reservation \<Rightarrow> pending_reservation" where
  "reservation_commit r = r\<lparr>pr_items := None\<rparr>"

definition reservation_drop :: "instant \<Rightarrow> pending_reservation \<Rightarrow> pending_media_queue \<Rightarrow> pending_media_queue" where
  "reservation_drop now r q = (case pr_items r of None \<Rightarrow> q | Some items \<Rightarrow> restore now (pr_generation r) items q)"

section \<open>The component\<close>

text \<open>The queue of a scope with the reservations turns hold on it, and what can happen to it.\<close>

record pending_state =
  ps_queue :: pending_media_queue
  ps_reservations :: "pending_reservation list"

datatype pending_op =
    OpStage instant instant inbound_event
  | OpReserve instant
  | OpExpire instant
  | OpClear
  | OpCommit nat
  | OpDrop instant nat

fun apply_pending_op :: "pending_op \<Rightarrow> pending_state \<Rightarrow> pending_state" where
  "apply_pending_op (OpStage now now' event) s = s\<lparr>ps_queue := stage now now' event (ps_queue s)\<rparr>"
| "apply_pending_op (OpReserve now) s =
     (let ((generation, items), q) = reserve_all now (ps_queue s)
      in s\<lparr>ps_queue := q, ps_reservations := ps_reservations s @ [\<lparr>pr_generation = generation, pr_items = Some items\<rparr>]\<rparr>)"
| "apply_pending_op (OpExpire now) s = s\<lparr>ps_queue := expire now (ps_queue s)\<rparr>"
| "apply_pending_op OpClear s = s\<lparr>ps_queue := clear (ps_queue s)\<rparr>"
| "apply_pending_op (OpCommit i) s =
     (if i < length (ps_reservations s)
      then s\<lparr>ps_reservations := (ps_reservations s)[i := reservation_commit (ps_reservations s ! i)]\<rparr> else s)"
| "apply_pending_op (OpDrop now i) s =
     (if i < length (ps_reservations s)
      then s\<lparr>ps_queue := reservation_drop now (ps_reservations s ! i) (ps_queue s),
             ps_reservations := take i (ps_reservations s) @ drop (Suc i) (ps_reservations s)\<rparr> else s)"

fun pending_tick :: "instant \<Rightarrow> pending_op \<Rightarrow> instant option" where
  "pending_tick T (OpStage now now' event) = (if T \<le> now \<and> now \<le> now' then Some now' else None)"
| "pending_tick T (OpReserve now) = (if T \<le> now then Some now else None)"
| "pending_tick T (OpExpire now) = (if T \<le> now then Some now else None)"
| "pending_tick T (OpDrop now i) = (if T \<le> now then Some now else None)"
| "pending_tick T op = Some T"

section \<open>Accounting\<close>

abbreviation item_bytes :: "pending_item list \<Rightarrow> nat" where
  "item_bytes items \<equiv> sum_list (map pi_metadata_bytes items)"

lemma expire_itemsD:
  assumes "expire_items now items bytes = (items', bytes')" "bytes = item_bytes items"
  obtains gone where "items = gone @ items'" "bytes' = item_bytes items'" "\<forall>x\<in>set gone. pi_expires_at x \<le> now"
    "items' = [] \<or> pi_expires_at (hd items') > now"
proof -
  have "\<exists>gone. items = gone @ items' \<and> bytes' = item_bytes items' \<and> (\<forall>x\<in>set gone. pi_expires_at x \<le> now) \<and>
      (items' = [] \<or> pi_expires_at (hd items') > now)"
    using assms
  proof (induction items arbitrary: bytes)
    case (Cons x items)
    show ?case
    proof (cases "now \<ge> pi_expires_at x")
      case True
      then have "expire_items now items (item_bytes items) = (items', bytes')" using Cons.prems by simp
      from Cons.IH[OF this refl] obtain gone where "items = gone @ items'" "bytes' = item_bytes items'"
        "\<forall>x\<in>set gone. pi_expires_at x \<le> now" "items' = [] \<or> pi_expires_at (hd items') > now" by blast
      then show ?thesis using True by (intro exI[of _ "x # gone"]) auto
    next
      case False
      then show ?thesis using Cons.prems by (intro exI[of _ "[]"]) auto
    qed
  qed auto
  then show ?thesis using that by blast
qed

lemma evict_itemsD:
  assumes "evict_items full items bytes = (items', bytes')" "bytes = item_bytes items"
  obtains gone where "items = gone @ items'" "bytes' = item_bytes items'" "items' = [] \<or> \<not> full (length items') bytes'"
proof -
  have "\<exists>gone. items = gone @ items' \<and> bytes' = item_bytes items' \<and> (items' = [] \<or> \<not> full (length items') bytes')"
    using assms
  proof (induction items arbitrary: bytes)
    case (Cons x items)
    show ?case
    proof (cases "full (length (x # items)) bytes")
      case True
      then have "evict_items full items (item_bytes items) = (items', bytes')" using Cons.prems by simp
      from Cons.IH[OF this refl] obtain gone where "items = gone @ items'" "bytes' = item_bytes items'"
        "items' = [] \<or> \<not> full (length items') bytes'" by blast
      then show ?thesis by (intro exI[of _ "x # gone"]) auto
    next
      case False
      then show ?thesis using Cons.prems by (intro exI[of _ "[]"]) auto
    qed
  qed auto
  then show ?thesis using that by blast
qed

text \<open>A list of items as the queue and the reservations hold them at time \<open>T\<close>.\<close>

definition items_ok :: "instant \<Rightarrow> pending_media_queue \<Rightarrow> pending_item list \<Rightarrow> bool" where
  "items_ok T q items \<longleftrightarrow>
     length items \<le> pq_max_count q \<and> item_bytes items \<le> pq_max_metadata_bytes q \<and>
     sorted (map pi_expires_at items) \<and> (\<forall>item\<in>set items. pi_expires_at item \<le> T + pq_ttl q)"

definition queue_ok :: "instant \<Rightarrow> pending_media_queue \<Rightarrow> bool" where
  "queue_ok T q \<longleftrightarrow>
     0 < pq_max_count q \<and> pq_max_count q \<le> PENDING_MEDIA_MAX_COUNT \<and>
     pq_max_metadata_bytes q \<le> PENDING_MEDIA_MAX_METADATA_BYTES \<and>
     pq_metadata_bytes q = item_bytes (pq_items q) \<and> items_ok T q (pq_items q)"

definition pending_ok :: "instant \<Rightarrow> pending_state \<Rightarrow> bool" where
  "pending_ok T s \<longleftrightarrow>
     queue_ok T (ps_queue s) \<and>
     (\<forall>r\<in>set (ps_reservations s). \<forall>items. pr_items r = Some items \<longrightarrow> items_ok T (ps_queue s) items)"

lemma items_ok_suffix: "items_ok T q (xs @ ys) \<Longrightarrow> items_ok T q ys"
  by (auto simp: items_ok_def sorted_append)

lemma items_ok_later: "items_ok T q items \<Longrightarrow> T \<le> T' \<Longrightarrow> items_ok T' q items"
  by (fastforce simp: items_ok_def)

lemma items_ok_cong:
  "pq_max_count q = pq_max_count q' \<Longrightarrow> pq_max_metadata_bytes q = pq_max_metadata_bytes q' \<Longrightarrow> pq_ttl q = pq_ttl q' \<Longrightarrow>
   items_ok T q = items_ok T q'"
  by (simp add: items_ok_def fun_eq_iff)

lemma expire_ok:
  assumes "queue_ok T q"
  shows "queue_ok T (expire now q)"
    and "pq_items (expire now q) = [] \<or> pi_expires_at (hd (pq_items (expire now q))) > now"
    and "\<exists>gone. pq_items q = gone @ pq_items (expire now q) \<and> (\<forall>x\<in>set gone. pi_expires_at x \<le> now)"
    and "expire now q = q\<lparr>pq_items := pq_items (expire now q), pq_metadata_bytes := item_bytes (pq_items (expire now q))\<rparr>"
proof -
  obtain items bytes where eq: "expire_items now (pq_items q) (pq_metadata_bytes q) = (items, bytes)" by fastforce
  from expire_itemsD[OF eq] assms obtain gone where g: "pq_items q = gone @ items" "bytes = item_bytes items"
    "\<forall>x\<in>set gone. pi_expires_at x \<le> now" "items = [] \<or> pi_expires_at (hd items) > now"
    by (auto simp: queue_ok_def)
  have q': "expire now q = q\<lparr>pq_items := items, pq_metadata_bytes := bytes\<rparr>" by (simp add: expire_def eq)
  show "queue_ok T (expire now q)"
    using assms g items_ok_suffix[of T q gone items] by (simp add: queue_ok_def q' items_ok_def)
  show "pq_items (expire now q) = [] \<or> pi_expires_at (hd (pq_items (expire now q))) > now"
    "\<exists>gone. pq_items q = gone @ pq_items (expire now q) \<and> (\<forall>x\<in>set gone. pi_expires_at x \<le> now)"
    "expire now q = q\<lparr>pq_items := pq_items (expire now q), pq_metadata_bytes := item_bytes (pq_items (expire now q))\<rparr>"
    using g by (auto simp: q')
qed

lemma expire_fields [simp]:
  "pq_ttl (expire now q) = pq_ttl q" "pq_max_count (expire now q) = pq_max_count q"
  "pq_max_metadata_bytes (expire now q) = pq_max_metadata_bytes q" "pq_generation (expire now q) = pq_generation q"
  by (simp_all add: expire_def split: prod.splits)

lemma queue_ok_later: "queue_ok T q \<Longrightarrow> T \<le> T' \<Longrightarrow> queue_ok T' q"
  by (auto simp: queue_ok_def dest: items_ok_later)

lemma sat_add_below:
  "a \<le> 2 * PENDING_MEDIA_MAX_METADATA_BYTES \<Longrightarrow> b \<le> 2 * PENDING_MEDIA_MAX_METADATA_BYTES \<Longrightarrow> sat_add_u64 a b = a + b"
  by (simp add: sat_add_u64_def u64_max_def PENDING_MEDIA_MAX_METADATA_BYTES_def)

text \<open>The saturating total of the items a queue can hold together with one reservation is their exact total.\<close>

lemma saturating_total:
  "acc + item_bytes items \<le> 2 * PENDING_MEDIA_MAX_METADATA_BYTES \<Longrightarrow>
   foldl sat_add_u64 acc (map pi_metadata_bytes items) = acc + item_bytes items"
proof (induction items arbitrary: acc)
  case (Cons x items)
  then have "sat_add_u64 acc (pi_metadata_bytes x) = acc + pi_metadata_bytes x" by (intro sat_add_below) auto
  then show ?case using Cons.IH[of "acc + pi_metadata_bytes x"] Cons.prems by (simp add: ac_simps)
qed simp

lemma item_bytes_filter: "item_bytes (filter P items) \<le> item_bytes items"
  by (induction items) auto

lemma item_bytes_insort: "item_bytes (insort_key f x items) = pi_metadata_bytes x + item_bytes items"
  by (induction items) auto

lemma item_bytes_sort: "item_bytes (sort_key f items) = item_bytes items"
  by (induction items) (simp_all add: item_bytes_insort)

lemma stage_ok:
  assumes "queue_ok T q" "T \<le> now" "now \<le> now'"
  shows "queue_ok now' (stage now now' event q)"
    and "pq_max_count (stage now now' event q) = pq_max_count q" "pq_ttl (stage now now' event q) = pq_ttl q"
    and "pq_max_metadata_bytes (stage now now' event q) = pq_max_metadata_bytes q"
    and "pq_generation (stage now now' event q) = pq_generation q"
proof -
  define p where "p = expire now q"
  define bs where "bs = pending_metadata_bytes event"
  define full where "full = (\<lambda>count used. count \<ge> pq_max_count p \<or> sat_add_u64 used bs > pq_max_metadata_bytes p)"
  obtain items bytes where ev: "evict_items full (pq_items p) (pq_metadata_bytes p) = (items, bytes)" by fastforce
  have p: "queue_ok now' p" using assms expire_ok(1)[of T q now] queue_ok_later p_def by simp
  from evict_itemsD[OF ev] p obtain gone where g: "pq_items p = gone @ items" "bytes = item_bytes items"
    "items = [] \<or> \<not> full (length items) bytes" by (auto simp: queue_ok_def)
  define q' where "q' = p\<lparr>pq_items := items @ [\<lparr>pi_draft = (from_inbound event)\<lparr>cd_quote := None\<rparr>, pi_metadata_bytes = bs,
      pi_expires_at = now' + pq_ttl p\<rparr>], pq_metadata_bytes := sat_add_u64 bytes bs\<rparr>"
  have st: "stage now now' event q = (if bs > pq_max_metadata_bytes p then p else q')"
    using ev unfolding stage_def full_def bs_def p_def q'_def by (simp add: Let_def)
  have q'_ok: "queue_ok now' q'" if "bs \<le> pq_max_metadata_bytes p"
  proof -
    have i: "items_ok now' p items" using p g(1) items_ok_suffix by (auto simp: queue_ok_def)
    have le: "bytes \<le> PENDING_MEDIA_MAX_METADATA_BYTES" "bs \<le> PENDING_MEDIA_MAX_METADATA_BYTES"
      using i g(2) p that by (auto simp: items_ok_def queue_ok_def)
    then have add: "sat_add_u64 bytes bs = bytes + bs" by (intro sat_add_below) auto
    have "length items < pq_max_count p" "bytes + bs \<le> pq_max_metadata_bytes p"
      using g(3) p that g(2) add unfolding full_def by (auto simp: queue_ok_def)
    then show ?thesis using i p g(2) add by (auto simp: q'_def queue_ok_def items_ok_def sorted_append)
  qed
  show "queue_ok now' (stage now now' event q)" using p q'_ok by (simp add: st)
  show "pq_max_count (stage now now' event q) = pq_max_count q" "pq_ttl (stage now now' event q) = pq_ttl q"
    "pq_max_metadata_bytes (stage now now' event q) = pq_max_metadata_bytes q"
    "pq_generation (stage now now' event q) = pq_generation q"
    by (simp_all add: st q'_def p_def)
qed

lemma restore_ok:
  assumes "queue_ok T q" "items_ok T q items"
  shows "queue_ok T (restore now g items q)"
    and "pq_max_count (restore now g items q) = pq_max_count q" "pq_ttl (restore now g items q) = pq_ttl q"
    and "pq_max_metadata_bytes (restore now g items q) = pq_max_metadata_bytes q"
    and "pq_generation (restore now g items q) = pq_generation q"
proof -
  define p where "p = expire now q"
  define merged where "merged = sort_key pi_expires_at (filter (\<lambda>item. pi_expires_at item > now) (items @ pq_items p))"
  define full where "full = (\<lambda>count used. count > pq_max_count p \<or> used > pq_max_metadata_bytes p)"
  define total where "total = foldl sat_add_u64 0 (map pi_metadata_bytes merged)"
  obtain kept bytes where ev: "evict_items full merged total = (kept, bytes)" by fastforce
  have p: "queue_ok T p" using assms expire_ok(1) p_def by simp
  have "item_bytes merged \<le> item_bytes items + item_bytes (pq_items p)"
    using item_bytes_filter[of _ items] item_bytes_filter[of _ "pq_items p"]
    by (simp add: merged_def item_bytes_sort add_mono)
  also have "\<dots> \<le> 2 * PENDING_MEDIA_MAX_METADATA_BYTES"
    using p assms(2) by (auto simp: queue_ok_def items_ok_def p_def)
  finally have total: "total = item_bytes merged" using saturating_total[of 0 merged] by (simp add: total_def)
  from evict_itemsD[OF ev total] obtain gone where g: "merged = gone @ kept" "bytes = item_bytes kept"
    "kept = [] \<or> \<not> full (length kept) bytes" by blast
  have sorted: "sorted (map pi_expires_at kept)"
    using sorted_sort_key[of pi_expires_at "filter (\<lambda>item. pi_expires_at item > now) (items @ pq_items p)"]
    unfolding merged_def[symmetric] g(1) by (simp add: sorted_append)
  have "set merged \<subseteq> set items \<union> set (pq_items p)" by (auto simp: merged_def)
  then have "set kept \<subseteq> set items \<union> set (pq_items p)" by (simp add: g(1))
  then have "\<forall>item\<in>set kept. pi_expires_at item \<le> T + pq_ttl p"
    using p assms(2) by (fastforce simp: queue_ok_def items_ok_def p_def)
  then have kept: "queue_ok T (p\<lparr>pq_items := kept, pq_metadata_bytes := bytes\<rparr>)"
    using p g sorted by (auto simp: queue_ok_def items_ok_def full_def)
  have re: "restore now g items q = (if g \<noteq> pq_generation q then q else p\<lparr>pq_items := kept, pq_metadata_bytes := bytes\<rparr>)"
    using ev unfolding restore_def total_def full_def merged_def p_def by (simp add: Let_def)
  show "queue_ok T (restore now g items q)" using kept assms(1) by (simp add: re)
  show "pq_max_count (restore now g items q) = pq_max_count q" "pq_ttl (restore now g items q) = pq_ttl q"
    "pq_max_metadata_bytes (restore now g items q) = pq_max_metadata_bytes q"
    "pq_generation (restore now g items q) = pq_generation q"
    by (simp_all add: re p_def)
qed

lemma pending_okI:
  assumes "queue_ok T q'" "pending_ok T0 s" "T0 \<le> T"
    "pq_max_count q' = pq_max_count (ps_queue s)" "pq_max_metadata_bytes q' = pq_max_metadata_bytes (ps_queue s)"
    "pq_ttl q' = pq_ttl (ps_queue s)"
    "\<And>r items. r \<in> set rs \<Longrightarrow> pr_items r = Some items \<Longrightarrow> items_ok T q' items \<or> (\<exists>r'\<in>set (ps_reservations s). pr_items r' = Some items)"
  shows "pending_ok T (s\<lparr>ps_queue := q', ps_reservations := rs\<rparr>)"
  using assms items_ok_cong[of q' "ps_queue s"] by (fastforce simp: pending_ok_def dest: items_ok_later)

lemma reserve_ok:
  assumes "queue_ok T q" "reserve_all now q = ((g, items), q')"
  shows "queue_ok T q'" "items_ok T q' items" "pq_max_count q' = pq_max_count q" "pq_ttl q' = pq_ttl q"
    "pq_max_metadata_bytes q' = pq_max_metadata_bytes q" "g = pq_generation q" "pq_generation q' = pq_generation q"
proof -
  have eq: "q' = (expire now q)\<lparr>pq_items := [], pq_metadata_bytes := 0\<rparr>" "items = pq_items (expire now q)" "g = pq_generation q"
    using assms(2) by (auto simp: reserve_all_def Let_def)
  show "queue_ok T q'" "items_ok T q' items" "pq_max_count q' = pq_max_count q" "pq_ttl q' = pq_ttl q"
    "pq_max_metadata_bytes q' = pq_max_metadata_bytes q" "g = pq_generation q" "pq_generation q' = pq_generation q"
    using expire_ok(1)[OF assms(1), of now] by (simp_all add: eq queue_ok_def items_ok_def)
qed

lemma clear_ok: "queue_ok T q \<Longrightarrow> queue_ok T (clear q)"
  by (simp add: queue_ok_def clear_def items_ok_def)

lemma pending_step_ok:
  assumes "pending_ok T s" "pending_tick T op = Some T'"
  shows "pending_ok T' (apply_pending_op op s)"
proof -
  note q = assms(1)[unfolded pending_ok_def, THEN conjunct1]
  note keep = pending_okI[OF _ assms(1), where rs = "ps_reservations s", simplified]
  show ?thesis
  proof (cases op)
    case (OpStage now now' event)
    with assms(2) have "T \<le> now" "now \<le> now'" "T' = now'" by (auto split: if_splits)
    then show ?thesis using OpStage stage_ok[OF q] by (auto intro!: keep)
  next
    case (OpReserve now)
    with assms(2) have t: "T \<le> now" "T' = now" by (auto split: if_splits)
    obtain g items q' where re: "reserve_all now (ps_queue s) = ((g, items), q')" by (metis prod.exhaust)
    show ?thesis using OpReserve t reserve_ok[OF queue_ok_later[OF q t(1)] re]
      by (auto simp: re intro!: pending_okI[OF _ assms(1)])
  next
    case (OpExpire now)
    with assms(2) have "T \<le> now" "T' = now" by (auto split: if_splits)
    then show ?thesis using OpExpire expire_ok(1)[OF queue_ok_later[OF q]] by (auto intro!: keep)
  next
    case OpClear
    then show ?thesis using assms(2) clear_ok[OF q] by (auto intro!: keep simp: clear_def)
  next
    case (OpCommit i)
    then show ?thesis using assms by (auto simp: pending_ok_def reservation_commit_def dest!: set_update_subset_insert[THEN subsetD])
  next
    case (OpDrop now i)
    with assms(2) have t: "T \<le> now" "T' = now" by (auto split: if_splits)
    show ?thesis
    proof (cases "i < length (ps_reservations s)")
      case True
      define r where "r = ps_reservations s ! i"
      have r: "r \<in> set (ps_reservations s)" using True r_def by simp
      have "queue_ok now (reservation_drop now r (ps_queue s)) \<and>
          pq_max_count (reservation_drop now r (ps_queue s)) = pq_max_count (ps_queue s) \<and>
          pq_max_metadata_bytes (reservation_drop now r (ps_queue s)) = pq_max_metadata_bytes (ps_queue s) \<and>
          pq_ttl (reservation_drop now r (ps_queue s)) = pq_ttl (ps_queue s)"
      proof (cases "pr_items r")
        case (Some items)
        then have "items_ok now (ps_queue s) items" using assms(1) r t items_ok_later by (auto simp: pending_ok_def)
        then show ?thesis using Some restore_ok[OF queue_ok_later[OF q t(1)]] by (simp add: reservation_drop_def)
      qed (use queue_ok_later[OF q t(1)] in \<open>simp add: reservation_drop_def\<close>)
      then show ?thesis using OpDrop True t
        by (auto simp: r_def[symmetric] intro!: pending_okI[OF _ assms(1)]) (metis in_set_takeD in_set_dropD)+
    qed (use OpDrop assms(1) t items_ok_later queue_ok_later in \<open>auto simp: pending_ok_def\<close>)
  qed
qed

interpretation pending: clocked_steps apply_pending_op pending_ok pending_tick
  by unfold_locales (rule pending_step_ok)

definition pending_start :: "router_settings \<Rightarrow> pending_state" where
  "pending_start settings = \<lparr>ps_queue = pending_queue_new settings, ps_reservations = []\<rparr>"


lemma pending_start_ok: "settings_validate settings \<Longrightarrow> pending_ok T (pending_start settings)"
  by (auto simp: pending_start_def pending_ok_def queue_ok_def pending_queue_new_def items_ok_def settings_validate_def)

lemma restore_fields [simp]: "pq_generation (restore now g items q) = pq_generation q"
  by (simp add: restore_def Let_def split: prod.splits)

lemma stage_generation [simp]: "pq_generation (stage now now' event q) = pq_generation q"
  by (simp add: stage_def Let_def split: prod.splits)

lemma step_generation:
  "pq_generation (ps_queue (apply_pending_op op s)) =
     (if op = OpClear then (pq_generation (ps_queue s) + 1) mod 2 ^ 64 else pq_generation (ps_queue s))"
  by (cases op) (simp_all add: clear_def reserve_all_def reservation_drop_def Let_def split: option.splits)

lemma run_generation:
  "pq_generation (ps_queue s) < 2 ^ 64 \<Longrightarrow>
   pq_generation (ps_queue (fold apply_pending_op ops s)) = (pq_generation (ps_queue s) + count_list ops OpClear) mod 2 ^ 64"
proof (induction ops arbitrary: s)
  case (Cons op ops)
  have "pq_generation (ps_queue (apply_pending_op op s)) < 2 ^ 64" using Cons.prems by (simp add: step_generation)
  from Cons.IH[OF this] show ?case by (simp add: step_generation mod_simps)
qed simp

text \<open>What is left of a sorted queue at a time: its suffix of live items.\<close>

lemma expire_items_filter:
  "sorted (map pi_expires_at items) \<Longrightarrow> bytes = item_bytes items \<Longrightarrow>
   expire_items now items bytes = (filter (\<lambda>item. pi_expires_at item > now) items, item_bytes (filter (\<lambda>item. pi_expires_at item > now) items))"
proof (induction items arbitrary: bytes)
  case (Cons x items)
  show ?case
  proof (cases "now \<ge> pi_expires_at x")
    case False
    then have "filter (\<lambda>item. pi_expires_at item > now) items = items" using Cons.prems by (auto simp: filter_id_conv)
    then show ?thesis using False Cons.prems by simp
  qed (use Cons in auto)
qed simp

lemma expire_filter:
  assumes "queue_ok T q"
  shows "expire now q = q\<lparr>pq_items := filter (\<lambda>item. pi_expires_at item > now) (pq_items q),
     pq_metadata_bytes := item_bytes (filter (\<lambda>item. pi_expires_at item > now) (pq_items q))\<rparr>"
  using assms by (simp add: expire_def expire_items_filter queue_ok_def items_ok_def)

section \<open>Properties\<close>

text \<open>C26: In every run of the queue of pending attachments the queue and each reservation hold at most the configured
  number of items and bytes, never more than sixteen items and 256 KiB; the byte count is exactly the sum over the items (no saturation
  ever bites); the items are in the order in which they expire, and every item expires within one time to live, so nothing is kept
  for ever.\<close>

theorem pending_media_bounded:
  assumes "settings_validate settings" "run_clock pending_tick T ops = Some T'"
  defines "s \<equiv> fold apply_pending_op ops (pending_start settings)"
  shows "length (pq_items (ps_queue s)) \<le> PENDING_MEDIA_MAX_COUNT \<and>
    pq_metadata_bytes (ps_queue s) = item_bytes (pq_items (ps_queue s)) \<and>
    pq_metadata_bytes (ps_queue s) \<le> PENDING_MEDIA_MAX_METADATA_BYTES \<and>
    sorted (map pi_expires_at (pq_items (ps_queue s))) \<and>
    pq_items (expire (T' + pq_ttl (ps_queue s)) (ps_queue s)) = []"
proof -
  have "pending_ok T' s" using assms pending.run_inv pending_start_ok by blast
  then have ok: "queue_ok T' (ps_queue s)" by (simp add: pending_ok_def)
  then show ?thesis
    using expire_filter[OF ok] by (auto simp: queue_ok_def items_ok_def filter_empty_conv not_less)
qed

definition demo_image :: inbound_event where
  "demo_image = demo_event\<lparr>ev_message_type := ''image'', ev_text := [],
     ev_parts := [PImage \<lparr>mp_key = Some ''k'', mp_thumbnail_key = None, mp_metadata = \<lparr>mm_file_name = Some ''cat.png'',
       mm_mime_type = None, mm_size_bytes = None, mm_duration_ms = None, mm_transcript_failure = None\<rparr>, mp_status = PartAvailable\<rparr>]\<rparr>"

definition demo_pending :: pending_state where
  "demo_pending = fold apply_pending_op [OpStage 5 6 demo_image, OpReserve 7] (pending_start (settings_from_config demo_config))"

lemma demo_image_bytes: "pending_metadata_bytes demo_image = 17"
  by (simp add: pending_metadata_bytes_def pending_part_bytes_def demo_image_def demo_event_def sat_add_u64_def u64_max_def
      some_values_def opt_len_def)

lemma demo_staged:
  "stage 5 6 demo_image (pending_queue_new (settings_from_config cfg)) =
     (pending_queue_new (settings_from_config cfg))\<lparr>pq_items := [\<lparr>pi_draft = (from_inbound demo_image)\<lparr>cd_quote := None\<rparr>,
        pi_metadata_bytes = 17, pi_expires_at = 6 + PENDING_MEDIA_TTL\<rparr>], pq_metadata_bytes := 17\<rparr>"
  by (simp add: stage_def demo_image_bytes expire_def pending_queue_new_def settings_from_config_def
      PENDING_MEDIA_MAX_METADATA_BYTES_def sat_add_u64_def u64_max_def)

lemma demo_pending_eq:
  "demo_pending = \<lparr>ps_queue = pending_queue_new (settings_from_config demo_config),
     ps_reservations = [\<lparr>pr_generation = 0, pr_items = Some [\<lparr>pi_draft = (from_inbound demo_image)\<lparr>cd_quote := None\<rparr>,
        pi_metadata_bytes = 17, pi_expires_at = 6 + PENDING_MEDIA_TTL\<rparr>]\<rparr>]\<rparr>"
  by (simp add: demo_pending_def pending_start_def demo_staged reserve_all_def expire_def)
    (simp add: pending_queue_new_def PENDING_MEDIA_TTL_def from_secs_def)

lemma demo_settings_valid: "settings_validate (settings_from_config demo_config)"
  by (simp add: settings_validate_def settings_from_config_def demo_config_def ROUTER_ACTIVE_TURN_HARD_LIMIT_def
      ROUTER_SCOPE_ACTOR_HARD_LIMIT_def PENDING_MEDIA_MAX_METADATA_BYTES_def PENDING_MEDIA_MAX_COUNT_def PENDING_MEDIA_TTL_def
      from_secs_def from_millis_def)

theorem pending_media_bounded_witness:
  "length (pq_items (ps_queue demo_pending)) \<le> PENDING_MEDIA_MAX_COUNT \<and> length (ps_reservations demo_pending) = 1"
proof
  have "run_clock pending_tick 0 [OpStage 5 6 demo_image, OpReserve 7] = Some 7" by simp
  from pending_media_bounded[OF demo_settings_valid this]
  show "length (pq_items (ps_queue demo_pending)) \<le> PENDING_MEDIA_MAX_COUNT" unfolding demo_pending_def by blast
qed (simp add: demo_pending_eq)

text \<open>C27: Once the queue has been cleared (by \<^verbatim>\<open>/cancel\<close>, \<^verbatim>\<open>/new\<close>, \<^verbatim>\<open>/stop\<close> or a quoted message), a reservation taken before
  can no longer put its attachments into a turn, nor bring them back when it is dropped, whatever happens in between (as long as the
  64-bit generation does not come round).\<close>

theorem cleared_media_is_gone:
  assumes "pq_generation (ps_queue s) < 2 ^ 64" "pr_generation r = pq_generation (ps_queue s)"
    "OpClear \<in> set ops" "length ops < 2 ^ 64"
  defines "q \<equiv> ps_queue (fold apply_pending_op ops s)"
  shows "reservation_drafts now q r = [] \<and> reservation_drop now r q = q"
proof -
  let ?n = "count_list ops OpClear"
  have n: "0 < ?n" "?n < 2 ^ 64" using assms(3,4) count_le_length[of ops OpClear] count_list_0_iff[of ops OpClear] by (auto simp: neq0_conv[symmetric] simp del: neq0_conv)
  have "(pq_generation (ps_queue s) + ?n) mod 2 ^ 64 \<noteq> pq_generation (ps_queue s)"
  proof
    assume "(pq_generation (ps_queue s) + ?n) mod 2 ^ 64 = pq_generation (ps_queue s)"
    then have "2 ^ 64 dvd ?n" using assms(1) mod_eq_dvd_iff_nat[of "pq_generation (ps_queue s)" "pq_generation (ps_queue s) + ?n" "2 ^ 64"]
      by (simp add: mod_less)
    then show False using n dvd_imp_le by fastforce
  qed
  then have "pq_generation q \<noteq> pr_generation r" using run_generation[OF assms(1)] assms(2) by (simp add: q_def)
  then show ?thesis by (simp add: reservation_drafts_def reservation_drop_def restore_def split: option.splits)
qed

theorem cleared_media_is_gone_witness:
  "reservation_drafts 8 (ps_queue demo_pending) (ps_reservations demo_pending ! 0) \<noteq> [] \<and>
   reservation_drafts 8 (ps_queue (fold apply_pending_op [OpClear, OpStage 8 8 demo_image] demo_pending)) (ps_reservations demo_pending ! 0) = []"
proof -
  have "pq_generation (ps_queue demo_pending) = 0" "pr_generation (ps_reservations demo_pending ! 0) = 0"
    "reservation_drafts 8 (ps_queue demo_pending) (ps_reservations demo_pending ! 0) \<noteq> []"
    by (simp_all add: demo_pending_eq reservation_drafts_def pending_queue_new_def PENDING_MEDIA_TTL_def from_secs_def)
  then show ?thesis using cleared_media_is_gone[of demo_pending "ps_reservations demo_pending ! 0" "[OpClear, OpStage 8 8 demo_image]" 8]
    by simp
qed

text \<open>A turn that fails gives the attachments back as they were: reserving the whole queue and dropping the reservation
  uncommitted restores the queue, less what has expired meanwhile, in the same order.\<close>

theorem failed_turn_returns_media:
  assumes "queue_ok T q" "now \<le> now'" "reserve_all now q = ((g, items), q')"
  shows "reservation_drop now' \<lparr>pr_generation = g, pr_items = Some items\<rparr> q' = expire now' q"
proof -
  let ?live = "\<lambda>t. filter (\<lambda>item. pi_expires_at item > t)"
  have q: "items = ?live now (pq_items q)" "q' = q\<lparr>pq_items := [], pq_metadata_bytes := 0\<rparr>" "g = pq_generation q"
    using assms(3) by (auto simp: reserve_all_def Let_def expire_filter[OF assms(1)])
  have live: "?live now' items = ?live now' (pq_items q)"
    using assms(2) by (auto simp: q filter_filter intro: filter_cong)
  have srt: "sort_key pi_expires_at (?live now' (pq_items q)) = ?live now' (pq_items q)"
    using assms(1) by (intro sort_key_id_if_sorted sorted_filter) (auto simp: queue_ok_def items_ok_def)
  have le: "item_bytes (?live now' (pq_items q)) \<le> pq_max_metadata_bytes q" "length (?live now' (pq_items q)) \<le> pq_max_count q"
    using assms(1) by (auto simp: queue_ok_def items_ok_def intro: order_trans[OF item_bytes_filter] order_trans[OF length_filter_le])
  have total: "foldl sat_add_u64 0 (map pi_metadata_bytes (?live now' (pq_items q))) = item_bytes (?live now' (pq_items q))"
    using saturating_total[of 0] le(1) assms(1) by (simp add: queue_ok_def)
  have "evict_items (\<lambda>count used. count > pq_max_count q \<or> used > pq_max_metadata_bytes q) (?live now' (pq_items q))
      (item_bytes (?live now' (pq_items q))) = (?live now' (pq_items q), item_bytes (?live now' (pq_items q)))"
    using le by (cases "?live now' (pq_items q)") (auto simp: not_less)
  moreover have "expire now' q' = q'" by (simp add: expire_def q(2))
  ultimately show ?thesis
    by (simp add: reservation_drop_def restore_def Let_def expire_filter[OF assms(1)]) (simp add: q(2,3) live srt total)
qed

theorem failed_turn_returns_media_witness:
  "length (pq_items (reservation_drop 9 (ps_reservations demo_pending ! 0) (ps_queue demo_pending))) = 1"
proof -
  define q where "q = stage 5 6 demo_image (pending_queue_new (settings_from_config demo_config))"
  have ok: "queue_ok 6 q" using stage_ok(1)[of 0 "pending_queue_new (settings_from_config demo_config)" 5 6 demo_image]
      pending_start_ok[OF demo_settings_valid, of 0] by (simp add: q_def pending_ok_def pending_start_def)
  have held: "length (pq_items q) = 1" "\<forall>item\<in>set (pq_items q). pi_expires_at item > 9"
    by (simp_all add: q_def demo_staged PENDING_MEDIA_TTL_def from_secs_def)
  obtain g items q' where re: "reserve_all 7 q = ((g, items), q')" by (metis prod.exhaust)
  then have eq: "demo_pending = \<lparr>ps_queue = q', ps_reservations = [\<lparr>pr_generation = g, pr_items = Some items\<rparr>]\<rparr>"
    by (simp add: demo_pending_def pending_start_def q_def)
  have "length (pq_items (expire 9 q)) = 1"
    using held by (simp add: expire_filter[OF ok] filter_id_conv[THEN iffD2])
  then show ?thesis using failed_turn_returns_media[OF ok _ re, of 9] by (simp add: eq)
qed

end
