(* ===== verification/Scope_Actor.thy ===== *)
theory Scope_Actor
  imports Pending_Media Inbound_Once Reply_Sink "HOL-Library.Sublist"
begin

text \<open>
  One scope of the runtime, \<^verbatim>\<open>src/src/runtime/scope.rs\<close>: the mailbox with its two limits, how a message
  is prepared, how messages are gathered into a batch and how a command is answered. The task runs one
  message at a time; what it is doing is its phase. What a batch does once it is handed to
  \<open>process_batch\<close> and the effects of a command are outside this component.
\<close>

section \<open>Data\<close>

record queued_event =
  qe_event :: inbound_event
  qe_permits :: nat

record actor_inbound =
  ai_key :: inbound_key
  ai_queued :: queued_event
  ai_mailbox_permit :: nat

datatype scope_control = SCommand bridge_command | SMalformed command_parse_error

datatype scope_command = CmdInbound actor_inbound | CmdControl actor_inbound scope_control

record turn_inbound =
  ti_inbound :: actor_inbound
  ti_pending :: "pending_reservation option"

datatype deferred_work = DefPrepared turn_inbound | DefControl actor_inbound scope_control

datatype scope_failure_kind = SfStore | SfAttachment | SfContext | SfPolicy | SfSupervisor | SfProjection | SfClient | SfCapacity

datatype scope_state =
    Idle | Debouncing | WaitingPermit | StartingTurn | Running int | Finalizing int | Failed scope_failure_kind

datatype actor_route_error = RouteFull queued_event | RouteGone queued_event

text \<open>What the task is doing: waiting for work, working on a message it has taken, gathering a batch (with its
  bytes of text and its deadline), running a batch, or ended.\<close>

datatype actor_phase =
    PhaseWait
  | PhasePrepare scope_command
  | PhaseControl actor_inbound scope_control
  | PhaseGather "turn_inbound list" nat instant
  | PhaseBatch "turn_inbound list"
  | PhaseEnded

record scope_actor =
  sa_scope :: scope_key
  sa_mailbox :: "scope_command list"
  sa_budget :: nat
  sa_state :: scope_state
  sa_pending :: pending_media_queue
  sa_deferred :: "deferred_work option"
  sa_phase :: actor_phase
  sa_shutdown :: bool

definition spawn :: "router_settings \<Rightarrow> scope_key \<Rightarrow> scope_actor" where
  "spawn settings scope =
     \<lparr>sa_scope = scope, sa_mailbox = [], sa_budget = SCOPE_MAILBOX_BYTE_BUDGET, sa_state = Idle,
      sa_pending = pending_queue_new settings, sa_deferred = None, sa_phase = PhaseWait, sa_shutdown = False\<rparr>"

section \<open>The handle\<close>

definition try_route_kind ::
    "inbound_key \<Rightarrow> queued_event \<Rightarrow> scope_control option \<Rightarrow> scope_actor \<Rightarrow> (actor_route_error, scope_actor) result" where
  "try_route_kind key queued control a =
     (let bytes = qe_permits queued in
      if bytes > u32_max then Inl (RouteFull queued)
      else if bytes > sa_budget a then Inl (RouteFull queued)
      else let inbound = \<lparr>ai_key = key, ai_queued = queued, ai_mailbox_permit = bytes\<rparr>;
               command = (case control of Some control \<Rightarrow> CmdControl inbound control | None \<Rightarrow> CmdInbound inbound)
           in if sa_phase a = PhaseEnded then Inl (RouteGone queued)
              else if length (sa_mailbox a) \<ge> SCOPE_MAILBOX_CAPACITY then Inl (RouteFull queued)
              else Inr (a\<lparr>sa_mailbox := sa_mailbox a @ [command], sa_budget := sa_budget a - bytes\<rparr>))"

definition try_route :: "inbound_key \<Rightarrow> queued_event \<Rightarrow> scope_actor \<Rightarrow> (actor_route_error, scope_actor) result" where
  "try_route key queued = try_route_kind key queued None"

definition try_route_control ::
    "inbound_key \<Rightarrow> queued_event \<Rightarrow> scope_control \<Rightarrow> scope_actor \<Rightarrow> (actor_route_error, scope_actor) result" where
  "try_route_control key queued control = try_route_kind key queued (Some control)"

definition is_idle_and_empty :: "scope_actor \<Rightarrow> bool" where
  "is_idle_and_empty a \<longleftrightarrow> sa_state a = Idle \<and> SCOPE_MAILBOX_CAPACITY - length (sa_mailbox a) = SCOPE_MAILBOX_CAPACITY"

record scope_snapshot =
  ss_state :: scope_state
  ss_queued_messages :: nat
  ss_pending_media :: nat
  ss_pending_media_bytes :: nat

definition actor_snapshot :: "instant \<Rightarrow> scope_actor \<Rightarrow> scope_snapshot \<times> scope_actor" where
  "actor_snapshot now a =
     (let ((count, bytes), q) = stats now (sa_pending a)
      in (\<lparr>ss_state = sa_state a, ss_queued_messages = length (sa_mailbox a), ss_pending_media = count, ss_pending_media_bytes = bytes\<rparr>,
          a\<lparr>sa_pending := q\<rparr>))"

text \<open>\<open>shutdown\<close> clears the pending attachments and cancels; the task ends at its next cancellation point.\<close>

definition cancel_actor :: "scope_actor \<Rightarrow> scope_actor" where
  "cancel_actor a = a\<lparr>sa_pending := clear (sa_pending a), sa_shutdown := True\<rparr>"

section \<open>Preparing a message\<close>

definition is_conversation_media_event :: "inbound_event \<Rightarrow> bool" where
  "is_conversation_media_event event \<longleftrightarrow> ev_message_type event \<in> {''image'', ''video'', ''media'', ''file'', ''audio''}"

definition is_pending_media_event :: "inbound_event \<Rightarrow> bool" where
  "is_pending_media_event event \<longleftrightarrow>
     ev_chat_type event = P2p \<and> ev_message_type event \<in> {''image'', ''video'', ''media'', ''file''}"

definition is_audio_event :: "inbound_event \<Rightarrow> bool" where
  "is_audio_event event \<longleftrightarrow> ev_message_type event = ''audio''"

definition clears_pending_media :: "string \<Rightarrow> bool" where
  "clears_pending_media text' \<longleftrightarrow> trim (utf8_chars text') \<in> {ustr ''/cancel'', ustr ''/new'', ustr ''/stop''}"

definition is_stale :: "nat \<Rightarrow> inbound_event \<Rightarrow> duration \<Rightarrow> bool" where
  "is_stale unix_ms event max_age \<longleftrightarrow>
     (let now = (if int unix_ms \<le> i64_max then int unix_ms else i64_max);
          max_age = (if int (max_age div 1000000) \<le> i64_max then int (max_age div 1000000) else i64_max)
      in sat_sub_i64 now (ev_create_time_ms event) > max_age)"

text \<open>What the surroundings contribute to one step: the codecs, the idempotency anchor of a payload, the clocks, and for each
  store call in turn the fault it meets, if any (a call that meets a fault changes nothing).\<close>

record 'spec actor_env =
  ae_inbound :: inbound_codec
  ae_json :: "'spec json_codec"
  ae_anchor :: "string \<Rightarrow> string option"
  ae_unix_ms :: nat
  ae_store_ms :: int
  ae_now :: instant
  ae_now2 :: instant
  ae_fault :: "store_error option"

definition with_fault :: "store_error option \<Rightarrow> ('s, 'a) job \<Rightarrow> ('s, 'a) job" where
  "with_fault fault job s = (case fault of Some e \<Rightarrow> Inl e | None \<Rightarrow> job s)"

definition reject_item ::
    "'spec actor_env \<Rightarrow> actor_inbound \<Rightarrow> inbound_rejection_kind \<Rightarrow> bridge_store \<Rightarrow> (scope_failure_kind, bridge_store) result" where
  "reject_item e item reason s =
     (case rejection_notice (ae_json e) (ai_key item) (qe_event (ai_queued item)) reason of
        Inl _ \<Rightarrow> Inl SfProjection
      | Inr notice \<Rightarrow>
          (case with_fault (ae_fault e)
                  (reject_received_and_enqueue_notice (ae_inbound e) (ae_anchor e) (ae_store_ms e) (ai_key item) reason notice) s of
             Inl _ \<Rightarrow> Inl SfStore
           | Inr (_, s') \<Rightarrow> Inr s'))"

definition reservation_for :: "'spec actor_env \<Rightarrow> inbound_event \<Rightarrow> pending_media_queue \<Rightarrow> pending_reservation option \<times> pending_media_queue" where
  "reservation_for e event q0 =
     (let q = expire (ae_now e) q0 in
      if ev_reply_to_message_id event \<noteq> None \<or> clears_pending_media (ev_text event) then (None, clear q)
      else if ev_chat_type event = P2p \<and> ev_message_type event = ''text'' \<and> \<not> is_audio_event event then
        (let ((generation, items), q') = reserve_all (ae_now2 e) q
         in (if items \<noteq> [] then Some \<lparr>pr_generation = generation, pr_items = Some items\<rparr> else None, q'))
      else (None, q))"

definition prepare_inbound ::
    "'spec actor_env \<Rightarrow> access_policy \<Rightarrow> router_settings \<Rightarrow> actor_inbound \<Rightarrow> bridge_store \<times> pending_media_queue \<Rightarrow>
       (scope_failure_kind, turn_inbound option) result \<times> bridge_store \<times> pending_media_queue" where
  "prepare_inbound e policy settings inbound sq =
     (let (s, q) = sq; event = qe_event (ai_queued inbound) in
      if is_pending_media_event event \<or> (ev_chat_type event \<noteq> P2p \<and> is_conversation_media_event event) then
        (case (if is_stale (ae_unix_ms e) event (rs_message_max_age settings) then Some Stale else rejection_kind (decide policy event)) of
           Some reason \<Rightarrow>
             (case reject_item e inbound reason s of Inl kind \<Rightarrow> (Inl kind, s, q) | Inr s' \<Rightarrow> (Inr None, s', q))
         | None \<Rightarrow>
             (case with_fault (ae_fault e) (complete_received_without_turn (ae_inbound e) (ae_store_ms e) (ai_key inbound)) s of
                Inl _ \<Rightarrow> (Inl SfStore, s, q)
              | Inr (_, s') \<Rightarrow>
                  (Inr None, s', if is_pending_media_event event then stage (ae_now e) (ae_now2 e) event q else q)))
      else
        (let (reservation, q') = reservation_for e event q
         in (Inr (Some \<lparr>ti_inbound = inbound, ti_pending = reservation\<rparr>), s, q')))"

section \<open>Answering a command\<close>

datatype 'spec control_answer = AnswerText ustring | AnswerCard 'spec

fun command_error_text :: "command_parse_error \<Rightarrow> ustring" where
  "command_error_text TooLong = ustr ''the bridge command is too long''"
| "command_error_text (MissingArgument command) = ustr (command @ '' requires an argument'')"
| "command_error_text (UnexpectedArgument command) = ustr (command @ '' does not accept arguments'')"
| "command_error_text HandoffConfirmationRequired = ustr ''/adopt requires the exact --handoff-complete acknowledgement''"
| "command_error_text InvalidSelector = ustr ''/adopt selector must be one token or one JSON string''"
| "command_error_text InvalidConfigValue = ustr ''/config received an invalid value''"

text \<open>The attempts to store a reply: the fault an attempt meets, the clock of the store, and whether the actor is cancelled while it
  waits for the next attempt. Without an attempt left the loop is still running.\<close>

type_synonym reply_attempt = "store_error option \<times> int \<times> bool"

fun complete_control_reply ::
    "'spec actor_env \<Rightarrow> reply_attempt list \<Rightarrow> inbound_key \<Rightarrow> new_outbox_row \<Rightarrow> bridge_store \<Rightarrow>
       (scope_failure_kind, bridge_store) result option" where
  "complete_control_reply e [] key row s = None"
| "complete_control_reply e ((fault, ms, cancelled) # rest) key row s =
     (case with_fault fault (complete_received_and_enqueue_control_reply (ae_inbound e) (ae_anchor e) ms key row) s of
        Inr (_, s') \<Rightarrow> Some (Inr s')
      | Inl err \<Rightarrow>
          if err = QueueFull then (if cancelled then Some (Inl SfSupervisor) else complete_control_reply e rest key row s)
          else Some (Inl SfStore))"

definition owner_gated :: "scope_control \<Rightarrow> bool" where
  "owner_gated control = (case control of SCommand command \<Rightarrow> command_requires_owner command | SMalformed _ \<Rightarrow> False)"

definition control_decision :: "access_policy \<Rightarrow> scope_control \<Rightarrow> inbound_event \<Rightarrow> access_decision" where
  "control_decision policy control event = (if owner_gated control then decide_command policy event else decide policy event)"

definition answer_of :: "(bridge_command \<Rightarrow> 'spec control_answer) \<Rightarrow> scope_control \<Rightarrow> 'spec control_answer" where
  "answer_of execute control =
     (case control of
        SMalformed error \<Rightarrow>
          AnswerText (ustr ''Command rejected: '' @ command_error_text error @ ustr ''. Use /help for exact syntax.'')
      | SCommand command \<Rightarrow> execute command)"

definition process_control ::
    "'spec actor_env \<Rightarrow> access_policy \<Rightarrow> router_settings \<Rightarrow> (bridge_command \<Rightarrow> 'spec control_answer) \<Rightarrow> reply_attempt list \<Rightarrow>
       actor_inbound \<Rightarrow> scope_control \<Rightarrow> bridge_store \<Rightarrow> (scope_failure_kind, bridge_store) result option" where
  "process_control e policy settings execute attempts inbound control s =
     (let event = qe_event (ai_queued inbound) in
      if is_stale (ae_unix_ms e) event (rs_message_max_age settings) then Some (reject_item e inbound Stale s)
      else case rejection_kind (control_decision policy control event) of
        Some reason \<Rightarrow> Some (reject_item e inbound reason s)
      | None \<Rightarrow>
          (case (case answer_of execute control of
                   AnswerText text' \<Rightarrow> control_reply (ae_json e) (ai_key inbound) event text'
                 | AnswerCard spec' \<Rightarrow> control_card (ae_json e) (ai_key inbound) event spec') of
             Inl _ \<Rightarrow> Some (Inl SfProjection)
           | Inr row \<Rightarrow> complete_control_reply e attempts (ai_key inbound) row s))"

section \<open>The task\<close>

text \<open>How a message leaves the actor: in a batch, as a command, settled in the store while it was prepared, dropped after a failure, or
  abandoned when the task ends.\<close>

datatype departure =
    Handed actor_inbound | Commanded actor_inbound | Settled actor_inbound | Refused actor_inbound | Abandoned actor_inbound

text \<open>Dropping a message gives its mailbox permit back.\<close>

definition release_permits :: "actor_inbound list \<Rightarrow> scope_actor \<Rightarrow> scope_actor" where
  "release_permits items a = a\<lparr>sa_budget := sa_budget a + sum_list (map ai_mailbox_permit items)\<rparr>"

fun drop_reservation :: "instant \<Rightarrow> turn_inbound \<Rightarrow> pending_media_queue \<Rightarrow> pending_media_queue" where
  "drop_reservation now t q = (case ti_pending t of None \<Rightarrow> q | Some r \<Rightarrow> reservation_drop now r q)"

fun command_inbound :: "scope_command \<Rightarrow> actor_inbound" where
  "command_inbound (CmdInbound i) = i"
| "command_inbound (CmdControl i control) = i"

fun deferred_inbound :: "deferred_work \<Rightarrow> actor_inbound" where
  "deferred_inbound (DefPrepared t) = ti_inbound t"
| "deferred_inbound (DefControl i control) = i"

fun deferred_turns :: "deferred_work option \<Rightarrow> turn_inbound list" where
  "deferred_turns (Some (DefPrepared t)) = [t]"
| "deferred_turns _ = []"

fun phase_inbound :: "actor_phase \<Rightarrow> actor_inbound list" where
  "phase_inbound PhaseWait = []"
| "phase_inbound (PhasePrepare command) = [command_inbound command]"
| "phase_inbound (PhaseControl i control) = [i]"
| "phase_inbound (PhaseGather batch bytes deadline) = map ti_inbound batch"
| "phase_inbound (PhaseBatch batch) = map ti_inbound batch"
| "phase_inbound PhaseEnded = []"

definition held :: "scope_actor \<Rightarrow> actor_inbound list" where
  "held a = phase_inbound (sa_phase a) @ (case sa_deferred a of None \<Rightarrow> [] | Some d \<Rightarrow> [deferred_inbound d]) @
     map command_inbound (sa_mailbox a)"

fun phase_turns :: "actor_phase \<Rightarrow> turn_inbound list" where
  "phase_turns (PhaseGather batch bytes deadline) = batch"
| "phase_turns (PhaseBatch batch) = batch"
| "phase_turns _ = []"

text \<open>The end of the task drops everything it still holds.\<close>

definition end_task :: "instant \<Rightarrow> scope_actor \<Rightarrow> scope_actor \<times> departure list" where
  "end_task now a =
     (let q = fold (drop_reservation now) (phase_turns (sa_phase a) @ deferred_turns (sa_deferred a)) (sa_pending a)
      in ((release_permits (held a) a)\<lparr>sa_phase := PhaseEnded, sa_mailbox := [], sa_deferred := None, sa_pending := q\<rparr>,
          map Abandoned (held a)))"

definition hand_over :: "turn_inbound list \<Rightarrow> scope_actor \<Rightarrow> scope_actor" where
  "hand_over batch a = a\<lparr>sa_phase := PhaseBatch batch, sa_state := WaitingPermit\<rparr>"

definition event_of :: "turn_inbound \<Rightarrow> inbound_event" where
  "event_of t = qe_event (ai_queued (ti_inbound t))"

definition start_batch :: "instant \<Rightarrow> router_settings \<Rightarrow> turn_inbound \<Rightarrow> scope_actor \<Rightarrow> scope_actor" where
  "start_batch now settings first a =
     (if is_audio_event (event_of first) then hand_over [first] a
      else a\<lparr>sa_phase := PhaseGather [first] (length (ev_text (event_of first))) (now + rs_debounce settings), sa_state := Debouncing\<rparr>)"

definition extend_batch :: "turn_inbound list \<Rightarrow> nat \<Rightarrow> instant \<Rightarrow> turn_inbound \<Rightarrow> scope_actor \<Rightarrow> scope_actor" where
  "extend_batch batch text_bytes deadline item a =
     (let next_bytes = length (ev_text (event_of item)) in
      if is_audio_event (event_of item) then hand_over batch (a\<lparr>sa_deferred := Some (DefPrepared item)\<rparr>)
      else if sat_add_u64 text_bytes next_bytes > TURN_BATCH_TEXT_BYTE_BUDGET
      then hand_over batch (a\<lparr>sa_deferred := Some (DefPrepared item)\<rparr>)
      else a\<lparr>sa_phase := PhaseGather (batch @ [item]) (sat_add_u64 text_bytes next_bytes) deadline\<rparr>)"

text \<open>One wake-up of the gathering loop, and the whole loop body of the task. \<open>BatchProgress\<close> and \<open>BatchDone\<close> stand for \<open>process_batch\<close>: the
  states it shows, which reservations it has committed, and its result.\<close>

definition gather_step ::
    "'spec actor_env \<Rightarrow> access_policy \<Rightarrow> router_settings \<Rightarrow> turn_inbound list \<Rightarrow> nat \<Rightarrow> instant \<Rightarrow> scope_actor \<times> bridge_store \<Rightarrow>
       (scope_actor \<times> bridge_store) \<times> departure list" where
  "gather_step e policy settings batch text_bytes deadline as =
     (let (a, s) = as in
      if length batch \<ge> TURN_BATCH_MAX_MESSAGES \<or> text_bytes \<ge> TURN_BATCH_TEXT_BYTE_BUDGET then ((hand_over batch a, s), [])
      else if sa_shutdown a then (let (a', out) = end_task (ae_now e) a in ((a', s), out))
      else if ae_now e \<ge> deadline then ((hand_over batch a, s), [])
      else case sa_mailbox a of
        [] \<Rightarrow> ((a, s), [])
      | CmdControl i control # rest \<Rightarrow>
          ((hand_over batch (a\<lparr>sa_mailbox := rest, sa_deferred := Some (DefControl i control)\<rparr>), s), [])
      | CmdInbound i # rest \<Rightarrow>
          (let (res, s', q) = prepare_inbound e policy settings i (s, sa_pending a);
               a' = a\<lparr>sa_mailbox := rest, sa_pending := q\<rparr>
           in case res of
                Inr None \<Rightarrow> ((release_permits [i] a', s'), [Settled i])
              | Inr (Some item) \<Rightarrow> ((extend_batch batch text_bytes deadline item a', s'), [])
              | Inl kind \<Rightarrow> ((hand_over batch (release_permits [i] a'), s'), [Refused i])))"

datatype 'spec actor_wake =
    WakeUp
  | ControlRun "bridge_command \<Rightarrow> 'spec control_answer" "reply_attempt list"
  | BatchProgress scope_state
  | BatchDone "bool list" "(scope_failure_kind, unit) result"

fun drop_batch :: "instant \<Rightarrow> bool list \<Rightarrow> turn_inbound list \<Rightarrow> pending_media_queue \<Rightarrow> pending_media_queue" where
  "drop_batch now (True # committed) (t # batch) q = drop_batch now committed batch q"
| "drop_batch now (False # committed) (t # batch) q = drop_batch now committed batch (drop_reservation now t q)"
| "drop_batch now [] (t # batch) q = drop_batch now [] batch (drop_reservation now t q)"
| "drop_batch now committed [] q = q"

fun batch_state :: "scope_state \<Rightarrow> bool" where
  "batch_state StartingTurn = True"
| "batch_state (Running row) = True"
| "batch_state (Finalizing row) = True"
| "batch_state st = False"

definition settled_state :: "(scope_failure_kind, 'a) result \<Rightarrow> scope_state" where
  "settled_state res = (case res of Inl kind \<Rightarrow> Failed kind | Inr _ \<Rightarrow> Idle)"

definition actor_step ::
    "'spec actor_env \<Rightarrow> access_policy \<Rightarrow> router_settings \<Rightarrow> 'spec actor_wake \<Rightarrow> scope_actor \<times> bridge_store \<Rightarrow>
       (scope_actor \<times> bridge_store) \<times> departure list" where
  "actor_step e policy settings wake as =
     (let (a, s) = as in
      case sa_phase a of
        PhaseEnded \<Rightarrow> (as, [])
      | PhaseWait \<Rightarrow>
          (case sa_deferred a of
             Some (DefPrepared first) \<Rightarrow> ((start_batch (ae_now e) settings first (a\<lparr>sa_deferred := None\<rparr>), s), [])
           | Some (DefControl i control) \<Rightarrow> ((a\<lparr>sa_deferred := None, sa_phase := PhaseControl i control\<rparr>, s), [])
           | None \<Rightarrow>
               if sa_shutdown a then (let (a', out) = end_task (ae_now e) a in ((a', s), out))
               else case sa_mailbox a of
                 CmdInbound i # rest \<Rightarrow> ((a\<lparr>sa_mailbox := rest, sa_phase := PhasePrepare (CmdInbound i)\<rparr>, s), [])
               | CmdControl i control # rest \<Rightarrow> ((a\<lparr>sa_mailbox := rest, sa_phase := PhaseControl i control\<rparr>, s), [])
               | [] \<Rightarrow>
                   (case next_expiry (sa_pending a) of
                      Some at \<Rightarrow> if at \<le> ae_now e then ((a\<lparr>sa_pending := expire (ae_now2 e) (sa_pending a)\<rparr>, s), []) else (as, [])
                    | None \<Rightarrow> (as, [])))
      | PhasePrepare command \<Rightarrow>
          (let i = command_inbound command;
               (res, s', q) = prepare_inbound e policy settings i (s, sa_pending a);
               a' = a\<lparr>sa_pending := q\<rparr>
           in case res of
                Inr None \<Rightarrow> ((release_permits [i] (a'\<lparr>sa_phase := PhaseWait\<rparr>), s'), [Settled i])
              | Inr (Some first) \<Rightarrow> ((start_batch (ae_now2 e) settings first a', s'), [])
              | Inl kind \<Rightarrow> ((release_permits [i] (a'\<lparr>sa_phase := PhaseWait, sa_state := Failed kind\<rparr>), s'), [Refused i]))
      | PhaseControl i control \<Rightarrow>
          (case wake of
             ControlRun execute attempts \<Rightarrow>
               (case process_control e policy settings execute attempts i control s of
                  None \<Rightarrow> (as, [])
                | Some res \<Rightarrow>
                    ((release_permits [i] (a\<lparr>sa_phase := PhaseWait, sa_state := settled_state res\<rparr>),
                      case res of Inr s' \<Rightarrow> s' | Inl _ \<Rightarrow> s), [Commanded i]))
           | _ \<Rightarrow> (as, []))
      | PhaseGather batch text_bytes deadline \<Rightarrow> gather_step e policy settings batch text_bytes deadline as
      | PhaseBatch batch \<Rightarrow>
          (case wake of
             BatchProgress st \<Rightarrow>
               (if batch_state st then ((a\<lparr>sa_state := st\<rparr>, s), []) else (as, []))
           | BatchDone committed res \<Rightarrow>
               (let a' = (release_permits (map ti_inbound batch) a)\<lparr>sa_pending := drop_batch (ae_now e) committed batch (sa_pending a),
                           sa_phase := PhaseWait\<rparr>;
                    out = map (\<lambda>t. Handed (ti_inbound t)) batch
                in if sa_shutdown a then (let (a'', out') = end_task (ae_now e) a' in ((a'', s), out @ out'))
                   else ((a'\<lparr>sa_state := settled_state res\<rparr>, s), out))
           | _ \<Rightarrow> (as, [])))"

end
