(* ===== verification/Scope_Order.thy ===== *)
theory Scope_Order
  imports Scope_Actor "HOL-Library.Multiset"
begin

text \<open>
  What a scope actor guarantees over any run, whatever the router, the clock, the store and the running
  batches do: messages are acted on in the order in which they came, each one leaves in exactly one way
  and only for the reason that goes with it, the mailbox and its byte budget hold, and a batch stays
  within its limits.
\<close>

section \<open>Runs\<close>

record actor_run =
  ar_actor :: scope_actor
  ar_store :: bridge_store
  ar_arrived :: "actor_inbound list"
  ar_departed :: "departure list"

datatype 'spec actor_op =
    ActRoute inbound_key queued_event "scope_control option"
  | ActStep "'spec actor_env" access_policy router_settings "'spec actor_wake"
  | ActStore bridge_store
  | ActCancel
  | ActClear
  | ActSnapshot instant

text \<open>\<open>ActStore\<close> is any change of the store from outside the actor, \<open>ActClear\<close> the clearing of pending attachments by an interrupt.\<close>

fun apply_actor_op :: "'spec actor_op \<Rightarrow> actor_run \<Rightarrow> actor_run" where
  "apply_actor_op (ActRoute key queued control) r =
     (case try_route_kind key queued control (ar_actor r) of
        Inl _ \<Rightarrow> r
      | Inr a \<Rightarrow> r\<lparr>ar_actor := a,
          ar_arrived := ar_arrived r @ [\<lparr>ai_key = key, ai_queued = queued, ai_mailbox_permit = qe_permits queued\<rparr>]\<rparr>)"
| "apply_actor_op (ActStep e policy settings wake) r =
     (let ((a, s), out) = actor_step e policy settings wake (ar_actor r, ar_store r)
      in r\<lparr>ar_actor := a, ar_store := s, ar_departed := ar_departed r @ out\<rparr>)"
| "apply_actor_op (ActStore s) r = r\<lparr>ar_store := s\<rparr>"
| "apply_actor_op ActCancel r = r\<lparr>ar_actor := cancel_actor (ar_actor r)\<rparr>"
| "apply_actor_op ActClear r = r\<lparr>ar_actor := (ar_actor r)\<lparr>sa_pending := clear (sa_pending (ar_actor r))\<rparr>\<rparr>"
| "apply_actor_op (ActSnapshot now) r = r\<lparr>ar_actor := snd (actor_snapshot now (ar_actor r))\<rparr>"

fun departed_inbound :: "departure \<Rightarrow> actor_inbound" where
  "departed_inbound (Handed i) = i"
| "departed_inbound (Commanded i) = i"
| "departed_inbound (Settled i) = i"
| "departed_inbound (Refused i) = i"
| "departed_inbound (Abandoned i) = i"

text \<open>The messages that were acted on, in the order in which that happened.\<close>

fun acted_on :: "departure list \<Rightarrow> actor_inbound list" where
  "acted_on [] = []"
| "acted_on (Handed i # out) = i # acted_on out"
| "acted_on (Commanded i # out) = i # acted_on out"
| "acted_on (_ # out) = acted_on out"

abbreviation permits :: "actor_inbound list \<Rightarrow> nat" where
  "permits items \<equiv> sum_list (map ai_mailbox_permit items)"

abbreviation text_total :: "turn_inbound list \<Rightarrow> nat" where
  "text_total batch \<equiv> sum_list (map (\<lambda>t. length (ev_text (event_of t))) batch)"

definition batch_ok :: "turn_inbound list \<Rightarrow> bool" where
  "batch_ok batch \<longleftrightarrow>
     batch \<noteq> [] \<and> length batch \<le> TURN_BATCH_MAX_MESSAGES \<and>
     (length batch = 1 \<or> text_total batch \<le> TURN_BATCH_TEXT_BYTE_BUDGET \<and> \<not> list_ex (\<lambda>t. is_audio_event (event_of t)) batch)"

text \<open>What holds of the actor alone.\<close>

definition phase_ok :: "scope_actor \<Rightarrow> bool" where
  "phase_ok a \<longleftrightarrow>
     (case sa_phase a of
        PhaseWait \<Rightarrow> sa_state a = Idle \<or> (\<exists>kind. sa_state a = Failed kind)
      | PhasePrepare command \<Rightarrow> sa_deferred a = None \<and> (sa_state a = Idle \<or> (\<exists>kind. sa_state a = Failed kind))
      | PhaseControl i control \<Rightarrow> sa_deferred a = None \<and> (sa_state a = Idle \<or> (\<exists>kind. sa_state a = Failed kind))
      | PhaseGather batch text_bytes deadline \<Rightarrow>
          sa_deferred a = None \<and> sa_state a = Debouncing \<and> batch_ok batch \<and> text_bytes = text_total batch \<and>
          \<not> list_ex (\<lambda>t. is_audio_event (event_of t)) batch
      | PhaseBatch batch \<Rightarrow> batch_ok batch \<and> (sa_state a = WaitingPermit \<or> batch_state (sa_state a))
      | PhaseEnded \<Rightarrow> sa_deferred a = None \<and> sa_mailbox a = [])"

definition actor_ok :: "scope_actor \<Rightarrow> bool" where
  "actor_ok a \<longleftrightarrow>
     phase_ok a \<and> length (sa_mailbox a) \<le> SCOPE_MAILBOX_CAPACITY \<and> sa_budget a + permits (held a) = SCOPE_MAILBOX_BYTE_BUDGET"

definition run_ok :: "actor_run \<Rightarrow> bool" where
  "run_ok r \<longleftrightarrow>
     actor_ok (ar_actor r) \<and>
     subseq (acted_on (ar_departed r) @ held (ar_actor r)) (ar_arrived r) \<and>
     mset (ar_arrived r) = mset (map departed_inbound (ar_departed r)) + mset (held (ar_actor r))"

section \<open>One step\<close>

text \<open>What a step does to the messages: the ones that leave and the ones that stay are those that were there, in their order, and the permits
  of those that leave are given back.\<close>

definition step_sound :: "scope_actor \<Rightarrow> scope_actor \<Rightarrow> departure list \<Rightarrow> bool" where
  "step_sound a a' out \<longleftrightarrow>
     subseq (acted_on out @ held a') (held a) \<and> mset (held a) = mset (map departed_inbound out) + mset (held a') \<and>
     sa_budget a' = sa_budget a + permits (map departed_inbound out) \<and> length (sa_mailbox a') \<le> length (sa_mailbox a)"

lemma acted_on_append [simp]: "acted_on (xs @ ys) = acted_on xs @ acted_on ys"
  by (induction xs rule: acted_on.induct) simp_all

lemma acted_on_handed [simp]: "acted_on (map (\<lambda>t. Handed (f t)) xs) = map f xs"
  by (induction xs) simp_all

lemma acted_on_abandoned [simp]: "acted_on (map Abandoned xs) = []"
  by (induction xs) simp_all

lemma departed_simps [simp]:
  "departed_inbound \<circ> Abandoned = id" "departed_inbound \<circ> (\<lambda>t. Handed (f t)) = f"
  "g \<circ> departed_inbound \<circ> Abandoned = g" "g \<circ> departed_inbound \<circ> (\<lambda>t. Handed (f t)) = g \<circ> f"
  by (simp_all add: fun_eq_iff)

lemma subseq_drop_one [simp]: "subseq (xs @ ys) (xs @ y # ys)"
  by (induction xs) auto

lemma release_permits_fields [simp]:
  "sa_mailbox (release_permits xs a) = sa_mailbox a" "sa_phase (release_permits xs a) = sa_phase a"
  "sa_deferred (release_permits xs a) = sa_deferred a" "sa_budget (release_permits xs a) = sa_budget a + permits xs"
  "sa_state (release_permits xs a) = sa_state a" "sa_shutdown (release_permits xs a) = sa_shutdown a"
  by (simp_all add: release_permits_def)

lemma end_task_sound:
  assumes "end_task now a = (a', out)"
  shows "step_sound a a' out" "phase_ok a'" "out = map Abandoned (held a)"
proof -
  have a': "sa_phase a' = PhaseEnded" "sa_mailbox a' = []" "sa_deferred a' = None" "sa_budget a' = sa_budget a + permits (held a)"
    "out = map Abandoned (held a)" using assms by (auto simp: end_task_def Let_def)
  then have "held a' = []" by (simp add: held_def)
  then show "step_sound a a' out" "phase_ok a'" "out = map Abandoned (held a)" using a' by (simp_all add: step_sound_def phase_ok_def)
qed

lemma hand_over_fields [simp]:
  "sa_mailbox (hand_over batch a) = sa_mailbox a" "sa_phase (hand_over batch a) = PhaseBatch batch"
  "sa_deferred (hand_over batch a) = sa_deferred a" "sa_budget (hand_over batch a) = sa_budget a"
  "sa_state (hand_over batch a) = WaitingPermit"
  by (simp_all add: hand_over_def)

lemma batch_ok_single [simp]: "batch_ok [t]"
  by (simp add: batch_ok_def TURN_BATCH_MAX_MESSAGES_def)

lemma start_batch_held:
  assumes "sa_deferred a = None" "phase_inbound (sa_phase a) = [ti_inbound first] \<or> phase_inbound (sa_phase a) = []"
  shows "phase_ok (start_batch now settings first a)" "sa_mailbox (start_batch now settings first a) = sa_mailbox a"
    "sa_budget (start_batch now settings first a) = sa_budget a"
    "held (start_batch now settings first a) = ti_inbound first # map command_inbound (sa_mailbox a)"
  using assms by (auto simp: start_batch_def phase_ok_def held_def)

lemma extend_batch_held:
  assumes "phase_ok a" "sa_phase a = PhaseGather batch text_bytes deadline"
    "length batch < TURN_BATCH_MAX_MESSAGES" "text_bytes < TURN_BATCH_TEXT_BYTE_BUDGET"
  shows "phase_ok (extend_batch batch text_bytes deadline item a)"
    "sa_mailbox (extend_batch batch text_bytes deadline item a) = sa_mailbox a"
    "sa_budget (extend_batch batch text_bytes deadline item a) = sa_budget a"
    "held (extend_batch batch text_bytes deadline item a) = map ti_inbound batch @ ti_inbound item # map command_inbound (sa_mailbox a)"
proof -
  let ?n = "length (ev_text (event_of item))"
  have a: "sa_deferred a = None" "sa_state a = Debouncing" "batch_ok batch" "text_bytes = text_total batch"
    "\<not> list_ex (\<lambda>t. is_audio_event (event_of t)) batch"
    using assms(1,2) by (auto simp: phase_ok_def)
  have exact: "sat_add_u64 text_bytes ?n = text_bytes + ?n" if "sat_add_u64 text_bytes ?n \<le> TURN_BATCH_TEXT_BYTE_BUDGET"
    using that by (auto simp: sat_add_u64_def u64_max_def TURN_BATCH_TEXT_BYTE_BUDGET_def min_def split: if_splits)
  show "phase_ok (extend_batch batch text_bytes deadline item a)"
    using a assms(3) exact by (auto simp: extend_batch_def Let_def phase_ok_def batch_ok_def not_less)
  show "sa_mailbox (extend_batch batch text_bytes deadline item a) = sa_mailbox a"
    "sa_budget (extend_batch batch text_bytes deadline item a) = sa_budget a"
    "held (extend_batch batch text_bytes deadline item a) = map ti_inbound batch @ ti_inbound item # map command_inbound (sa_mailbox a)"
    using a(1) by (auto simp: extend_batch_def Let_def held_def)
qed

lemma prepare_keeps_item:
  "prepare_inbound e policy settings i sq = (Inr (Some t), s', q) \<Longrightarrow> ti_inbound t = i"
  by (auto simp: prepare_inbound_def Let_def split: prod.splits if_splits option.splits sum.splits)

lemma gather_inbound_sound:
  assumes "phase_ok a" "sa_phase a = PhaseGather batch text_bytes deadline"
    "length batch < TURN_BATCH_MAX_MESSAGES" "text_bytes < TURN_BATCH_TEXT_BYTE_BUDGET" "sa_mailbox a = CmdInbound i # rest"
    "prepare_inbound e policy settings i (s, sa_pending a) = (res, s1, q)"
  defines "b \<equiv> a\<lparr>sa_mailbox := rest, sa_pending := q\<rparr>"
  shows "case res of
      Inl kind \<Rightarrow> step_sound a (hand_over batch (release_permits [i] b)) [Refused i] \<and> phase_ok (hand_over batch (release_permits [i] b))
    | Inr None \<Rightarrow> step_sound a (release_permits [i] b) [Settled i] \<and> phase_ok (release_permits [i] b)
    | Inr (Some item) \<Rightarrow> step_sound a (extend_batch batch text_bytes deadline item b) [] \<and>
        phase_ok (extend_batch batch text_bytes deadline item b)"
proof -
  have a: "sa_deferred a = None" "batch_ok batch" using assms(1,2) by (auto simp: phase_ok_def)
  have b: "phase_ok b" "sa_phase b = PhaseGather batch text_bytes deadline" "sa_mailbox b = rest" "sa_budget b = sa_budget a"
    "sa_deferred b = None" using assms(1,2) a by (auto simp: b_def phase_ok_def)
  have h: "held a = map ti_inbound batch @ i # map command_inbound rest" using a assms(2,5) by (simp add: held_def)
  have "step_sound a (hand_over batch (release_permits [i] b)) [Refused i]" "step_sound a (release_permits [i] b) [Settled i]"
    using a b h assms(5) by (auto simp: step_sound_def held_def)
  moreover have "phase_ok (hand_over batch (release_permits [i] b))" "phase_ok (release_permits [i] b)"
    using a b by (auto simp: phase_ok_def)
  moreover have "step_sound a (extend_batch batch text_bytes deadline item b) [] \<and> phase_ok (extend_batch batch text_bytes deadline item b)"
    if "res = Inr (Some item)" for item
    using prepare_keeps_item[OF assms(6)[unfolded that]] extend_batch_held[OF b(1,2) assms(3,4), of item] h b assms(5) by (simp add: step_sound_def)
  ultimately show ?thesis by (auto split: sum.splits option.splits)
qed

lemma gather_step_sound:
  assumes "phase_ok a" "sa_phase a = PhaseGather batch text_bytes deadline"
    "gather_step e policy settings batch text_bytes deadline (a, s) = ((a', s'), out)"
  shows "step_sound a a' out \<and> phase_ok a'"
proof -
  have a: "sa_deferred a = None" "batch_ok batch" using assms(1,2) by (auto simp: phase_ok_def)
  have hand: "step_sound a (hand_over batch a) [] \<and> phase_ok (hand_over batch a)"
    using a assms(2) by (simp add: step_sound_def held_def phase_ok_def)
  let ?full = "length batch \<ge> TURN_BATCH_MAX_MESSAGES \<or> text_bytes \<ge> TURN_BATCH_TEXT_BYTE_BUDGET"
  consider (full) ?full | (ended) "\<not> ?full" "sa_shutdown a" | (late) "\<not> ?full" "\<not> sa_shutdown a" "deadline \<le> ae_now e"
    | (take) "\<not> ?full" "\<not> sa_shutdown a" "\<not> deadline \<le> ae_now e" by blast
  then show ?thesis
  proof cases
    case full
    then show ?thesis using assms(3) hand unfolding gather_step_def by simp
  next
    case ended
    then have "end_task (ae_now e) a = (a', out)" using assms(3) unfolding gather_step_def by (auto split: prod.splits)
    from end_task_sound[OF this] show ?thesis by simp
  next
    case late
    then show ?thesis using assms(3) hand unfolding gather_step_def by simp
  next
    case take
    then have room: "length batch < TURN_BATCH_MAX_MESSAGES" "text_bytes < TURN_BATCH_TEXT_BYTE_BUDGET" by auto
    show ?thesis
    proof (cases "sa_mailbox a")
      case Nil
      then show ?thesis using assms take unfolding gather_step_def by (simp add: step_sound_def)
    next
      case (Cons c rest)
      show ?thesis
      proof (cases c)
        case (CmdControl i control)
        then have "a' = hand_over batch (a\<lparr>sa_mailbox := rest, sa_deferred := Some (DefControl i control)\<rparr>)" "out = []"
          using assms(3) take Cons unfolding gather_step_def by simp_all
        then show ?thesis using a assms(2) Cons CmdControl by (simp add: step_sound_def held_def phase_ok_def)
      next
        case (CmdInbound i)
        obtain res s1 q where p: "prepare_inbound e policy settings i (s, sa_pending a) = (res, s1, q)" by (metis prod.exhaust)
        show ?thesis
          using gather_inbound_sound[OF assms(1,2) room Cons[unfolded CmdInbound] p] assms(3) take Cons CmdInbound p
          unfolding gather_step_def by (auto split: sum.splits option.splits)
      qed
    qed
  qed
qed

lemma wait_step_sound:
  assumes "phase_ok a" "sa_phase a = PhaseWait" "actor_step e policy settings wake (a, s) = ((a', s'), out)"
  shows "step_sound a a' out \<and> phase_ok a'"
proof (cases "sa_deferred a")
  case (Some d)
  show ?thesis
  proof (cases d)
    case (DefPrepared first)
    then have "a' = start_batch (ae_now e) settings first (a\<lparr>sa_deferred := None\<rparr>)" "out = []"
      using assms(2,3) Some by (auto simp: actor_step_def)
    then show ?thesis using start_batch_held[of "a\<lparr>sa_deferred := None\<rparr>" first] assms(2) Some DefPrepared
      by (simp add: step_sound_def held_def[of a])
  next
    case (DefControl i control)
    then show ?thesis using assms Some by (auto simp: actor_step_def step_sound_def held_def phase_ok_def)
  qed
next
  case None
  show ?thesis
  proof (cases "sa_shutdown a")
    case True
    then have "end_task (ae_now e) a = (a', out)" using assms(2,3) None by (auto simp: actor_step_def split: prod.splits)
    from end_task_sound[OF this] show ?thesis by simp
  next
    case False
    show ?thesis
    proof (cases "sa_mailbox a")
      case Nil
      then show ?thesis using assms None False
        by (auto simp: actor_step_def step_sound_def held_def phase_ok_def split: option.splits if_splits)
    next
      case (Cons c rest)
      then show ?thesis using assms None False
        by (cases c) (auto simp: actor_step_def step_sound_def held_def phase_ok_def)
    qed
  qed
qed

lemma prepare_step_sound:
  assumes "phase_ok a" "sa_phase a = PhasePrepare command" "actor_step e policy settings wake (a, s) = ((a', s'), out)"
  shows "step_sound a a' out \<and> phase_ok a'"
proof -
  let ?i = "command_inbound command"
  have a: "sa_deferred a = None" "sa_state a = Idle \<or> (\<exists>kind. sa_state a = Failed kind)" using assms(1,2) by (auto simp: phase_ok_def)
  obtain res s1 q where p: "prepare_inbound e policy settings ?i (s, sa_pending a) = (res, s1, q)" by (metis prod.exhaust)
  show ?thesis
  proof (cases res)
    case (Inl kind)
    then show ?thesis using assms(2,3) a p by (auto simp: actor_step_def Let_def step_sound_def held_def phase_ok_def)
  next
    case (Inr opt)
    show ?thesis
    proof (cases opt)
      case None
      then show ?thesis using assms(2,3) a p Inr by (auto simp: actor_step_def Let_def step_sound_def held_def phase_ok_def)
    next
      case (Some first)
      have "ti_inbound first = ?i" using prepare_keeps_item p Inr Some by blast
      then show ?thesis using assms(2,3) a p Inr Some start_batch_held[of "a\<lparr>sa_pending := q\<rparr>" first "ae_now2 e" settings]
        by (auto simp: actor_step_def Let_def step_sound_def held_def[of a])
    qed
  qed
qed

lemma batch_step_sound:
  assumes "phase_ok a" "sa_phase a = PhaseBatch batch" "actor_step e policy settings wake (a, s) = ((a', s'), out)"
  shows "step_sound a a' out \<and> phase_ok a'"
proof -
  have same: "step_sound a a []" by (simp add: step_sound_def)
  show ?thesis
  proof (cases wake)
    case (BatchDone committed res)
    define b where "b = (release_permits (map ti_inbound batch) a)\<lparr>sa_pending := drop_batch (ae_now e) committed batch (sa_pending a),
       sa_phase := PhaseWait\<rparr>"
    have h: "held a = map ti_inbound batch @ held b" using assms(2) by (simp add: held_def b_def)
    have b: "sa_budget b = sa_budget a + permits (map ti_inbound batch)" "sa_mailbox b = sa_mailbox a" by (simp_all add: b_def)
    show ?thesis
    proof (cases "sa_shutdown a")
      case True
      then obtain out' where e: "end_task (ae_now e) b = (a', out')" "out = map (\<lambda>t. Handed (ti_inbound t)) batch @ out'"
        using assms(2,3) BatchDone by (auto simp: actor_step_def b_def split: prod.splits)
      show ?thesis using end_task_sound[OF e(1)] e(2) h b by (auto simp: step_sound_def)
    next
      case False
      then have "a' = b\<lparr>sa_state := settled_state res\<rparr>" "out = map (\<lambda>t. Handed (ti_inbound t)) batch"
        using assms(2,3) BatchDone by (auto simp: actor_step_def b_def)
      moreover have "held (b\<lparr>sa_state := settled_state res\<rparr>) = held b" by (simp add: held_def)
      ultimately show ?thesis using h b by (auto simp: step_sound_def phase_ok_def b_def settled_state_def split: sum.splits)
    qed
  next
    case (BatchProgress st)
    then show ?thesis using assms same by (auto simp: actor_step_def step_sound_def held_def phase_ok_def split: if_splits)
  qed (use assms same in \<open>auto simp: actor_step_def\<close>)
qed

lemma actor_step_sound:
  assumes "phase_ok a" "actor_step e policy settings wake (a, s) = ((a', s'), out)"
  shows "step_sound a a' out \<and> phase_ok a'"
proof (cases "sa_phase a")
  case (PhaseControl i control)
  then show ?thesis using assms
    by (auto simp: actor_step_def step_sound_def held_def phase_ok_def settled_state_def
        split: actor_wake.splits option.splits sum.splits)
next
  case (PhaseGather batch text_bytes deadline)
  then have "gather_step e policy settings batch text_bytes deadline (a, s) = ((a', s'), out)"
    using assms(2) by (simp add: actor_step_def)
  from gather_step_sound[OF assms(1) PhaseGather this] show ?thesis .
next
  case PhaseEnded
  then show ?thesis using assms by (auto simp: actor_step_def step_sound_def)
next
  case PhaseWait
  from wait_step_sound[OF assms(1) this assms(2)] show ?thesis .
next
  case (PhasePrepare command)
  from prepare_step_sound[OF assms(1) this assms(2)] show ?thesis .
next
  case (PhaseBatch batch)
  from batch_step_sound[OF assms(1) this assms(2)] show ?thesis .
qed

section \<open>Runs\<close>

lemma try_route_kindD:
  assumes "try_route_kind key queued control a = Inr a'"
  obtains command where "command_inbound command = \<lparr>ai_key = key, ai_queued = queued, ai_mailbox_permit = qe_permits queued\<rparr>"
    "a' = a\<lparr>sa_mailbox := sa_mailbox a @ [command], sa_budget := sa_budget a - qe_permits queued\<rparr>" "qe_permits queued \<le> sa_budget a"
    "sa_phase a \<noteq> PhaseEnded" "length (sa_mailbox a) < SCOPE_MAILBOX_CAPACITY"
    "command = (case control of Some c \<Rightarrow> CmdControl \<lparr>ai_key = key, ai_queued = queued, ai_mailbox_permit = qe_permits queued\<rparr> c
       | None \<Rightarrow> CmdInbound \<lparr>ai_key = key, ai_queued = queued, ai_mailbox_permit = qe_permits queued\<rparr>)"
  using assms by (cases control) (auto simp: try_route_kind_def Let_def not_le split: if_splits)

lemma try_route_okD:
  assumes "try_route_kind key queued control a = Inr a'" "actor_ok a"
  shows "actor_ok a' \<and> held a' = held a @ [\<lparr>ai_key = key, ai_queued = queued, ai_mailbox_permit = qe_permits queued\<rparr>]"
proof -
  obtain command where c: "command_inbound command = \<lparr>ai_key = key, ai_queued = queued, ai_mailbox_permit = qe_permits queued\<rparr>"
    "a' = a\<lparr>sa_mailbox := sa_mailbox a @ [command], sa_budget := sa_budget a - qe_permits queued\<rparr>" "qe_permits queued \<le> sa_budget a"
    "sa_phase a \<noteq> PhaseEnded" "length (sa_mailbox a) < SCOPE_MAILBOX_CAPACITY"
    using assms(1) by (rule try_route_kindD)
  have h: "held a' = held a @ [\<lparr>ai_key = key, ai_queued = queued, ai_mailbox_permit = qe_permits queued\<rparr>]"
    using c by (simp add: held_def)
  have "phase_ok a'" using assms(2) c by (cases "sa_phase a") (auto simp: actor_ok_def phase_ok_def)
  then show ?thesis using assms(2) c h by (simp add: actor_ok_def)
qed

lemma actor_ok_cong:
  "sa_phase a' = sa_phase a \<Longrightarrow> sa_state a' = sa_state a \<Longrightarrow> sa_deferred a' = sa_deferred a \<Longrightarrow> sa_mailbox a' = sa_mailbox a \<Longrightarrow>
   sa_budget a' = sa_budget a \<Longrightarrow> actor_ok a' = actor_ok a \<and> held a' = held a"
  by (cases "sa_phase a") (simp_all add: actor_ok_def phase_ok_def held_def)

lemma apply_actor_op_ok:
  assumes "run_ok r"
  shows "run_ok (apply_actor_op op r)"
proof (cases op)
  case (ActRoute key queued control)
  show ?thesis
  proof (cases "try_route_kind key queued control (ar_actor r)")
    case (Inr a)
    then show ?thesis using ActRoute assms try_route_okD[OF Inr] list_emb_append_mono[of "(=)" _ "ar_arrived r"]
      by (auto simp: run_ok_def append_assoc[symmetric] simp del: append_assoc)
  qed (use ActRoute assms in simp)
next
  case (ActStep e policy settings wake)
  obtain a s out where step: "actor_step e policy settings wake (ar_actor r, ar_store r) = ((a, s), out)" by (metis prod.exhaust)
  have r: "phase_ok (ar_actor r)" "subseq (acted_on (ar_departed r) @ held (ar_actor r)) (ar_arrived r)"
    using assms by (auto simp: run_ok_def actor_ok_def)
  note sound = actor_step_sound[OF r(1) step, unfolded step_sound_def]
  have "subseq (acted_on (ar_departed r @ out) @ held a) (acted_on (ar_departed r) @ held (ar_actor r))"
    using sound by (simp add: list_emb_append_mono)
  then have "subseq (acted_on (ar_departed r @ out) @ held a) (ar_arrived r)" using r(2) subseq_order.order_trans by blast
  moreover have "permits (held (ar_actor r)) = permits (map departed_inbound out) + permits (held a)"
    using sound arg_cong[of "mset (held (ar_actor r))" "mset (map departed_inbound out @ held a)"
        "\<lambda>m. sum_mset (image_mset ai_mailbox_permit m)"]
    by (metis image_mset_union mset_append mset_map sum_mset.union sum_mset_sum_list)
  ultimately show ?thesis using ActStep step sound assms by (auto simp: run_ok_def actor_ok_def)
next
  case (ActSnapshot now)
  then show ?thesis using assms actor_ok_cong[of "snd (actor_snapshot now (ar_actor r))" "ar_actor r"]
    by (auto simp: run_ok_def actor_snapshot_def stats_def Let_def)
next
  case ActCancel
  then show ?thesis using assms actor_ok_cong[of "cancel_actor (ar_actor r)" "ar_actor r"] by (auto simp: run_ok_def cancel_actor_def)
next
  case ActClear
  then show ?thesis using assms actor_ok_cong[of "(ar_actor r)\<lparr>sa_pending := clear (sa_pending (ar_actor r))\<rparr>" "ar_actor r"]
    by (auto simp: run_ok_def)
qed (use assms in \<open>simp add: run_ok_def\<close>)

interpretation actor: invariant_steps apply_actor_op run_ok
  by unfold_locales (rule apply_actor_op_ok)

definition start_run :: "router_settings \<Rightarrow> scope_key \<Rightarrow> bridge_store \<Rightarrow> actor_run" where
  "start_run settings scope s = \<lparr>ar_actor = spawn settings scope, ar_store = s, ar_arrived = [], ar_departed = []\<rparr>"

lemma start_run_ok: "run_ok (start_run settings scope s)"
  by (simp add: run_ok_def start_run_def spawn_def actor_ok_def phase_ok_def held_def)

lemma any_run_ok: "run_ok (fold apply_actor_op ops (start_run settings scope s))"
  by (rule actor.run_inv[OF start_run_ok])

section \<open>What a successful store call has settled\<close>

lemma settledI:
  assumes "read_inbound_row rows (as_hex (ik_tenant key)) (ik_event_id key) = Some stored" "ir_state stored \<noteq> EvReceived"
  shows "hex_key key \<in> settled rows"
  using read_inbound_rowD[OF assms(1)] assms(2) by (auto simp: settled_def hex_key_def image_iff intro!: bexI[of _ stored])

lemma updated_settled:
  assumes "update_one_inbound turns context' context'' (\<lambda>r. same_key (as_hex (ik_tenant key)) (ik_event_id key) r \<and> P r) f rows = Inr rows'"
    "\<And>r. ir_tenant (f r) = ir_tenant r" "\<And>r. ir_event_id (f r) = ir_event_id r" "\<And>r. ir_state (f r) \<noteq> EvReceived"
  shows "hex_key key \<in> settled rows'"
proof -
  let ?P = "\<lambda>r. same_key (as_hex (ik_tenant key)) (ik_event_id key) r \<and> P r"
  from update_one_inboundD[OF assms(1)] have rows': "rows' = map (\<lambda>r. if ?P r then f r else r) rows" and one: "length (filter ?P rows) = 1" by auto
  from one obtain r where "r \<in> set (filter ?P rows)" by (cases "filter ?P rows") auto
  then have r: "r \<in> set rows" "?P r" by auto
  then have "f r \<in> set rows'" unfolding rows' by (auto simp: image_iff)
  moreover have "hex_key key = ikey (f r)" using r(2) assms(2,3) by (simp add: hex_key_def same_key_def)
  ultimately show ?thesis using assms(4) by (auto simp: settled_def)
qed

lemma erase_payload_fields [simp]:
  "ir_tenant (erase_payload r) = ir_tenant r" "ir_event_id (erase_payload r) = ir_event_id r" "ir_state (erase_payload r) = ir_state r"
  by (simp_all add: erase_payload_def)

lemma disposition_settled: "terminal_disposition stored reason = Inr (Some d) \<Longrightarrow> ir_state stored \<noteq> EvReceived"
  by (auto simp: terminal_disposition_def)

lemma reject_settles:
  assumes "reject_received_in_transaction c now key reason s = Inr (d, s')"
  shows "hex_key key \<in> settled (bs_inbound s')"
proof -
  from assms obtain stored where stored: "read_inbound_row (bs_inbound s) (as_hex (ik_tenant key)) (ik_event_id key) = Some stored"
    by (auto simp: reject_received_in_transaction_def split: option.splits)
  show ?thesis
  proof (cases "ir_state stored = EvReceived")
    case True
    with assms obtain rows where u: "update_one_inbound (bs_turns s) ''rejecting a received inbound row'' ''rejecting a concurrently changed inbound row''
          (\<lambda>r. same_key (as_hex (ik_tenant key)) (ik_event_id key) r \<and> ir_state r = EvReceived)
          (finish_row now EvRejected (Some (rejection_as_str reason))) (bs_inbound s) = Inr rows" "bs_inbound s' = rows"
      by (auto simp: reject_received_in_transaction_def stored terminal_disposition_def)
    show ?thesis unfolding u(2) by (rule updated_settled[OF u(1)]) simp_all
  next
    case False
    then have "s' = s" using assms
      by (cases "ir_state stored") (auto simp: reject_received_in_transaction_def stored terminal_disposition_def split: option.splits if_splits)
    then show ?thesis using settledI[OF stored False] by simp
  qed
qed

lemma backfill_settles:
  assumes "backfill_reply anchor_of now key reply context' stored s = Inr s'"
    "read_inbound_row (bs_inbound s) (as_hex (ik_tenant key)) (ik_event_id key) = Some stored" "ir_state stored \<noteq> EvReceived"
  shows "hex_key key \<in> settled (bs_inbound s')"
  using backfill_forward[OF assms(1)] settledI[OF assms(2,3)] by (auto simp: forward_def)

lemma notice_settles:
  assumes "reject_received_and_enqueue_notice c anchor_of now key reason notice s = Inr (d, s')"
  shows "hex_key key \<in> settled (bs_inbound s')"
proof -
  note job = run_sized_Inr[OF assms[unfolded reject_received_and_enqueue_notice_def Let_def]]
  then obtain stored where stored: "read_inbound_row (bs_inbound s) (as_hex (ik_tenant key)) (ik_event_id key) = Some stored"
    by (auto split: option.splits if_splits)
  from job obtain existing where ex: "terminal_disposition stored reason = Inr existing" by (auto simp: stored split: if_splits)
  show ?thesis
  proof (cases existing)
    case None
    with job ex obtain s1 rows where r: "reject_received_in_transaction c now key reason s = Inr (d, s1)"
      "record_inbound_reply_effect (bs_turns s1) now (as_hex (ik_tenant key)) (ik_event_id key) (nb_idempotency_key notice) (bs_inbound s1) = Inr rows"
      "bs_inbound s' = rows" by (auto simp: stored split: if_splits)
    show ?thesis using reject_settles[OF r(1)] record_effect_forward[OF r(2)] r(3) by (auto simp: forward_def)
  next
    case (Some disposition)
    then have "ir_state stored \<noteq> EvReceived" using ex disposition_settled by simp
    with settledI[OF stored] backfill_settles[OF _ stored] job ex Some show ?thesis by (auto simp: stored split: if_splits)
  qed
qed

lemma complete_settles:
  assumes "complete_received_without_turn c now key s = Inr (d, s')"
  shows "hex_key key \<in> settled (bs_inbound s')"
proof -
  note job = run_sized_Inr[OF assms[unfolded complete_received_without_turn_def Let_def]]
  then obtain stored where stored: "read_inbound_row (bs_inbound s) (as_hex (ik_tenant key)) (ik_event_id key) = Some stored"
    by (auto split: option.splits)
  show ?thesis
  proof (cases "ir_state stored = EvReceived")
    case True
    with job obtain rows where u: "update_one_inbound (bs_turns s) ''completing a received row without a turn'' ''completing a concurrently changed inbound row''
          (\<lambda>r. same_key (as_hex (ik_tenant key)) (ik_event_id key) r \<and> ir_state r = EvReceived \<and> ir_turn_row_id r = None)
          (\<lambda>r. (erase_payload r)\<lparr>ir_state := EvCompleted, ir_updated_ms := now\<rparr>) (bs_inbound s) = Inr rows" "bs_inbound s' = rows"
      by (auto simp: stored)
    show ?thesis unfolding u(2) by (rule updated_settled[OF u(1)]) simp_all
  next
    case False
    with job settledI[OF stored False] show ?thesis
      by (cases "ir_state stored") (auto simp: stored split: if_splits)
  qed
qed

lemma control_settles:
  assumes "complete_received_and_enqueue_control_reply c anchor_of now key reply s = Inr (d, s')"
  shows "hex_key key \<in> settled (bs_inbound s')"
  using assms
proof (cases rule: controlD)
  case (answer stored outbox rows)
  have "hex_key key \<in> settled rows"
    by (rule updated_settled[OF answer(8)[unfolded unanswered_def]]) (simp_all add: answer_row_def)
  then show ?thesis by (simp add: answer(3))
next
  case (backfill stored)
  then show ?thesis by (auto intro: backfill_settles)
qed

lemma with_fault_Inr: "with_fault fault job s = Inr x \<Longrightarrow> job s = Inr x"
  by (auto simp: with_fault_def split: option.splits)

section \<open>Why a message leaves\<close>

text \<open>Preparing a message can only fail for an attachment that is settled at once, when the store does not take its settlement.\<close>

definition settlement_fails :: "'spec actor_env \<Rightarrow> access_policy \<Rightarrow> router_settings \<Rightarrow> actor_inbound \<Rightarrow> bridge_store \<Rightarrow> bool" where
  "settlement_fails e policy settings i s \<longleftrightarrow>
     (let event = qe_event (ai_queued i) in
      (is_pending_media_event event \<or> ev_chat_type event \<noteq> P2p \<and> is_conversation_media_event event) \<and>
      (case (if is_stale (ae_unix_ms e) event (rs_message_max_age settings) then Some Stale else rejection_kind (decide policy event)) of
         Some reason \<Rightarrow> isl (reject_item e i reason s)
       | None \<Rightarrow> isl (with_fault (ae_fault e) (complete_received_without_turn (ae_inbound e) (ae_store_ms e) (ai_key i)) s)))"

text \<open>The reason that goes with each way of leaving, for a step from \<open>a\<close> and the store \<open>s\<close> to \<open>a'\<close> and \<open>s'\<close>: a message was in the batch
  that has been run; it was the command being answered, and it is settled or the actor shows the failure; it is settled in the store;
  the store did not take its settlement; or the actor had been cancelled. The last two leave the store as it is.\<close>

fun leaves_rightly ::
    "'spec actor_env \<Rightarrow> access_policy \<Rightarrow> router_settings \<Rightarrow> scope_actor \<Rightarrow> bridge_store \<Rightarrow> scope_actor \<Rightarrow> bridge_store \<Rightarrow> departure \<Rightarrow> bool" where
  "leaves_rightly e policy settings a s a' s' (Handed i) = (\<exists>batch. sa_phase a = PhaseBatch batch \<and> i \<in> ti_inbound ` set batch)"
| "leaves_rightly e policy settings a s a' s' (Commanded i) =
     ((\<exists>control. sa_phase a = PhaseControl i control) \<and>
      (hex_key (ai_key i) \<in> settled (bs_inbound s') \<or> (\<exists>kind. sa_state a' = Failed kind)))"
| "leaves_rightly e policy settings a s a' s' (Settled i) = (hex_key (ai_key i) \<in> settled (bs_inbound s'))"
| "leaves_rightly e policy settings a s a' s' (Refused i) = (settlement_fails e policy settings i s \<and> s' = s)"
| "leaves_rightly e policy settings a s a' s' (Abandoned i) = (sa_shutdown a \<and> s' = s)"

lemma reject_item_settles: "reject_item e i reason s = Inr s' \<Longrightarrow> hex_key (ai_key i) \<in> settled (bs_inbound s')"
  by (auto simp: reject_item_def split: sum.splits dest!: with_fault_Inr dest: notice_settles)

lemma prepare_inbound_leaves:
  assumes "prepare_inbound e policy settings i (s, q) = (res, s', q')"
  shows "res = Inr None \<Longrightarrow> hex_key (ai_key i) \<in> settled (bs_inbound s')" "res = Inl kind \<Longrightarrow> settlement_fails e policy settings i s \<and> s' = s"
  using assms
  by (auto simp: prepare_inbound_def settlement_fails_def Let_def split: if_splits option.splits sum.splits prod.splits
      dest!: with_fault_Inr dest: reject_item_settles complete_settles)

lemma control_reply_settles:
  assumes "complete_control_reply e attempts key row s = Some (Inr s')"
  shows "hex_key key \<in> settled (bs_inbound s')"
  using assms
  by (induction e attempts key row s rule: complete_control_reply.induct)
    (auto split: sum.splits if_splits dest!: with_fault_Inr dest: control_settles)

lemma process_control_settles:
  assumes "process_control e policy settings execute attempts i control s = Some (Inr s')"
  shows "hex_key (ai_key i) \<in> settled (bs_inbound s')"
  using assms
  by (auto simp: process_control_def Let_def split: if_splits option.splits sum.splits control_answer.splits
      dest: reject_item_settles control_reply_settles)

lemma end_task_leaves:
  assumes "sa_shutdown a" "end_task now b = (b', out)"
  shows "list_all (leaves_rightly e policy settings a s a' s) out"
  using assms by (auto simp: end_task_def Let_def list_all_iff)

lemma gather_step_leaves:
  assumes "gather_step e policy settings batch text_bytes deadline (a, s) = ((a', s'), out)"
  shows "list_all (leaves_rightly e policy settings a s a' s') out"
proof -
  consider (none) "out = []" | (ended) "sa_shutdown a" "end_task (ae_now e) a = (a', out)" "s' = s"
    | (taken) i res s1 q where "prepare_inbound e policy settings i (s, sa_pending a) = (res, s1, q)" "s' = s1"
        "res = Inr None \<and> out = [Settled i] \<or> (\<exists>kind. res = Inl kind) \<and> out = [Refused i]"
    using assms unfolding gather_step_def
    by (auto simp: Let_def split: if_splits prod.splits list.splits scope_command.splits sum.splits option.splits)
  then show ?thesis
  proof cases
    case (taken i res s1 q)
    with prepare_inbound_leaves[OF taken(1)] show ?thesis by auto
  qed (auto intro: end_task_leaves)
qed

lemma actor_step_leaves:
  assumes "actor_step e policy settings wake (a, s) = ((a', s'), out)"
  shows "list_all (leaves_rightly e policy settings a s a' s') out"
proof (cases "sa_phase a")
  case PhaseWait
  then have "out = [] \<or> sa_shutdown a \<and> end_task (ae_now e) a = (a', out) \<and> s' = s"
    using assms unfolding actor_step_def
    by (auto split: option.splits deferred_work.splits if_splits prod.splits list.splits scope_command.splits)
  then show ?thesis by (auto intro: end_task_leaves)
next
  case (PhasePrepare command)
  obtain res s1 q where p: "prepare_inbound e policy settings (command_inbound command) (s, sa_pending a) = (res, s1, q)" by (metis prod.exhaust)
  with assms PhasePrepare have "res = Inr None \<and> out = [Settled (command_inbound command)] \<and> s' = s1 \<or>
      (\<exists>kind. res = Inl kind) \<and> out = [Refused (command_inbound command)] \<and> s' = s1 \<or> out = []"
    unfolding actor_step_def by (auto simp: Let_def split: sum.splits option.splits)
  with prepare_inbound_leaves[OF p] show ?thesis by auto
next
  case (PhaseControl i control)
  show ?thesis
  proof (cases "out = []")
    case False
    with assms PhaseControl obtain execute attempts res where
        run: "process_control e policy settings execute attempts i control s = Some res" "out = [Commanded i]"
      and after: "s' = (case res of Inr s' \<Rightarrow> s' | Inl _ \<Rightarrow> s)" "sa_state a' = settled_state res"
      unfolding actor_step_def by (auto split: actor_wake.splits option.splits simp: release_permits_def)
    show ?thesis
    proof (cases res)
      case (Inl kind)
      with run after PhaseControl show ?thesis by (auto simp: settled_state_def)
    next
      case (Inr s1)
      with run after PhaseControl process_control_settles[of e policy settings execute attempts i control s s1] show ?thesis by simp
    qed
  qed simp
next
  case (PhaseGather batch text_bytes deadline)
  with assms have "gather_step e policy settings batch text_bytes deadline (a, s) = ((a', s'), out)" unfolding actor_step_def by simp
  then show ?thesis by (rule gather_step_leaves)
next
  case (PhaseBatch batch)
  have handed: "list_all (leaves_rightly e policy settings a s a' s') (map (\<lambda>t. Handed (ti_inbound t)) batch)"
    using PhaseBatch by (auto simp: list_all_iff)
  show ?thesis
  proof (cases wake)
    case (BatchDone committed res)
    let ?a = "(release_permits (map ti_inbound batch) a)\<lparr>sa_pending := drop_batch (ae_now e) committed batch (sa_pending a), sa_phase := PhaseWait\<rparr>"
    obtain a2 out2 where fin: "end_task (ae_now e) ?a = (a2, out2)" by fastforce
    then have "out = map (\<lambda>t. Handed (ti_inbound t)) batch \<or>
        sa_shutdown a \<and> out = map (\<lambda>t. Handed (ti_inbound t)) batch @ out2 \<and> s' = s"
      using assms PhaseBatch BatchDone unfolding actor_step_def by (auto simp: Let_def split: if_splits)
    with handed end_task_leaves[OF _ fin] show ?thesis by auto
  qed (use assms PhaseBatch in \<open>auto simp: actor_step_def split: if_splits\<close>)
next
  case PhaseEnded
  with assms show ?thesis by (auto simp: actor_step_def)
qed

text \<open>The messages that leave with one operation.\<close>

fun op_leaves_rightly :: "'spec actor_op \<Rightarrow> actor_run \<Rightarrow> actor_run \<Rightarrow> departure \<Rightarrow> bool" where
  "op_leaves_rightly (ActStep e policy settings wake) r r' d =
     leaves_rightly e policy settings (ar_actor r) (ar_store r) (ar_actor r') (ar_store r') d"
| "op_leaves_rightly _ r r' d = False"

lemma apply_actor_op_leaves:
  "\<exists>out. ar_departed (apply_actor_op op r) = ar_departed r @ out \<and> list_all (op_leaves_rightly op r (apply_actor_op op r)) out"
proof (cases op)
  case (ActStep e policy settings wake)
  obtain a s out where step: "actor_step e policy settings wake (ar_actor r, ar_store r) = ((a, s), out)" by (metis prod.exhaust)
  with actor_step_leaves[OF step] show ?thesis by (intro exI[of _ out]) (simp add: ActStep list_all_iff)
qed (auto intro!: exI[of _ "[]"] split: sum.splits)

section \<open>What a run guarantees\<close>

text \<open>C22: Messages of one scope are acted on in the order in which they arrived, whether they go into a turn or are commands:
  what has been acted on followed by what the actor still holds is always a subsequence of the arrivals. The arrivals are exactly the
  messages that left, each in one way, and those still held. And none leaves without the reason that goes with its way: with each
  further operation, the messages that leave were in the batch that was run, or were the command that was answered (settled in the store, or
  the actor shows the failure), or are settled in the store (a rejected or staged attachment), or are attachments whose settlement the
  store did not take, or the actor had been cancelled. In the last two cases the store is left as it is,
  so an event that is still received there is recovered at the next start.\<close>

theorem scope_messages_keep_their_order:
  fixes ops :: "'spec actor_op list" and op :: "'spec actor_op" and settings :: router_settings and scope :: scope_key and s :: bridge_store
  defines "r \<equiv> fold apply_actor_op ops (start_run settings scope s)"
  shows "subseq (acted_on (ar_departed r) @ held (ar_actor r)) (ar_arrived r) \<and>
    mset (ar_arrived r) = mset (map departed_inbound (ar_departed r)) + mset (held (ar_actor r)) \<and>
    (\<exists>out. ar_departed (apply_actor_op op r) = ar_departed r @ out \<and> list_all (op_leaves_rightly op r (apply_actor_op op r)) out)"
  using any_run_ok[of ops] apply_actor_op_leaves[of op r] by (simp add: r_def run_ok_def)

text \<open>C30: In every run of a scope actor the mailbox holds at most 64 messages; the permits of all messages it holds, in the mailbox,
  in preparation, deferred or in a batch, add up with the free permits to exactly the byte budget, so none leak and none are
  counted twice; and a batch has at most 64 messages, and at most 768 KiB of text and no audio unless it is a single message.\<close>

theorem scope_actor_stays_within_bounds:
  fixes ops :: "'spec actor_op list" and settings :: router_settings and scope :: scope_key and s :: bridge_store
  defines "a \<equiv> ar_actor (fold apply_actor_op ops (start_run settings scope s))"
  shows "length (sa_mailbox a) \<le> SCOPE_MAILBOX_CAPACITY \<and>
    sa_budget a + permits (held a) = SCOPE_MAILBOX_BYTE_BUDGET \<and>
    (phase_turns (sa_phase a) = [] \<or> batch_ok (phase_turns (sa_phase a)))"
  using any_run_ok[of ops settings scope s] unfolding a_def run_ok_def actor_ok_def phase_ok_def
  by (auto split: actor_phase.splits)

definition demo_queued_event :: queued_event where
  "demo_queued_event = \<lparr>qe_event = demo_event, qe_permits = 300\<rparr>"

text \<open>C31: Gathering a batch ends. A wake-up of the gathering loop hands the batch over, ends the task (only when it is cancelled) or
  keeps gathering with the messages so far and the same deadline; and the first wake-up at or after the deadline does not go on
  gathering, however many messages keep arriving.\<close>

theorem gathering_ends_by_its_deadline:
  assumes "sa_phase a = PhaseGather batch text_bytes deadline" "gather_step e policy settings batch text_bytes deadline (a, s) = ((a', s'), out)"
  shows "case sa_phase a' of
      PhaseBatch batch' \<Rightarrow> batch' = batch \<and> sa_state a' = WaitingPermit
    | PhaseEnded \<Rightarrow> sa_shutdown a
    | PhaseGather batch' text_bytes' deadline' \<Rightarrow> prefix batch batch' \<and> deadline' = deadline \<and> ae_now e < deadline
    | _ \<Rightarrow> False"
proof -
  let ?full = "length batch \<ge> TURN_BATCH_MAX_MESSAGES \<or> text_bytes \<ge> TURN_BATCH_TEXT_BYTE_BUDGET"
  consider (hand) "a' = hand_over batch a" | (ended) "sa_shutdown a" "end_task (ae_now e) a = (a', out)"
    | (take) "\<not> ?full" "\<not> sa_shutdown a" "\<not> deadline \<le> ae_now e"
    using assms(2) unfolding gather_step_def by (auto split: if_splits prod.splits)
  then show ?thesis
  proof cases
    case hand
    then show ?thesis by simp
  next
    case ended
    then have "sa_phase a' = PhaseEnded" by (auto simp: end_task_def Let_def)
    then show ?thesis using ended by simp
  next
    case take
    show ?thesis
    proof (cases "sa_mailbox a")
      case Nil
      then show ?thesis using assms take unfolding gather_step_def by simp
    next
      case (Cons c rest)
      show ?thesis
      proof (cases c)
        case (CmdControl i control)
        then show ?thesis using assms take Cons unfolding gather_step_def by auto
      next
        case (CmdInbound i)
        obtain res s1 q where p: "prepare_inbound e policy settings i (s, sa_pending a) = (res, s1, q)" by (metis prod.exhaust)
        show ?thesis using assms take Cons CmdInbound p unfolding gather_step_def
          by (auto simp: extend_batch_def Let_def split: sum.splits option.splits if_splits)
      qed
    qed
  qed
qed

definition demo_gathering :: scope_actor where
  "demo_gathering = (spawn (settings_from_config demo_config) (ScopeChat ''c''))\<lparr>sa_state := Debouncing,
     sa_phase := PhaseGather [\<lparr>ti_inbound = \<lparr>ai_key = \<lparr>ik_tenant = TenantNamespace 0, ik_event_id = ''e''\<rparr>, ai_queued = demo_queued_event,
       ai_mailbox_permit = 300\<rparr>, ti_pending = None\<rparr>] 2 600000000\<rparr>"

theorem gathering_ends_by_its_deadline_witness:
  "\<forall>policy settings. \<exists>a'. gather_step \<lparr>ae_inbound = demo_codec, ae_json = tagged_codec, ae_anchor = (\<lambda>_. None), ae_unix_ms = 0, ae_store_ms = 0,
      ae_now = 600000000, ae_now2 = 0, ae_fault = None\<rparr> policy settings (phase_turns (sa_phase demo_gathering)) 2 600000000 (demo_gathering, empty_store)
      = ((a', empty_store), []) \<and> sa_phase a' = PhaseBatch (phase_turns (sa_phase demo_gathering)) \<and> sa_state a' = WaitingPermit"
proof (intro allI)
  fix policy settings
  let ?e = "\<lparr>ae_inbound = demo_codec, ae_json = tagged_codec, ae_anchor = (\<lambda>_. None), ae_unix_ms = 0, ae_store_ms = 0,
      ae_now = 600000000, ae_now2 = 0, ae_fault = None\<rparr>"
  have phase: "sa_phase demo_gathering = PhaseGather (phase_turns (sa_phase demo_gathering)) 2 600000000" by (simp add: demo_gathering_def)
  have "gather_step ?e policy settings (phase_turns (sa_phase demo_gathering)) 2 600000000 (demo_gathering, empty_store) =
      ((hand_over (phase_turns (sa_phase demo_gathering)) demo_gathering, empty_store), [])"
    by (simp add: gather_step_def demo_gathering_def spawn_def TURN_BATCH_TEXT_BYTE_BUDGET_def)
  from gathering_ends_by_its_deadline[OF phase this] this
  show "\<exists>a'. gather_step ?e policy settings (phase_turns (sa_phase demo_gathering)) 2 600000000 (demo_gathering, empty_store)
      = ((a', empty_store), []) \<and> sa_phase a' = PhaseBatch (phase_turns (sa_phase demo_gathering)) \<and> sa_state a' = WaitingPermit" by auto
qed

text \<open>A weak point of eviction: an actor that has taken a message from its mailbox still shows itself as idle with an empty
  mailbox until it starts to gather a batch. Evicted at that moment it ends with the message in its hands: the message was accepted, yet
  it is neither processed nor rejected, and the store still has it as received until the next restart.\<close>

theorem evicted_actor_abandons_a_message:
  fixes key :: inbound_key and e :: "'spec actor_env" and policy :: access_policy and settings :: router_settings and scope :: scope_key and s :: bridge_store
  defines "item \<equiv> \<lparr>ai_key = key, ai_queued = demo_queued_event, ai_mailbox_permit = 300\<rparr>"
    and "taken \<equiv> fold apply_actor_op [ActRoute key demo_queued_event None, ActStep e policy settings WakeUp] (start_run settings scope s)"
  defines "ended \<equiv> fold apply_actor_op [ActCancel, ActStep e policy settings WakeUp, ActStep e policy settings WakeUp] taken"
  shows "ar_arrived taken = [item] \<and> is_idle_and_empty (ar_actor taken) \<and>
    sa_phase (ar_actor ended) = PhaseEnded \<and> ar_departed ended = [Abandoned item] \<and> ar_store ended = s"
proof -
  have item: "ai_mailbox_permit item = 300" "qe_event (ai_queued item) = demo_event" by (simp_all add: item_def demo_queued_event_def)
  have route: "try_route_kind key demo_queued_event None (spawn settings scope) =
      Inr ((spawn settings scope)\<lparr>sa_mailbox := [CmdInbound item], sa_budget := SCOPE_MAILBOX_BYTE_BUDGET - 300\<rparr>)"
    by (simp add: try_route_kind_def spawn_def demo_queued_event_def item_def u32_max_def SCOPE_MAILBOX_BYTE_BUDGET_def SCOPE_MAILBOX_CAPACITY_def)
  define a where "a = (spawn settings scope)\<lparr>sa_budget := SCOPE_MAILBOX_BYTE_BUDGET - 300, sa_phase := PhasePrepare (CmdInbound item)\<rparr>"
  have taken: "taken = \<lparr>ar_actor = a, ar_store = s, ar_arrived = [item], ar_departed = []\<rparr>"
    using route by (simp add: taken_def start_run_def actor_step_def a_def item_def demo_queued_event_def spawn_def)
  obtain reservation q where "reservation_for e demo_event (sa_pending (cancel_actor a)) = (reservation, q)" by fastforce
  then obtain t where p: "prepare_inbound e policy settings item (s, sa_pending (cancel_actor a)) = (Inr (Some t), s, q)"
    by (simp add: prepare_inbound_def item is_pending_media_event_def is_conversation_media_event_def demo_event_def)
  have t: "ti_inbound t = item" using prepare_keeps_item[OF p] .
  then have "event_of t = demo_event" by (simp add: event_of_def item)
  then have start: "start_batch n settings t b = b\<lparr>sa_phase := PhaseGather [t] 2 (n + rs_debounce settings), sa_state := Debouncing\<rparr>" for n b
    by (simp add: start_batch_def is_audio_event_def demo_event_def)
  have full: "\<not> TURN_BATCH_MAX_MESSAGES \<le> Suc 0" "\<not> TURN_BATCH_TEXT_BYTE_BUDGET \<le> 2"
    by (simp_all add: TURN_BATCH_MAX_MESSAGES_def TURN_BATCH_TEXT_BYTE_BUDGET_def)
  have "ended = \<lparr>ar_actor = fst (end_task (ae_now e) (start_batch (ae_now2 e) settings t ((cancel_actor a)\<lparr>sa_pending := q\<rparr>))),
      ar_store = s, ar_arrived = [item], ar_departed = [Abandoned item]\<rparr>"
    using p start full t
    by (simp add: ended_def taken) (simp add: actor_step_def gather_step_def a_def spawn_def cancel_actor_def end_task_def held_def Let_def)
  then show ?thesis
    by (simp add: taken is_idle_and_empty_def a_def spawn_def) (simp add: end_task_def Let_def)
qed

end
