(* ===== verification/Router.thy ===== *)
theory Router
  imports Scope_Order Turn_Store
begin

text \<open>
  The router, \<^verbatim>\<open>src/src/runtime/router.rs\<close>: the bounded command queue in front of it, the decision about one
  event, the table of scope actors with eviction of an idle one, rejection with a notice, and the retry lane.
\<close>

section \<open>Data\<close>

definition ROUTER_COMMAND_CAPACITY :: nat where
  "ROUTER_COMMAND_CAPACITY = 256"

definition ROUTER_COMMAND_BYTE_BUDGET :: nat where
  "ROUTER_COMMAND_BYTE_BUDGET = 8 * 1024 * 1024"

datatype route_error =
    InvalidSettings | RouteCapacity | RouteClosed | RouteStore | RouteReplySink | RouteSupervisor | RouteAdoption
  | CodexUnavailable string | ActorUnavailable | RouteAttachment

record route_failure =
  rf_error :: route_error
  rf_event :: queued_event
  rf_retryable :: bool

record router_retry =
  rr_event :: queued_event
  rr_permit :: nat

record router_command =
  rc_event :: queued_event
  rc_permit :: nat

record router =
  ro_actors :: "(string \<times> scope_actor) list"
  ro_store :: bridge_store
  ro_threads :: thread_table
  ro_queue :: "router_command list"
  ro_queue_budget :: nat
  ro_retries :: "router_retry list"
  ro_retry_budget :: nat
  ro_ended :: bool

text \<open>What the surroundings contribute to the routing of one event: what they contribute to an actor, the JSON string reader, whether the
  supervisor can still become ready, the fault that reading the thread table meets, and the order in which the table of
  actors is iterated (a \<open>HashMap\<close> has no order of its own).\<close>

record 'spec route_env =
  re_actor :: "'spec actor_env"
  re_json_string :: "ustring \<Rightarrow> ustring option"
  re_terminal :: bool
  re_thread_fault :: "store_error option"
  re_order :: "string list \<Rightarrow> string list"

section \<open>Routing one event\<close>

definition is_conversation_media :: "string \<Rightarrow> bool" where
  "is_conversation_media message_type \<longleftrightarrow> message_type \<in> {''image'', ''video'', ''media'', ''file'', ''audio''}"

definition bridge_control :: "(ustring \<Rightarrow> ustring option) \<Rightarrow> inbound_event \<Rightarrow> scope_control option" where
  "bridge_control json_string event =
     (if ev_message_type event \<noteq> ''text'' then None
      else case parse_command json_string (trim (utf8_chars (ev_text event))) of
        Inr (Some command) \<Rightarrow> Some (SCommand command)
      | Inl error \<Rightarrow> Some (SMalformed error)
      | Inr None \<Rightarrow> None)"

definition reject_with_notice ::
    "'spec actor_env \<Rightarrow> inbound_key \<Rightarrow> inbound_event \<Rightarrow> inbound_rejection_kind \<Rightarrow> bridge_store \<Rightarrow> (route_error, bridge_store) result" where
  "reject_with_notice e key event reason s =
     (case rejection_notice (ae_json e) key event reason of
        Inl _ \<Rightarrow> Inl RouteReplySink
      | Inr notice \<Rightarrow>
          (case with_fault (ae_fault e) (reject_received_and_enqueue_notice (ae_inbound e) (ae_anchor e) (ae_store_ms e) key reason notice) s of
             Inl _ \<Rightarrow> Inl RouteStore
           | Inr (_, s') \<Rightarrow> Inr s'))"

definition route_decision :: "access_policy \<Rightarrow> scope_control option \<Rightarrow> inbound_event \<Rightarrow> access_decision" where
  "route_decision policy control event =
     (case control of
        Some (SCommand command) \<Rightarrow> if command_requires_owner command then decide_command policy event else decide policy event
      | _ \<Rightarrow> decide policy event)"

definition rejected :: "'spec route_env \<Rightarrow> inbound_key \<Rightarrow> queued_event \<Rightarrow> inbound_rejection_kind \<Rightarrow> router \<Rightarrow>
    (route_failure, unit) result \<times> router" where
  "rejected env key queued reason r =
     (case reject_with_notice (re_actor env) key (qe_event queued) reason (ro_store r) of
        Inl error \<Rightarrow> (Inl \<lparr>rf_error = error, rf_event = queued, rf_retryable = True\<rparr>, r)
      | Inr s \<Rightarrow> (Inr (), r\<lparr>ro_store := s\<rparr>))"

definition find_idle :: "'spec route_env \<Rightarrow> (string \<times> scope_actor) list \<Rightarrow> string option" where
  "find_idle env actors =
     List.find (\<lambda>key. case map_of actors key of Some a \<Rightarrow> is_idle_and_empty a | None \<Rightarrow> False) (re_order env (map fst actors))"

definition without_actor :: "string \<Rightarrow> (string \<times> scope_actor) list \<Rightarrow> (string \<times> scope_actor) list" where
  "without_actor key actors = filter (\<lambda>(k, a). k \<noteq> key) actors"

definition put_actor :: "string \<Rightarrow> scope_actor \<Rightarrow> (string \<times> scope_actor) list \<Rightarrow> (string \<times> scope_actor) list" where
  "put_actor key a actors = map (\<lambda>(k, b). (k, if k = key then a else b)) actors"

text \<open>The table with an actor for the scope, after eviction of an idle one where the table is full; \<open>None\<close> when none is idle.\<close>

definition admit_scope :: "'spec route_env \<Rightarrow> router_settings \<Rightarrow> scope_key \<Rightarrow> (string \<times> scope_actor) list \<Rightarrow>
    (string \<times> scope_actor) list option" where
  "admit_scope env settings scope actors =
     (let key = scope_to_string scope in
      if map_of actors key \<noteq> None then Some actors
      else if length actors \<ge> rs_max_scope_actors settings then
        (case find_idle env actors of
           Some idle \<Rightarrow> Some (without_actor idle actors @ [(key, spawn settings scope)])
         | None \<Rightarrow> None)
      else Some (actors @ [(key, spawn settings scope)]))"

definition deliver_to_scope ::
    "'spec route_env \<Rightarrow> inbound_key \<Rightarrow> scope_control option \<Rightarrow> queued_event \<Rightarrow> router \<Rightarrow> (route_failure, unit) result \<times> router" where
  "deliver_to_scope env key control queued r =
     (let scope_key = scope_to_string (ev_scope (qe_event queued)) in
      case map_of (ro_actors r) scope_key of
        None \<Rightarrow> (Inl \<lparr>rf_error = ActorUnavailable, rf_event = queued, rf_retryable = False\<rparr>, r)
      | Some a \<Rightarrow>
          (case (case control of Some control \<Rightarrow> try_route_control key queued control a | None \<Rightarrow> try_route key queued a) of
             Inr a' \<Rightarrow> (Inr (), r\<lparr>ro_actors := put_actor scope_key a' (ro_actors r)\<rparr>)
           | Inl (RouteFull queued) \<Rightarrow> rejected env key queued Overloaded r
           | Inl (RouteGone queued) \<Rightarrow> (Inl \<lparr>rf_error = ActorUnavailable, rf_event = queued, rf_retryable = False\<rparr>, r)))"

definition externally_adopted :: "'spec route_env \<Rightarrow> scope_key \<Rightarrow> thread_table \<Rightarrow> (store_error, bool) result" where
  "externally_adopted env scope threads =
     result_map (\<lambda>(active, _). case active of None \<Rightarrow> False | Some row \<Rightarrow> th_origin row = ExternallyAdopted)
       (with_fault (re_thread_fault env) (active_thread scope) threads)"

definition route_one ::
    "'spec route_env \<Rightarrow> tenant_namespace \<Rightarrow> access_policy \<Rightarrow> router_settings \<Rightarrow> queued_event \<Rightarrow> router \<Rightarrow>
       (route_failure, unit) result \<times> router" where
  "route_one env tenant policy settings queued r =
     (let event = qe_event queued; key = \<lparr>ik_tenant = tenant, ik_event_id = ev_event_id event\<rparr>; e = re_actor env;
          store_failure = \<lparr>rf_error = RouteStore, rf_event = queued, rf_retryable = True\<rparr> in
      if ev_chat_type event \<noteq> P2p \<and> is_conversation_media (ev_message_type event) then
        (case with_fault (ae_fault e) (complete_received_without_turn (ae_inbound e) (ae_store_ms e) key) (ro_store r) of
           Inl _ \<Rightarrow> (Inl store_failure, r)
         | Inr (_, s) \<Rightarrow> (Inr (), r\<lparr>ro_store := s\<rparr>))
      else
        let control = bridge_control (re_json_string env) event in
        case rejection_kind (route_decision policy control event) of
          Some kind \<Rightarrow> rejected env key queued kind r
        | None \<Rightarrow>
            case (if control = None \<and> re_terminal env
                  then result_map Not (externally_adopted env (ev_scope event) (ro_threads r)) else Inr False) of
              Inl _ \<Rightarrow> (Inl store_failure, r)
            | Inr True \<Rightarrow> rejected env key queued Internal r
            | Inr False \<Rightarrow>
                (case admit_scope env settings (ev_scope event) (ro_actors r) of
                   None \<Rightarrow> rejected env key queued Overloaded r
                 | Some actors \<Rightarrow> deliver_to_scope env key control queued (r\<lparr>ro_actors := actors\<rparr>)))"

section \<open>The retry lane and the loop\<close>

definition enqueue_retry :: "queued_event \<Rightarrow> router \<Rightarrow> router option" where
  "enqueue_retry event r =
     (if length (ro_retries r) \<ge> ROUTER_RETRY_CAPACITY then None
      else let bytes = qe_permits event in
        if bytes > u32_max \<or> bytes > ro_retry_budget r then None
        else Some (r\<lparr>ro_retries := ro_retries r @ [\<lparr>rr_event = event, rr_permit = bytes\<rparr>], ro_retry_budget := ro_retry_budget r - bytes\<rparr>))"

definition retry_one :: "'spec route_env \<Rightarrow> tenant_namespace \<Rightarrow> access_policy \<Rightarrow> router_settings \<Rightarrow> router \<Rightarrow> router" where
  "retry_one env tenant policy settings r =
     (case ro_retries r of
        [] \<Rightarrow> r
      | retry # rest \<Rightarrow>
          (case route_one env tenant policy settings (rr_event retry) (r\<lparr>ro_retries := rest\<rparr>) of
             (Inl failure, r') \<Rightarrow>
               if rf_retryable failure then r'\<lparr>ro_retries := ro_retries r' @ [retry\<lparr>rr_event := rf_event failure\<rparr>]\<rparr>
               else r'\<lparr>ro_retry_budget := ro_retry_budget r' + rr_permit retry\<rparr>
           | (Inr _, r') \<Rightarrow> r'\<lparr>ro_retry_budget := ro_retry_budget r' + rr_permit retry\<rparr>))"

text \<open>\<open>RouterHandle::route_recoverable\<close> up to the queue: what is refused there goes back to the caller.\<close>

definition submit :: "queued_event \<Rightarrow> router \<Rightarrow> (route_error \<times> queued_event, router) result" where
  "submit event r =
     (let bytes = qe_permits event in
      if bytes > u32_max \<or> bytes > ro_queue_budget r then Inl (RouteCapacity, event)
      else if ro_ended r then Inl (RouteClosed, event)
      else if length (ro_queue r) \<ge> ROUTER_COMMAND_CAPACITY then Inl (RouteCapacity, event)
      else Inr (r\<lparr>ro_queue := ro_queue r @ [\<lparr>rc_event = event, rc_permit = bytes\<rparr>], ro_queue_budget := ro_queue_budget r - bytes\<rparr>))"

text \<open>The arm of the loop that takes a command, with the answer to the sender: a retryable failure goes to the retry lane and counts as
  accepted when there is room.\<close>

definition route_command ::
    "'spec route_env \<Rightarrow> tenant_namespace \<Rightarrow> access_policy \<Rightarrow> router_settings \<Rightarrow> queued_event \<Rightarrow> router \<Rightarrow> (route_error, unit) result \<times> router" where
  "route_command env tenant policy settings event r =
     (case route_one env tenant policy settings event r of
        (Inr _, r') \<Rightarrow> (Inr (), r')
      | (Inl failure, r') \<Rightarrow>
          if rf_retryable failure then
            (case enqueue_retry (rf_event failure) r' of Some r'' \<Rightarrow> (Inr (), r'') | None \<Rightarrow> (Inl (rf_error failure), r'))
          else (Inl (rf_error failure), r'))"

definition process_command :: "'spec route_env \<Rightarrow> tenant_namespace \<Rightarrow> access_policy \<Rightarrow> router_settings \<Rightarrow> router \<Rightarrow> router" where
  "process_command env tenant policy settings r =
     (case ro_queue r of
        [] \<Rightarrow> r
      | command # rest \<Rightarrow>
          (let (_, r') = route_command env tenant policy settings (rc_event command) (r\<lparr>ro_queue := rest\<rparr>)
           in r'\<lparr>ro_queue_budget := ro_queue_budget r' + rc_permit command\<rparr>))"

definition interrupt_scope :: "string \<Rightarrow> router \<Rightarrow> router" where
  "interrupt_scope key r =
     (case map_of (ro_actors r) key of
        None \<Rightarrow> r
      | Some a \<Rightarrow> r\<lparr>ro_actors := put_actor key (a\<lparr>sa_pending := clear (sa_pending a)\<rparr>) (ro_actors r)\<rparr>)"

text \<open>A step of the task of one actor, on the shared store.\<close>

definition step_scope :: "'spec actor_env \<Rightarrow> access_policy \<Rightarrow> router_settings \<Rightarrow> 'spec actor_wake \<Rightarrow> string \<Rightarrow> router \<Rightarrow> router" where
  "step_scope e policy settings wake key r =
     (case map_of (ro_actors r) key of
        None \<Rightarrow> r
      | Some a \<Rightarrow>
          (let ((a', s), _) = actor_step e policy settings wake (a, ro_store r)
           in r\<lparr>ro_actors := put_actor key a' (ro_actors r), ro_store := s\<rparr>))"

definition shutdown_router :: "router \<Rightarrow> router" where
  "shutdown_router r =
     r\<lparr>ro_actors := [], ro_queue := [], ro_retries := [], ro_ended := True,
       ro_queue_budget := ro_queue_budget r + sum_list (map rc_permit (ro_queue r)),
       ro_retry_budget := ro_retry_budget r + sum_list (map rr_permit (ro_retries r))\<rparr>"

end
