(* ===== verification/Router_Safety.thy ===== *)
theory Router_Safety
  imports Router
begin

text \<open>
  What the router guarantees about one event and over any run: nothing is lost between the caller, the mailbox of
  the scope and the store; only authorised events reach a scope; actors, queue and retry lane stay within their limits.
\<close>

section \<open>One event\<close>

lemma rejectedD:
  assumes "rejected env key queued reason r = (res, r')"
  obtains (failed) error where "res = Inl \<lparr>rf_error = error, rf_event = queued, rf_retryable = True\<rparr>" "r' = r"
  | (stored) s where "res = Inr ()" "r' = r\<lparr>ro_store := s\<rparr>" "hex_key key \<in> settled (bs_inbound s)"
  using assms
  by (auto simp: rejected_def reject_with_notice_def split: sum.splits dest!: with_fault_Inr dest: notice_settles)

text \<open>The three ways in which the routing of an event can end.\<close>

inductive routed :: "inbound_key \<Rightarrow> scope_control option \<Rightarrow> queued_event \<Rightarrow> router \<Rightarrow> (route_failure, unit) result \<Rightarrow> router \<Rightarrow> bool"
  for key control queued r where
  mailed: "map_of actors (scope_to_string (ev_scope (qe_event queued))) = Some a \<Longrightarrow> try_route_kind key queued control a = Inr a' \<Longrightarrow>
     routed key control queued r (Inr ()) (r\<lparr>ro_actors := put_actor (scope_to_string (ev_scope (qe_event queued))) a' actors\<rparr>)"
| settled_now: "hex_key key \<in> settled (bs_inbound s) \<Longrightarrow> routed key control queued r (Inr ()) (r\<lparr>ro_actors := actors, ro_store := s\<rparr>)"
| handed_back: "rf_event failure = queued \<Longrightarrow> routed key control queued r (Inl failure) (r\<lparr>ro_actors := actors\<rparr>)"

inductive_cases routed_InrE: "routed key control queued r (Inr u) r'"
inductive_cases routed_InlE: "routed key control queued r (Inl failure) r'"

lemma rejected_routed:
  assumes "rejected env key queued reason (r\<lparr>ro_actors := actors\<rparr>) = (res, r')"
  shows "routed key control queued r res r'"
  using assms
proof (cases rule: rejectedD)
  case (failed error)
  then show ?thesis by (auto intro: handed_back)
next
  case (stored s)
  then show ?thesis using settled_now[of key s control queued r actors] by simp
qed

lemma try_route_fullD:
  "try_route_kind key queued control a = Inl (RouteFull q) \<Longrightarrow> q = queued" "try_route_kind key queued control a = Inl (RouteGone q) \<Longrightarrow> q = queued"
  by (auto simp: try_route_kind_def Let_def split: if_splits)

lemma deliver_routed:
  assumes "deliver_to_scope env key control queued (r\<lparr>ro_actors := actors\<rparr>) = (res, r')"
  shows "routed key control queued r res r'"
proof (cases "map_of actors (scope_to_string (ev_scope (qe_event queued)))")
  case None
  then show ?thesis using assms by (auto simp: deliver_to_scope_def intro: handed_back)
next
  case (Some a)
  have route: "(case control of Some control \<Rightarrow> try_route_control key queued control a | None \<Rightarrow> try_route key queued a) =
      try_route_kind key queued control a"
    by (cases control) (simp_all add: try_route_control_def try_route_def)
  show ?thesis
  proof (cases "try_route_kind key queued control a")
    case (Inr a')
    then show ?thesis using assms Some mailed[OF Some Inr, of r] by (simp add: deliver_to_scope_def route)
  next
    case (Inl e)
    show ?thesis
    proof (cases e)
      case (RouteFull q)
      with Inl try_route_fullD(1) have "q = queued" by blast
      with assms Some Inl RouteFull have "rejected env key queued Overloaded (r\<lparr>ro_actors := actors\<rparr>) = (res, r')"
        by (simp add: deliver_to_scope_def route)
      then show ?thesis by (rule rejected_routed)
    next
      case (RouteGone q)
      with Inl try_route_fullD(2) have "q = queued" by blast
      then show ?thesis using assms Some Inl RouteGone by (auto simp: deliver_to_scope_def route intro: handed_back)
    qed
  qed
qed

text \<open>What \<open>route_one\<close> does, branch by branch.\<close>

lemma route_oneD:
  assumes "route_one env tenant policy settings queued r = (res, r')"
  defines "event \<equiv> qe_event queued" and "key \<equiv> \<lparr>ik_tenant = tenant, ik_event_id = ev_event_id (qe_event queued)\<rparr>"
    and "control \<equiv> bridge_control (re_json_string env) (qe_event queued)"
  obtains (other) "routed key control queued r res r'" "ro_actors r' = ro_actors r"
  | (delivered) actors where "deliver_to_scope env key control queued (r\<lparr>ro_actors := actors\<rparr>) = (res, r')"
      "admit_scope env settings (ev_scope event) (ro_actors r) = Some actors"
      "rejection_kind (route_decision policy control event) = None" "\<not> (ev_chat_type event \<noteq> P2p \<and> is_conversation_media (ev_message_type event))"
proof (cases "ev_chat_type event \<noteq> P2p \<and> is_conversation_media (ev_message_type event)")
  case True
  let ?job = "with_fault (ae_fault (re_actor env)) (complete_received_without_turn (ae_inbound (re_actor env)) (ae_store_ms (re_actor env)) key) (ro_store r)"
  show thesis
  proof (cases ?job)
    case (Inl e)
    then have "r' = r" "\<exists>failure. res = Inl failure \<and> rf_event failure = queued"
      using assms(1) True by (auto simp: route_one_def event_def key_def Let_def)
    then show thesis using other handed_back[of _ queued key control r "ro_actors r"] by auto
  next
    case (Inr x)
    obtain d s where x: "x = (d, s)" by (cases x)
    then have "r' = r\<lparr>ro_store := s\<rparr>" "res = Inr ()" using assms(1) True Inr by (auto simp: route_one_def event_def key_def Let_def)
    moreover have "hex_key key \<in> settled (bs_inbound s)" using complete_settles[OF with_fault_Inr[OF Inr[unfolded x]]] .
    ultimately show thesis using other settled_now[of key s control queued r "ro_actors r"] by simp
  qed
next
  case False
  have rej: thesis if "rejected env key queued reason r = (res, r')" for reason
  proof (rule other)
    show "routed key control queued r res r'" using that rejected_routed[where r = r and actors = "ro_actors r"] by simp
    show "ro_actors r' = ro_actors r" using that by (cases rule: rejectedD) simp_all
  qed
  let ?check = "if control = None \<and> re_terminal env then result_map Not (externally_adopted env (ev_scope event) (ro_threads r)) else Inr False"
  let ?failure = "\<lparr>rf_error = RouteStore, rf_event = queued, rf_retryable = True\<rparr>"
  have route: "(res, r') = (case rejection_kind (route_decision policy control event) of Some kind \<Rightarrow> rejected env key queued kind r
      | None \<Rightarrow> case ?check of Inl _ \<Rightarrow> (Inl ?failure, r) | Inr True \<Rightarrow> rejected env key queued Internal r
        | Inr False \<Rightarrow> (case admit_scope env settings (ev_scope event) (ro_actors r) of None \<Rightarrow> rejected env key queued Overloaded r
            | Some actors \<Rightarrow> deliver_to_scope env key control queued (r\<lparr>ro_actors := actors\<rparr>)))"
    using assms(1) False unfolding route_one_def Let_def event_def key_def control_def by simp
  show thesis
  proof (cases "rejection_kind (route_decision policy control event)")
    case (Some kind)
    then show thesis using rej[of kind] route by simp
  next
    case None
    show thesis
    proof (cases ?check)
      case (Inl e)
      then have "r' = r" "res = Inl ?failure" using route[unfolded None Inl option.case sum.case] by auto
      then show thesis using other handed_back[of ?failure queued key control r "ro_actors r"] by simp
    next
      case (Inr terminal)
      note route' = route[unfolded None Inr option.case sum.case]
      show thesis
      proof (cases terminal)
        case True
        then show thesis using rej[of Internal] route' by simp
      next
        case False': False
        show thesis
        proof (cases "admit_scope env settings (ev_scope event) (ro_actors r)")
          case None': None
          then show thesis using rej[of Overloaded] route' False' by simp
        next
          case (Some actors)
          then show thesis using delivered[of actors] route' False False' None by simp
        qed
      qed
    qed
  qed
qed

lemma route_one_routed:
  "route_one env tenant policy settings queued r = (res, r') \<Longrightarrow>
   routed \<lparr>ik_tenant = tenant, ik_event_id = ev_event_id (qe_event queued)\<rparr> (bridge_control (re_json_string env) (qe_event queued)) queued r res r'"
  by (erule route_oneD) (auto dest: deliver_routed)

lemma map_of_put [simp]:
  "map_of (put_actor key a actors) k = (if k = key then map_option (\<lambda>_. a) (map_of actors k) else map_of actors k)"
  by (induction actors) (auto simp: put_actor_def)

lemma mailed_last:
  assumes "try_route_kind key queued control a = Inr a'"
  shows "sa_mailbox a' \<noteq> [] \<and> ai_key (command_inbound (last (sa_mailbox a'))) = key \<and> ai_queued (command_inbound (last (sa_mailbox a'))) = queued"
  using assms by (rule try_route_kindD) auto

text \<open>C20: The router loses no event. When routing an event succeeds, the event is the newest message in the mailbox of its scope
  or it is settled in the store (completed or rejected, with its notice queued); when it fails, the event comes back unchanged
  and nothing has been written to the store.\<close>

theorem routing_loses_no_event:
  fixes queued :: queued_event and tenant :: tenant_namespace
  assumes "route_one env tenant policy settings queued r = (res, r')"
  defines "key \<equiv> \<lparr>ik_tenant = tenant, ik_event_id = ev_event_id (qe_event queued)\<rparr>"
  shows "case res of
      Inr _ \<Rightarrow> (\<exists>a. map_of (ro_actors r') (scope_to_string (ev_scope (qe_event queued))) = Some a \<and> sa_mailbox a \<noteq> [] \<and>
           ai_key (command_inbound (last (sa_mailbox a))) = key \<and> ai_queued (command_inbound (last (sa_mailbox a))) = queued) \<or>
         hex_key key \<in> settled (bs_inbound (ro_store r'))
    | Inl failure \<Rightarrow> rf_event failure = queued \<and> ro_store r' = ro_store r"
proof -
  from route_one_routed[OF assms(1)] have r: "routed key (bridge_control (re_json_string env) (qe_event queued)) queued r res r'"
    by (simp add: key_def)
  then show ?thesis
  proof cases
    case (mailed actors a a')
    then show ?thesis using mailed_last[OF mailed(4)] by auto
  qed auto
qed

text \<open>Which messages a new table of actors can hold.\<close>

lemma find_idleD: "find_idle env actors = Some idle \<Longrightarrow> \<exists>a. map_of actors idle = Some a \<and> is_idle_and_empty a"
  by (auto simp: find_idle_def find_Some_iff split: option.splits)

lemma admit_scopeD:
  assumes "admit_scope env settings scope actors = Some actors'"
  shows "\<forall>(k, a)\<in>set actors'. (k, a) \<in> set actors \<or> (k = scope_to_string scope \<and> a = spawn settings scope)"
    and "length actors' \<le> max (length actors) (rs_max_scope_actors settings)"
    and "distinct (map fst actors) \<Longrightarrow> distinct (map fst actors')"
proof -
  let ?key = "scope_to_string scope"
  consider (known) "actors' = actors"
    | (evict) idle where "find_idle env actors = Some idle" "actors' = without_actor idle actors @ [(?key, spawn settings scope)]"
        "map_of actors ?key = None" "map_of actors idle \<noteq> None"
    | (room) "actors' = actors @ [(?key, spawn settings scope)]" "length actors < rs_max_scope_actors settings" "map_of actors ?key = None"
    using assms find_idleD[of env actors] by (auto simp: admit_scope_def Let_def split: if_splits option.splits)
  note cases = this
  have wo: "set (without_actor k actors) \<subseteq> set actors" "length (without_actor k actors) \<le> length actors"
    "map_of actors k \<noteq> None \<Longrightarrow> length (without_actor k actors) < length actors" for k
    by (auto simp: without_actor_def map_of_eq_None_iff intro!: length_filter_less)
  show "\<forall>(k, a)\<in>set actors'. (k, a) \<in> set actors \<or> (k = ?key \<and> a = spawn settings scope)"
    using cases by cases (use wo(1) in auto)
  show "length actors' \<le> max (length actors) (rs_max_scope_actors settings)"
    using cases
  proof cases
    case (evict idle)
    then show ?thesis using wo(3)[of idle] by simp
  qed auto
  show "distinct (map fst actors')" if "distinct (map fst actors)"
    using cases
  proof cases
    case (evict idle)
    have "distinct (map fst (without_actor idle actors))" using that distinct_map_filter by (simp add: without_actor_def)
    moreover have "?key \<notin> fst ` set (without_actor idle actors)" using evict(3) wo(1) by (auto simp: map_of_eq_None_iff)
    ultimately show ?thesis using evict by simp
  qed (use that in \<open>auto simp: map_of_eq_None_iff\<close>)
qed

lemma rejection_kind_None [simp]: "rejection_kind d = None \<longleftrightarrow> d = Allow"
  by (cases d) simp_all

lemma command_allowed_owner: "decide_command policy event = Allow \<Longrightarrow> is_owner policy (ev_sender_id event)"
  by (auto simp: decide_command_def split: if_splits)

lemma put_actor_set: "(k, b) \<in> set (put_actor key a actors) \<Longrightarrow> (k, b) \<in> set actors \<or> (k = key \<and> b = a)"
  by (auto simp: put_actor_def split: if_splits)

lemma deliver_actorsD:
  assumes "deliver_to_scope env key control queued r = (res, r')"
  obtains (same) "ro_actors r' = ro_actors r"
  | (mailed) a a' where "map_of (ro_actors r) (scope_to_string (ev_scope (qe_event queued))) = Some a" "try_route_kind key queued control a = Inr a'"
      "r' = r\<lparr>ro_actors := put_actor (scope_to_string (ev_scope (qe_event queued))) a' (ro_actors r)\<rparr>" "res = Inr ()"
proof (cases "map_of (ro_actors r) (scope_to_string (ev_scope (qe_event queued)))")
  case None
  then show thesis using assms same by (auto simp: deliver_to_scope_def)
next
  case (Some a)
  have route: "(case control of Some control \<Rightarrow> try_route_control key queued control a | None \<Rightarrow> try_route key queued a) =
      try_route_kind key queued control a"
    by (cases control) (simp_all add: try_route_control_def try_route_def)
  show thesis
  proof (cases "try_route_kind key queued control a")
    case (Inr a')
    then show thesis using assms Some mailed by (auto simp: deliver_to_scope_def route)
  next
    case (Inl e)
    have "ro_actors r'' = ro_actors r" if "rejected env key q Overloaded r = (res', r'')" for q res' r''
      using that by (cases rule: rejectedD) auto
    then show thesis using assms Some Inl same by (cases e) (auto simp: deliver_to_scope_def route)
  qed
qed

text \<open>C21: Only authorised events reach a scope. Every message in a mailbox after an event was routed was there before, or it is
  this event, in the mailbox of its own scope and marked as the command it parses to, and the policy allowed it; a command
  reserved for owners was sent by an owner.\<close>

theorem only_authorised_events_reach_a_scope:
  assumes "route_one env tenant policy settings queued r = (res, r')" "(k, a') \<in> set (ro_actors r')" "c \<in> set (sa_mailbox a')"
  shows "(\<exists>a. (k, a) \<in> set (ro_actors r) \<and> c \<in> set (sa_mailbox a)) \<or>
    (k = scope_to_string (ev_scope (qe_event queued)) \<and> ai_queued (command_inbound c) = queued \<and>
     route_decision policy (bridge_control (re_json_string env) (qe_event queued)) (qe_event queued) = Allow \<and>
     (case c of
        CmdInbound i \<Rightarrow> bridge_control (re_json_string env) (qe_event queued) = None
      | CmdControl i control \<Rightarrow> bridge_control (re_json_string env) (qe_event queued) = Some control \<and>
          (owner_gated control \<longrightarrow> is_owner policy (ev_sender_id (qe_event queued)))))"
  using assms(1)
proof (cases rule: route_oneD)
  case other
  then show ?thesis using assms(2,3) by auto
next
  case (delivered actors)
  let ?key = "\<lparr>ik_tenant = tenant, ik_event_id = ev_event_id (qe_event queued)\<rparr>"
  let ?control = "bridge_control (re_json_string env) (qe_event queued)"
  let ?scope = "scope_to_string (ev_scope (qe_event queued))"
  note admitted = admit_scopeD(1)[OF delivered(2)]
  have old: "\<exists>a. (k, a) \<in> set (ro_actors r) \<and> c \<in> set (sa_mailbox a)" if "(k, b) \<in> set actors" "c \<in> set (sa_mailbox b)" for b
    using bspec[OF admitted that(1)] that(2) by (auto simp: spawn_def)
  show ?thesis
    using delivered(1)
  proof (cases rule: deliver_actorsD)
    case same
    then show ?thesis using old assms(2,3) by auto
  next
    case (mailed a b)
    have "(k, a') \<in> set actors \<or> (k = ?scope \<and> a' = b)" using assms(2) mailed(3) put_actor_set by fastforce
    then show ?thesis
    proof
      assume "k = ?scope \<and> a' = b"
      moreover have "(?scope, a) \<in> set actors" using mailed(1) map_of_SomeD by fastforce
      moreover from mailed(2) have "sa_mailbox b = sa_mailbox a @ [case ?control of
          Some x \<Rightarrow> CmdControl \<lparr>ai_key = ?key, ai_queued = queued, ai_mailbox_permit = qe_permits queued\<rparr> x
        | None \<Rightarrow> CmdInbound \<lparr>ai_key = ?key, ai_queued = queued, ai_mailbox_permit = qe_permits queued\<rparr>]"
        by (rule try_route_kindD) simp
      ultimately show ?thesis using old[of a] assms(3) delivered(3)
        by (auto simp: route_decision_def owner_gated_def dest: command_allowed_owner split: option.splits scope_control.splits if_splits)
    qed (use old assms(3) in blast)
  qed
qed

section \<open>Runs of the router\<close>

datatype 'spec router_op =
    RtSubmit queued_event
  | RtCommand "'spec route_env" tenant_namespace access_policy router_settings
  | RtRetry "'spec route_env" tenant_namespace access_policy router_settings
  | RtScope "'spec actor_env" access_policy router_settings "'spec actor_wake" string
  | RtInterrupt string
  | RtStore bridge_store thread_table
  | RtShutdown

fun apply_router_op :: "'spec router_op \<Rightarrow> router \<Rightarrow> router" where
  "apply_router_op (RtSubmit event) r = (case submit event r of Inl _ \<Rightarrow> r | Inr r' \<Rightarrow> r')"
| "apply_router_op (RtCommand env tenant policy settings) r = process_command env tenant policy settings r"
| "apply_router_op (RtRetry env tenant policy settings) r = retry_one env tenant policy settings r"
| "apply_router_op (RtScope e policy settings wake key) r = step_scope e policy settings wake key r"
| "apply_router_op (RtInterrupt key) r = interrupt_scope key r"
| "apply_router_op (RtStore s threads) r = r\<lparr>ro_store := s, ro_threads := threads\<rparr>"
| "apply_router_op RtShutdown r = shutdown_router r"

text \<open>The program only routes with settings that passed the start-up check.\<close>

fun validated :: "'spec router_op \<Rightarrow> bool" where
  "validated (RtCommand env tenant policy settings) = settings_validate settings"
| "validated (RtRetry env tenant policy settings) = settings_validate settings"
| "validated op = True"

definition actors_ok :: "(string \<times> scope_actor) list \<Rightarrow> bool" where
  "actors_ok actors \<longleftrightarrow>
     distinct (map fst actors) \<and> length actors \<le> ROUTER_SCOPE_ACTOR_HARD_LIMIT \<and> list_all (\<lambda>(k, a). actor_ok a) actors"

definition lanes_ok :: "router \<Rightarrow> bool" where
  "lanes_ok r \<longleftrightarrow>
     length (ro_retries r) \<le> ROUTER_RETRY_CAPACITY \<and>
     ro_retry_budget r + sum_list (map rr_permit (ro_retries r)) = ROUTER_RETRY_BYTE_BUDGET \<and>
     length (ro_queue r) \<le> ROUTER_COMMAND_CAPACITY \<and>
     ro_queue_budget r + sum_list (map rc_permit (ro_queue r)) = ROUTER_COMMAND_BYTE_BUDGET"

definition router_ok :: "router \<Rightarrow> bool" where
  "router_ok r \<longleftrightarrow> actors_ok (ro_actors r) \<and> lanes_ok r"

lemma spawn_ok: "actor_ok (spawn settings scope)"
  by (simp add: actor_ok_def phase_ok_def spawn_def held_def)

lemma put_actor_ok: "actors_ok actors \<Longrightarrow> actor_ok a \<Longrightarrow> actors_ok (put_actor key a actors)"
  by (induction actors) (auto simp: actors_ok_def put_actor_def list_all_iff image_iff split: prod.splits if_splits)

lemma map_of_ok: "actors_ok actors \<Longrightarrow> map_of actors key = Some a \<Longrightarrow> actor_ok a"
  by (auto simp: actors_ok_def list_all_iff dest!: map_of_SomeD)

lemma actor_step_ok:
  assumes "actor_ok a" "actor_step e policy settings wake (a, s) = ((a', s'), out)"
  shows "actor_ok a'"
proof -
  have "run_ok \<lparr>ar_actor = a, ar_store = s, ar_arrived = held a, ar_departed = []\<rparr>" using assms(1) by (simp add: run_ok_def)
  from apply_actor_op_ok[OF this, of "ActStep e policy settings wake"] assms(2) show ?thesis by (simp add: run_ok_def)
qed

lemma route_one_ok:
  assumes "actors_ok (ro_actors r)" "settings_validate settings" "route_one env tenant policy settings queued r = (res, r')"
  shows "actors_ok (ro_actors r')"
  using assms(3)
proof (cases rule: route_oneD)
  case other
  then show ?thesis using assms(1) by simp
next
  case (delivered actors)
  have "actors_ok actors"
    using admit_scopeD[OF delivered(2)] assms(1,2) spawn_ok
    by (fastforce simp: actors_ok_def list_all_iff settings_validate_def)
  from delivered(1) show ?thesis
    by (cases rule: deliver_actorsD)
      (use \<open>actors_ok actors\<close> in \<open>auto intro!: put_actor_ok dest: map_of_ok try_route_okD\<close>)
qed

lemma route_one_lanes:
  assumes "route_one env tenant policy settings queued r = (res, r')"
  shows "ro_retries r' = ro_retries r" "ro_retry_budget r' = ro_retry_budget r" "ro_queue r' = ro_queue r" "ro_queue_budget r' = ro_queue_budget r"
    "ro_ended r' = ro_ended r"
  using route_one_routed[OF assms] by (auto elim!: routed.cases)

lemma process_command_ok:
  assumes "router_ok r" "settings_validate settings"
  shows "router_ok (process_command env tenant policy settings r)"
proof (cases "ro_queue r")
  case Nil
  then show ?thesis using assms(1) by (simp add: process_command_def)
next
  case (Cons command rest)
  obtain res r1 where r1: "route_one env tenant policy settings (rc_event command) (r\<lparr>ro_queue := rest\<rparr>) = (res, r1)" by fastforce
  note lanes = route_one_lanes[OF r1]
  have ok: "actors_ok (ro_actors r1)" using route_one_ok[OF _ assms(2) r1] assms(1) by (simp add: router_ok_def)
  obtain answer r2 where r2: "route_command env tenant policy settings (rc_event command) (r\<lparr>ro_queue := rest\<rparr>) = (answer, r2)" by fastforce
  then have "r2 = r1 \<or> (\<exists>event. enqueue_retry event r1 = Some r2)"
    using r1 by (auto simp: route_command_def split: sum.splits if_splits option.splits)
  then have "router_ok (r2\<lparr>ro_queue_budget := ro_queue_budget r2 + rc_permit command\<rparr>)"
    using assms(1) lanes ok Cons
    by (auto simp: router_ok_def lanes_ok_def enqueue_retry_def Let_def split: if_splits)
  then show ?thesis using Cons r2 by (simp add: process_command_def)
qed

lemma retry_one_ok:
  assumes "router_ok r" "settings_validate settings"
  shows "router_ok (retry_one env tenant policy settings r)"
proof (cases "ro_retries r")
  case Nil
  then show ?thesis using assms(1) by (simp add: retry_one_def)
next
  case (Cons retry rest)
  obtain res r1 where r1: "route_one env tenant policy settings (rr_event retry) (r\<lparr>ro_retries := rest\<rparr>) = (res, r1)" by fastforce
  note lanes = route_one_lanes[OF r1]
  have ok: "actors_ok (ro_actors r1)" using route_one_ok[OF _ assms(2) r1] assms(1) by (simp add: router_ok_def)
  show ?thesis using assms(1) Cons r1 lanes ok
    by (cases res) (auto simp: retry_one_def router_ok_def lanes_ok_def)
qed

lemma apply_router_op_ok:
  assumes "router_ok r" "validated op"
  shows "router_ok (apply_router_op op r)"
proof (cases op)
  case (RtSubmit event)
  then show ?thesis using assms(1)
    by (auto simp: submit_def Let_def router_ok_def lanes_ok_def split: sum.splits if_splits)
next
  case (RtScope e policy settings wake key)
  show ?thesis
  proof (cases "map_of (ro_actors r) key")
    case (Some a)
    obtain a' s out where step: "actor_step e policy settings wake (a, ro_store r) = ((a', s), out)" by (metis prod.exhaust)
    have "actor_ok a'" using actor_step_ok[OF _ step] map_of_ok[OF _ Some] assms(1) by (simp add: router_ok_def)
    then show ?thesis using RtScope Some step assms(1) put_actor_ok by (simp add: step_scope_def router_ok_def lanes_ok_def)
  qed (use RtScope assms(1) in \<open>simp add: step_scope_def\<close>)
next
  case (RtInterrupt key)
  show ?thesis
  proof (cases "map_of (ro_actors r) key")
    case (Some a)
    have "actor_ok (a\<lparr>sa_pending := clear (sa_pending a)\<rparr>)"
      using map_of_ok[OF _ Some] assms(1) actor_ok_cong[of "a\<lparr>sa_pending := clear (sa_pending a)\<rparr>" a] by (simp add: router_ok_def)
    then show ?thesis using RtInterrupt Some assms(1) put_actor_ok by (simp add: interrupt_scope_def router_ok_def lanes_ok_def)
  qed (use RtInterrupt assms(1) in \<open>simp add: interrupt_scope_def\<close>)
next
  case RtShutdown
  then show ?thesis using assms(1) by (auto simp: shutdown_router_def router_ok_def lanes_ok_def actors_ok_def)
next
  case (RtStore s threads)
  then show ?thesis using assms(1) by (simp add: router_ok_def lanes_ok_def)
qed (use assms process_command_ok retry_one_ok in auto)

interpretation router: guarded_steps apply_router_op router_ok validated
  by unfold_locales (rule apply_router_op_ok)

definition router_start :: "bridge_store \<Rightarrow> thread_table \<Rightarrow> router" where
  "router_start s threads =
     \<lparr>ro_actors = [], ro_store = s, ro_threads = threads, ro_queue = [], ro_queue_budget = ROUTER_COMMAND_BYTE_BUDGET,
      ro_retries = [], ro_retry_budget = ROUTER_RETRY_BYTE_BUDGET, ro_ended = False\<rparr>"

lemma router_start_ok: "router_ok (router_start s threads)"
  by (simp add: router_ok_def router_start_def lanes_ok_def actors_ok_def)

text \<open>C29: Over any run of the router with its actors, whatever arrives, fails or is retried: there is at most one actor per scope
  and never more than the hard limit; every actor keeps its own limits; the command queue and the retry lane keep their message
  and byte limits, and every permit is either free or held by exactly one entry.\<close>

theorem router_stays_within_bounds:
  fixes ops :: "'spec router_op list" and s :: bridge_store and threads :: thread_table
  assumes "list_all validated ops"
  defines "r \<equiv> fold apply_router_op ops (router_start s threads)"
  shows "distinct (map fst (ro_actors r)) \<and> length (ro_actors r) \<le> ROUTER_SCOPE_ACTOR_HARD_LIMIT \<and>
    list_all (\<lambda>(k, a). actor_ok a) (ro_actors r) \<and> lanes_ok r"
  using router.run_inv[OF router_start_ok assms(1)] by (simp add: r_def router_ok_def actors_ok_def)

section \<open>A concrete run\<close>

definition demo_env :: "string route_env" where
  "demo_env = \<lparr>re_actor = \<lparr>ae_inbound = demo_codec, ae_json = tagged_codec, ae_anchor = (\<lambda>_. None), ae_unix_ms = 0, ae_store_ms = 0,
      ae_now = 0, ae_now2 = 0, ae_fault = None\<rparr>, re_json_string = (\<lambda>_. None), re_terminal = False, re_thread_fault = None, re_order = id\<rparr>"

definition demo_access :: access_policy where
  "demo_access = \<lparr>ap_owners = [ustr ''u''], ap_allowed_senders = [], ap_allowed_groups = [], ap_allow_roots = [], ap_roots = demo_roots,
      ap_sandbox = WorkspaceWrite, ap_approval_policy = Named (ustr ''never''), ap_network_access = False\<rparr>"

abbreviation demo_settings :: router_settings where
  "demo_settings \<equiv> settings_from_config demo_config"

lemma demo_is_no_command: "bridge_control json_string demo_event = None"
  by (simp add: bridge_control_def demo_event_def parse_command_def split_command_def trim_def ustr_def is_whitespace_def recognized_names_def)

lemma demo_allowed: "route_decision demo_access None demo_event = Allow"
  by (simp add: route_decision_def decide_def mention_gate_def is_owner_def demo_access_def demo_event_def ustr_def utf8_def utf8_char_def
      char_of_eq_iff take_bit_eq_mod)

lemma demo_routed:
  obtains a where "route_one demo_env tenant demo_access demo_settings demo_queued_event (router_start s []) =
      (Inr (), (router_start s [])\<lparr>ro_actors := [(''im:c'', a)]\<rparr>)" "length (sa_mailbox a) = 1"
proof -
  let ?key = "\<lparr>ik_tenant = tenant, ik_event_id = ev_event_id demo_event\<rparr>"
  obtain a where a: "try_route_kind ?key demo_queued_event None (spawn demo_settings (ScopeChat ''c'')) = Inr a" "length (sa_mailbox a) = 1"
    by (simp add: try_route_kind_def spawn_def demo_queued_event_def u32_max_def SCOPE_MAILBOX_BYTE_BUDGET_def SCOPE_MAILBOX_CAPACITY_def)
  have event: "qe_event demo_queued_event = demo_event" "ev_chat_type demo_event = P2p" "ev_scope demo_event = ScopeChat ''c''"
    by (simp_all add: demo_queued_event_def demo_event_def)
  have start: "ro_actors (router_start s []) = []" by (simp add: router_start_def)
  have "rs_max_scope_actors demo_settings > 0" by (simp add: settings_from_config_def demo_config_def)
  then have "route_one demo_env tenant demo_access demo_settings demo_queued_event (router_start s []) =
      (Inr (), (router_start s [])\<lparr>ro_actors := [(''im:c'', a)]\<rparr>)"
    using a(1) by (simp add: route_one_def event demo_is_no_command demo_allowed Let_def admit_scope_def deliver_to_scope_def try_route_def put_actor_def
        start demo_env_def)
  then show thesis using that a(2) by blast
qed

theorem routing_loses_no_event_witness:
  "\<exists>r' a. route_one demo_env (TenantNamespace 0) demo_access demo_settings demo_queued_event (router_start empty_store []) = (Inr (), r') \<and>
     map_of (ro_actors r') ''im:c'' = Some a \<and> ai_queued (command_inbound (last (sa_mailbox a))) = demo_queued_event"
proof -
  obtain a where a: "route_one demo_env (TenantNamespace 0) demo_access demo_settings demo_queued_event (router_start empty_store []) =
      (Inr (), (router_start empty_store [])\<lparr>ro_actors := [(''im:c'', a)]\<rparr>)" "length (sa_mailbox a) = 1"
    by (rule demo_routed)
  have "settled (bs_inbound (ro_store (router_start empty_store []))) = {}" by (simp add: settled_def router_start_def empty_store_def)
  then show ?thesis using a routing_loses_no_event[OF a(1)] by (simp add: demo_queued_event_def demo_event_def)
qed

theorem only_authorised_events_reach_a_scope_witness:
  "\<exists>r' a c. route_one demo_env (TenantNamespace 0) demo_access demo_settings demo_queued_event (router_start empty_store []) = (Inr (), r') \<and>
     (''im:c'', a) \<in> set (ro_actors r') \<and> c \<in> set (sa_mailbox a) \<and> ai_queued (command_inbound c) = demo_queued_event"
proof -
  obtain a where a: "route_one demo_env (TenantNamespace 0) demo_access demo_settings demo_queued_event (router_start empty_store []) =
      (Inr (), (router_start empty_store [])\<lparr>ro_actors := [(''im:c'', a)]\<rparr>)" "length (sa_mailbox a) = 1"
    by (rule demo_routed)
  then obtain c where c: "c \<in> set (sa_mailbox a)" by (cases "sa_mailbox a") auto
  have "ro_actors (router_start empty_store []) = []" by (simp add: router_start_def)
  then show ?thesis using a(1) c only_authorised_events_reach_a_scope[OF a(1), of "''im:c''" a c] by auto
qed

theorem router_stays_within_bounds_witness:
  "lanes_ok (fold apply_router_op [RtSubmit demo_queued_event, RtCommand demo_env (TenantNamespace 0) demo_access demo_settings, RtShutdown]
     (router_start empty_store []))"
  using router_stays_within_bounds[of "[RtSubmit demo_queued_event, RtCommand demo_env (TenantNamespace 0) demo_access demo_settings, RtShutdown]"
      empty_store "[]"] demo_settings_valid by simp

section \<open>Failed scopes\<close>

lemma waiting_actor_keeps_state:
  assumes "sa_phase a = PhaseWait" "sa_mailbox a = []" "sa_deferred a = None" "\<not> sa_shutdown a"
  shows "sa_state (fst (fst (actor_step e policy settings wake (a, s)))) = sa_state a"
  using assms by (auto simp: actor_step_def split: option.splits)

text \<open>A weak point of the limit on scopes: an actor whose last work failed keeps the state \<open>Failed\<close> while it waits, and only an
  \<open>Idle\<close> actor is ever evicted. When the table is full of such scopes, an allowed event of any further scope is turned away as
  overloaded although no actor has anything to do, and waiting does not help.\<close>

theorem failed_scopes_block_new_scopes:
  fixes queued :: queued_event and tenant :: tenant_namespace
  assumes "\<forall>(k, a)\<in>set (ro_actors r). (\<exists>kind. sa_state a = scope_state.Failed kind) \<and> sa_phase a = PhaseWait \<and> sa_mailbox a = [] \<and>
      sa_deferred a = None \<and> \<not> sa_shutdown a"
    and "rs_max_scope_actors settings \<le> length (ro_actors r)" "map_of (ro_actors r) (scope_to_string (ev_scope (qe_event queued))) = None"
    and "ev_chat_type (qe_event queued) = P2p" "\<not> re_terminal env"
    and "route_decision policy (bridge_control (re_json_string env) (qe_event queued)) (qe_event queued) = Allow"
  shows "route_one env tenant policy settings queued r =
      rejected env \<lparr>ik_tenant = tenant, ik_event_id = ev_event_id (qe_event queued)\<rparr> queued Overloaded r \<and>
    (\<forall>(k, a)\<in>set (ro_actors r). \<forall>e wake s. sa_state (fst (fst (actor_step e policy settings wake (a, s)))) = sa_state a)"
proof -
  have "find_idle env (ro_actors r) = None"
  proof (cases "find_idle env (ro_actors r)")
    case (Some idle)
    from find_idleD[OF this] obtain a where a: "(idle, a) \<in> set (ro_actors r)" "is_idle_and_empty a" by (auto dest: map_of_SomeD)
    with bspec[OF assms(1) a(1)] show ?thesis by (auto simp: is_idle_and_empty_def)
  qed
  then have "admit_scope env settings (ev_scope (qe_event queued)) (ro_actors r) = None"
    using assms(2,3) by (simp add: admit_scope_def Let_def)
  then have "route_one env tenant policy settings queued r =
      rejected env \<lparr>ik_tenant = tenant, ik_event_id = ev_event_id (qe_event queued)\<rparr> queued Overloaded r"
    using assms(4,5,6) by (simp add: route_one_def Let_def)
  moreover have "\<forall>(k, a)\<in>set (ro_actors r). \<forall>e wake s. sa_state (fst (fst (actor_step e policy settings wake (a, s)))) = sa_state a"
    using assms(1) by (auto intro!: waiting_actor_keeps_state)
  ultimately show ?thesis by blast
qed

theorem failed_scopes_block_new_scopes_witness:
  "route_one demo_env (TenantNamespace 0) demo_access (demo_settings\<lparr>rs_max_scope_actors := 1\<rparr>) demo_queued_event
     ((router_start empty_store [])\<lparr>ro_actors := [(''im:x'', (spawn demo_settings (ScopeChat ''x''))\<lparr>sa_state := scope_state.Failed SfStore\<rparr>)]\<rparr>) =
   rejected demo_env demo_key demo_queued_event Overloaded
     ((router_start empty_store [])\<lparr>ro_actors := [(''im:x'', (spawn demo_settings (ScopeChat ''x''))\<lparr>sa_state := scope_state.Failed SfStore\<rparr>)]\<rparr>)"
proof -
  have event: "qe_event demo_queued_event = demo_event" "ev_chat_type demo_event = P2p" "ev_scope demo_event = ScopeChat ''c''"
    "ev_event_id demo_event = ''e''" by (simp_all add: demo_queued_event_def demo_event_def)
  show ?thesis
    by (subst failed_scopes_block_new_scopes)
      (simp_all add: event spawn_def demo_is_no_command demo_allowed demo_key_def, simp_all add: demo_env_def)
qed

end
