(* ===== verification/Turn_Run.thy ===== *)
theory Turn_Run
  imports Router_Safety Adoption_Store
begin

text \<open>
  One Codex turn, \<^verbatim>\<open>process_batch\<close> of \<^verbatim>\<open>src/src/runtime/scope.rs\<close>: the gates before the claim, the thread, the claim of the
  batch, the request to Codex, the stream of its events and the finalization, with every early return. What
  Codex, the supervisor, the adoption coordinator and the attachment cache answer are arguments, so are the
  faults of the store. The requests sent to Codex are recorded in order.
\<close>

section \<open>Errors of the Codex client\<close>

datatype rpc_error =
    RpcTimeout string
  | RpcServer string int
  | ThreadResumeActiveWriter
  | RpcConnectionLost nat
  | AlreadyInitialized
  | RpcSerialize string
  | RpcDeserialize string
  | RpcPayloadTooLarge string
  | UnknownServerRequest
  | RequestIdExhausted

datatype client_error =
    ClientRpc rpc_error
  | RouterClosed nat
  | RouterTaskFailed nat
  | RouterTimeout nat
  | ClientCapacity
  | ControlEventsTaken
  | ConfirmedThreadUntracked string string
  | ConfirmedTurnUntracked string
  | InvalidNotification string

fun definitely_not_applied :: "rpc_error \<Rightarrow> bool" where
  "definitely_not_applied (RpcSerialize _) = True"
| "definitely_not_applied (RpcPayloadTooLarge _) = True"
| "definitely_not_applied RequestIdExhausted = True"
| "definitely_not_applied (RpcServer _ _) = True"
| "definitely_not_applied ThreadResumeActiveWriter = True"
| "definitely_not_applied _ = False"

fun turn_start_definitely_not_applied :: "client_error \<Rightarrow> bool" where
  "turn_start_definitely_not_applied (ClientRpc error) = definitely_not_applied error"
| "turn_start_definitely_not_applied (ConfirmedThreadUntracked _ _) = False"
| "turn_start_definitely_not_applied (ConfirmedTurnUntracked _) = False"
| "turn_start_definitely_not_applied _ = True"

definition thread_failure_ends_epoch :: "client_error \<Rightarrow> bool" where
  "thread_failure_ends_epoch error \<longleftrightarrow>
     \<not> turn_start_definitely_not_applied error \<or> (case error of RouterClosed _ \<Rightarrow> True | RouterTaskFailed _ \<Rightarrow> True | _ \<Rightarrow> False)"

definition subscription_failure_ends_epoch :: "client_error \<Rightarrow> bool" where
  "subscription_failure_ends_epoch error \<longleftrightarrow>
     (case error of ClientRpc (RpcConnectionLost _) \<Rightarrow> True | RouterClosed _ \<Rightarrow> True | RouterTaskFailed _ \<Rightarrow> True | _ \<Rightarrow> False)"

definition resume_failure_is_missing_thread :: "client_error \<Rightarrow> bool" where
  "resume_failure_is_missing_thread error \<longleftrightarrow> (case error of ClientRpc (RpcServer method code) \<Rightarrow> method = ''thread/resume'' | _ \<Rightarrow> False)"

section \<open>State and early return\<close>

text \<open>The state a turn works on: the tables of the store, the state and the active turn the scope shows, the pending media it has
  committed, and what it has done so far, in order: the requests to Codex and the claim.\<close>

datatype turn_effect =
    CallResume string path
  | CallStartThread path
  | CallReleaseThread string
  | CallSubscribe string
  | ClaimedTurn int "inbound_key list"
  | CallStartTurn string string path

record turn_ctx =
  tc_store :: bridge_store
  tc_threads :: thread_table
  tc_scopes :: scope_table
  tc_state :: scope_state
  tc_active :: "(string \<times> string) option"
  tc_committed :: "inbound_key list"
  tc_effects :: "turn_effect list"

text \<open>A part of the turn goes on with a value, returns from \<open>process_batch\<close>, or is still waiting.\<close>

datatype 'a outcome = Go 'a | Return "(scope_failure_kind, unit) result" | Waiting

type_synonym 'a turn_m = "turn_ctx \<Rightarrow> 'a outcome \<times> turn_ctx"

definition go :: "'a \<Rightarrow> 'a turn_m" where
  "go a c = (Go a, c)"

definition stop :: "(scope_failure_kind, unit) result \<Rightarrow> 'a turn_m" where
  "stop res c = (Return res, c)"

definition and_then :: "'a turn_m \<Rightarrow> ('a \<Rightarrow> 'b turn_m) \<Rightarrow> 'b turn_m" where
  "and_then m f c =
     (case m c of (Go a, c') \<Rightarrow> f a c' | (Return res, c') \<Rightarrow> (Return res, c') | (Waiting, c') \<Rightarrow> (Waiting, c'))"

definition of_outcome :: "'a outcome \<Rightarrow> 'a turn_m" where
  "of_outcome x c = (x, c)"

definition call :: "turn_effect \<Rightarrow> unit turn_m" where
  "call x c = (Go (), c\<lparr>tc_effects := tc_effects c @ [x]\<rparr>)"

definition set_state :: "scope_state \<Rightarrow> unit turn_m" where
  "set_state st c = (Go (), c\<lparr>tc_state := st\<rparr>)"

definition set_active_turn :: "(string \<times> string) option \<Rightarrow> unit turn_m" where
  "set_active_turn active c = (Go (), c\<lparr>tc_active := active\<rparr>)"

definition try_on_store :: "store_error option \<Rightarrow> (bridge_store, 'a) job \<Rightarrow> (store_error, 'a) result turn_m" where
  "try_on_store fault job c =
     (case with_fault fault job (tc_store c) of Inl err \<Rightarrow> (Go (Inl err), c) | Inr (a, s) \<Rightarrow> (Go (Inr a), c\<lparr>tc_store := s\<rparr>))"

definition on_store :: "store_error option \<Rightarrow> (bridge_store, 'a) job \<Rightarrow> 'a turn_m" where
  "on_store fault job c =
     (case with_fault fault job (tc_store c) of Inl _ \<Rightarrow> (Return (Inl SfStore), c) | Inr (a, s) \<Rightarrow> (Go a, c\<lparr>tc_store := s\<rparr>))"

definition on_threads :: "store_error option \<Rightarrow> (thread_table, 'a) job \<Rightarrow> 'a turn_m" where
  "on_threads fault job c =
     (case with_fault fault job (tc_threads c) of Inl _ \<Rightarrow> (Return (Inl SfStore), c) | Inr (a, t) \<Rightarrow> (Go a, c\<lparr>tc_threads := t\<rparr>))"

definition on_scopes :: "store_error option \<Rightarrow> (scope_table, 'a) job \<Rightarrow> 'a turn_m" where
  "on_scopes fault job c =
     (case with_fault fault job (tc_scopes c) of Inl _ \<Rightarrow> (Return (Inl SfStore), c) | Inr (a, t) \<Rightarrow> (Go a, c\<lparr>tc_scopes := t\<rparr>))"

section \<open>The surroundings\<close>

datatype store_site =
    AtAdoption | AtMapping | AtReject inbound_key | AtScopeRow | AtScopeUpsert | AtEnsureActive | AtResume | AtResumeUpsert | AtUncertain
  | AtAbandon int | AtAbandonArchive | AtArchive | AtRelease | AtStartThread | AtRecordThread | AtStartUpsert | AtThreadReady
  | AtBegin | AtRunning | AtResolve

record supervisor_access =
  su_epoch :: nat
  su_client :: bool
  su_terminal :: bool

text \<open>What a waiting loop can wake up to: cancellation, a turn permit (or a closed semaphore), a new supervisor state (or its end).\<close>

datatype turn_wake = Cancelled | Permit bool | Changed "supervisor_access option"

text \<open>Events of the subscription: of a turn, the completion of a turn with its status, the end of the connection, and the rest.\<close>

datatype turn_status = StatusCompleted | StatusInterrupted | StatusFailed | StatusInProgress | StatusUnknown string

datatype stream_event =
    OfTurn string app_server_event
  | TurnDone string turn_status turn_outcome
  | ConnectionClosed
  | OtherStreamEvent

text \<open>One pass of the event loop: the event (none when the stream or the actor ends), the clocks, and how storing a progress
  update went: the fault it met, or cancellation while it was stored (and whether the store still did it).\<close>

record stream_pass =
  sp_event :: "stream_event option"
  sp_now :: instant
  sp_ms :: int
  sp_fault :: "store_error option"
  sp_cancelled :: "bool option"

datatype final_attempt = FinalTry "store_error option" int bool | FinalCancelled bool int

record 'spec turn_env =
  te_actor :: "'spec actor_env"
  te_markdown :: markdown_renderer
  te_fs :: filesystem
  te_sha256 :: "nat list \<Rightarrow> nat list"
  te_platform :: string
  te_to_str :: "path \<Rightarrow> string option"
  te_fault :: "store_site \<Rightarrow> store_error option"
  te_saga :: "thread_adoption_saga option"
  te_access :: supervisor_access
  te_permit_wakes :: "turn_wake list"
  te_client_access :: supervisor_access
  te_client_wakes :: "turn_wake list"
  te_late_terminal :: bool
  te_loss_access :: supervisor_access
  te_loss_wakes :: "turn_wake list"
  te_route :: "(string \<times> nat \<times> nat) option"
  te_cancelled_at :: "store_site \<Rightarrow> bool"
  te_resume :: "(client_error, string) result"
  te_start_thread :: "(client_error, string) result"
  te_subscribe :: "(client_error, unit) result option"
  te_uuid :: string
  te_attachments :: bool
  te_assembled :: bool
  te_start_turn :: "(client_error, string) result option"
  te_lease :: bool
  te_stream :: "stream_pass list"
  te_cancelled :: bool
  te_final :: "final_attempt list"
  te_cleanup :: "final_attempt list"
  te_cleanup_expires :: bool
  te_end_access :: supervisor_access
  te_end_wakes :: "turn_wake list"
  te_release :: "(scope_failure_kind, unit) result"

section \<open>Before the claim\<close>

fun deduplicate_from :: "inbound_key list \<Rightarrow> turn_inbound list \<Rightarrow> turn_inbound list" where
  "deduplicate_from seen [] = []"
| "deduplicate_from seen (item # batch) =
     (if ai_key (ti_inbound item) \<in> set seen then deduplicate_from seen batch
      else item # deduplicate_from (ai_key (ti_inbound item) # seen) batch)"

definition deduplicate_batch :: "turn_inbound list \<Rightarrow> turn_inbound list" where
  "deduplicate_batch = deduplicate_from []"

definition reject_turn_item :: "'spec turn_env \<Rightarrow> inbound_rejection_kind \<Rightarrow> turn_inbound \<Rightarrow> unit turn_m" where
  "reject_turn_item te reason item c =
     (case reject_item ((te_actor te)\<lparr>ae_fault := te_fault te (AtReject (ai_key (ti_inbound item)))\<rparr>) (ti_inbound item) reason (tc_store c) of
        Inl kind \<Rightarrow> (Return (Inl kind), c)
      | Inr s \<Rightarrow> (Go (), c\<lparr>tc_store := s\<rparr>))"

fun reject_all :: "'spec turn_env \<Rightarrow> inbound_rejection_kind \<Rightarrow> turn_inbound list \<Rightarrow> unit turn_m" where
  "reject_all te reason [] = go ()"
| "reject_all te reason (item # batch) = and_then (reject_turn_item te reason item) (\<lambda>_. reject_all te reason batch)"

text \<open>\<open>reject_terminal_batch\<close> followed by the successful return.\<close>

definition reject_terminal_batch :: "'spec turn_env \<Rightarrow> turn_inbound list \<Rightarrow> 'a turn_m" where
  "reject_terminal_batch te batch = and_then (reject_all te Internal batch) (\<lambda>_. stop (Inr ()))"

definition adoption_gate :: "'spec turn_env \<Rightarrow> scope_key \<Rightarrow> turn_inbound list \<Rightarrow> (bool \<times> thread_row option) turn_m" where
  "adoption_gate te scope batch =
     (if te_fault te AtAdoption \<noteq> None then stop (Inl SfStore)
      else and_then (on_threads (te_fault te AtMapping) (active_thread scope)) (\<lambda>mapping.
        case (mapping, te_saga te) of
          (Some row, Some saga) \<Rightarrow>
            if th_origin row = ExternallyAdopted \<and> th_adoption_generation row = Some (ta_generation saga) \<and>
               th_codex_thread_id row = ta_codex_thread_id saga \<and> ta_state saga = Owned
            then go (True, mapping) else reject_terminal_batch te batch
        | (Some row, None) \<Rightarrow> if th_origin row = ExternallyAdopted then reject_terminal_batch te batch else go (False, mapping)
        | (None, Some saga) \<Rightarrow> reject_terminal_batch te batch
        | (None, None) \<Rightarrow> go (False, mapping)))"

text \<open>Waiting for a turn permit: \<open>Go True\<close> with a permit, \<open>Go False\<close> when the supervisor has ended for good.\<close>

fun acquire_permit :: "bool \<Rightarrow> bool \<Rightarrow> turn_wake list \<Rightarrow> bool outcome" where
  "acquire_permit adopted terminal wakes =
     (if \<not> adopted \<and> terminal then Go False
      else case wakes of
        [] \<Rightarrow> Waiting
      | Cancelled # _ \<Rightarrow> Return (Inl SfSupervisor)
      | Permit True # _ \<Rightarrow> Go True
      | Permit False # _ \<Rightarrow> Return (Inl SfCapacity)
      | Changed (Some access) # rest \<Rightarrow> acquire_permit adopted (if adopted then terminal else su_terminal access) rest
      | Changed None # rest \<Rightarrow> if adopted then acquire_permit adopted terminal rest else Return (Inl SfSupervisor))"

definition turn_rejection :: "'spec turn_env \<Rightarrow> access_policy \<Rightarrow> router_settings \<Rightarrow> turn_inbound \<Rightarrow> inbound_rejection_kind option" where
  "turn_rejection te policy settings item =
     (let event = event_of item in
      if length (ev_text event) > TURN_BATCH_TEXT_BYTE_BUDGET then Some Overloaded
      else if is_stale (ae_unix_ms (te_actor te)) event (rs_message_max_age settings) then Some Stale
      else rejection_kind (decide policy event))"

fun filter_eligible :: "'spec turn_env \<Rightarrow> access_policy \<Rightarrow> router_settings \<Rightarrow> turn_inbound list \<Rightarrow> turn_inbound list turn_m" where
  "filter_eligible te policy settings [] = go []"
| "filter_eligible te policy settings (item # batch) =
     (case turn_rejection te policy settings item of
        Some reason \<Rightarrow> and_then (reject_turn_item te reason item) (\<lambda>_. filter_eligible te policy settings batch)
      | None \<Rightarrow> and_then (filter_eligible te policy settings batch) (\<lambda>rest. go (item # rest)))"

definition external_batch_uses_unsupported_features :: "turn_inbound list \<Rightarrow> bool" where
  "external_batch_uses_unsupported_features batch =
     list_ex (\<lambda>item. let event = event_of item in
       ti_pending item \<noteq> None \<or> ev_message_type event \<noteq> ''text'' \<or> ev_reply_to_message_id event \<noteq> None \<or> ev_resources event \<noteq> [] \<or>
       list_ex (\<lambda>part. case part of PText _ \<Rightarrow> False | _ \<Rightarrow> True) (ev_parts event)) batch"

section \<open>Workspace and thread\<close>

definition turn_fingerprint :: "'spec turn_env \<Rightarrow> access_policy \<Rightarrow> path \<Rightarrow> (workspace_rejection, string) result" where
  "turn_fingerprint te policy cwd = fingerprint (te_sha256 te) (te_platform te) (te_fs te) policy cwd"

text \<open>The workspace of the scope: \<open>Inl ()\<close> when the policy refuses it, otherwise the directory, its fingerprint and whether the policy has changed.\<close>

definition prepare_workspace ::
    "'spec turn_env \<Rightarrow> access_policy \<Rightarrow> router_settings \<Rightarrow> scope_key \<Rightarrow> (unit, path \<times> string \<times> bool) result turn_m" where
  "prepare_workspace te policy settings scope =
     and_then (on_scopes (te_fault te AtScopeRow) (scope_row_read scope)) (\<lambda>stored.
       case stored of
         Some row \<Rightarrow>
           (case validate_workspace (te_fs te) policy (sc_cwd row) of
              Inl _ \<Rightarrow> go (Inl ())
            | Inr canonical \<Rightarrow>
                if canonical \<noteq> sc_cwd row then go (Inl ())
                else case turn_fingerprint te policy canonical of
                  Inl _ \<Rightarrow> go (Inl ())
                | Inr print \<Rightarrow> go (Inr (canonical, print, print \<noteq> sc_policy_fingerprint row)))
       | None \<Rightarrow>
           (case rs_default_workspace settings of
              None \<Rightarrow> go (Inl ())
            | Some cwd \<Rightarrow>
                (case validate_workspace (te_fs te) policy cwd of
                   Inl _ \<Rightarrow> go (Inl ())
                 | Inr canonical \<Rightarrow>
                     (case turn_fingerprint te policy canonical of
                        Inl _ \<Rightarrow> go (Inl ())
                      | Inr print \<Rightarrow>
                          and_then (on_scopes (te_fault te AtScopeUpsert)
                              (upsert_scope (ae_store_ms (te_actor te)) scope (te_to_str te canonical) print))
                            (\<lambda>_. go (Inr (canonical, print, False)))))))"

definition revalidate_workspace :: "'spec turn_env \<Rightarrow> access_policy \<Rightarrow> path \<Rightarrow> string \<Rightarrow> path option" where
  "revalidate_workspace te policy cwd print =
     (case validate_workspace (te_fs te) policy cwd of
        Inl _ \<Rightarrow> None
      | Inr canonical \<Rightarrow>
          if canonical \<noteq> cwd then None
          else case turn_fingerprint te policy canonical of
            Inl _ \<Rightarrow> None
          | Inr current \<Rightarrow> if current \<noteq> print then None else Some canonical)"

text \<open>Waiting for a client: the epoch of a ready one; \<open>Go None\<close> when the supervisor has ended for good.\<close>

fun wait_for_client :: "supervisor_access \<Rightarrow> turn_wake list \<Rightarrow> nat option outcome" where
  "wait_for_client access wakes =
     (if su_client access then Go (Some (su_epoch access))
      else if su_terminal access then Go None
      else case wakes of
        [] \<Rightarrow> Waiting
      | Cancelled # _ \<Rightarrow> Return (Inl SfSupervisor)
      | Changed (Some access') # rest \<Rightarrow> wait_for_client access' rest
      | Changed None # _ \<Rightarrow> Return (Inl SfSupervisor)
      | Permit _ # rest \<Rightarrow> wait_for_client access rest)"

text \<open>A lost connection before the claim: rejected when no client will come, otherwise left for the replay of the intake.\<close>

fun epoch_loss :: "nat \<Rightarrow> supervisor_access \<Rightarrow> turn_wake list \<Rightarrow> unit outcome" where
  "epoch_loss failed_epoch access wakes =
     (if su_terminal access then Go ()
      else if su_client access \<and> su_epoch access \<noteq> failed_epoch then Return (Inl SfClient)
      else case wakes of
        [] \<Rightarrow> Waiting
      | Cancelled # _ \<Rightarrow> Return (Inl SfSupervisor)
      | Changed (Some access') # rest \<Rightarrow> epoch_loss failed_epoch access' rest
      | Changed None # _ \<Rightarrow> Return (Inl SfSupervisor)
      | Permit _ # rest \<Rightarrow> epoch_loss failed_epoch access rest)"

definition settle_preclaim_epoch_loss :: "'spec turn_env \<Rightarrow> nat \<Rightarrow> turn_inbound list \<Rightarrow> 'a turn_m" where
  "settle_preclaim_epoch_loss te failed_epoch batch =
     and_then (of_outcome (epoch_loss failed_epoch (te_loss_access te) (te_loss_wakes te))) (\<lambda>_. reject_terminal_batch te batch)"

text \<open>Cancellation of the actor stops the preparation of a thread at whatever it is waiting for.\<close>

definition unless_cancelled :: "'spec turn_env \<Rightarrow> store_site \<Rightarrow> 'a turn_m \<Rightarrow> 'a turn_m" where
  "unless_cancelled te site m = (if te_cancelled_at te site then stop (Inl SfSupervisor) else m)"

fun resolve_each_turn :: "'spec turn_env \<Rightarrow> turn_row list \<Rightarrow> unit turn_m" where
  "resolve_each_turn te [] = go ()"
| "resolve_each_turn te (row # rows) = unless_cancelled te (AtAbandon (tn_id row)) (
     and_then (on_store (te_fault te (AtAbandon (tn_id row)))
         (resolve_turn_and_finish_inbound_batch (ae_store_ms (te_actor te)) (tn_id row) TurnInterrupted TermRejected))
       (\<lambda>_. resolve_each_turn te rows))"

definition abandon_unusable_bridge_thread :: "'spec turn_env \<Rightarrow> scope_key \<Rightarrow> string \<Rightarrow> unit turn_m" where
  "abandon_unusable_bridge_thread te scope thread_id =
     unless_cancelled te AtUncertain (and_then (on_store (te_fault te AtUncertain) (on_turns uncertain_turns)) (\<lambda>live_rows.
       and_then (resolve_each_turn te (filter (\<lambda>row. tn_scope_key row = scope_to_string scope \<and> tn_codex_thread_id row = Some thread_id \<and>
                    tn_state row \<in> {StStarting, StRunning, StUncertain}) live_rows)) (\<lambda>_.
         unless_cancelled te AtAbandonArchive
           (and_then (on_threads (te_fault te AtAbandonArchive) (archive_active_thread (ae_store_ms (te_actor te)) scope)) (\<lambda>_. go ())))))"

text \<open>The policy a scope runs under is stored anew when it has changed.\<close>

definition store_policy ::
    "'spec turn_env \<Rightarrow> store_site \<Rightarrow> scope_key \<Rightarrow> path \<Rightarrow> string \<Rightarrow> bool \<Rightarrow> string \<Rightarrow> (client_error, string) result turn_m" where
  "store_policy te site scope cwd print policy_changed thread_id =
     (if policy_changed
      then unless_cancelled te site
             (and_then (on_scopes (te_fault te site) (upsert_scope (ae_store_ms (te_actor te)) scope (te_to_str te cwd) print))
               (\<lambda>_. go (Inr thread_id)))
      else go (Inr thread_id))"

definition start_new_thread ::
    "'spec turn_env \<Rightarrow> access_policy \<Rightarrow> scope_key \<Rightarrow> path \<Rightarrow> string \<Rightarrow> bool \<Rightarrow> (client_error, string) result turn_m" where
  "start_new_thread te policy scope cwd print policy_changed =
     (case revalidate_workspace te policy cwd print of
        None \<Rightarrow> stop (Inl SfPolicy)
      | Some rpc_cwd \<Rightarrow>
          and_then (call (CallStartThread rpc_cwd)) (\<lambda>_. unless_cancelled te AtStartThread (
            case te_start_thread te of
              Inl error \<Rightarrow> go (Inl error)
            | Inr thread_id \<Rightarrow>
                and_then (on_threads (te_fault te AtRecordThread)
                    (record_active_thread_with_context_tools (ae_store_ms (te_actor te)) scope thread_id 0)) (\<lambda>_.
                  unless_cancelled te AtRecordThread (store_policy te AtStartUpsert scope cwd print policy_changed thread_id)))))"

definition ensure_thread ::
    "'spec turn_env \<Rightarrow> access_policy \<Rightarrow> scope_key \<Rightarrow> path \<Rightarrow> string \<Rightarrow> bool \<Rightarrow> (client_error, string) result turn_m" where
  "ensure_thread te policy scope cwd print policy_changed =
     and_then (on_threads (te_fault te AtEnsureActive) (active_thread scope)) (\<lambda>active.
       case active of
         None \<Rightarrow> start_new_thread te policy scope cwd print policy_changed
       | Some row \<Rightarrow>
           if th_context_tools_version row \<le> 1 then
             (case revalidate_workspace te policy cwd print of
                None \<Rightarrow> stop (Inl SfPolicy)
              | Some rpc_cwd \<Rightarrow>
                  and_then (call (CallResume (th_codex_thread_id row) rpc_cwd)) (\<lambda>_. unless_cancelled te AtResume (
                    case te_resume te of
                      Inr thread_id \<Rightarrow> store_policy te AtResumeUpsert scope cwd print policy_changed thread_id
                    | Inl error \<Rightarrow>
                        if th_origin row = BridgeCreated \<and> resume_failure_is_missing_thread error
                        then and_then (abandon_unusable_bridge_thread te scope (th_codex_thread_id row))
                               (\<lambda>_. start_new_thread te policy scope cwd print policy_changed)
                        else go (Inl error))))
           else
             and_then (on_threads (te_fault te AtArchive) (archive_active_thread (ae_store_ms (te_actor te)) scope)) (\<lambda>_.
               and_then (call (CallReleaseThread (th_codex_thread_id row))) (\<lambda>_. unless_cancelled te AtRelease (
                 start_new_thread te policy scope cwd print policy_changed))))"

text \<open>The thread of the turn with the epoch of its client, for an adopted and for an own thread. A wait for the client that fails while the
  supervisor has meanwhile ended for good is treated as its end. Fencing of an adopted thread has no effect on this state.\<close>

definition adopted_thread :: "'spec turn_env \<Rightarrow> thread_row option \<Rightarrow> bool \<Rightarrow> turn_inbound list \<Rightarrow> (nat \<times> string) turn_m" where
  "adopted_thread te mapping policy_changed batch =
     (if external_batch_uses_unsupported_features batch then reject_terminal_batch te batch
      else if policy_changed then reject_terminal_batch te batch
      else case (te_route te, mapping) of
        (Some (thread_id, generation, epoch), Some row) \<Rightarrow>
          if thread_id \<noteq> th_codex_thread_id row \<or> Some generation \<noteq> th_adoption_generation row
          then reject_terminal_batch te batch else go (epoch, thread_id)
      | _ \<Rightarrow> reject_terminal_batch te batch)"

definition own_thread ::
    "'spec turn_env \<Rightarrow> access_policy \<Rightarrow> scope_key \<Rightarrow> path \<Rightarrow> string \<Rightarrow> bool \<Rightarrow> turn_inbound list \<Rightarrow> (nat \<times> string) turn_m" where
  "own_thread te policy scope cwd print policy_changed batch =
     and_then (of_outcome (case wait_for_client (te_client_access te) (te_client_wakes te) of
           Return res \<Rightarrow> if te_late_terminal te then Go None else Return res
         | ready \<Rightarrow> ready)) (\<lambda>ready.
       case ready of
         None \<Rightarrow> reject_terminal_batch te batch
       | Some epoch \<Rightarrow>
           unless_cancelled te AtEnsureActive (and_then (ensure_thread te policy scope cwd print policy_changed) (\<lambda>res.
             unless_cancelled te AtThreadReady (case res of
               Inr thread_id \<Rightarrow> go (epoch, thread_id)
             | Inl error \<Rightarrow>
                 if thread_failure_ends_epoch error then settle_preclaim_epoch_loss te epoch batch
                 else if turn_start_definitely_not_applied error then reject_terminal_batch te batch
                 else stop (Inl SfClient)))))"

definition subscribe_thread :: "'spec turn_env \<Rightarrow> bool \<Rightarrow> nat \<Rightarrow> string \<Rightarrow> turn_inbound list \<Rightarrow> unit turn_m" where
  "subscribe_thread te adopted epoch thread_id batch =
     (case te_subscribe te of
        None \<Rightarrow> stop (Inl SfSupervisor)
      | Some res \<Rightarrow>
          and_then (call (CallSubscribe thread_id)) (\<lambda>_.
            case res of
              Inr _ \<Rightarrow> go ()
            | Inl error \<Rightarrow>
                if adopted then reject_terminal_batch te batch
                else if subscription_failure_ends_epoch error then settle_preclaim_epoch_loss te epoch batch
                else stop (Inl SfClient)))"

section \<open>Finalization\<close>

text \<open>\<open>persist_finalization_inner\<close>: the attempts to store the rows of a finished turn. A cancelled attempt may still have been carried out
  by the store.\<close>

fun persist_attempts ::
    "(int \<Rightarrow> outbox_table \<Rightarrow> (reply_sink_error, outbox_table) result) \<Rightarrow> final_attempt list \<Rightarrow> outbox_table \<Rightarrow> unit outcome \<times> outbox_table" where
  "persist_attempts store_rows [] t = (Waiting, t)"
| "persist_attempts store_rows (FinalCancelled carried_out ms # rest) t =
     (Return (Inl SfSupervisor), if carried_out then (case store_rows ms t of Inr t' \<Rightarrow> t' | Inl _ \<Rightarrow> t) else t)"
| "persist_attempts store_rows (FinalTry fault ms cancelled # rest) t =
     (case (case fault of Some err \<Rightarrow> Inl (map_store_error err) | None \<Rightarrow> store_rows ms t) of
        Inr t' \<Rightarrow> (Go (), t')
      | Inl SinkInvariant \<Rightarrow> (Return (Inl SfProjection), t)
      | Inl _ \<Rightarrow> if cancelled then (Return (Inl SfSupervisor), t) else persist_attempts store_rows rest t)"

definition on_outbox :: "(outbox_table \<Rightarrow> 'a outcome \<times> outbox_table) \<Rightarrow> 'a turn_m" where
  "on_outbox f c = (let (res, t) = f (bs_outbox (tc_store c)) in (res, c\<lparr>tc_store := (tc_store c)\<lparr>bs_outbox := t\<rparr>\<rparr>))"

definition store_final_rows ::
    "'spec turn_env \<Rightarrow> turn_finalization \<Rightarrow> projected_reply option \<Rightarrow> int \<Rightarrow> outbox_table \<Rightarrow> (reply_sink_error, outbox_table) result" where
  "store_final_rows te turn reply ms =
     (case reply of
        Some reply \<Rightarrow> finalize_projected (ae_json (te_actor te)) (te_markdown te) (ae_anchor (te_actor te)) ms turn reply
      | None \<Rightarrow> finalize (ae_json (te_actor te)) (te_markdown te) (ae_anchor (te_actor te)) ms turn)"

text \<open>A finalization that the cancellation of the actor interrupts, or that starts after it, gets a bounded second chance.\<close>

definition persist_finalization :: "'spec turn_env \<Rightarrow> turn_finalization \<Rightarrow> projected_reply option \<Rightarrow> unit turn_m" where
  "persist_finalization te turn reply =
     (let store_rows = store_final_rows te turn reply;
          cleanup = (\<lambda>t. case persist_attempts store_rows (te_cleanup te) t of
              (res, t') \<Rightarrow> (if te_cleanup_expires te \<and> res = Waiting then Return (Inl SfSupervisor) else res, t'))
      in if te_cancelled te then on_outbox cleanup
         else on_outbox (\<lambda>t. case persist_attempts store_rows (te_final te) t of
                (Return (Inl SfSupervisor), t') \<Rightarrow> cleanup t'
              | (res, t') \<Rightarrow> (res, t')))"

definition finalization :: "scope_key \<Rightarrow> int \<Rightarrow> turn_source list \<Rightarrow> turn_resolution \<Rightarrow> turn_outcome option \<Rightarrow> turn_failure_kind option \<Rightarrow> turn_finalization" where
  "finalization scope i sources resolution outcome failure =
     \<lparr>tf_turn_row_id = i, tf_scope_key = scope_to_string scope, tf_sources = sources, tf_resolution = resolution,
      tf_outcome = outcome, tf_failure = failure\<rparr>"

definition finalize_turn :: "'spec turn_env \<Rightarrow> turn_finalization \<Rightarrow> projected_reply option \<Rightarrow> inbound_terminal \<Rightarrow> unit turn_m" where
  "finalize_turn te turn reply inbound =
     and_then (persist_finalization te turn reply) (\<lambda>_.
       and_then (on_store (te_fault te AtResolve)
           (resolve_turn_and_finish_inbound_batch (ae_store_ms (te_actor te)) (tf_turn_row_id turn) (tf_resolution turn) inbound)) (\<lambda>_. go ()))"

definition finalize_failed :: "'spec turn_env \<Rightarrow> scope_key \<Rightarrow> int \<Rightarrow> turn_source list \<Rightarrow> turn_failure_kind \<Rightarrow> unit turn_m" where
  "finalize_failed te scope i sources failure =
     finalize_turn te (finalization scope i sources TurnFailedRes None (Some failure)) None TermRejected"

definition finalize_uncertain :: "'spec turn_env \<Rightarrow> scope_key \<Rightarrow> int \<Rightarrow> turn_source list \<Rightarrow> unit turn_m" where
  "finalize_uncertain te scope i sources =
     finalize_turn te (finalization scope i sources TurnUncertain None (Some FkConnectionLost)) None TermRejected"

text \<open>Attachments are released with the turn; those of an uncertain turn only once its connection has ended.\<close>

definition release_attachments :: "'spec turn_env \<Rightarrow> bool \<Rightarrow> unit turn_m" where
  "release_attachments te attachments =
     (if \<not> attachments then go () else case te_release te of Inl kind \<Rightarrow> stop (Inl kind) | Inr _ \<Rightarrow> go ())"

fun wait_for_epoch_end :: "nat \<Rightarrow> supervisor_access \<Rightarrow> turn_wake list \<Rightarrow> bool outcome" where
  "wait_for_epoch_end turn_epoch access wakes =
     (if su_epoch access \<noteq> turn_epoch \<or> \<not> su_client access then Go True
      else case wakes of
        [] \<Rightarrow> Waiting
      | Cancelled # _ \<Rightarrow> Go False
      | Changed (Some access') # rest \<Rightarrow> wait_for_epoch_end turn_epoch access' rest
      | Changed None # _ \<Rightarrow> Return (Inl SfSupervisor)
      | Permit _ # rest \<Rightarrow> wait_for_epoch_end turn_epoch access rest)"

definition finalize_uncertain_and_settle_attachments ::
    "'spec turn_env \<Rightarrow> scope_key \<Rightarrow> int \<Rightarrow> turn_source list \<Rightarrow> bool \<Rightarrow> nat \<Rightarrow> unit turn_m" where
  "finalize_uncertain_and_settle_attachments te scope i sources attachments turn_epoch =
     and_then (finalize_uncertain te scope i sources) (\<lambda>_.
       if \<not> attachments then stop (Inr ())
       else and_then (of_outcome (wait_for_epoch_end turn_epoch (te_end_access te) (te_end_wakes te))) (\<lambda>ended.
         and_then (if ended then release_attachments te attachments else go ()) (\<lambda>_. stop (Inr ()))))"

fun resolution_for :: "turn_status \<Rightarrow> turn_resolution \<times> inbound_terminal" where
  "resolution_for StatusCompleted = (TurnCompleted, TermCompleted)"
| "resolution_for StatusInterrupted = (TurnInterrupted, TermRejected)"
| "resolution_for StatusFailed = (TurnFailedRes, TermRejected)"
| "resolution_for StatusInProgress = (TurnUncertain, TermRejected)"
| "resolution_for (StatusUnknown _) = (TurnUncertain, TermRejected)"

fun failure_of :: "turn_resolution \<Rightarrow> turn_failure_kind option" where
  "failure_of TurnFailedRes = Some FkTurnFailed"
| "failure_of TurnInterrupted = Some FkInterrupted"
| "failure_of TurnUncertain = Some FkConnectionLost"
| "failure_of TurnCompleted = None"

section \<open>The turn\<close>

fun event_belongs_to_turn :: "stream_event \<Rightarrow> string \<Rightarrow> bool" where
  "event_belongs_to_turn (OfTurn event_turn event) turn_id = (event_turn = turn_id)"
| "event_belongs_to_turn (TurnDone event_turn status outcome) turn_id = (event_turn = turn_id)"
| "event_belongs_to_turn _ turn_id = False"

record stream_state =
  st_projector :: reply_projector
  st_sequence :: nat
  st_snapshot :: ustring

definition show_progress ::
    "'spec turn_env \<Rightarrow> scope_key \<Rightarrow> int \<Rightarrow> turn_source list \<Rightarrow> stream_pass \<Rightarrow> ustring \<Rightarrow> stream_state \<Rightarrow> (stream_state option) turn_m" where
  "show_progress te scope i sources pass text' st =
     (case sources of
        [] \<Rightarrow> go (Some (st\<lparr>st_projector := restore_progress (st_projector st) text'\<rparr>))
      | _ # _ \<Rightarrow>
          (let snapshot = append_progress_snapshot (st_snapshot st) text';
               update = \<lparr>tp_turn_row_id = i, tp_scope_key = scope_to_string scope, tp_source = last sources, tp_sequence = st_sequence st, tp_text = snapshot\<rparr>;
               store = progress (ae_json (te_actor te)) (ae_anchor (te_actor te)) (sp_ms pass) update
           in case sp_cancelled pass of
                Some carried_out \<Rightarrow>
                  on_outbox (\<lambda>t. (Go None, if carried_out then (case store t of Inr t' \<Rightarrow> t' | Inl _ \<Rightarrow> t) else t))
              | None \<Rightarrow>
                  on_outbox (\<lambda>t. case (case sp_fault pass of Some err \<Rightarrow> Inl (map_store_error err) | None \<Rightarrow> store t) of
                      Inr t' \<Rightarrow> (Go (Some (st\<lparr>st_snapshot := snapshot, st_sequence := sat_add_u32 (st_sequence st) 1\<rparr>)), t')
                    | Inl _ \<Rightarrow> (Go (Some (st\<lparr>st_projector := restore_progress (st_projector st) text'\<rparr>)), t))))"

text \<open>The event loop: the status and outcome of the turn with the projector, or nothing when the stream ended before.\<close>

fun stream_turn ::
    "'spec turn_env \<Rightarrow> scope_key \<Rightarrow> int \<Rightarrow> turn_source list \<Rightarrow> string \<Rightarrow> stream_pass list \<Rightarrow> stream_state \<Rightarrow>
       ((turn_status \<times> turn_outcome) option \<times> reply_projector) turn_m" where
  "stream_turn te scope i sources turn_id [] st = of_outcome Waiting"
| "stream_turn te scope i sources turn_id (pass # rest) st =
     (case sp_event pass of
        None \<Rightarrow> go (None, st_projector st)
      | Some ConnectionClosed \<Rightarrow> go (None, st_projector st)
      | Some (TurnDone event_turn status outcome) \<Rightarrow>
          if event_turn = turn_id then go (Some (status, outcome), st_projector st)
          else stream_turn te scope i sources turn_id rest st
      | Some (OfTurn event_turn event) \<Rightarrow>
          if \<not> event_belongs_to_turn (OfTurn event_turn event) turn_id then stream_turn te scope i sources turn_id rest st
          else (case observe (st_projector st) event (sp_now pass) of
                  (Nothing, p) \<Rightarrow> stream_turn te scope i sources turn_id rest (st\<lparr>st_projector := p\<rparr>)
                | (Progress text', p) \<Rightarrow>
                    and_then (show_progress te scope i sources pass text' (st\<lparr>st_projector := p\<rparr>)) (\<lambda>next_state.
                      case next_state of
                        None \<Rightarrow> go (None, restore_progress p text')
                      | Some st' \<Rightarrow> stream_turn te scope i sources turn_id rest st'))
      | Some OtherStreamEvent \<Rightarrow> stream_turn te scope i sources turn_id rest st)"

definition commit_pending_media :: "turn_inbound list \<Rightarrow> unit turn_m" where
  "commit_pending_media batch c =
     (Go (), c\<lparr>tc_committed := tc_committed c @ map (\<lambda>item. ai_key (ti_inbound item)) (filter (\<lambda>item. ti_pending item \<noteq> None) batch)\<rparr>)"

definition source_of :: "claimed_inbound \<Rightarrow> turn_source" where
  "source_of claimed =
     (let event = ri_event (ci_retained claimed)
      in \<lparr>src_event_id = ev_event_id event, src_message_id = ev_message_id event, src_chat_id = ev_chat_id event, src_thread_id = ev_thread_id event\<rparr>)"

definition conclude_turn ::
    "'spec turn_env \<Rightarrow> scope_key \<Rightarrow> int \<Rightarrow> turn_source list \<Rightarrow> bool \<Rightarrow> turn_status \<Rightarrow> turn_outcome \<Rightarrow> reply_projector \<Rightarrow> unit turn_m" where
  "conclude_turn te scope i sources attachments status outcome projector =
     (let (resolution, inbound) = resolution_for status in
      and_then (finalize_turn te (finalization scope i sources resolution (Some outcome) (failure_of resolution))
            (Some (finish (te_markdown te) projector outcome)) inbound) (\<lambda>_.
        and_then (if resolution \<noteq> TurnUncertain then release_attachments te attachments else go ()) (\<lambda>_. stop (Inr ()))))"

definition follow_turn ::
    "'spec turn_env \<Rightarrow> scope_key \<Rightarrow> int \<Rightarrow> turn_source list \<Rightarrow> bool \<Rightarrow> nat \<Rightarrow> string \<Rightarrow> string \<Rightarrow> unit turn_m" where
  "follow_turn te scope i sources attachments turn_epoch thread_id turn_id =
     (let uncertain = finalize_uncertain_and_settle_attachments te scope i sources attachments turn_epoch in
      if \<not> te_lease te then uncertain
      else and_then (try_on_store (te_fault te AtRunning) (on_turns (set_turn_state (ae_store_ms (te_actor te)) i StRunning (Some turn_id)))) (\<lambda>moved.
        case moved of
          Inl _ \<Rightarrow> uncertain
        | Inr _ \<Rightarrow>
            and_then (set_state (Running i)) (\<lambda>_. and_then (set_active_turn (Some (thread_id, turn_id))) (\<lambda>_.
              and_then (stream_turn te scope i sources turn_id (te_stream te) \<lparr>st_projector = with_defaults, st_sequence = 0, st_snapshot = []\<rparr>)
                (\<lambda>(completed, projector).
                  and_then (set_active_turn None) (\<lambda>_. and_then (set_state (Finalizing i)) (\<lambda>_.
                    case completed of
                      None \<Rightarrow> uncertain
                    | Some (status, outcome) \<Rightarrow> conclude_turn te scope i sources attachments status outcome projector)))))))"

definition start_codex_turn ::
    "'spec turn_env \<Rightarrow> access_policy \<Rightarrow> scope_key \<Rightarrow> path \<Rightarrow> string \<Rightarrow> bool \<Rightarrow> nat \<Rightarrow> string \<Rightarrow> turn_inbound list \<Rightarrow>
       int \<Rightarrow> turn_source list \<Rightarrow> unit turn_m" where
  "start_codex_turn te policy scope cwd print attachments turn_epoch thread_id batch i sources =
     (let failed = (\<lambda>failure. and_then (finalize_failed te scope i sources failure) (\<lambda>_.
            and_then (release_attachments te attachments) (\<lambda>_. stop (Inr ()))));
          uncertain = and_then (commit_pending_media batch) (\<lambda>_.
            finalize_uncertain_and_settle_attachments te scope i sources attachments turn_epoch)
      in if \<not> te_assembled te then failed FkAttachment
      else case revalidate_workspace te policy cwd print of
        None \<Rightarrow> failed FkWorkspace
      | Some rpc_cwd \<Rightarrow>
          and_then (call (CallStartTurn thread_id (te_uuid te) rpc_cwd)) (\<lambda>_.
            case te_start_turn te of
              Some (Inr turn_id) \<Rightarrow>
                and_then (commit_pending_media batch) (\<lambda>_. follow_turn te scope i sources attachments turn_epoch thread_id turn_id)
            | Some (Inl error) \<Rightarrow> if turn_start_definitely_not_applied error then failed FkTurnStartRejected else uncertain
            | None \<Rightarrow> uncertain))"

definition claim_turn_batch :: "'spec turn_env \<Rightarrow> scope_key \<Rightarrow> string \<Rightarrow> turn_inbound list \<Rightarrow> (int \<times> turn_source list) turn_m" where
  "claim_turn_batch te scope thread_id batch =
     and_then (on_store (te_fault te AtBegin)
         (begin_turn_and_claim_inbound_live (ae_inbound (te_actor te)) (ae_store_ms (te_actor te))
            \<lparr>nt_scope_key = scope_to_string scope, nt_client_message_id = te_uuid te, nt_codex_thread_id = Some thread_id, nt_state = StStarting\<rparr>
            (map (\<lambda>item. (ai_key (ti_inbound item), event_of item)) batch))) (\<lambda>begun.
       case begun of
         Started i claimed skipped \<Rightarrow> and_then (call (ClaimedTurn i (map ci_key claimed))) (\<lambda>_. go (i, map source_of claimed))
       | NoReceived skipped \<Rightarrow> stop (Inr ()))"

definition run_eligible ::
    "'spec turn_env \<Rightarrow> access_policy \<Rightarrow> router_settings \<Rightarrow> scope_key \<Rightarrow> bool \<Rightarrow> thread_row option \<Rightarrow> turn_inbound list \<Rightarrow> unit turn_m" where
  "run_eligible te policy settings scope adopted mapping batch =
     (if batch = [] then stop (Inr ())
      else and_then (prepare_workspace te policy settings scope) (\<lambda>workspace.
        case workspace of
          Inl _ \<Rightarrow> and_then (reject_all te Policy batch) (\<lambda>_. stop (Inr ()))
        | Inr (cwd, print, policy_changed) \<Rightarrow>
            and_then (set_state StartingTurn) (\<lambda>_.
              and_then (if adopted then adopted_thread te mapping policy_changed batch
                        else own_thread te policy scope cwd print policy_changed batch) (\<lambda>(epoch, thread_id).
                and_then (subscribe_thread te adopted epoch thread_id batch) (\<lambda>_.
                  and_then (claim_turn_batch te scope thread_id batch) (\<lambda>(i, sources).
                    start_codex_turn te policy scope cwd print (te_attachments te \<and> \<not> adopted) epoch thread_id batch i sources))))))"

definition process_scope_batch ::
    "'spec turn_env \<Rightarrow> access_policy \<Rightarrow> router_settings \<Rightarrow> scope_key \<Rightarrow> turn_inbound list \<Rightarrow> unit turn_m" where
  "process_scope_batch te policy settings scope batch0 =
     (let batch = deduplicate_batch batch0 in
      and_then (adoption_gate te scope batch) (\<lambda>(adopted, mapping).
        and_then (of_outcome (acquire_permit adopted (su_terminal (te_access te)) (te_permit_wakes te))) (\<lambda>permit.
          if \<not> permit then reject_terminal_batch te batch
          else and_then (filter_eligible te policy settings batch) (run_eligible te policy settings scope adopted mapping))))"

end
