(* ===== verification/Turn_Logic.thy ===== *)
theory Turn_Logic
  imports Turn_Run
begin

text \<open>
  How a turn is reasoned about: triples over its state with one postcondition for going on and one for
  returning, a rule for every combinator, and the invariant of a turn with the proof that each store
  operation a turn issues keeps it.
\<close>

section \<open>Triples\<close>

text \<open>The second postcondition is about an early end: a return with its result, or still waiting.\<close>

definition triple ::
    "(turn_ctx \<Rightarrow> bool) \<Rightarrow> 'a turn_m \<Rightarrow> ('a \<Rightarrow> turn_ctx \<Rightarrow> bool) \<Rightarrow> ((scope_failure_kind, unit) result option \<Rightarrow> turn_ctx \<Rightarrow> bool) \<Rightarrow> bool" where
  "triple P m Q R \<longleftrightarrow> (\<forall>c. P c \<longrightarrow>
     (case m c of (Go a, c') \<Rightarrow> Q a c' | (Return res, c') \<Rightarrow> R (Some res) c' | (Waiting, c') \<Rightarrow> R None c'))"

text \<open>A part that keeps \<open>P\<close> however it ends, and establishes \<open>S\<close> when it ends the turn successfully.\<close>

definition ends :: "(turn_ctx \<Rightarrow> bool) \<Rightarrow> (turn_ctx \<Rightarrow> bool) \<Rightarrow> 'a turn_m \<Rightarrow> bool" where
  "ends P S m \<longleftrightarrow> triple P m (\<lambda>_. P) (\<lambda>res c. P c \<and> (res = Some (Inr ()) \<longrightarrow> S c))"

named_theorems ends_intros

lemma tripleI:
  assumes "\<And>c a c'. P c \<Longrightarrow> m c = (Go a, c') \<Longrightarrow> Q a c'" "\<And>c res c'. P c \<Longrightarrow> m c = (Return res, c') \<Longrightarrow> R (Some res) c'"
    "\<And>c c'. P c \<Longrightarrow> m c = (Waiting, c') \<Longrightarrow> R None c'"
  shows "triple P m Q R"
  using assms unfolding triple_def by (auto split: prod.split outcome.split)

lemma tripleD:
  assumes "triple P m Q R" "P c"
  shows "m c = (Go a, c') \<Longrightarrow> Q a c'" "m c = (Return res, c') \<Longrightarrow> R (Some res) c'" "m c = (Waiting, c') \<Longrightarrow> R None c'"
  using assms unfolding triple_def by (auto dest: spec[of _ c])

lemma triple_conseq:
  assumes "triple P' m Q' R'" "\<And>c. P c \<Longrightarrow> P' c" "\<And>a c. Q' a c \<Longrightarrow> Q a c" "\<And>res c. R' res c \<Longrightarrow> R res c"
  shows "triple P m Q R"
  using assms unfolding triple_def by (fastforce split: prod.splits outcome.splits)

lemma triple_and_then:
  assumes "triple P m Q' R" "\<And>a. triple (Q' a) (f a) Q R"
  shows "triple P (and_then m f) Q R"
  using assms unfolding triple_def and_then_def by (fastforce split: prod.splits outcome.splits)

lemma triple_go: "(\<And>c. P c \<Longrightarrow> Q a c) \<Longrightarrow> triple P (go a) Q R"
  by (simp add: triple_def go_def)

lemma triple_stop: "(\<And>c. P c \<Longrightarrow> R (Some res) c) \<Longrightarrow> triple P (stop res) Q R"
  by (simp add: triple_def stop_def)

lemma triple_if: "(b \<Longrightarrow> triple P m Q R) \<Longrightarrow> (\<not> b \<Longrightarrow> triple P m' Q R) \<Longrightarrow> triple P (if b then m else m') Q R"
  by simp

lemma ends_triple: "ends P S m \<Longrightarrow> triple P m (\<lambda>_. P) (\<lambda>res c. P c \<and> (res = Some (Inr ()) \<longrightarrow> S c))"
  by (simp add: ends_def)

lemma ends_go [ends_intros]: "ends P S (go a)"
  by (simp add: ends_def triple_def go_def)

lemma ends_stop_failed [ends_intros]: "ends P S (stop (Inl kind))"
  by (simp add: ends_def triple_def stop_def)

lemma ends_stop: "(\<And>c. P c \<Longrightarrow> S c) \<Longrightarrow> ends P S (stop res)"
  by (simp add: ends_def triple_def stop_def)

lemma ends_of_outcome: "x \<noteq> Return (Inr ()) \<Longrightarrow> ends P S (of_outcome x)"
  by (auto simp: ends_def triple_def of_outcome_def split: outcome.splits)

lemma ends_and_then [ends_intros]: "ends P S m \<Longrightarrow> (\<And>a. ends P S (f a)) \<Longrightarrow> ends P S (and_then m f)"
  unfolding ends_def by (erule triple_and_then)

lemma ends_and_then_result:
  assumes "ends P S m" "\<And>a. \<exists>c. fst (m c) = Go a \<Longrightarrow> ends P S (f a)"
  shows "ends P S (and_then m f)"
proof -
  have "triple P m (\<lambda>a c. P c \<and> (\<exists>c. fst (m c) = Go a)) (\<lambda>res c. P c \<and> (res = Some (Inr ()) \<longrightarrow> S c))"
  proof (rule tripleI)
    note m = tripleD[OF assms(1)[unfolded ends_def]]
    show "P c' \<and> (\<exists>c. fst (m c) = Go a)" if "P c" "m c = (Go a, c')" for c a c'
      using m(1)[OF that] that(2) by (intro conjI exI[of _ c]) simp_all
    show "P c' \<and> (Some res = Some (Inr ()) \<longrightarrow> S c')" if "P c" "m c = (Return res, c')" for c res c' by (rule m(2)[OF that])
    show "P c' \<and> (None = Some (Inr ()) \<longrightarrow> S c')" if "P c" "m c = (Waiting, c')" for c c' using m(3)[OF that] by simp
  qed
  moreover have "triple (\<lambda>c. P c \<and> (\<exists>c. fst (m c) = Go a)) (f a) (\<lambda>_. P) (\<lambda>res c. P c \<and> (res = Some (Inr ()) \<longrightarrow> S c))" for a
    using assms(2)[of a] by (cases "\<exists>c. fst (m c) = Go a") (auto simp: ends_def triple_def)
  ultimately show ?thesis unfolding ends_def by (rule triple_and_then)
qed

lemma ends_if [ends_intros]: "(b \<Longrightarrow> ends P S m) \<Longrightarrow> (\<not> b \<Longrightarrow> ends P S m') \<Longrightarrow> ends P S (if b then m else m')"
  by simp

lemma ends_option [ends_intros]:
  "(x = None \<Longrightarrow> ends P S m) \<Longrightarrow> (\<And>a. x = Some a \<Longrightarrow> ends P S (f a)) \<Longrightarrow> ends P S (case_option m f x)"
  by (cases x) simp_all

lemma ends_sum [ends_intros]:
  "(\<And>a. x = Inl a \<Longrightarrow> ends P S (f a)) \<Longrightarrow> (\<And>b. x = Inr b \<Longrightarrow> ends P S (g b)) \<Longrightarrow> ends P S (case_sum f g x)"
  by (cases x) simp_all

lemma ends_prod [ends_intros]: "(\<And>a b. x = (a, b) \<Longrightarrow> ends P S (f a b)) \<Longrightarrow> ends P S (case_prod f x)"
  by (cases x) simp

lemma ends_let [ends_intros]: "ends P S (f x) \<Longrightarrow> ends P S (Let x f)"
  by (simp add: Let_def)

lemma ends_unless_cancelled [ends_intros]: "ends P S m \<Longrightarrow> ends P S (unless_cancelled te site m)"
  by (simp add: unless_cancelled_def ends_stop_failed)

section \<open>The invariant of a turn\<close>

definition turn_idents :: "turn_table \<Rightarrow> (int \<times> string \<times> string \<times> string option) set" where
  "turn_idents turns = (\<lambda>t. (tn_id t, tn_scope_key t, tn_client_message_id t, tn_codex_thread_id t)) ` set turns"

definition approved_path :: "'spec turn_env \<Rightarrow> access_policy \<Rightarrow> path \<Rightarrow> bool" where
  "approved_path te policy cwd \<longleftrightarrow> validate_workspace (te_fs te) policy cwd = Inr cwd"

fun approved_effect :: "'spec turn_env \<Rightarrow> access_policy \<Rightarrow> turn_effect \<Rightarrow> bool" where
  "approved_effect te policy (CallResume thread_id cwd) = approved_path te policy cwd"
| "approved_effect te policy (CallStartThread cwd) = approved_path te policy cwd"
| "approved_effect te policy (CallStartTurn thread_id uuid cwd) = approved_path te policy cwd"
| "approved_effect te policy _ = True"

fun is_turn_effect :: "turn_effect \<Rightarrow> bool" where
  "is_turn_effect (ClaimedTurn i keys) = True"
| "is_turn_effect (CallStartTurn thread_id uuid cwd) = True"
| "is_turn_effect _ = False"

record turn_facts =
  known_settled :: "(string \<times> string) set"
  known_turns :: "(int \<times> string \<times> string \<times> string option) set"
  known_effects :: "turn_effect list"
  known_committed :: "inbound_key list"
  known_claims :: "((string \<times> string) \<times> int) set"

text \<open>The tables are well formed and every directory named to Codex is approved. The facts that hold besides: these events are settled,
  these turns are recorded, these are the claim and the turn request so far, these events have given up their pending media, and these
  events belong to these turns.\<close>

definition turn_links :: "inbound_row list \<Rightarrow> ((string \<times> string) \<times> int) set" where
  "turn_links rows = {(ikey r, i) | r i. r \<in> set rows \<and> ir_turn_row_id r = Some i}"

definition turn_inv :: "'spec turn_env \<Rightarrow> access_policy \<Rightarrow> turn_facts \<Rightarrow> turn_ctx \<Rightarrow> bool" where
  "turn_inv te policy F c \<longleftrightarrow>
     inbound_codec_ok (ae_inbound (te_actor te)) \<and> bridge_ok (ae_inbound (te_actor te)) (tc_store c) \<and> threads_wf (tc_threads c) \<and>
     list_all (approved_effect te policy) (tc_effects c) \<and> known_settled F \<subseteq> settled (bs_inbound (tc_store c)) \<and>
     known_turns F \<subseteq> turn_idents (bs_turns (tc_store c)) \<and> filter is_turn_effect (tc_effects c) = known_effects F \<and>
     tc_committed c = known_committed F \<and> known_claims F \<subseteq> turn_links (bs_inbound (tc_store c))"

lemma turn_idents_update:
  assumes "\<And>t. tn_id (f t) = tn_id t \<and> tn_scope_key (f t) = tn_scope_key t \<and> tn_client_message_id (f t) = tn_client_message_id t \<and>
    tn_codex_thread_id (f t) = tn_codex_thread_id t"
  shows "turn_idents (update_turn i f turns) = turn_idents turns"
  unfolding turn_idents_def set_update_turn image_image by (rule image_cong) (auto simp: assms)

lemma resolve_idents: "turn_idents (Inbound_Turns.resolve_turns now i target turns) = turn_idents turns"
  unfolding Inbound_Turns.resolve_turns_def by (rule turn_idents_update) (simp add: resolve_turn_row_def)

lemma insert_turn_idents:
  assumes "insert_turn now turn n context' turns = Inr (i, turns')"
  shows "turn_idents turns' = insert (i, nt_scope_key turn, nt_client_message_id turn, nt_codex_thread_id turn) (turn_idents turns)"
  using assms by (auto simp: insert_turn_def turn_idents_def split: if_splits)


text \<open>The operations of the store a turn issues.\<close>

fun turn_op :: "bridge_op \<Rightarrow> bool" where
  "turn_op (BBeginLive now turn events) = True"
| "turn_op (BResolve now i turn inbound) = True"
| "turn_op (BNotice now key reason notice) = True"
| "turn_op (BTurnState now i state turn_id) = True"
| "turn_op (BOutbox op) = True"
| "turn_op _ = False"

lemma turn_op_issued: "turn_op op \<Longrightarrow> normalized_op op \<and> \<not> is_sweep op"
  by (cases op) simp_all

lemma begin_idents:
  assumes "begin_turn_and_claim_inbound_inner c now turn events s = Inr (out, s')"
  shows "turn_idents (bs_turns s) \<subseteq> turn_idents (bs_turns s')"
  using assms by (cases rule: beginD) (auto dest: insert_turn_idents)

lemma resolve_keeps_idents:
  assumes "resolve_turn_and_finish_inbound_batch now i turn inbound s = Inr (out, s')"
  shows "turn_idents (bs_turns s') = turn_idents (bs_turns s)"
proof -
  obtain target target_inbound reason where "resolution_target turn = (target, target_inbound, reason)" by (rule prod_cases3)
  from assms this show ?thesis by (cases rule: resolveD) (simp_all add: resolve_idents)
qed

lemma set_turn_state_idents:
  assumes "set_turn_state now i state turn_id t = Inr (u, t')"
  shows "turn_idents t' = turn_idents t"
  using assms by (rule set_turn_stateD) (simp add: turn_idents_update)

lemma notice_idents:
  assumes "reject_received_and_enqueue_notice c anchor_of now key reason notice s = Inr (d, s')"
  shows "bs_turns s' = bs_turns s"
  using assms by (cases rule: noticeD) (auto simp: backfill_reply_def split: option.splits if_splits elim: rejectD)

lemma apply_turn_op_idents:
  assumes "turn_op op"
  shows "turn_idents (bs_turns s) \<subseteq> turn_idents (bs_turns (apply_bridge_op c anchor_of op s))"
  using assms
  by (cases op) (auto simp: after_def on_turns_def begin_turn_and_claim_inbound_live_def split: sum.splits
      dest: begin_idents resolve_keeps_idents set_turn_state_idents notice_idents)

text \<open>No operation of a turn takes an event away from the turn it belongs to.\<close>

definition keeps_links :: "inbound_row list \<Rightarrow> inbound_row list \<Rightarrow> bool" where
  "keeps_links rows rows' \<longleftrightarrow> turn_links rows \<subseteq> turn_links rows'"

lemma keeps_links_refl [simp]: "keeps_links rows rows"
  by (simp add: keeps_links_def)

lemma keeps_links_trans: "keeps_links a b \<Longrightarrow> keeps_links b c \<Longrightarrow> keeps_links a c"
  by (auto simp: keeps_links_def)

lemma turn_links_update:
  assumes "\<And>r. ikey (f r) = ikey r" "\<And>r. r \<in> set rows \<Longrightarrow> P r \<Longrightarrow> ir_turn_row_id r = None \<or> ir_turn_row_id (f r) = ir_turn_row_id r"
  shows "keeps_links rows (map (\<lambda>r. if P r then f r else r) rows)"
proof -
  let ?g = "\<lambda>r. if P r then f r else r"
  have "(ikey r, i) \<in> turn_links (map ?g rows)" if r: "r \<in> set rows" "ir_turn_row_id r = Some i" for r i
  proof -
    have "?g r \<in> set (map ?g rows)" using r(1) by (simp only: set_map) (rule imageI)
    moreover have "ikey (?g r) = ikey r" "ir_turn_row_id (?g r) = Some i"
      using assms(1)[of r] assms(2)[OF r(1)] r(2) by (cases "P r"; simp)+
    ultimately show ?thesis unfolding turn_links_def by (intro CollectI exI[of _ "?g r"] exI[of _ i]) simp
  qed
  then show ?thesis by (auto simp: keeps_links_def turn_links_def[of rows])
qed

lemma begin_links:
  assumes "bridge_ok c s" "begin_turn_and_claim_inbound_inner c now turn events s = Inr (out, s')"
  shows "keeps_links (bs_inbound s) (bs_inbound s')"
  using assms(2)
proof (cases rule: beginD)
  case (started i received skipped turns rows)
  from assms(1) have d: "distinct (map ikey (bs_inbound s))" by (simp add: bridge_ok_def inbound_ok_def inbound_keys_ok_def)
  note mark = mark_acceptedD[OF started(7) d]
  have "ir_turn_row_id r = None" if "r \<in> set (bs_inbound s)" "ikey r \<in> hex_key ` set (map ci_key received)" for r
  proof -
    from that(2) obtain k where k: "k \<in> set (map ci_key received)" "ikey r = hex_key k" by (elim imageE)
    with mark obtain x where x: "x \<in> set (bs_inbound s)" "ikey x = hex_key k" "ir_turn_row_id x = None"
      unfolding list_all_iff claimable_def by blast
    have "r = x" by (rule row_by_ikey_unique[OF d x(1) that(1)]) (simp only: k(2) x(2))
    with x(3) show ?thesis by simp
  qed
  with mark show ?thesis by (auto simp: started(2) intro!: turn_links_update)
qed simp

lemma resolve_links:
  assumes "resolve_turn_and_finish_inbound_batch now i turn inbound s = Inr (out, s')"
  shows "keeps_links (bs_inbound s) (bs_inbound s')"
proof -
  obtain target target_inbound reason where "resolution_target turn = (target, target_inbound, reason)" by (rule prod_cases3)
  from assms this show ?thesis
    by (cases rule: resolveD) (auto intro!: turn_links_update simp: finish_row_def erase_payload_def)
qed

lemma notice_links:
  assumes "bridge_ok c s" "reject_received_and_enqueue_notice c anchor_of now key reason notice s = Inr (d, s')"
  shows "keeps_links (bs_inbound s) (bs_inbound s')"
proof -
  have record': "keeps_links rows rows'" if "record_inbound_reply_effect turns now tenant event_id k rows = Inr rows'" for turns tenant event_id k rows rows'
    using that unfolding record_inbound_reply_effect_def by (auto split: if_splits dest!: update_one_inboundD intro!: turn_links_update)
  have reject: "keeps_links (bs_inbound s) (bs_inbound s1)" if "reject_received_in_transaction c now key reason s = Inr (d, s1)" for s1
    using that received_row[of c "bs_turns s" "bs_inbound s"] assms(1)
    by (cases rule: rejectD) (auto intro!: turn_links_update simp: bridge_ok_def finish_row_def erase_payload_def)
  from assms(2) show ?thesis
  proof (cases rule: noticeD)
    case (new outbox s1 rows)
    with reject[OF new(2)] record'[OF new(3)] show ?thesis by (auto intro: keeps_links_trans)
  qed (auto simp: backfill_reply_def split: option.splits if_splits dest: record')
qed

lemma apply_turn_op_links:
  assumes "turn_op op" "bridge_ok c s"
  shows "keeps_links (bs_inbound s) (bs_inbound (apply_bridge_op c anchor_of op s))"
  using assms(1)
  by (cases op) (auto simp: after_def on_turns_def begin_turn_and_claim_inbound_live_def split: sum.splits
      dest: begin_links[OF assms(2)] resolve_links notice_links[OF assms(2)])

lemma turn_inv_store:
  assumes "turn_inv te policy F c" "turn_op op" "s' = apply_bridge_op (ae_inbound (te_actor te)) (ae_anchor (te_actor te)) op (tc_store c)"
  shows "turn_inv te policy F (c\<lparr>tc_store := s'\<rparr>)"
proof -
  note inv = assms(1)[unfolded turn_inv_def]
  have "bridge_ok (ae_inbound (te_actor te)) s'" using inv turn_op_issued[OF assms(2)] by (simp add: assms(3) apply_bridge_op_ok)
  moreover have "settled (bs_inbound (tc_store c)) \<subseteq> settled (bs_inbound s')"
    using apply_forward[of _ "tc_store c" op] inv turn_op_issued[OF assms(2)] by (simp add: assms(3) forward_def)
  moreover have "turn_idents (bs_turns (tc_store c)) \<subseteq> turn_idents (bs_turns s')" using apply_turn_op_idents[OF assms(2)] by (simp add: assms(3))
  moreover have "turn_links (bs_inbound (tc_store c)) \<subseteq> turn_links (bs_inbound s')"
    using apply_turn_op_links[OF assms(2)] inv unfolding assms(3) keeps_links_def by blast
  ultimately show ?thesis using inv by (auto simp: turn_inv_def)
qed

section \<open>What the parts keep\<close>

text \<open>A store job that is an operation of a turn.\<close>

definition issues :: "'spec turn_env \<Rightarrow> (bridge_store, 'a) job \<Rightarrow> bool" where
  "issues te job \<longleftrightarrow> (\<forall>s a s'. job s = Inr (a, s') \<longrightarrow>
     (\<exists>op. turn_op op \<and> s' = apply_bridge_op (ae_inbound (te_actor te)) (ae_anchor (te_actor te)) op s))"

lemma issuesI:
  assumes "turn_op op" "\<And>s. apply_bridge_op (ae_inbound (te_actor te)) (ae_anchor (te_actor te)) op s = after job s"
  shows "issues te job"
  using assms unfolding issues_def by (metis after_def sum.case(2) case_prod_conv)

lemma issued_jobs [ends_intros]:
  "issues te (resolve_turn_and_finish_inbound_batch now i turn inbound)"
  "issues te (on_turns (set_turn_state now i state turn_id))"
  "issues te (begin_turn_and_claim_inbound_live (ae_inbound (te_actor te)) now new_turn events)"
  "issues te (reject_received_and_enqueue_notice (ae_inbound (te_actor te)) (ae_anchor (te_actor te)) now key reason notice)"
  by (rule issuesI[of "BResolve now i turn inbound"] issuesI[of "BTurnState now i state turn_id"] issuesI[of "BBeginLive now new_turn events"]
      issuesI[of "BNotice now key reason notice"]; simp)+

lemma turn_inv_job:
  assumes "turn_inv te policy F c" "issues te job" "job (tc_store c) = Inr (a, s')"
  shows "turn_inv te policy F (c\<lparr>tc_store := s'\<rparr>)"
  using assms turn_inv_store unfolding issues_def by metis

lemma ends_on_store [ends_intros]: "issues te job \<Longrightarrow> ends (turn_inv te policy F) S (on_store fault job)"
  unfolding ends_def
  by (rule tripleI) (auto simp: on_store_def split: sum.splits dest!: with_fault_Inr dest: turn_inv_job)

lemma ends_try_on_store [ends_intros]: "issues te job \<Longrightarrow> ends (turn_inv te policy F) S (try_on_store fault job)"
  unfolding ends_def
  by (rule tripleI) (auto simp: try_on_store_def split: sum.splits dest!: with_fault_Inr dest: turn_inv_job)

lemma ends_uncertain_turns [ends_intros]: "ends (turn_inv te policy F) S (on_store fault (on_turns uncertain_turns))"
  unfolding ends_def
  by (rule tripleI) (auto simp: on_store_def on_turns_def uncertain_turns_def case_prod_beta split: sum.splits if_splits dest!: with_fault_Inr)

lemma ends_on_threads:
  assumes "\<And>t a t'. threads_wf t \<Longrightarrow> job t = Inr (a, t') \<Longrightarrow> threads_wf t'"
  shows "ends (turn_inv te policy F) S (on_threads fault job)"
  unfolding ends_def using assms
  by (intro tripleI) (auto simp: on_threads_def turn_inv_def split: sum.splits dest!: with_fault_Inr)

lemma ends_active_thread [ends_intros]: "ends (turn_inv te policy F) S (on_threads fault (active_thread scope))"
  by (rule ends_on_threads) (auto simp: active_thread_def Let_def dest!: run_sized_Inr)

lemma ends_archive [ends_intros]: "ends (turn_inv te policy F) S (on_threads fault (archive_active_thread now scope))"
  by (rule ends_on_threads) (rule archive_active_thread_wf)

lemma ends_record_thread [ends_intros]:
  "ends (turn_inv te policy F) S (on_threads fault (record_active_thread_with_context_tools now scope thread_id version))"
  by (rule ends_on_threads) (rule record_active_thread_wf)

lemma ends_on_scopes [ends_intros]: "ends (turn_inv te policy F) S (on_scopes fault job)"
  unfolding ends_def by (rule tripleI) (auto simp: on_scopes_def turn_inv_def split: sum.splits)

lemma ends_call:
  assumes "approved_effect te policy x" "\<not> is_turn_effect x"
  shows "ends (turn_inv te policy F) S (call x)"
  unfolding ends_def using assms by (intro tripleI) (auto simp: call_def turn_inv_def)

lemma ends_call_other [ends_intros]:
  "ends (turn_inv te policy F) S (call (CallSubscribe thread_id))" "ends (turn_inv te policy F) S (call (CallReleaseThread thread_id))"
  by (simp_all add: ends_call)

lemma ends_shown [ends_intros]:
  "ends (turn_inv te policy F) S (set_state st)" "ends (turn_inv te policy F) S (set_active_turn active)"
  by (simp_all add: ends_def triple_def turn_inv_def set_state_def set_active_turn_def)

section \<open>The outbox\<close>

definition outbox_run :: "'spec turn_env \<Rightarrow> outbox_table \<Rightarrow> outbox_table \<Rightarrow> bool" where
  "outbox_run te t t' \<longleftrightarrow> (\<exists>ops. t' = fold (apply_op (ae_anchor (te_actor te))) ops t)"

lemma outbox_run_refl [simp]: "outbox_run te t t"
  unfolding outbox_run_def by (rule exI[of _ "[]"]) simp

lemma outbox_run_op: "t' = apply_op (ae_anchor (te_actor te)) op t \<Longrightarrow> outbox_run te t t'"
  unfolding outbox_run_def by (rule exI[of _ "[op]"]) simp

lemma outbox_run_trans: "outbox_run te t t' \<Longrightarrow> outbox_run te t' t'' \<Longrightarrow> outbox_run te t t''"
  unfolding outbox_run_def by (metis comp_apply fold_append)

lemma turn_inv_outbox:
  assumes "turn_inv te policy F c" "outbox_run te (bs_outbox (tc_store c)) t'"
  shows "turn_inv te policy F (c\<lparr>tc_store := (tc_store c)\<lparr>bs_outbox := t'\<rparr>\<rparr>)"
proof -
  from assms(2) obtain ops where "t' = fold (apply_op (ae_anchor (te_actor te))) ops (bs_outbox (tc_store c))" unfolding outbox_run_def by blast
  with assms(1) show ?thesis
  proof (induction ops arbitrary: c)
    case (Cons op ops)
    have "turn_inv te policy F (c\<lparr>tc_store := (tc_store c)\<lparr>bs_outbox := apply_op (ae_anchor (te_actor te)) op (bs_outbox (tc_store c))\<rparr>\<rparr>)"
      using turn_inv_store[OF Cons.prems(1), of "BOutbox op"] by simp
    from Cons.IH[OF this] Cons.prems(2) show ?case by simp
  qed simp
qed

lemma ends_on_outbox:
  assumes "\<And>t x t'. f t = (x, t') \<Longrightarrow> x \<noteq> Return (Inr ()) \<and> outbox_run te t t'"
  shows "ends (turn_inv te policy F) S (on_outbox f)"
  unfolding ends_def
proof (rule tripleI)
  show "turn_inv te policy F c'" if "turn_inv te policy F c" "on_outbox f c = (Go a, c')" for c a c'
    using that assms[of "bs_outbox (tc_store c)"] by (auto simp: on_outbox_def split: prod.splits intro: turn_inv_outbox)
qed (use assms in \<open>force simp: on_outbox_def split: prod.splits intro: turn_inv_outbox\<close>)+

lemma progress_run: "progress json (ae_anchor (te_actor te)) now p t = Inr t' \<Longrightarrow> outbox_run te t t'"
  by (auto simp: progress_def split: sum.splits intro!: outbox_run_op[of _ _ "OpEnqueue now _"] simp: after_def)

text \<open>The rows the sink builds for a finished turn.\<close>

definition rows_for :: "'spec turn_env \<Rightarrow> turn_finalization \<Rightarrow> projected_reply option \<Rightarrow> (reply_sink_error, new_outbox_row list) result" where
  "rows_for te turn reply =
     (case reply of
        Some reply \<Rightarrow> build_projected_finalization_rows (ae_json (te_actor te)) (te_markdown te) turn reply
      | None \<Rightarrow> build_finalization_rows (ae_json (te_actor te)) (te_markdown te) turn with_defaults)"

definition enqueued :: "'spec turn_env \<Rightarrow> new_outbox_row list \<Rightarrow> outbox_table \<Rightarrow> bool" where
  "enqueued te rows t' \<longleftrightarrow> (\<exists>ms t out. enqueue_outbox_batch (ae_anchor (te_actor te)) ms rows t = Inr (out, t'))"

lemma row_by_key_append: "row_by_key (t @ [r]) (ob_idempotency_key r) \<noteq> None"
  by (auto simp: row_by_key_def find_None_iff)

lemma enqueue_rows_last:
  assumes "enqueue_rows anchor_of now rows t = Inr (as, t')" "rows \<noteq> []"
  shows "row_by_key t' (nb_idempotency_key (last rows)) \<noteq> None"
  using assms
proof (induction rows arbitrary: t as)
  case (Cons row rows)
  then obtain a t1 as' where step: "enqueue_one anchor_of now row t = Inr (a, t1)" "enqueue_rows anchor_of now rows t1 = Inr (as', t')" by auto
  show ?case
  proof (cases "rows = []")
    case True
    from step(1) have "row_by_key t1 (nb_idempotency_key row) \<noteq> None"
    proof (cases rule: enqueue_oneD)
      case (new P stored)
      with row_by_key_append[of "filter P t" stored] show ?thesis by (simp add: inserted_row_def)
    qed simp
    with True step(2) show ?thesis by simp
  qed (use Cons.IH step(2) in simp)
qed simp

text \<open>The last of the rows is in the outbox afterwards (an earlier one that was there before and is delivered may make room for it).\<close>

lemma enqueued_last: "enqueued te rows t \<Longrightarrow> rows \<noteq> [] \<Longrightarrow> row_by_key t (nb_idempotency_key (last rows)) \<noteq> None"
  by (auto simp: enqueued_def enqueue_outbox_batch_def split: if_splits dest!: run_sized_Inr dest: enqueue_rows_last)

lemma enqueue_finalizationD:
  assumes "enqueue_finalization anchor_of now built t = Inr t'"
  obtains rows out where "built = Inr rows" "enqueue_outbox_batch anchor_of now rows t = Inr (out, t')"
proof (cases built)
  case (Inr rows)
  with assms that show thesis
    by (cases "enqueue_outbox_batch anchor_of now rows t") (auto simp: enqueue_finalization_def)
qed (use assms in \<open>simp add: enqueue_finalization_def\<close>)

lemma store_final_rowsD:
  assumes "store_final_rows te turn reply ms t = Inr t'"
  obtains rows where "rows_for te turn reply = Inr rows" "enqueued te rows t'" "outbox_run te t t'"
proof -
  have "store_final_rows te turn reply ms t = enqueue_finalization (ae_anchor (te_actor te)) ms (rows_for te turn reply) t"
    by (cases reply) (simp_all add: store_final_rows_def rows_for_def finalize_def finalize_projected_def)
  with assms obtain rows out where rows: "rows_for te turn reply = Inr rows"
    "enqueue_outbox_batch (ae_anchor (te_actor te)) ms rows t = Inr (out, t')" by (auto elim: enqueue_finalizationD)
  then have "t' = apply_op (ae_anchor (te_actor te)) (OpEnqueueBatch ms rows) t" by (simp add: after_def)
  then have "outbox_run te t t'" by (rule outbox_run_op)
  with rows show thesis by (intro that) (auto simp: enqueued_def)
qed

end
