(* ===== verification/Turn_Safety.thy ===== *)
theory Turn_Safety
  imports Turn_Logic
begin

text \<open>
  What one turn guarantees, whatever Codex answers, whichever store calls fail and whenever the actor is
  cancelled: the store stays well formed, Codex only sees approved directories and only a batch that is
  durably claimed, and a turn that ends well leaves no event of its batch unsettled and no claimed turn unanswered.
\<close>

section \<open>Before the claim\<close>

abbreviation batch_keys :: "turn_inbound list \<Rightarrow> (string \<times> string) set" where
  "batch_keys batch \<equiv> (\<lambda>item. hex_key (ai_key (ti_inbound item))) ` set batch"

text \<open>The facts after the events of a batch have been settled.\<close>

definition with_settled :: "(string \<times> string) set \<Rightarrow> turn_facts \<Rightarrow> turn_facts" where
  "with_settled keys F = F\<lparr>known_settled := known_settled F \<union> keys\<rparr>"

lemma turn_inv_settled:
  "turn_inv te policy (with_settled keys F) c \<longleftrightarrow> turn_inv te policy F c \<and> keys \<subseteq> settled (bs_inbound (tc_store c))"
  by (auto simp: turn_inv_def with_settled_def)

lemma reject_turn_item_settles:
  "triple (turn_inv te policy F) (reject_turn_item te reason item) (\<lambda>_. turn_inv te policy (with_settled {hex_key (ai_key (ti_inbound item))} F))
     (\<lambda>res c. turn_inv te policy F c \<and> res \<noteq> Some (Inr ()))"
  unfolding triple_def
proof (intro allI impI)
  fix c
  let ?job = "\<lambda>reason notice. reject_received_and_enqueue_notice (ae_inbound (te_actor te)) (ae_anchor (te_actor te)) (ae_store_ms (te_actor te))
    (ai_key (ti_inbound item)) reason notice"
  assume inv: "turn_inv te policy F c"
  have "turn_inv te policy (with_settled {hex_key (ai_key (ti_inbound item))} F) (c\<lparr>tc_store := s'\<rparr>)"
    if "?job reason notice (tc_store c) = Inr (d, s')" for notice d s'
    using turn_inv_job[OF inv issued_jobs(4) that] notice_settles[OF that] by (simp add: turn_inv_settled)
  with inv show "case reject_turn_item te reason item c of
      (Go a, c') \<Rightarrow> turn_inv te policy (with_settled {hex_key (ai_key (ti_inbound item))} F) c'
    | (Return res, c') \<Rightarrow> turn_inv te policy F c' \<and> Some res \<noteq> Some (Inr ()) | (Waiting, c') \<Rightarrow> turn_inv te policy F c' \<and> None \<noteq> Some (Inr ())"
    by (auto simp: reject_turn_item_def reject_item_def split: sum.splits dest!: with_fault_Inr)
qed

lemma reject_all_settles:
  "triple (turn_inv te policy F) (reject_all te reason batch) (\<lambda>_. turn_inv te policy (with_settled (batch_keys batch) F))
     (\<lambda>res c. turn_inv te policy F c \<and> res \<noteq> Some (Inr ()))"
proof (induction batch arbitrary: F)
  case Nil
  then show ?case by (simp add: triple_go turn_inv_settled)
next
  case (Cons item batch)
  show ?case
    unfolding reject_all.simps
    by (rule triple_and_then[OF reject_turn_item_settles], rule triple_conseq[OF Cons.IH[of "with_settled {hex_key (ai_key (ti_inbound item))} F"]]) (auto simp: turn_inv_settled)
qed

lemma ends_weaken: "ends P S' m \<Longrightarrow> (\<And>c. P c \<Longrightarrow> S' c \<Longrightarrow> S c) \<Longrightarrow> ends P S m"
  unfolding ends_def by (erule triple_conseq) auto

lemma ends_reject_all:
  assumes "\<And>c. turn_inv te policy (with_settled (batch_keys batch) F) c \<Longrightarrow> S c"
  shows "ends (turn_inv te policy F) S (and_then (reject_all te reason batch) (\<lambda>_. stop (Inr ())))"
  unfolding ends_def using assms
  by (intro triple_and_then[OF triple_conseq[OF reject_all_settles] triple_stop]) (auto simp: turn_inv_settled)

text \<open>Every part before the claim either goes on, fails, or ends the turn with the whole batch settled.\<close>

abbreviation settles :: "'spec turn_env \<Rightarrow> access_policy \<Rightarrow> turn_facts \<Rightarrow> turn_inbound list \<Rightarrow> 'a turn_m \<Rightarrow> bool" where
  "settles te policy F batch \<equiv> ends (turn_inv te policy F) (\<lambda>c. batch_keys batch \<subseteq> settled (bs_inbound (tc_store c)))"

lemma settles_reject_terminal [ends_intros]: "settles te policy F batch (reject_terminal_batch te batch)"
  unfolding reject_terminal_batch_def by (rule ends_reject_all) (simp add: turn_inv_settled)

lemma adoption_gate_settles: "settles te policy F batch (adoption_gate te scope batch)"
  unfolding adoption_gate_def by (intro ends_intros)

lemma epoch_loss_fails: "epoch_loss failed_epoch access wakes \<noteq> Return (Inr ())"
  by (induction failed_epoch access wakes rule: epoch_loss.induct) (auto split: list.splits turn_wake.splits option.splits)

lemma settle_preclaim_settles [ends_intros]: "settles te policy F batch (settle_preclaim_epoch_loss te epoch batch)"
  unfolding settle_preclaim_epoch_loss_def by (intro ends_intros ends_of_outcome epoch_loss_fails)

lemma prepare_workspace_keeps [ends_intros]: "ends (turn_inv te policy F) S (prepare_workspace te policy settings scope)"
  unfolding prepare_workspace_def by (intro ends_intros)

lemma adopted_thread_settles [ends_intros]: "settles te policy F batch (adopted_thread te mapping policy_changed batch)"
  unfolding adopted_thread_def by (intro ends_intros)

lemma resolve_each_turn_keeps [ends_intros]: "ends (turn_inv te policy F) S (resolve_each_turn te rows)"
proof (induction rows)
  case (Cons row rows)
  then show ?case unfolding resolve_each_turn.simps by (intro ends_intros)
qed (simp add: ends_intros)

lemma abandon_keeps [ends_intros]: "ends (turn_inv te policy F) S (abandon_unusable_bridge_thread te scope thread_id)"
  unfolding abandon_unusable_bridge_thread_def by (intro ends_intros)

lemma revalidated_approved: "revalidate_workspace te policy cwd print = Some rpc_cwd \<Longrightarrow> approved_path te policy rpc_cwd"
  by (auto simp: revalidate_workspace_def approved_path_def split: sum.splits if_splits)

lemma start_new_thread_keeps [ends_intros]: "ends (turn_inv te policy F) S (start_new_thread te policy scope cwd print policy_changed)"
  unfolding start_new_thread_def store_policy_def by (intro ends_intros ends_call) (simp_all add: revalidated_approved)

lemma ensure_thread_keeps [ends_intros]: "ends (turn_inv te policy F) S (ensure_thread te policy scope cwd print policy_changed)"
  unfolding ensure_thread_def store_policy_def by (intro ends_intros ends_call) (simp_all add: revalidated_approved)

lemma wait_for_client_fails: "wait_for_client access wakes \<noteq> Return (Inr ())"
  by (induction access wakes rule: wait_for_client.induct) (auto split: list.splits turn_wake.splits option.splits)

lemma own_thread_settles [ends_intros]: "settles te policy F batch (own_thread te policy scope cwd print policy_changed batch)"
  unfolding own_thread_def
proof (intro ends_intros ends_of_outcome)
  show "(case wait_for_client (te_client_access te) (te_client_wakes te) of
      Return res \<Rightarrow> if te_late_terminal te then Go None else Return res | ready \<Rightarrow> ready) \<noteq> Return (Inr ())"
    using wait_for_client_fails by (cases "wait_for_client (te_client_access te) (te_client_wakes te)") (auto simp del: wait_for_client.simps)
qed

lemma subscribe_thread_settles [ends_intros]: "settles te policy F batch (subscribe_thread te adopted epoch thread_id batch)"
  unfolding subscribe_thread_def by (intro ends_intros)

section \<open>The claim\<close>

lemma collect_claimsD:
  assumes "collect_claims c s scope events = Inr (received, skipped)"
  shows "ci_key ` set received \<subseteq> fst ` set events \<and> hex_key ` fst ` set events \<subseteq> hex_key ` ci_key ` set received \<union> settled (bs_inbound s)"
  using assms
proof (induction events arbitrary: received skipped)
  case (Cons event events)
  obtain key live' where event: "event = (key, live')" by (cases event)
  from Cons.prems obtain stored where stored: "read_inbound_row (bs_inbound s) (as_hex (ik_tenant key)) (ik_event_id key) = Some stored"
    by (auto simp: event split: option.splits)
  show ?case
  proof (cases "ir_state stored = EvReceived")
    case True
    with Cons.prems obtain rest retained where rest: "collect_claims c s scope events = Inr (rest, skipped)"
        "received = \<lparr>ci_key = key, ci_retained = retained\<rparr> # rest"
      by (auto simp: event stored split: if_splits)
    from Cons.IH[OF rest(1)] show ?thesis unfolding rest(2) by (simp add: event) blast
  next
    case False
    with Cons.prems obtain skipped' where rest: "collect_claims c s scope events = Inr (received, skipped')"
      by (auto simp: event stored split: if_splits)
    from Cons.IH[OF rest] settledI[OF stored False] show ?thesis by (simp add: event) blast
  qed
qed simp

lemma collect_claims_live:
  assumes "collect_claims c s scope (map (\<lambda>(key, event). (key, Some event)) events) = Inr (received, skipped)"
  shows "list_all (\<lambda>x. (ci_key x, ri_event (ci_retained x)) \<in> set events) received"
  using assms
proof (induction events arbitrary: received skipped)
  case (Cons event events)
  obtain key live' where event: "event = (key, live')" by (cases event)
  from Cons.prems obtain stored where stored: "read_inbound_row (bs_inbound s) (as_hex (ik_tenant key)) (ik_event_id key) = Some stored"
    by (auto simp: event split: option.splits)
  show ?case
  proof (cases "ir_state stored = EvReceived")
    case True
    with Cons.prems obtain rest retained where rest: "collect_claims c s scope (map (\<lambda>(key, event). (key, Some event)) events) = Inr (rest, skipped)"
        "claim_retained c stored (Some live') = Inr retained" "received = \<lparr>ci_key = key, ci_retained = retained\<rparr> # rest"
      by (auto simp: event stored split: if_splits)
    have "ri_event retained = live'" using rest(2) by (auto simp: claim_retained_def)
    with Cons.IH[OF rest(1)] show ?thesis unfolding rest(3) by (auto simp: event list_all_iff)
  next
    case False
    with Cons.prems obtain skipped' where rest: "collect_claims c s scope (map (\<lambda>(key, event). (key, Some event)) events) = Inr (received, skipped')"
      by (auto simp: event stored split: if_splits)
    from Cons.IH[OF rest] show ?thesis by (auto simp: event list_all_iff)
  qed
qed simp

lemma begin_settles:
  assumes "bridge_ok c s" "begin_turn_and_claim_inbound_inner c now turn events s = Inr (out, s')"
  shows "hex_key ` fst ` set events \<subseteq> settled (bs_inbound s')"
proof -
  from assms(1) have d: "distinct (map ikey (bs_inbound s))" by (simp add: bridge_ok_def inbound_ok_def inbound_keys_ok_def)
  from assms(2) obtain received skipped where collect: "collect_claims c s (nt_scope_key turn) events = Inr (received, skipped)"
    and out: "case out of Started i r k \<Rightarrow> r = received | NoReceived k \<Rightarrow> received = []"
    unfolding begin_turn_and_claim_inbound_inner_def by (auto split: if_splits dest!: run_sized_Inr)
  have "hex_key ` ci_key ` set received \<subseteq> settled (bs_inbound s')"
    using started_claims[OF assms(1,2)] out by (cases out) (auto simp: started_keys_def after_def assms(2))
  moreover have "settled (bs_inbound s) \<subseteq> settled (bs_inbound s')" using begin_forward[OF d assms(2)] by (simp add: forward_def)
  ultimately show ?thesis using collect_claimsD[OF collect] by blast
qed

lemma begin_started:
  assumes "begin_turn_and_claim_inbound_inner c now turn events s = Inr (Started i claimed skipped, s')"
  shows "claimed \<noteq> []" "ci_key ` set claimed \<subseteq> fst ` set events"
    "(i, nt_scope_key turn, nt_client_message_id turn, nt_codex_thread_id turn) \<in> turn_idents (bs_turns s')"
  using assms by (cases rule: beginD; auto dest: insert_turn_idents collect_claimsD)+

lemma begin_started_links:
  assumes "bridge_ok c s" "begin_turn_and_claim_inbound_inner c now turn events s = Inr (Started i claimed skipped, s')"
  shows "(\<lambda>key. (hex_key key, i)) ` set (map ci_key claimed) \<subseteq> turn_links (bs_inbound s')"
  using assms(2)
proof (cases rule: beginD)
  case (started j received skipped' turns rows)
  from assms(1) have d: "distinct (map ikey (bs_inbound s))" by (simp add: bridge_ok_def inbound_ok_def inbound_keys_ok_def)
  note mark = mark_acceptedD[OF started(7) d]
  have "(hex_key k, i) \<in> turn_links (bs_inbound s')" if k: "k \<in> set (map ci_key claimed)" for k
  proof -
    from k started(1) have k': "k \<in> set (map ci_key received)" and ij: "i = j" by auto
    with mark obtain r where r: "r \<in> set (bs_inbound s)" "ikey r = hex_key k" unfolding list_all_iff claimable_def by blast
    with k' have "accept_row now j r \<in> set (bs_inbound s')" using mark started(2) by force
    with r(2) ij show ?thesis unfolding turn_links_def by (intro CollectI exI[of _ "accept_row now j r"] exI[of _ i]) (simp add: accept_row_def)
  qed
  then show ?thesis by blast
qed simp

text \<open>The facts after the claim, after the request to Codex, and after the pending media of the batch are given up.\<close>

definition claim_facts :: "'spec turn_env \<Rightarrow> scope_key \<Rightarrow> string \<Rightarrow> turn_inbound list \<Rightarrow> int \<Rightarrow> inbound_key list \<Rightarrow> turn_facts \<Rightarrow> turn_facts" where
  "claim_facts te scope thread_id batch i keys F =
     F\<lparr>known_settled := known_settled F \<union> batch_keys batch, known_turns := insert (i, scope_to_string scope, te_uuid te, Some thread_id) (known_turns F),
       known_effects := known_effects F @ [ClaimedTurn i keys], known_claims := known_claims F \<union> (\<lambda>key. (hex_key key, i)) ` set keys\<rparr>"

text \<open>The claimed events and the messages they came with: what the sources of a turn's answer are.\<close>

definition item_source :: "turn_inbound \<Rightarrow> turn_source" where
  "item_source item =
     \<lparr>src_event_id = ev_event_id (event_of item), src_message_id = ev_message_id (event_of item), src_chat_id = ev_chat_id (event_of item),
      src_thread_id = ev_thread_id (event_of item)\<rparr>"

definition sources_of :: "turn_inbound list \<Rightarrow> inbound_key list \<Rightarrow> turn_source list \<Rightarrow> bool" where
  "sources_of batch keys sources \<longleftrightarrow>
     list_all2 (\<lambda>key source. \<exists>item\<in>set batch. ai_key (ti_inbound item) = key \<and> source = item_source item) keys sources"

definition request_facts :: "'spec turn_env \<Rightarrow> string \<Rightarrow> path \<Rightarrow> turn_facts \<Rightarrow> turn_facts" where
  "request_facts te thread_id cwd F = F\<lparr>known_effects := known_effects F @ [CallStartTurn thread_id (te_uuid te) cwd]\<rparr>"

abbreviation pending_keys :: "turn_inbound list \<Rightarrow> inbound_key list" where
  "pending_keys batch \<equiv> map (\<lambda>item. ai_key (ti_inbound item)) (filter (\<lambda>item. ti_pending item \<noteq> None) batch)"

definition commit_facts :: "turn_inbound list \<Rightarrow> turn_facts \<Rightarrow> turn_facts" where
  "commit_facts batch F = F\<lparr>known_committed := known_committed F @ pending_keys batch\<rparr>"

lemma claim_turn_batch_claims:
  "triple (turn_inv te policy F) (claim_turn_batch te scope thread_id batch)
     (\<lambda>(i, sources) c. \<exists>keys. keys \<noteq> [] \<and> sources_of batch keys sources \<and>
        turn_inv te policy (claim_facts te scope thread_id batch i keys F) c)
     (\<lambda>res c. turn_inv te policy F c \<and> (res = Some (Inr ()) \<longrightarrow> batch_keys batch \<subseteq> settled (bs_inbound (tc_store c))))"
  unfolding triple_def
proof (intro allI impI)
  fix c
  let ?turn = "\<lparr>nt_scope_key = scope_to_string scope, nt_client_message_id = te_uuid te, nt_codex_thread_id = Some thread_id, nt_state = StStarting\<rparr>"
  let ?job = "begin_turn_and_claim_inbound_live (ae_inbound (te_actor te)) (ae_store_ms (te_actor te)) ?turn
    (map (\<lambda>item. (ai_key (ti_inbound item), event_of item)) batch)"
  assume inv: "turn_inv te policy F c"
  show "case claim_turn_batch te scope thread_id batch c of
      (Go a, c') \<Rightarrow> (case a of (i, sources) \<Rightarrow> \<lambda>c. \<exists>keys. keys \<noteq> [] \<and> sources_of batch keys sources \<and>
        turn_inv te policy (claim_facts te scope thread_id batch i keys F) c) c'
    | (Return res, c') \<Rightarrow> turn_inv te policy F c' \<and> (Some res = Some (Inr ()) \<longrightarrow> batch_keys batch \<subseteq> settled (bs_inbound (tc_store c')))
    | (Waiting, c') \<Rightarrow> turn_inv te policy F c' \<and> (None = Some (Inr ()) \<longrightarrow> batch_keys batch \<subseteq> settled (bs_inbound (tc_store c')))"
  proof (cases "with_fault (te_fault te AtBegin) ?job (tc_store c)")
    case (Inl err)
    with inv show ?thesis by (simp add: claim_turn_batch_def and_then_def on_store_def)
  next
    case (Inr out)
    obtain begun s' where out: "out = (begun, s')" by (cases out)
    have job: "?job (tc_store c) = Inr (begun, s')" using with_fault_Inr[OF Inr] out by simp
    note inner = job[unfolded begin_turn_and_claim_inbound_live_def]
    have keep: "turn_inv te policy F (c\<lparr>tc_store := s'\<rparr>)" using turn_inv_job[OF inv issued_jobs(3) job] .
    have settled': "batch_keys batch \<subseteq> settled (bs_inbound s')"
      using begin_settles[OF _ inner] inv by (simp add: turn_inv_def image_image case_prod_beta)
    show ?thesis
    proof (cases begun)
      case (Started i claimed skipped)
      note started = begin_started[OF inner[unfolded Started]]
      note links = begin_started_links[OF _ inner[unfolded Started]]
      have "collect_claims (ae_inbound (te_actor te)) (tc_store c) (scope_to_string scope)
          (map (\<lambda>(key, event). (key, Some event)) (map (\<lambda>item. (ai_key (ti_inbound item), event_of item)) batch)) = Inr (claimed, skipped)"
        using inner[unfolded Started] by (cases rule: beginD) simp_all
      from collect_claims_live[OF this] have "sources_of batch (map ci_key claimed) (map source_of claimed)"
        by (auto simp: sources_of_def list_all2_conv_all_nth list_all_length image_iff source_of_def item_source_def Let_def) metis
      moreover have "turn_inv te policy (claim_facts te scope thread_id batch i (map ci_key claimed) F)
          (c\<lparr>tc_store := s', tc_effects := tc_effects c @ [ClaimedTurn i (map ci_key claimed)]\<rparr>)"
        using keep settled' started(3) links inv by (simp add: turn_inv_def claim_facts_def)
      ultimately show ?thesis using started(1) Inr out Started
        by (auto simp: claim_turn_batch_def and_then_def on_store_def call_def go_def intro!: exI[of _ "map ci_key claimed"])
    next
      case (NoReceived skipped)
      with Inr out keep settled' show ?thesis by (simp add: claim_turn_batch_def and_then_def on_store_def stop_def)
    qed
  qed
qed

section \<open>Finalization\<close>

text \<open>How the reply of a turn comes about: a notice that it failed or that its result is unknown, or what the projector makes of the
  stream of events that ended with Codex reporting its status.\<close>

inductive final_reply ::
    "'spec turn_env \<Rightarrow> scope_key \<Rightarrow> int \<Rightarrow> turn_source list \<Rightarrow> turn_resolution \<Rightarrow> turn_outcome option \<Rightarrow> turn_failure_kind option \<Rightarrow>
       projected_reply option \<Rightarrow> bool"
  for te scope i sources where
  failed: "final_reply te scope i sources TurnFailedRes None (Some failure) None"
| uncertain: "final_reply te scope i sources TurnUncertain None (Some FkConnectionLost) None"
| finished: "te_start_turn te = Some (Inr turn_id) \<Longrightarrow>
    fst (stream_turn te scope i sources turn_id (te_stream te) \<lparr>st_projector = with_defaults, st_sequence = 0, st_snapshot = []\<rparr> c) =
      Go (Some (status, outcome), projector) \<Longrightarrow>
    resolution = fst (resolution_for status) \<Longrightarrow>
    final_reply te scope i sources resolution (Some outcome) (failure_of resolution) (Some (finish (te_markdown te) projector outcome))"

text \<open>The claimed turn is answered: it is resolved, its events are finished as this resolution says, and the rows the sink builds for
  its reply to the claimed messages are in the outbox. Only a completed turn without any text to show has no rows.\<close>

definition answered :: "'spec turn_env \<Rightarrow> scope_key \<Rightarrow> turn_inbound list \<Rightarrow> inbound_key list \<Rightarrow> int \<Rightarrow> turn_ctx \<Rightarrow> bool" where
  "answered te scope batch keys i c \<longleftrightarrow> (\<exists>sources resolution outcome failure reply rows t.
     sources_of batch keys sources \<and> final_reply te scope i sources resolution outcome failure reply \<and>
     rows_for te (finalization scope i sources resolution outcome failure) reply = Inr rows \<and> enqueued te rows (bs_outbox (tc_store c)) \<and>
     (if rows = [] then resolution = TurnCompleted \<and> reply \<in> {Some Empty, Some (Final [])}
      else row_by_key (bs_outbox (tc_store c)) (nb_idempotency_key (last rows)) \<noteq> None) \<and>
     turn_by_id (bs_turns (tc_store c)) i = Some t \<and> tn_state t = fst (resolution_target resolution) \<and> \<not> tn_uncertain t \<and>
     (\<forall>key\<in>set keys. \<exists>r\<in>set (bs_inbound (tc_store c)). ikey r = hex_key key \<and> ir_turn_row_id r = Some i \<and>
        ir_state r = terminal_state (fst (snd (resolution_target resolution)))))"

lemma rows_for_empty:
  assumes "rows_for te (finalization scope i sources resolution outcome failure) reply = Inr []" "sources \<noteq> []"
    "final_reply te scope i sources resolution outcome failure reply"
  shows "resolution = TurnCompleted \<and> reply \<in> {Some Empty, Some (Final [])}"
proof -
  have parts: "parts = []" if "final_part_rows json turn source n parts = Inr []" for json :: "'a json_codec" and turn source n parts
    using that by (cases parts) auto
  from assms(3,1,2) show ?thesis
    by (cases rule: final_reply.cases)
      (auto simp: rows_for_def build_finalization_rows_def build_projected_finalization_rows_def notice_rows_def terminal_notice_rows_def
        progress_notice_rows_def progress_final_rows_def finalize_card_rows_def final_rows_def last_source_def finalization_def Let_def
        split: if_splits projected_reply.splits dest: parts)
qed

text \<open>What is known when a turn's reply is stored: these events were claimed for it, and these are their messages.\<close>

definition claimed_batch :: "turn_facts \<Rightarrow> turn_inbound list \<Rightarrow> int \<Rightarrow> inbound_key list \<Rightarrow> turn_source list \<Rightarrow> bool" where
  "claimed_batch F batch i keys sources \<longleftrightarrow>
     keys \<noteq> [] \<and> sources_of batch keys sources \<and> (\<lambda>key. (hex_key key, i)) ` set keys \<subseteq> known_claims F"

lemma claimed_batch_facts [simp]:
  "claimed_batch (request_facts te thread_id cwd F) batch i keys sources = claimed_batch F batch i keys sources"
  "claimed_batch (commit_facts others F) batch i keys sources = claimed_batch F batch i keys sources"
  by (simp_all add: claimed_batch_def request_facts_def commit_facts_def)

lemma persist_attempts_run:
  assumes "persist_attempts (store_final_rows te turn reply) attempts t = (x, t')"
  shows "x \<noteq> Return (Inr ()) \<and> outbox_run te t t' \<and> (x = Go () \<longrightarrow> (\<exists>rows. rows_for te turn reply = Inr rows \<and> enqueued te rows t'))"
  using assms
proof (induction "store_final_rows te turn reply" attempts t rule: persist_attempts.induct)
  case (2 carried_out ms rest t)
  then show ?case by (auto split: if_splits sum.splits elim: store_final_rowsD)
next
  case (3 fault ms cancelled rest t)
  show ?case
  proof (cases "case fault of Some err \<Rightarrow> Inl (map_store_error err) | None \<Rightarrow> store_final_rows te turn reply ms t")
    case (Inl err)
    with 3 show ?thesis by (cases err) (auto split: if_splits)
  next
    case (Inr t1)
    then have "store_final_rows te turn reply ms t = Inr t1" by (cases fault) simp_all
    then obtain rows where "rows_for te turn reply = Inr rows" "enqueued te rows t1" "outbox_run te t t1" by (rule store_final_rowsD)
    moreover have "x = Go ()" "t' = t1" using "3.prems" Inr by simp_all
    ultimately show ?thesis by simp
  qed
qed simp

lemma persist_finalization_stores:
  "triple (turn_inv te policy F) (persist_finalization te turn reply)
     (\<lambda>_ c. turn_inv te policy F c \<and> (\<exists>rows. rows_for te turn reply = Inr rows \<and> enqueued te rows (bs_outbox (tc_store c))))
     (\<lambda>res c. turn_inv te policy F c \<and> res \<noteq> Some (Inr ()))"
proof -
  let ?store = "store_final_rows te turn reply"
  define cleanup where "cleanup = (\<lambda>t. case persist_attempts ?store (te_cleanup te) t of
              (res, t') \<Rightarrow> (if te_cleanup_expires te \<and> res = Waiting then Return (Inl SfSupervisor) else res, t'))"
  define first where "first = (\<lambda>t. case persist_attempts ?store (te_final te) t of
                (Return (Inl SfSupervisor), t') \<Rightarrow> cleanup t' | (res, t') \<Rightarrow> (res, t'))"
  let ?good = "\<lambda>f. \<forall>t x t'. f t = (x, t') \<longrightarrow> x \<noteq> Return (Inr ()) \<and> outbox_run te t t' \<and>
    (x = Go () \<longrightarrow> (\<exists>rows. rows_for te turn reply = Inr rows \<and> enqueued te rows t'))"
  have cleanup: "?good cleanup"
    using persist_attempts_run[of te turn reply "te_cleanup te"] by (auto simp: cleanup_def split: prod.splits if_splits)
  have first: "?good first"
  proof (intro allI impI)
    fix t x t'
    assume x: "first t = (x, t')"
    obtain y t1 where y: "persist_attempts ?store (te_final te) t = (y, t1)" by (cases "persist_attempts ?store (te_final te) t")
    note run = persist_attempts_run[OF y]
    show "x \<noteq> Return (Inr ()) \<and> outbox_run te t t' \<and> (x = Go () \<longrightarrow> (\<exists>rows. rows_for te turn reply = Inr rows \<and> enqueued te rows t'))"
    proof (cases "y = Return (Inl SfSupervisor)")
      case True
      with x y have "cleanup t1 = (x, t')" by (simp add: first_def)
      with cleanup run show ?thesis by (blast intro: outbox_run_trans)
    next
      case False
      with x y have "(x, t') = (y, t1)" by (auto simp: first_def split: outcome.splits sum.splits scope_failure_kind.splits)
      with run show ?thesis by simp
    qed
  qed
  have store: "triple (turn_inv te policy F) (on_outbox f)
     (\<lambda>_ c. turn_inv te policy F c \<and> (\<exists>rows. rows_for te turn reply = Inr rows \<and> enqueued te rows (bs_outbox (tc_store c))))
     (\<lambda>res c. turn_inv te policy F c \<and> res \<noteq> Some (Inr ()))" if "?good f" for f
  proof (rule tripleI)
    fix c :: turn_ctx and a c'
    assume inv: "turn_inv te policy F c" and step: "on_outbox f c = (Go a, c')"
    obtain x t' where f: "f (bs_outbox (tc_store c)) = (x, t')" by fastforce
    with step have "x = Go ()" "c' = c\<lparr>tc_store := (tc_store c)\<lparr>bs_outbox := t'\<rparr>\<rparr>" by (simp_all add: on_outbox_def)
    with that f turn_inv_outbox[OF inv] show "turn_inv te policy F c' \<and> (\<exists>rows. rows_for te turn reply = Inr rows \<and> enqueued te rows (bs_outbox (tc_store c')))"
      by auto
  next
    fix c :: turn_ctx and res c'
    assume inv: "turn_inv te policy F c" and step: "on_outbox f c = (Return res, c')"
    with that turn_inv_outbox[OF inv] show "turn_inv te policy F c' \<and> Some res \<noteq> Some (Inr ())"
      by (auto simp: on_outbox_def split: prod.splits)
  next
    fix c :: turn_ctx and c'
    assume inv: "turn_inv te policy F c" and step: "on_outbox f c = (Waiting, c')"
    with that turn_inv_outbox[OF inv] show "turn_inv te policy F c' \<and> None \<noteq> Some (Inr ())"
      by (auto simp: on_outbox_def split: prod.splits)
  qed
  have "persist_finalization te turn reply = (if te_cancelled te then on_outbox cleanup else on_outbox first)"
    unfolding persist_finalization_def Let_def first_def cleanup_def by (rule refl)
  then show ?thesis
    by (simp only:) (rule triple_if, rule store[OF cleanup], rule store[OF first])
qed

lemma resolve_done:
  assumes "resolve_turn_and_finish_inbound_batch now i turn inbound s = Inr (out, s')"
  shows "bs_outbox s' = bs_outbox s \<and> (\<exists>t. turn_by_id (bs_turns s') i = Some t \<and> tn_state t = fst (resolution_target turn) \<and> \<not> tn_uncertain t)"
proof -
  obtain target target_inbound reason where target: "resolution_target turn = (target, target_inbound, reason)" by (rule prod_cases3)
  have upd: "turn_by_id (update_turn i (resolve_turn_row now target) turns) i = map_option (resolve_turn_row now target) (turn_by_id turns i)" for turns
    by (simp add: turn_by_id_update)
  show ?thesis
    using assms unfolding resolve_turn_and_finish_inbound_batch_def target
    by (auto simp: Let_def upd split: option.splits if_splits)
qed

lemma turn_links_resolved:
  assumes "bridge_ok c s" "turn_by_id (bs_turns s) i = Some t" "tn_state t = fst (resolution_target turn)" "\<not> tn_uncertain t"
    "r \<in> set (bs_inbound s)" "ir_turn_row_id r = Some i"
  shows "ir_state r = terminal_state (fst (snd (resolution_target turn)))"
proof -
  from assms(1) have "inbound_ok c (bs_turns s) (bs_inbound s)" by (simp add: bridge_ok_def)
  from this assms(5,6) obtain t' where "turn_by_id (bs_turns s) i = Some t'" "turn_fits (ir_state r) (ir_rejection_reason r) t'" by (rule linked_turn)
  with assms(2-4) show ?thesis by (cases turn; cases "ir_state r") (auto simp: unresolved_turn_def)
qed

lemma answeredI:
  assumes inv: "turn_inv te policy F c" and claim: "claimed_batch F batch i keys sources"
    and reply: "final_reply te scope i sources resolution outcome failure reply"
    and rows: "rows_for te (finalization scope i sources resolution outcome failure) reply = Inr rows" "enqueued te rows (bs_outbox (tc_store c))"
    and turn: "turn_by_id (bs_turns (tc_store c)) i = Some t" "tn_state t = fst (resolution_target resolution)" "\<not> tn_uncertain t"
  shows "answered te scope batch keys i c"
proof -
  have src: "sources_of batch keys sources" "sources \<noteq> []" using claim by (auto simp: claimed_batch_def sources_of_def)
  have "\<exists>r\<in>set (bs_inbound (tc_store c)). ikey r = hex_key key \<and> ir_turn_row_id r = Some i \<and>
      ir_state r = terminal_state (fst (snd (resolution_target resolution)))" if "key \<in> set keys" for key
  proof -
    have "(hex_key key, i) \<in> turn_links (bs_inbound (tc_store c))"
      using that claim inv unfolding claimed_batch_def turn_inv_def by blast
    then obtain r where r: "r \<in> set (bs_inbound (tc_store c))" "ikey r = hex_key key" "ir_turn_row_id r = Some i"
      unfolding turn_links_def by force
    with turn_links_resolved[OF _ turn r(1,3)] inv show ?thesis unfolding turn_inv_def by blast
  qed
  moreover have "if rows = [] then resolution = TurnCompleted \<and> reply \<in> {Some Empty, Some (Final [])}
      else row_by_key (bs_outbox (tc_store c)) (nb_idempotency_key (last rows)) \<noteq> None"
    using rows_for_empty[OF _ src(2) reply] rows enqueued_last[OF rows(2)] by (cases "rows = []") auto
  ultimately show ?thesis unfolding answered_def using src(1) reply rows turn by blast
qed

lemma finalize_turn_answers:
  assumes "claimed_batch F batch i keys sources" "final_reply te scope i sources resolution outcome failure reply"
  shows "triple (turn_inv te policy F) (finalize_turn te (finalization scope i sources resolution outcome failure) reply inbound)
     (\<lambda>_ c. turn_inv te policy F c \<and> answered te scope batch keys i c) (\<lambda>res c. turn_inv te policy F c \<and> res \<noteq> Some (Inr ()))"
  unfolding finalize_turn_def
proof (rule triple_and_then[OF persist_finalization_stores], rule triple_and_then[OF _ triple_go])
  let ?turn = "finalization scope i sources resolution outcome failure"
  let ?job = "resolve_turn_and_finish_inbound_batch (ae_store_ms (te_actor te)) (tf_turn_row_id ?turn) (tf_resolution ?turn) inbound"
  show "triple (\<lambda>c. turn_inv te policy F c \<and> (\<exists>rows. rows_for te ?turn reply = Inr rows \<and> enqueued te rows (bs_outbox (tc_store c))))
     (on_store (te_fault te AtResolve) ?job)
     (\<lambda>_ c. turn_inv te policy F c \<and> answered te scope batch keys i c) (\<lambda>res c. turn_inv te policy F c \<and> res \<noteq> Some (Inr ()))"
  proof (rule tripleI; elim conjE exE)
    fix c a c' rows
    assume inv: "turn_inv te policy F c" and rows: "rows_for te ?turn reply = Inr rows" "enqueued te rows (bs_outbox (tc_store c))"
      and step: "on_store (te_fault te AtResolve) ?job c = (Go a, c')"
    from step obtain s' where job: "?job (tc_store c) = Inr (a, s')" and c': "c' = c\<lparr>tc_store := s'\<rparr>"
      by (auto simp: on_store_def split: sum.splits dest!: with_fault_Inr)
    have inv': "turn_inv te policy F c'" using turn_inv_job[OF inv issued_jobs(1) job] c' by simp
    moreover have "answered te scope batch keys i c'"
      using resolve_done[OF job] rows answeredI[OF inv' assms] by (auto simp: c' finalization_def)
    ultimately show "turn_inv te policy F c' \<and> answered te scope batch keys i c'" by simp
  qed (auto simp: on_store_def split: sum.splits)
qed simp

section \<open>After the claim\<close>

text \<open>Parts that do not change the state.\<close>

definition reads :: "'a turn_m \<Rightarrow> bool" where
  "reads m \<longleftrightarrow> (\<forall>c. snd (m c) = c)"

lemma reads_parts [simp]:
  "reads (go a)" "reads (stop res)" "reads (of_outcome x)" "reads (release_attachments te attachments)"
  by (auto simp: reads_def go_def stop_def of_outcome_def release_attachments_def split: sum.splits)

lemma reads_and_then: "reads m \<Longrightarrow> (\<And>a. reads (f a)) \<Longrightarrow> reads (and_then m f)"
  unfolding reads_def and_then_def by (simp add: split: prod.splits outcome.splits) (metis snd_conv)

lemma triple_reads: "reads m \<Longrightarrow> triple P m (\<lambda>_. P) (\<lambda>_. P)"
  unfolding reads_def triple_def by (auto split: prod.splits outcome.splits) (metis snd_conv)+

lemma ends_finalize_then:
  assumes "reads m" "claimed_batch F batch i keys sources" "final_reply te scope i sources resolution outcome failure reply"
  shows "ends (turn_inv te policy F) (answered te scope batch keys i)
    (and_then (finalize_turn te (finalization scope i sources resolution outcome failure) reply inbound) (\<lambda>_. m))"
  unfolding ends_def
proof (rule triple_and_then)
  let ?A = "answered te scope batch keys i"
  show "triple (turn_inv te policy F) (finalize_turn te (finalization scope i sources resolution outcome failure) reply inbound)
      (\<lambda>_ c. turn_inv te policy F c \<and> ?A c) (\<lambda>res c. turn_inv te policy F c \<and> (res = Some (Inr ()) \<longrightarrow> ?A c))"
    by (rule triple_conseq[OF finalize_turn_answers[OF assms(2,3)]]) auto
  show "triple (\<lambda>c. turn_inv te policy F c \<and> ?A c) m (\<lambda>_. turn_inv te policy F)
      (\<lambda>res c. turn_inv te policy F c \<and> (res = Some (Inr ()) \<longrightarrow> ?A c))"
    by (rule triple_conseq[OF triple_reads[OF assms(1), of "\<lambda>c. turn_inv te policy F c \<and> ?A c"]]) auto
qed

lemma uncertain_answers:
  assumes "claimed_batch F batch i keys sources"
  shows "ends (turn_inv te policy F) (answered te scope batch keys i)
    (finalize_uncertain_and_settle_attachments te scope i sources attachments turn_epoch)"
  unfolding finalize_uncertain_and_settle_attachments_def finalize_uncertain_def
  by (rule ends_finalize_then[OF _ assms final_reply.uncertain]) (auto intro!: reads_and_then)

lemma failed_answers:
  assumes "claimed_batch F batch i keys sources"
  shows "ends (turn_inv te policy F) (answered te scope batch keys i)
     (and_then (finalize_failed te scope i sources failure) (\<lambda>_. and_then (release_attachments te attachments) (\<lambda>_. stop (Inr ()))))"
  unfolding finalize_failed_def by (rule ends_finalize_then[OF _ assms final_reply.failed]) (auto intro!: reads_and_then)

lemma conclude_answers:
  assumes "claimed_batch F batch i keys sources" "te_start_turn te = Some (Inr turn_id)"
    "\<exists>c. fst (stream_turn te scope i sources turn_id (te_stream te) \<lparr>st_projector = with_defaults, st_sequence = 0, st_snapshot = []\<rparr> c) =
      Go (Some (status, outcome), projector)"
  shows "ends (turn_inv te policy F) (answered te scope batch keys i) (conclude_turn te scope i sources attachments status outcome projector)"
proof -
  from assms(3) obtain c where "fst (stream_turn te scope i sources turn_id (te_stream te)
      \<lparr>st_projector = with_defaults, st_sequence = 0, st_snapshot = []\<rparr> c) = Go (Some (status, outcome), projector)" by (elim exE)
  note reply = final_reply.finished[OF assms(2) this refl]
  show ?thesis
    unfolding conclude_turn_def Let_def
    by (rule ends_prod, rule ends_finalize_then[OF _ assms(1)]) (use reply in \<open>auto intro!: reads_and_then\<close>)
qed

lemma show_progress_keeps [ends_intros]: "ends (turn_inv te policy F) S (show_progress te scope i sources pass text' st)"
  unfolding show_progress_def Let_def
  by (cases sources; cases "sp_cancelled pass"; simp add: ends_intros; intro ends_on_outbox)
    (auto split: sum.splits option.splits if_splits intro: progress_run)

lemma stream_turn_keeps [ends_intros]: "ends (turn_inv te policy F) S (stream_turn te scope i sources turn_id passes st)"
proof (induction passes arbitrary: st)
  case Nil
  show ?case by (simp add: ends_of_outcome)
next
  case (Cons pass rest)
  show ?case
  proof (cases "sp_event pass")
    case (Some event)
    show ?thesis
    proof (cases event)
      case (OfTurn event_turn app_event)
      obtain shown p where "observe (st_projector st) app_event (sp_now pass) = (shown, p)" by fastforce
      with Some OfTurn show ?thesis by (cases shown) (auto intro!: ends_intros Cons.IH)
    qed (auto simp: Some intro!: ends_intros Cons.IH)
  qed (simp add: ends_intros)
qed

lemma follow_turn_answers:
  assumes "claimed_batch F batch i keys sources" "te_start_turn te = Some (Inr turn_id)"
  shows "ends (turn_inv te policy F) (answered te scope batch keys i) (follow_turn te scope i sources attachments turn_epoch thread_id turn_id)"
proof -
  note uncertain = uncertain_answers[OF assms(1)]
  have rest: "ends (turn_inv te policy F) (answered te scope batch keys i)
      (and_then (stream_turn te scope i sources turn_id (te_stream te) \<lparr>st_projector = with_defaults, st_sequence = 0, st_snapshot = []\<rparr>)
        (\<lambda>(completed, projector). and_then (set_active_turn None) (\<lambda>_. and_then (set_state (Finalizing i)) (\<lambda>_.
          case completed of
            None \<Rightarrow> finalize_uncertain_and_settle_attachments te scope i sources attachments turn_epoch
          | Some (status, outcome) \<Rightarrow> conclude_turn te scope i sources attachments status outcome projector))))"
    by (rule ends_and_then_result[OF stream_turn_keeps])
      (auto intro!: ends_intros uncertain conclude_answers[OF assms] split: option.split)
  show ?thesis
    unfolding follow_turn_def Let_def by (intro ends_intros uncertain rest)
qed

text \<open>Whether Codex has certainly not taken up the turn.\<close>

definition refused :: "'spec turn_env \<Rightarrow> bool" where
  "refused te \<longleftrightarrow> (case te_start_turn te of Some (Inl error) \<Rightarrow> turn_start_definitely_not_applied error | _ \<Rightarrow> False)"

definition request_end ::
    "'spec turn_env \<Rightarrow> access_policy \<Rightarrow> string \<Rightarrow> turn_inbound list \<Rightarrow> turn_facts \<Rightarrow> turn_ctx \<Rightarrow> bool" where
  "request_end te policy thread_id batch F c \<longleftrightarrow> turn_inv te policy F c \<or>
     (\<exists>cwd. approved_path te policy cwd \<and>
       turn_inv te policy ((if refused te then id else commit_facts batch) (request_facts te thread_id cwd F)) c)"

lemma ends_requested:
  assumes "ends (turn_inv te policy G) (answered te scope batch keys i) m"
    "G = (if refused te then id else commit_facts batch) (request_facts te thread_id cwd F)" "approved_path te policy cwd"
  shows "triple (turn_inv te policy G) m (\<lambda>_ c. request_end te policy thread_id batch F c)
    (\<lambda>res c. request_end te policy thread_id batch F c \<and> (res = Some (Inr ()) \<longrightarrow> answered te scope batch keys i c))"
  using assms by (intro triple_conseq[OF ends_triple[OF assms(1)]]) (auto simp: request_end_def)

lemma start_codex_turn_answers:
  assumes claim: "claimed_batch F batch i keys sources"
  shows "triple (turn_inv te policy F) (start_codex_turn te policy scope cwd print attachments turn_epoch thread_id batch i sources)
     (\<lambda>_ c. request_end te policy thread_id batch F c)
     (\<lambda>res c. request_end te policy thread_id batch F c \<and> (res = Some (Inr ()) \<longrightarrow> answered te scope batch keys i c))"
proof -
  let ?Q = "\<lambda>_ c. request_end te policy thread_id batch F c"
  let ?R = "\<lambda>res c. request_end te policy thread_id batch F c \<and> (res = Some (Inr ()) \<longrightarrow> answered te scope batch keys i c)"
  let ?failed = "\<lambda>failure. and_then (finalize_failed te scope i sources failure) (\<lambda>_. and_then (release_attachments te attachments) (\<lambda>_. stop (Inr ()) :: unit turn_m))"
  have failed: "triple (turn_inv te policy F) (?failed failure) ?Q ?R" for failure
    by (rule triple_conseq[OF ends_triple[OF failed_answers[OF claim]]]) (auto simp: request_end_def)
  show ?thesis
  proof (cases "revalidate_workspace te policy cwd print")
    case None
    with failed show ?thesis by (simp add: start_codex_turn_def Let_def)
  next
    case (Some rpc_cwd)
    note ok = revalidated_approved[OF Some]
    let ?G = "request_facts te thread_id rpc_cwd F"
    let ?rest = "case te_start_turn te of
        Some (Inr turn_id) \<Rightarrow> and_then (commit_pending_media batch) (\<lambda>_. follow_turn te scope i sources attachments turn_epoch thread_id turn_id)
      | Some (Inl error) \<Rightarrow> if turn_start_definitely_not_applied error then ?failed FkTurnStartRejected
          else and_then (commit_pending_media batch) (\<lambda>_. finalize_uncertain_and_settle_attachments te scope i sources attachments turn_epoch)
      | None \<Rightarrow> and_then (commit_pending_media batch) (\<lambda>_. finalize_uncertain_and_settle_attachments te scope i sources attachments turn_epoch)"
    have request: "triple (turn_inv te policy F) (call (CallStartTurn thread_id (te_uuid te) rpc_cwd)) (\<lambda>_. turn_inv te policy ?G) ?R"
      using ok by (auto simp: triple_def call_def turn_inv_def request_facts_def)
    have commit: "triple (turn_inv te policy ?G) (and_then (commit_pending_media batch) (\<lambda>_. m)) ?Q ?R"
      if "ends (turn_inv te policy (commit_facts batch ?G)) (answered te scope batch keys i) m" "\<not> refused te" for m
      by (rule triple_and_then[of _ _ "\<lambda>_. turn_inv te policy (commit_facts batch ?G)"], simp add: triple_def commit_pending_media_def turn_inv_def commit_facts_def)
        (rule ends_requested[OF that(1) _ ok], simp add: that(2))
    have rest: "triple (turn_inv te policy ?G) ?rest ?Q ?R"
    proof (cases "refused te")
      case True
      then obtain error where "te_start_turn te = Some (Inl error)" "turn_start_definitely_not_applied error"
        by (auto simp: refused_def split: option.splits sum.splits)
      then show ?thesis by simp (rule ends_requested[OF failed_answers _ ok], simp_all add: True claim)
    next
      case False
      have G: "claimed_batch (commit_facts batch ?G) batch i keys sources" using claim by simp
      from False commit[OF follow_turn_answers[OF G]] commit[OF uncertain_answers[OF G]] show ?thesis
        by (auto simp: refused_def split: option.splits sum.splits)
    qed
    have "triple (turn_inv te policy F) (and_then (call (CallStartTurn thread_id (te_uuid te) rpc_cwd)) (\<lambda>_. ?rest)) ?Q ?R"
      by (rule triple_and_then[OF request]) (rule rest)
    with failed Some show ?thesis by (simp add: start_codex_turn_def Let_def)
  qed
qed

section \<open>The whole turn\<close>

abbreviation eligible :: "'spec turn_env \<Rightarrow> access_policy \<Rightarrow> router_settings \<Rightarrow> turn_inbound \<Rightarrow> bool" where
  "eligible te policy settings item \<equiv> turn_rejection te policy settings item = None"

lemma filter_eligible_settles:
  "triple (turn_inv te policy F) (filter_eligible te policy settings batch)
     (\<lambda>rest c. rest = filter (eligible te policy settings) batch \<and>
        turn_inv te policy (with_settled (batch_keys (filter (\<lambda>item. \<not> eligible te policy settings item) batch)) F) c)
     (\<lambda>res c. turn_inv te policy F c \<and> res \<noteq> Some (Inr ()))"
proof (induction batch arbitrary: F)
  case Nil
  show ?case by (simp add: triple_go turn_inv_settled)
next
  case (Cons item batch)
  show ?case
  proof (cases "turn_rejection te policy settings item")
    case None
    then show ?thesis
      by simp (rule triple_and_then[OF triple_conseq[OF Cons.IH] triple_go], auto)
  next
    case (Some reason)
    let ?F = "with_settled {hex_key (ai_key (ti_inbound item))} F"
    from Some show ?thesis
      by simp (rule triple_and_then[OF reject_turn_item_settles], rule triple_conseq[OF Cons.IH[of ?F]], auto simp: turn_inv_settled)
  qed
qed

lemma set_deduplicate_from:
  "set (deduplicate_from seen batch) \<subseteq> set batch \<and>
   (\<lambda>item. ai_key (ti_inbound item)) ` set batch \<subseteq> (\<lambda>item. ai_key (ti_inbound item)) ` set (deduplicate_from seen batch) \<union> set seen"
  by (induction batch arbitrary: seen) (auto split: if_splits, (fastforce split: if_splits)+)

lemma deduplicate_batch_keys: "batch_keys (deduplicate_batch batch) = batch_keys batch"
proof -
  have "(\<lambda>item. ai_key (ti_inbound item)) ` set (deduplicate_batch batch) = (\<lambda>item. ai_key (ti_inbound item)) ` set batch"
    using set_deduplicate_from[of "[]" batch] by (auto simp: deduplicate_batch_def)
  then have "hex_key ` (\<lambda>item. ai_key (ti_inbound item)) ` set (deduplicate_batch batch) = hex_key ` (\<lambda>item. ai_key (ti_inbound item)) ` set batch" by simp
  then show ?thesis by (simp only: image_image)
qed

text \<open>How a turn ends: without a claim, or with one.\<close>

inductive turn_end ::
    "'spec turn_env \<Rightarrow> access_policy \<Rightarrow> scope_key \<Rightarrow> turn_inbound list \<Rightarrow> turn_facts \<Rightarrow> (scope_failure_kind, unit) result option \<Rightarrow> turn_ctx \<Rightarrow> bool"
  for te policy scope batch F where
  unclaimed: "turn_inv te policy F c \<Longrightarrow> (res = Some (Inr ()) \<Longrightarrow> batch_keys batch \<subseteq> settled (bs_inbound (tc_store c))) \<Longrightarrow>
     turn_end te policy scope batch F res c"
| claimed: "keys \<noteq> [] \<Longrightarrow> set keys \<subseteq> (\<lambda>item. ai_key (ti_inbound item)) ` set batch \<Longrightarrow>
     request_end te policy thread_id batch (claim_facts te scope thread_id batch i keys F) c \<Longrightarrow>
     (res = Some (Inr ()) \<Longrightarrow> answered te scope batch keys i c) \<Longrightarrow> turn_end te policy scope batch F res c"

lemma run_eligible_ends:
  "triple (turn_inv te policy F) (run_eligible te policy settings scope adopted mapping batch)
     (\<lambda>_. turn_end te policy scope batch F None) (turn_end te policy scope batch F)"
proof -
  let ?R = "turn_end te policy scope batch F"
  have pre: "triple (turn_inv te policy F) m (\<lambda>_. turn_inv te policy F) ?R" if "settles te policy F batch m" for m :: "'z turn_m"
    by (rule triple_conseq[OF ends_triple[OF that]]) (auto intro: unclaimed)
  have start: "triple (turn_inv te policy F) (and_then (claim_turn_batch te scope thread_id batch) (\<lambda>(i, sources).
      start_codex_turn te policy scope cwd print attachments epoch thread_id batch i sources)) (\<lambda>_. ?R None) ?R" for thread_id cwd print attachments epoch
  proof (rule triple_and_then)
    show "triple (turn_inv te policy F) (claim_turn_batch te scope thread_id batch)
       (\<lambda>(i, sources) c. \<exists>keys. keys \<noteq> [] \<and> sources_of batch keys sources \<and>
          turn_inv te policy (claim_facts te scope thread_id batch i keys F) c) ?R"
      by (rule triple_conseq[OF claim_turn_batch_claims]) (auto intro: unclaimed)
    show "triple ((\<lambda>(i, sources) c. \<exists>keys. keys \<noteq> [] \<and> sources_of batch keys sources \<and>
          turn_inv te policy (claim_facts te scope thread_id batch i keys F) c) a)
        ((\<lambda>(i, sources). start_codex_turn te policy scope cwd print attachments epoch thread_id batch i sources) a) (\<lambda>_. ?R None) ?R" for a
    proof (cases a)
      case (Pair i sources)
      show ?thesis unfolding Pair prod.case triple_def
      proof (intro allI impI, elim exE conjE)
        fix c keys
        assume keys: "keys \<noteq> []" and src: "sources_of batch keys sources"
          and inv: "turn_inv te policy (claim_facts te scope thread_id batch i keys F) c"
        have sub: "set keys \<subseteq> (\<lambda>item. ai_key (ti_inbound item)) ` set batch"
          using src unfolding sources_of_def by (induction rule: list_all2_induct) auto
        have "claimed_batch (claim_facts te scope thread_id batch i keys F) batch i keys sources"
          using keys src by (simp add: claimed_batch_def claim_facts_def)
        note answers = tripleD[OF start_codex_turn_answers[OF this] inv, of scope cwd print attachments epoch thread_id]
        show "case start_codex_turn te policy scope cwd print attachments epoch thread_id batch i sources c of
            (Go a, c') \<Rightarrow> ?R None c' | (Return res, c') \<Rightarrow> ?R (Some res) c' | (Waiting, c') \<Rightarrow> ?R None c'"
          using answers by (auto split: prod.splits outcome.splits intro: claimed[OF keys sub])
      qed
    qed
  qed
  show ?thesis
    unfolding run_eligible_def
  proof (intro triple_if)
    show "triple (turn_inv te policy F) (stop (Inr ())) (\<lambda>_. ?R None) ?R" if "batch = []" using that by (auto intro!: triple_stop unclaimed)
  next
    show "triple (turn_inv te policy F) (and_then (prepare_workspace te policy settings scope) (\<lambda>workspace. case workspace of
          Inl _ \<Rightarrow> and_then (reject_all te Policy batch) (\<lambda>_. stop (Inr ()))
        | Inr (cwd, print, policy_changed) \<Rightarrow> and_then (set_state StartingTurn) (\<lambda>_.
            and_then (if adopted then adopted_thread te mapping policy_changed batch
                      else own_thread te policy scope cwd print policy_changed batch) (\<lambda>(epoch, thread_id).
              and_then (subscribe_thread te adopted epoch thread_id batch) (\<lambda>_.
                and_then (claim_turn_batch te scope thread_id batch) (\<lambda>(i, sources).
                  start_codex_turn te policy scope cwd print (te_attachments te \<and> \<not> adopted) epoch thread_id batch i sources)))))) (\<lambda>_. ?R None) ?R"
      (is "triple _ (and_then _ ?rest) _ _")
    proof (rule triple_and_then[OF pre[OF prepare_workspace_keeps]])
      show "triple (turn_inv te policy F) (?rest workspace) (\<lambda>_. ?R None) ?R" for workspace
      proof (cases workspace)
        case (Inl u)
        have reject: "settles te policy F batch (and_then (reject_all te Policy batch) (\<lambda>_. stop (Inr ()) :: unit turn_m))"
          by (rule ends_reject_all) (simp add: turn_inv_settled)
        show ?thesis unfolding Inl sum.case by (rule triple_conseq[OF pre[OF reject]]) (auto intro: unclaimed)
      next
        case (Inr ready)
        obtain cwd print policy_changed where ready: "ready = (cwd, print, policy_changed)" by (cases ready) auto
        have "settles te policy F batch (if adopted then adopted_thread te mapping policy_changed batch
            else own_thread te policy scope cwd print policy_changed batch)" by (intro ends_intros)
        then show ?thesis
          unfolding Inr ready sum.case prod.case
          by (intro triple_and_then[OF pre[OF ends_shown(1)]] triple_and_then[OF pre]) 
            (auto intro!: triple_and_then[OF pre[OF subscribe_thread_settles]] start)
      qed
    qed
  qed
qed

text \<open>The facts a turn starts from, after its ineligible events are settled.\<close>

definition start_facts :: "'spec turn_env \<Rightarrow> access_policy \<Rightarrow> router_settings \<Rightarrow> turn_inbound list \<Rightarrow> turn_ctx \<Rightarrow> turn_facts" where
  "start_facts te policy settings batch c =
     \<lparr>known_settled = batch_keys (filter (\<lambda>item. \<not> eligible te policy settings item) batch), known_turns = {},
      known_effects = filter is_turn_effect (tc_effects c), known_committed = tc_committed c, known_claims = {}\<rparr>"

lemma acquire_permit_fails: "acquire_permit adopted terminal wakes \<noteq> Return (Inr ())"
proof (induction adopted terminal wakes rule: acquire_permit.induct)
  case (1 adopted terminal wakes)
  then show ?case
    by (subst acquire_permit.simps) (auto simp del: acquire_permit.simps split: list.split turn_wake.split option.split bool.split)
qed

text \<open>The turn as a whole: it ends before the eligible events are known, with the whole batch settled if it ends well, or it ends as above.\<close>

lemma process_scope_batch_ends:
  assumes inv: "inbound_codec_ok (ae_inbound (te_actor te))" "bridge_ok (ae_inbound (te_actor te)) (tc_store c)" "threads_wf (tc_threads c)"
      "list_all (approved_effect te policy) (tc_effects c)"
    and run: "process_scope_batch te policy settings scope batch c = (x, c')"
  defines "B \<equiv> deduplicate_batch batch"
  defines "F \<equiv> start_facts te policy settings B c"
  defines "res \<equiv> (case x of Go u \<Rightarrow> None | Return r \<Rightarrow> Some r | Waiting \<Rightarrow> None)"
  shows "turn_inv te policy (F\<lparr>known_settled := {}\<rparr>) c' \<and> (res = Some (Inr ()) \<longrightarrow> batch_keys B \<subseteq> settled (bs_inbound (tc_store c'))) \<or>
    turn_end te policy scope (filter (eligible te policy settings) B) F res c'"
proof -
  let ?F0 = "F\<lparr>known_settled := {}\<rparr>"
  let ?E = "\<lambda>res c'. turn_inv te policy ?F0 c' \<and> (res = Some (Inr ()) \<longrightarrow> batch_keys B \<subseteq> settled (bs_inbound (tc_store c'))) \<or>
    turn_end te policy scope (filter (eligible te policy settings) B) F res c'"
  have F: "with_settled (batch_keys (filter (\<lambda>item. \<not> eligible te policy settings item) B)) ?F0 = F"
    by (simp add: F_def start_facts_def with_settled_def)
  have pre: "triple (turn_inv te policy ?F0) m (\<lambda>_. turn_inv te policy ?F0) ?E" if "settles te policy ?F0 B m" for m :: "'z turn_m"
    by (rule triple_conseq[OF ends_triple[OF that]]) auto
  have "triple (turn_inv te policy ?F0) (process_scope_batch te policy settings scope batch) (\<lambda>_. ?E None) ?E"
    unfolding process_scope_batch_def Let_def B_def[symmetric]
  proof (rule triple_and_then[OF pre[OF adoption_gate_settles]], clarify, rule triple_and_then[OF pre[OF ends_of_outcome[OF acquire_permit_fails]]], rule triple_if)
    fix adopted mapping
    show "triple (turn_inv te policy ?F0) (reject_terminal_batch te B) (\<lambda>_. ?E None) ?E"
      by (rule triple_conseq[OF pre[OF settles_reject_terminal]]) auto
    have filtered: "triple (turn_inv te policy ?F0) (filter_eligible te policy settings B)
        (\<lambda>rest c. rest = filter (eligible te policy settings) B \<and> turn_inv te policy F c) ?E"
      by (rule triple_conseq[OF filter_eligible_settles[of te policy ?F0 settings B, unfolded F]]) auto
    have ran: "triple (\<lambda>c. rest = filter (eligible te policy settings) B \<and> turn_inv te policy F c)
        (run_eligible te policy settings scope adopted mapping rest) (\<lambda>_. ?E None) ?E" for rest
    proof (cases "rest = filter (eligible te policy settings) B")
      case True
      show ?thesis by (rule triple_conseq[OF run_eligible_ends[of te policy F settings scope adopted mapping rest]]) (auto simp: True)
    qed (simp add: triple_def)
    show "triple (turn_inv te policy ?F0) (and_then (filter_eligible te policy settings B) (run_eligible te policy settings scope adopted mapping)) (\<lambda>_. ?E None) ?E"
      by (rule triple_and_then[OF filtered ran])
  qed
  moreover have "turn_inv te policy ?F0 c" using inv by (simp add: turn_inv_def F_def start_facts_def)
  ultimately show ?thesis using run unfolding res_def by (cases x) (auto dest: tripleD)
qed

end
