(* ===== verification/Turn_Outcome.thy ===== *)
theory Turn_Outcome
  imports Turn_Safety
begin

text \<open>
  The guarantees of a whole turn, and a concrete turn that they apply to: a registered message is claimed, Codex
  refuses the turn, and the notice is stored before the turn is resolved.
\<close>

section \<open>How a turn can end\<close>

inductive_cases turn_endE: "turn_end te policy scope batch F res c"

text \<open>A turn starts from well-formed tables, with nothing requested of Codex yet.\<close>

definition fresh_turn :: "'spec turn_env \<Rightarrow> turn_ctx \<Rightarrow> bool" where
  "fresh_turn te c \<longleftrightarrow> inbound_codec_ok (ae_inbound (te_actor te)) \<and> bridge_ok (ae_inbound (te_actor te)) (tc_store c) \<and>
     threads_wf (tc_threads c) \<and> tc_effects c = []"

abbreviation chosen :: "'spec turn_env \<Rightarrow> access_policy \<Rightarrow> router_settings \<Rightarrow> turn_inbound list \<Rightarrow> turn_inbound list" where
  "chosen te policy settings batch \<equiv> filter (eligible te policy settings) (deduplicate_batch batch)"

lemma batch_keys_split: "batch_keys (filter P xs) \<union> batch_keys (filter (\<lambda>x. \<not> P x) xs) = batch_keys xs"
  by (induction xs) auto

lemma turn_cases:
  assumes "fresh_turn te c" "process_scope_batch te policy settings scope batch c = (x, c')"
  obtains (unclaimed) F where "turn_inv te policy F c'" "known_effects F = []" "known_committed F = tc_committed c"
      "x = Return (Inr ()) \<Longrightarrow> batch_keys batch \<subseteq> settled (bs_inbound (tc_store c'))"
  | (claimed) i keys thread_id F where "keys \<noteq> []" "set keys \<subseteq> (\<lambda>item. ai_key (ti_inbound item)) ` set (chosen te policy settings batch)"
      "request_end te policy thread_id (chosen te policy settings batch) (claim_facts te scope thread_id (chosen te policy settings batch) i keys F) c'"
      "known_effects F = []" "known_committed F = tc_committed c"
      "known_settled F = batch_keys (filter (\<lambda>item. \<not> eligible te policy settings item) (deduplicate_batch batch))"
      "x = Return (Inr ()) \<Longrightarrow> answered te scope (chosen te policy settings batch) keys i c'"
proof -
  let ?B = "deduplicate_batch batch" and ?res = "case x of Go u \<Rightarrow> None | Return r \<Rightarrow> Some r | Waiting \<Rightarrow> None"
  let ?F = "start_facts te policy settings ?B c"
  have success: "x = Return (Inr ()) \<Longrightarrow> ?res = Some (Inr ())" by simp
  have keys: "batch_keys batch = batch_keys (chosen te policy settings batch) \<union> batch_keys (filter (\<lambda>item. \<not> eligible te policy settings item) ?B)"
    by (simp only: batch_keys_split deduplicate_batch_keys)
  from assms(1) have "turn_inv te policy (?F\<lparr>known_settled := {}\<rparr>) c' \<and> (?res = Some (Inr ()) \<longrightarrow> batch_keys ?B \<subseteq> settled (bs_inbound (tc_store c'))) \<or>
      turn_end te policy scope (chosen te policy settings batch) ?F ?res c'"
    by (intro process_scope_batch_ends assms(2)) (simp_all add: fresh_turn_def)
  then consider (early) "turn_inv te policy (?F\<lparr>known_settled := {}\<rparr>) c'" "?res = Some (Inr ()) \<longrightarrow> batch_keys ?B \<subseteq> settled (bs_inbound (tc_store c'))"
    | (late) "turn_end te policy scope (chosen te policy settings batch) ?F ?res c'" by blast
  then show thesis
  proof cases
    case early
    with assms(1) success show ?thesis
      by (intro unclaimed[OF early(1)]) (auto simp: start_facts_def fresh_turn_def deduplicate_batch_keys)
  next
    case late
    then show ?thesis
    proof (rule turn_endE)
      assume inv: "turn_inv te policy ?F c'" and done': "?res = Some (Inr ()) \<Longrightarrow> batch_keys (chosen te policy settings batch) \<subseteq> settled (bs_inbound (tc_store c'))"
      have "batch_keys batch \<subseteq> settled (bs_inbound (tc_store c'))" if "x = Return (Inr ())"
        using done'[OF success[OF that]] inv unfolding keys by (auto simp: turn_inv_def start_facts_def)
      with assms(1) show ?thesis by (intro unclaimed[OF inv]) (auto simp: start_facts_def fresh_turn_def)
    next
      fix ks thread_id i
      assume claim: "ks \<noteq> []" "set ks \<subseteq> (\<lambda>item. ai_key (ti_inbound item)) ` set (chosen te policy settings batch)"
          "request_end te policy thread_id (chosen te policy settings batch) (claim_facts te scope thread_id (chosen te policy settings batch) i ks ?F) c'"
          "?res = Some (Inr ()) \<Longrightarrow> answered te scope (chosen te policy settings batch) ks i c'"
      show ?thesis
        by (rule claimed[OF claim(1-3)]) (use assms(1) success claim(4) in \<open>auto simp: start_facts_def fresh_turn_def\<close>)
    qed
  qed
qed

lemma request_endE:
  assumes "request_end te policy thread_id batch F c"
  obtains (unsent) "turn_inv te policy F c"
  | (sent) cwd where "approved_path te policy cwd" "turn_inv te policy ((if refused te then id else commit_facts batch) (request_facts te thread_id cwd F)) c"
  using assms unfolding request_end_def by blast

lemma facts_fields [simp]:
  "known_settled (request_facts te thread_id cwd F) = known_settled F" "known_turns (request_facts te thread_id cwd F) = known_turns F"
  "known_effects (request_facts te thread_id cwd F) = known_effects F @ [CallStartTurn thread_id (te_uuid te) cwd]"
  "known_committed (request_facts te thread_id cwd F) = known_committed F"
  "known_settled (commit_facts batch F) = known_settled F" "known_turns (commit_facts batch F) = known_turns F"
  "known_effects (commit_facts batch F) = known_effects F" "known_committed (commit_facts batch F) = known_committed F @ pending_keys batch"
  "known_settled (claim_facts te scope thread_id batch i keys F) = known_settled F \<union> batch_keys batch"
  "known_turns (claim_facts te scope thread_id batch i keys F) = insert (i, scope_to_string scope, te_uuid te, Some thread_id) (known_turns F)"
  "known_effects (claim_facts te scope thread_id batch i keys F) = known_effects F @ [ClaimedTurn i keys]"
  "known_committed (claim_facts te scope thread_id batch i keys F) = known_committed F"
  by (simp_all add: request_facts_def commit_facts_def claim_facts_def)

lemma turn_invD:
  assumes "turn_inv te policy F c"
  shows "bridge_ok (ae_inbound (te_actor te)) (tc_store c)" "threads_wf (tc_threads c)" "list_all (approved_effect te policy) (tc_effects c)"
    "known_settled F \<subseteq> settled (bs_inbound (tc_store c))" "known_turns F \<subseteq> turn_idents (bs_turns (tc_store c))"
    "filter is_turn_effect (tc_effects c) = known_effects F" "tc_committed c = known_committed F"
  using assms by (simp_all add: turn_inv_def)

lemma is_turn_effect_mem: "is_turn_effect x \<Longrightarrow> x \<in> set effects \<longleftrightarrow> x \<in> set (filter is_turn_effect effects)"
  by simp

section \<open>What a turn guarantees\<close>

text \<open>C7: Whatever Codex answers, whichever store calls fail and whenever the actor is cancelled, a turn leaves the tables well
  formed, and every directory it names to Codex (to resume a thread, to start one, to start the turn) is one that the access policy accepts
  and that is its own canonical form.\<close>

theorem turn_keeps_store_and_workspace:
  assumes "fresh_turn te c" "process_scope_batch te policy settings scope batch c = (x, c')"
  shows "bridge_ok (ae_inbound (te_actor te)) (tc_store c') \<and> threads_wf (tc_threads c') \<and> list_all (approved_effect te policy) (tc_effects c')"
  using assms
proof (cases rule: turn_cases)
  case (unclaimed F)
  then show ?thesis by (simp add: turn_invD)
next
  case (claimed i keys thread_id F)
  then show ?thesis using turn_invD by (auto elim!: request_endE)
qed

text \<open>C5: Codex is asked for at most one turn, and only for a batch that is claimed: the claim comes first, the turn is recorded
  with the message id of the request and the thread it names, and the claimed events are events of the batch that pass the access policy and the limits.\<close>

theorem codex_turn_is_claimed_first:
  assumes "fresh_turn te c" "process_scope_batch te policy settings scope batch c = (x, c')"
  shows "filter is_turn_effect (tc_effects c') = [] \<or>
    (\<exists>i keys thread_id. (i, scope_to_string scope, te_uuid te, Some thread_id) \<in> turn_idents (bs_turns (tc_store c')) \<and> keys \<noteq> [] \<and>
       set keys \<subseteq> (\<lambda>item. ai_key (ti_inbound item)) ` {item \<in> set batch. turn_rejection te policy settings item = None} \<and>
       (filter is_turn_effect (tc_effects c') = [ClaimedTurn i keys] \<or>
        (\<exists>cwd. filter is_turn_effect (tc_effects c') = [ClaimedTurn i keys, CallStartTurn thread_id (te_uuid te) cwd])))"
  using assms
proof (cases rule: turn_cases)
  case (unclaimed F)
  then show ?thesis by (simp add: turn_invD(6))
next
  case (claimed i keys thread_id F)
  have sub: "set (chosen te policy settings batch) \<subseteq> {item \<in> set batch. turn_rejection te policy settings item = None}"
    using set_deduplicate_from[of "[]" batch] by (auto simp: deduplicate_batch_def)
  have eligible: "set keys \<subseteq> (\<lambda>item. ai_key (ti_inbound item)) ` {item \<in> set batch. turn_rejection te policy settings item = None}"
    by (rule order_trans[OF claimed(2) image_mono[OF sub]])
  from claimed(3) show ?thesis
  proof (cases rule: request_endE)
    case unsent
    note inv = turn_invD(5,6)[OF unsent]
    show ?thesis using inv claimed(1,4) eligible by (intro disjI2 exI[of _ i] exI[of _ keys] exI[of _ thread_id]) auto
  next
    case (sent cwd)
    note inv = turn_invD(5,6)[OF sent(2)]
    show ?thesis using inv claimed(1,4) eligible
      by (intro disjI2 exI[of _ i] exI[of _ keys] exI[of _ thread_id]) (auto split: if_splits)
  qed
qed

text \<open>C6: When a turn ends well, nothing of its batch is left over. Every event of the batch has left the received state: it was
  rejected, finished, or an earlier turn had already claimed it. A turn that was claimed is answered: its events are finished with the state
  that belongs to its resolution, the turn is resolved, and the rows the sink builds, for the messages of exactly these events, were enqueued,
  the last of them being in the outbox. They are the notice of a failed or uncertain turn, or what the projector makes of the events Codex
  streamed for this turn; only a completed turn without text to show has none.\<close>

theorem finished_batch_is_settled_and_answered:
  assumes "fresh_turn te c" "process_scope_batch te policy settings scope batch c = (Return (Inr ()), c')"
  shows "batch_keys batch \<subseteq> settled (bs_inbound (tc_store c')) \<and>
    (\<forall>i keys. ClaimedTurn i keys \<in> set (tc_effects c') \<longrightarrow> keys \<noteq> [] \<and> answered te scope (chosen te policy settings batch) keys i c')"
  using assms
proof (cases rule: turn_cases)
  case (unclaimed F)
  have "filter is_turn_effect (tc_effects c') = []" using turn_invD(6)[OF unclaimed(1)] unclaimed(2) by simp
  with unclaimed(4) show ?thesis by (fastforce simp: filter_empty_conv)
next
  case (claimed i keys thread_id F)
  have all: "batch_keys batch = batch_keys (chosen te policy settings batch) \<union> known_settled F"
    by (simp only: claimed(6) batch_keys_split deduplicate_batch_keys)
  from claimed(3) obtain G where G: "turn_inv te policy G c'" "known_settled G = known_settled F \<union> batch_keys (chosen te policy settings batch)"
      "filter (\<lambda>e. \<exists>j ks. e = ClaimedTurn j ks) (known_effects G) = [ClaimedTurn i keys]"
    by (cases rule: request_endE) (auto simp: claimed(4) split: if_splits)
  have "j = i \<and> ks = keys" if "ClaimedTurn j ks \<in> set (tc_effects c')" for j ks
  proof -
    from that have "ClaimedTurn j ks \<in> set (filter (\<lambda>e. \<exists>j ks. e = ClaimedTurn j ks) (filter is_turn_effect (tc_effects c')))" by simp
    with G(3) show ?thesis unfolding turn_invD(6)[OF G(1)] by simp
  qed
  with claimed(1,7) turn_invD(4)[OF G(1)] show ?thesis unfolding all G(2) by auto
qed


section \<open>A concrete turn\<close>

definition demo_policy :: access_policy where
  "demo_policy = demo_access\<lparr>ap_allow_roots := [''/srv'']\<rparr>"

definition demo_ready :: supervisor_access where
  "demo_ready = \<lparr>su_epoch = 1, su_client = True, su_terminal = False\<rparr>"

definition demo_turn_env :: "string turn_env" where
  "demo_turn_env =
     \<lparr>te_actor = re_actor demo_env, te_markdown = plain_md, te_fs = demo_fs, te_sha256 = (\<lambda>_. []), te_platform = ''linux'', te_to_str = Some,
      te_fault = (\<lambda>_. None), te_saga = None, te_access = demo_ready, te_permit_wakes = [Permit True], te_client_access = demo_ready,
      te_client_wakes = [], te_late_terminal = False, te_loss_access = demo_ready, te_loss_wakes = [], te_route = None,
      te_cancelled_at = (\<lambda>_. False), te_resume = Inl ClientCapacity, te_start_thread = Inr ''t'', te_subscribe = Some (Inr ()),
      te_uuid = ''bridge-1'', te_attachments = False, te_assembled = True, te_start_turn = Some (Inl ClientCapacity), te_lease = True,
      te_stream = [], te_cancelled = False, te_final = [FinalTry None 3 False], te_cleanup = [], te_cleanup_expires = True,
      te_end_access = demo_ready, te_end_wakes = [], te_release = Inr ()\<rparr>"

definition demo_item :: turn_inbound where
  "demo_item = \<lparr>ti_inbound = \<lparr>ai_key = demo_key, ai_queued = demo_queued_event, ai_mailbox_permit = 300\<rparr>, ti_pending = None\<rparr>"

definition demo_ctx :: turn_ctx where
  "demo_ctx = \<lparr>tc_store = \<lparr>bs_turns = [], bs_inbound = [demo_row], bs_outbox = []\<rparr>, tc_threads = [],
     tc_scopes = [\<lparr>sc_scope_key = ''im:c'', sc_cwd = ''/srv/app'', sc_policy_fingerprint = '''', sc_updated_ms = 0\<rparr>],
     tc_state = WaitingPermit, tc_active = None, tc_committed = [], tc_effects = []\<rparr>"

abbreviation demo_run :: "unit outcome \<times> turn_ctx" where
  "demo_run \<equiv> process_scope_batch demo_turn_env demo_policy demo_settings (ScopeChat ''c'') [demo_item] demo_ctx"

lemma demo_fresh: "fresh_turn demo_turn_env demo_ctx"
proof -
  have "bridge_ok demo_codec \<lparr>bs_turns = [], bs_inbound = [demo_row], bs_outbox = []\<rparr>"
    using run_bridge_ok[OF demo_codec_ok demo_ops_normalized, of "\<lambda>_. None"] by (simp add: demo_store_run)
  then show ?thesis
    by (simp add: fresh_turn_def demo_ctx_def demo_turn_env_def demo_env_def demo_codec_ok threads_wf_def thread_keys_ok_def active_threads_def)
qed

lemma demo_workspace: "validate_workspace demo_fs demo_policy ''/srv/app'' = Inr ''/srv/app''"
  by (simp add: validate_workspace_def demo_fs_def fs_is_dir_def classify_hard_deny_def path_defs demo_roots_def demo_policy_def demo_access_def is_absolute_def)

lemma demo_fingerprint: "turn_fingerprint demo_turn_env demo_policy ''/srv/app'' = Inr ''''"
  using demo_workspace by (simp add: turn_fingerprint_def fingerprint_def demo_turn_env_def fingerprint_v1_def)

lemma demo_eligible: "turn_rejection demo_turn_env demo_policy demo_settings demo_item = None"
proof -
  have "decide demo_policy demo_event = Allow"
    by (simp add: decide_def mention_gate_def is_owner_def demo_policy_def demo_access_def demo_event_def ustr_def utf8_def utf8_char_def
        char_of_eq_iff take_bit_eq_mod)
  moreover have "\<not> is_stale 0 demo_event (rs_message_max_age demo_settings)"
    by (simp add: is_stale_def demo_event_def sat_sub_i64_def sat_i64_def i64_max_def i64_min_def Let_def)
  ultimately show ?thesis
    by (simp add: turn_rejection_def demo_item_def event_of_def demo_queued_event_def demo_turn_env_def demo_env_def)
      (simp add: demo_event_def TURN_BATCH_TEXT_BYTE_BUDGET_def)
qed

lemma demo_gate: "adoption_gate demo_turn_env (ScopeChat ''c'') [demo_item] demo_ctx = (Go (False, None), demo_ctx)"
  by (simp add: adoption_gate_def and_then_def on_threads_def with_fault_def active_thread_def run_sized_def request_bytes_sum limit_defs u64_max_def
      active_of_def demo_turn_env_def demo_ctx_def go_def)

lemma demo_prepared:
  "prepare_workspace demo_turn_env demo_policy demo_settings (ScopeChat ''c'') demo_ctx = (Go (Inr (''/srv/app'', '''', False)), demo_ctx)"
proof -
  have "scope_row_read (ScopeChat ''c'') (tc_scopes demo_ctx) = Inr (Some \<lparr>sc_scope_key = ''im:c'', sc_cwd = ''/srv/app'', sc_policy_fingerprint = '''', sc_updated_ms = 0\<rparr>, tc_scopes demo_ctx)"
    by (simp add: scope_row_read_def Let_def run_sized_def request_bytes_sum limit_defs u64_max_def demo_ctx_def)
  moreover have "te_fs demo_turn_env = demo_fs" "te_fault demo_turn_env = (\<lambda>_. None)" by (simp_all add: demo_turn_env_def)
  ultimately show ?thesis
    using demo_workspace demo_fingerprint by (simp add: prepare_workspace_def and_then_def on_scopes_def with_fault_def go_def)
qed

definition demo_thread :: thread_row where
  "demo_thread = \<lparr>th_scope_key = ''im:c'', th_codex_thread_id = ''t'', th_status = ThreadActive, th_created_ms = 0, th_archived_ms = None,
     th_context_tools_version = 0, th_origin = BridgeCreated, th_adoption_generation = None\<rparr>"

definition demo_threaded :: turn_ctx where
  "demo_threaded = demo_ctx\<lparr>tc_state := StartingTurn, tc_threads := [demo_thread], tc_effects := [CallStartThread ''/srv/app'']\<rparr>"

lemma demo_revalidated: "revalidate_workspace demo_turn_env demo_policy ''/srv/app'' '''' = Some ''/srv/app''"
proof -
  have "te_fs demo_turn_env = demo_fs" by (simp add: demo_turn_env_def)
  then show ?thesis using demo_workspace demo_fingerprint by (simp add: revalidate_workspace_def)
qed

lemma demo_own_thread:
  "own_thread demo_turn_env demo_policy (ScopeChat ''c'') ''/srv/app'' '''' False [demo_item] (demo_ctx\<lparr>tc_state := StartingTurn\<rparr>) = (Go (1, ''t''), demo_threaded)"
proof -
  have none: "active_thread (ScopeChat ''c'') [] = Inr (None, [])"
    by (simp add: active_thread_def Let_def run_sized_def request_bytes_sum limit_defs u64_max_def active_of_def)
  have recorded: "record_active_thread_with_context_tools 0 (ScopeChat ''c'') ''t'' 0 [] = Inr ((), [demo_thread])"
    by (simp add: record_active_thread_with_context_tools_def Let_def run_sized_def request_bytes_sum limit_defs u64_max_def thread_of_def
        active_conflict_def demo_thread_def)
  have te: "te_fault demo_turn_env = (\<lambda>_. None)" "te_cancelled_at demo_turn_env = (\<lambda>_. False)" "te_start_thread demo_turn_env = Inr ''t''"
      "ae_store_ms (te_actor demo_turn_env) = 0" "wait_for_client (te_client_access demo_turn_env) (te_client_wakes demo_turn_env) = Go (Some 1)"
    by (simp_all add: demo_turn_env_def demo_env_def demo_ready_def)
  have c: "tc_threads demo_ctx = []" "tc_effects demo_ctx = []" by (simp_all add: demo_ctx_def)
  have "ensure_thread demo_turn_env demo_policy (ScopeChat ''c'') ''/srv/app'' '''' False (demo_ctx\<lparr>tc_state := StartingTurn\<rparr>) = (Go (Inr ''t''), demo_threaded)"
    by (simp add: ensure_thread_def start_new_thread_def store_policy_def unless_cancelled_def and_then_def on_threads_def with_fault_def call_def go_def
        te c none recorded demo_revalidated demo_threaded_def)
  then show ?thesis by (simp add: own_thread_def unless_cancelled_def and_then_def of_outcome_def go_def te del: wait_for_client.simps)
qed

definition demo_claim :: new_turn_row where
  "demo_claim = \<lparr>nt_scope_key = ''im:c'', nt_client_message_id = ''bridge-1'', nt_codex_thread_id = Some ''t'', nt_state = StStarting\<rparr>"

definition demo_claimed_turn :: turn_row where
  "demo_claimed_turn = \<lparr>tn_id = 1, tn_scope_key = ''im:c'', tn_client_message_id = ''bridge-1'', tn_codex_thread_id = Some ''t'',
     tn_codex_turn_id = None, tn_state = StStarting, tn_uncertain = False, tn_created_ms = 0, tn_updated_ms = 0, tn_inbound_count = 1\<rparr>"

definition demo_claimed_store :: bridge_store where
  "demo_claimed_store = \<lparr>bs_turns = [demo_claimed_turn], bs_inbound = [accept_row 0 1 demo_row], bs_outbox = []\<rparr>"

lemma demo_begin_live:
  "\<exists>n. begin_turn_and_claim_inbound_live demo_codec 0 demo_claim [(demo_key, demo_event)] (tc_store demo_ctx) =
     Inr (Started 1 [\<lparr>ci_key = demo_key, ci_retained = \<lparr>ri_event = demo_event, ri_retained_bytes = n\<rparr>\<rparr>] [], demo_claimed_store)"
proof -
  have ok: "bridge_ok demo_codec (tc_store demo_ctx)" using demo_fresh by (simp add: fresh_turn_def demo_turn_env_def demo_env_def)
  have store: "bs_turns (tc_store demo_ctx) = []" "bs_inbound (tc_store demo_ctx) = [demo_row]" "bs_outbox (tc_store demo_ctx) = []" by (simp_all add: demo_ctx_def)
  have "\<exists>n. claim_retained demo_codec demo_row (Some demo_event) = Inr \<lparr>ri_event = demo_event, ri_retained_bytes = n\<rparr>"
    using encoded_row_replays(1)[OF demo_codec_ok demo_event_encodes, of demo_row] live_claim_replayed[of demo_event]
    by (simp add: claim_retained_def) (simp add: demo_event_def demo_row_def demo_payload_def)
  then obtain n where retained: "claim_retained demo_codec demo_row (Some demo_event) = Inr \<lparr>ri_event = demo_event, ri_retained_bytes = n\<rparr>" ..
  have valid: "validate_stored_inbound_row demo_codec (tc_store demo_ctx) demo_row = Inr ()" by (rule row_validates[OF ok]) (simp add: store)
  have key: "same_key (as_hex (ik_tenant demo_key)) (ik_event_id demo_key) demo_row" "ir_scope_key demo_row = nt_scope_key demo_claim"
      "ir_state demo_row = EvReceived" "ir_turn_row_id demo_row = None"
    by (simp_all add: same_key_def demo_key_def demo_row_def demo_claim_def del: as_hex.simps)
  then have collect: "collect_claims demo_codec (tc_store demo_ctx) (nt_scope_key demo_claim) [(demo_key, Some demo_event)] =
      Inr ([\<lparr>ci_key = demo_key, ci_retained = \<lparr>ri_event = demo_event, ri_retained_bytes = n\<rparr>\<rparr>], [])"
    using valid retained by (simp add: read_inbound_row_def store)
  have shape: "v2_shape_ok [demo_claimed_turn] (accept_row 0 1 demo_row)" "v12_effect_ok (accept_row 0 1 demo_row)"
    by (simp_all add: v2_shape_ok_def v12_effect_ok_def payload_shape_ok_def accept_row_def demo_row_def demo_claimed_turn_def demo_payload_def del: as_hex.simps)
  have mark: "mark_accepted [demo_claimed_turn] 0 1 [demo_key] [demo_row] = Inr [accept_row 0 1 demo_row]"
    using key shape by (simp add: update_one_inbound_def update_inbound_def)
  have turn: "insert_turn 0 demo_claim (Suc 0) ''recording an inbound turn'' [] = Inr (1, [demo_claimed_turn])"
    by (simp add: insert_turn_def next_turn_id_def demo_claim_def demo_claimed_turn_def)
  have capacity: "ensure_new_turn_capacity [] demo_claim = Inr ()"
    by (simp add: ensure_new_turn_capacity_def Let_def request_bytes_sum sat_add_u64_def u64_max_def limit_defs demo_claim_def opt_len_def)
  have event: "ev_event_id demo_event = ik_event_id demo_key" "scope_to_string (ev_scope demo_event) = nt_scope_key demo_claim"
      "inbound_event_variable_bytes demo_event \<le> 100"
    by (simp_all add: inbound_event_variable_bytes_def demo_event_def demo_key_def demo_claim_def sat_add_u64_def opt_len_def u64_max_def)
  have claims: "validate_claims (nt_scope_key demo_claim) [] 0 0 [(demo_key, Some demo_event)] = Inr (65, inbound_event_variable_bytes demo_event)"
    using event by (simp add: demo_event_valid validate_id_def sat_add_u64_def u64_max_def inbound_limit_defs Let_def demo_key_def del: as_hex.simps)
  have run: "run_sized (sat_add_u64 (sat_add_u64 65 (inbound_event_variable_bytes demo_event)) (request_bytes [nt_scope_key demo_claim,
      nt_client_message_id demo_claim, str_or_empty (nt_codex_thread_id demo_claim)])) j s = j s" for j :: "(bridge_store, begin_turn_outcome) job" and s
    using event(3) by (simp add: run_sized_def sat_add_u64_def request_bytes_sum u64_max_def limit_defs demo_claim_def opt_len_def)
  have limits: "nt_state demo_claim = StStarting" "1 \<le> STORE_INBOUND_BEGIN_MAX_KEYS" "65 \<le> STORE_INBOUND_BEGIN_MAX_KEY_BYTES"
    by (simp_all add: demo_claim_def inbound_limit_defs)
  have "begin_turn_and_claim_inbound_inner demo_codec 0 demo_claim [(demo_key, Some demo_event)] (tc_store demo_ctx) =
     Inr (Started 1 [\<lparr>ci_key = demo_key, ci_retained = \<lparr>ri_event = demo_event, ri_retained_bytes = n\<rparr>\<rparr>] [], demo_claimed_store)"
    using limits by (simp add: begin_turn_and_claim_inbound_inner_def claims run collect capacity turn mark store demo_claimed_store_def
        del: collect_claims.simps mark_accepted.simps validate_claims.simps)
  then show ?thesis by (simp add: begin_turn_and_claim_inbound_live_def)
qed

definition demo_claimed_ctx :: turn_ctx where
  "demo_claimed_ctx = demo_threaded\<lparr>tc_store := demo_claimed_store,
     tc_effects := [CallStartThread ''/srv/app'', CallSubscribe ''t'', ClaimedTurn 1 [demo_key]]\<rparr>"

definition demo_source :: turn_source where
  "demo_source = \<lparr>src_event_id = ''e'', src_message_id = ''m'', src_chat_id = ''c'', src_thread_id = None\<rparr>"

lemma demo_event_of: "event_of demo_item = demo_event" "ai_key (ti_inbound demo_item) = demo_key"
  by (simp_all add: demo_item_def event_of_def demo_queued_event_def)

lemma demo_claims:
  "claim_turn_batch demo_turn_env (ScopeChat ''c'') ''t'' [demo_item] (demo_threaded\<lparr>tc_effects := [CallStartThread ''/srv/app'', CallSubscribe ''t'']\<rparr>) =
     (Go (1, [demo_source]), demo_claimed_ctx)"
proof -
  from demo_begin_live obtain n where begin': "begin_turn_and_claim_inbound_live demo_codec 0 demo_claim [(demo_key, demo_event)] (tc_store demo_ctx) =
     Inr (Started 1 [\<lparr>ci_key = demo_key, ci_retained = \<lparr>ri_event = demo_event, ri_retained_bytes = n\<rparr>\<rparr>] [], demo_claimed_store)" ..
  have te: "te_fault demo_turn_env = (\<lambda>_. None)" "ae_store_ms (te_actor demo_turn_env) = 0" "ae_inbound (te_actor demo_turn_env) = demo_codec"
      "\<lparr>nt_scope_key = scope_to_string (ScopeChat ''c''), nt_client_message_id = te_uuid demo_turn_env, nt_codex_thread_id = Some ''t'', nt_state = StStarting\<rparr> = demo_claim"
      "tc_store demo_threaded = tc_store demo_ctx"
    by (simp_all add: demo_turn_env_def demo_env_def demo_claim_def demo_threaded_def)
  have source: "source_of \<lparr>ci_key = demo_key, ci_retained = \<lparr>ri_event = demo_event, ri_retained_bytes = n\<rparr>\<rparr> = demo_source"
    by (simp add: source_of_def demo_source_def) (simp add: demo_event_def)
  show ?thesis
    unfolding claim_turn_batch_def and_then_def on_store_def te(1-4) with_fault_def
    by (simp add: demo_event_of te(5) begin' source call_def go_def demo_claimed_ctx_def)
qed

lemma demo_final_rows:
  obtains rows t out where "rows_for demo_turn_env (finalization (ScopeChat ''c'') 1 [demo_source] TurnFailedRes None (Some FkTurnStartRejected)) None = Inr rows"
    "enqueue_outbox_batch (\<lambda>_. None) 3 rows [] = Inr (out, t)"
proof -
  let ?turn = "finalization (ScopeChat ''c'') 1 [demo_source] TurnFailedRes None (Some FkTurnStartRejected)"
  let ?op = "ReplyText ''m'' None (utf8 (notice_for ?turn))"
  have "length (the (jc_to_string tagged_codec (payload_of_operation tagged_codec ?op))) \<le> STORE_OUTBOX_PAYLOAD_MAX_BYTES"
    by (simp add: notice_for_def finalization_def utf8_def utf8_char_def tagged_codec_def limit_defs OUTBOX_PAYLOAD_VERSION_def)
  then obtain json where json: "encode_or_invariant tagged_codec ?op = Inr json" using tagged_encodes[of ?op] by auto
  have "length json \<le> 1000"
    using json by (auto simp: encode_or_invariant_def encode_def notice_for_def finalization_def utf8_def utf8_char_def tagged_codec_def limit_defs OUTBOX_PAYLOAD_VERSION_def split: if_splits)
  have one: "length (int_to_string 1) = 1" by code_simp
  define row where "row = new_row (int_to_string 1 @ '':notice'') ''im:c'' ''notice'' json"
  have rows: "rows_for demo_turn_env ?turn None = Inr [row]"
    using json by (simp add: rows_for_def build_finalization_rows_def notice_rows_def last_source_def encode_text_reply_def demo_turn_env_def demo_env_def row_def)
      (simp add: finalization_def demo_source_def)
  have "\<exists>out t. enqueue_outbox_batch (\<lambda>_. None) 3 [row] [] = Inr (out, t)"
    using \<open>length json \<le> 1000\<close> one
    by (simp add: enqueue_outbox_batch_def validate_outbox_payload_def enqueue_one_def row_by_key_def enforce_total_cap_def total_outbox_count_bytes_def
        rows_bytes_def run_sized_def new_row_request_bytes_def request_bytes_sum sat_add_u64_def u64_max_def limit_defs Let_def row_def new_row_def)
  with rows that show thesis by blast
qed

lemma demo_finalized:
  assumes "c = demo_claimed_ctx\<lparr>tc_effects := effects\<rparr>"
  shows "\<exists>c'. finalize_failed demo_turn_env (ScopeChat ''c'') 1 [demo_source] FkTurnStartRejected c = (Go (), c') \<and> tc_effects c' = effects"
proof -
  let ?turn = "finalization (ScopeChat ''c'') 1 [demo_source] TurnFailedRes None (Some FkTurnStartRejected)"
  obtain rows t out where rows: "rows_for demo_turn_env ?turn None = Inr rows" "enqueue_outbox_batch (\<lambda>_. None) 3 rows [] = Inr (out, t)"
    by (rule demo_final_rows)
  have te: "te_fault demo_turn_env = (\<lambda>_. None)" "ae_store_ms (te_actor demo_turn_env) = 0" "ae_anchor (te_actor demo_turn_env) = (\<lambda>_. None)"
      "te_cancelled demo_turn_env = False" "te_final demo_turn_env = [FinalTry None 3 False]"
    by (simp_all add: demo_turn_env_def demo_env_def)
  have store: "bs_outbox (tc_store c) = []" by (simp add: assms demo_claimed_ctx_def demo_claimed_store_def)
  let ?s = "(tc_store c)\<lparr>bs_outbox := t\<rparr>"
  have "store_final_rows demo_turn_env ?turn None 3 [] = Inr t"
    using rows by (simp add: store_final_rows_def rows_for_def finalize_def enqueue_finalization_def te)
  then have persist: "persist_finalization demo_turn_env ?turn None c = (Go (), c\<lparr>tc_store := ?s\<rparr>)"
    unfolding persist_finalization_def Let_def by (simp add: on_outbox_def te store)
  have "bridge_ok demo_codec demo_claimed_store"
    using demo_begin_live demo_fresh begin_turn_ok[of demo_codec "tc_store demo_ctx"]
    by (auto simp: begin_turn_and_claim_inbound_live_def fresh_turn_def demo_turn_env_def demo_env_def)
  moreover have c: "tc_store c = demo_claimed_store" by (simp add: assms demo_claimed_ctx_def)
  ultimately have ok: "bridge_ok demo_codec ?s"
    using enqueue_outbox_batch_wf[OF _ rows(2)] by (simp add: bridge_ok_def demo_claimed_store_def)
  have "\<exists>out s'. resolve_turn_and_finish_inbound_batch 0 1 TurnFailedRes TermRejected ?s = Inr (out, s')"
    using resolve_live_turn[OF ok, of 1 demo_claimed_turn TurnFailedRes StFailed TermRejected "Some ''turn_failed''" 0]
    by (simp add: c) (simp add: demo_claimed_store_def demo_claimed_turn_def turn_by_id_def resolution_legal_def)
  then obtain out s' where "resolve_turn_and_finish_inbound_batch 0 1 TurnFailedRes TermRejected ?s = Inr (out, s')" by blast
  moreover have "tf_turn_row_id ?turn = 1" "tf_resolution ?turn = TurnFailedRes" by (simp_all add: finalization_def)
  ultimately have "finalize_failed demo_turn_env (ScopeChat ''c'') 1 [demo_source] FkTurnStartRejected c = (Go (), c\<lparr>tc_store := s'\<rparr>)"
    by (simp add: finalize_failed_def finalize_turn_def and_then_def persist on_store_def with_fault_def te go_def)
  then show ?thesis by (simp add: assms)
qed

lemma and_then_Go: "m c = (Go a, c') \<Longrightarrow> and_then m f c = f a c'"
  by (simp add: and_then_def)

lemma demo_turn_run:
  obtains c' where "demo_run = (Return (Inr ()), c')"
    "tc_effects c' = [CallStartThread ''/srv/app'', CallSubscribe ''t'', ClaimedTurn 1 [demo_key], CallStartTurn ''t'' ''bridge-1'' ''/srv/app'']"
proof -
  let ?effects = "[CallStartThread ''/srv/app'', CallSubscribe ''t'', ClaimedTurn 1 [demo_key], CallStartTurn ''t'' ''bridge-1'' ''/srv/app'']"
  have te: "te_assembled demo_turn_env" "te_start_turn demo_turn_env = Some (Inl ClientCapacity)" "te_uuid demo_turn_env = ''bridge-1''"
      "te_attachments demo_turn_env = False" "te_subscribe demo_turn_env = Some (Inr ())"
      "acquire_permit False (su_terminal (te_access demo_turn_env)) (te_permit_wakes demo_turn_env) = Go True"
    by (simp_all add: demo_turn_env_def demo_ready_def)
  obtain c' where final: "finalize_failed demo_turn_env (ScopeChat ''c'') 1 [demo_source] FkTurnStartRejected (demo_claimed_ctx\<lparr>tc_effects := ?effects\<rparr>) = (Go (), c')"
      and effects: "tc_effects c' = ?effects" using demo_finalized[OF refl, of ?effects] by blast
  have claimed: "tc_effects demo_claimed_ctx = [CallStartThread ''/srv/app'', CallSubscribe ''t'', ClaimedTurn 1 [demo_key]]" by (simp add: demo_claimed_ctx_def)
  have start: "start_codex_turn demo_turn_env demo_policy (ScopeChat ''c'') ''/srv/app'' '''' False 1 ''t'' [demo_item] 1 [demo_source] demo_claimed_ctx = (Return (Inr ()), c')"
    using final by (simp add: start_codex_turn_def Let_def te demo_revalidated and_then_def call_def claimed release_attachments_def go_def stop_def)
  have subscribe: "subscribe_thread demo_turn_env False 1 ''t'' [demo_item] demo_threaded =
      (Go (), demo_threaded\<lparr>tc_effects := [CallStartThread ''/srv/app'', CallSubscribe ''t'']\<rparr>)"
    by (simp add: subscribe_thread_def te and_then_def call_def go_def demo_threaded_def)
  have shown: "set_state StartingTurn demo_ctx = (Go (), demo_ctx\<lparr>tc_state := StartingTurn\<rparr>)" by (simp add: set_state_def)
  have "run_eligible demo_turn_env demo_policy demo_settings (ScopeChat ''c'') False None [demo_item] demo_ctx = (Return (Inr ()), c')"
    by (simp add: run_eligible_def and_then_Go demo_prepared shown demo_own_thread subscribe demo_claims start te del: One_nat_def)
  then have "demo_run = (Return (Inr ()), c')"
    by (simp add: process_scope_batch_def Let_def deduplicate_batch_def and_then_def demo_gate of_outcome_def te demo_eligible go_def
        del: acquire_permit.simps)
  then show thesis using effects by (rule that)
qed

theorem turn_keeps_store_and_workspace_witness:
  "list_all (approved_effect demo_turn_env demo_policy) (tc_effects (snd demo_run)) \<and> CallStartTurn ''t'' ''bridge-1'' ''/srv/app'' \<in> set (tc_effects (snd demo_run))"
proof (rule demo_turn_run)
  fix c'
  assume run: "demo_run = (Return (Inr ()), c')" and effects: "tc_effects c' = [CallStartThread ''/srv/app'', CallSubscribe ''t'', ClaimedTurn 1 [demo_key],
    CallStartTurn ''t'' ''bridge-1'' ''/srv/app'']"
  show ?thesis using turn_keeps_store_and_workspace[OF demo_fresh run] by (simp add: run effects del: approved_effect.simps)
qed

theorem codex_turn_is_claimed_first_witness:
  "filter is_turn_effect (tc_effects (snd demo_run)) = [ClaimedTurn 1 [demo_key], CallStartTurn ''t'' ''bridge-1'' ''/srv/app''] \<and>
   (1, ''im:c'', ''bridge-1'', Some ''t'') \<in> turn_idents (bs_turns (tc_store (snd demo_run)))"
proof (rule demo_turn_run)
  fix c'
  assume run: "demo_run = (Return (Inr ()), c')" and effects: "tc_effects c' = [CallStartThread ''/srv/app'', CallSubscribe ''t'', ClaimedTurn 1 [demo_key],
    CallStartTurn ''t'' ''bridge-1'' ''/srv/app'']"
  have "te_uuid demo_turn_env = ''bridge-1''" by (simp add: demo_turn_env_def)
  then show ?thesis using codex_turn_is_claimed_first[OF demo_fresh run] by (auto simp: run effects)
qed

theorem finished_batch_is_settled_and_answered_witness:
  "hex_key demo_key \<in> settled (bs_inbound (tc_store (snd demo_run))) \<and> answered demo_turn_env (ScopeChat ''c'') (chosen demo_turn_env demo_policy demo_settings [demo_item]) [demo_key] 1 (snd demo_run)"
proof (rule demo_turn_run)
  fix c'
  assume run: "demo_run = (Return (Inr ()), c')" and effects: "tc_effects c' = [CallStartThread ''/srv/app'', CallSubscribe ''t'', ClaimedTurn 1 [demo_key],
    CallStartTurn ''t'' ''bridge-1'' ''/srv/app'']"
  show ?thesis using finished_batch_is_settled_and_answered[OF demo_fresh run] by (simp add: run effects demo_event_of)
qed


end
