(* ===== verification/Adoption_Outcome.thy ===== *)
theory Adoption_Outcome
  imports Adoption_Safety Turn_Outcome
begin

text \<open>
  Whole runs of the adoption saga together with the scope, thread and turn operations around it: what an adopted thread can rely on,
  how a saga that a crash left open is closed, and which turns the fence of \<open>Turn_Run\<close> lets through.
\<close>

section \<open>Runs\<close>

text \<open>The turns of a scope change by other jobs of the store; \<open>AoTurns\<close> is any such change.\<close>

datatype adoption_op =
    AoScope int scope_key "string option" string
  | AoThread thread_op
  | AoTurns turn_table
  | AoReserve int scope_key string
  | AoCommit int thread_adoption_saga "string option" string
  | AoFail int thread_adoption_saga
  | AoBegin int thread_adoption_saga
  | AoFinish int thread_adoption_saga thread_adoption_release_result
  | AoFence int thread_adoption_saga
  | AoStartup int

fun apply_adoption_op :: "adoption_op \<Rightarrow> adoption_tables \<Rightarrow> adoption_tables" where
  "apply_adoption_op (AoScope now scope cwd fp) s = s\<lparr>at_scopes := after (upsert_scope now scope cwd fp) (at_scopes s)\<rparr>"
| "apply_adoption_op (AoThread op) s = s\<lparr>at_threads := apply_thread_op op (at_threads s)\<rparr>"
| "apply_adoption_op (AoTurns t) s = s\<lparr>at_turns := t\<rparr>"
| "apply_adoption_op (AoReserve now scope thread_id) s = after (reserve_thread_adoption now scope thread_id) s"
| "apply_adoption_op (AoCommit now res cwd fp) s = after (commit_thread_adoption now res cwd fp) s"
| "apply_adoption_op (AoFail now res) s = after (finish_thread_adoption_acquisition_failure now res) s"
| "apply_adoption_op (AoBegin now res) s = after (begin_thread_adoption_release now res) s"
| "apply_adoption_op (AoFinish now res outcome) s = after (finish_thread_adoption_release now res outcome) s"
| "apply_adoption_op (AoFence now res) s = after (fence_thread_adoption now res) s"
| "apply_adoption_op (AoStartup now) s = after (fence_thread_adoptions_on_startup now) s"

definition empty_adoption :: adoption_tables where
  "empty_adoption = \<lparr>at_scopes = [], at_threads = [], at_turns = [], at_sagas = []\<rparr>"

lemma empty_adoption_wf: "adoption_wf empty_adoption"
  by (simp add: adoption_wf_def empty_adoption_def threads_wf_def thread_keys_ok_def active_threads_def live_sagas_def adopted_in_def)

lemma apply_adoption_op_wf:
  assumes "adoption_wf s"
  shows "adoption_wf (apply_adoption_op op s)"
proof (cases op)
  case (AoScope now scope cwd fp)
  with upsert_scope_wf [OF assms] show ?thesis by simp
next
  case (AoThread top)
  then show ?thesis
    using assms thread_op_adopted [OF adoption_wf_parts(1,2) [OF assms], of top] adoption_wf_parts(1) [OF assms] apply_thread_op_wf
    by (simp add: threads_change_wf)
next
  case (AoTurns t)
  with assms show ?thesis by (simp add: adoption_wf_def)
qed (auto simp: after_def assms split: sum.splits dest: reserve_wf [OF assms] commit_wf [OF assms] finish_failure_wf [OF assms]
      begin_release_wf [OF assms] finish_release_wf [OF assms] fence_wf [OF assms] startup_fence_wf [OF assms])

interpretation adoption_run: invariant_steps apply_adoption_op adoption_wf
  by unfold_locales (rule apply_adoption_op_wf)

lemmas adoption_run_wf = adoption_run.run_inv [OF empty_adoption_wf]

section \<open>What a step does to the mappings and the tokens\<close>

lemma set_saga_threads [simp]: "at_threads (set_saga P st oc now s) = at_threads s" "at_turns (set_saga P st oc now s) = at_turns s"
  "at_scopes (set_saga P st oc now s) = at_scopes s"
  by (simp_all add: set_saga_def)

lemma with_exact_saga_keeps:
  assumes "\<And>key thread_id g r a u. body key thread_id g r s = Inr (a, u) \<Longrightarrow> f u = f s"
  shows "f (after (with_exact_saga res body) s) = f s"
  using assms by (auto simp: after_def with_exact_saga_def Let_def split: sum.splits dest!: run_sized_Inr)

text \<open>What the transitions of a saga change besides its row: nothing, but for the mapping that a confirmed release retires.\<close>

lemma token_ops_keep:
  assumes "\<And>P st oc now s. f (set_saga P st oc now s) = f s"
  shows "f (after (finish_thread_adoption_acquisition_failure now res) s) = f s"
    "f (after (begin_thread_adoption_release now res) s) = f s"
    "f (after (fence_thread_adoption now res) s) = f s"
    "f (after (finish_thread_adoption_release now res ReleaseUnconfirmed) s) = f s"
  unfolding finish_thread_adoption_acquisition_failure_def begin_thread_adoption_release_def fence_thread_adoption_def
    finish_thread_adoption_release_def Let_def
  by (rule with_exact_saga_keeps; auto simp: assms split: if_splits)+

lemma reserve_threads: "at_threads (after (reserve_thread_adoption now scope thread_id) s) = at_threads s"
  by (auto simp: after_def reserve_thread_adoption_def write_reservation_def Let_def split: sum.splits if_splits dest!: run_sized_Inr)

lemma startup_threads: "at_threads (after (fence_thread_adoptions_on_startup now) s) = at_threads s"
  by (auto simp: fence_thread_adoptions_on_startup_def after_def sql_update_def Let_def)

text \<open>Only a confirmed release takes an adopted mapping away.\<close>

lemma adopted_mono:
  assumes "adoption_wf s" "\<And>now res. op \<noteq> AoFinish now res ReleaseConfirmed"
  shows "adopted_in (at_threads s) \<subseteq> adopted_in (at_threads (apply_adoption_op op s))"
proof (cases op)
  case (AoThread top)
  then show ?thesis using thread_op_adopted [OF adoption_wf_parts(1,2) [OF assms(1)], of top] by simp
next
  case (AoCommit now res cwd fp)
  then show ?thesis
    by (auto simp: after_def split: sum.splits elim: commit_thread_adoptionD [OF assms(1)])
next
  case (AoFinish now res outcome)
  with assms(2) have "outcome = ReleaseUnconfirmed" by (cases outcome) auto
  with AoFinish show ?thesis by (simp add: token_ops_keep [of at_threads])
qed (auto simp: reserve_threads token_ops_keep [of at_threads] startup_threads)

text \<open>The generation of a scope: zero before its first reservation.\<close>

definition saga_generation :: "adoption_tables \<Rightarrow> string \<Rightarrow> nat" where
  "saga_generation s key = (case List.find (\<lambda>r. ta_scope_key r = key) (at_sagas s) of None \<Rightarrow> 0 | Some r \<Rightarrow> ta_generation r)"

lemma find_map_key: "(\<And>r. key (f r) = key r) \<Longrightarrow> List.find (\<lambda>r. key r = k) (map f t) = map_option f (List.find (\<lambda>r. key r = k) t)"
  by (induction t) auto

lemma find_in_append: "List.find P (xs @ ys) = (case List.find P xs of None \<Rightarrow> List.find P ys | Some x \<Rightarrow> Some x)"
  by (induction xs) auto

lemma saga_generation_map:
  assumes "at_sagas s' = map f (at_sagas s)" "\<And>r. ta_scope_key (f r) = ta_scope_key r" "\<And>r. ta_generation (f r) = ta_generation r"
  shows "saga_generation s' key = saga_generation s key"
  using assms(2,3) by (simp add: saga_generation_def assms(1) find_map_key [of ta_scope_key] option.case_eq_if option.map_sel)

lemma set_saga_generation [simp]: "saga_generation (set_saga P st oc now s) key = saga_generation s key"
  by (rule saga_generation_map [of _ "\<lambda>r. if P r then advance_saga st oc now r else r"])
    (simp_all add: set_saga_def sql_update_def advance_saga_def)

lemma retire_sagas: "retire_adopted_mapping now key thread_id g s = Inr u \<Longrightarrow> at_sagas u = at_sagas s"
  by (auto simp: retire_adopted_mapping_def split: prod.splits if_splits)

lemma own_saga_generation: "own_saga now key thread_id g s = Inr u \<Longrightarrow> saga_generation u k = saga_generation s k"
  by (rule saga_generation_map [of _ "\<lambda>r. if exact_saga_row key thread_id g r \<and> ta_state r = Acquiring
        then r\<lparr>ta_state := Owned, ta_updated_ms := now\<rparr> else r"])
    (auto simp: own_saga_def sql_update_def split: if_splits)

lemma saga_generation_cong: "at_sagas s' = at_sagas s \<Longrightarrow> saga_generation s' key = saga_generation s key"
  by (simp add: saga_generation_def)

lemma saga_generation_parts: "saga_generation (s\<lparr>at_scopes := x\<rparr>) key = saga_generation s key"
  "saga_generation (s\<lparr>at_threads := y\<rparr>) key = saga_generation s key" "saga_generation (s\<lparr>at_turns := z\<rparr>) key = saga_generation s key"
  by (simp_all add: saga_generation_def)

lemma commit_generation: "saga_generation (after (commit_thread_adoption now res cwd fp) s) key = saga_generation s key"
proof (cases "commit_thread_adoption now res cwd fp s")
  case (Inr x)
  then obtain s1 s2 s3 g where u: "update_adopted_workspace now (ta_scope_key res) (the cwd) fp s = Inr s1"
      "retire_current_mapping now (ta_scope_key res) s1 = Inr s2"
      "own_saga now (ta_scope_key res) (ta_codex_thread_id res) g s2 = Inr s3"
      "map_adopted_thread now (ta_scope_key res) (ta_codex_thread_id res) g s3 = Inr x"
    by (auto simp: commit_thread_adoption_def Let_def split: option.splits dest!: run_sized_Inr)
  have "at_sagas s1 = at_sagas s" using u(1) by (auto simp: update_adopted_workspace_def split: prod.splits if_splits)
  moreover have "at_sagas s2 = at_sagas s1" using u(2) by (auto simp: retire_current_mapping_def split: option.splits if_splits)
  moreover have "at_sagas (snd x) = at_sagas s3" using u(4) by (auto simp: map_adopted_thread_def split: option.splits if_splits)
  ultimately show ?thesis
    using Inr own_saga_generation [OF u(3), of key] by (cases x) (simp add: after_def saga_generation_def)
qed (simp add: after_def)

lemma reserve_generation:
  assumes "adoption_wf s" "reserve_thread_adoption now scope thread_id s = Inr (row, s')"
  shows "saga_generation s' key = (if key = scope_to_string scope then saga_generation s key + 1 else saga_generation s key)"
proof -
  let ?k = "scope_to_string scope"
  from assms(2) obtain previous g where
      prev: "read_saga_by_scope s ?k = Inr previous" "next_adoption_generation previous = Inr g"
    and avail: "require_scope_available s ?k = Inr ()"
    and row: "ta_scope_key row = ?k" "ta_generation row = g"
    and s': "write_reservation previous row s = Inr s'"
    by (auto simp: reserve_thread_adoption_def Let_def split: if_splits dest!: run_sized_Inr)
  have previous: "previous = List.find (\<lambda>r. ta_scope_key r = ?k) (at_sagas s)" using prev(1) by (simp add: read_saga_by_scope_wf [OF assms(1)])
  have g: "g = saga_generation s ?k + 1"
    using prev(2) by (auto simp: saga_generation_def previous [symmetric] next_adoption_generation_def split: option.splits if_splits)
  show ?thesis
  proof (cases previous)
    case None
    then show ?thesis
      using s' row g previous by (auto simp: write_reservation_def saga_generation_def find_in_append split: if_splits option.splits)
  next
    case (Some r)
    have "ta_scope_key x = ?k \<Longrightarrow> ta_state x = Terminal" if "x \<in> set (at_sagas s)" for x
      using require_scope_availableD(2) [OF assms(1) avail that] .
    then have "map (\<lambda>x. if ta_scope_key x = ?k \<and> ta_state x = Terminal then row else x) (at_sagas s) =
        map (\<lambda>x. if ta_scope_key x = ?k then row else x) (at_sagas s)" by auto
    then have "at_sagas s' = map (\<lambda>x. if ta_scope_key x = ?k then row else x) (at_sagas s)"
      using s' Some row(1) by (auto simp: write_reservation_def sql_update_def split: if_splits)
    moreover have "List.find (\<lambda>x. ta_scope_key x = key) (map (\<lambda>x. if ta_scope_key x = ?k then row else x) (at_sagas s)) =
        map_option (\<lambda>x. if ta_scope_key x = ?k then row else x) (List.find (\<lambda>x. ta_scope_key x = key) (at_sagas s))"
      by (rule find_map_key) (simp add: row(1))
    ultimately have found: "List.find (\<lambda>x. ta_scope_key x = key) (at_sagas s') =
        map_option (\<lambda>x. if ta_scope_key x = ?k then row else x) (List.find (\<lambda>x. ta_scope_key x = key) (at_sagas s))" by simp
    show ?thesis
    proof (cases "key = ?k")
      case True
      from Some previous have "ta_scope_key r = ?k" by (auto dest: find_SomeD)
      then have "saga_generation s' key = g" using found Some previous True row(2) by (simp add: saga_generation_def)
      with g True show ?thesis by simp
    next
      case False
      have "map_option (\<lambda>x. if ta_scope_key x = ?k then row else x) (List.find (\<lambda>x. ta_scope_key x = key) (at_sagas s)) =
          List.find (\<lambda>x. ta_scope_key x = key) (at_sagas s)"
        using False by (cases "List.find (\<lambda>x. ta_scope_key x = key) (at_sagas s)") (auto dest: find_SomeD)
      with found False show ?thesis by (simp add: saga_generation_def)
    qed
  qed
qed

lemma reserve_row_generation:
  assumes "adoption_wf s" "reserve_thread_adoption now scope thread_id s = Inr (row, s')"
  shows "ta_generation row = saga_generation s (scope_to_string scope) + 1"
proof -
  let ?k = "scope_to_string scope"
  from assms(2) obtain previous g where
      prev: "read_saga_by_scope s ?k = Inr previous" "next_adoption_generation previous = Inr g" and row: "ta_generation row = g"
    by (auto simp: reserve_thread_adoption_def Let_def split: if_splits dest!: run_sized_Inr)
  have "previous = List.find (\<lambda>r. ta_scope_key r = ?k) (at_sagas s)" using prev(1) by (simp add: read_saga_by_scope_wf [OF assms(1)])
  with prev(2) row show ?thesis
    by (auto simp: saga_generation_def next_adoption_generation_def split: option.splits if_splits)
qed

lemma generation_mono:
  assumes "adoption_wf s"
  shows "saga_generation s key \<le> saga_generation (apply_adoption_op op s) key"
proof (cases op)
  case (AoReserve now scope thread_id)
  then show ?thesis
    using reserve_generation [OF assms, of now scope thread_id] by (auto simp: after_def split: sum.splits)
next
  case (AoFinish now res outcome)
  have "saga_generation (after (finish_thread_adoption_release now res outcome) s) key = saga_generation s key"
    unfolding finish_thread_adoption_release_def Let_def
    by (rule with_exact_saga_keeps) (auto simp: saga_generation_cong [OF retire_sagas] split: thread_adoption_release_result.splits)
  with AoFinish show ?thesis by simp
next
  case (AoStartup now)
  have "saga_generation (after (fence_thread_adoptions_on_startup now) s) key = saga_generation s key"
    using saga_generation_map [of _ "\<lambda>r. if ta_state r \<in> {Acquiring, Owned, Releasing, ReleaseFailed} then advance_saga RecoveryRequired None now r else r" s]
    by (auto simp: after_def fence_thread_adoptions_on_startup_def sql_update_def advance_saga_def)
  with AoStartup show ?thesis by simp
qed (simp_all add: commit_generation token_ops_keep [of "\<lambda>s. saga_generation s key"] saga_generation_parts)

lemma generation_run_mono: "adoption_wf s \<Longrightarrow> saga_generation s key \<le> saga_generation (fold apply_adoption_op ops s) key"
proof (induction ops arbitrary: s)
  case (Cons op ops)
  from generation_mono [OF Cons.prems] have "saga_generation s key \<le> saga_generation (apply_adoption_op op s) key" .
  also have "\<dots> \<le> saga_generation (fold apply_adoption_op ops (apply_adoption_op op s)) key"
    by (rule Cons.IH) (rule apply_adoption_op_wf [OF Cons.prems])
  finally show ?case by simp
qed simp

section \<open>Closing an open saga\<close>

lemma with_exact_saga_ok:
  assumes "adoption_wf s" "r \<in> set (at_sagas s)" "length (ta_scope_key r) + length (ta_codex_thread_id r) \<le> STORE_REQUEST_MAX_BYTES"
  shows "with_exact_saga r body s = body (ta_scope_key r) (ta_codex_thread_id r) (int (ta_generation r)) r s"
proof -
  have "int (ta_generation r) \<le> i64_max" using adoption_wf_row(1) [OF assms(1,2)] by (simp add: saga_row_ok_def)
  moreover have "require_exact_saga s (ta_scope_key r) (ta_codex_thread_id r) (ta_generation r) = Inr r"
    using assms(2) by (simp add: require_exact_saga_wf [OF assms(1)])
  ultimately show ?thesis
    using assms(3) by (simp add: with_exact_saga_def generation_i64_def run_sized_def request_bytes_sum u64_max_def limit_defs)
qed

lemma set_saga_member: "r \<in> set (at_sagas s) \<Longrightarrow> P r \<Longrightarrow> advance_saga st oc now r \<in> set (at_sagas (set_saga P st oc now s))"
  by (force simp: set_saga_def sql_update_def)

text \<open>
  Recovery of a saga that is not terminal: it is fenced, and then a committed mapping is released and an uncommitted reservation ended.
\<close>

definition close_adoption :: "int \<Rightarrow> thread_adoption_saga \<Rightarrow> (adoption_tables, thread_adoption_saga) job" where
  "close_adoption now r s =
     result_bind (fence_thread_adoption now r s) (\<lambda>(r, s).
       if owned_mapping_exists s (ta_scope_key r) (ta_codex_thread_id r) (int (ta_generation r))
       then result_bind (begin_thread_adoption_release now r s) (\<lambda>(r, s). finish_thread_adoption_release now r ReleaseConfirmed s)
       else finish_thread_adoption_acquisition_failure now r s)"

text \<open>One saga that may be closed: its row is there, no turn of the scope is live and the request is not too large.\<close>

definition closable :: "thread_adoption_saga \<Rightarrow> adoption_tables \<Rightarrow> bool" where
  "closable r s \<longleftrightarrow> adoption_wf s \<and> r \<in> set (at_sagas s) \<and> \<not> list_ex (\<lambda>x. tn_scope_key x = ta_scope_key r \<and> blocks_adoption x) (at_turns s) \<and>
     length (ta_scope_key r) + length (ta_codex_thread_id r) \<le> STORE_REQUEST_MAX_BYTES"

lemma advance_saga_sel [simp]: "ta_scope_key (advance_saga st oc now r) = ta_scope_key r"
  "ta_codex_thread_id (advance_saga st oc now r) = ta_codex_thread_id r" "ta_generation (advance_saga st oc now r) = ta_generation r"
  "ta_state (advance_saga st oc now r) = st" "adoption_join m (advance_saga st oc now r) = adoption_join m r"
  by (simp_all add: advance_saga_def adoption_join_def)

lemma exact_saga_row_self [simp]: "exact_saga_row (ta_scope_key r) (ta_codex_thread_id r) (int (ta_generation r)) r"
  by (simp add: exact_saga_row_def)

lemma fence_ok:
  assumes "closable r s" "ta_state r \<noteq> Terminal"
  obtains r' s' where "fence_thread_adoption now r s = Inr (r', s')" "closable r' s'" "ta_state r' = RecoveryRequired"
    "ta_scope_key r' = ta_scope_key r" "ta_codex_thread_id r' = ta_codex_thread_id r" "ta_generation r' = ta_generation r"
    "at_threads s' = at_threads s"
proof -
  note ok = assms(1) [unfolded closable_def]
  let ?P = "\<lambda>x. exact_saga_row (ta_scope_key r) (ta_codex_thread_id r) (int (ta_generation r)) x \<and> ta_state x \<noteq> Terminal"
  have eq: "fence_thread_adoption now r s = (if ta_state r = RecoveryRequired then Inr (r, s)
      else Inr (advance_saga RecoveryRequired None now r, set_saga ?P RecoveryRequired None now s))"
    using ok assms(2) by (simp add: fence_thread_adoption_def with_exact_saga_ok)
  show ?thesis
  proof (cases "ta_state r = RecoveryRequired")
    case True
    with eq assms(1) show ?thesis by (intro that [of r s]) simp_all
  next
    case False
    with eq have e: "fence_thread_adoption now r s = Inr (advance_saga RecoveryRequired None now r, set_saga ?P RecoveryRequired None now s)" by simp
    moreover have "closable (advance_saga RecoveryRequired None now r) (set_saga ?P RecoveryRequired None now s)"
      using ok fence_wf [OF _ e] set_saga_member [of r s ?P] assms(2) by (simp add: closable_def)
    ultimately show ?thesis by (rule that) simp_all
  qed
qed

lemma begin_release_ok:
  assumes "closable r s" "ta_state r = RecoveryRequired" "m \<in> adopted_in (at_threads s)" "adoption_join m r"
  obtains r' s' where "begin_thread_adoption_release now r s = Inr (r', s')" "closable r' s'" "ta_state r' = Releasing"
    "ta_scope_key r' = ta_scope_key r" "adoption_join m r'" "at_threads s' = at_threads s"
proof -
  note ok = assms(1) [unfolded closable_def]
  let ?P = "exact_saga_row (ta_scope_key r) (ta_codex_thread_id r) (int (ta_generation r))"
  have owned: "owned_mapping_exists s (ta_scope_key r) (ta_codex_thread_id r) (int (ta_generation r))"
    using assms(3,4) by (auto simp: owned_mapping_exists_iff)
  then have e: "begin_thread_adoption_release now r s = Inr (advance_saga Releasing None now r, set_saga ?P Releasing None now s)"
    using ok assms(2)
    by (simp add: begin_thread_adoption_release_def with_exact_saga_ok require_state_def require_no_live_turn_def require_owned_mapping_def ensure_def)
  moreover have "closable (advance_saga Releasing None now r) (set_saga ?P Releasing None now s)"
    using ok begin_release_wf [OF _ e] set_saga_member [of r s ?P] by (simp add: closable_def)
  ultimately show ?thesis by (rule that) (simp_all add: assms(4))
qed

lemma terminal_saga_frees_scope:
  assumes "adoption_wf s" "r \<in> set (at_sagas s)" "ta_state r = Terminal"
  shows "require_scope_available s (ta_scope_key r) = Inr () \<and> (\<forall>m\<in>adopted_in (at_threads s). th_scope_key m \<noteq> ta_scope_key r) \<and>
    read_saga_by_scope s (ta_scope_key r) = Inr (Some r)"
proof -
  have free: "\<forall>m\<in>adopted_in (at_threads s). th_scope_key m \<noteq> ta_scope_key r"
    using adoption_wf_row(2) [OF assms(1,2)] assms(3) by (simp add: saga_mapping_ok_def)
  then have "th_origin m = BridgeCreated" if "active_of (at_threads s) (ta_scope_key r) = Some m" for m
    using active_ofD [OF that] by (cases "th_origin m") (auto simp: adopted_in_def)
  moreover have "read_saga_by_scope s (ta_scope_key r) = Inr (Some r)"
    using find_unique [OF adoption_wf_parts(3) [OF assms(1)] assms(2)] by (simp add: read_saga_by_scope_wf [OF assms(1)])
  ultimately show ?thesis
    using free assms(3) by (auto simp: require_scope_available_def active_mapping_identity_def ensure_def split: option.splits)
qed

lemma finish_release_ok:
  assumes "closable r s" "ta_state r = Releasing" "m \<in> adopted_in (at_threads s)" "adoption_join m r"
  obtains s' where "finish_thread_adoption_release now r ReleaseConfirmed s = Inr (advance_saga Terminal (Some Released) now r, s')"
    "advance_saga Terminal (Some Released) now r \<in> set (at_sagas s')"
proof -
  note ok = assms(1) [unfolded closable_def]
  let ?o = "owned_row (ta_scope_key r) (ta_codex_thread_id r) (int (ta_generation r))"
  note wf = adoption_wf_parts(1) [of s]
  have "length (filter ?o (at_threads s)) = 1"
  proof -
    have "x = m" if "x \<in> set (at_threads s)" "?o x" for x
      using that ok assms(3,4) by (intro adopted_unique [OF wf]) (auto simp: adopted_in_def owned_row_iff adoption_join_def)
    moreover have "m \<in> set (at_threads s)" "?o m" using assms(3,4) by (auto simp: adopted_in_def owned_row_iff)
    moreover have "distinct (at_threads s)"
      using wf ok by (auto simp: threads_wf_def thread_keys_ok_def distinct_map)
    ultimately show ?thesis using sql_update_one [of "at_threads s" m ?o "\<lambda>x. x"] by (metis fst_conv sql_update_def)
  qed
  then obtain s1 where s1: "retire_adopted_mapping now (ta_scope_key r) (ta_codex_thread_id r) (int (ta_generation r)) s = Inr s1" "at_sagas s1 = at_sagas s"
    by (simp add: retire_adopted_mapping_def sql_update_def)
  moreover have "owned_mapping_exists s (ta_scope_key r) (ta_codex_thread_id r) (int (ta_generation r))"
    using assms(3,4) by (auto simp: owned_mapping_exists_iff)
  ultimately have "finish_thread_adoption_release now r ReleaseConfirmed s = Inr (advance_saga Terminal (Some Released) now r,
      set_saga (\<lambda>x. exact_saga_row (ta_scope_key r) (ta_codex_thread_id r) (int (ta_generation r)) x \<and> ta_state x = Releasing) Terminal (Some Released) now s1)"
    using ok assms(2)
    by (simp add: finish_thread_adoption_release_def with_exact_saga_ok require_state_def require_no_live_turn_def require_owned_mapping_def ensure_def)
  moreover have "advance_saga Terminal (Some Released) now r \<in> set (at_sagas (set_saga (\<lambda>x. exact_saga_row (ta_scope_key r) (ta_codex_thread_id r)
      (int (ta_generation r)) x \<and> ta_state x = Releasing) Terminal (Some Released) now s1))"
    using ok assms(2) by (intro set_saga_member) (simp_all add: s1(2))
  ultimately show ?thesis by (rule that)
qed

lemma close_adoption_ok:
  assumes "closable r s" "ta_state r \<noteq> Terminal"
  obtains r' s' where "close_adoption now r s = Inr (r', s')" "adoption_wf s'" "r' \<in> set (at_sagas s')" "ta_state r' = Terminal"
    "ta_scope_key r' = ta_scope_key r"
proof -
  obtain r1 s1 where 1: "fence_thread_adoption now r s = Inr (r1, s1)" "closable r1 s1" "ta_state r1 = RecoveryRequired" "ta_scope_key r1 = ta_scope_key r"
    by (rule fence_ok [OF assms])
  show ?thesis
  proof (cases "\<exists>m\<in>adopted_in (at_threads s1). adoption_join m r1")
    case True
    then obtain m where m: "m \<in> adopted_in (at_threads s1)" "adoption_join m r1" by blast
    obtain r2 s2 where 2: "begin_thread_adoption_release now r1 s1 = Inr (r2, s2)" "closable r2 s2" "ta_state r2 = Releasing"
        "ta_scope_key r2 = ta_scope_key r1" "adoption_join m r2" "at_threads s2 = at_threads s1"
      by (rule begin_release_ok [OF 1(2,3) m])
    with m(1) have "m \<in> adopted_in (at_threads s2)" by simp
    from finish_release_ok [OF 2(2,3) this 2(5)] obtain s3 where
      3: "finish_thread_adoption_release now r2 ReleaseConfirmed s2 = Inr (advance_saga Terminal (Some Released) now r2, s3)"
         "advance_saga Terminal (Some Released) now r2 \<in> set (at_sagas s3)" .
    have wf: "adoption_wf s3" using finish_release_wf [OF _ 3(1)] 2(2) by (simp add: closable_def)
    have "close_adoption now r s = Inr (advance_saga Terminal (Some Released) now r2, s3)"
      using True 1(1) 2(1) 3(1) by (simp add: close_adoption_def owned_mapping_exists_iff)
    from that [OF this wf 3(2)] show ?thesis by (simp add: 2(4) 1(4))
  next
    case False
    note ok = 1(2) [unfolded closable_def]
    let ?P = "exact_saga_row (ta_scope_key r1) (ta_codex_thread_id r1) (int (ta_generation r1))"
    have e: "finish_thread_adoption_acquisition_failure now r1 s1 = Inr (advance_saga Terminal (Some AcquisitionFailed) now r1,
        set_saga ?P Terminal (Some AcquisitionFailed) now s1)"
      using ok 1(3) False
      by (simp add: finish_thread_adoption_acquisition_failure_def with_exact_saga_ok require_state_def require_no_live_turn_def
          owned_mapping_exists_iff ensure_def)
    have "close_adoption now r s = Inr (advance_saga Terminal (Some AcquisitionFailed) now r1, set_saga ?P Terminal (Some AcquisitionFailed) now s1)"
      using False 1(1) e by (simp add: close_adoption_def owned_mapping_exists_iff)
    moreover have "adoption_wf (set_saga ?P Terminal (Some AcquisitionFailed) now s1)" using finish_failure_wf [OF _ e] ok by simp
    moreover have "advance_saga Terminal (Some AcquisitionFailed) now r1 \<in> set (at_sagas (set_saga ?P Terminal (Some AcquisitionFailed) now s1))"
      using ok by (intro set_saga_member) simp_all
    ultimately show ?thesis by (rule that) (simp_all add: 1(4))
  qed
qed

section \<open>What the saga promises\<close>

text \<open>C12: In every run of scope, thread, turn and adoption operations, an active externally adopted thread is named, with its generation, by the
  one saga of its scope, which is neither acquiring nor terminal; a saga that is owned, releasing or failed to release still has its
  active mapping; two sagas that are not terminal never name the same Codex thread, and a scope has one saga.
\<close>

theorem adopted_thread_follows_its_saga:
  fixes ops :: "adoption_op list"
  defines "s \<equiv> fold apply_adoption_op ops empty_adoption"
  shows "(\<forall>m\<in>adopted_in (at_threads s). \<exists>!r. r \<in> set (at_sagas s) \<and> ta_scope_key r = th_scope_key m \<and>
            ta_codex_thread_id r = th_codex_thread_id m \<and> th_adoption_generation m = Some (ta_generation r) \<and> ta_state r \<notin> {Acquiring, Terminal}) \<and>
         (\<forall>r\<in>set (at_sagas s). ta_state r \<in> {Owned, Releasing, ReleaseFailed} \<longrightarrow> (\<exists>m\<in>adopted_in (at_threads s). adoption_join m r)) \<and>
         distinct (map ta_scope_key (at_sagas s)) \<and> distinct (map ta_codex_thread_id (live_sagas (at_sagas s)))"
proof -
  have wf: "adoption_wf s" unfolding s_def by (rule adoption_run_wf)
  have "\<exists>!r. r \<in> set (at_sagas s) \<and> ta_scope_key r = th_scope_key m \<and> ta_codex_thread_id r = th_codex_thread_id m \<and>
      th_adoption_generation m = Some (ta_generation r) \<and> ta_state r \<notin> {Acquiring, Terminal}" if m: "m \<in> adopted_in (at_threads s)" for m
  proof -
    obtain r where r: "r \<in> set (at_sagas s)" "adoption_join m r" "ta_state r \<notin> {Acquiring, Terminal}" by (rule adopted_has_saga [OF wf m])
    show ?thesis
    proof (rule ex1I [of _ r])
      show "r \<in> set (at_sagas s) \<and> ta_scope_key r = th_scope_key m \<and> ta_codex_thread_id r = th_codex_thread_id m \<and>
          th_adoption_generation m = Some (ta_generation r) \<and> ta_state r \<notin> {Acquiring, Terminal}"
        using r by (simp add: adoption_join_def)
    next
      fix x
      assume "x \<in> set (at_sagas s) \<and> ta_scope_key x = th_scope_key m \<and> ta_codex_thread_id x = th_codex_thread_id m \<and>
          th_adoption_generation m = Some (ta_generation x) \<and> ta_state x \<notin> {Acquiring, Terminal}"
      then show "x = r" using saga_unique [OF wf _ r(1), of x] join_scope [OF r(2)] by simp
    qed
  qed
  moreover have "\<exists>m\<in>adopted_in (at_threads s). adoption_join m r" if "r \<in> set (at_sagas s)" "ta_state r \<in> {Owned, Releasing, ReleaseFailed}" for r
    using adoption_wf_row(2) [OF wf that(1)] that(2) by (auto simp: saga_mapping_ok_def)
  ultimately show ?thesis using adoption_wf_parts(3,4) [OF wf] by blast
qed

text \<open>C11: An adopted mapping is retired only by a confirmed release: when an operation takes an active adopted thread away, it is
  \<open>finish_thread_adoption_release\<close> with a confirmed reap, for the exact scope, thread and generation, the saga was in its release and no
  turn of the scope was live.
\<close>

theorem adopted_mapping_ends_only_by_confirmed_release:
  fixes ops :: "adoption_op list"
  defines "s \<equiv> fold apply_adoption_op ops empty_adoption"
  assumes "m \<in> adopted_in (at_threads s)" "m \<notin> adopted_in (at_threads (apply_adoption_op op s))"
  shows "\<exists>now res. op = AoFinish now res ReleaseConfirmed \<and> adoption_join m res \<and>
           (\<exists>r\<in>set (at_sagas s). adoption_join m r \<and> ta_state r = Releasing) \<and>
           \<not> list_ex (\<lambda>x. tn_scope_key x = th_scope_key m \<and> blocks_adoption x) (at_turns s)"
proof -
  have wf: "adoption_wf s" unfolding s_def by (rule adoption_run_wf)
  obtain now res where op: "op = AoFinish now res ReleaseConfirmed" using adopted_mono [OF wf, of op] assms(2,3) by blast
  with assms(2,3) obtain a s' where fin: "finish_thread_adoption_release now res ReleaseConfirmed s = Inr (a, s')" and lost: "m \<notin> adopted_in (at_threads s')"
    by (auto simp: after_def split: sum.splits)
  obtain r where r: "r \<in> set (at_sagas s)" "ta_state r = Releasing" "\<exists>m\<in>adopted_in (at_threads s). adoption_join m r"
      "ta_scope_key res = ta_scope_key r" "ta_codex_thread_id res = ta_codex_thread_id r" "ta_generation res = ta_generation r"
      "\<not> list_ex (\<lambda>x. tn_scope_key x = ta_scope_key r \<and> blocks_adoption x) (at_turns s)" "s' = release_finished now ReleaseConfirmed r s"
    by (rule finish_releaseD [OF wf fin])
  from lost assms(2) have "th_scope_key m = ta_scope_key r" by (auto simp: r(8) release_finished_def adopted_archive_row)
  then have "adoption_join m r" using saga_mapping_recovery [OF adoption_wf_parts(1) [OF wf] adoption_wf_row(2) [OF wf r(1)] assms(2)] by simp
  with op r show ?thesis by (auto simp: adoption_join_def)
qed

text \<open>C13: A superseded fence token is dead. Take a run, a scope that is then reserved again, and any token of that scope of an earlier
  generation, whatever thread, state or outcome it carries: commit, failure, release and fence refuse it, whatever happens after the reservation,
  so a late owner process cannot move the new saga. Every row the scope's saga ever had during the run, in any state it went through, is
  such a token.
\<close>

theorem superseded_token_is_refused:
  fixes ops later :: "adoption_op list"
  defines "s \<equiv> fold apply_adoption_op ops empty_adoption"
  assumes "ta_scope_key token = scope_to_string scope" "ta_generation token < ta_generation row"
    and "reserve_thread_adoption now scope thread_id s = Inr (row, s')"
  defines "u \<equiv> fold apply_adoption_op later s'"
  shows "isl (commit_thread_adoption t token cwd fp u) \<and> isl (finish_thread_adoption_acquisition_failure t token u) \<and>
    isl (begin_thread_adoption_release t token u) \<and> isl (finish_thread_adoption_release t token outcome u) \<and> isl (fence_thread_adoption t token u) \<and>
    (\<forall>k. \<forall>old\<in>set (at_sagas (fold apply_adoption_op (take k ops) empty_adoption)).
       ta_scope_key old = scope_to_string scope \<longrightarrow> ta_generation old < ta_generation row)"
proof -
  let ?key = "scope_to_string scope"
  have wf: "adoption_wf s" unfolding s_def by (rule adoption_run_wf)
  have wf': "adoption_wf s'" by (rule reserve_wf [OF wf assms(4)])
  then have wfu: "adoption_wf u" unfolding u_def by (rule adoption_run.run_inv)
  have gen: "saga_generation x (ta_scope_key r) = ta_generation r" if "adoption_wf x" "r \<in> set (at_sagas x)" for x r
    using find_unique [OF adoption_wf_parts(3) [OF that(1)] that(2)] by (simp add: saga_generation_def)
  have newer: "ta_generation token < saga_generation u (ta_scope_key token)"
    using reserve_row_generation [OF wf assms(4)] reserve_generation [OF wf assms(4), of ?key] assms(2,3)
      generation_run_mono [OF wf', of ?key later] by (simp add: u_def)
  have earlier: "ta_generation old < ta_generation row"
    if "old \<in> set (at_sagas (fold apply_adoption_op (take k ops) empty_adoption))" "ta_scope_key old = ?key" for k old
  proof -
    have "s = fold apply_adoption_op (drop k ops) (fold apply_adoption_op (take k ops) empty_adoption)"
      unfolding s_def by (metis append_take_drop_id comp_apply fold_append)
    then show ?thesis
      using gen [OF adoption_run_wf that(1)] that(2) reserve_row_generation [OF wf assms(4)]
        generation_run_mono [OF adoption_run_wf [of "take k ops"], of ?key "drop k ops"] by simp
  qed
  have stale: "require_exact_saga u (ta_scope_key token) (ta_codex_thread_id token) (ta_generation token) \<noteq> Inr r" for r
    using gen [OF wfu, of r] newer by (auto simp: require_exact_saga_wf [OF wfu])
  have "isl (with_exact_saga token body u)" for body
    using stale by (cases "with_exact_saga token body u") (auto simp: with_exact_saga_def Let_def dest!: run_sized_Inr)
  moreover have "isl (commit_thread_adoption t token cwd fp u)"
    using stale by (cases "commit_thread_adoption t token cwd fp u")
      (auto simp: commit_thread_adoption_def Let_def split: option.splits dest!: run_sized_Inr)
  ultimately show ?thesis using earlier
    by (auto simp: finish_thread_adoption_acquisition_failure_def begin_thread_adoption_release_def finish_thread_adoption_release_def fence_thread_adoption_def)
qed

text \<open>C14: No saga is stuck: in every reachable state, a saga that is not terminal and whose scope has no live turn can be closed by fencing it and then
  releasing its mapping, or ending its reservation when none was committed. The saga ends terminal, no adopted mapping is left in the scope
  and the scope can be reserved again.
\<close>

theorem open_adoption_can_be_closed:
  fixes ops :: "adoption_op list"
  defines "s \<equiv> fold apply_adoption_op ops empty_adoption"
  assumes "r \<in> set (at_sagas s)" "ta_state r \<noteq> Terminal"
    and "\<not> list_ex (\<lambda>x. tn_scope_key x = ta_scope_key r \<and> blocks_adoption x) (at_turns s)"
    and "length (ta_scope_key r) + length (ta_codex_thread_id r) \<le> STORE_REQUEST_MAX_BYTES"
  shows "\<exists>r' s'. close_adoption now r s = Inr (r', s') \<and> ta_state r' = Terminal \<and> read_saga_by_scope s' (ta_scope_key r) = Inr (Some r') \<and>
    (\<forall>m\<in>adopted_in (at_threads s'). th_scope_key m \<noteq> ta_scope_key r) \<and> require_scope_available s' (ta_scope_key r) = Inr ()"
proof -
  have "closable r s" unfolding closable_def using adoption_run_wf [of ops] assms by simp
  then obtain r' s' where c: "close_adoption now r s = Inr (r', s')" "adoption_wf s'" "r' \<in> set (at_sagas s')" "ta_state r' = Terminal"
      "ta_scope_key r' = ta_scope_key r"
    using assms(3) by (rule close_adoption_ok)
  from terminal_saga_frees_scope [OF c(2-4)] c show ?thesis by auto
qed

text \<open>C16: The startup fence never finds the tables of a run corrupt: it succeeds, reports the number of sagas it moved, leaves every mapping as it
  was and every saga terminal or awaiting recovery, and a second fence moves nothing.
\<close>

theorem startup_fences_every_adoption:
  fixes ops :: "adoption_op list"
  defines "s \<equiv> fold apply_adoption_op ops empty_adoption"
  shows "\<exists>s'. fence_thread_adoptions_on_startup now s =
             Inr (length (filter (\<lambda>r. ta_state r \<notin> {RecoveryRequired, Terminal}) (at_sagas s)), s') \<and>
           at_threads s' = at_threads s \<and> map ta_scope_key (at_sagas s') = map ta_scope_key (at_sagas s) \<and>
           (\<forall>r\<in>set (at_sagas s'). ta_state r \<in> {RecoveryRequired, Terminal}) \<and>
           fence_thread_adoptions_on_startup later s' = Inr (0, s')"
proof -
  have clean: "orphaned_mappings x = 0 \<and> missing_mappings x = 0" if wf: "adoption_wf x" for x
  proof -
    have "\<exists>r\<in>set (at_sagas x). adoption_join m r \<and> ta_state r \<noteq> Terminal" if "m \<in> adopted_in (at_threads x)" for m
      using adopted_has_saga [OF wf that] by (metis insertCI)
    moreover have "\<exists>m\<in>adopted_in (at_threads x). adoption_join m r" if "r \<in> set (at_sagas x)" "ta_state r \<in> {Owned, Releasing, ReleaseFailed}" for r
      using adoption_wf_row(2) [OF wf that(1)] that(2) by (auto simp: saga_mapping_ok_def)
    ultimately show ?thesis
      unfolding orphaned_mappings_def missing_mappings_def adopted_in_def by (fastforce simp: filter_empty_conv list_ex_iff)
  qed
  have states: "ta_state r \<in> {Acquiring, Owned, Releasing, ReleaseFailed} \<longleftrightarrow> ta_state r \<notin> {RecoveryRequired, Terminal}" for r :: thread_adoption_saga
    by (cases "ta_state r") simp_all
  define f where "f r = (if ta_state r \<notin> {RecoveryRequired, Terminal} then advance_saga RecoveryRequired None now r else r)" for r
  have wf: "adoption_wf s" unfolding s_def by (rule adoption_run_wf)
  have run: "fence_thread_adoptions_on_startup now s =
      Inr (length (filter (\<lambda>r. ta_state r \<notin> {RecoveryRequired, Terminal}) (at_sagas s)), s\<lparr>at_sagas := map f (at_sagas s)\<rparr>)"
    using clean [OF wf] by (simp add: fence_thread_adoptions_on_startup_def states sql_update_def f_def [abs_def] del: insert_iff)
  have fenced: "ta_state (f r) \<in> {RecoveryRequired, Terminal}" and key: "ta_scope_key (f r) = ta_scope_key r" for r by (auto simp: f_def)
  have "adoption_wf (s\<lparr>at_sagas := map f (at_sagas s)\<rparr>)" by (rule startup_fence_wf [OF wf run])
  from clean [OF this] have "fence_thread_adoptions_on_startup later (s\<lparr>at_sagas := map f (at_sagas s)\<rparr>) = Inr (0, s\<lparr>at_sagas := map f (at_sagas s)\<rparr>)"
    using fenced by (simp add: fence_thread_adoptions_on_startup_def states sql_update_def del: insert_iff)
  with run fenced key show ?thesis by (auto simp: comp_def)
qed

text \<open>C15: The gate of a turn agrees with the saga: with the saga that the store reports for the scope, a turn goes on over an adopted thread exactly when the
  saga is owned, goes on over a thread of the bridge exactly when the scope has no open saga, and in every other state of the saga the whole
  batch is rejected before a thread is touched.
\<close>

theorem adoption_gate_follows_the_saga:
  fixes ops :: "adoption_op list"
  defines "s \<equiv> fold apply_adoption_op ops empty_adoption"
  assumes "active_thread_adoption scope s = Inr (te_saga te, s)" "tc_threads c = at_threads s"
    and "te_fault te AtAdoption = None" "te_fault te AtMapping = None"
  shows "adoption_gate te scope batch c =
    (let mapping = active_of (at_threads s) (scope_to_string scope) in
     case List.find (\<lambda>r. ta_scope_key r = scope_to_string scope \<and> ta_state r \<noteq> Terminal) (at_sagas s) of
       None \<Rightarrow> (Go (False, mapping), c)
     | Some r \<Rightarrow> if ta_state r = Owned then (Go (True, mapping), c) else reject_terminal_batch te batch c)"
proof -
  let ?k = "scope_to_string scope"
  let ?found = "List.find (\<lambda>r. ta_scope_key r = ?k \<and> ta_state r \<noteq> Terminal) (at_sagas s)"
  have wf: "adoption_wf s" unfolding s_def by (rule adoption_run_wf)
  have "read_optional_saga ctxt ?found = Inr ?found" for ctxt
    using adoption_wf_row(1) [OF wf] read_stored_saga by (auto simp: read_optional_saga_def split: option.splits dest!: find_SomeD)
  then have saga: "te_saga te = ?found" and small: "\<not> (request_bytes [?k] > STORE_REQUEST_MAX_BYTES \<or> request_bytes [?k] > STORE_WRITER_BYTE_BUDGET)"
    using assms(2) by (auto simp: active_thread_adoption_def Let_def run_sized_def split: if_splits)
  have same: "c\<lparr>tc_threads := at_threads s\<rparr> = c" using assms(3) by (cases c) simp
  have gate: "adoption_gate te scope batch c = (case (active_of (at_threads s) ?k, ?found) of
      (Some row, Some saga) \<Rightarrow> if th_origin row = ExternallyAdopted \<and> th_adoption_generation row = Some (ta_generation saga) \<and>
          th_codex_thread_id row = ta_codex_thread_id saga \<and> ta_state saga = Owned
        then (Go (True, Some row), c) else reject_terminal_batch te batch c
    | (Some row, None) \<Rightarrow> if th_origin row = ExternallyAdopted then reject_terminal_batch te batch c else (Go (False, Some row), c)
    | (None, Some saga) \<Rightarrow> reject_terminal_batch te batch c
    | (None, None) \<Rightarrow> (Go (False, None), c))"
    using small assms(3-5) saga
    by (simp add: adoption_gate_def and_then_def on_threads_def with_fault_def active_thread_def Let_def run_sized_def go_def same split: option.splits)
  show ?thesis
  proof (cases ?found)
    case None
    have "th_origin m = BridgeCreated" if m: "active_of (at_threads s) ?k = Some m" for m
    proof (rule ccontr)
      assume "th_origin m \<noteq> BridgeCreated"
      then have "m \<in> adopted_in (at_threads s)" using active_ofD [OF m] by (cases "th_origin m") (auto simp: adopted_in_def)
      from adopted_has_saga [OF wf this] active_ofD [OF m] None show False by (auto simp: find_None_iff adoption_join_def)
    qed
    with None gate show ?thesis by (simp split: option.splits)
  next
    case (Some r)
    then have r: "r \<in> set (at_sagas s)" "ta_scope_key r = ?k" by (auto dest: find_SomeD)
    show ?thesis
    proof (cases "ta_state r = Owned")
      case True
      with adoption_wf_row(2) [OF wf r(1)] obtain m where m: "m \<in> adopted_in (at_threads s)" "adoption_join m r" by (auto simp: saga_mapping_ok_def)
      then have "active_of (at_threads s) ?k = Some m"
        using active_of_unique [OF adoption_wf_parts(1) [OF wf], of m] r(2) by (auto simp: adopted_in_def adoption_join_def)
      with Some True m gate show ?thesis by (simp add: adopted_in_def adoption_join_def)
    next
      case False
      with Some gate show ?thesis by (simp split: option.splits)
    qed
  qed
qed

text \<open>C17: What a run stores is well typed: every saga row satisfies the \<open>CHECK\<close> constraints of its table and reads back as the row it was, with an outcome
  exactly in the terminal state and a positive generation that fits an \<open>i64\<close>, and every thread row has an adoption generation exactly when
  it was adopted, as the triggers on the threads table demand.
\<close>

theorem stored_sagas_are_well_typed:
  fixes ops :: "adoption_op list"
  defines "s \<equiv> fold apply_adoption_op ops empty_adoption"
  shows "list_all (\<lambda>r. let q = stored_saga r in
            read_saga_row q = Some r \<and> 0 < sq_generation q \<and> sq_generation q \<le> i64_max \<and> sq_codex_thread_id q \<noteq> [] \<and>
            sq_state q \<in> {''acquiring'', ''owned'', ''releasing'', ''recovery_required'', ''release_failed'', ''terminal''} \<and>
            (sq_state q = ''terminal'' \<longleftrightarrow> sq_outcome q \<noteq> None) \<and> sq_outcome q \<in> {None, Some ''acquisition_failed'', Some ''released''})
          (at_sagas s) \<and>
         list_all (\<lambda>m. th_origin m = BridgeCreated \<longleftrightarrow> th_adoption_generation m = None) (at_threads s)"
proof -
  have wf: "adoption_wf s" unfolding s_def by (rule adoption_run_wf)
  have "adoption_state_as_str st \<in> {''acquiring'', ''owned'', ''releasing'', ''recovery_required'', ''release_failed'', ''terminal''} \<and>
      (adoption_state_as_str st = ''terminal'' \<longleftrightarrow> st = Terminal)" for st by (cases st) simp_all
  moreover have "map_option adoption_outcome_as_str oc \<in> {None, Some ''acquisition_failed'', Some ''released''}" for oc
    by (cases oc; cases "the oc") simp_all
  ultimately show ?thesis
    using adoption_wf_row(1) [OF wf] adoption_wf_parts(2) [OF wf] read_stored_saga
    by (auto simp: list_all_iff Let_def thread_shape_ok_def stored_saga_def saga_row_ok_def simp del: insert_iff)
qed

section \<open>A concrete adoption\<close>

definition demo_token :: thread_adoption_saga where
  "demo_token = \<lparr>ta_scope_key = ''im:c'', ta_codex_thread_id = ''t'', ta_generation = 1, ta_state = Acquiring, ta_outcome = None,
     ta_created_ms = 2, ta_updated_ms = 2\<rparr>"

definition demo_adopt :: "adoption_op list" where
  "demo_adopt = [AoScope 1 (ScopeChat ''c'') (Some ''/w'') ''f'', AoReserve 2 (ScopeChat ''c'') ''t'', AoCommit 3 demo_token (Some ''/w'') ''f'']"

definition demo_mapping :: thread_row where
  "demo_mapping = adopted_thread_row 3 ''im:c'' ''t'' 1"

lemmas adoption_eval = after_def upsert_scope_def reserve_thread_adoption_def commit_thread_adoption_def with_exact_saga_def
  finish_thread_adoption_acquisition_failure_def begin_thread_adoption_release_def finish_thread_adoption_release_def fence_thread_adoption_def
  require_scope_def require_no_live_turn_def require_target_available_def require_target_mapping_available_def require_scope_available_def
  require_exact_saga_def require_state_def require_owned_mapping_def owned_mapping_exists_def owned_row_def active_mapping_identity_def active_of_def
  read_saga_by_scope_def read_optional_saga_def read_saga_row_def stored_saga_def adoption_state_parse_def adoption_outcome_parse_def
  next_adoption_generation_def generation_i64_def write_reservation_def saga_conflict_def sql_update_def update_adopted_workspace_def
  retire_current_mapping_def own_saga_def exact_saga_row_def map_adopted_thread_def upsert_adopted_mapping_def thread_of_def active_conflict_def
  retire_adopted_mapping_def set_saga_def advance_saga_def ensure_def run_sized_def request_bytes_sum u64_max_def i64_max_def limit_defs

lemma demo_adopted: "fold apply_adoption_op demo_adopt empty_adoption =
  \<lparr>at_scopes = [\<lparr>sc_scope_key = ''im:c'', sc_cwd = ''/w'', sc_policy_fingerprint = ''f'', sc_updated_ms = 3\<rparr>],
   at_threads = [demo_mapping], at_turns = [], at_sagas = [demo_token\<lparr>ta_state := Owned, ta_updated_ms := 3\<rparr>]\<rparr>"
  by (simp add: demo_adopt_def demo_token_def demo_mapping_def adopted_thread_row_def empty_adoption_def Let_def adoption_eval)

abbreviation demo_owned :: thread_adoption_saga where
  "demo_owned \<equiv> demo_token\<lparr>ta_state := Owned, ta_updated_ms := 3\<rparr>"

theorem adopted_thread_follows_its_saga_witness:
  "\<exists>r. r \<in> set (at_sagas (fold apply_adoption_op demo_adopt empty_adoption)) \<and> th_adoption_generation demo_mapping = Some (ta_generation r)"
proof -
  have "demo_mapping \<in> adopted_in (at_threads (fold apply_adoption_op demo_adopt empty_adoption))"
    by (simp add: demo_adopted adopted_in_def demo_mapping_def adopted_thread_row_def)
  with adopted_thread_follows_its_saga [of demo_adopt] show ?thesis by blast
qed

lemma demo_releasing: "fold apply_adoption_op (demo_adopt @ [AoBegin 4 demo_token]) empty_adoption =
  \<lparr>at_scopes = [\<lparr>sc_scope_key = ''im:c'', sc_cwd = ''/w'', sc_policy_fingerprint = ''f'', sc_updated_ms = 3\<rparr>],
   at_threads = [demo_mapping], at_turns = [], at_sagas = [demo_token\<lparr>ta_state := Releasing, ta_updated_ms := 4\<rparr>]\<rparr>"
  by (simp add: demo_adopted) (simp add: demo_token_def demo_mapping_def adopted_thread_row_def Let_def adoption_eval)

lemma demo_released: "apply_adoption_op (AoFinish 5 demo_token ReleaseConfirmed) (fold apply_adoption_op (demo_adopt @ [AoBegin 4 demo_token]) empty_adoption) =
  \<lparr>at_scopes = [\<lparr>sc_scope_key = ''im:c'', sc_cwd = ''/w'', sc_policy_fingerprint = ''f'', sc_updated_ms = 3\<rparr>],
   at_threads = [demo_mapping\<lparr>th_status := ThreadArchived, th_archived_ms := Some 5\<rparr>], at_turns = [],
   at_sagas = [demo_token\<lparr>ta_state := Terminal, ta_outcome := Some Released, ta_updated_ms := 5\<rparr>]\<rparr>"
  unfolding demo_releasing by (simp add: demo_token_def demo_mapping_def adopted_thread_row_def Let_def adoption_eval)

theorem adopted_mapping_ends_only_by_confirmed_release_witness:
  "\<exists>now res. AoFinish 5 demo_token ReleaseConfirmed = AoFinish now res ReleaseConfirmed \<and> adoption_join demo_mapping res"
proof -
  have "demo_mapping \<in> adopted_in (at_threads (fold apply_adoption_op (demo_adopt @ [AoBegin 4 demo_token]) empty_adoption))"
    by (simp only: demo_releasing) (simp add: adopted_in_def demo_mapping_def adopted_thread_row_def)
  moreover have "demo_mapping \<notin> adopted_in (at_threads (apply_adoption_op (AoFinish 5 demo_token ReleaseConfirmed)
      (fold apply_adoption_op (demo_adopt @ [AoBegin 4 demo_token]) empty_adoption)))"
    by (simp only: demo_released) (simp add: adopted_in_def demo_mapping_def adopted_thread_row_def)
  ultimately show ?thesis using adopted_mapping_ends_only_by_confirmed_release by blast
qed

definition demo_release :: "adoption_op list" where
  "demo_release = (demo_adopt @ [AoBegin 4 demo_token]) @ [AoFinish 5 demo_token ReleaseConfirmed]"

lemma demo_release_run: "fold apply_adoption_op demo_release empty_adoption =
  \<lparr>at_scopes = [\<lparr>sc_scope_key = ''im:c'', sc_cwd = ''/w'', sc_policy_fingerprint = ''f'', sc_updated_ms = 3\<rparr>],
   at_threads = [demo_mapping\<lparr>th_status := ThreadArchived, th_archived_ms := Some 5\<rparr>], at_turns = [],
   at_sagas = [demo_token\<lparr>ta_state := Terminal, ta_outcome := Some Released, ta_updated_ms := 5\<rparr>]\<rparr>"
  using demo_released unfolding demo_release_def fold_append by simp

theorem superseded_token_is_refused_witness:
  "\<exists>row s'. reserve_thread_adoption 6 (ScopeChat ''c'') ''t'' (fold apply_adoption_op demo_release empty_adoption) = Inr (row, s') \<and>
     ta_generation row = 2 \<and> isl (commit_thread_adoption 7 demo_token (Some ''/w'') ''f'' (fold apply_adoption_op [AoStartup 7] s')) \<and>
     isl (begin_thread_adoption_release 7 demo_owned (fold apply_adoption_op [AoStartup 7] s'))"
proof -
  obtain row s' where r: "reserve_thread_adoption 6 (ScopeChat ''c'') ''t'' (fold apply_adoption_op demo_release empty_adoption) = Inr (row, s')"
      "ta_generation row = 2"
    unfolding demo_release_run by (simp add: demo_token_def demo_mapping_def adopted_thread_row_def Let_def adoption_eval)
  note refused = superseded_token_is_refused [OF _ _ r(1), of _ 7 _ _ "[AoStartup 7]"]
  from refused [of demo_token] refused [of demo_owned] r show ?thesis by (simp add: demo_token_def)
qed

theorem open_adoption_can_be_closed_witness:
  "\<exists>r' s'. close_adoption 9 demo_owned (fold apply_adoption_op demo_adopt empty_adoption) = Inr (r', s') \<and> ta_state r' = Terminal"
  using open_adoption_can_be_closed [of demo_owned demo_adopt 9] by (auto simp: demo_adopted demo_token_def limit_defs)

theorem startup_fences_every_adoption_witness:
  "\<exists>s'. fence_thread_adoptions_on_startup 9 (fold apply_adoption_op demo_adopt empty_adoption) = Inr (1, s') \<and> at_threads s' = [demo_mapping]"
  using startup_fences_every_adoption [of 9 demo_adopt 10] by (auto simp: demo_adopted)

theorem adoption_gate_follows_the_saga_witness:
  "adoption_gate (demo_turn_env\<lparr>te_saga := Some demo_owned\<rparr>) (ScopeChat ''c'') [demo_item] (demo_ctx\<lparr>tc_threads := [demo_mapping]\<rparr>) =
     (Go (True, Some demo_mapping), demo_ctx\<lparr>tc_threads := [demo_mapping]\<rparr>)"
proof -
  let ?te = "demo_turn_env\<lparr>te_saga := Some demo_owned\<rparr>" and ?c = "demo_ctx\<lparr>tc_threads := [demo_mapping]\<rparr>"
  let ?s = "fold apply_adoption_op demo_adopt empty_adoption"
  have "active_thread_adoption (ScopeChat ''c'') ?s = Inr (te_saga ?te, ?s)"
    unfolding demo_adopted by (simp add: active_thread_adoption_def demo_token_def Let_def adoption_eval)
  from adoption_gate_follows_the_saga [OF this, of ?c "[demo_item]"] show ?thesis
    by (simp add: demo_adopted demo_turn_env_def Let_def active_of_def demo_token_def demo_mapping_def adopted_thread_row_def)
qed

end
