(* ===== verification/Attachment_Store.thy ===== *)
theory Attachment_Store
  imports Turn_Store "HOL-Library.Char_ord" "HOL-Library.List_Lexorder"
begin

text \<open>
  Attachments and their leases, \<^verbatim>\<open>src/src/store/attachments.rs\<close>: one row per content hash, one lease per acquisition with a token of its
  own, foreign keys to the attachment (with cascade) and to the turn. The random part of a token is an argument. Extended SQLite codes:
  275 for a \<open>CHECK\<close>, 787 for a foreign key, 1555 for a primary key.
\<close>

section \<open>Data\<close>

definition STORE_ATTACHMENT_MAX_ROWS :: nat where "STORE_ATTACHMENT_MAX_ROWS = 4096"
definition STORE_ATTACHMENT_MAX_BYTES :: nat where "STORE_ATTACHMENT_MAX_BYTES = 268435456"
definition STORE_ATTACHMENT_LEASE_MAX_ROWS :: nat where "STORE_ATTACHMENT_LEASE_MAX_ROWS = 65536"
definition STORE_ATTACHMENT_LEASE_TOKEN_MAX_BYTES :: nat where "STORE_ATTACHMENT_LEASE_TOKEN_MAX_BYTES = 64"

lemmas attachment_limit_defs = STORE_ATTACHMENT_MAX_ROWS_def STORE_ATTACHMENT_MAX_BYTES_def STORE_ATTACHMENT_LEASE_MAX_ROWS_def
  STORE_ATTACHMENT_LEASE_TOKEN_MAX_BYTES_def

record attachment_row =
  ar_sha256 :: string
  ar_bytes :: nat
  ar_kind :: string
  ar_created_ms :: int
  ar_last_used_ms :: int

record attachment_lease_row =
  le_lease_token :: string
  le_sha256 :: string
  le_turn_row_id :: int
  le_created_ms :: int

record attachment_tables =
  ax_attachments :: "attachment_row list"
  ax_leases :: "attachment_lease_row list"
  ax_turns :: turn_table

definition stored_bytes :: "attachment_row list \<Rightarrow> nat" where
  "stored_bytes t = sum_list (map ar_bytes t)"

section \<open>Operations\<close>

definition new_attachment_lease_token :: "string \<Rightarrow> string" where
  "new_attachment_lease_token uuid = ''alease_'' @ uuid"

definition validate_attachment_lease_token :: "string \<Rightarrow> (store_error, unit) result" where
  "validate_attachment_lease_token token =
     ensure (\<not> (token = [] \<or> length token > STORE_ATTACHMENT_LEASE_TOKEN_MAX_BYTES))
       (PayloadTooLarge ''validating an attachment lease token'' STORE_ATTACHMENT_LEASE_TOKEN_MAX_BYTES)"

definition touch :: "string \<Rightarrow> int \<Rightarrow> attachment_row \<Rightarrow> attachment_row" where
  "touch sha last_used r = (if ar_sha256 r = sha then r\<lparr>ar_last_used_ms := last_used\<rparr> else r)"

text \<open>The capacity check and the upsert that both ways to record an attachment share.\<close>

definition record_attachment :: "int \<Rightarrow> string \<Rightarrow> nat \<Rightarrow> string \<Rightarrow> attachment_tables \<Rightarrow> (store_error, attachment_tables) result" where
  "record_attachment now sha bytes kind s =
     (let t = ax_attachments s; known = list_ex (\<lambda>r. ar_sha256 r = sha) t in
      if \<not> known \<and> (length t \<ge> STORE_ATTACHMENT_MAX_ROWS \<or> sat_add_u64 (stored_bytes t) bytes > STORE_ATTACHMENT_MAX_BYTES)
      then Inl (CapacityExceeded ''recording an attachment'')
      else if known
      then Inr (s\<lparr>ax_attachments := map (touch sha now) t\<rparr>)
      else Inr (s\<lparr>ax_attachments := t @ [\<lparr>ar_sha256 = sha, ar_bytes = bytes, ar_kind = kind, ar_created_ms = now, ar_last_used_ms = now\<rparr>]\<rparr>))"

definition clamp_i64 :: "nat \<Rightarrow> nat" where
  "clamp_i64 bytes = min bytes (nat i64_max)"

definition put_attachment :: "int \<Rightarrow> string \<Rightarrow> nat \<Rightarrow> string \<Rightarrow> (attachment_tables, unit) job" where
  "put_attachment now sha bytes kind =
     run_sized (request_bytes [sha, kind]) (\<lambda>s. result_bind (record_attachment now sha (clamp_i64 bytes) kind s) (\<lambda>s. Inr ((), s)))"

definition insert_lease :: "int \<Rightarrow> string \<Rightarrow> string \<Rightarrow> int \<Rightarrow> attachment_tables \<Rightarrow> (store_error, attachment_tables) result" where
  "insert_lease now token sha turn_row_id s =
     (if length (ax_leases s) \<ge> STORE_ATTACHMENT_LEASE_MAX_ROWS then Inl (CapacityExceeded ''adding an attachment lease'')
      else if \<not> (1 \<le> length token \<and> length token \<le> 64) then Inl (Sqlite ''adding an attachment lease'' (Some 275))
      else if list_ex (\<lambda>l. le_lease_token l = token) (ax_leases s) then Inl (Sqlite ''adding an attachment lease'' (Some 1555))
      else if \<not> list_ex (\<lambda>r. ar_sha256 r = sha) (ax_attachments s) \<or> \<not> list_ex (\<lambda>r. tn_id r = turn_row_id) (ax_turns s)
      then Inl (Sqlite ''adding an attachment lease'' (Some 787))
      else Inr (s\<lparr>ax_leases := ax_leases s @ [\<lparr>le_lease_token = token, le_sha256 = sha, le_turn_row_id = turn_row_id, le_created_ms = now\<rparr>]\<rparr>))"

definition put_attachment_and_lease :: "int \<Rightarrow> string \<Rightarrow> string \<Rightarrow> nat \<Rightarrow> string \<Rightarrow> int \<Rightarrow> (attachment_tables, string) job" where
  "put_attachment_and_lease now uuid sha bytes kind turn_row_id =
     (let token = new_attachment_lease_token uuid in
      run_sized (request_bytes [sha, kind, token]) (\<lambda>s.
        result_bind (record_attachment now sha (clamp_i64 bytes) kind s) (\<lambda>s.
          result_bind (insert_lease now token sha turn_row_id s) (\<lambda>s. Inr (token, s)))))"

definition attachment_row_read :: "string \<Rightarrow> (attachment_tables, attachment_row option) job" where
  "attachment_row_read sha =
     run_sized (request_bytes [sha]) (\<lambda>s. Inr (List.find (\<lambda>r. ar_sha256 r = sha) (ax_attachments s), s))"

definition add_attachment_lease :: "int \<Rightarrow> string \<Rightarrow> string \<Rightarrow> int \<Rightarrow> (attachment_tables, string) job" where
  "add_attachment_lease now uuid sha turn_row_id =
     (let token = new_attachment_lease_token uuid in
      run_sized (request_bytes [sha, token]) (\<lambda>s.
        result_bind (insert_lease now token sha turn_row_id s) (\<lambda>s. Inr (token, s))))"

definition release_attachment_lease :: "string \<Rightarrow> (attachment_tables, bool) job" where
  "release_attachment_lease token s =
     result_bind (validate_attachment_lease_token token) (\<lambda>_.
       run_sized (request_bytes [token]) (\<lambda>s.
         Inr (list_ex (\<lambda>l. le_lease_token l = token) (ax_leases s),
              s\<lparr>ax_leases := filter (\<lambda>l. le_lease_token l \<noteq> token) (ax_leases s)\<rparr>)) s)"

definition attachment_leases_read :: "string \<Rightarrow> (attachment_tables, attachment_lease_row list) job" where
  "attachment_leases_read sha =
     run_sized (request_bytes [sha]) (\<lambda>s.
       Inr (sort_key le_turn_row_id (sort_key le_lease_token (filter (\<lambda>l. le_sha256 l = sha) (ax_leases s))), s))"

definition leased :: "string \<Rightarrow> attachment_tables \<Rightarrow> bool" where
  "leased sha s = list_ex (\<lambda>l. le_sha256 l = sha) (ax_leases s)"

definition delete_attachment :: "string \<Rightarrow> (attachment_tables, bool) job" where
  "delete_attachment sha =
     run_sized (request_bytes [sha]) (\<lambda>s.
       if leased sha s then Inr (False, s)
       else Inr (length (filter (\<lambda>r. ar_sha256 r = sha) (ax_attachments s)) = 1,
                 s\<lparr>ax_attachments := filter (\<lambda>r. ar_sha256 r \<noteq> sha) (ax_attachments s)\<rparr>))"

definition release_turn_attachment_leases :: "int \<Rightarrow> (attachment_tables, nat) job" where
  "release_turn_attachment_leases turn_row_id =
     run_job (\<lambda>s. Inr (length (filter (\<lambda>l. le_turn_row_id l = turn_row_id) (ax_leases s)),
       s\<lparr>ax_leases := filter (\<lambda>l. le_turn_row_id l \<noteq> turn_row_id) (ax_leases s)\<rparr>))"

definition list_attachments :: "(attachment_tables, attachment_row list) job" where
  "list_attachments =
     run_job (\<lambda>s. if length (ax_attachments s) > STORE_ATTACHMENT_MAX_ROWS then Inl (CapacityExceeded ''listing attachments'')
       else Inr (sort_key ar_last_used_ms (sort_key ar_sha256 (ax_attachments s)), s))"

definition delete_attachment_force :: "string \<Rightarrow> (attachment_tables, bool) job" where
  "delete_attachment_force sha =
     run_sized (request_bytes [sha]) (\<lambda>s.
       Inr (length (filter (\<lambda>r. ar_sha256 r = sha) (ax_attachments s)) = 1,
            s\<lparr>ax_attachments := filter (\<lambda>r. ar_sha256 r \<noteq> sha) (ax_attachments s),
              ax_leases := filter (\<lambda>l. \<not> (le_sha256 l = sha \<and> list_ex (\<lambda>r. ar_sha256 r = sha) (ax_attachments s))) (ax_leases s)\<rparr>))"

definition settled_turn :: "turn_row \<Rightarrow> bool" where
  "settled_turn r \<longleftrightarrow> tn_state r \<in> {StCompleted, StFailed, StInterrupted} \<or> tn_state r = StUncertain \<and> \<not> tn_uncertain r"

definition stale_lease :: "turn_table \<Rightarrow> attachment_lease_row \<Rightarrow> bool" where
  "stale_lease turns l = list_ex (\<lambda>r. tn_id r = le_turn_row_id l \<and> settled_turn r) turns"

definition delete_stale_attachment_leases :: "(attachment_tables, nat) job" where
  "delete_stale_attachment_leases =
     run_job (\<lambda>s. Inr (length (filter (stale_lease (ax_turns s)) (ax_leases s)),
       s\<lparr>ax_leases := filter (\<lambda>l. \<not> stale_lease (ax_turns s) l) (ax_leases s)\<rparr>))"

definition set_attachment_last_used :: "string \<Rightarrow> int \<Rightarrow> (attachment_tables, unit) job" where
  "set_attachment_last_used sha last_used =
     run_sized (request_bytes [sha]) (\<lambda>s.
       if \<not> list_ex (\<lambda>r. ar_sha256 r = sha) (ax_attachments s) then Inl (NotFound ''updating an unknown attachment timestamp'')
       else Inr ((), s\<lparr>ax_attachments := map (touch sha last_used) (ax_attachments s)\<rparr>))"

section \<open>The invariant\<close>

definition attachments_wf :: "attachment_tables \<Rightarrow> bool" where
  "attachments_wf s \<longleftrightarrow>
     distinct (map ar_sha256 (ax_attachments s)) \<and> distinct (map le_lease_token (ax_leases s)) \<and>
     (\<forall>l\<in>set (ax_leases s). le_sha256 l \<in> ar_sha256 ` set (ax_attachments s) \<and> le_turn_row_id l \<in> tn_id ` set (ax_turns s)) \<and>
     length (ax_attachments s) \<le> STORE_ATTACHMENT_MAX_ROWS \<and> stored_bytes (ax_attachments s) \<le> STORE_ATTACHMENT_MAX_BYTES \<and>
     length (ax_leases s) \<le> STORE_ATTACHMENT_LEASE_MAX_ROWS"

lemma stored_bytes_simps [simp]: "stored_bytes [] = 0" "stored_bytes (r # t) = ar_bytes r + stored_bytes t"
  "stored_bytes (t @ u) = stored_bytes t + stored_bytes u"
  by (simp_all add: stored_bytes_def)

lemma stored_bytes_filter: "stored_bytes (filter P t) \<le> stored_bytes t"
  by (induction t) auto

lemma touch_keeps [simp]: "ar_sha256 (touch sha now r) = ar_sha256 r" "ar_bytes (touch sha now r) = ar_bytes r"
  by (simp_all add: touch_def)

lemma touch_table [simp]: "map (ar_sha256 \<circ> touch sha now) t = map ar_sha256 t" "stored_bytes (map (touch sha now) t) = stored_bytes t"
  by (simp_all add: comp_def stored_bytes_def)

lemma record_attachment_wf:
  assumes "attachments_wf s" "record_attachment now sha bytes kind s = Inr s'"
  shows "attachments_wf s'" "sha \<in> ar_sha256 ` set (ax_attachments s')" "ax_leases s' = ax_leases s" "ax_turns s' = ax_turns s"
    "ar_sha256 ` set (ax_attachments s) \<subseteq> ar_sha256 ` set (ax_attachments s')"
proof -
  let ?new = "\<lparr>ar_sha256 = sha, ar_bytes = bytes, ar_kind = kind, ar_created_ms = now, ar_last_used_ms = now\<rparr>"
  consider (known) "sha \<in> ar_sha256 ` set (ax_attachments s)" "s' = s\<lparr>ax_attachments := map (touch sha now) (ax_attachments s)\<rparr>"
    | (fresh) "sha \<notin> ar_sha256 ` set (ax_attachments s)" "length (ax_attachments s) < STORE_ATTACHMENT_MAX_ROWS"
        "stored_bytes (ax_attachments s) + bytes \<le> STORE_ATTACHMENT_MAX_BYTES" "s' = s\<lparr>ax_attachments := ax_attachments s @ [?new]\<rparr>"
    using assms(2)
    by (auto simp: record_attachment_def Let_def list_ex_iff sat_add_u64_def u64_max_def attachment_limit_defs not_le image_iff split: if_splits)
  note cases = this
  show "attachments_wf s'"
    using cases assms(1) by cases (auto simp: attachments_wf_def image_image)
  show "sha \<in> ar_sha256 ` set (ax_attachments s')" "ax_leases s' = ax_leases s" "ax_turns s' = ax_turns s"
    "ar_sha256 ` set (ax_attachments s) \<subseteq> ar_sha256 ` set (ax_attachments s')"
    using cases by (cases; auto simp: image_image)+
qed

lemma insert_leaseD:
  assumes "insert_lease now token sha i s = Inr s'"
  obtains l where "s' = s\<lparr>ax_leases := ax_leases s @ [l]\<rparr>" "le_lease_token l = token" "le_sha256 l = sha" "le_turn_row_id l = i"
    "token \<notin> le_lease_token ` set (ax_leases s)" "sha \<in> ar_sha256 ` set (ax_attachments s)" "i \<in> tn_id ` set (ax_turns s)"
    "length (ax_leases s) < STORE_ATTACHMENT_LEASE_MAX_ROWS"
  using assms
  by (intro that [of "\<lparr>le_lease_token = token, le_sha256 = sha, le_turn_row_id = i, le_created_ms = now\<rparr>"])
    (auto simp: insert_lease_def list_ex_iff image_iff not_le split: if_splits)

lemma insert_lease_wf: "attachments_wf s \<Longrightarrow> insert_lease now token sha i s = Inr s' \<Longrightarrow> attachments_wf s'"
  by (erule insert_leaseD) (auto simp: attachments_wf_def)

lemma leases_filter_wf: "attachments_wf s \<Longrightarrow> attachments_wf (s\<lparr>ax_leases := filter P (ax_leases s)\<rparr>)"
  by (auto simp: attachments_wf_def distinct_map_filter' intro: order_trans [OF length_filter_le])

lemma attachments_filter_wf:
  assumes "attachments_wf s" "\<And>l. l \<in> set (filter Q (ax_leases s)) \<Longrightarrow> le_sha256 l \<noteq> sha"
  shows "attachments_wf (s\<lparr>ax_attachments := filter (\<lambda>r. ar_sha256 r \<noteq> sha) (ax_attachments s), ax_leases := filter Q (ax_leases s)\<rparr>)"
  using assms stored_bytes_filter [of "\<lambda>r. ar_sha256 r \<noteq> sha" "ax_attachments s"]
  by (force simp: attachments_wf_def distinct_map_filter' intro: order_trans [OF length_filter_le])

section \<open>Runs\<close>

text \<open>Turns are updated and added by other jobs; no operation of the store deletes one.\<close>

datatype attachment_op =
    AxPut int string nat string
  | AxFetch int string string nat string int
  | AxLease int string string int
  | AxRelease string
  | AxDelete string
  | AxReleaseTurn int
  | AxForce string
  | AxStale
  | AxTouch string int
  | AxTurns "turn_row \<Rightarrow> turn_row" turn_table

fun apply_attachment_op :: "attachment_op \<Rightarrow> attachment_tables \<Rightarrow> attachment_tables" where
  "apply_attachment_op (AxPut now sha bytes kind) s = after (put_attachment now sha bytes kind) s"
| "apply_attachment_op (AxFetch now uuid sha bytes kind i) s = after (put_attachment_and_lease now uuid sha bytes kind i) s"
| "apply_attachment_op (AxLease now uuid sha i) s = after (add_attachment_lease now uuid sha i) s"
| "apply_attachment_op (AxRelease token) s = after (release_attachment_lease token) s"
| "apply_attachment_op (AxDelete sha) s = after (delete_attachment sha) s"
| "apply_attachment_op (AxReleaseTurn i) s = after (release_turn_attachment_leases i) s"
| "apply_attachment_op (AxForce sha) s = after (delete_attachment_force sha) s"
| "apply_attachment_op AxStale s = after delete_stale_attachment_leases s"
| "apply_attachment_op (AxTouch sha ms) s = after (set_attachment_last_used sha ms) s"
| "apply_attachment_op (AxTurns f rows) s = s\<lparr>ax_turns := map (\<lambda>r. (f r)\<lparr>tn_id := tn_id r\<rparr>) (ax_turns s) @ rows\<rparr>"

definition empty_attachments :: attachment_tables where
  "empty_attachments = \<lparr>ax_attachments = [], ax_leases = [], ax_turns = []\<rparr>"

lemma delete_attachment_wf:
  assumes "attachments_wf s" "delete_attachment sha s = Inr (b, s')"
  shows "attachments_wf s'"
proof -
  have "s' = s \<or> \<not> leased sha s \<and> s' = s\<lparr>ax_attachments := filter (\<lambda>r. ar_sha256 r \<noteq> sha) (ax_attachments s)\<rparr>"
    using assms(2) by (auto simp: delete_attachment_def split: if_splits dest!: run_sized_Inr)
  then show ?thesis
    using assms(1) attachments_filter_wf [OF assms(1), of "\<lambda>_. True" sha] by (auto simp: leased_def list_ex_iff)
qed

lemma delete_attachment_force_wf:
  assumes "attachments_wf s" "delete_attachment_force sha s = Inr (b, s')"
  shows "attachments_wf s'"
proof -
  have s': "s' = s\<lparr>ax_attachments := filter (\<lambda>r. ar_sha256 r \<noteq> sha) (ax_attachments s),
      ax_leases := filter (\<lambda>l. \<not> (le_sha256 l = sha \<and> list_ex (\<lambda>r. ar_sha256 r = sha) (ax_attachments s))) (ax_leases s)\<rparr>"
    using assms(2) by (auto simp: delete_attachment_force_def dest!: run_sized_Inr)
  have q: "le_sha256 l \<noteq> sha" if "l \<in> set (filter (\<lambda>l. \<not> (le_sha256 l = sha \<and> list_ex (\<lambda>r. ar_sha256 r = sha) (ax_attachments s))) (ax_leases s))" for l
  proof -
    from that have l: "l \<in> set (ax_leases s)" "\<not> (le_sha256 l = sha \<and> list_ex (\<lambda>r. ar_sha256 r = sha) (ax_attachments s))" by simp_all
    from l(1) assms(1) obtain r where "r \<in> set (ax_attachments s)" "ar_sha256 r = le_sha256 l" unfolding attachments_wf_def by (metis imageE)
    with l(2) show ?thesis by (auto simp: list_ex_iff)
  qed
  show ?thesis unfolding s' by (rule attachments_filter_wf [OF assms(1) q])
qed

lemma apply_attachment_op_wf:
  assumes "attachments_wf s"
  shows "attachments_wf (apply_attachment_op op s)"
proof (cases op)
  case (AxPut now sha bytes kind)
  with assms show ?thesis
    by (auto simp: after_def put_attachment_def split: sum.splits dest!: run_sized_Inr dest: record_attachment_wf(1))
next
  case (AxFetch now uuid sha bytes kind i)
  have "attachments_wf u" if "record_attachment now sha (clamp_i64 bytes) kind s = Inr t" "insert_lease now token sha i t = Inr u" for t u token
    by (rule insert_lease_wf [OF record_attachment_wf(1) [OF assms that(1)] that(2)])
  with assms AxFetch show ?thesis
    by (auto simp: after_def put_attachment_and_lease_def Let_def split: sum.splits dest!: run_sized_Inr)
next
  case (AxLease now uuid sha i)
  with assms show ?thesis
    by (auto simp: after_def add_attachment_lease_def Let_def split: sum.splits dest!: run_sized_Inr dest: insert_lease_wf)
next
  case (AxRelease token)
  with assms show ?thesis
    by (auto simp: after_def release_attachment_lease_def leases_filter_wf split: sum.splits dest!: run_sized_Inr)
next
  case (AxDelete sha)
  with assms show ?thesis by (auto simp: after_def split: sum.splits dest: delete_attachment_wf)
next
  case (AxForce sha)
  with assms show ?thesis by (auto simp: after_def split: sum.splits dest: delete_attachment_force_wf)
next
  case (AxTouch sha ms)
  have "s' = s\<lparr>ax_attachments := map (touch sha ms) (ax_attachments s)\<rparr>" if "set_attachment_last_used sha ms s = Inr (u, s')" for u s'
    using that by (auto simp: set_attachment_last_used_def split: if_splits dest!: run_sized_Inr)
  with assms AxTouch show ?thesis by (auto simp: after_def attachments_wf_def image_image split: sum.splits)
next
  case (AxTurns f rows)
  with assms show ?thesis by (auto simp: attachments_wf_def image_Un image_image)
qed (use assms in \<open>simp_all add: after_def release_turn_attachment_leases_def delete_stale_attachment_leases_def leases_filter_wf\<close>)

interpretation attachment_run: invariant_steps apply_attachment_op attachments_wf
  by unfold_locales (rule apply_attachment_op_wf)

lemma empty_attachments_wf: "attachments_wf empty_attachments"
  by (simp add: attachments_wf_def empty_attachments_def)

lemmas attachment_run_wf = attachment_run.run_inv [OF empty_attachments_wf]

lemma insert_lease_keeps: "insert_lease now token sha i s = Inr s' \<Longrightarrow> set (ax_leases s) \<subseteq> set (ax_leases s')"
  by (erule insert_leaseD) auto

lemma record_attachment_keeps: "record_attachment now sha bytes kind s = Inr s' \<Longrightarrow> ax_leases s' = ax_leases s"
  by (auto simp: record_attachment_def Let_def split: if_splits)

text \<open>
  In every run a lease protects its attachment: the row is there, and the lease itself ends only by its own token, by the release of its turn, by a
  forced deletion of that attachment, or by the sweep of stale leases once its turn is settled. Rows, bytes and leases stay within
  their limits.
\<close>

theorem lease_protects_its_attachment:
  fixes ops :: "attachment_op list"
  defines "s \<equiv> fold apply_attachment_op ops empty_attachments"
  assumes "l \<in> set (ax_leases s)"
  shows "le_sha256 l \<in> ar_sha256 ` set (ax_attachments s) \<and> le_turn_row_id l \<in> tn_id ` set (ax_turns s) \<and>
    length (ax_attachments s) \<le> STORE_ATTACHMENT_MAX_ROWS \<and> stored_bytes (ax_attachments s) \<le> STORE_ATTACHMENT_MAX_BYTES \<and>
    length (ax_leases s) \<le> STORE_ATTACHMENT_LEASE_MAX_ROWS \<and>
    (l \<in> set (ax_leases (apply_attachment_op op s)) \<and> le_sha256 l \<in> ar_sha256 ` set (ax_attachments (apply_attachment_op op s)) \<or>
     op = AxRelease (le_lease_token l) \<or> op = AxReleaseTurn (le_turn_row_id l) \<or> op = AxForce (le_sha256 l) \<or>
     op = AxStale \<and> stale_lease (ax_turns s) l)"
proof -
  have wf: "attachments_wf s" unfolding s_def by (rule attachment_run_wf)
  have "l \<in> set (ax_leases (apply_attachment_op op s)) \<or> op = AxRelease (le_lease_token l) \<or> op = AxReleaseTurn (le_turn_row_id l) \<or>
      op = AxForce (le_sha256 l) \<or> op = AxStale \<and> stale_lease (ax_turns s) l"
  proof (cases op)
    case (AxPut now sha bytes kind)
    then show ?thesis using assms(2) record_attachment_keeps
      by (auto simp: after_def put_attachment_def split: sum.splits dest!: run_sized_Inr)
  next
    case (AxFetch now uuid sha bytes kind i)
    then show ?thesis using assms(2) record_attachment_keeps insert_lease_keeps
      by (fastforce simp: after_def put_attachment_and_lease_def Let_def split: sum.splits dest!: run_sized_Inr)
  next
    case (AxLease now uuid sha i)
    then show ?thesis using assms(2) insert_lease_keeps
      by (fastforce simp: after_def add_attachment_lease_def Let_def split: sum.splits dest!: run_sized_Inr)
  qed (use assms(2) in \<open>auto simp: after_def release_attachment_lease_def delete_attachment_def release_turn_attachment_leases_def
        delete_attachment_force_def delete_stale_attachment_leases_def set_attachment_last_used_def split: sum.splits if_splits dest!: run_sized_Inr\<close>)
  moreover have "attachments_wf (apply_attachment_op op s)" by (rule apply_attachment_op_wf [OF wf])
  ultimately show ?thesis using wf assms(2) by (auto simp: attachments_wf_def)
qed

end
