(* ===== verification/Attachment_Cache.thy ===== *)
theory Attachment_Cache
  imports Attachment_Store Scope_Actor
begin

text \<open>
  The content-addressed attachment cache, \<^verbatim>\<open>src/src/runtime/attachments.rs\<close>: validation of what is fetched, installation of a file, the fetch of
  one resource with its lease, garbage collection and reconciliation of the directory with the store. The directory is a map from names to the
  bytes of regular files; temporary files live only inside \<open>install_file\<close>. The digest, the failures of file operations and store calls and the
  moments of cancellation are arguments (\<open>cache_env\<close>). All of this runs under the lock of the cache, one operation at a time.
\<close>

section \<open>Limits and checks\<close>

datatype download_kind = DlPermanentAuth | DlRetryable | DlProtocol | DlExhausted

datatype attach_error =
    AttachCancelled string
  | AttachDownload download_kind
  | AttachTooLarge string nat
  | AttachTooManyResources string nat
  | AttachTurnTotalExceeded nat
  | AttachInvalidResourceKey string
  | AttachInvalidFileName string
  | AttachInvalidMime string
  | AttachCapacityExceeded string
  | AttachHashMismatch string
  | AttachInvalidPath string
  | AttachIo string
  | AttachStore string store_error

record attachment_limits =
  atl_max_attachment_bytes :: nat
  atl_max_attachments_per_message :: nat
  atl_max_turn_total_bytes :: nat
  atl_max_cache_files :: nat
  atl_max_cache_bytes :: nat
  atl_max_file_name_bytes :: nat
  atl_max_mime_bytes :: nat
  atl_max_resource_key_bytes :: nat
  atl_gc_age_ms :: nat
  atl_gc_batch :: nat
  atl_reconcile_batch :: nat

definition ATTACHMENT_GC_BATCH :: nat where "ATTACHMENT_GC_BATCH = 256"
definition ATTACHMENT_RECONCILE_BATCH :: nat where "ATTACHMENT_RECONCILE_BATCH = 4096"
definition ATTACHMENT_TEMP_PREFIX :: string where "ATTACHMENT_TEMP_PREFIX = ''.tmp-''"
definition ATTACHMENT_CACHE_MARKER :: string where "ATTACHMENT_CACHE_MARKER = ''.attachment-cache''"
definition ATTACHMENT_INSTANCE_LOCK :: string where "ATTACHMENT_INSTANCE_LOCK = ''.attachment-instance.lock''"

definition default_attachment_limits :: attachment_limits where
  "default_attachment_limits =
     \<lparr>atl_max_attachment_bytes = 20 * 1024 * 1024, atl_max_attachments_per_message = 16, atl_max_turn_total_bytes = 64 * 1024 * 1024,
      atl_max_cache_files = 4096, atl_max_cache_bytes = 256 * 1024 * 1024, atl_max_file_name_bytes = 255, atl_max_mime_bytes = 128,
      atl_max_resource_key_bytes = 4 * 1024, atl_gc_age_ms = 24 * 60 * 60 * 1000, atl_gc_batch = ATTACHMENT_GC_BATCH,
      atl_reconcile_batch = ATTACHMENT_RECONCILE_BATCH\<rparr>"

definition clamped :: "attachment_limits \<Rightarrow> attachment_limits" where
  "clamped l = l\<lparr>atl_gc_batch := max 1 (min (atl_gc_batch l) ATTACHMENT_GC_BATCH),
     atl_reconcile_batch := max 1 (min (atl_reconcile_batch l) ATTACHMENT_RECONCILE_BATCH)\<rparr>"

definition key_byte_ok :: "char \<Rightarrow> bool" where
  "key_byte_ok c = (let b = (of_char c :: nat) in
     48 \<le> b \<and> b \<le> 57 \<or> 65 \<le> b \<and> b \<le> 90 \<or> 97 \<le> b \<and> b \<le> 122 \<or> c = CHR ''_'' \<or> c = CHR ''-'' \<or> c = CHR ''.'')"

definition check_resource_key :: "attachment_limits \<Rightarrow> string \<Rightarrow> (attach_error, unit) result" where
  "check_resource_key l key =
     ensure (\<not> (key = [] \<or> length key > atl_max_resource_key_bytes l) \<and> list_all key_byte_ok key) (AttachInvalidResourceKey ''checking a resource key'')"

definition check_resource_batch :: "attachment_limits \<Rightarrow> resource_desc list \<Rightarrow> (attach_error, unit) result" where
  "check_resource_batch l descs =
     (if length descs > atl_max_attachments_per_message l
      then Inl (AttachTooManyResources ''checking a resource batch'' (atl_max_attachments_per_message l))
      else for_each (\<lambda>d. check_resource_key l (rd_key d)) descs)"

definition check_attachment_bytes :: "attachment_limits \<Rightarrow> nat \<Rightarrow> (attach_error, unit) result" where
  "check_attachment_bytes l len =
     ensure (\<not> len > atl_max_attachment_bytes l) (AttachTooLarge ''downloading an attachment'' (atl_max_attachment_bytes l))"

definition check_turn_total :: "attachment_limits \<Rightarrow> nat \<Rightarrow> (attach_error, unit) result" where
  "check_turn_total l sum_held = ensure (\<not> sum_held > atl_max_turn_total_bytes l) (AttachTurnTotalExceeded (atl_max_turn_total_bytes l))"

definition check_file_name :: "attachment_limits \<Rightarrow> string \<Rightarrow> (attach_error, unit) result" where
  "check_file_name l name =
     ensure (\<not> (name = [] \<or> length name > atl_max_file_name_bytes l) \<and> \<not> (name = ''.'' \<or> name = ''..'') \<and>
        \<not> list_ex (\<lambda>c. let b = (of_char c :: nat) in b = 47 \<or> b = 92 \<or> b = 0 \<or> b < 32 \<or> b = 127) name)
       (AttachInvalidFileName ''checking a display file name'')"

definition check_mime :: "attachment_limits \<Rightarrow> string \<Rightarrow> (attach_error, unit) result" where
  "check_mime l mime =
     ensure (\<not> (mime = [] \<or> length mime > atl_max_mime_bytes l) \<and> list_all (\<lambda>c. let b = (of_char c :: nat) in 32 \<le> b \<and> b \<le> 126) mime)
       (AttachInvalidMime ''checking a MIME type'')"

definition resource_kind_str :: "media_kind \<Rightarrow> string" where
  "resource_kind_str kind = (case kind of KindImage \<Rightarrow> ''image'' | KindFile \<Rightarrow> ''file'')"

definition sha256_hex :: "(nat list \<Rightarrow> nat list) \<Rightarrow> nat list \<Rightarrow> string" where
  "sha256_hex digest data = concat (map (\<lambda>byte. [hex_char (byte div 16), hex_char (byte mod 16)]) (digest data))"

definition is_valid_sha256_name :: "string \<Rightarrow> bool" where
  "is_valid_sha256_name name \<longleftrightarrow>
     length name = 64 \<and> list_all (\<lambda>c. let b = (of_char c :: nat) in 48 \<le> b \<and> b \<le> 57 \<or> 97 \<le> b \<and> b \<le> 102) name"

section \<open>The cache and its surroundings\<close>

datatype file_effect = FileRemoved string | FileInstalled string

record cache =
  cc_files :: "string \<Rightarrow> nat list option"
  cc_tables :: attachment_tables
  cc_log :: "file_effect list"

text \<open>The places where a file operation can fail, the first number telling the installation before the commit (0) from the one after it (1),
  the second the attempt; the store calls; and the points where a fetch looks at its cancellation.\<close>

datatype io_site =
    IoTemp nat nat | IoOpenOld nat nat | IoRemoveOld nat nat | IoRename nat nat | IoOpenTaken nat nat | IoRemoveTaken nat nat | IoSync nat nat
  | IoOpenAgain | IoEvict string | IoCandidate string | IoRawCandidate nat | IoDropCorrupt string | IoSize string | IoKind string

datatype cache_call = CallPut | CallReleaseEarly | CallReleaseLate | CallList | CallDelete string | CallRow string | CallSnapshot | CallListAgain
  | CallForce string | CallRowAfterDrop string | CallStale

datatype fetch_point = AtDownload | AtHash | AtLock | AtInstalled | AtCommitted | AtVerified

record cache_env =
  ce_sha256 :: "nat list \<Rightarrow> nat list"
  ce_io :: "io_site \<Rightarrow> string option"
  ce_store :: "cache_call \<Rightarrow> store_error option"
  ce_cancelled :: "fetch_point \<Rightarrow> bool"
  ce_store_ms :: int
  ce_now_ms :: int
  ce_uuid :: string

type_synonym 'a cache_m = "cache \<Rightarrow> (attach_error, 'a) result \<times> cache"

definition cm_ok :: "'a \<Rightarrow> 'a cache_m" where
  "cm_ok a c = (Inr a, c)"

definition cm_fail :: "attach_error \<Rightarrow> 'a cache_m" where
  "cm_fail e c = (Inl e, c)"

definition cm_bind :: "'a cache_m \<Rightarrow> ('a \<Rightarrow> 'b cache_m) \<Rightarrow> 'b cache_m" where
  "cm_bind m f c = (case m c of (Inl e, c') \<Rightarrow> (Inl e, c') | (Inr a, c') \<Rightarrow> f a c')"

definition cm_lift :: "(attach_error, 'a) result \<Rightarrow> 'a cache_m" where
  "cm_lift r c = (r, c)"

definition store_call :: "store_error option \<Rightarrow> string \<Rightarrow> (attachment_tables, 'a) job \<Rightarrow> 'a cache_m" where
  "store_call fault context' job c =
     (case with_fault fault job (cc_tables c) of
        Inl e \<Rightarrow> (Inl (AttachStore context' e), c)
      | Inr (a, t) \<Rightarrow> (Inr a, c\<lparr>cc_tables := t\<rparr>))"

section \<open>Files\<close>

text \<open>Nothing else writes a content file while it is verified, so the bytes read are the bytes of the file. The hash that is compared is the
  one of the digest, as \<open>sha256_hex\<close> is applied to the finished digest.\<close>

definition verify_existing :: "cache_env \<Rightarrow> string option \<Rightarrow> string \<Rightarrow> nat \<Rightarrow> cache \<Rightarrow> (attach_error, unit) result" where
  "verify_existing env fault expected_sha expected_len c =
     (case (fault, cc_files c expected_sha) of
        (Some context', _) \<Rightarrow> Inl (AttachIo context')
      | (None, None) \<Rightarrow> Inl (AttachIo ''opening a cached file for verification'')
      | (None, Some content) \<Rightarrow>
          if length content \<noteq> expected_len then Inl (AttachHashMismatch ''cached file size'')
          else if sha256_hex (ce_sha256 env) (ce_sha256 env content) \<noteq> expected_sha then Inl (AttachHashMismatch ''cached file content'')
          else Inr ())"

definition remove_direct_child :: "string option \<Rightarrow> string \<Rightarrow> bool cache_m" where
  "remove_direct_child fault name c =
     (if CHR ''/'' \<in> set name then (Inl (AttachInvalidPath ''deleting outside the cache root''), c)
      else case (fault, cc_files c name) of
        (Some context', _) \<Rightarrow> (Inl (AttachIo context'), c)
      | (None, None) \<Rightarrow> (Inr False, c)
      | (None, Some _) \<Rightarrow> (Inr True, c\<lparr>cc_files := (cc_files c)(name := None), cc_log := cc_log c @ [FileRemoved name]\<rparr>))"

definition rename_into :: "string \<Rightarrow> nat list \<Rightarrow> cache \<Rightarrow> cache" where
  "rename_into sha bytes c = c\<lparr>cc_files := (cc_files c)(sha := Some bytes), cc_log := cc_log c @ [FileInstalled sha]\<rparr>"

text \<open>One pass of the loop of \<open>install_file\<close> after the temporary file: \<open>Some\<close> is its return, \<open>None\<close> the next pass.\<close>

definition clear_old :: "cache_env \<Rightarrow> string option \<Rightarrow> string option \<Rightarrow> string \<Rightarrow> nat \<Rightarrow> bool cache_m" where
  "clear_old env open_fault remove_fault sha len c =
     (if cc_files c sha = None then (Inr False, c)
      else if verify_existing env open_fault sha len c = Inr () then (Inr True, c)
      else cm_bind (remove_direct_child remove_fault sha) (\<lambda>_. cm_ok False) c)"

fun install_attempts :: "cache_env \<Rightarrow> nat \<Rightarrow> string \<Rightarrow> nat list \<Rightarrow> nat \<Rightarrow> nat \<Rightarrow> unit cache_m" where
  "install_attempts env phase sha bytes k 0 = cm_fail (AttachIo ''installing a cached file after retries'')"
| "install_attempts env phase sha bytes k (Suc n) =
     (case ce_io env (IoTemp phase k) of
        Some context' \<Rightarrow> cm_fail (AttachIo context')
      | None \<Rightarrow>
          cm_bind (clear_old env (ce_io env (IoOpenOld phase k)) (ce_io env (IoRemoveOld phase k)) sha (length bytes)) (\<lambda>present.
            if present then cm_ok ()
            else case ce_io env (IoRename phase k) of
              None \<Rightarrow> (\<lambda>c. case ce_io env (IoSync phase k) of
                  Some context' \<Rightarrow> (Inl (AttachIo context'), rename_into sha bytes c)
                | None \<Rightarrow> (Inr (), rename_into sha bytes c))
            | Some _ \<Rightarrow> (\<lambda>c.
                if cc_files c sha = None then (Inl (AttachIo ''renaming a temp file into the cache''), c)
                else cm_bind (clear_old env (ce_io env (IoOpenTaken phase k)) (ce_io env (IoRemoveTaken phase k)) sha (length bytes)) (\<lambda>present.
                  if present then cm_ok () else install_attempts env phase sha bytes (Suc k) n) c)))"

definition install_file :: "cache_env \<Rightarrow> nat \<Rightarrow> string \<Rightarrow> nat list \<Rightarrow> unit cache_m" where
  "install_file env phase sha bytes = install_attempts env phase sha bytes 0 2"

section \<open>Fetching\<close>

record cached_attachment =
  ca_sha256 :: string
  ca_kind :: media_kind
  ca_bytes :: nat
  ca_lease_token :: string

definition commit_lease :: "cache_env \<Rightarrow> string \<Rightarrow> nat \<Rightarrow> media_kind \<Rightarrow> int \<Rightarrow> string cache_m" where
  "commit_lease env sha bytes kind turn_row_id =
     cm_bind (store_call (ce_store env CallPut) ''recording and leasing an attachment''
         (put_attachment_and_lease (ce_store_ms env) (ce_uuid env) sha bytes (resource_kind_str kind) turn_row_id)) (\<lambda>token.
       if ce_cancelled env AtCommitted
       then cm_bind (store_call (ce_store env CallReleaseEarly) ''recording and leasing an attachment'' (release_attachment_lease token)) (\<lambda>_. cm_ok token)
       else cm_ok token)"

definition ignore_failure :: "'a cache_m \<Rightarrow> unit cache_m" where
  "ignore_failure m c = (Inr (), snd (m c))"

definition cancel_point :: "cache_env \<Rightarrow> fetch_point \<Rightarrow> string \<Rightarrow> unit cache_m" where
  "cancel_point env point context' = (if ce_cancelled env point then cm_fail (AttachCancelled context') else cm_ok ())"

definition reverify :: "cache_env \<Rightarrow> string \<Rightarrow> nat list \<Rightarrow> unit cache_m" where
  "reverify env sha bytes c =
     (if verify_existing env (ce_io env IoOpenAgain) sha (length bytes) c = Inr () then (Inr (), c) else install_file env 1 sha bytes c)"

definition fetch_inner :: "cache_env \<Rightarrow> attachment_limits \<Rightarrow> (attach_error, nat list) result \<Rightarrow> resource_desc \<Rightarrow> int \<Rightarrow> cached_attachment cache_m" where
  "fetch_inner env limits download desc turn_row_id =
     cm_bind (cm_lift (check_resource_key limits (rd_key desc))) (\<lambda>_.
     cm_bind (cancel_point env AtDownload ''downloading an attachment'') (\<lambda>_.
     cm_bind (cm_lift download) (\<lambda>bytes.
     cm_bind (cm_lift (check_attachment_bytes limits (length bytes))) (\<lambda>_.
       let sha = sha256_hex (ce_sha256 env) bytes in
       cm_bind (cancel_point env AtHash ''hashing a downloaded attachment'') (\<lambda>_.
       cm_bind (cancel_point env AtLock ''waiting to install an attachment'') (\<lambda>_.
       cm_bind (install_file env 0 sha bytes) (\<lambda>_.
       cm_bind (cancel_point env AtInstalled ''installing a downloaded attachment'') (\<lambda>_.
       cm_bind (commit_lease env sha (length bytes) (rd_kind desc) turn_row_id) (\<lambda>token.
       cm_bind (reverify env sha bytes) (\<lambda>_.
         if ce_cancelled env AtVerified
         then cm_bind (ignore_failure (store_call (ce_store env CallReleaseLate) ''releasing an attachment lease'' (release_attachment_lease token)))
                (\<lambda>_. cm_fail (AttachCancelled ''verifying an installed attachment''))
         else cm_ok \<lparr>ca_sha256 = sha, ca_kind = rd_kind desc, ca_bytes = length bytes, ca_lease_token = token\<rparr>))))))))))"

definition release_turn :: "cache_env \<Rightarrow> int \<Rightarrow> nat cache_m" where
  "release_turn env turn_row_id =
     store_call (ce_store env CallReleaseLate) ''releasing turn attachment leases'' (release_turn_attachment_leases turn_row_id)"

definition release_lease :: "cache_env \<Rightarrow> string \<Rightarrow> bool cache_m" where
  "release_lease env token = store_call (ce_store env CallReleaseLate) ''releasing an attachment lease'' (release_attachment_lease token)"

section \<open>Garbage collection\<close>

record gc_stats =
  gs_inspected :: nat
  gs_evicted :: nat
  gs_skipped_leased :: nat
  gs_freed_bytes :: nat

definition gc_start :: gc_stats where
  "gc_start = \<lparr>gs_inspected = 0, gs_evicted = 0, gs_skipped_leased = 0, gs_freed_bytes = 0\<rparr>"

definition unlink_evicted :: "cache_env \<Rightarrow> string \<Rightarrow> bool cache_m" where
  "unlink_evicted env sha =
     (if \<not> is_valid_sha256_name sha then cm_ok True
      else cm_bind (store_call (ce_store env (CallRow sha)) ''re-checking an attachment before unlink'' (attachment_row_read sha)) (\<lambda>row.
        if row \<noteq> None then cm_ok False
        else cm_bind (remove_direct_child (ce_io env (IoEvict sha)) sha) (\<lambda>_. cm_ok True)))"

fun gc_loop :: "cache_env \<Rightarrow> attachment_limits \<Rightarrow> attachment_row list \<Rightarrow> gc_stats \<Rightarrow> nat \<Rightarrow> nat \<Rightarrow> gc_stats cache_m" where
  "gc_loop env limits [] acc files sum_held = cm_ok acc"
| "gc_loop env limits (row # rows) acc files sum_held =
     (if gs_inspected acc \<ge> atl_gc_batch limits then cm_ok acc
      else let acc = acc\<lparr>gs_inspected := sat_add_u64 (gs_inspected acc) 1\<rparr>;
               aged = sat_i64 (ce_now_ms env - ar_last_used_ms row) \<ge> min (int (atl_gc_age_ms limits)) i64_max;
               over = files > atl_max_cache_files limits \<or> sum_held > atl_max_cache_bytes limits in
        if \<not> aged \<and> \<not> over then gc_loop env limits rows acc files sum_held
        else cm_bind (store_call (ce_store env (CallDelete (ar_sha256 row))) ''deleting an attachment during gc'' (delete_attachment (ar_sha256 row))) (\<lambda>deleted.
          if \<not> deleted
          then gc_loop env limits rows (acc\<lparr>gs_skipped_leased := sat_add_u64 (gs_skipped_leased acc) 1\<rparr>) files sum_held
          else cm_bind (unlink_evicted env (ar_sha256 row)) (\<lambda>gone.
            if \<not> gone then gc_loop env limits rows acc files sum_held
            else gc_loop env limits rows (acc\<lparr>gs_evicted := sat_add_u64 (gs_evicted acc) 1,
                   gs_freed_bytes := sat_add_u64 (gs_freed_bytes acc) (ar_bytes row)\<rparr>) (files - 1) (sum_held - ar_bytes row))))"

definition gc_inner :: "cache_env \<Rightarrow> attachment_limits \<Rightarrow> gc_stats cache_m" where
  "gc_inner env limits =
     cm_bind (store_call (ce_store env CallList) ''listing attachments for gc'' list_attachments) (\<lambda>rows.
       gc_loop env limits rows gc_start (length rows) (foldl (\<lambda>n row. sat_add_u64 n (ar_bytes row)) 0 rows))"

section \<open>Reconciliation\<close>

text \<open>What the directory iterator yields: an unreadable entry, or a name (opaque when it is not UTF-8) with the kind and size that were seen.\<close>

datatype entry_kind = EkFile nat | EkDir | EkOther | EkUnreadable

datatype dir_entry = EntryError | EntryNamed string entry_kind | EntryRaw nat entry_kind

datatype child = NamedChild string | RawChild nat

record scan_candidates =
  sn_scanned :: nat
  sn_temp :: "child list"
  sn_orphan :: "string list"
  sn_corrupt :: "string list"
  sn_unrecognized :: "child list"
  sn_errors :: nat
  sn_skipped_dirs :: nat

definition no_candidates :: scan_candidates where
  "no_candidates = \<lparr>sn_scanned = 0, sn_temp = [], sn_orphan = [], sn_corrupt = [], sn_unrecognized = [], sn_errors = 0, sn_skipped_dirs = 0\<rparr>"

definition classify_file :: "(string \<times> nat) list \<Rightarrow> string \<Rightarrow> nat \<Rightarrow> scan_candidates \<Rightarrow> scan_candidates" where
  "classify_file rows name actual sc =
     (if strip_prefix ATTACHMENT_TEMP_PREFIX name \<noteq> None then sc\<lparr>sn_temp := sn_temp sc @ [NamedChild name]\<rparr>
      else if is_valid_sha256_name name
      then (case map_of rows name of
              Some expected \<Rightarrow> if actual \<noteq> expected then sc\<lparr>sn_corrupt := sn_corrupt sc @ [name]\<rparr> else sc
            | None \<Rightarrow> sc\<lparr>sn_orphan := sn_orphan sc @ [name]\<rparr>)
      else sc\<lparr>sn_unrecognized := sn_unrecognized sc @ [NamedChild name]\<rparr>)"

definition inspect_entry :: "(string \<times> nat) list \<Rightarrow> dir_entry \<Rightarrow> scan_candidates \<Rightarrow> scan_candidates" where
  "inspect_entry rows entry sc =
     (case entry of
        EntryError \<Rightarrow> sc\<lparr>sn_errors := sat_add_u64 (sn_errors sc) 1\<rparr>
      | EntryNamed name kind \<Rightarrow>
          if name = ATTACHMENT_CACHE_MARKER \<or> name = ATTACHMENT_INSTANCE_LOCK then sc
          else (case kind of
             EkUnreadable \<Rightarrow> sc\<lparr>sn_errors := sat_add_u64 (sn_errors sc) 1\<rparr>
           | EkDir \<Rightarrow> sc\<lparr>sn_skipped_dirs := sat_add_u64 (sn_skipped_dirs sc) 1\<rparr>
           | EkOther \<Rightarrow> sc
           | EkFile actual \<Rightarrow> classify_file rows name actual sc)
      | EntryRaw i kind \<Rightarrow>
          (case kind of
             EkUnreadable \<Rightarrow> sc\<lparr>sn_errors := sat_add_u64 (sn_errors sc) 1\<rparr>
           | EkDir \<Rightarrow> sc\<lparr>sn_skipped_dirs := sat_add_u64 (sn_skipped_dirs sc) 1\<rparr>
           | EkOther \<Rightarrow> sc
           | EkFile actual \<Rightarrow> sc\<lparr>sn_unrecognized := sn_unrecognized sc @ [RawChild i]\<rparr>))"

definition scan_entry :: "(string \<times> nat) list \<Rightarrow> dir_entry \<Rightarrow> scan_candidates \<Rightarrow> scan_candidates" where
  "scan_entry rows entry sc = inspect_entry rows entry (sc\<lparr>sn_scanned := sat_add_u64 (sn_scanned sc) 1\<rparr>)"

text \<open>The iterator is given as the entries it still has to yield; \<open>None\<close> after the call is the end of the cycle.\<close>

definition scan_directory_batch :: "(string \<times> nat) list \<Rightarrow> nat \<Rightarrow> dir_entry list \<Rightarrow> scan_candidates \<times> dir_entry list option" where
  "scan_directory_batch rows batch entries =
     (fold (scan_entry rows) (take batch entries) no_candidates, if length entries < batch then None else Some (drop batch entries))"

record reconcile_stats =
  rs_scanned_entries :: nat
  rs_temp_files :: nat
  rs_orphan_files :: nat
  rs_corrupt_files :: nat
  rs_dropped_rows :: nat
  rs_stale_leases :: nat
  rs_skipped_dirs :: nat
  rs_errors :: nat
  rs_completed_cycle :: bool
  rs_gc :: gc_stats

definition remove_child :: "cache_env \<Rightarrow> child \<Rightarrow> bool cache_m" where
  "remove_child env ch =
     (case ch of
        NamedChild name \<Rightarrow> remove_direct_child (ce_io env (IoCandidate name)) name
      | RawChild i \<Rightarrow> (case ce_io env (IoRawCandidate i) of Some context' \<Rightarrow> cm_fail (AttachIo context') | None \<Rightarrow> cm_ok True))"

text \<open>A loop over candidates with the shared budget of deletions; it gives the deletions so far and the number of files of this kind.\<close>

fun delete_children :: "cache_env \<Rightarrow> nat \<Rightarrow> child list \<Rightarrow> nat \<Rightarrow> nat \<Rightarrow> (nat \<times> nat) cache_m" where
  "delete_children env batch [] deletions count = cm_ok (deletions, count)"
| "delete_children env batch (ch # chs) deletions count =
     (if deletions \<ge> batch then cm_ok (deletions, count)
      else cm_bind (remove_child env ch) (\<lambda>removed.
        if removed then delete_children env batch chs (deletions + 1) (sat_add_u64 count 1) else delete_children env batch chs deletions count))"

fun delete_orphans :: "cache_env \<Rightarrow> nat \<Rightarrow> (string \<times> nat) list \<Rightarrow> string list \<Rightarrow> nat \<Rightarrow> nat \<Rightarrow> (nat \<times> nat) cache_m" where
  "delete_orphans env batch rows [] deletions count = cm_ok (deletions, count)"
| "delete_orphans env batch rows (sha # shas) deletions count =
     (if deletions \<ge> batch then cm_ok (deletions, count)
      else if map_of rows sha \<noteq> None then delete_orphans env batch rows shas deletions count
      else cm_bind (remove_direct_child (ce_io env (IoCandidate sha)) sha) (\<lambda>removed.
        if removed then delete_orphans env batch rows shas (deletions + 1) (sat_add_u64 count 1)
        else delete_orphans env batch rows shas deletions count))"

text \<open>The size of a file when it is looked at again; a failure to read it counts as the largest number.\<close>

definition file_len :: "cache_env \<Rightarrow> cache \<Rightarrow> string \<Rightarrow> nat" where
  "file_len env c sha =
     (case (ce_io env (IoSize sha), cc_files c sha) of (None, Some content) \<Rightarrow> length content | _ \<Rightarrow> u64_max)"

definition regular_file_exists :: "cache_env \<Rightarrow> cache \<Rightarrow> string \<Rightarrow> bool" where
  "regular_file_exists env c sha \<longleftrightarrow> ce_io env (IoKind sha) = None \<and> cc_files c sha \<noteq> None"

fun mark_corrupt :: "cache_env \<Rightarrow> cache \<Rightarrow> nat \<Rightarrow> (string \<times> nat) list \<Rightarrow> string list \<Rightarrow> nat \<Rightarrow> string list \<Rightarrow> nat \<times> string list" where
  "mark_corrupt env c batch rows [] deletions marked = (deletions, marked)"
| "mark_corrupt env c batch rows (sha # shas) deletions marked =
     (if deletions \<ge> batch then (deletions, marked)
      else case map_of rows sha of
        None \<Rightarrow> mark_corrupt env c batch rows shas deletions marked
      | Some expected \<Rightarrow>
          if file_len env c sha = expected then mark_corrupt env c batch rows shas deletions marked
          else mark_corrupt env c batch rows shas (deletions + 1) (marked @ [sha]))"

record applied_candidates =
  ap_temp_files :: nat
  ap_orphan_files :: nat
  ap_drop_rows :: "string list"
  ap_delete_after_drop :: "string list"

text \<open>The sets of names are lists here; the order in which a hash set is walked is the order of the lists.\<close>

definition apply_scan_candidates ::
    "cache_env \<Rightarrow> scan_candidates \<Rightarrow> (string \<times> nat) list \<Rightarrow> string list \<Rightarrow> nat \<Rightarrow> applied_candidates cache_m" where
  "apply_scan_candidates env sc rows malformed batch =
     cm_bind (delete_children env batch (sn_temp sc) 0 0) (\<lambda>(deletions, temp).
     cm_bind (delete_orphans env batch rows (sn_orphan sc) deletions 0) (\<lambda>(deletions, orphan).
     cm_bind (\<lambda>c. (Inr (mark_corrupt env c batch rows (sn_corrupt sc) deletions []), c)) (\<lambda>(deletions, corrupt).
     cm_bind (delete_children env batch (sn_unrecognized sc) deletions orphan) (\<lambda>(deletions, orphan) c.
       let marked = malformed @ corrupt;
           missing = filter (\<lambda>sha. sha \<notin> set marked \<and> \<not> regular_file_exists env c sha) (map fst rows) in
       (Inr \<lparr>ap_temp_files = temp, ap_orphan_files = orphan, ap_drop_rows = remdups (marked @ missing), ap_delete_after_drop = corrupt\<rparr>, c)))))"

fun drop_rows_loop :: "cache_env \<Rightarrow> string list \<Rightarrow> string list \<Rightarrow> nat \<Rightarrow> nat \<Rightarrow> (nat \<times> nat) cache_m" where
  "drop_rows_loop env unlink [] dropped corrupt = cm_ok (dropped, corrupt)"
| "drop_rows_loop env unlink (sha # shas) dropped corrupt =
     cm_bind (store_call (ce_store env (CallForce sha)) ''dropping a dangling attachment row'' (delete_attachment_force sha)) (\<lambda>gone.
       let dropped = (if gone then sat_add_u64 dropped 1 else dropped) in
       if sha \<in> set unlink
       then cm_bind (store_call (ce_store env (CallRowAfterDrop sha)) ''re-checking a corrupt attachment before unlink'' (attachment_row_read sha)) (\<lambda>row.
         if row = None
         then cm_bind (remove_direct_child (ce_io env (IoDropCorrupt sha)) sha) (\<lambda>removed.
           drop_rows_loop env unlink shas dropped (if removed then sat_add_u64 corrupt 1 else corrupt))
         else drop_rows_loop env unlink shas dropped corrupt)
       else drop_rows_loop env unlink shas dropped corrupt)"

definition rows_by_sha :: "attachment_row list \<Rightarrow> (string \<times> nat) list" where
  "rows_by_sha rows = map (\<lambda>r. (ar_sha256 r, ar_bytes r)) (filter (\<lambda>r. is_valid_sha256_name (ar_sha256 r)) rows)"

definition reconcile_locked :: "cache_env \<Rightarrow> attachment_limits \<Rightarrow> scan_candidates \<Rightarrow> bool \<Rightarrow> reconcile_stats cache_m" where
  "reconcile_locked env limits sc completed =
     cm_bind (store_call (ce_store env CallListAgain) ''listing attachments for reconciliation'' list_attachments) (\<lambda>rows.
     cm_bind (apply_scan_candidates env sc (rows_by_sha rows)
         (map ar_sha256 (filter (\<lambda>r. \<not> is_valid_sha256_name (ar_sha256 r)) rows)) (atl_reconcile_batch limits)) (\<lambda>applied.
     cm_bind (drop_rows_loop env (ap_delete_after_drop applied) (ap_drop_rows applied) 0 0) (\<lambda>(dropped, corrupt).
     cm_bind (store_call (ce_store env CallStale) ''deleting stale attachment leases'' delete_stale_attachment_leases) (\<lambda>stale.
     cm_bind (gc_inner env limits) (\<lambda>gc.
       cm_ok \<lparr>rs_scanned_entries = sn_scanned sc, rs_temp_files = ap_temp_files applied, rs_orphan_files = ap_orphan_files applied,
         rs_corrupt_files = corrupt, rs_dropped_rows = dropped, rs_stale_leases = stale, rs_skipped_dirs = sn_skipped_dirs sc,
         rs_errors = sn_errors sc, rs_completed_cycle = completed, rs_gc = gc\<rparr>)))))"

text \<open>\<open>opened\<close> is what the iterator kept from the previous pass or a fresh one still has to yield, or the failure to open the directory.\<close>

definition reconcile ::
    "cache_env \<Rightarrow> attachment_limits \<Rightarrow> (attach_error, dir_entry list) result \<Rightarrow> (reconcile_stats \<times> dir_entry list option) cache_m" where
  "reconcile env limits opened =
     cm_bind (store_call (ce_store env CallSnapshot) ''listing attachments for reconciliation'' list_attachments) (\<lambda>rows.
     cm_bind (cm_lift opened) (\<lambda>entries.
       let (sc, rest) = scan_directory_batch (rows_by_sha rows) (atl_reconcile_batch limits) entries in
       cm_bind (reconcile_locked env limits sc (rest = None)) (\<lambda>st. cm_ok (st, rest))))"

end
