(* ===== verification/Attachment_Safety.thy ===== *)
theory Attachment_Safety
  imports Attachment_Cache
begin

text \<open>
  What the maintenance of the cache promises: garbage collection and reconciliation never take the file, the row or the lease of an
  attachment that a live turn holds, whatever fails on the way.
\<close>

section \<open>Triples\<close>

text \<open>From a state with \<open>P\<close> the operation ends in one with \<open>P\<close>, also when it fails, and a result satisfies \<open>Q\<close>.\<close>

definition keeps :: "(cache \<Rightarrow> bool) \<Rightarrow> 'a cache_m \<Rightarrow> ('a \<Rightarrow> bool) \<Rightarrow> bool" where
  "keeps P m Q \<longleftrightarrow> (\<forall>c. P c \<longrightarrow> P (snd (m c)) \<and> (\<forall>a. fst (m c) = Inr a \<longrightarrow> Q a))"

lemma keepsI: "(\<And>c. P c \<Longrightarrow> P (snd (m c)) \<and> (\<forall>a. fst (m c) = Inr a \<longrightarrow> Q a)) \<Longrightarrow> keeps P m Q"
  by (simp add: keeps_def)

lemma keeps_ok: "Q a \<Longrightarrow> keeps P (cm_ok a) Q"
  by (simp add: keeps_def cm_ok_def)

lemma keeps_fail: "keeps P (cm_fail e) Q"
  by (simp add: keeps_def cm_fail_def)

lemma keeps_lift: "keeps P (cm_lift r) (\<lambda>_. True)"
  by (simp add: keeps_def cm_lift_def)

lemma keeps_bind: "keeps P m R \<Longrightarrow> (\<And>a. R a \<Longrightarrow> keeps P (f a) Q) \<Longrightarrow> keeps P (cm_bind m f) Q"
  by (auto simp: keeps_def cm_bind_def split: prod.splits sum.splits)

lemma keeps_bind_any: "keeps P m (\<lambda>_. True) \<Longrightarrow> (\<And>a. keeps P (f a) Q) \<Longrightarrow> keeps P (cm_bind m f) Q"
  by (rule keeps_bind)

lemma keeps_weaken: "keeps P m Q \<Longrightarrow> (\<And>a. Q a \<Longrightarrow> Q' a) \<Longrightarrow> keeps P m Q'"
  by (auto simp: keeps_def)

lemma keeps_store_call:
  assumes "\<And>c a t. P c \<Longrightarrow> job (cc_tables c) = Inr (a, t) \<Longrightarrow> P (c\<lparr>cc_tables := t\<rparr>) \<and> Q a"
  shows "keeps P (store_call fault context' job) Q"
  using assms by (auto simp: keeps_def store_call_def with_fault_def split: option.splits sum.splits)

section \<open>An attachment in use\<close>

text \<open>The file is there with the size the row says, the row is there, the lease is there and its turn is not settled.\<close>

definition in_use :: "string \<Rightarrow> nat list \<Rightarrow> attachment_lease_row \<Rightarrow> cache \<Rightarrow> bool" where
  "in_use sha content l c \<longleftrightarrow>
     attachments_wf (cc_tables c) \<and> is_valid_sha256_name sha \<and> cc_files c sha = Some content \<and>
     (\<exists>r\<in>set (ax_attachments (cc_tables c)). ar_sha256 r = sha \<and> ar_bytes r = length content) \<and>
     l \<in> set (ax_leases (cc_tables c)) \<and> le_sha256 l = sha \<and> \<not> stale_lease (ax_turns (cc_tables c)) l"

lemma in_use_file: "in_use sha content l c \<Longrightarrow> cc_files c sha = Some content"
  by (simp add: in_use_def)

lemma in_use_remove:
  "name \<noteq> sha \<Longrightarrow> keeps (in_use sha content l) (remove_direct_child fault name) (\<lambda>_. True)"
  by (auto simp: keeps_def remove_direct_child_def in_use_def split: option.splits)

lemma in_use_delete: "keeps (in_use sha content l) (store_call fault context' (delete_attachment name)) (\<lambda>deleted. deleted \<longrightarrow> name \<noteq> sha)"
proof (rule keeps_store_call)
  fix c a t
  assume use: "in_use sha content l c" and job: "delete_attachment name (cc_tables c) = Inr (a, t)"
  have wf: "attachments_wf t" using use delete_attachment_wf [OF _ job] by (simp add: in_use_def)
  have "leased sha (cc_tables c)" using use by (auto simp: leased_def in_use_def list_ex_iff)
  with job have "t = cc_tables c \<and> \<not> a \<or> name \<noteq> sha \<and> t = (cc_tables c)\<lparr>ax_attachments := filter (\<lambda>r. ar_sha256 r \<noteq> name) (ax_attachments (cc_tables c))\<rparr>"
    by (auto simp: delete_attachment_def split: if_splits dest!: run_sized_Inr)
  with use wf show "in_use sha content l (c\<lparr>cc_tables := t\<rparr>) \<and> (a \<longrightarrow> name \<noteq> sha)" by (auto simp: in_use_def)
qed

lemma in_use_force: "name \<noteq> sha \<Longrightarrow> keeps (in_use sha content l) (store_call fault context' (delete_attachment_force name)) (\<lambda>_. True)"
proof (rule keeps_store_call)
  fix c a t
  assume name: "name \<noteq> sha" and use: "in_use sha content l c" and job: "delete_attachment_force name (cc_tables c) = Inr (a, t)"
  have "attachments_wf t" using use delete_attachment_force_wf [OF _ job] by (simp add: in_use_def)
  with name use run_sized_Inr [OF job [unfolded delete_attachment_force_def]] show "in_use sha content l (c\<lparr>cc_tables := t\<rparr>) \<and> True"
    by (auto simp: in_use_def)
qed

lemma in_use_row: "keeps (in_use sha content l) (store_call fault context' (attachment_row_read name)) (\<lambda>_. True)"
  by (rule keeps_store_call) (auto simp: attachment_row_read_def dest!: run_sized_Inr)

lemma in_use_stale: "keeps (in_use sha content l) (store_call fault context' delete_stale_attachment_leases) (\<lambda>_. True)"
  by (rule keeps_store_call) (auto simp: delete_stale_attachment_leases_def in_use_def leases_filter_wf)

lemma in_use_list:
  "keeps (in_use sha content l) (store_call fault context' list_attachments)
     (\<lambda>rows. distinct (map ar_sha256 rows) \<and> (\<exists>r\<in>set rows. ar_sha256 r = sha \<and> ar_bytes r = length content))"
proof (rule keeps_store_call)
  fix c a t
  assume use: "in_use sha content l c" and "list_attachments (cc_tables c) = Inr (a, t)"
  then have a: "a = sort_key ar_last_used_ms (sort_key ar_sha256 (ax_attachments (cc_tables c)))" and t: "t = cc_tables c"
    by (auto simp: list_attachments_def split: if_splits)
  have "distinct (map ar_sha256 a)" using use by (simp add: a distinct_map in_use_def attachments_wf_def)
  with use show "in_use sha content l (c\<lparr>cc_tables := t\<rparr>) \<and> distinct (map ar_sha256 a) \<and> (\<exists>r\<in>set a. ar_sha256 r = sha \<and> ar_bytes r = length content)"
    by (auto simp: a t in_use_def)
qed

section \<open>Garbage collection\<close>

lemma in_use_unlink: "name \<noteq> sha \<Longrightarrow> keeps (in_use sha content l) (unlink_evicted env name) (\<lambda>_. True)"
  unfolding unlink_evicted_def
  by (auto intro!: keeps_ok keeps_bind_any [OF in_use_row] keeps_bind_any [OF in_use_remove])

lemma in_use_gc_loop: "keeps (in_use sha content l) (gc_loop env limits rows acc files sum_held) (\<lambda>_. True)"
proof (induction rows arbitrary: acc files sum_held)
  case (Cons row rows)
  then show ?case
    by (auto simp: Let_def intro!: keeps_ok keeps_bind [OF in_use_delete] keeps_bind_any [OF in_use_unlink])
qed (simp add: keeps_ok)

lemma in_use_gc: "keeps (in_use sha content l) (gc_inner env limits) (\<lambda>_. True)"
  unfolding gc_inner_def by (rule keeps_bind [OF in_use_list]) (rule in_use_gc_loop)

section \<open>Reconciliation\<close>

definition foreign_child :: "string \<Rightarrow> child \<Rightarrow> bool" where
  "foreign_child sha ch \<longleftrightarrow> ch \<noteq> NamedChild sha"

lemma in_use_delete_children:
  "list_all (foreign_child sha) chs \<Longrightarrow> keeps (in_use sha content l) (delete_children env batch chs deletions count) (\<lambda>_. True)"
proof (induction chs arbitrary: deletions count)
  case (Cons ch chs)
  have "keeps (in_use sha content l) (remove_child env ch) (\<lambda>_. True)"
    using Cons.prems by (cases ch) (auto simp: remove_child_def foreign_child_def intro: keeps_ok keeps_fail in_use_remove split: option.splits)
  with Cons show ?case by (auto intro!: keeps_ok keeps_bind_any)
qed (simp add: keeps_ok)

lemma in_use_delete_orphans:
  "map_of rows sha \<noteq> None \<Longrightarrow> keeps (in_use sha content l) (delete_orphans env batch rows shas deletions count) (\<lambda>_. True)"
proof (induction shas arbitrary: deletions count)
  case (Cons name shas)
  then show ?case
    by (cases "name = sha") (auto intro!: keeps_ok keeps_bind_any [OF in_use_remove])
qed (simp add: keeps_ok)

lemma mark_corrupt_skips:
  "map_of rows sha = Some (file_len env c sha) \<Longrightarrow> sha \<notin> set marked \<Longrightarrow> sha \<notin> set (snd (mark_corrupt env c batch rows shas deletions marked))"
proof (induction shas arbitrary: deletions marked)
  case (Cons name shas)
  then show ?case by (cases "name = sha") (auto split: option.splits)
qed simp

lemma in_use_drop_loop:
  "sha \<notin> set shas \<Longrightarrow> keeps (in_use sha content l) (drop_rows_loop env unlink shas dropped corrupt) (\<lambda>_. True)"
proof (induction shas arbitrary: dropped corrupt)
  case (Cons name shas)
  then have "name \<noteq> sha" "sha \<notin> set shas" by auto
  with Cons.IH show ?case
    by (auto simp: Let_def intro!: keeps_bind_any [OF in_use_force] keeps_bind_any [OF in_use_row] keeps_bind_any [OF in_use_remove])
qed (simp add: keeps_ok)

lemma rows_by_sha_lookup:
  assumes "distinct (map ar_sha256 rows)" "r \<in> set rows" "is_valid_sha256_name (ar_sha256 r)"
  shows "map_of (rows_by_sha rows) (ar_sha256 r) = Some (ar_bytes r)"
proof -
  have "distinct (map fst (rows_by_sha rows))" using assms(1) by (simp add: rows_by_sha_def comp_def distinct_map_filter')
  moreover have "(ar_sha256 r, ar_bytes r) \<in> set (rows_by_sha rows)" using assms(2,3) by (auto simp: rows_by_sha_def)
  ultimately show ?thesis by (rule map_of_is_SomeI)
qed

text \<open>The candidates of a scan, of whatever rows and entries, never name a content file for removal without a look at the rows.\<close>

lemma sha_name_not_special:
  assumes "is_valid_sha256_name sha"
  shows "strip_prefix ATTACHMENT_TEMP_PREFIX sha = None"
proof -
  from assms obtain ch rest where "sha = ch # rest" "(of_char ch :: nat) \<noteq> 46"
    by (cases sha) (auto simp: is_valid_sha256_name_def Let_def)
  then show ?thesis by (auto simp: ATTACHMENT_TEMP_PREFIX_def)
qed

definition scan_spares :: "string \<Rightarrow> scan_candidates \<Rightarrow> bool" where
  "scan_spares sha sc \<longleftrightarrow> list_all (foreign_child sha) (sn_temp sc) \<and> list_all (foreign_child sha) (sn_unrecognized sc)"

lemma classify_spares:
  assumes "is_valid_sha256_name sha" "scan_spares sha sc"
  shows "scan_spares sha (classify_file rows name actual sc)"
proof (cases "name = sha")
  case True
  then show ?thesis using assms by (simp add: classify_file_def sha_name_not_special scan_spares_def split: option.split)
next
  case False
  then show ?thesis using assms(2) by (simp add: classify_file_def scan_spares_def foreign_child_def split: option.split)
qed

lemma scan_entry_spares:
  assumes "is_valid_sha256_name sha" "scan_spares sha sc"
  shows "scan_spares sha (scan_entry rows entry sc)"
proof -
  have "scan_spares sha (sc\<lparr>sn_scanned := n\<rparr>)" for n using assms(2) by (simp add: scan_spares_def)
  moreover have "scan_spares sha (inspect_entry rows entry sc')" if "scan_spares sha sc'" for sc'
  proof (cases entry)
    case (EntryNamed name kind)
    then show ?thesis using that classify_spares [OF assms(1) that] by (cases kind) (simp_all add: inspect_entry_def scan_spares_def)
  next
    case (EntryRaw i kind)
    then show ?thesis using that by (cases kind) (simp_all add: inspect_entry_def scan_spares_def foreign_child_def)
  qed (use that in \<open>simp add: inspect_entry_def scan_spares_def\<close>)
  ultimately show ?thesis by (simp add: scan_entry_def)
qed

lemma scan_spares_fold:
  "is_valid_sha256_name sha \<Longrightarrow> scan_spares sha sc \<Longrightarrow> scan_spares sha (fold (scan_entry rows) entries sc)"
  by (induction entries arbitrary: sc) (simp_all add: scan_entry_spares)

lemma in_use_apply:
  assumes "list_all (foreign_child sha) (sn_temp sc)" "list_all (foreign_child sha) (sn_unrecognized sc)"
    "map_of rows sha = Some (length content)" "sha \<notin> set malformed" "ce_io env (IoSize sha) = None" "ce_io env (IoKind sha) = None"
  shows "keeps (in_use sha content l) (apply_scan_candidates env sc rows malformed batch) (\<lambda>applied. sha \<notin> set (ap_drop_rows applied))"
  unfolding apply_scan_candidates_def
proof (rule keeps_bind_any [OF in_use_delete_children [OF assms(1)]], clarify, rule keeps_bind_any [OF in_use_delete_orphans], simp add: assms(3), clarify)
  fix deletions orphan temp
  let ?mark = "\<lambda>c. (Inr (mark_corrupt env c batch rows (sn_corrupt sc) deletions []), c)"
  have mark: "keeps (in_use sha content l) ?mark (\<lambda>x. sha \<notin> set (snd x))"
  proof (rule keepsI)
    fix c :: cache
    assume use: "in_use sha content l c"
    then have "map_of rows sha = Some (file_len env c sha)" by (simp add: assms(3,5) file_len_def in_use_def)
    with use mark_corrupt_skips [OF this, of "[]"] show "in_use sha content l (snd (?mark c)) \<and> (\<forall>a. fst (?mark c) = Inr a \<longrightarrow> sha \<notin> set (snd a))" by simp
  qed
  show "keeps (in_use sha content l) (cm_bind ?mark (\<lambda>(deletions, corrupt).
     cm_bind (delete_children env batch (sn_unrecognized sc) deletions orphan) (\<lambda>(deletions, orphan) c.
       let marked = malformed @ corrupt;
           missing = filter (\<lambda>sha. sha \<notin> set marked \<and> \<not> regular_file_exists env c sha) (map fst rows) in
       (Inr \<lparr>ap_temp_files = temp, ap_orphan_files = orphan, ap_drop_rows = remdups (marked @ missing), ap_delete_after_drop = corrupt\<rparr>, c))))
     (\<lambda>applied. sha \<notin> set (ap_drop_rows applied))"
    by (rule keeps_bind [OF mark], clarify, rule keeps_bind_any [OF in_use_delete_children [OF assms(2)]])
      (clarify, rule keepsI, simp add: Let_def assms(4,6) regular_file_exists_def in_use_file)
qed

lemma in_use_reconcile_locked:
  assumes "is_valid_sha256_name sha" "list_all (foreign_child sha) (sn_temp sc)" "list_all (foreign_child sha) (sn_unrecognized sc)"
    "ce_io env (IoSize sha) = None" "ce_io env (IoKind sha) = None"
  shows "keeps (in_use sha content l) (reconcile_locked env limits sc completed) (\<lambda>_. True)"
  unfolding reconcile_locked_def
proof (rule keeps_bind [OF in_use_list], elim conjE bexE)
  fix rows :: "attachment_row list" and r
  assume rows: "distinct (map ar_sha256 rows)" "r \<in> set rows" "ar_sha256 r = sha" "ar_bytes r = length content"
  have found: "map_of (rows_by_sha rows) sha = Some (length content)"
    using rows_by_sha_lookup [OF rows(1,2)] rows(3,4) assms(1) by simp
  have "sha \<notin> set (map ar_sha256 (filter (\<lambda>r. \<not> is_valid_sha256_name (ar_sha256 r)) rows))" using assms(1) by auto
  note applied = in_use_apply [OF assms(2,3) found this assms(4,5)]
  show "keeps (in_use sha content l) (cm_bind (apply_scan_candidates env sc (rows_by_sha rows)
         (map ar_sha256 (filter (\<lambda>r. \<not> is_valid_sha256_name (ar_sha256 r)) rows)) (atl_reconcile_batch limits)) (\<lambda>applied.
     cm_bind (drop_rows_loop env (ap_delete_after_drop applied) (ap_drop_rows applied) 0 0) (\<lambda>(dropped, corrupt).
     cm_bind (store_call (ce_store env CallStale) ''deleting stale attachment leases'' delete_stale_attachment_leases) (\<lambda>stale.
     cm_bind (gc_inner env limits) (\<lambda>gc.
       cm_ok \<lparr>rs_scanned_entries = sn_scanned sc, rs_temp_files = ap_temp_files applied, rs_orphan_files = ap_orphan_files applied,
         rs_corrupt_files = corrupt, rs_dropped_rows = dropped, rs_stale_leases = stale, rs_skipped_dirs = sn_skipped_dirs sc,
         rs_errors = sn_errors sc, rs_completed_cycle = completed, rs_gc = gc\<rparr>))))) (\<lambda>_. True)"
    by (rule keeps_bind [OF applied], rule keeps_bind_any [OF in_use_drop_loop], assumption, clarify,
        rule keeps_bind_any [OF in_use_stale], rule keeps_bind_any [OF in_use_gc]) (simp add: keeps_ok)
qed

lemma scan_batch_spares:
  assumes "is_valid_sha256_name sha"
  shows "scan_spares sha (fst (scan_directory_batch rows batch entries))"
proof -
  have "scan_spares sha no_candidates" by (simp add: scan_spares_def no_candidates_def)
  from scan_spares_fold [OF assms this] show ?thesis by (simp add: scan_directory_batch_def)
qed

lemma in_use_scanned:
  assumes "is_valid_sha256_name sha" "ce_io env (IoSize sha) = None" "ce_io env (IoKind sha) = None"
  shows "keeps (in_use sha content l) (reconcile_locked env limits (fst (scan_directory_batch rows batch entries)) completed) (\<lambda>_. True)"
  using in_use_reconcile_locked [OF assms(1) _ _ assms(2,3)] scan_batch_spares [OF assms(1)] by (simp add: scan_spares_def)

lemma in_use_reconcile:
  assumes "is_valid_sha256_name sha" "ce_io env (IoSize sha) = None" "ce_io env (IoKind sha) = None"
  shows "keeps (in_use sha content l) (reconcile env limits opened) (\<lambda>_. True)"
  unfolding reconcile_def
  by (rule keeps_bind [OF in_use_list], rule keeps_bind_any [OF keeps_lift], unfold Let_def case_prod_unfold, rule keeps_bind_any [OF in_use_scanned [OF assms]]) (simp add: keeps_ok)

section \<open>Maintenance\<close>

text \<open>
  C40: Cache maintenance never takes an attachment that is in use. An attachment is in use when its content file is there, its row has the
  size of the file, and a lease of a turn that is not settled points to it. Garbage collection, a whole reconciliation, and the part of it that
  deletes with the candidates of a scan made at any earlier time from any rows and any directory entries, leave the file, the row and the lease
  as they are, whatever limits are set and whichever store calls and file operations fail, as long as the metadata of this one file can be read.
\<close>

theorem attachment_in_use_survives_maintenance:
  assumes "in_use sha content l c" "ce_io env (IoSize sha) = None" "ce_io env (IoKind sha) = None"
  shows "in_use sha content l (snd (gc_inner env limits c)) \<and> in_use sha content l (snd (reconcile env limits opened c)) \<and>
    in_use sha content l (snd (reconcile_locked env limits (fst (scan_directory_batch rows batch earlier)) completed c))"
proof -
  have valid: "is_valid_sha256_name sha" using assms(1) by (simp add: in_use_def)
  show ?thesis
    using in_use_gc in_use_reconcile [OF valid assms(2,3)] in_use_scanned [OF valid assms(2,3)] assms(1) by (simp add: keeps_def)
qed

definition demo_sha :: string where "demo_sha = replicate 64 CHR ''a''"

definition demo_lease :: attachment_lease_row where
  "demo_lease = \<lparr>le_lease_token = ''alease_1'', le_sha256 = demo_sha, le_turn_row_id = 1, le_created_ms = 0\<rparr>"

definition demo_cache :: cache where
  "demo_cache =
     \<lparr>cc_files = [demo_sha \<mapsto> [1, 2, 3], ''.tmp-1'' \<mapsto> [7]],
      cc_tables = \<lparr>ax_attachments = [\<lparr>ar_sha256 = demo_sha, ar_bytes = 3, ar_kind = ''file'', ar_created_ms = 0, ar_last_used_ms = 0\<rparr>],
        ax_leases = [demo_lease], ax_turns = [\<lparr>tn_id = 1, tn_scope_key = ''im:c'', tn_client_message_id = ''bridge-1'', tn_codex_thread_id = None,
          tn_codex_turn_id = None, tn_state = StRunning, tn_uncertain = False, tn_created_ms = 0, tn_updated_ms = 0, tn_inbound_count = 1\<rparr>]\<rparr>,
      cc_log = []\<rparr>"

definition demo_cache_env :: cache_env where
  "demo_cache_env =
     \<lparr>ce_sha256 = (\<lambda>_. replicate 32 170), ce_io = (\<lambda>_. None), ce_store = (\<lambda>_. None), ce_cancelled = (\<lambda>_. False), ce_store_ms = 0,
      ce_now_ms = 10 ^ 12, ce_uuid = ''2''\<rparr>"

lemma demo_sha_name: "is_valid_sha256_name demo_sha" "demo_sha \<noteq> ''.tmp-1''"
proof -
  have "length demo_sha \<noteq> length ''.tmp-1''" by (simp add: demo_sha_def)
  then show "demo_sha \<noteq> ''.tmp-1''" by metis
qed (simp add: is_valid_sha256_name_def demo_sha_def list_all_iff)

lemma demo_in_use: "in_use demo_sha [1, 2, 3] demo_lease demo_cache"
  by (simp add: in_use_def demo_cache_def demo_lease_def attachments_wf_def stale_lease_def settled_turn_def attachment_limit_defs
      demo_sha_name)

theorem attachment_in_use_survives_maintenance_witness:
  "in_use demo_sha [1, 2, 3] demo_lease (snd (gc_inner demo_cache_env default_attachment_limits demo_cache)) \<and>
   in_use demo_sha [1, 2, 3] demo_lease (snd (reconcile demo_cache_env default_attachment_limits
     (Inr [EntryNamed ''.tmp-1'' (EkFile 1), EntryNamed demo_sha (EkFile 2)]) demo_cache)) \<and>
   in_use demo_sha [1, 2, 3] demo_lease (snd (reconcile_locked demo_cache_env default_attachment_limits
     (fst (scan_directory_batch [] 8 [EntryNamed demo_sha (EkFile 3)])) True demo_cache))"
  by (rule attachment_in_use_survives_maintenance [OF demo_in_use]) (simp_all add: demo_cache_env_def)

end
