(* ===== verification/Spec2Isabelle.thy ===== *)
theory Spec2Isabelle
  imports Lark_Fragments Reply_Sink Inbound_Once Live_Config Adoption_Outcome Attachment_Safety
begin

text \<open>
  The verification development of lark-codex-bridge, a daemon that connects Lark (Feishu) chats to a local
  Codex app-server. All paths below are under \<^verbatim>\<open>src/src/\<close>.

  \<^bold>\<open>The program.\<close> Events arrive over a WebSocket as protobuf frames, large ones in fragments
  (\<^verbatim>\<open>lark/frame.rs\<close>, \<^verbatim>\<open>lark/fragments.rs\<close>). A normalized event is registered in the durable inbox of an SQLite
  store (\<^verbatim>\<open>store/dedup.rs\<close>) before it is acknowledged, and goes to the router (\<^verbatim>\<open>runtime/router.rs\<close>), which asks the
  access policy (\<^verbatim>\<open>runtime/policy.rs\<close>), rejects with a notice or puts it into the mailbox of the actor of its scope,
  a chat or a topic (\<^verbatim>\<open>runtime/scope.rs\<close>). The actor gathers messages into a batch and runs it as one Codex turn,
  or answers an owner command (\<^verbatim>\<open>runtime/commands.rs\<close>, \<^verbatim>\<open>runtime/live.rs\<close>). The turn claims its events
  atomically (\<^verbatim>\<open>store/sessions.rs\<close>, \<^verbatim>\<open>store/dedup.rs\<close>); its output is projected (\<^verbatim>\<open>render/mod.rs\<close>) and turned into rows of a
  durable outbox (\<^verbatim>\<open>outbox/sink.rs\<close>, \<^verbatim>\<open>outbox/payload.rs\<close>, \<^verbatim>\<open>store/outbox.rs\<close>), which a pump (\<^verbatim>\<open>outbox/pump.rs\<close>) delivers to Lark in order.
  Attachments of a message are fetched into a content-addressed cache and leased to the turn (\<^verbatim>\<open>runtime/attachments.rs\<close>, \<^verbatim>\<open>store/attachments.rs\<close>).
  What the program has to get right is that no accepted event is lost or run twice, that no message which may have been
  posted is posted again, that replies keep their order, that only authorised people reach Codex and only
  inside the configured directories, and that every queue is bounded.

  \<^bold>\<open>Conventions.\<close> A store operation is a job, a function from the tables to an error or to an answer and new tables
  (\<^theory_text>\<open>Store_Base\<close>): the writer thread runs one job at a time in one transaction, so a failed job changes nothing.
  Tables are lists of records in rowid order; the unique indexes, triggers and checks of \<^verbatim>\<open>store/schema.rs\<close> that the operations
  rely on are part of them. Rust strings that are only stored are byte strings (\<open>string\<close>), text that is looked into is a list of
  Unicode scalar values (\<open>ustring\<close>), related by UTF-8 (\<^theory_text>\<open>Unicode_Text\<close>). Saturating and wrapping arithmetic is written out with
  its bounds (\<^theory_text>\<open>Bridge_Prelude\<close>); instants and durations are nanoseconds, store clocks milliseconds, and every clock reading is
  an argument. Errors are values; a panic of the source is an error of the model that is proved unreachable.
  The contracts of \<^theory_text>\<open>Store_Base\<close>, the locales \<open>invariant_steps\<close>, \<open>guarded_steps\<close> and \<open>clocked_steps\<close> with the sublocale that
  relates the first two, say what a component with operations promises over any run; every stateful component interprets one on its own operations.

  \<^bold>\<open>The theories.\<close>
  \<^item> \<^theory_text>\<open>Bridge_Limits\<close>, \<^theory_text>\<open>Runtime_Limits\<close>: the named limits of \<^verbatim>\<open>limits.rs\<close>.
  \<^item> \<^theory_text>\<open>Lark_Frame\<close>, \<^theory_text>\<open>Lark_Fragments\<close>: frames, headers and the reassembler. Any order of the fragments gives the message once and at the
    end; no frame sequence makes it panic or leave its bounds.
  \<^item> \<^theory_text>\<open>Outbox_Store\<close>, \<^theory_text>\<open>Outbox_Invariants\<close>, \<^theory_text>\<open>Outbox_Fifo\<close>, \<^theory_text>\<open>Outbox_Retention\<close>: the outbox table with enqueue, claim, completion, failure, deferral,
    release, recovery and sweep; its invariant, that claims never overtake, and what survives crashes and retention.
  \<^item> \<^theory_text>\<open>Delivery\<close>, \<^theory_text>\<open>Outbox_Payload\<close>, \<^theory_text>\<open>Outbox_Pump\<close>, \<^theory_text>\<open>Outbox_Pump_Safety\<close>, \<^theory_text>\<open>Outbox_Outcomes\<close>: error classification, the versioned payload,
    the pump on every path with bounded receipt retries; that a request which may have been applied is never repeated, save for a card update
    that the channel calls safe to repeat, that the settlement
    of an attempt refines the delivery contract, and when a final answer is posted separately.
  \<^item> \<^theory_text>\<open>Email_Mask\<close>, \<^theory_text>\<open>Reply_Projector\<close>, \<^theory_text>\<open>Reply_Sink\<close>: masking of addresses (equal to a reference definition), splitting, throttled
    progress, the final reply, and the outbox rows a turn, a command or a rejection becomes; a turn that did not complete becomes one notice
    to its last message or an error the caller sees.
  \<^item> \<^theory_text>\<open>Inbound_Event\<close>, \<^theory_text>\<open>Inbound_Store\<close>, \<^theory_text>\<open>Turn_Store\<close>, \<^theory_text>\<open>Inbound_Invariants\<close>, \<^theory_text>\<open>Inbound_Turns\<close>, \<^theory_text>\<open>Bridge_Runs\<close>, \<^theory_text>\<open>Inbound_Once\<close>: the inbox and the turn table with every operation,
    their joint invariant over any run, recovery after a restart, at-most-once claiming, and commands answered once.
  \<^item> \<^theory_text>\<open>Bridge_Commands\<close>, \<^theory_text>\<open>Bridge_Config\<close>, \<^theory_text>\<open>Access_Policy\<close>, \<^theory_text>\<open>Live_Config\<close>: the command language with cards and forms, the validated configuration,
    the access matrix and the confinement of workspaces, and the configuration that commands change at run time.
  \<^item> \<^theory_text>\<open>Pending_Media\<close>, \<^theory_text>\<open>Scope_Actor\<close>, \<^theory_text>\<open>Scope_Order\<close>: attachments that wait for their text, and one scope actor as a step function: over any run messages are acted on in
    the order of arrival, every message that went has left for a reason of its own (it ran, it was settled in the store, its store call failed, or
    the actor was cancelled), the bounds hold, and gathering ends.
  \<^item> \<^theory_text>\<open>Router\<close>, \<^theory_text>\<open>Router_Safety\<close>: routing of one event, eviction, the retry lane, and the runs of the router with all its actors on one
    store: an event that is not stored as settled is in a mailbox or comes back to the caller, only authorised events reach a scope, and everything stays bounded.
  \<^item> \<^theory_text>\<open>Turn_Run\<close>, \<^theory_text>\<open>Turn_Logic\<close>, \<^theory_text>\<open>Turn_Safety\<close>, \<^theory_text>\<open>Turn_Outcome\<close>: one Codex turn (\<open>process_batch\<close>) as a program over the tables, with early returns, waits and
    cancellation; triples for its parts with a rule per combinator; and what holds of the whole turn whatever Codex, the supervisor and the
    store do: Codex is asked once and only for a durable claim, only approved directories are named, every event of a finished batch is
    settled or was claimed by the turn, whose own reply to exactly those messages is in the outbox, and pending media follows the request. A concrete turn is run through.
  \<^item> \<^theory_text>\<open>Adoption_Store\<close>, \<^theory_text>\<open>Adoption_Safety\<close>, \<^theory_text>\<open>Adoption_Outcome\<close>: the durable saga that takes over a Codex thread (\<^verbatim>\<open>store/adoption.rs\<close>) with the invariant
    that ties mappings to sagas, kept by every operation of the saga and by the scope and thread operations around it; over any run an
    adopted mapping ends only by a confirmed release, every token of an earlier generation is refused, an open saga can be closed, the startup fence succeeds, and the
    gate of a turn agrees with the saga.
  \<^item> \<^theory_text>\<open>Attachment_Store\<close>, \<^theory_text>\<open>Attachment_Cache\<close>, \<^theory_text>\<open>Attachment_Safety\<close>: attachment rows and leases with their invariant, the fetch of one resource with
    installation and lease, garbage collection and reconciliation; maintenance never takes an attachment that a live turn holds.

  \<^bold>\<open>Arguments for the surroundings.\<close> Third-party and operating-system code enters as arguments: the JSON codecs (\<open>json_codec\<close>, \<open>inbound_codec\<close>,
  with the read-back law as hypothesis where it matters), the JSON string reader of the command parser, the Markdown renderer, the
  SHA-256 digest, the file system as a record of functions (Unix paths only), the answers of Lark (\<open>deliver\<close>), the faults that store calls
  meet, the answers of Codex, the states the supervisor shows and the moments of cancellation (\<open>turn_env\<close>), the outcome of writing the configuration file, the failures of file operations and the entries of a directory scan (\<open>cache_env\<close>), and the iteration order of the table of actors. A witness instantiates
  them with concrete functions. No fuel is used: every recursion is structural or has a measure, loops that wait for the
  outside are functions of the list of wake-ups or attempts they see, and where such a list runs out the result says that the loop is still running.

  \<^bold>\<open>What modelling showed.\<close> Modelling found behaviour that the code does not intend: an address split over two progress updates stays unmasked,
  a blank final answer leaves its card running, a form field with a Unicode space sets a second setting, a failed scope keeps
  its slot for ever, eviction can catch an actor with a message in its hands, and the check
  of a cached file hashes twice, so that a valid file is never recognised and is written again by every fetch.

  \<^bold>\<open>Not modelled.\<close> Prompts, quotes and the context registry; the Codex client, its supervisor and external endpoints;
  HTTP, WebSocket and sidecar I/O; normalisation of the wire JSON of an event; downloads, the ownership and permissions of the cache directory, speech recognition and the process
  side of thread adoption; the Markdown renderer and the card JSON; process entry, telemetry and onboarding. These are I/O around the modelled core or, for the
  normalisation, the next part of the plan.
\<close>

end
